(* ===== verification/Sdk_Prelude.thy ===== *)
theory Sdk_Prelude
  imports Main "HOL-Library.Word"
begin

unbundle bit_operations_syntax

text \<open>
  Shared ground of the boot-loader models: the machine integers of the C code, its status
  codes, the memory-mapped register bus as a parameter of every definition that touches
  hardware, little-endian views of memory, and the lemmas on words, lists and lookups that
  several components use. The build modelled is the 64-bit A53 one (\<open>ARMA53_64\<close>), so
  \<open>PTRSIZE\<close> and \<open>UINTPTR\<close> are 64 bits wide.
\<close>

section \<open>Machine integers\<close>

type_synonym u8 = "8 word"
type_synonym u16 = "16 word"
type_synonym u32 = "32 word"
type_synonym u64 = "64 word"

section \<open>Status codes\<close>

text \<open>The codes of \<open>xfsbl_error.h\<close> that the modelled functions return.\<close>

abbreviation (input) XFSBL_SUCCESS :: u32 where "XFSBL_SUCCESS \<equiv> 0x0"
abbreviation (input) XFSBL_STATUS_JTAG :: u32 where "XFSBL_STATUS_JTAG \<equiv> 0x1"
abbreviation (input) XFSBL_SUCCESS_NOT_PARTITION_OWNER :: u32 where
  "XFSBL_SUCCESS_NOT_PARTITION_OWNER \<equiv> 0x2"
abbreviation (input) XFSBL_STATUS_CONTINUE_PARTITION_LOAD :: u32 where
  "XFSBL_STATUS_CONTINUE_PARTITION_LOAD \<equiv> 0x3"
abbreviation (input) XFSBL_STATUS_CONTINUE_OTHER_HANDOFF :: u32 where
  "XFSBL_STATUS_CONTINUE_OTHER_HANDOFF \<equiv> 0x4"
abbreviation (input) XFSBL_STATUS_SECONDARY_BOOT_MODE :: u32 where
  "XFSBL_STATUS_SECONDARY_BOOT_MODE \<equiv> 0x5"
abbreviation (input) XFSBL_ERROR_UNSUPPORTED_QSPI :: u32 where "XFSBL_ERROR_UNSUPPORTED_QSPI \<equiv> 0xB"
abbreviation (input) XFSBL_ERROR_QSPI_INIT :: u32 where "XFSBL_ERROR_QSPI_INIT \<equiv> 0xC"
abbreviation (input) XFSBL_ERROR_NO_OF_PARTITIONS :: u32 where "XFSBL_ERROR_NO_OF_PARTITIONS \<equiv> 0xD"
abbreviation (input) XFSBL_ERROR_PPD :: u32 where "XFSBL_ERROR_PPD \<equiv> 0xE"
abbreviation (input) XFSBL_ERROR_XIP_AUTH_ENC_PRESENT :: u32 where
  "XFSBL_ERROR_XIP_AUTH_ENC_PRESENT \<equiv> 0xF"
abbreviation (input) XFSBL_ERROR_XIP_EXEC_ADDRESS :: u32 where "XFSBL_ERROR_XIP_EXEC_ADDRESS \<equiv> 0x10"
abbreviation (input) XFSBL_ERROR_PARTITION_LENGTH :: u32 where "XFSBL_ERROR_PARTITION_LENGTH \<equiv> 0x11"
abbreviation (input) XFSBL_ERROR_INVALID_CHECKSUM_TYPE :: u32 where
  "XFSBL_ERROR_INVALID_CHECKSUM_TYPE \<equiv> 0x12"
abbreviation (input) XFSBL_ERROR_INVALID_CPU_TYPE :: u32 where "XFSBL_ERROR_INVALID_CPU_TYPE \<equiv> 0x13"
abbreviation (input) XFSBL_ERROR_LS_CPU_TYPE :: u32 where "XFSBL_ERROR_LS_CPU_TYPE \<equiv> 0x14"
abbreviation (input) XFSBL_ERROR_INVALID_DEST_DEVICE :: u32 where
  "XFSBL_ERROR_INVALID_DEST_DEVICE \<equiv> 0x15"
abbreviation (input) XFSBL_ERROR_QSPI_LENGTH :: u32 where "XFSBL_ERROR_QSPI_LENGTH \<equiv> 0x19"
abbreviation (input) XFSBL_ERROR_INVALID_QSPI_CONNECTION :: u32 where
  "XFSBL_ERROR_INVALID_QSPI_CONNECTION \<equiv> 0x1A"
abbreviation (input) XFSBL_ERROR_IHT_CHECKSUM :: u32 where "XFSBL_ERROR_IHT_CHECKSUM \<equiv> 0x21"
abbreviation (input) XFSBL_ERROR_QSPI_READ :: u32 where "XFSBL_ERROR_QSPI_READ \<equiv> 0x22"
abbreviation (input) XFSBL_ERROR_ADDRESS :: u32 where "XFSBL_ERROR_ADDRESS \<equiv> 0x2E"
abbreviation (input) XFSBL_ERROR_UNAVAILABLE_CPU :: u32 where "XFSBL_ERROR_UNAVAILABLE_CPU \<equiv> 0x52"
abbreviation (input) XFSBL_ERROR_PMU_GLOBAL_REQ_ISO :: u32 where
  "XFSBL_ERROR_PMU_GLOBAL_REQ_ISO \<equiv> 0x55"
abbreviation (input) XFSBL_ERROR_QSPI_MANUAL_START :: u32 where "XFSBL_ERROR_QSPI_MANUAL_START \<equiv> 0x57"
abbreviation (input) XFSBL_ERROR_QSPI_PRESCALER_CLK :: u32 where
  "XFSBL_ERROR_QSPI_PRESCALER_CLK \<equiv> 0x58"
abbreviation (input) XFSBL_FAILURE :: u32 where "XFSBL_FAILURE \<equiv> 0x3FFFFFFF"

text \<open>
  \<open>if (Status != XFSBL_SUCCESS) goto END;\<close> between two checks that only compute a status.
\<close>

definition status_seq :: "u32 \<Rightarrow> u32 \<Rightarrow> u32" where
  "status_seq s t = (if s \<noteq> XFSBL_SUCCESS then s else t)"

lemma status_seq_success [simp]:
  "status_seq s t = XFSBL_SUCCESS \<longleftrightarrow> s = XFSBL_SUCCESS \<and> t = XFSBL_SUCCESS"
  by (simp add: status_seq_def)

lemma status_seq_assoc: "status_seq (status_seq a b) c = status_seq a (status_seq b c)"
  by (simp add: status_seq_def)

text \<open>
  \<open>Status = f(...); if (Status != XFSBL_SUCCESS) { Status = e; goto END; }\<close> before the rest
  of a function that works on a state.
\<close>

definition or_fail :: "u32 \<times> 's \<Rightarrow> u32 \<Rightarrow> ('s \<Rightarrow> u32 \<times> 's) \<Rightarrow> u32 \<times> 's" where
  "or_fail r e k = (case r of (Status, st) \<Rightarrow> if Status \<noteq> XFSBL_SUCCESS then (e, st) else k st)"

lemma or_fail_simps [simp]:
  "or_fail (XFSBL_SUCCESS, st) e k = k st"
  "s \<noteq> XFSBL_SUCCESS \<Longrightarrow> or_fail (s, st) e k = (e, st)"
  by (simp_all add: or_fail_def)

lemma or_fail_success:
  "e \<noteq> XFSBL_SUCCESS \<Longrightarrow> or_fail r e k = (XFSBL_SUCCESS, st') \<longleftrightarrow>
     (\<exists>st. r = (XFSBL_SUCCESS, st) \<and> k st = (XFSBL_SUCCESS, st'))"
  by (cases r) (auto simp: or_fail_def)

section \<open>The register bus\<close>

text \<open>
  \<open>XFsbl_In32\<close> and \<open>XFsbl_Out32\<close> expand to \<open>Xil_In32\<close> and \<open>Xil_Out32\<close> of the board
  support package, a volatile load and a volatile store. What a register answers is decided
  by hardware the code does not contain, so both are parameters: a bus over a hardware state
  \<open>'s\<close>, where a read may change the state (status bits that clear, devices that progress).
\<close>

record 's bus =
  In32 :: "'s \<Rightarrow> u64 \<Rightarrow> u32 \<times> 's"
  Out32 :: "'s \<Rightarrow> u64 \<Rightarrow> u32 \<Rightarrow> 's"

text \<open>A bus whose registers hold what was last written: the instance witnesses run on.\<close>

definition mem_bus :: "(u64 \<Rightarrow> u32) bus" where
  "mem_bus = \<lparr>In32 = (\<lambda>m a. (m a, m)), Out32 = (\<lambda>m a v. m(a := v))\<rparr>"

lemma mem_bus_In32 [simp]: "In32 mem_bus m a = (m a, m)"
  by (simp add: mem_bus_def)

lemma mem_bus_Out32 [simp]: "Out32 mem_bus m a v = m(a := v)"
  by (simp add: mem_bus_def)

section \<open>Little-endian memory\<close>

definition le32 :: "(nat \<Rightarrow> u8) \<Rightarrow> nat \<Rightarrow> u32" where
  "le32 f n = ucast (f n) OR push_bit 8 (ucast (f (n + 1))) OR
     push_bit 16 (ucast (f (n + 2))) OR push_bit 24 (ucast (f (n + 3)))"

definition le64 :: "u32 \<Rightarrow> u32 \<Rightarrow> u64" where
  "le64 lo hi = ucast lo OR push_bit 32 (ucast hi)"

section \<open>Lists and words\<close>

lemma fold_plus_nth:
  fixes xs :: "'a::comm_monoid_add list"
  assumes "n \<le> length xs"
  shows "fold (\<lambda>i acc. acc + xs ! i) [0..<n] a = a + sum_list (take n xs)"
  using assms
proof (induction n arbitrary: a)
  case 0
  then show ?case by simp
next
  case (Suc n)
  then show ?case by (simp add: take_Suc_conv_app_nth add.assoc)
qed

lemma sum_list_update_word:
  fixes xs :: "'a::len word list"
  assumes "i < length xs"
  shows "sum_list (xs[i := v]) = sum_list xs - xs ! i + v"
  using assms
proof (induction xs arbitrary: i)
  case Nil
  then show ?case by simp
next
  case (Cons x xs)
  then show ?case by (cases i) (simp_all add: algebra_simps)
qed

lemma not_word_eq: "NOT (x :: 'a::len word) = - 1 - x"
  by (simp add: not_eq_complement)

lemma and_single_bit:
  "n < LENGTH('a) \<Longrightarrow> (a :: 'a::len word) AND push_bit n 1 = (if bit a n then push_bit n 1 else 0)"
  by (rule bit_word_eqI) (auto simp: bit_simps bit_1_iff)

lemma unat_of_nat_small:
  "n < 2 ^ LENGTH('a) \<Longrightarrow> unat (of_nat n :: 'a::len word) = n"
  by (simp add: unat_of_nat)

lemma unat_push_bit_1: "n < LENGTH('a) \<Longrightarrow> unat (push_bit n 1 :: 'a::len word) = 2 ^ n"
  unfolding unsigned_push_bit_eq by (simp add: push_bit_eq_mult take_bit_nat_eq_self)

lemma unat_ucast_u8 [simp]: "unat (ucast (x :: u8) :: u32) = unat x"
proof -
  have "unat x < 2 ^ 8" using unsigned_less [of x] by simp
  then show ?thesis by (simp add: unsigned_ucast_eq take_bit_nat_eq_self)
qed

lemma unat_u32_less: "unat (x :: u32) < 2 ^ 32"
  using unsigned_less [of x] by simp

lemma unat_ucast_u32_u64 [simp]: "unat (ucast (x :: u32) :: u64) = unat x"
  using unat_u32_less [of x] by (simp add: unsigned_ucast_eq take_bit_nat_eq_self)

lemma unat_eq_1: "unat x = 1 \<longleftrightarrow> x = 1"
  by (simp add: word_unat_eq_iff)

lemma and_not_mask: "x AND NOT (mask k) = push_bit k (drop_bit k (x :: 'a::len word))"
  by (rule bit_word_eqI) (auto simp: bit_simps)

lemma unat_and_not_mask: "unat (x AND NOT (mask k) :: u32) = unat x div 2 ^ k * 2 ^ k"
proof -
  have "unat (push_bit k (drop_bit k x)) = take_bit 32 (push_bit k (drop_bit k (unat x)))"
    by (simp add: unsigned_push_bit_eq unat_drop_bit_eq)
  also have "\<dots> = unat x div 2 ^ k * 2 ^ k"
  proof -
    have "unat x div 2 ^ k * 2 ^ k \<le> unat x" by simp
    also have "unat x < 2 ^ 32" using unsigned_less [of x] by simp
    finally show ?thesis by (simp add: push_bit_eq_mult drop_bit_eq_div take_bit_nat_eq_self)
  qed
  finally show ?thesis by (simp add: and_not_mask)
qed

text \<open>The offset of an address within a bank of \<open>2 ^ k\<close> bytes, and what is left of the bank.\<close>

lemma bank_rest:
  assumes "k < 32"
  shows "unat ((x AND NOT (mask k)) + push_bit k 1 - x :: u32) = 2 ^ k - unat x mod 2 ^ k"
proof -
  have cong: "a = a' \<Longrightarrow> b = b' \<Longrightarrow> c = c' \<Longrightarrow> a + b - c = a' + b' - c'" for a a' b b' c c' :: u32
    by simp
  have e1: "x AND NOT (mask k) = of_nat (unat x div 2 ^ k * 2 ^ k)"
    by (simp only: unat_and_not_mask [symmetric]) simp
  have e2: "(push_bit k 1 :: u32) = of_nat (2 ^ k)" by (simp add: push_bit_eq_mult)
  have e3: "x = of_nat (unat x div 2 ^ k * 2 ^ k) + of_nat (unat x mod 2 ^ k)"
    by (simp only: of_nat_add [symmetric] div_mult_mod_eq) simp
  have "(x AND NOT (mask k)) + push_bit k 1 - x = of_nat (2 ^ k) - of_nat (unat x mod 2 ^ k)"
    by (rule trans [OF cong [OF e1 e2 e3]]) (simp only: add_diff_cancel_left)
  also have "\<dots> = of_nat (2 ^ k - unat x mod 2 ^ k)"
    by (rule of_nat_diff [symmetric]) (simp add: less_imp_le)
  also have "unat (of_nat (2 ^ k - unat x mod 2 ^ k) :: u32) = 2 ^ k - unat x mod 2 ^ k"
  proof (rule unat_of_nat_small)
    have "2 ^ k - unat x mod 2 ^ k \<le> 2 ^ k" by simp
    also have "(2 :: nat) ^ k < 2 ^ 32" using assms by (intro power_strict_increasing) simp_all
    finally show "2 ^ k - unat x mod 2 ^ k < 2 ^ LENGTH(32)" by simp
  qed
  finally show ?thesis .
qed

lemma same_bank:
  assumes "k < 32" "unat x mod 2 ^ k + unat t < 2 ^ k"
  shows "(x + t) AND NOT (mask k) = (x AND NOT (mask k) :: u32)"
proof -
  have x: "unat x < 2 ^ 32" using unsigned_less [of x] by simp
  have "(2 :: nat) ^ 32 = 2 ^ (32 - k) * 2 ^ k" using assms(1) by (simp flip: power_add)
  with x have "unat x div 2 ^ k < 2 ^ (32 - k)" by (simp add: less_mult_imp_div_less)
  then have "unat x div 2 ^ k * 2 ^ k + 2 ^ k \<le> 2 ^ (32 - k) * 2 ^ k"
    by (metis Suc_leI add.commute mult_Suc mult_le_mono1)
  with assms(2) have "unat x + unat t < 2 ^ 32"
    using div_mult_mod_eq [of "unat x" "2 ^ k"] \<open>(2 :: nat) ^ 32 = 2 ^ (32 - k) * 2 ^ k\<close> by linarith
  then have "unat (x + t) = unat x + unat t" by (simp add: unat_add_lem [THEN iffD1])
  moreover have "(unat x + unat t) div 2 ^ k = unat x div 2 ^ k"
    using assms(2) by (metis add.assoc div_mult_mod_eq div_mult_self3 div_less add_0_right mod_mult_self3 zero_neq_numeral power_not_zero)
  ultimately have "unat ((x + t) AND NOT (mask k)) = unat (x AND NOT (mask k))"
    by (simp only: unat_and_not_mask)
  then show ?thesis by (simp only: word_unat_eq_iff)
qed

lemma nth_map_upt_word [simp]: "i < n \<Longrightarrow> map f [0..<n] ! i = f i"
  by simp

text \<open>
  The first position of a value in an array, the C idiom
  \<open>Index = 0; while (a[Index] != v) Index++;\<close>: \<open>None\<close> is the search that leaves the array.
\<close>

fun first_index :: "'a \<Rightarrow> 'a list \<Rightarrow> nat option" where
  "first_index v [] = None"
| "first_index v (x # xs) = (if x = v then Some 0 else map_option Suc (first_index v xs))"

lemma first_index_None [simp]: "first_index v xs = None \<longleftrightarrow> v \<notin> set xs"
  by (induction xs) auto

lemma first_index_Some:
  "first_index v xs = Some i \<Longrightarrow> i < length xs \<and> xs ! i = v \<and> (\<forall>j<i. xs ! j \<noteq> v)"
proof (induction xs arbitrary: i)
  case Nil
  then show ?case by simp
next
  case (Cons x xs)
  show ?case
  proof (cases "x = v")
    case True
    with Cons.prems show ?thesis by simp
  next
    case False
    with Cons.prems obtain k where k: "first_index v xs = Some k" "i = Suc k"
      by auto
    with Cons.IH[OF k(1)] False show ?thesis
      by (auto simp: nth_Cons split: nat.splits)
  qed
qed

lemma first_index_append:
  "first_index v (xs @ ys) =
     (if v \<in> set xs then first_index v xs
      else map_option (\<lambda>j. length xs + j) (first_index v ys))"
  by (cases "first_index v ys"; induction xs) (auto simp: first_index_None [THEN iffD2])

lemma first_index_distinct:
  assumes "distinct xs" "i < length xs"
  shows "first_index (xs ! i) xs = Some i"
  using assms
proof (induction xs arbitrary: i)
  case Nil
  then show ?case by simp
next
  case (Cons x xs)
  then show ?case by (cases i) auto
qed

lemma first_index_map_inj:
  "inj_on f (insert v (set xs)) \<Longrightarrow> first_index (f v) (map f xs) = first_index v xs"
  by (induction xs) (auto simp: inj_on_def)

text \<open>\<open>std::string::find\<close>: the first position of a pattern.\<close>

fun find_sub :: "'a list \<Rightarrow> 'a list \<Rightarrow> nat option" where
  "find_sub pat [] = (if pat = [] then Some 0 else None)"
| "find_sub pat (x # xs) = (if take (length pat) (x # xs) = pat then Some 0 else map_option Suc (find_sub pat xs))"

lemma find_sub_Some: "find_sub pat xs = Some i \<Longrightarrow> take (length pat) (drop i xs) = pat"
  by (induction xs arbitrary: i) (auto split: if_splits)

lemma find_sub_append: "pat \<noteq> [] \<Longrightarrow> hd pat \<notin> set xs \<Longrightarrow> find_sub pat (xs @ ys) = map_option (\<lambda>i. length xs + i) (find_sub pat ys)"
proof (induction xs)
  case Nil
  then show ?case by (cases "find_sub pat ys") simp_all
next
  case (Cons x xs)
  then have "take (length pat) (x # xs @ ys) \<noteq> pat" by (cases pat) auto
  with Cons show ?case by (cases "find_sub pat ys") simp_all
qed

lemma find_sub_here: "take (length pat) xs = pat \<Longrightarrow> find_sub pat xs = Some 0"
  by (cases xs) simp_all

section \<open>Loops that wait\<close>

text \<open>
  \<open>do { r = body(); } while (!ok(r));\<close>, the loop in which the code polls a register or retries a
  driver call. It need not end: then it has no result.
\<close>

partial_function (option) do_until :: "('s \<Rightarrow> 'a \<times> 's) \<Rightarrow> ('a \<Rightarrow> bool) \<Rightarrow> 's \<Rightarrow> ('a \<times> 's) option" where
  "do_until body ok s = (case body s of (r, s') \<Rightarrow> if ok r then Some (r, s') else do_until body ok s')"

lemma do_until_done: "body s = (r, s') \<Longrightarrow> ok r \<Longrightarrow> do_until body ok s = Some (r, s')"
  by (simp add: do_until.simps)

lemma do_until_again: "body s = (r, s') \<Longrightarrow> \<not> ok r \<Longrightarrow> do_until body ok s = do_until body ok s'"
  by (subst do_until.simps) simp

text \<open>It ends when a measure falls with every failed attempt.\<close>

lemma do_until_returns:
  assumes inv: "\<And>s. I s \<Longrightarrow> I (snd (body s))"
    and dec: "\<And>s. I s \<Longrightarrow> \<not> ok (fst (body s)) \<Longrightarrow> (m (snd (body s)) :: nat) < m s"
    and "I s"
  shows "\<exists>r s'. do_until body ok s = Some (r, s') \<and> ok r \<and> I s'"
  using \<open>I s\<close>
proof (induction "m s" arbitrary: s rule: less_induct)
  case less
  obtain r s' where b: "body s = (r, s')" by (cases "body s")
  show ?case
  proof (cases "ok r")
    case True
    with b inv [OF less.prems] show ?thesis by (auto simp: do_until_done)
  next
    case False
    with b inv [OF less.prems] dec [OF less.prems] less.hyps [of s']
    show ?thesis by (simp add: do_until_again)
  qed
qed

text \<open>What holds of every attempt that ends the loop holds of its result.\<close>

lemma do_until_result:
  assumes "do_until body ok s = Some (r, s')"
    and inv: "\<And>s r s'. I s \<Longrightarrow> body s = (r, s') \<Longrightarrow> \<not> ok r \<Longrightarrow> I s'"
    and fin: "\<And>s r s'. I s \<Longrightarrow> body s = (r, s') \<Longrightarrow> ok r \<Longrightarrow> Q r s'"
    and "I s"
  shows "Q r s'"
proof -
  define P where "P = (\<lambda>b k t x. b = body \<longrightarrow> k = ok \<longrightarrow> I t \<longrightarrow> Q (fst x) (snd x))"
  have "P b k t x" if "do_until b k t = Some x" for b k t x
    using that
  proof (rule do_until.raw_induct [rotated])
    fix rec b k t x
    assume IH: "\<And>b k t x. rec b k t = Some x \<Longrightarrow> P b k t x"
      and step: "(case b t of (r, s') \<Rightarrow> if k r then Some (r, s') else rec b k s') = Some x"
    obtain r s' where b: "b t = (r, s')" by (cases "b t")
    show "P b k t x"
    proof (cases "k r")
      case True
      with b step have x: "x = (r, s')" by simp
      show ?thesis unfolding P_def x using b True fin by auto
    next
      case False
      with b step IH have "P b k s' x" by simp
      with b False inv show ?thesis unfolding P_def by blast
    qed
  qed
  from this [OF assms(1)] \<open>I s\<close> show ?thesis by (simp add: P_def)
qed

text \<open>Polling a register.\<close>

definition poll :: "'s bus \<Rightarrow> u64 \<Rightarrow> (u32 \<Rightarrow> bool) \<Rightarrow> 's \<Rightarrow> (u32 \<times> 's) option" where
  "poll bus a = do_until (\<lambda>s. In32 bus s a)"

lemma poll_mem_bus: "ok (m a) \<Longrightarrow> poll mem_bus a ok m = Some (m a, m)"
  by (simp add: poll_def do_until_done)

lemma poll_ok:
  assumes "poll bus a ok s = Some (r, s')" shows "ok r"
  using assms unfolding poll_def by (rule do_until_result [where I = "\<lambda>_. True"]) simp_all

end
