(* ===== verification/Image_Header.thy ===== *)
theory Image_Header
  imports Sdk_Prelude
begin

text \<open>
  The boot image header: \<open>xfsbl_image_header.c\<close> and the structures of
  \<open>xfsbl_image_header.h\<close>. The header table and the partition headers are C structs laid over
  words copied from flash, so each struct is a record with its two views (decoded from words,
  and back to words for the checksum). The global \<open>ATFHandoffParams\<close>, the image header of the
  FSBL instance, the boot device and the register bus are threaded through the reader as one
  state. The boot device's copy routine is a parameter: it answers with a status and with the
  words the destination buffer then holds.
\<close>

section \<open>Structures\<close>

record XFsblPs_ImageHeaderTable =
  IHT_Version :: u32
  IHT_NoOfPartitions :: u32
  IHT_PartitionHeaderAddress :: u32
  IHT_Reserved_0xC :: u32
  IHT_AuthCertificateOffset :: u32
  IHT_PartitionPresentDevice :: u32
  IHT_Reserved :: "u32 list"
  IHT_Checksum :: u32

record XFsblPs_PartitionHeader =
  EncryptedDataWordLength :: u32
  UnEncryptedDataWordLength :: u32
  TotalDataWordLength :: u32
  NextPartitionOffset :: u32
  DestinationExecutionAddress :: u64
  DestinationLoadAddress :: u64
  DataWordOffset :: u32
  PartitionAttributes :: u32
  SectionCount :: u32
  ChecksumWordOffset :: u32
  ImageHeaderOffset :: u32
  PH_AuthCertificateOffset :: u32
  PH_Iv :: u32
  PH_Checksum :: u32

record XFsblPs_ImageHeader =
  ImageHeaderTable :: XFsblPs_ImageHeaderTable
  PartitionHeader :: "XFsblPs_PartitionHeader list"

record XFsblPs_PartitionEntry =
  EntryPoint :: u64
  PartitionFlags :: u64

record XFsblPs_ATFHandoffParams =
  MagicValue :: "u8 list"
  NumEntries :: u32
  Entry :: "XFsblPs_PartitionEntry list"

definition iht_of_words :: "(nat \<Rightarrow> u32) \<Rightarrow> XFsblPs_ImageHeaderTable" where
  "iht_of_words w =
     \<lparr>IHT_Version = w 0, IHT_NoOfPartitions = w 1, IHT_PartitionHeaderAddress = w 2,
      IHT_Reserved_0xC = w 3, IHT_AuthCertificateOffset = w 4,
      IHT_PartitionPresentDevice = w 5, IHT_Reserved = map w [6..<15], IHT_Checksum = w 15\<rparr>"

definition words_of_iht :: "XFsblPs_ImageHeaderTable \<Rightarrow> u32 list" where
  "words_of_iht t =
     [IHT_Version t, IHT_NoOfPartitions t, IHT_PartitionHeaderAddress t, IHT_Reserved_0xC t,
      IHT_AuthCertificateOffset t, IHT_PartitionPresentDevice t] @ IHT_Reserved t @
     [IHT_Checksum t]"

definition ph_of_words :: "(nat \<Rightarrow> u32) \<Rightarrow> XFsblPs_PartitionHeader" where
  "ph_of_words w =
     \<lparr>EncryptedDataWordLength = w 0, UnEncryptedDataWordLength = w 1,
      TotalDataWordLength = w 2, NextPartitionOffset = w 3,
      DestinationExecutionAddress = le64 (w 4) (w 5),
      DestinationLoadAddress = le64 (w 6) (w 7), DataWordOffset = w 8,
      PartitionAttributes = w 9, SectionCount = w 10, ChecksumWordOffset = w 11,
      ImageHeaderOffset = w 12, PH_AuthCertificateOffset = w 13, PH_Iv = w 14,
      PH_Checksum = w 15\<rparr>"

section \<open>Constants of the header format\<close>

abbreviation (input) XIH_MIN_PARTITIONS :: u32 where "XIH_MIN_PARTITIONS \<equiv> 1"
abbreviation (input) XIH_MAX_PARTITIONS :: u32 where "XIH_MAX_PARTITIONS \<equiv> 32"
abbreviation (input) XIH_PARTITION_WORD_LENGTH :: u32 where "XIH_PARTITION_WORD_LENGTH \<equiv> 4"
abbreviation (input) XIH_IHT_LEN :: u32 where "XIH_IHT_LEN \<equiv> 64"
abbreviation (input) XIH_PH_LEN :: u32 where "XIH_PH_LEN \<equiv> 64"
abbreviation (input) XIH_IHT_PPD_SAME :: u32 where "XIH_IHT_PPD_SAME \<equiv> 0x0"
abbreviation (input) XIH_IHT_PPD_SATA :: u32 where "XIH_IHT_PPD_SATA \<equiv> 0xB"

abbreviation (input) XIH_PH_ATTRB_VEC_LOCATION_MASK :: u32 where
  "XIH_PH_ATTRB_VEC_LOCATION_MASK \<equiv> 0x800000"
abbreviation (input) XIH_PH_ATTR_BLOCK_SIZE_MASK :: u32 where "XIH_PH_ATTR_BLOCK_SIZE_MASK \<equiv> 0x700000"
abbreviation (input) XIH_PH_ATTRB_ENDIAN_MASK :: u32 where "XIH_PH_ATTRB_ENDIAN_MASK \<equiv> 0x40000"
abbreviation (input) XIH_PH_ATTRB_PART_OWNER_MASK :: u32 where "XIH_PH_ATTRB_PART_OWNER_MASK \<equiv> 0x30000"
abbreviation (input) XIH_PH_ATTRB_RSA_SIGNATURE_MASK :: u32 where
  "XIH_PH_ATTRB_RSA_SIGNATURE_MASK \<equiv> 0x8000"
abbreviation (input) XIH_PH_ATTRB_CHECKSUM_MASK :: u32 where "XIH_PH_ATTRB_CHECKSUM_MASK \<equiv> 0x7000"
abbreviation (input) XIH_PH_ATTRB_DEST_CPU_MASK :: u32 where "XIH_PH_ATTRB_DEST_CPU_MASK \<equiv> 0x0F00"
abbreviation (input) XIH_PH_ATTRB_ENCRYPTION_MASK :: u32 where "XIH_PH_ATTRB_ENCRYPTION_MASK \<equiv> 0x0080"
abbreviation (input) XIH_PH_ATTRB_DEST_DEVICE_MASK :: u32 where "XIH_PH_ATTRB_DEST_DEVICE_MASK \<equiv> 0x0070"
abbreviation (input) XIH_PH_ATTRB_A53_EXEC_ST_MASK :: u32 where "XIH_PH_ATTRB_A53_EXEC_ST_MASK \<equiv> 0x0008"
abbreviation (input) XIH_PH_ATTRB_TARGET_EL_MASK :: u32 where "XIH_PH_ATTRB_TARGET_EL_MASK \<equiv> 0x0006"
abbreviation (input) XIH_PH_ATTRB_TR_SECURE_MASK :: u32 where "XIH_PH_ATTRB_TR_SECURE_MASK \<equiv> 0x0001"

abbreviation (input) XIH_PH_ATTRB_RSA_SIGNATURE :: u32 where "XIH_PH_ATTRB_RSA_SIGNATURE \<equiv> 0x8000"
abbreviation (input) XIH_PH_ATTRB_ENCRYPTION :: u32 where "XIH_PH_ATTRB_ENCRYPTION \<equiv> 0x80"
abbreviation (input) XIH_PH_ATTRB_NOCHECKSUM :: u32 where "XIH_PH_ATTRB_NOCHECKSUM \<equiv> 0x0"
abbreviation (input) XIH_PH_ATTRB_HASH_SHA3 :: u32 where "XIH_PH_ATTRB_HASH_SHA3 \<equiv> 0x3000"
abbreviation (input) XIH_PH_ATTRB_DEST_CPU_NONE :: u32 where "XIH_PH_ATTRB_DEST_CPU_NONE \<equiv> 0x000"
abbreviation (input) XIH_PH_ATTRB_DEST_CPU_A53_0 :: u32 where "XIH_PH_ATTRB_DEST_CPU_A53_0 \<equiv> 0x100"
abbreviation (input) XIH_PH_ATTRB_DEST_CPU_A53_1 :: u32 where "XIH_PH_ATTRB_DEST_CPU_A53_1 \<equiv> 0x200"
abbreviation (input) XIH_PH_ATTRB_DEST_CPU_A53_2 :: u32 where "XIH_PH_ATTRB_DEST_CPU_A53_2 \<equiv> 0x300"
abbreviation (input) XIH_PH_ATTRB_DEST_CPU_A53_3 :: u32 where "XIH_PH_ATTRB_DEST_CPU_A53_3 \<equiv> 0x400"
abbreviation (input) XIH_PH_ATTRB_DEST_CPU_R5_0 :: u32 where "XIH_PH_ATTRB_DEST_CPU_R5_0 \<equiv> 0x500"
abbreviation (input) XIH_PH_ATTRB_DEST_CPU_R5_1 :: u32 where "XIH_PH_ATTRB_DEST_CPU_R5_1 \<equiv> 0x600"
abbreviation (input) XIH_PH_ATTRB_DEST_CPU_R5_L :: u32 where "XIH_PH_ATTRB_DEST_CPU_R5_L \<equiv> 0x700"
abbreviation (input) XIH_PH_ATTRB_DEST_CPU_PMU :: u32 where "XIH_PH_ATTRB_DEST_CPU_PMU \<equiv> 0x800"
abbreviation (input) XIH_PH_ATTRB_DEST_DEVICE_PL :: u32 where "XIH_PH_ATTRB_DEST_DEVICE_PL \<equiv> 0x20"
abbreviation (input) XIH_PH_ATTRB_DEST_DEVICE_PMU :: u32 where "XIH_PH_ATTRB_DEST_DEVICE_PMU \<equiv> 0x30"
abbreviation (input) XFSBL_MUL_MEGABYTES :: u32 where "XFSBL_MUL_MEGABYTES \<equiv> 1024 * 1024"
abbreviation (input) XFSBL_MAX_ENTRIES_FOR_ATF :: u32 where "XFSBL_MAX_ENTRIES_FOR_ATF \<equiv> 8"

section \<open>Partition attributes\<close>

definition XFsbl_GetPartitionOwner :: "XFsblPs_PartitionHeader \<Rightarrow> u32" where
  "XFsbl_GetPartitionOwner p = PartitionAttributes p AND XIH_PH_ATTRB_PART_OWNER_MASK"

definition XFsbl_IsRsaSignaturePresent :: "XFsblPs_PartitionHeader \<Rightarrow> u32" where
  "XFsbl_IsRsaSignaturePresent p = PartitionAttributes p AND XIH_PH_ATTRB_RSA_SIGNATURE_MASK"

definition XFsbl_GetChecksumType :: "XFsblPs_PartitionHeader \<Rightarrow> u32" where
  "XFsbl_GetChecksumType p = PartitionAttributes p AND XIH_PH_ATTRB_CHECKSUM_MASK"

definition XFsbl_GetDestinationCpu :: "XFsblPs_PartitionHeader \<Rightarrow> u32" where
  "XFsbl_GetDestinationCpu p = PartitionAttributes p AND XIH_PH_ATTRB_DEST_CPU_MASK"

definition XFsbl_IsEncrypted :: "XFsblPs_PartitionHeader \<Rightarrow> u32" where
  "XFsbl_IsEncrypted p = PartitionAttributes p AND XIH_PH_ATTRB_ENCRYPTION_MASK"

definition XFsbl_GetDestinationDevice :: "XFsblPs_PartitionHeader \<Rightarrow> u32" where
  "XFsbl_GetDestinationDevice p = PartitionAttributes p AND XIH_PH_ATTRB_DEST_DEVICE_MASK"

definition XFsbl_GetA53ExecState :: "XFsblPs_PartitionHeader \<Rightarrow> u32" where
  "XFsbl_GetA53ExecState p = PartitionAttributes p AND XIH_PH_ATTRB_A53_EXEC_ST_MASK"

definition XFsbl_GetVectorLocation :: "XFsblPs_PartitionHeader \<Rightarrow> u32" where
  "XFsbl_GetVectorLocation p = PartitionAttributes p AND XIH_PH_ATTRB_VEC_LOCATION_MASK"

definition XFsbl_GetBlockSize :: "XFsblPs_PartitionHeader \<Rightarrow> u32" where
  "XFsbl_GetBlockSize p =
     (let Size = drop_bit 20 (PartitionAttributes p AND XIH_PH_ATTR_BLOCK_SIZE_MASK)
      in if Size \<noteq> 0 then push_bit (unat Size) 2 * XFSBL_MUL_MEGABYTES else Size)"

section \<open>Checksum\<close>

text \<open>
  \<open>Buffer\<close> is the array the pointer designates; the loop reads \<open>Buffer[0..Length-2]\<close> and the
  comparison \<open>Buffer[Length-1]\<close>, so a caller must pass at least \<open>Length\<close> words.
\<close>

definition XFsbl_ValidateChecksum :: "u32 list \<Rightarrow> nat \<Rightarrow> u32" where
  "XFsbl_ValidateChecksum Buffer Length =
     (if Length < 2 then XFSBL_FAILURE
      else
        let Checksum = fold (\<lambda>Count acc. acc + Buffer ! Count) [0..<Length - 1] 0;
            Checksum = Checksum XOR 0xFFFFFFFF
        in if Buffer ! (Length - 1) \<noteq> Checksum then XFSBL_FAILURE else XFSBL_SUCCESS)"

definition XFsbl_ValidateImageHeaderTable :: "XFsblPs_ImageHeaderTable \<Rightarrow> u32" where
  "XFsbl_ValidateImageHeaderTable t =
     (if XFsbl_ValidateChecksum (words_of_iht t)
           (unat (XIH_IHT_LEN div XIH_PARTITION_WORD_LENGTH)) \<noteq> XFSBL_SUCCESS
      then XFSBL_ERROR_IHT_CHECKSUM
      else
        let ppd = IHT_PartitionPresentDevice t
        in if ppd < XIH_IHT_PPD_SAME \<or> ppd > XIH_IHT_PPD_SATA then XFSBL_ERROR_PPD
           else if ppd \<noteq> XIH_IHT_PPD_SAME then XFSBL_STATUS_SECONDARY_BOOT_MODE
           else if IHT_NoOfPartitions t \<le> XIH_MIN_PARTITIONS \<or>
                   IHT_NoOfPartitions t > XIH_MAX_PARTITIONS
           then XFSBL_ERROR_NO_OF_PARTITIONS
           else XFSBL_SUCCESS)"

section \<open>Handoff parameters for the ARM trusted firmware\<close>

definition XFsbl_SetATFHandoffParameters ::
  "XFsblPs_PartitionHeader \<Rightarrow> u32 \<Rightarrow> XFsblPs_ATFHandoffParams \<Rightarrow> XFsblPs_ATFHandoffParams" where
  "XFsbl_SetATFHandoffParameters p EntryCount atf =
     (let a = PartitionAttributes p;
          flags = drop_bit 3 (a AND XIH_PH_ATTRB_A53_EXEC_ST_MASK) OR
                  drop_bit 17 (a AND XIH_PH_ATTRB_ENDIAN_MASK) OR
                  push_bit 2 (a AND XIH_PH_ATTRB_TR_SECURE_MASK) OR
                  push_bit 2 (a AND XIH_PH_ATTRB_TARGET_EL_MASK);
          cpu = a AND XIH_PH_ATTRB_DEST_CPU_MASK;
          flags = (if cpu = XIH_PH_ATTRB_DEST_CPU_A53_0 then flags OR 0x00
                   else if cpu = XIH_PH_ATTRB_DEST_CPU_A53_1 then flags OR 0x20
                   else if cpu = XIH_PH_ATTRB_DEST_CPU_A53_2 then flags OR 0x40
                   else flags OR 0x60);
          atf = (if EntryCount = 0 then atf\<lparr>MagicValue := [0x58, 0x4C, 0x4E, 0x58]\<rparr> else atf);
          atf = atf\<lparr>NumEntries := EntryCount + 1\<rparr>
      in atf\<lparr>Entry := (Entry atf)[unat EntryCount :=
                 \<lparr>EntryPoint = DestinationExecutionAddress p, PartitionFlags = ucast flags\<rparr>]\<rparr>)"

section \<open>Reading the image header\<close>

record ('d, 's) ih_state =
  ImageHeader :: XFsblPs_ImageHeader
  ATFHandoffParams :: XFsblPs_ATFHandoffParams
  DeviceState :: 'd
  BusState :: 's

text \<open>
  The copy routine of the boot device: from the flash offset, a number of bytes; it answers
  with a status and with the little-endian words of the destination buffer afterwards.
\<close>

type_synonym 'd device_copy = "'d \<Rightarrow> u32 \<Rightarrow> u32 \<Rightarrow> u32 \<times> (nat \<Rightarrow> u32) \<times> 'd"

text \<open>
  The OCM buffer \<open>ImageHdr\<close> an authenticated header is read from when no device is given:
  its bytes from a byte offset, as words.
\<close>

definition ocm_words :: "(nat \<Rightarrow> u8) \<Rightarrow> u32 \<Rightarrow> nat \<Rightarrow> u32" where
  "ocm_words ImageHdr off = (\<lambda>i. le32 ImageHdr (unat off + 4 * i))"

definition destination_cpu_or :: "u32 \<Rightarrow> XFsblPs_PartitionHeader \<Rightarrow> u32" where
  "destination_cpu_or RunningCpu p =
     (if XFsbl_GetDestinationCpu p = XIH_PH_ATTRB_DEST_CPU_NONE then RunningCpu
      else XFsbl_GetDestinationCpu p)"

text \<open>Whether the loop hands the entry point of this partition to the trusted firmware.\<close>

definition is_atf_entry :: "u32 \<Rightarrow> u32 \<Rightarrow> u32 \<Rightarrow> XFsblPs_PartitionHeader \<Rightarrow> bool" where
  "is_atf_entry RunningCpu PartitionIndex EntryCount p \<longleftrightarrow>
     PartitionIndex > 1 \<and> EntryCount < XFSBL_MAX_ENTRIES_FOR_ATF \<and>
     DestinationExecutionAddress p \<noteq> 0 \<and>
     destination_cpu_or RunningCpu p \<ge> XIH_PH_ATTRB_DEST_CPU_A53_0 \<and>
     destination_cpu_or RunningCpu p \<le> XIH_PH_ATTRB_DEST_CPU_A53_3"

definition set_partition_header ::
  "nat \<Rightarrow> XFsblPs_PartitionHeader \<Rightarrow> ('d, 's) ih_state \<Rightarrow> ('d, 's) ih_state" where
  "set_partition_header i p st =
     st\<lparr>ImageHeader := (ImageHeader st)\<lparr>PartitionHeader :=
          (PartitionHeader (ImageHeader st))[i := p]\<rparr>\<rparr>"

text \<open>
  The loop over the partitions; \<open>n\<close> is the number of headers still to read, so
  \<open>PartitionIndex + n\<close> is \<open>NoOfPartitions\<close> throughout.
\<close>

fun read_partition_headers ::
  "'d device_copy option \<Rightarrow> (nat \<Rightarrow> u8) \<Rightarrow> u32 \<Rightarrow> u32 \<Rightarrow> u32 \<Rightarrow>
   nat \<Rightarrow> u32 \<Rightarrow> u32 \<Rightarrow> u32 \<Rightarrow> ('d, 's) ih_state \<Rightarrow> u32 \<times> ('d, 's) ih_state" where
  "read_partition_headers DeviceOps ImageHdr FlashOffset RunningCpu IhtOffset
     0 PartitionIndex PhAddr EntryCount st = (XFSBL_SUCCESS, st)"
| "read_partition_headers DeviceOps ImageHdr FlashOffset RunningCpu IhtOffset
     (Suc n) PartitionIndex PhAddr EntryCount st =
     (let (Status, p, d) =
            (case DeviceOps of
               Some copy \<Rightarrow>
                 (case copy (DeviceState st) (FlashOffset + PhAddr) XIH_PH_LEN of
                    (Status, w, d) \<Rightarrow> (Status, ph_of_words w, d))
             | None \<Rightarrow>
                 (XFSBL_SUCCESS, ph_of_words (ocm_words ImageHdr (PhAddr - IhtOffset)),
                  DeviceState st));
          st = set_partition_header (unat PartitionIndex) p (st\<lparr>DeviceState := d\<rparr>)
      in if Status \<noteq> XFSBL_SUCCESS then (Status, st)
         else
           let atf = is_atf_entry RunningCpu PartitionIndex EntryCount p;
               st = (if atf
                     then st\<lparr>ATFHandoffParams :=
                            XFsbl_SetATFHandoffParameters p EntryCount (ATFHandoffParams st)\<rparr>
                     else st);
               EntryCount = (if atf then EntryCount + 1 else EntryCount)
           in read_partition_headers DeviceOps ImageHdr FlashOffset RunningCpu IhtOffset
                n (PartitionIndex + 1) (NextPartitionOffset p * XIH_PARTITION_WORD_LENGTH)
                EntryCount st)"

abbreviation (input) PMU_GLOBAL_GLOB_GEN_STORAGE6 :: u64 where
  "PMU_GLOBAL_GLOB_GEN_STORAGE6 \<equiv> 0xFFD80048"

definition XFsbl_ReadImageHeader ::
  "'s bus \<Rightarrow> u32 \<Rightarrow> 'd device_copy option \<Rightarrow> (nat \<Rightarrow> u8) \<Rightarrow> u32 \<Rightarrow> u32 \<Rightarrow> u32 \<Rightarrow>
   ('d, 's) ih_state \<Rightarrow> u32 \<times> ('d, 's) ih_state" where
  "XFsbl_ReadImageHeader hw atf_addr DeviceOps ImageHdr FlashOffset RunningCpu IhtOffset st =
     (let (Status, t, d) =
            (case DeviceOps of
               Some copy \<Rightarrow>
                 (case copy (DeviceState st) (FlashOffset + IhtOffset) XIH_IHT_LEN of
                    (Status, w, d) \<Rightarrow> (Status, iht_of_words w, d))
             | None \<Rightarrow> (XFSBL_SUCCESS, iht_of_words (ocm_words ImageHdr 0), DeviceState st));
          st = st\<lparr>DeviceState := d,
                  ImageHeader := (ImageHeader st)\<lparr>ImageHeaderTable := t\<rparr>\<rparr>
      in if Status \<noteq> XFSBL_SUCCESS then (Status, st)
         else
           let Status = XFsbl_ValidateImageHeaderTable t
           in if Status = XFSBL_STATUS_SECONDARY_BOOT_MODE then (XFSBL_SUCCESS, st)
              else if Status \<noteq> XFSBL_SUCCESS then (Status, st)
              else
                let (Status, st) =
                  read_partition_headers DeviceOps ImageHdr FlashOffset RunningCpu IhtOffset
                    (unat (IHT_NoOfPartitions t)) 0
                    (IHT_PartitionHeaderAddress t * XIH_PARTITION_WORD_LENGTH) 0 st
                in if Status \<noteq> XFSBL_SUCCESS then (Status, st)
                   else (Status, st\<lparr>BusState :=
                           Out32 hw (BusState st) PMU_GLOBAL_GLOB_GEN_STORAGE6 atf_addr\<rparr>))"

section \<open>Validating a partition header\<close>

text \<open>
  What the board support package fixes at build time: the end of the PS DDR if there is one,
  the high PS DDR, the PL DDR, and whether \<open>XFSBL_SECURE\<close> and \<open>XFSBL_FORCE_ENC\<close> are defined.
\<close>

record fsbl_config =
  cfg_ps_ddr_end :: "u64 option"
  cfg_ps_hi_ddr :: "(u64 \<times> u64) option"
  cfg_pl_ddr :: "(u64 \<times> u64) option"
  cfg_force_enc :: bool

abbreviation (input) XFSBL_PMU_RAM_START_ADDRESS :: u64 where "XFSBL_PMU_RAM_START_ADDRESS \<equiv> 0xFFDC0000"
abbreviation (input) XFSBL_PMU_RAM_END_ADDRESS :: u64 where "XFSBL_PMU_RAM_END_ADDRESS \<equiv> 0xFFDDFFFF"
abbreviation (input) XFSBL_R5_TCM_START_ADDRESS :: u64 where "XFSBL_R5_TCM_START_ADDRESS \<equiv> 0x0"
abbreviation (input) XFSBL_R5_BTCM_START_ADDRESS :: u64 where "XFSBL_R5_BTCM_START_ADDRESS \<equiv> 0x20000"
abbreviation (input) XFSBL_R5_TCM_BANK_LENGTH :: u64 where "XFSBL_R5_TCM_BANK_LENGTH \<equiv> 0x10000"
abbreviation (input) XFSBL_PS_DDR_START_ADDRESS :: u64 where "XFSBL_PS_DDR_START_ADDRESS \<equiv> 0x0"
abbreviation (input) XFSBL_OCM_START_ADDRESS :: u64 where "XFSBL_OCM_START_ADDRESS \<equiv> 0xFFFEA000"
abbreviation (input) XFSBL_OCM_END_ADDRESS :: u64 where "XFSBL_OCM_END_ADDRESS \<equiv> 0xFFFFFFFF"
abbreviation (input) XFSBL_DUMMY_PL_ADDR :: u64 where "XFSBL_DUMMY_PL_ADDR \<equiv> 0xFFFFFFFF"
abbreviation (input) XFSBL_QSPI_LINEAR_BASE_ADDRESS_START :: u64 where
  "XFSBL_QSPI_LINEAR_BASE_ADDRESS_START \<equiv> 0xC0000000"
abbreviation (input) XFSBL_QSPI_LINEAR_BASE_ADDRESS_END :: u64 where
  "XFSBL_QSPI_LINEAR_BASE_ADDRESS_END \<equiv> 0xDFFFFFFF"
abbreviation (input) XFSBL_MASTER_ONLY_RESET :: u32 where "XFSBL_MASTER_ONLY_RESET \<equiv> 2"
abbreviation (input) EFUSE_SEC_CTRL :: u64 where "EFUSE_SEC_CTRL \<equiv> 0xFFCC1058"
abbreviation (input) EFUSE_SEC_CTRL_ENC_ONLY_MASK :: u32 where "EFUSE_SEC_CTRL_ENC_ONLY_MASK \<equiv> 0x4"

definition XFsbl_CheckValidMemoryAddress :: "fsbl_config \<Rightarrow> u64 \<Rightarrow> u32 \<Rightarrow> u32 \<Rightarrow> u32" where
  "XFsbl_CheckValidMemoryAddress cfg Address CpuId DevId =
     (if CpuId = XIH_PH_ATTRB_DEST_CPU_PMU \<and>
         Address \<ge> XFSBL_PMU_RAM_START_ADDRESS \<and> Address < XFSBL_PMU_RAM_END_ADDRESS
      then XFSBL_SUCCESS
      else if (CpuId = XIH_PH_ATTRB_DEST_CPU_R5_0 \<or> CpuId = XIH_PH_ATTRB_DEST_CPU_R5_1) \<and>
         (Address \<ge> XFSBL_R5_TCM_START_ADDRESS \<and>
          Address < XFSBL_R5_TCM_START_ADDRESS + XFSBL_R5_TCM_BANK_LENGTH \<or>
          Address \<ge> XFSBL_R5_BTCM_START_ADDRESS \<and>
          Address < XFSBL_R5_BTCM_START_ADDRESS + XFSBL_R5_TCM_BANK_LENGTH)
      then XFSBL_SUCCESS
      else if CpuId = XIH_PH_ATTRB_DEST_CPU_R5_L \<and>
         Address \<ge> XFSBL_R5_TCM_START_ADDRESS \<and>
         Address < XFSBL_R5_TCM_START_ADDRESS + XFSBL_R5_TCM_BANK_LENGTH * 4
      then XFSBL_SUCCESS
      else if (case cfg_ps_ddr_end cfg of
                 Some ddr_end \<Rightarrow> Address \<ge> XFSBL_PS_DDR_START_ADDRESS \<and> Address \<le> ddr_end
               | None \<Rightarrow> False)
      then XFSBL_SUCCESS
      else if (case (cfg_ps_ddr_end cfg, cfg_ps_hi_ddr cfg) of
                 (Some _, Some (lo, hi)) \<Rightarrow> Address \<ge> lo \<and> Address \<le> hi
               | _ \<Rightarrow> False)
      then XFSBL_SUCCESS
      else if (case cfg_pl_ddr cfg of
                 Some (lo, hi) \<Rightarrow> Address \<ge> lo \<and> Address < hi
               | None \<Rightarrow> False)
      then XFSBL_SUCCESS
      else if Address \<ge> XFSBL_OCM_START_ADDRESS \<and> Address < XFSBL_OCM_END_ADDRESS
      then XFSBL_SUCCESS
      else if DevId = XIH_PH_ATTRB_DEST_DEVICE_PL \<and> Address = XFSBL_DUMMY_PL_ADDR
      then XFSBL_SUCCESS
      else XFSBL_ERROR_ADDRESS)"

text \<open>
  The checks of \<open>XFsbl_ValidatePartitionHeader\<close>, one definition per block of the function,
  each with the status at the \<open>goto END\<close> it takes.
\<close>

definition check_partition_owner :: "XFsblPs_PartitionHeader \<Rightarrow> u32 \<Rightarrow> u32 \<Rightarrow> u32" where
  "check_partition_owner p RunningCpu ResetType =
     (let DestinationCpu = XFsbl_GetDestinationCpu p
      in if ResetType = XFSBL_MASTER_ONLY_RESET then
           if RunningCpu = XIH_PH_ATTRB_DEST_CPU_A53_0 \<and>
                DestinationCpu \<le> XIH_PH_ATTRB_DEST_CPU_A53_3 \<and>
                DestinationCpu \<ge> XIH_PH_ATTRB_DEST_CPU_A53_0 \<or>
              RunningCpu = XIH_PH_ATTRB_DEST_CPU_R5_0 \<and>
                DestinationCpu = XIH_PH_ATTRB_DEST_CPU_R5_0 \<or>
              RunningCpu = XIH_PH_ATTRB_DEST_CPU_R5_L \<and>
                DestinationCpu = XIH_PH_ATTRB_DEST_CPU_R5_L
           then XFSBL_SUCCESS else XFSBL_SUCCESS_NOT_PARTITION_OWNER
         else XFSBL_SUCCESS)"

definition check_xip :: "XFsblPs_PartitionHeader \<Rightarrow> bool \<Rightarrow> bool \<Rightarrow> u32" where
  "check_xip p IsAuthenticated IsEncrypted =
     (if UnEncryptedDataWordLength p = 0 then
        if IsAuthenticated \<or> IsEncrypted then XFSBL_ERROR_XIP_AUTH_ENC_PRESENT
        else if DestinationExecutionAddress p < XFSBL_QSPI_LINEAR_BASE_ADDRESS_START \<or>
                DestinationExecutionAddress p > XFSBL_QSPI_LINEAR_BASE_ADDRESS_END
        then XFSBL_ERROR_XIP_EXEC_ADDRESS
        else XFSBL_SUCCESS
      else XFSBL_SUCCESS)"

definition check_lengths :: "XFsblPs_PartitionHeader \<Rightarrow> bool \<Rightarrow> bool \<Rightarrow> u32" where
  "check_lengths p IsAuthenticated IsEncrypted =
     (let u = UnEncryptedDataWordLength p; e = EncryptedDataWordLength p;
          t = TotalDataWordLength p
      in if \<not> IsAuthenticated \<and> \<not> IsEncrypted then
           if u \<noteq> e \<or> e \<noteq> t then XFSBL_ERROR_PARTITION_LENGTH else XFSBL_SUCCESS
         else if IsAuthenticated \<and> \<not> IsEncrypted then
           if u \<noteq> e \<or> e \<ge> t then XFSBL_ERROR_PARTITION_LENGTH else XFSBL_SUCCESS
         else if \<not> IsAuthenticated \<and> IsEncrypted then
           if u \<ge> e \<or> e \<noteq> t then XFSBL_ERROR_PARTITION_LENGTH else XFSBL_SUCCESS
         else
           if u \<ge> e \<or> e \<ge> t then XFSBL_ERROR_PARTITION_LENGTH else XFSBL_SUCCESS)"

definition check_r5_to_a53_address :: "XFsblPs_PartitionHeader \<Rightarrow> u32 \<Rightarrow> u32 \<Rightarrow> u32" where
  "check_r5_to_a53_address p RunningCpu DestinationCpu =
     (if (RunningCpu = XIH_PH_ATTRB_DEST_CPU_R5_0 \<or> RunningCpu = XIH_PH_ATTRB_DEST_CPU_R5_L) \<and>
         (DestinationCpu = XIH_PH_ATTRB_DEST_CPU_A53_0 \<or>
          DestinationCpu = XIH_PH_ATTRB_DEST_CPU_A53_1 \<or>
          DestinationCpu = XIH_PH_ATTRB_DEST_CPU_A53_2 \<or>
          DestinationCpu = XIH_PH_ATTRB_DEST_CPU_A53_3) \<and>
         DestinationLoadAddress p < 0x40000
      then XFSBL_ERROR_ADDRESS else XFSBL_SUCCESS)"

definition check_types :: "XFsblPs_PartitionHeader \<Rightarrow> u32 \<Rightarrow> u32 \<Rightarrow> u32" where
  "check_types p RunningCpu DestinationCpu =
     (if XFsbl_GetChecksumType p \<noteq> XIH_PH_ATTRB_NOCHECKSUM \<and>
         XFsbl_GetChecksumType p \<noteq> XIH_PH_ATTRB_HASH_SHA3
      then XFSBL_ERROR_INVALID_CHECKSUM_TYPE
      else if DestinationCpu > XIH_PH_ATTRB_DEST_CPU_PMU then XFSBL_ERROR_INVALID_CPU_TYPE
      else if (DestinationCpu = XIH_PH_ATTRB_DEST_CPU_R5_0 \<or>
               DestinationCpu = XIH_PH_ATTRB_DEST_CPU_R5_1) \<and>
              RunningCpu = XIH_PH_ATTRB_DEST_CPU_R5_L \<or>
              DestinationCpu = XIH_PH_ATTRB_DEST_CPU_R5_L \<and>
              RunningCpu = XIH_PH_ATTRB_DEST_CPU_R5_0
      then XFSBL_ERROR_LS_CPU_TYPE
      else if XFsbl_GetDestinationDevice p > XIH_PH_ATTRB_DEST_DEVICE_PMU
      then XFSBL_ERROR_INVALID_DEST_DEVICE
      else XFSBL_SUCCESS)"

text \<open>
  With \<open>XFSBL_FORCE_ENC\<close> the fuse is read first; the specific error code it assigns is
  overwritten with \<open>XFSBL_FAILURE\<close> before the jump.
\<close>

definition XFsbl_ValidatePartitionHeader ::
  "'s bus \<Rightarrow> fsbl_config \<Rightarrow> XFsblPs_PartitionHeader \<Rightarrow> u32 \<Rightarrow> u32 \<Rightarrow> 's \<Rightarrow> u32 \<times> 's" where
  "XFsbl_ValidatePartitionHeader hw cfg p RunningCpu ResetType s =
     (let IsEncrypted = (XFsbl_IsEncrypted p = XIH_PH_ATTRB_ENCRYPTION);
          IsAuthenticated = (XFsbl_IsRsaSignaturePresent p = XIH_PH_ATTRB_RSA_SIGNATURE);
          (fuse, s) = (if cfg_force_enc cfg then In32 hw s EFUSE_SEC_CTRL else (0, s));
          EncOnly = fuse AND EFUSE_SEC_CTRL_ENC_ONLY_MASK;
          DestinationCpu = destination_cpu_or RunningCpu p
      in (if cfg_force_enc cfg \<and> EncOnly \<noteq> 0 \<and> \<not> IsEncrypted then XFSBL_FAILURE
          else
            status_seq (check_partition_owner p RunningCpu ResetType)
            (status_seq (check_xip p IsAuthenticated IsEncrypted)
            (status_seq (check_lengths p IsAuthenticated IsEncrypted)
            (status_seq (XFsbl_CheckValidMemoryAddress cfg (DestinationLoadAddress p)
                           DestinationCpu (XFsbl_GetDestinationDevice p))
            (status_seq (check_r5_to_a53_address p RunningCpu DestinationCpu)
                        (check_types p RunningCpu DestinationCpu))))), s))"

section \<open>The checksum\<close>

lemma checksum_word_eq: "(x :: u32) = y XOR 0xFFFFFFFF \<longleftrightarrow> y + x = - 1"
proof -
  have "y XOR 0xFFFFFFFF = - 1 - y"
  proof -
    have "(0xFFFFFFFF :: u32) = - 1" by simp
    then show ?thesis by (metis bit.xor_one_right not_word_eq)
  qed
  then have "x = y XOR 0xFFFFFFFF \<longleftrightarrow> x = - 1 - y" by simp
  then show ?thesis by (auto simp: algebra_simps)
qed

lemma ValidateChecksum_sum:
  assumes "2 \<le> n" "n \<le> length xs"
  shows "XFsbl_ValidateChecksum xs n = XFSBL_SUCCESS \<longleftrightarrow> sum_list (take n xs) = - 1"
proof -
  obtain k where k: "n = Suc k" using assms(1) by (cases n) auto
  have "fold (\<lambda>i acc. acc + xs ! i) [0..<k] 0 = sum_list (take k xs)"
    using assms(2) k fold_plus_nth [of k xs 0] by simp
  moreover have "sum_list (take n xs) = sum_list (take k xs) + xs ! k"
    using assms(2) k by (simp add: take_Suc_conv_app_nth)
  ultimately show ?thesis
    using assms(1) k checksum_word_eq [of "xs ! k" "sum_list (take k xs)"]
    by (auto simp: XFsbl_ValidateChecksum_def Let_def)
qed

text \<open>
  \<open>XFsbl_ValidateChecksum\<close> accepts a buffer of at least two words exactly when the words,
  the checksum word included, add up to all ones modulo \<open>2 ^ 32\<close>; changing any single word of
  an accepted buffer, the checksum word included, makes it rejected.
\<close>

lemma checksum_detects_single_change:
  assumes "2 \<le> n" "n \<le> length xs"
  shows "(XFsbl_ValidateChecksum xs n = XFSBL_SUCCESS \<longleftrightarrow> sum_list (take n xs) = - 1) \<and>
    (XFsbl_ValidateChecksum xs n = XFSBL_SUCCESS \<longrightarrow> i < n \<longrightarrow> v \<noteq> xs ! i \<longrightarrow>
       XFsbl_ValidateChecksum (xs[i := v]) n = XFSBL_FAILURE)"
proof (intro conjI impI)
  show iff: "XFsbl_ValidateChecksum xs n = XFSBL_SUCCESS \<longleftrightarrow> sum_list (take n xs) = - 1"
    by (rule ValidateChecksum_sum [OF assms])
  assume ok: "XFsbl_ValidateChecksum xs n = XFSBL_SUCCESS" and i: "i < n" and v: "v \<noteq> xs ! i"
  have "sum_list (take n (xs[i := v])) = sum_list (take n xs) - xs ! i + v"
    using i assms(2) sum_list_update_word [of i "take n xs" v]
    by (simp add: take_update_swap)
  moreover have "sum_list (take n xs) = - 1"
    using ok iff by simp
  ultimately have "sum_list (take n (xs[i := v])) \<noteq> - 1"
    using v by (simp add: add_eq_0_iff)
  then have "XFsbl_ValidateChecksum (xs[i := v]) n \<noteq> XFSBL_SUCCESS"
    using ValidateChecksum_sum [of n "xs[i := v]"] assms by simp
  then show "XFsbl_ValidateChecksum (xs[i := v]) n = XFSBL_FAILURE"
    by (auto simp: XFsbl_ValidateChecksum_def Let_def split: if_splits)
qed

lemma checksum_single_change_example:
  "XFsbl_ValidateChecksum [1, 2, 0xFFFFFFFC] 3 = XFSBL_SUCCESS \<and>
   XFsbl_ValidateChecksum [1, 7, 0xFFFFFFFC] 3 = XFSBL_FAILURE"
  using checksum_detects_single_change [of 3 "[1, 2, 0xFFFFFFFC]" 1 7] by simp

section \<open>The header table\<close>

lemma words_of_iht_of_words: "words_of_iht (iht_of_words w) = map w [0..<16]"
  by (simp add: words_of_iht_def iht_of_words_def upt_rec eval_nat_numeral)

text \<open>
  C2. A header table read from sixteen flash words is accepted exactly when its words add up to
  all ones, it names the primary boot device, and it announces between 2 and 32 partitions: so
  no accepted table makes the reader index past the 32 partition headers of the FSBL instance.
\<close>

theorem image_header_table_accepted_iff:
  "XFsbl_ValidateImageHeaderTable (iht_of_words w) = XFSBL_SUCCESS \<longleftrightarrow>
     (\<Sum>i\<leftarrow>[0..<16]. w i) = - 1 \<and> w 5 = XIH_IHT_PPD_SAME \<and> 2 \<le> unat (w 1) \<and> unat (w 1) \<le> 32"
proof -
  have "XFsbl_ValidateChecksum (words_of_iht (iht_of_words w)) 16 = XFSBL_SUCCESS \<longleftrightarrow>
      (\<Sum>i\<leftarrow>[0..<16]. w i) = - 1"
    by (subst ValidateChecksum_sum) (simp_all add: words_of_iht_of_words)
  moreover have "w 1 \<le> 1 \<longleftrightarrow> unat (w 1) \<le> 1" "32 < w 1 \<longleftrightarrow> 32 < unat (w 1)"
    by (simp_all add: word_le_nat_alt word_less_nat_alt)
  moreover have "IHT_PartitionPresentDevice (iht_of_words w) = w 5"
    "IHT_NoOfPartitions (iht_of_words w) = w 1"
    by (simp_all add: iht_of_words_def)
  ultimately show ?thesis
    by (auto simp: XFsbl_ValidateImageHeaderTable_def Let_def)
qed

section \<open>The trusted-firmware entries\<close>

text \<open>What one handoff entry should hold, by the bit table in \<open>xfsbl_image_header.h\<close>.\<close>

definition atf_flags :: "u32 \<Rightarrow> u32" where
  "atf_flags a = (let bit_at = (\<lambda>i j. if bit a i then push_bit j 1 else 0) :: nat \<Rightarrow> nat \<Rightarrow> u32
     in bit_at 3 0 OR bit_at 18 1 OR bit_at 0 2 OR bit_at 1 3 OR bit_at 2 4 OR
        (let cpu = a AND XIH_PH_ATTRB_DEST_CPU_MASK
         in if cpu = XIH_PH_ATTRB_DEST_CPU_A53_0 then 0
            else if cpu = XIH_PH_ATTRB_DEST_CPU_A53_1 then push_bit 5 1
            else if cpu = XIH_PH_ATTRB_DEST_CPU_A53_2 then push_bit 5 2
            else push_bit 5 3))"

definition atf_entry :: "XFsblPs_PartitionHeader \<Rightarrow> XFsblPs_PartitionEntry" where
  "atf_entry p = \<lparr>EntryPoint = DestinationExecutionAddress p,
     PartitionFlags = ucast (atf_flags (PartitionAttributes p))\<rparr>"

lemma mask_bits_moved:
  fixes a :: u32
  shows "drop_bit 3 (a AND 0x8) = (if bit a 3 then push_bit 0 1 else 0)"
    and "drop_bit 17 (a AND 0x40000) = (if bit a 18 then push_bit 1 1 else 0)"
    and "push_bit 2 (a AND 0x1) = (if bit a 0 then push_bit 2 1 else 0)"
    and "push_bit 2 (a AND 0x6) =
      (if bit a 1 then push_bit 3 1 else 0) OR (if bit a 2 then push_bit 4 1 else 0)"
proof -
  have single: "a AND 0x8 = (if bit a 3 then push_bit 3 1 else 0)"
    "a AND 0x40000 = (if bit a 18 then push_bit 18 1 else 0)"
    "a AND 0x1 = (if bit a 0 then push_bit 0 1 else 0)"
    "a AND 0x2 = (if bit a 1 then push_bit 1 1 else 0)"
    "a AND 0x4 = (if bit a 2 then push_bit 2 1 else 0)"
    using and_single_bit [of 3 a] and_single_bit [of 18 a] and_single_bit [of 0 a]
      and_single_bit [of 1 a] and_single_bit [of 2 a] by simp_all
  have two: "a AND 0x6 = (a AND 0x2) OR (a AND 0x4)"
  proof -
    have "(0x6 :: u32) = 0x2 OR 0x4" by simp
    then show ?thesis by (simp only: bit.conj_disj_distrib)
  qed
  show "drop_bit 3 (a AND 0x8) = (if bit a 3 then push_bit 0 1 else 0)"
    and "drop_bit 17 (a AND 0x40000) = (if bit a 18 then push_bit 1 1 else 0)"
    and "push_bit 2 (a AND 0x1) = (if bit a 0 then push_bit 2 1 else 0)"
    and "push_bit 2 (a AND 0x6) =
      (if bit a 1 then push_bit 3 1 else 0) OR (if bit a 2 then push_bit 4 1 else 0)"
    unfolding two by (simp_all only: single) simp_all
qed

lemma SetATFHandoffParameters_eq:
  "XFsbl_SetATFHandoffParameters p n atf =
     atf\<lparr>MagicValue := (if n = 0 then [0x58, 0x4C, 0x4E, 0x58] else MagicValue atf),
         NumEntries := n + 1, Entry := (Entry atf)[unat n := atf_entry p]\<rparr>"
  unfolding XFsbl_SetATFHandoffParameters_def mask_bits_moved Let_def atf_entry_def atf_flags_def
  by (simp add: or.assoc)

text \<open>
  \<open>XFsbl_SetATFHandoffParameters\<close> stores in slot \<open>EntryCount\<close> the execution address and the
  flags the header's bit table asks for: execution state, endianness, security and exception
  level moved to bits 0, 1, 2 and 3:4, the A53 core in bits 5:6, and nothing above bit 6; it
  touches no other slot, counts the slots, and writes the magic string with the first one.
\<close>

lemma atf_handoff_entry_layout:
  "XFsbl_SetATFHandoffParameters p n atf =
     atf\<lparr>MagicValue := (if n = 0 then [0x58, 0x4C, 0x4E, 0x58] else MagicValue atf),
         NumEntries := n + 1,
         Entry := (Entry atf)[unat n := \<lparr>EntryPoint = DestinationExecutionAddress p,
           PartitionFlags = ucast (atf_flags (PartitionAttributes p))\<rparr>]\<rparr> \<and>
   atf_flags (PartitionAttributes p) < 128"
  by (simp add: SetATFHandoffParameters_eq atf_entry_def) (simp add: atf_flags_def Let_def)

text \<open>The same call over a list of partitions, as the reader makes it.\<close>

fun set_atf_all ::
  "u32 \<Rightarrow> XFsblPs_PartitionHeader list \<Rightarrow> XFsblPs_ATFHandoffParams \<Rightarrow> XFsblPs_ATFHandoffParams" where
  "set_atf_all n [] atf = atf"
| "set_atf_all n (p # ps) atf = set_atf_all (n + 1) ps (XFsbl_SetATFHandoffParameters p n atf)"

lemma unat_plus_one: "unat (n :: u32) < 2 ^ 32 - 1 \<Longrightarrow> unat (n + 1) = Suc (unat n)"
  by (simp add: unat_word_ariths)

lemma set_atf_all_append:
  "set_atf_all n (ps @ qs) atf = set_atf_all (n + of_nat (length ps)) qs (set_atf_all n ps atf)"
  by (induction ps arbitrary: n atf) (simp_all add: add.assoc)

lemma set_atf_all_entries:
  assumes "unat n + length ps \<le> length (Entry atf)" "length (Entry atf) \<le> 8"
  shows "Entry (set_atf_all n ps atf) =
    take (unat n) (Entry atf) @ map atf_entry ps @ drop (unat n + length ps) (Entry atf)"
  using assms
proof (induction ps arbitrary: n atf)
  case Nil
  then show ?case by simp
next
  case (Cons p ps)
  have n: "unat n < length (Entry atf)" "unat (n + 1) = Suc (unat n)"
    using Cons.prems by (simp_all add: unat_plus_one)
  show ?case
    using Cons.IH [of "n + 1" "XFsbl_SetATFHandoffParameters p n atf"] Cons.prems n
    by (simp add: SetATFHandoffParameters_eq take_Suc_conv_app_nth)
qed

lemma set_atf_all_NumEntries:
  "NumEntries (set_atf_all n ps atf) = (if ps = [] then NumEntries atf else n + of_nat (length ps))"
proof (induction ps arbitrary: n atf)
  case Nil
  then show ?case by simp
next
  case (Cons p ps)
  then show ?case
    by (cases "ps = []") (simp_all add: SetATFHandoffParameters_eq add.assoc)
qed

lemma set_atf_all_MagicValue_keep:
  "MagicValue atf = [0x58, 0x4C, 0x4E, 0x58] \<Longrightarrow>
   MagicValue (set_atf_all n ps atf) = [0x58, 0x4C, 0x4E, 0x58]"
  by (induction ps arbitrary: n atf) (simp_all add: SetATFHandoffParameters_eq)

lemma set_atf_all_MagicValue:
  "ps \<noteq> [] \<Longrightarrow> MagicValue (set_atf_all 0 ps atf) = [0x58, 0x4C, 0x4E, 0x58]"
  by (cases ps) (simp_all add: set_atf_all_MagicValue_keep SetATFHandoffParameters_eq)

section \<open>The reader\<close>

text \<open>
  The partitions the trusted firmware should be told about: from the third header on, those with
  an execution address and an A53 core as destination.
\<close>

definition is_atf_candidate :: "u32 \<Rightarrow> XFsblPs_PartitionHeader \<Rightarrow> bool" where
  "is_atf_candidate RunningCpu p \<longleftrightarrow> DestinationExecutionAddress p \<noteq> 0 \<and>
     destination_cpu_or RunningCpu p \<ge> XIH_PH_ATTRB_DEST_CPU_A53_0 \<and>
     destination_cpu_or RunningCpu p \<le> XIH_PH_ATTRB_DEST_CPU_A53_3"

definition atf_candidates :: "u32 \<Rightarrow> XFsblPs_PartitionHeader list \<Rightarrow> XFsblPs_PartitionHeader list" where
  "atf_candidates RunningCpu ps = filter (is_atf_candidate RunningCpu) (drop 2 ps)"

text \<open>The candidates among headers \<open>ps\<close> whose first one has index \<open>i\<close>, at most \<open>m\<close> of them.\<close>

definition atf_taken ::
  "u32 \<Rightarrow> nat \<Rightarrow> nat \<Rightarrow> XFsblPs_PartitionHeader list \<Rightarrow> XFsblPs_PartitionHeader list" where
  "atf_taken RunningCpu m i ps =
     take m (filter (is_atf_candidate RunningCpu) (drop (2 - i) ps))"

lemma atf_taken_Nil [simp]: "atf_taken cpu m i [] = []"
  by (simp add: atf_taken_def)

lemma atf_taken_Cons:
  "atf_taken cpu m i (p # ps) =
     (if 1 < i \<and> 0 < m \<and> is_atf_candidate cpu p then p # atf_taken cpu (m - 1) (Suc i) ps
      else atf_taken cpu m (Suc i) ps)"
proof (cases "1 < i")
  case True
  then show ?thesis by (cases m) (auto simp: atf_taken_def)
next
  case False
  then have "2 - i = Suc (2 - Suc i)" by simp
  then show ?thesis using False by (simp add: atf_taken_def)
qed

lemma is_atf_entry_iff:
  "unat i < 2 ^ 31 \<Longrightarrow> is_atf_entry cpu i n p \<longleftrightarrow>
     1 < unat i \<and> unat n < 8 \<and> is_atf_candidate cpu p"
  by (simp add: is_atf_entry_def is_atf_candidate_def word_less_nat_alt)

lemma length_atf_taken: "length (atf_taken cpu m i ps) \<le> m"
  by (simp add: atf_taken_def)

text \<open>
  What the loop does on success: it reads \<open>n\<close> headers, stores them in order from
  \<open>PartitionIndex\<close> on, and records exactly the candidates among them while slots are left.
\<close>

lemma read_partition_headers_success:
  fixes st st' :: "('d, 's) ih_state"
  assumes "read_partition_headers dev hdr fo cpu io n i a e st = (XFSBL_SUCCESS, st')"
    and "unat i + n \<le> length (PartitionHeader (ImageHeader st))"
    and "length (PartitionHeader (ImageHeader st)) \<le> 32" and "unat e \<le> 8"
  shows "\<exists>ps. length ps = n \<and>
    PartitionHeader (ImageHeader st') =
      take (unat i) (PartitionHeader (ImageHeader st)) @ ps @
      drop (unat i + n) (PartitionHeader (ImageHeader st)) \<and>
    ATFHandoffParams st' =
      set_atf_all e (atf_taken cpu (8 - unat e) (unat i) ps) (ATFHandoffParams st)"
  using assms
proof (induction n arbitrary: i a e st)
  case 0
  then show ?case by auto
next
  case (Suc n)
  define r where "r = (case dev of
      Some copy \<Rightarrow> (case copy (DeviceState st) (fo + a) XIH_PH_LEN of (s, w, d) \<Rightarrow> (s, ph_of_words w, d))
    | None \<Rightarrow> (XFSBL_SUCCESS, ph_of_words (ocm_words hdr (a - io)), DeviceState st))"
  obtain s p d where r: "r = (s, p, d)" by (cases r)
  define st1 where "st1 = set_partition_header (unat i) p (st\<lparr>DeviceState := d\<rparr>)"
  define b where "b = is_atf_entry cpu i e p"
  define st2 where "st2 = (if b then st1\<lparr>ATFHandoffParams :=
    XFsbl_SetATFHandoffParameters p e (ATFHandoffParams st1)\<rparr> else st1)"
  define e2 where "e2 = (if b then e + 1 else e)"
  have i: "unat (i + 1) = Suc (unat i)" "unat i < 2 ^ 31"
    using Suc.prems(2,3) by (simp_all add: unat_plus_one)
  have b: "b \<longleftrightarrow> 1 < unat i \<and> unat e < 8 \<and> is_atf_candidate cpu p"
    unfolding b_def using is_atf_entry_iff i(2) by blast
  have e2: "unat e2 = (if b then Suc (unat e) else unat e)"
    using b by (simp add: e2_def unat_plus_one)
  have step: "read_partition_headers dev hdr fo cpu io n (i + 1)
      (NextPartitionOffset p * 4) e2 st2 = (XFSBL_SUCCESS, st')"
    using Suc.prems(1) r
    by (auto simp: r_def [symmetric] Let_def st1_def [symmetric] b_def [symmetric]
          st2_def e2_def [symmetric] split: if_splits)
  have ph: "PartitionHeader (ImageHeader st2) = (PartitionHeader (ImageHeader st))[unat i := p]"
    by (simp add: st2_def st1_def set_partition_header_def)
  obtain ps where ps: "length ps = n"
    "PartitionHeader (ImageHeader st') =
      take (unat (i + 1)) (PartitionHeader (ImageHeader st2)) @ ps @
      drop (unat (i + 1) + n) (PartitionHeader (ImageHeader st2))"
    "ATFHandoffParams st' =
      set_atf_all e2 (atf_taken cpu (8 - unat e2) (unat (i + 1)) ps) (ATFHandoffParams st2)"
    using Suc.IH [OF step] Suc.prems(2-4) i b e2 ph by (auto split: if_splits)
  have "PartitionHeader (ImageHeader st') =
      take (unat i) (PartitionHeader (ImageHeader st)) @ (p # ps) @
      drop (unat i + Suc n) (PartitionHeader (ImageHeader st))"
    using ps(2) ph i Suc.prems(2) by (simp add: take_Suc_conv_app_nth)
  moreover have "ATFHandoffParams st' =
      set_atf_all e (atf_taken cpu (8 - unat e) (unat i) (p # ps)) (ATFHandoffParams st)"
    using ps(3) i b e2
    by (auto simp: atf_taken_Cons st2_def st1_def e2_def set_partition_header_def)
  ultimately show ?case
    using ps(1) by (intro exI [of _ "p # ps"]) simp
qed

lemma read_partition_headers_bus [simp]:
  "BusState (snd (read_partition_headers dev hdr fo cpu io n i a e st)) = BusState st"
proof (induction n arbitrary: i a e st)
  case 0
  then show ?case by simp
next
  case (Suc n)
  then show ?case
    by (simp add: Let_def set_partition_header_def split: prod.splits option.splits)
qed

lemma read_partition_headers_table [simp]:
  "ImageHeaderTable (ImageHeader (snd (read_partition_headers dev hdr fo cpu io n i a e st))) =
   ImageHeaderTable (ImageHeader st)"
proof (induction n arbitrary: i a e st)
  case 0
  then show ?case by simp
next
  case (Suc n)
  then show ?case
    by (simp add: Let_def set_partition_header_def split: prod.splits option.splits)
qed

lemma table_accepted_bounds:
  assumes "XFsbl_ValidateImageHeaderTable t = XFSBL_SUCCESS"
  shows "2 \<le> unat (IHT_NoOfPartitions t)" "unat (IHT_NoOfPartitions t) \<le> 32"
    "IHT_PartitionPresentDevice t = XIH_IHT_PPD_SAME"
  using assms
  by (auto simp: XFsbl_ValidateImageHeaderTable_def Let_def word_le_nat_alt word_less_nat_alt
      split: if_splits)

lemma ReadImageHeader_primary:
  fixes st st' :: "('d, 's) ih_state"
  assumes ok: "XFsbl_ReadImageHeader hw atf_addr dev hdr fo cpu io st = (XFSBL_SUCCESS, st')"
    and primary: "IHT_PartitionPresentDevice (ImageHeaderTable (ImageHeader st')) = XIH_IHT_PPD_SAME"
  obtains st1 st2 where
    "XFsbl_ValidateImageHeaderTable (ImageHeaderTable (ImageHeader st1)) = XFSBL_SUCCESS"
    "PartitionHeader (ImageHeader st1) = PartitionHeader (ImageHeader st)"
    "ATFHandoffParams st1 = ATFHandoffParams st" "BusState st1 = BusState st"
    "read_partition_headers dev hdr fo cpu io
       (unat (IHT_NoOfPartitions (ImageHeaderTable (ImageHeader st1)))) 0
       (IHT_PartitionHeaderAddress (ImageHeaderTable (ImageHeader st1)) * 4) 0 st1 =
       (XFSBL_SUCCESS, st2)"
    "st' = st2\<lparr>BusState := Out32 hw (BusState st2) PMU_GLOBAL_GLOB_GEN_STORAGE6 atf_addr\<rparr>"
proof -
  define r where "r = (case dev of
      Some copy \<Rightarrow> (case copy (DeviceState st) (fo + io) XIH_IHT_LEN of (s, w, d) \<Rightarrow> (s, iht_of_words w, d))
    | None \<Rightarrow> (XFSBL_SUCCESS, iht_of_words (ocm_words hdr 0), DeviceState st))"
  obtain s t d where r: "r = (s, t, d)" by (cases r)
  define st1 where "st1 = st\<lparr>DeviceState := d, ImageHeader := (ImageHeader st)\<lparr>ImageHeaderTable := t\<rparr>\<rparr>"
  have valid: "XFsbl_ValidateImageHeaderTable t = XFSBL_SUCCESS"
    and rest: "(case read_partition_headers dev hdr fo cpu io (unat (IHT_NoOfPartitions t)) 0
        (IHT_PartitionHeaderAddress t * 4) 0 st1 of
      (s, st) \<Rightarrow> if s \<noteq> XFSBL_SUCCESS then (s, st)
        else (s, st\<lparr>BusState := Out32 hw (BusState st) PMU_GLOBAL_GLOB_GEN_STORAGE6 atf_addr\<rparr>)) =
      (XFSBL_SUCCESS, st')"
    using ok primary r
    by (auto simp: XFsbl_ReadImageHeader_def r_def [symmetric] Let_def st1_def
        XFsbl_ValidateImageHeaderTable_def split: if_splits)
  obtain s2 st2 where "read_partition_headers dev hdr fo cpu io (unat (IHT_NoOfPartitions t)) 0
      (IHT_PartitionHeaderAddress t * 4) 0 st1 = (s2, st2)"
    by (cases "read_partition_headers dev hdr fo cpu io (unat (IHT_NoOfPartitions t)) 0
      (IHT_PartitionHeaderAddress t * 4) 0 st1")
  with rest valid show ?thesis
    by (intro that [of st1 st2]) (auto simp: st1_def split: if_splits)
qed

text \<open>
  C4. When \<open>XFsbl_ReadImageHeader\<close> succeeds on an image of the primary boot device, the header
  array keeps its 32 slots and only the first \<open>NoOfPartitions\<close> of them change; the trusted
  firmware is given exactly the first eight candidates among the partitions read, in order, one
  entry each and no slot of the eight-entry array written beyond them; and the address of the
  structure is announced in \<open>GLOBAL_GEN_STORAGE6\<close>.
\<close>

theorem read_image_header_atf_entries:
  fixes st st' :: "('d, 's) ih_state"
  assumes "XFsbl_ReadImageHeader hw atf_addr dev hdr fo cpu io st = (XFSBL_SUCCESS, st')"
    and "IHT_PartitionPresentDevice (ImageHeaderTable (ImageHeader st')) = XIH_IHT_PPD_SAME"
    and "length (PartitionHeader (ImageHeader st)) = 32"
    and "length (Entry (ATFHandoffParams st)) = 8"
  shows "let N = unat (IHT_NoOfPartitions (ImageHeaderTable (ImageHeader st')));
             cs = take 8 (atf_candidates cpu (take N (PartitionHeader (ImageHeader st'))))
         in 2 \<le> N \<and> N \<le> 32 \<and> length (PartitionHeader (ImageHeader st')) = 32 \<and>
            drop N (PartitionHeader (ImageHeader st')) = drop N (PartitionHeader (ImageHeader st)) \<and>
            Entry (ATFHandoffParams st') =
              map atf_entry cs @ drop (length cs) (Entry (ATFHandoffParams st)) \<and>
            (cs \<noteq> [] \<longrightarrow> NumEntries (ATFHandoffParams st') = of_nat (length cs) \<and>
               MagicValue (ATFHandoffParams st') = [0x58, 0x4C, 0x4E, 0x58]) \<and>
            (cs = [] \<longrightarrow> ATFHandoffParams st' = ATFHandoffParams st) \<and>
            BusState st' = Out32 hw (BusState st) PMU_GLOBAL_GLOB_GEN_STORAGE6 atf_addr"
proof -
  obtain st1 st2 where
    valid: "XFsbl_ValidateImageHeaderTable (ImageHeaderTable (ImageHeader st1)) = XFSBL_SUCCESS"
    and st1: "PartitionHeader (ImageHeader st1) = PartitionHeader (ImageHeader st)"
    "ATFHandoffParams st1 = ATFHandoffParams st" "BusState st1 = BusState st"
    and loop: "read_partition_headers dev hdr fo cpu io
       (unat (IHT_NoOfPartitions (ImageHeaderTable (ImageHeader st1)))) 0
       (IHT_PartitionHeaderAddress (ImageHeaderTable (ImageHeader st1)) * 4) 0 st1 =
       (XFSBL_SUCCESS, st2)"
    and st': "st' = st2\<lparr>BusState := Out32 hw (BusState st2) PMU_GLOBAL_GLOB_GEN_STORAGE6 atf_addr\<rparr>"
    by (rule ReadImageHeader_primary [OF assms(1,2)])
  define N where "N = unat (IHT_NoOfPartitions (ImageHeaderTable (ImageHeader st1)))"
  have N: "2 \<le> N" "N \<le> 32"
    using table_accepted_bounds [OF valid] by (simp_all add: N_def)
  have same: "ImageHeaderTable (ImageHeader st2) = ImageHeaderTable (ImageHeader st1)"
    "BusState st2 = BusState st"
    using arg_cong [OF loop, of "\<lambda>r. ImageHeaderTable (ImageHeader (snd r))"]
      arg_cong [OF loop, of "\<lambda>r. BusState (snd r)"] st1(3) by simp_all
  obtain ps where ps: "length ps = N"
    "PartitionHeader (ImageHeader st2) = ps @ drop N (PartitionHeader (ImageHeader st))"
    "ATFHandoffParams st2 = set_atf_all 0 (atf_taken cpu 8 0 ps) (ATFHandoffParams st)"
    using read_partition_headers_success [OF loop] assms(3) N st1 by (auto simp: N_def)
  define cs where "cs = atf_taken cpu 8 0 ps"
  have cs: "cs = take 8 (atf_candidates cpu ps)"
    by (simp add: cs_def atf_taken_def atf_candidates_def)
  have len: "length cs \<le> 8" by (simp add: cs_def length_atf_taken)
  have "Entry (ATFHandoffParams st2) = map atf_entry cs @ drop (length cs) (Entry (ATFHandoffParams st))"
    using set_atf_all_entries [of 0 cs "ATFHandoffParams st"] ps(3) len assms(4) by (simp add: cs_def)
  then show ?thesis
    using N ps same st' assms(3) cs set_atf_all_NumEntries [of 0 cs "ATFHandoffParams st"]
      set_atf_all_MagicValue [of cs "ATFHandoffParams st"]
    by (simp add: N_def [symmetric] cs_def [symmetric] Let_def)
qed

text \<open>A three-partition image in a flash of 64 words, whose third partition is an A53 application.\<close>

definition demo_flash :: "nat \<Rightarrow> u8" where
  "demo_flash n =
     (if n = 4 then 3 else if n = 8 then 16 else if n = 60 then 0xEC else if 60 < n \<and> n < 64 then 0xFF
      else if n = 76 then 32 else if n = 140 then 48
      else if n = 210 then 8 else if n = 229 then 1 else 0)"

definition flash_copy :: "(nat \<Rightarrow> u8) device_copy" where
  "flash_copy = (\<lambda>flash off len. (XFSBL_SUCCESS, \<lambda>i. le32 flash (unat off + 4 * i), flash))"

definition demo_state :: "(nat \<Rightarrow> u8, u64 \<Rightarrow> u32) ih_state" where
  "demo_state =
     \<lparr>ImageHeader = \<lparr>ImageHeaderTable = iht_of_words (\<lambda>_. 0),
        PartitionHeader = replicate 32 (ph_of_words (\<lambda>_. 0))\<rparr>,
      ATFHandoffParams = \<lparr>MagicValue = replicate 4 0, NumEntries = 0,
        Entry = replicate 8 \<lparr>EntryPoint = 0, PartitionFlags = 0\<rparr>\<rparr>,
      DeviceState = demo_flash, BusState = (\<lambda>_. 0)\<rparr>"

definition demo_table :: XFsblPs_ImageHeaderTable where
  "demo_table = \<lparr>IHT_Version = 0, IHT_NoOfPartitions = 3, IHT_PartitionHeaderAddress = 16,
      IHT_Reserved_0xC = 0, IHT_AuthCertificateOffset = 0,
      IHT_PartitionPresentDevice = 0, IHT_Reserved = [0, 0, 0, 0, 0, 0, 0, 0, 0],
      IHT_Checksum = 0xFFFFFFEC\<rparr>"

definition demo_partition :: "u32 \<Rightarrow> u64 \<Rightarrow> u32 \<Rightarrow> XFsblPs_PartitionHeader" where
  "demo_partition nxt exec attr =
     (ph_of_words (\<lambda>_. 0))\<lparr>NextPartitionOffset := nxt, DestinationExecutionAddress := exec,
        PartitionAttributes := attr\<rparr>"

lemma demo_words:
  "iht_of_words (\<lambda>i. le32 demo_flash (4 * i)) = demo_table"
  "ph_of_words (\<lambda>i. le32 demo_flash (64 + 4 * i)) = demo_partition 32 0 0"
  "ph_of_words (\<lambda>i. le32 demo_flash (128 + 4 * i)) = demo_partition 48 0 0"
  "ph_of_words (\<lambda>i. le32 demo_flash (192 + 4 * i)) = demo_partition 0 0x80000 0x100"
  by (simp_all add: demo_table_def demo_partition_def iht_of_words_def ph_of_words_def le32_def
      le64_def demo_flash_def upt_rec)

lemma demo_table_valid: "XFsbl_ValidateImageHeaderTable demo_table = XFSBL_SUCCESS"
  by (simp add: demo_table_def XFsbl_ValidateImageHeaderTable_def XFsbl_ValidateChecksum_def
      words_of_iht_def upt_rec word_le_nat_alt)

lemma demo_cpu [simp]:
  "is_atf_candidate 0x100 (demo_partition n 0 0) = False"
  "is_atf_candidate 0x100 (demo_partition n 0x80000 0x100) = True"
  by (simp_all add: is_atf_candidate_def demo_partition_def destination_cpu_or_def
      XFsbl_GetDestinationCpu_def)

lemma demo_next: "NextPartitionOffset (demo_partition n a b) = n"
  by (simp add: demo_partition_def)

lemma demo_run:
  "XFsbl_ReadImageHeader mem_bus 0xFFFE0000 (Some flash_copy) (\<lambda>_. 0) 0
     XIH_PH_ATTRB_DEST_CPU_A53_0 0 demo_state =
   (XFSBL_SUCCESS, demo_state
     \<lparr>ImageHeader := \<lparr>ImageHeaderTable = demo_table,
        PartitionHeader = (replicate 32 (ph_of_words (\<lambda>_. 0)))
          [0 := demo_partition 32 0 0, 1 := demo_partition 48 0 0,
           2 := demo_partition 0 0x80000 0x100]\<rparr>,
      ATFHandoffParams := XFsbl_SetATFHandoffParameters (demo_partition 0 0x80000 0x100) 0
        (ATFHandoffParams demo_state),
      BusState := (\<lambda>_. 0)(PMU_GLOBAL_GLOB_GEN_STORAGE6 := 0xFFFE0000)\<rparr>)"
proof -
  have three: "unat (IHT_NoOfPartitions demo_table) = Suc (Suc (Suc 0))"
    "IHT_PartitionHeaderAddress demo_table = 16"
    by (simp_all add: demo_table_def)
  show ?thesis
   by (simp add: XFsbl_ReadImageHeader_def flash_copy_def demo_words demo_table_valid three
      demo_state_def demo_next is_atf_entry_iff set_partition_header_def Let_def)
qed
theorem read_image_header_atf_entries_witness:
  "let st = snd (XFsbl_ReadImageHeader mem_bus 0xFFFE0000 (Some flash_copy) (\<lambda>_. 0) 0
         XIH_PH_ATTRB_DEST_CPU_A53_0 0 demo_state)
   in NumEntries (ATFHandoffParams st) = 1 \<and>
      EntryPoint (Entry (ATFHandoffParams st) ! 0) = 0x80000 \<and>
      BusState st PMU_GLOBAL_GLOB_GEN_STORAGE6 = 0xFFFE0000"
proof -
  have one: "atf_candidates 0x100 (take 3 ((replicate 32 (ph_of_words (\<lambda>_. 0)))
      [0 := demo_partition 32 0 0, 1 := demo_partition 48 0 0,
       2 := demo_partition 0 0x80000 0x100])) = [demo_partition 0 0x80000 0x100]"
    by (simp add: atf_candidates_def take_update_swap numeral_3_eq_3)
  show ?thesis
    using read_image_header_atf_entries [OF demo_run] one unfolding demo_run
    by (simp add: demo_state_def demo_table_def Let_def atf_entry_def)
       (simp add: demo_partition_def)
qed

section \<open>The partition header checks\<close>

text \<open>
  Where a partition may be loaded: the memory of its own core (PMU RAM, or the R5 tightly coupled
  memories), the PS DDR and the high DDR when the board has PS DDR, the PL DDR, the last OCM banks,
  and, for the PL, the address that stands for "not configured".
\<close>

definition loadable :: "fsbl_config \<Rightarrow> u32 \<Rightarrow> u32 \<Rightarrow> u64 set" where
  "loadable cfg cpu dev =
     (if cpu = XIH_PH_ATTRB_DEST_CPU_PMU then {0xFFDC0000..<0xFFDDFFFF} else {}) \<union>
     (if cpu = XIH_PH_ATTRB_DEST_CPU_R5_0 \<or> cpu = XIH_PH_ATTRB_DEST_CPU_R5_1
      then {0..<0x10000} \<union> {0x20000..<0x30000} else {}) \<union>
     (if cpu = XIH_PH_ATTRB_DEST_CPU_R5_L then {0..<0x40000} else {}) \<union>
     (case cfg_ps_ddr_end cfg of
        None \<Rightarrow> {}
      | Some e \<Rightarrow> {0..e} \<union> (case cfg_ps_hi_ddr cfg of None \<Rightarrow> {} | Some (lo, hi) \<Rightarrow> {lo..hi})) \<union>
     (case cfg_pl_ddr cfg of None \<Rightarrow> {} | Some (lo, hi) \<Rightarrow> {lo..<hi}) \<union>
     {0xFFFEA000..<0xFFFFFFFF} \<union>
     (if dev = XIH_PH_ATTRB_DEST_DEVICE_PL then {0xFFFFFFFF} else {})"

lemma if_success: "(if b then XFSBL_SUCCESS else x) = XFSBL_SUCCESS \<longleftrightarrow> b \<or> x = XFSBL_SUCCESS"
  by simp

lemma CheckValidMemoryAddress_iff:
  "XFsbl_CheckValidMemoryAddress cfg a cpu dev = XFSBL_SUCCESS \<longleftrightarrow> a \<in> loadable cfg cpu dev"
  unfolding XFsbl_CheckValidMemoryAddress_def loadable_def if_success
  by (simp add: disj_assoc split: option.split prod.split)

text \<open>The length relations, the encryption part and the signature part each on its own.\<close>

definition lengths_ok :: "XFsblPs_PartitionHeader \<Rightarrow> bool \<Rightarrow> bool \<Rightarrow> bool" where
  "lengths_ok p auth enc \<longleftrightarrow>
     (if enc then UnEncryptedDataWordLength p < EncryptedDataWordLength p
      else UnEncryptedDataWordLength p = EncryptedDataWordLength p) \<and>
     (if auth then EncryptedDataWordLength p < TotalDataWordLength p
      else EncryptedDataWordLength p = TotalDataWordLength p)"

lemma check_lengths_iff: "check_lengths p auth enc = XFSBL_SUCCESS \<longleftrightarrow> lengths_ok p auth enc"
  by (cases auth; cases enc)
     (auto simp: check_lengths_def lengths_ok_def Let_def linorder_not_le [symmetric])

lemma check_xip_iff:
  "check_xip p auth enc = XFSBL_SUCCESS \<longleftrightarrow>
     (UnEncryptedDataWordLength p = 0 \<longrightarrow> \<not> auth \<and> \<not> enc \<and>
        DestinationExecutionAddress p \<in> {0xC0000000..0xDFFFFFFF})"
  by (auto simp: check_xip_def linorder_not_le [symmetric])

text \<open>Whose partitions a core may load after a master-only reset: its own cluster's.\<close>

definition owned_by :: "u32 \<Rightarrow> u32 \<Rightarrow> bool" where
  "owned_by RunningCpu cpu \<longleftrightarrow>
     RunningCpu = XIH_PH_ATTRB_DEST_CPU_A53_0 \<and>
       cpu \<in> {XIH_PH_ATTRB_DEST_CPU_A53_0..XIH_PH_ATTRB_DEST_CPU_A53_3} \<or>
     RunningCpu \<in> {XIH_PH_ATTRB_DEST_CPU_R5_0, XIH_PH_ATTRB_DEST_CPU_R5_L} \<and> cpu = RunningCpu"

lemma check_partition_owner_iff:
  "check_partition_owner p RunningCpu ResetType = XFSBL_SUCCESS \<longleftrightarrow>
     (ResetType = XFSBL_MASTER_ONLY_RESET \<longrightarrow> owned_by RunningCpu (XFsbl_GetDestinationCpu p))"
  by (auto simp: check_partition_owner_def owned_by_def Let_def)

text \<open>An R5 loader sees the tightly coupled memories where A53 partitions see the DDR.\<close>

definition r5_shadow_ok :: "XFsblPs_PartitionHeader \<Rightarrow> u32 \<Rightarrow> u32 \<Rightarrow> bool" where
  "r5_shadow_ok p RunningCpu cpu \<longleftrightarrow>
     (RunningCpu \<in> {XIH_PH_ATTRB_DEST_CPU_R5_0, XIH_PH_ATTRB_DEST_CPU_R5_L} \<longrightarrow>
      cpu \<in> {XIH_PH_ATTRB_DEST_CPU_A53_0, XIH_PH_ATTRB_DEST_CPU_A53_1,
              XIH_PH_ATTRB_DEST_CPU_A53_2, XIH_PH_ATTRB_DEST_CPU_A53_3} \<longrightarrow>
      0x40000 \<le> DestinationLoadAddress p)"

lemma check_r5_to_a53_address_iff:
  "check_r5_to_a53_address p RunningCpu cpu = XFSBL_SUCCESS \<longleftrightarrow> r5_shadow_ok p RunningCpu cpu"
  by (auto simp: check_r5_to_a53_address_def r5_shadow_ok_def linorder_not_le [symmetric])

definition types_ok :: "XFsblPs_PartitionHeader \<Rightarrow> u32 \<Rightarrow> u32 \<Rightarrow> bool" where
  "types_ok p RunningCpu cpu \<longleftrightarrow>
     XFsbl_GetChecksumType p \<in> {XIH_PH_ATTRB_NOCHECKSUM, XIH_PH_ATTRB_HASH_SHA3} \<and>
     cpu \<le> XIH_PH_ATTRB_DEST_CPU_PMU \<and>
     \<not> (cpu \<in> {XIH_PH_ATTRB_DEST_CPU_R5_0, XIH_PH_ATTRB_DEST_CPU_R5_1} \<and>
        RunningCpu = XIH_PH_ATTRB_DEST_CPU_R5_L) \<and>
     \<not> (cpu = XIH_PH_ATTRB_DEST_CPU_R5_L \<and> RunningCpu = XIH_PH_ATTRB_DEST_CPU_R5_0) \<and>
     XFsbl_GetDestinationDevice p \<le> XIH_PH_ATTRB_DEST_DEVICE_PMU"

lemma check_types_iff:
  "check_types p RunningCpu cpu = XFSBL_SUCCESS \<longleftrightarrow> types_ok p RunningCpu cpu"
  by (simp add: check_types_def types_ok_def linorder_not_le [symmetric])

lemmas partition_check_iffs =
  check_partition_owner_iff check_xip_iff check_lengths_iff CheckValidMemoryAddress_iff
  check_r5_to_a53_address_iff check_types_iff

text \<open>The encryption-only fuse, as the bus answers it.\<close>

definition enc_only_fuse :: "'s bus \<Rightarrow> 's \<Rightarrow> bool" where
  "enc_only_fuse hw s \<longleftrightarrow> fst (In32 hw s EFUSE_SEC_CTRL) AND EFUSE_SEC_CTRL_ENC_ONLY_MASK \<noteq> 0"

lemma ValidatePartitionHeader_status:
  "fst (XFsbl_ValidatePartitionHeader hw cfg p cpu reset s) =
     (let enc = (XFsbl_IsEncrypted p = XIH_PH_ATTRB_ENCRYPTION);
          auth = (XFsbl_IsRsaSignaturePresent p = XIH_PH_ATTRB_RSA_SIGNATURE);
          dest = destination_cpu_or cpu p
      in if cfg_force_enc cfg \<and> enc_only_fuse hw s \<and> \<not> enc then XFSBL_FAILURE
         else status_seq (check_partition_owner p cpu reset)
            (status_seq (check_xip p auth enc)
            (status_seq (check_lengths p auth enc)
            (status_seq (XFsbl_CheckValidMemoryAddress cfg (DestinationLoadAddress p)
                           dest (XFsbl_GetDestinationDevice p))
            (status_seq (check_r5_to_a53_address p cpu dest) (check_types p cpu dest))))))"
  by (simp add: XFsbl_ValidatePartitionHeader_def enc_only_fuse_def Let_def split: prod.split)

text \<open>
  C5. \<open>XFsbl_ValidatePartitionHeader\<close> accepts a header exactly when: an encryption-only fuse finds
  it encrypted; after a master-only reset it belongs to the running cluster; an execute-in-place
  header is plain and executes from linear QSPI; the encrypted and signed lengths grow with the
  encryption and the signature and only then; the load address is memory the destination can use
  (and outside the R5 shadow for A53 partitions loaded by an R5); and checksum type, core, lockstep
  mode and device are known ones.
\<close>

theorem partition_header_accepted_iff:
  "fst (XFsbl_ValidatePartitionHeader hw cfg p cpu reset s) = XFSBL_SUCCESS \<longleftrightarrow>
     (let enc = (XFsbl_IsEncrypted p = XIH_PH_ATTRB_ENCRYPTION);
          auth = (XFsbl_IsRsaSignaturePresent p = XIH_PH_ATTRB_RSA_SIGNATURE);
          dest = destination_cpu_or cpu p
      in (cfg_force_enc cfg \<and> enc_only_fuse hw s \<longrightarrow> enc) \<and>
         (reset = XFSBL_MASTER_ONLY_RESET \<longrightarrow> owned_by cpu (XFsbl_GetDestinationCpu p)) \<and>
         (UnEncryptedDataWordLength p = 0 \<longrightarrow> \<not> auth \<and> \<not> enc \<and>
            DestinationExecutionAddress p \<in> {0xC0000000..0xDFFFFFFF}) \<and>
         lengths_ok p auth enc \<and>
         DestinationLoadAddress p \<in> loadable cfg dest (XFsbl_GetDestinationDevice p) \<and>
         r5_shadow_ok p cpu dest \<and> types_ok p cpu dest)"
proof -
  have "(if b then XFSBL_FAILURE else x) = XFSBL_SUCCESS \<longleftrightarrow> \<not> b \<and> x = XFSBL_SUCCESS" for b x
    by simp
  then show ?thesis
    unfolding ValidatePartitionHeader_status Let_def
    by (simp only: status_seq_success partition_check_iffs) blast
qed

text \<open>A plain A53 partition at the start of the DDR of a board with 2 GiB of PS DDR.\<close>

definition demo_config :: fsbl_config where
  "demo_config = \<lparr>cfg_ps_ddr_end = Some 0x7FFFFFFF, cfg_ps_hi_ddr = None, cfg_pl_ddr = None,
     cfg_force_enc = True\<rparr>"

definition demo_loaded_partition :: XFsblPs_PartitionHeader where
  "demo_loaded_partition = (demo_partition 0 0x80000 0x100)
     \<lparr>EncryptedDataWordLength := 4, UnEncryptedDataWordLength := 4, TotalDataWordLength := 4,
      DestinationLoadAddress := 0x80000\<rparr>"

theorem partition_header_accepted_iff_witness:
  "fst (XFsbl_ValidatePartitionHeader mem_bus demo_config demo_loaded_partition
     XIH_PH_ATTRB_DEST_CPU_A53_0 0 (\<lambda>_. 0)) = XFSBL_SUCCESS \<and>
   fst (XFsbl_ValidatePartitionHeader mem_bus demo_config demo_loaded_partition
     XIH_PH_ATTRB_DEST_CPU_A53_0 0 (\<lambda>_. 4)) \<noteq> XFSBL_SUCCESS"
  unfolding partition_header_accepted_iff
  by (simp add: demo_config_def demo_loaded_partition_def demo_partition_def ph_of_words_def
      XFsbl_IsEncrypted_def XFsbl_IsRsaSignaturePresent_def destination_cpu_or_def
      XFsbl_GetDestinationCpu_def XFsbl_GetDestinationDevice_def XFsbl_GetChecksumType_def
      enc_only_fuse_def owned_by_def lengths_ok_def loadable_def r5_shadow_ok_def types_ok_def
      word_le_nat_alt)

text \<open>
  C6. With \<open>XFSBL_FORCE_ENC\<close> built in, a blown encryption-only fuse makes every unencrypted header
  fail with \<open>XFSBL_FAILURE\<close>, whatever else it says; and every accepted header has word lengths in
  order, all of them zero for an execute-in-place image.
\<close>

theorem encryption_fuse_enforced:
  "(cfg_force_enc cfg \<longrightarrow> enc_only_fuse hw s \<longrightarrow> XFsbl_IsEncrypted p \<noteq> XIH_PH_ATTRB_ENCRYPTION \<longrightarrow>
      fst (XFsbl_ValidatePartitionHeader hw cfg p cpu reset s) = XFSBL_FAILURE) \<and>
   (fst (XFsbl_ValidatePartitionHeader hw cfg p cpu reset s) = XFSBL_SUCCESS \<longrightarrow>
      UnEncryptedDataWordLength p \<le> EncryptedDataWordLength p \<and>
      EncryptedDataWordLength p \<le> TotalDataWordLength p \<and>
      (UnEncryptedDataWordLength p = 0 \<longrightarrow> TotalDataWordLength p = 0))"
proof (intro conjI impI)
  assume "cfg_force_enc cfg" "enc_only_fuse hw s" "XFsbl_IsEncrypted p \<noteq> XIH_PH_ATTRB_ENCRYPTION"
  then show "fst (XFsbl_ValidatePartitionHeader hw cfg p cpu reset s) = XFSBL_FAILURE"
    by (simp add: ValidatePartitionHeader_status)
next
  assume "fst (XFsbl_ValidatePartitionHeader hw cfg p cpu reset s) = XFSBL_SUCCESS"
  then obtain auth enc where lens: "lengths_ok p auth enc"
    and xip: "UnEncryptedDataWordLength p = 0 \<longrightarrow> \<not> auth \<and> \<not> enc"
    by (auto simp: ValidatePartitionHeader_status Let_def partition_check_iffs split: if_splits)
  from lens show "UnEncryptedDataWordLength p \<le> EncryptedDataWordLength p"
    "EncryptedDataWordLength p \<le> TotalDataWordLength p"
    by (auto simp: lengths_ok_def split: if_splits)
  assume "UnEncryptedDataWordLength p = 0"
  with lens xip show "TotalDataWordLength p = 0"
    by (auto simp: lengths_ok_def)
qed

theorem encryption_fuse_enforced_witness:
  "fst (XFsbl_ValidatePartitionHeader mem_bus demo_config demo_loaded_partition
     XIH_PH_ATTRB_DEST_CPU_A53_0 0 (\<lambda>_. 4)) = XFSBL_FAILURE \<and>
   EncryptedDataWordLength demo_loaded_partition \<le> TotalDataWordLength demo_loaded_partition"
  using encryption_fuse_enforced [of demo_config mem_bus "\<lambda>_. 4" demo_loaded_partition
      XIH_PH_ATTRB_DEST_CPU_A53_0 0]
  by (simp add: demo_config_def demo_loaded_partition_def demo_partition_def ph_of_words_def
      enc_only_fuse_def XFsbl_IsEncrypted_def)

section \<open>The boot device as the reader sees it\<close>

text \<open>
  What the reader relies on from a boot device: a successful copy of bytes that lie inside the
  device leaves the device's content alone and puts exactly those bytes into the destination
  buffer. The providers are the copy routines of the flash drivers.
\<close>

locale boot_device =
  fixes copy :: "'d device_copy"
    and content :: "'d \<Rightarrow> nat \<Rightarrow> u8"
    and capacity :: "'d \<Rightarrow> nat"
    and usable :: "'d \<Rightarrow> bool"
  assumes copy_usable:
      "usable d \<Longrightarrow> unat off + unat len \<le> capacity d \<Longrightarrow> copy d off len = (XFSBL_SUCCESS, w, d') \<Longrightarrow>
       usable d' \<and> content d' = content d \<and> capacity d' = capacity d"
    and copy_words:
      "usable d \<Longrightarrow> unat off + unat len \<le> capacity d \<Longrightarrow> copy d off len = (XFSBL_SUCCESS, w, d') \<Longrightarrow>
       4 * i + 4 \<le> unat len \<Longrightarrow> w i = le32 (content d) (unat off + 4 * i)"
begin

lemma copy_partition_header:
  assumes "usable d" "unat off + 64 \<le> capacity d" "copy d off XIH_PH_LEN = (XFSBL_SUCCESS, w, d')"
  shows "ph_of_words w = ph_of_words (\<lambda>i. le32 (content d) (unat off + 4 * i))"
proof -
  have "w i = le32 (content d) (unat off + 4 * i)" if "i < 16" for i
    by (rule copy_words [OF assms(1) _ assms(3)]) (use assms(2) that in simp_all)
  then show ?thesis by (simp add: ph_of_words_def)
qed

text \<open>Every header the loop stores is the one the flash holds where the previous one points.\<close>

lemma read_partition_headers_chain:
  assumes "read_partition_headers (Some copy) hdr fo cpu io n i a e st = (XFSBL_SUCCESS, st')"
    and "usable (DeviceState st)"
    and "unat i + n \<le> length (PartitionHeader (ImageHeader st))"
    and "length (PartitionHeader (ImageHeader st)) \<le> 32" and "unat e \<le> 8"
    and "\<And>k. k < n \<Longrightarrow> unat (fo + (if k = 0 then a
           else NextPartitionOffset (PartitionHeader (ImageHeader st') ! (unat i + k - 1)) * 4)) + 64
           \<le> capacity (DeviceState st)"
  shows "k < n \<Longrightarrow> PartitionHeader (ImageHeader st') ! (unat i + k) =
    ph_of_words (\<lambda>j. le32 (content (DeviceState st)) (unat (fo + (if k = 0 then a
      else NextPartitionOffset (PartitionHeader (ImageHeader st') ! (unat i + k - 1)) * 4)) + 4 * j))"
  using assms
proof (induction n arbitrary: i a e st k)
  case 0
  then show ?case by simp
next
  case (Suc n)
  obtain s w d where r: "copy (DeviceState st) (fo + a) XIH_PH_LEN = (s, w, d)"
    by (cases "copy (DeviceState st) (fo + a) XIH_PH_LEN")
  define p where "p = ph_of_words w"
  define st1 where "st1 = set_partition_header (unat i) p (st\<lparr>DeviceState := d\<rparr>)"
  define b where "b = is_atf_entry cpu i e p"
  define st2 where "st2 = (if b then st1\<lparr>ATFHandoffParams :=
    XFsbl_SetATFHandoffParameters p e (ATFHandoffParams st1)\<rparr> else st1)"
  define e2 where "e2 = (if b then e + 1 else e)"
  have s: "s = XFSBL_SUCCESS" and step: "read_partition_headers (Some copy) hdr fo cpu io n (i + 1)
      (NextPartitionOffset p * 4) e2 st2 = (XFSBL_SUCCESS, st')"
    using Suc.prems(2) r
    by (auto simp: Let_def p_def st1_def b_def st2_def e2_def split: if_splits)
  have i: "unat (i + 1) = Suc (unat i)" "unat i < 2 ^ 31"
    using Suc.prems(4,5) by (simp_all add: unat_plus_one)
  have e2: "unat e2 \<le> 8"
    using Suc.prems(6) is_atf_entry_iff [OF i(2), of cpu e p]
    by (simp add: e2_def b_def unat_plus_one)
  have room: "unat (fo + a) + 64 \<le> capacity (DeviceState st)"
    using Suc.prems(7) [of 0] by simp
  have dev: "usable d" "content d = content (DeviceState st)" "capacity d = capacity (DeviceState st)"
    using copy_usable [OF Suc.prems(3) _ r [unfolded s]] room by simp_all
  have st2: "DeviceState st2 = d"
    "PartitionHeader (ImageHeader st2) = (PartitionHeader (ImageHeader st))[unat i := p]"
    by (simp_all add: st2_def st1_def set_partition_header_def)
  have bounds: "unat (i + 1) + n \<le> length (PartitionHeader (ImageHeader st2))"
    "length (PartitionHeader (ImageHeader st2)) \<le> 32"
    using Suc.prems(4,5) st2(2) i(1) by simp_all
  obtain ps where ps: "PartitionHeader (ImageHeader st') =
      take (unat (i + 1)) (PartitionHeader (ImageHeader st2)) @ ps"
    using read_partition_headers_success [OF step bounds e2] by blast
  have first: "PartitionHeader (ImageHeader st') ! unat i = p"
    using ps i(1) st2(2) Suc.prems(4) by (simp add: nth_append)
  show ?case
  proof (cases k)
    case 0
    then show ?thesis
      using first copy_partition_header [OF Suc.prems(3) room r [unfolded s]] by (simp add: p_def)
  next
    case (Suc m)
    have room2: "unat (fo + (if j = 0 then NextPartitionOffset p * 4
         else NextPartitionOffset (PartitionHeader (ImageHeader st') ! (unat (i + 1) + j - 1)) * 4)) + 64
         \<le> capacity (DeviceState st2)" if "j < n" for j
      using Suc.prems(7) [of "Suc j"] that first i(1) st2(1) dev(3) by (cases j) simp_all
    have "m < n" "usable (DeviceState st2)" using Suc.prems(1) Suc st2(1) dev(1) by simp_all
    from Suc.IH [OF this(1) step this(2) bounds e2 room2] show ?thesis
      using Suc st2(1) dev(2) i(1) first by (cases m) simp_all
  qed
qed

end

end
