(* ===== verification/Fsbl_Platform.thy ===== *)
theory Fsbl_Platform
  imports Image_Header "HOL-Library.Monad_Syntax"
begin

text \<open>
  The ground the later stages of the boot loader share: the instance structure of
  \<open>xfsbl_main.h\<close>, the platform whose operations are parameters, and the helpers of
  \<open>xfsbl_misc.c\<close>, \<open>xfsbl_misc_drivers.c\<close>, \<open>xfsbl_bs.c\<close> and of the ECC initialisation. A function
  that polls hardware has no result when the awaited state never comes.
\<close>

section \<open>The platform\<close>

text \<open>
  What the boot loader calls and its repository does not contain, on a machine state \<open>'s\<close>: the
  board support package (registers, delays, caches, the power management interface), the CSU DMA
  driver, and the \<open>psu_init\<close> functions generated with the hardware description. \<open>pf_read\<close> is
  memory, in which \<open>pf_AuthBuffer\<close>, \<open>pf_HashBuffer\<close> and \<open>pf_ReadBuffer\<close> are the addresses of the loader's own buffers.
  \<open>pf_wdt\<close> and \<open>pf_xilpm\<close> tell whether the watchdog and the power management library are
  configured.
\<close>

record 's platform =
  pf_bus :: "'s bus"
  pf_read :: "'s \<Rightarrow> u64 \<Rightarrow> u8"
  pf_memset :: "u64 \<Rightarrow> u8 \<Rightarrow> u32 \<Rightarrow> 's \<Rightarrow> 's"
  pf_AuthBuffer :: u64
  pf_HashBuffer :: u64
  pf_ReadBuffer :: u64
  pf_usleep :: "u32 \<Rightarrow> 's \<Rightarrow> 's"
  pf_DCacheDisable :: "'s \<Rightarrow> 's"
  pf_DCacheEnable :: "'s \<Rightarrow> 's"
  pf_Platform_info :: u32
  pf_PSVersion :: u32
  pf_wdt :: "u32 option"
  pf_WdtIsReady :: "'s \<Rightarrow> bool"
  pf_WdtRestart :: "'s \<Rightarrow> 's"
  pf_WdtStop :: "'s \<Rightarrow> 's"
  pf_xilpm :: bool
  pf_IpiConfigured :: bool
  pf_IpiInitialize :: "'s \<Rightarrow> u32 \<times> 's"
  pf_XPm_InitXilpm :: "'s \<Rightarrow> u32 \<times> 's"
  pf_XPm_SetConfiguration :: "'s \<Rightarrow> u32 \<times> 's"
  pf_CsuDma_Transfer :: "u64 \<Rightarrow> u32 \<Rightarrow> bool \<Rightarrow> 's \<Rightarrow> 's"
  pf_CsuDma_WaitForDone :: "'s \<Rightarrow> 's option"
  pf_CsuDma_IntrClear :: "'s \<Rightarrow> 's"
  pf_psu_protection :: "'s \<Rightarrow> u32 \<times> 's"
  pf_psu_protection_lock :: "'s \<Rightarrow> u32 \<times> 's"
  pf_psu_ps_pl_isolation_removal :: "'s \<Rightarrow> 's"
  pf_psu_ps_pl_reset_config :: "'s \<Rightarrow> 's"

abbreviation (input) XPLAT_ZYNQ_ULTRA_MP :: u32 where "XPLAT_ZYNQ_ULTRA_MP \<equiv> 1"
abbreviation (input) XPLAT_ZYNQ_ULTRA_MPQEMU :: u32 where "XPLAT_ZYNQ_ULTRA_MPQEMU \<equiv> 2"
abbreviation (input) XPS_VERSION_1 :: u32 where "XPS_VERSION_1 \<equiv> 0"
abbreviation (input) XPS_VERSION_2 :: u32 where "XPS_VERSION_2 \<equiv> 1"

text \<open>\<open>RegVal = In32(a); RegVal = f(RegVal); Out32(a, RegVal);\<close>\<close>

definition update_reg :: "'s platform \<Rightarrow> u64 \<Rightarrow> (u32 \<Rightarrow> u32) \<Rightarrow> 's \<Rightarrow> 's" where
  "update_reg pf a f s = (case In32 (pf_bus pf) s a of (v, s) \<Rightarrow> Out32 (pf_bus pf) s a (f v))"

definition write_reg :: "'s platform \<Rightarrow> u64 \<Rightarrow> u32 \<Rightarrow> 's \<Rightarrow> 's" where
  "write_reg pf a v s = Out32 (pf_bus pf) s a v"

definition poll_reg :: "'s platform \<Rightarrow> u64 \<Rightarrow> (u32 \<Rightarrow> bool) \<Rightarrow> 's \<Rightarrow> 's option" where
  "poll_reg pf a ok s = map_option snd (poll (pf_bus pf) a ok s)"

definition mem_bytes :: "'s platform \<Rightarrow> 's \<Rightarrow> u64 \<Rightarrow> nat \<Rightarrow> u8 list" where
  "mem_bytes pf s a n = map (\<lambda>i. pf_read pf s (a + of_nat i)) [0..<n]"

definition mem_word :: "'s platform \<Rightarrow> 's \<Rightarrow> u64 \<Rightarrow> u32" where
  "mem_word pf s a = le32 (\<lambda>i. pf_read pf s (a + of_nat i)) 0"

text \<open>The steps after a call that must succeed; its error code is replaced.\<close>

definition on_success :: "(u32 \<times> 's) option \<Rightarrow> (u32 \<Rightarrow> u32) \<Rightarrow> ('s \<Rightarrow> (u32 \<times> 's) option) \<Rightarrow> (u32 \<times> 's) option" where
  "on_success r e k = Option.bind r (\<lambda>(Status, s). if Status \<noteq> XFSBL_SUCCESS then Some (e Status, s) else k s)"

lemma on_success_Some:
  "on_success r e k = Some (XFSBL_SUCCESS, s') \<longleftrightarrow>
     (\<exists>Status s. r = Some (Status, s) \<and> (if Status = XFSBL_SUCCESS then k s = Some (XFSBL_SUCCESS, s') else e Status = XFSBL_SUCCESS \<and> s = s'))"
  by (auto simp: on_success_def bind_eq_Some_conv split: if_splits)

lemma on_success_keep:
  "on_success r (\<lambda>Status. Status) k = Some (XFSBL_SUCCESS, s') \<longleftrightarrow> (\<exists>s. r = Some (XFSBL_SUCCESS, s) \<and> k s = Some (XFSBL_SUCCESS, s'))"
  by (auto simp: on_success_def bind_eq_Some_conv split: if_splits)

lemma on_success_code:
  "e \<noteq> XFSBL_SUCCESS \<Longrightarrow> on_success r (\<lambda>_. e) k = Some (XFSBL_SUCCESS, s') \<longleftrightarrow> (\<exists>s. r = Some (XFSBL_SUCCESS, s) \<and> k s = Some (XFSBL_SUCCESS, s'))"
  by (auto simp: on_success_def bind_eq_Some_conv split: if_splits)

lemma on_success_elim:
  assumes "on_success r e k = Some (Status, t)"
  obtains St s where "r = Some (St, s)" "(if St \<noteq> XFSBL_SUCCESS then Some (e St, s) else k s) = Some (Status, t)"
  using assms by (cases r) (auto simp: on_success_def)

text \<open>A loop over calls that may not return is a fixed point.\<close>

lemma on_success_mono [partial_function_mono]:
  assumes "mono_option (\<lambda>f. r f)" "\<And>s. mono_option (\<lambda>f. k f s)"
  shows "mono_option (\<lambda>f. on_success (r f) e (k f))"
  unfolding on_success_def by (intro bind_mono assms) (auto intro: partial_function_mono assms split: prod.split)

section \<open>The instance\<close>

text \<open>The AES engine's structure, as far as the loader looks at it: where the key comes from, whether one was given,
  the size of the data still to be decrypted and the address of the initialisation vector.\<close>

datatype aes_key_src = XSECURE_CSU_AES_KEY_SRC_KUP | XSECURE_CSU_AES_KEY_SRC_DEV

record XSecure_Aes =
  KeySel :: aes_key_src
  KeyGiven :: bool
  SizeofData :: u32
  IvAddr :: u64

text \<open>
  \<open>XFsblPs\<close>; \<open>HandoffValues\<close> are the settings and the address of ten CPUs. The machine is part of the
  state, and \<open>DeviceCopy\<close> is the copy operation of the boot device. The last four fields are variables of
  their own in the C files: the verified primary key, the AES structure, the initialisation vector of the
  boot header, and the parameters the trusted firmware is given.
\<close>

record 's XFsblPs =
  ProcessorID :: u32
  A53ExecState :: u32
  BootHdrAttributes :: u32
  ImageOffsetAddress :: u32
  ImageHeader_of :: XFsblPs_ImageHeader
  ErrorCode :: u32
  PrimaryBootDevice :: u32
  SecondaryBootDevice :: u32
  DeviceCopy :: "u32 \<Rightarrow> u64 \<Rightarrow> u32 \<Rightarrow> 's \<Rightarrow> (u32 \<times> 's) option"
  HandoffCpuNo :: u32
  ResetReason :: u32
  TcmEccInitStatus :: u32
  HandoffValues :: "(u32 \<times> u64) list"
  machine :: 's
  EfusePpkKey :: "u8 list"
  SecureAes_of :: XSecure_Aes
  BootIv :: "u8 list"
  ATFHandoffParams_of :: XFsblPs_ATFHandoffParams

definition on_machine :: "('s \<Rightarrow> ('a \<times> 's) option) \<Rightarrow> 's XFsblPs \<Rightarrow> ('a \<times> 's XFsblPs) option" where
  "on_machine f I = map_option (\<lambda>(r, s). (r, I\<lparr>machine := s\<rparr>)) (f (machine I))"

definition with_machine :: "('s \<Rightarrow> 's) \<Rightarrow> 's XFsblPs \<Rightarrow> 's XFsblPs" where
  "with_machine f I = I\<lparr>machine := f (machine I)\<rparr>"

abbreviation partition :: "'s XFsblPs \<Rightarrow> u32 \<Rightarrow> XFsblPs_PartitionHeader" where
  "partition I PartitionNum \<equiv> PartitionHeader (ImageHeader_of I) ! unat PartitionNum"

abbreviation (input) NoOfPartitions :: "'s XFsblPs \<Rightarrow> u32" where
  "NoOfPartitions I \<equiv> IHT_NoOfPartitions (ImageHeaderTable (ImageHeader_of I))"

section \<open>Power and isolation\<close>

abbreviation (input) PMU_GLOBAL_REQ_PWRUP_STATUS :: u64 where "PMU_GLOBAL_REQ_PWRUP_STATUS \<equiv> 0xFFD80110"
abbreviation (input) PMU_GLOBAL_REQ_PWRUP_INT_EN :: u64 where "PMU_GLOBAL_REQ_PWRUP_INT_EN \<equiv> 0xFFD80118"
abbreviation (input) PMU_GLOBAL_REQ_PWRUP_TRIG :: u64 where "PMU_GLOBAL_REQ_PWRUP_TRIG \<equiv> 0xFFD80120"
abbreviation (input) PMU_GLOBAL_REQ_ISO_STATUS :: u64 where "PMU_GLOBAL_REQ_ISO_STATUS \<equiv> 0xFFD80310"
abbreviation (input) PMU_GLOBAL_REQ_ISO_INT_EN :: u64 where "PMU_GLOBAL_REQ_ISO_INT_EN \<equiv> 0xFFD80318"
abbreviation (input) PMU_GLOBAL_REQ_ISO_TRIG :: u64 where "PMU_GLOBAL_REQ_ISO_TRIG \<equiv> 0xFFD80320"
abbreviation (input) PMU_GLOBAL_REQ_ISO_INT_EN_PL_NONPCAP_MASK :: u32 where "PMU_GLOBAL_REQ_ISO_INT_EN_PL_NONPCAP_MASK \<equiv> 0x4"
abbreviation (input) PMU_GLOBAL_PWR_STATE_PL_MASK :: u32 where "PMU_GLOBAL_PWR_STATE_PL_MASK \<equiv> 0x800000"
abbreviation (input) PMU_GLOBAL_PWR_STATE_FP_MASK :: u32 where "PMU_GLOBAL_PWR_STATE_FP_MASK \<equiv> 0x400000"
abbreviation (input) PMU_GLOBAL_PWR_STATE_TCM1B_MASK :: u32 where "PMU_GLOBAL_PWR_STATE_TCM1B_MASK \<equiv> 0x8000"
abbreviation (input) PMU_GLOBAL_PWR_STATE_TCM1A_MASK :: u32 where "PMU_GLOBAL_PWR_STATE_TCM1A_MASK \<equiv> 0x4000"
abbreviation (input) PMU_GLOBAL_PWR_STATE_TCM0B_MASK :: u32 where "PMU_GLOBAL_PWR_STATE_TCM0B_MASK \<equiv> 0x2000"
abbreviation (input) PMU_GLOBAL_PWR_STATE_TCM0A_MASK :: u32 where "PMU_GLOBAL_PWR_STATE_TCM0A_MASK \<equiv> 0x1000"
abbreviation (input) PMU_GLOBAL_PWR_STATE_R5_1_MASK :: u32 where "PMU_GLOBAL_PWR_STATE_R5_1_MASK \<equiv> 0x800"
abbreviation (input) PMU_GLOBAL_PWR_STATE_R5_0_MASK :: u32 where "PMU_GLOBAL_PWR_STATE_R5_0_MASK \<equiv> 0x400"
abbreviation (input) PMU_GLOBAL_PWR_STATE_L2_BANK0_MASK :: u32 where "PMU_GLOBAL_PWR_STATE_L2_BANK0_MASK \<equiv> 0x80"

definition island_mask :: "u32 \<Rightarrow> u32" where
  "island_mask PwrIslandMask =
     (if PwrIslandMask AND PMU_GLOBAL_PWR_STATE_R5_1_MASK = PMU_GLOBAL_PWR_STATE_R5_1_MASK
      then (PwrIslandMask AND NOT PMU_GLOBAL_PWR_STATE_R5_1_MASK) OR PMU_GLOBAL_PWR_STATE_R5_0_MASK
      else PwrIslandMask)"

definition XFsbl_PowerUpIsland :: "'s platform \<Rightarrow> u32 \<Rightarrow> 's \<Rightarrow> (u32 \<times> 's) option" where
  "XFsbl_PowerUpIsland pf PwrIslandMask s =
     (if pf_Platform_info pf \<noteq> XPLAT_ZYNQ_ULTRA_MPQEMU then do {
        let PwrIslandMask = island_mask PwrIslandMask;
        let s = write_reg pf PMU_GLOBAL_REQ_PWRUP_INT_EN PwrIslandMask s;
        let s = write_reg pf PMU_GLOBAL_REQ_PWRUP_TRIG PwrIslandMask s;
        s \<leftarrow> poll_reg pf PMU_GLOBAL_REQ_PWRUP_STATUS (\<lambda>RegVal. RegVal AND PwrIslandMask = 0) s;
        Some (XFSBL_SUCCESS, s)
      } else Some (XFSBL_SUCCESS, s))"

definition XFsbl_IsolationRestore :: "'s platform \<Rightarrow> u32 \<Rightarrow> 's \<Rightarrow> (u32 \<times> 's) option" where
  "XFsbl_IsolationRestore pf IsolationMask s =
     (if pf_Platform_info pf \<noteq> XPLAT_ZYNQ_ULTRA_MPQEMU then do {
        let s = write_reg pf PMU_GLOBAL_REQ_ISO_INT_EN IsolationMask s;
        let s = write_reg pf PMU_GLOBAL_REQ_ISO_TRIG IsolationMask s;
        s \<leftarrow> poll_reg pf PMU_GLOBAL_REQ_ISO_STATUS (\<lambda>RegVal. RegVal AND IsolationMask = 0) s;
        Some (XFSBL_SUCCESS, s)
      } else Some (XFSBL_SUCCESS, s))"

section \<open>The device\<close>

abbreviation (input) CSU_IDCODE :: u64 where "CSU_IDCODE \<equiv> 0xFFCA0040"
abbreviation (input) EFUSE_IPDISABLE :: u64 where "EFUSE_IPDISABLE \<equiv> 0xFFCC1018"
abbreviation (input) EFUSE_IPDISABLE_CG_MASK :: u32 where "EFUSE_IPDISABLE_CG_MASK \<equiv> 0x2C"
abbreviation (input) EFUSE_IPDISABLE_VCU_DIS_MASK :: u32 where "EFUSE_IPDISABLE_VCU_DIS_MASK \<equiv> 0x100"

definition dev_svd_id :: "u32 \<Rightarrow> u32" where
  "dev_svd_id IdCode = drop_bit 12 (IdCode AND (push_bit 15 0xF OR push_bit 12 0x7))"

definition ZynqmpDevices :: "(u32 \<times> string) list" where
  "ZynqmpDevices =
     [(0x10, ''3''), (0x11, ''2''), (0x20, ''5''), (0x21, ''4''), (0x30, ''7''), (0x38, ''9''),
      (0x39, ''6''), (0x40, ''11''), (0x50, ''15''), (0x58, ''19''), (0x59, ''17'')]"

definition XFsbl_GetSiliconIdName :: "'s platform \<Rightarrow> 's \<Rightarrow> string \<times> 's" where
  "XFsbl_GetSiliconIdName pf s =
     (case In32 (pf_bus pf) s CSU_IDCODE of (v, s) \<Rightarrow>
        (case map_of ZynqmpDevices (dev_svd_id v) of Some Name \<Rightarrow> Name | None \<Rightarrow> ''UNKN'', s))"

definition XFsbl_GetProcEng :: "'s platform \<Rightarrow> 's \<Rightarrow> string \<times> 's" where
  "XFsbl_GetProcEng pf s =
     (let (v, s) = In32 (pf_bus pf) s CSU_IDCODE;
          DevSvdId = dev_svd_id v;
          (d, s) = In32 (pf_bus pf) s EFUSE_IPDISABLE
      in if d AND EFUSE_IPDISABLE_CG_MASK = EFUSE_IPDISABLE_CG_MASK then (''CG'', s)
         else if DevSvdId = 0x20 \<or> DevSvdId = 0x21 \<or> DevSvdId = 0x30 then
           (case In32 (pf_bus pf) s EFUSE_IPDISABLE of (d, s) \<Rightarrow>
              (if d AND EFUSE_IPDISABLE_VCU_DIS_MASK = EFUSE_IPDISABLE_VCU_DIS_MASK then ''EG'' else ''EV'', s))
         else (''EG'', s))"

definition XFsbl_CheckSupportedCpu :: "'s platform \<Rightarrow> u32 \<Rightarrow> 's \<Rightarrow> u32 \<times> 's" where
  "XFsbl_CheckSupportedCpu pf CpuId s =
     (case XFsbl_GetProcEng pf s of (eng, s) \<Rightarrow>
        (if eng = ''CG'' \<and> (CpuId = XIH_PH_ATTRB_DEST_CPU_A53_2 \<or> CpuId = XIH_PH_ATTRB_DEST_CPU_A53_3)
         then XFSBL_FAILURE else XFSBL_SUCCESS, s))"

section \<open>File names on an SD card\<close>

abbreviation (input) XFSBL_SD_DRV_NUM_0 :: u32 where "XFSBL_SD_DRV_NUM_0 \<equiv> 0"

text \<open>The four digits from the last one on: \<open>Index\<close> is the next position, \<open>n\<close> how many are left.\<close>

fun put_digits :: "nat \<Rightarrow> nat \<Rightarrow> u32 \<Rightarrow> string \<Rightarrow> string" where
  "put_digits 0 Index MultiBootNum name = name"
| "put_digits (Suc n) Index MultiBootNum name =
     (let name = name[Index := char_of (of_char (name ! Index) + unat (MultiBootNum mod 10))];
          MultiBootNum = MultiBootNum div 10
      in if MultiBootNum = 0 then name else put_digits n (Index - 1) MultiBootNum name)"

definition XFsbl_MakeSdFileName :: "u32 \<Rightarrow> u32 \<Rightarrow> string" where
  "XFsbl_MakeSdFileName MultibootReg DrvNum =
     (if MultibootReg = 0 then
        if DrvNum = XFSBL_SD_DRV_NUM_0 then ''BOOT.BIN'' else ''1:/BOOT.BIN''
      else if DrvNum = XFSBL_SD_DRV_NUM_0 then put_digits 4 7 MultibootReg ''BOOT0000.BIN''
      else put_digits 4 10 MultibootReg ''1:/BOOT0000.BIN'')"

section \<open>Polling with a timeout\<close>

text \<open>
  The condition is a value, computed by the caller before the register is read; the count of waits
  is 64 bits wide and tested after it has been decremented.
\<close>

lemma unat_minus_one_less: "t \<noteq> 0 \<Longrightarrow> unat (t - 1 :: 'a::len word) < unat t"
  by (simp add: unat_minus_one unat_gt_0)

function poll_timeout :: "'s platform \<Rightarrow> u64 \<Rightarrow> bool \<Rightarrow> u64 \<Rightarrow> 's \<Rightarrow> u64 \<times> 's" where
  "poll_timeout pf Addr cond timeout s =
     (case In32 (pf_bus pf) s Addr of (_, s) \<Rightarrow>
        if cond then (timeout, s)
        else let s = pf_usleep pf 100 s; timeout = timeout - 1
             in if timeout = 0 then (timeout, s) else poll_timeout pf Addr cond timeout s)"
  by auto

termination
proof (relation "measure (\<lambda>(_, _, _, timeout, _). unat (timeout - 1))", simp, goal_cases)
  case (1 pf Addr cond timeout s v s1 s2 t)
  then show ?case using unat_minus_one_less [of t] by simp
qed

declare poll_timeout.simps [simp del]

definition XFsbl_PollTimeout :: "'s platform \<Rightarrow> u64 \<Rightarrow> bool \<Rightarrow> u32 \<Rightarrow> 's \<Rightarrow> u32 \<times> 's" where
  "XFsbl_PollTimeout pf Addr cond TimeOutInUs s =
     (let timeout = ucast (TimeOutInUs div 100);
          timeout = (if TimeOutInUs mod 100 \<noteq> 0 then timeout + 1 else timeout)
      in case poll_timeout pf Addr cond timeout s of (timeout, s) \<Rightarrow>
           (if timeout > 0 then XFSBL_SUCCESS else XFSBL_FAILURE, s))"

section \<open>The configuration port of the PL\<close>

abbreviation (input) CSU_CSU_SSS_CFG :: u64 where "CSU_CSU_SSS_CFG \<equiv> 0xFFCA0008"
abbreviation (input) CSU_PCAP_PROG :: u64 where "CSU_PCAP_PROG \<equiv> 0xFFCA3000"
abbreviation (input) CSU_PCAP_RDWR :: u64 where "CSU_PCAP_RDWR \<equiv> 0xFFCA3004"
abbreviation (input) CSU_PCAP_CTRL :: u64 where "CSU_PCAP_CTRL \<equiv> 0xFFCA3008"
abbreviation (input) CSU_PCAP_RESET :: u64 where "CSU_PCAP_RESET \<equiv> 0xFFCA300C"
abbreviation (input) CSU_PCAP_STATUS :: u64 where "CSU_PCAP_STATUS \<equiv> 0xFFCA3010"
abbreviation (input) CSU_PCAP_RESET_RESET_MASK :: u32 where "CSU_PCAP_RESET_RESET_MASK \<equiv> 0x1"
abbreviation (input) CSU_PCAP_CTRL_PCAP_PR_MASK :: u32 where "CSU_PCAP_CTRL_PCAP_PR_MASK \<equiv> 0x1"
abbreviation (input) CSU_PCAP_PROG_PCFG_PROG_B_MASK :: u32 where "CSU_PCAP_PROG_PCFG_PROG_B_MASK \<equiv> 0x1"
abbreviation (input) CSU_PCAP_STATUS_PCAP_WR_IDLE_MASK :: u32 where "CSU_PCAP_STATUS_PCAP_WR_IDLE_MASK \<equiv> 0x1"
abbreviation (input) CSU_PCAP_STATUS_PL_INIT_MASK :: u32 where "CSU_PCAP_STATUS_PL_INIT_MASK \<equiv> 0x4"
abbreviation (input) CSU_PCAP_STATUS_PL_DONE_MASK :: u32 where "CSU_PCAP_STATUS_PL_DONE_MASK \<equiv> 0x8"
abbreviation (input) CSU_PCAP_STATUS_PL_CFG_RST_MASK :: u32 where "CSU_PCAP_STATUS_PL_CFG_RST_MASK \<equiv> 0x40"
abbreviation (input) CSU_CSU_SSS_CFG_PCAP_SSS_MASK :: u32 where "CSU_CSU_SSS_CFG_PCAP_SSS_MASK \<equiv> 0xF"
abbreviation (input) XFSBL_CSU_SSS_SRC_SRC_DMA :: u32 where "XFSBL_CSU_SSS_SRC_SRC_DMA \<equiv> 0x5"
abbreviation (input) PL_RESET_PERIOD_IN_US :: u32 where "PL_RESET_PERIOD_IN_US \<equiv> 1"
abbreviation (input) XFSBL_PL_PWRUP_WAIT_MICROSEC :: u32 where "XFSBL_PL_PWRUP_WAIT_MICROSEC \<equiv> 0"
abbreviation (input) PL_DONE_POLL_COUNT :: nat where "PL_DONE_POLL_COUNT \<equiv> 10000"
abbreviation (input) XFSBL_ERROR_BITSTREAM_LOAD_FAIL :: u32 where "XFSBL_ERROR_BITSTREAM_LOAD_FAIL \<equiv> 0x37"
abbreviation (input) XFSBL_ERROR_PL_POWER_UP :: u32 where "XFSBL_ERROR_PL_POWER_UP \<equiv> 0x3E"
abbreviation (input) XFSBL_BITSTREAM_NOT_LOADED :: u32 where "XFSBL_BITSTREAM_NOT_LOADED \<equiv> 0x77"

text \<open>\<open>ReadBuffer\<close>, which it clears first, is not used with DDR memory.\<close>

definition XFsbl_PcapInit :: "'s platform \<Rightarrow> 's \<Rightarrow> (u32 \<times> 's) option" where
  "XFsbl_PcapInit pf s = do {
     let s = update_reg pf CSU_PCAP_RESET (\<lambda>v. v AND NOT CSU_PCAP_RESET_RESET_MASK) s;
     let s = write_reg pf CSU_PCAP_CTRL CSU_PCAP_CTRL_PCAP_PR_MASK s;
     let s = write_reg pf CSU_PCAP_RDWR 0 s;
     let powered = (if pf_PSVersion pf > XPS_VERSION_2 then
         on_success (XFsbl_PowerUpIsland pf PMU_GLOBAL_PWR_STATE_PL_MASK s) (\<lambda>_. XFSBL_ERROR_PL_POWER_UP) (\<lambda>s.
           on_success (XFsbl_IsolationRestore pf PMU_GLOBAL_REQ_ISO_INT_EN_PL_NONPCAP_MASK
               (pf_usleep pf XFSBL_PL_PWRUP_WAIT_MICROSEC s)) (\<lambda>_. XFSBL_ERROR_PMU_GLOBAL_REQ_ISO) (\<lambda>s. Some (XFSBL_SUCCESS, s)))
       else Some (XFSBL_SUCCESS, s));
     on_success powered (\<lambda>Status. Status) (\<lambda>s. do {
       let s = write_reg pf CSU_PCAP_PROG 0 s;
       let s = pf_usleep pf PL_RESET_PERIOD_IN_US s;
       let s = write_reg pf CSU_PCAP_PROG CSU_PCAP_PROG_PCFG_PROG_B_MASK s;
       if pf_Platform_info pf \<noteq> XPLAT_ZYNQ_ULTRA_MP \<and> pf_Platform_info pf \<noteq> XPLAT_ZYNQ_ULTRA_MPQEMU then do {
         s \<leftarrow> poll_reg pf CSU_PCAP_STATUS (\<lambda>v. v AND CSU_PCAP_STATUS_PL_CFG_RST_MASK = CSU_PCAP_STATUS_PL_CFG_RST_MASK) s;
         s \<leftarrow> poll_reg pf CSU_PCAP_STATUS (\<lambda>v. v AND CSU_PCAP_STATUS_PL_INIT_MASK = CSU_PCAP_STATUS_PL_INIT_MASK) s;
         Some (XFSBL_SUCCESS, s)
       } else Some (XFSBL_SUCCESS, s)
     })
   }"

definition XFsbl_PcapWaitForDone :: "'s platform \<Rightarrow> 's \<Rightarrow> (u32 \<times> 's) option" where
  "XFsbl_PcapWaitForDone pf s = do {
     s \<leftarrow> poll_reg pf CSU_PCAP_STATUS (\<lambda>v. v AND CSU_PCAP_STATUS_PCAP_WR_IDLE_MASK = CSU_PCAP_STATUS_PCAP_WR_IDLE_MASK) s;
     Some (XFSBL_SUCCESS, s)
   }"

definition XFsbl_WriteToPcap :: "'s platform \<Rightarrow> u32 \<Rightarrow> u64 \<Rightarrow> 's \<Rightarrow> (u32 \<times> 's) option" where
  "XFsbl_WriteToPcap pf WrSize WrAddr s = do {
     let s = update_reg pf CSU_CSU_SSS_CFG (\<lambda>v. (v AND CSU_CSU_SSS_CFG_PCAP_SSS_MASK) OR XFSBL_CSU_SSS_SRC_SRC_DMA) s;
     let s = pf_CsuDma_Transfer pf WrAddr WrSize False s;
     s \<leftarrow> pf_CsuDma_WaitForDone pf s;
     let s = pf_CsuDma_IntrClear pf s;
     XFsbl_PcapWaitForDone pf s
   }"

definition reset_pcap :: "'s platform \<Rightarrow> 's \<Rightarrow> (u32 \<times> 's) option" where
  "reset_pcap pf s = do {
     let s = update_reg pf CSU_PCAP_RESET (\<lambda>v. v OR CSU_PCAP_RESET_RESET_MASK) s;
     s \<leftarrow> poll_reg pf CSU_PCAP_RESET (\<lambda>v. v AND CSU_PCAP_RESET_RESET_MASK = CSU_PCAP_RESET_RESET_MASK) s;
     Some (XFSBL_SUCCESS, s)
   }"

fun poll_pl_done :: "'s platform \<Rightarrow> nat \<Rightarrow> 's \<Rightarrow> bool \<times> 's" where
  "poll_pl_done pf 0 s = (False, s)"
| "poll_pl_done pf (Suc PollCount) s =
     (case In32 (pf_bus pf) s CSU_PCAP_STATUS of (v, s) \<Rightarrow>
        if v AND CSU_PCAP_STATUS_PL_DONE_MASK = CSU_PCAP_STATUS_PL_DONE_MASK then (True, s)
        else poll_pl_done pf PollCount s)"

definition XFsbl_PLWaitForDone :: "'s platform \<Rightarrow> 's \<Rightarrow> (u32 \<times> 's) option" where
  "XFsbl_PLWaitForDone pf s =
     (case poll_pl_done pf PL_DONE_POLL_COUNT s of (done, s) \<Rightarrow>
        if \<not> done then Some (XFSBL_ERROR_BITSTREAM_LOAD_FAIL, s) else reset_pcap pf s)"

definition XFsbl_PLCheckForDone :: "'s platform \<Rightarrow> 's \<Rightarrow> (u32 \<times> 's) option" where
  "XFsbl_PLCheckForDone pf s =
     (case In32 (pf_bus pf) s CSU_PCAP_STATUS of (v, s) \<Rightarrow>
        if v AND CSU_PCAP_STATUS_PL_DONE_MASK \<noteq> CSU_PCAP_STATUS_PL_DONE_MASK then Some (XFSBL_BITSTREAM_NOT_LOADED, s)
        else reset_pcap pf s)"

section \<open>The watchdog and the power management firmware\<close>

abbreviation (input) PMU_GLOBAL_ERROR_SRST_DIS_1 :: u64 where "PMU_GLOBAL_ERROR_SRST_DIS_1 \<equiv> 0xFFD80570"
abbreviation (input) PMU_GLOBAL_GLOBAL_CNTRL :: u64 where "PMU_GLOBAL_GLOBAL_CNTRL \<equiv> 0xFFD80000"
abbreviation (input) PMU_GLOBAL_GLOBAL_CNTRL_MB_SLEEP_MASK :: u32 where "PMU_GLOBAL_GLOBAL_CNTRL_MB_SLEEP_MASK \<equiv> 0x10000"
abbreviation (input) PMU_GLOBAL_GLOBAL_CNTRL_FW_IS_PRESENT_MASK :: u32 where "PMU_GLOBAL_GLOBAL_CNTRL_FW_IS_PRESENT_MASK \<equiv> 0x10"
abbreviation (input) XFSBL_ERROR_PM_INIT :: u32 where "XFSBL_ERROR_PM_INIT \<equiv> 0x50"

text \<open>With a watchdog \<open>pf_wdt\<close> is the mask of its bit in the PMU's registers.\<close>

definition XFsbl_RestartWdt :: "'s platform \<Rightarrow> u32 \<Rightarrow> 's \<Rightarrow> 's" where
  "XFsbl_RestartWdt pf Reason s =
     (if pf_wdt pf \<noteq> None \<and> Reason \<noteq> XFSBL_MASTER_ONLY_RESET then pf_WdtRestart pf s else s)"

definition XFsbl_StopWdt :: "'s platform \<Rightarrow> u32 \<Rightarrow> 's \<Rightarrow> 's" where
  "XFsbl_StopWdt pf Reason s =
     (case pf_wdt pf of
        Some XFSBL_WDT_MASK \<Rightarrow>
          if Reason \<noteq> XFSBL_MASTER_ONLY_RESET then
            let s = (if pf_WdtIsReady pf s then pf_WdtStop pf s else s)
            in update_reg pf PMU_GLOBAL_ERROR_SRST_DIS_1 (\<lambda>v. v OR XFSBL_WDT_MASK) s
          else s
      | None \<Rightarrow> s)"

definition XFsbl_PmInit :: "'s platform \<Rightarrow> 's \<Rightarrow> u32 \<times> 's" where
  "XFsbl_PmInit pf s =
     (if \<not> pf_xilpm pf then (XFSBL_SUCCESS, s)
      else case In32 (pf_bus pf) s PMU_GLOBAL_GLOBAL_CNTRL of (v, s) \<Rightarrow>
        if v AND PMU_GLOBAL_GLOBAL_CNTRL_FW_IS_PRESENT_MASK \<noteq> PMU_GLOBAL_GLOBAL_CNTRL_FW_IS_PRESENT_MASK
        then (XFSBL_SUCCESS, s)
        else if \<not> pf_IpiConfigured pf then (XFSBL_ERROR_PM_INIT, s)
        else or_fail (pf_IpiInitialize pf s) XFSBL_ERROR_PM_INIT (\<lambda>s.
               or_fail (pf_XPm_InitXilpm pf s) XFSBL_ERROR_PM_INIT (\<lambda>s.
                 or_fail (pf_XPm_SetConfiguration pf s) XFSBL_ERROR_PM_INIT (\<lambda>s. (XFSBL_SUCCESS, s)))))"

section \<open>Hooks\<close>

text \<open>The board's hooks print a banner and succeed.\<close>

definition XFsbl_HookBeforeBSDownload :: u32 where "XFsbl_HookBeforeBSDownload = XFSBL_SUCCESS"
definition XFsbl_HookAfterBSDownload :: u32 where "XFsbl_HookAfterBSDownload = XFSBL_SUCCESS"
definition XFsbl_HookBeforeHandoff :: "u32 \<Rightarrow> u32" where "XFsbl_HookBeforeHandoff EarlyHandoff = XFSBL_SUCCESS"
definition XFsbl_HookBeforeFallback :: u32 where "XFsbl_HookBeforeFallback = XFSBL_SUCCESS"

section \<open>Filling memory for its ECC\<close>

abbreviation (input) ADMA_CH0 :: "u64 \<Rightarrow> u64" where "ADMA_CH0 reg \<equiv> 0xFFA80000 + reg"
abbreviation (input) ZDMA_TRANSFER_MAX_LEN :: u64 where "ZDMA_TRANSFER_MAX_LEN \<equiv> 0x3FFFFFF8"
abbreviation (input) XFSBL_ECC_INIT_VAL_WORD :: u32 where "XFSBL_ECC_INIT_VAL_WORD \<equiv> 0xDEADBEEF"
abbreviation (input) XFSBL_ERROR_TCM_ECC_INIT :: u32 where "XFSBL_ERROR_TCM_ECC_INIT \<equiv> 0x4D"

definition put_regs :: "'s platform \<Rightarrow> (u64 \<times> u32) list \<Rightarrow> 's \<Rightarrow> 's" where
  "put_regs pf avs s = fold (\<lambda>(a, v) s. write_reg pf a v s) avs s"

definition ecc_transfer :: "'s platform \<Rightarrow> u64 \<Rightarrow> u32 \<Rightarrow> 's \<Rightarrow> (u32 \<times> 's) option" where
  "ecc_transfer pf StartAddr Length s = do {
     s \<leftarrow> poll_reg pf (ADMA_CH0 0x11C) (\<lambda>v. v AND 3 = 0 \<or> v AND 3 = 3) s;
     let s = update_reg pf (ADMA_CH0 0x110) (\<lambda>v. (v AND (0x40 OR 0x30)) OR (0x0 OR 0x10)) s;
     let s = put_regs pf
       [(ADMA_CH0 0x148, XFSBL_ECC_INIT_VAL_WORD), (ADMA_CH0 0x14C, XFSBL_ECC_INIT_VAL_WORD),
        (ADMA_CH0 0x150, XFSBL_ECC_INIT_VAL_WORD), (ADMA_CH0 0x154, XFSBL_ECC_INIT_VAL_WORD),
        (ADMA_CH0 0x138, ucast (StartAddr AND 0xFFFFFFFF)), (ADMA_CH0 0x13C, ucast (drop_bit 32 StartAddr AND 0x1FFFF)),
        (ADMA_CH0 0x130, Length), (ADMA_CH0 0x140, Length)] s;
     let s = update_reg pf (ADMA_CH0 0x200) (\<lambda>v. v OR 0x1) s;
     s \<leftarrow> poll_reg pf (ADMA_CH0 0x100) (\<lambda>v. v AND 0x400 = 0x400) s;
     let s = update_reg pf (ADMA_CH0 0x100) (\<lambda>v. 0x400) s;
     case In32 (pf_bus pf) s (ADMA_CH0 0x11C) of (v, s) \<Rightarrow>
       Some (if v = 3 then (XFSBL_FAILURE, s) else (XFSBL_SUCCESS, s))
   }"

function ecc_loop :: "'s platform \<Rightarrow> u64 \<Rightarrow> u64 \<Rightarrow> 's \<Rightarrow> (u32 \<times> 's) option" where
  "ecc_loop pf NumBytes StartAddr s =
     (if NumBytes > 0 then
        let n = (if NumBytes > ZDMA_TRANSFER_MAX_LEN then ZDMA_TRANSFER_MAX_LEN else NumBytes)
        in on_success (ecc_transfer pf StartAddr (ucast n) s) (\<lambda>Status. Status)
             (\<lambda>s. ecc_loop pf (NumBytes - n) (StartAddr + n) s)
      else Some (XFSBL_SUCCESS, s))"
  by auto

termination
proof (relation "measure (\<lambda>(_, NumBytes, _, _). unat NumBytes)", simp, goal_cases)
  case (1 pf NumBytes StartAddr s n s')
  then have "n \<le> NumBytes" "0 < n" by (auto simp: not_less)
  then have "NumBytes - n < NumBytes" by unat_arith
  then show ?case by (simp add: word_less_nat_alt)
qed

declare ecc_loop.simps [simp del]

definition XFsbl_EccInit :: "'s platform \<Rightarrow> u64 \<Rightarrow> u64 \<Rightarrow> 's \<Rightarrow> (u32 \<times> 's) option" where
  "XFsbl_EccInit pf DestAddr LengthBytes s = do {
     let s = pf_DCacheDisable pf s;
     (Status, s) \<leftarrow> ecc_loop pf LengthBytes DestAddr s;
     let s = pf_DCacheEnable pf s;
     if Status \<noteq> XFSBL_SUCCESS then Some (Status, s)
     else Some (XFSBL_SUCCESS, put_regs pf
       [(ADMA_CH0 0x110, 0x80), (ADMA_CH0 0x148, 0), (ADMA_CH0 0x14C, 0), (ADMA_CH0 0x150, 0), (ADMA_CH0 0x154, 0),
        (ADMA_CH0 0x138, 0), (ADMA_CH0 0x13C, 0), (ADMA_CH0 0x130, 0), (ADMA_CH0 0x140, 0), (ADMA_CH0 0x188, 0)] s)
   }"

section \<open>Copying with the ADMA\<close>

definition XFsbl_AdmaCopy :: "'s platform \<Rightarrow> u64 \<Rightarrow> u64 \<Rightarrow> u32 \<Rightarrow> 's \<Rightarrow> (u32 \<times> 's) option" where
  "XFsbl_AdmaCopy pf DstAddr SrcAddr Size s = do {
     s \<leftarrow> poll_reg pf (ADMA_CH0 0x11C) (\<lambda>v. v AND 3 = 0 \<or> v AND 3 = 3) s;
     let s = put_regs pf
       [(ADMA_CH0 0x128, ucast (SrcAddr AND 0xFFFFFFFF)), (ADMA_CH0 0x12C, ucast (drop_bit 32 SrcAddr AND 0x1FFFF)),
        (ADMA_CH0 0x138, ucast (DstAddr AND 0xFFFFFFFF)), (ADMA_CH0 0x13C, ucast (drop_bit 32 DstAddr AND 0x1FFFF)),
        (ADMA_CH0 0x130, Size), (ADMA_CH0 0x140, Size)] s;
     let s = update_reg pf (ADMA_CH0 0x134) (\<lambda>v. v OR 0x1) s;
     let s = update_reg pf (ADMA_CH0 0x144) (\<lambda>v. v OR 0x1) s;
     let s = update_reg pf (ADMA_CH0 0x200) (\<lambda>v. v OR 0x1) s;
     s \<leftarrow> poll_reg pf (ADMA_CH0 0x100) (\<lambda>v. v AND 0x400 = 0x400) s;
     let s = update_reg pf (ADMA_CH0 0x100) (\<lambda>v. 0x400) s;
     case In32 (pf_bus pf) s (ADMA_CH0 0x11C) of (v, s) \<Rightarrow>
       Some (if v = 3 then XFSBL_FAILURE else XFSBL_SUCCESS, write_reg pf (ADMA_CH0 0x188) 0 s)
   }"

section \<open>Filling the memory of the R5 processors\<close>

abbreviation (input) XFSBL_R50_HIGH_ATCM_START_ADDRESS :: u64 where "XFSBL_R50_HIGH_ATCM_START_ADDRESS \<equiv> 0xFFE00000"
abbreviation (input) XFSBL_R50_HIGH_BTCM_START_ADDRESS :: u64 where "XFSBL_R50_HIGH_BTCM_START_ADDRESS \<equiv> 0xFFE20000"
abbreviation (input) XFSBL_R51_HIGH_ATCM_START_ADDRESS :: u64 where "XFSBL_R51_HIGH_ATCM_START_ADDRESS \<equiv> 0xFFE90000"
abbreviation (input) XFSBL_R51_HIGH_BTCM_START_ADDRESS :: u64 where "XFSBL_R51_HIGH_BTCM_START_ADDRESS \<equiv> 0xFFEB0000"
abbreviation (input) XFSBL_R50_TCM_ECC_INIT_STATUS :: u32 where "XFSBL_R50_TCM_ECC_INIT_STATUS \<equiv> 0x1"
abbreviation (input) XFSBL_R51_TCM_ECC_INIT_STATUS :: u32 where "XFSBL_R51_TCM_ECC_INIT_STATUS \<equiv> 0x2"

text \<open>The regions of a CPU's memory that are filled, and the flags set when they are.\<close>

definition tcm_regions :: "u32 \<Rightarrow> u32 \<Rightarrow> (u64 \<times> u64) list \<times> u32" where
  "tcm_regions Processor CpuId =
     (let both = XFSBL_R50_TCM_ECC_INIT_STATUS OR XFSBL_R51_TCM_ECC_INIT_STATUS;
          skip = (if Processor \<noteq> XIH_PH_ATTRB_DEST_CPU_A53_0 then 32 else 0);
          bank = XFSBL_R5_TCM_BANK_LENGTH
      in if CpuId = XIH_PH_ATTRB_DEST_CPU_A53_0 then ([(XFSBL_R50_HIGH_ATCM_START_ADDRESS, bank * 4)], both)
         else if CpuId = XIH_PH_ATTRB_DEST_CPU_R5_L then ([(XFSBL_R50_HIGH_ATCM_START_ADDRESS + skip, bank * 4 - skip)], both)
         else if CpuId = XIH_PH_ATTRB_DEST_CPU_R5_0 then
           ([(XFSBL_R50_HIGH_ATCM_START_ADDRESS + skip, bank - skip), (XFSBL_R50_HIGH_BTCM_START_ADDRESS, bank)],
            XFSBL_R50_TCM_ECC_INIT_STATUS)
         else if CpuId = XIH_PH_ATTRB_DEST_CPU_R5_1 then
           ([(XFSBL_R51_HIGH_ATCM_START_ADDRESS, bank), (XFSBL_R51_HIGH_BTCM_START_ADDRESS, bank)],
            XFSBL_R51_TCM_ECC_INIT_STATUS)
         else ([(0, 0), (0, 0)], 0))"

fun ecc_regions :: "'s platform \<Rightarrow> (u64 \<times> u64) list \<Rightarrow> 's \<Rightarrow> (u32 \<times> 's) option" where
  "ecc_regions pf [] s = Some (XFSBL_SUCCESS, s)"
| "ecc_regions pf ((a, n) # rs) s = on_success (XFsbl_EccInit pf a n s) (\<lambda>Status. Status) (ecc_regions pf rs)"

text \<open>The flags replace those of an earlier call.\<close>

definition XFsbl_TcmEccInit :: "'s platform \<Rightarrow> u32 \<Rightarrow> 's XFsblPs \<Rightarrow> (u32 \<times> 's XFsblPs) option" where
  "XFsbl_TcmEccInit pf CpuId I =
     (case tcm_regions (ProcessorID I) CpuId of (regions, EccInitStatus) \<Rightarrow>
        on_success (on_machine (ecc_regions pf regions) I) (\<lambda>_. XFSBL_ERROR_TCM_ECC_INIT)
          (\<lambda>I. Some (XFSBL_SUCCESS, I\<lparr>TcmEccInitStatus := EccInitStatus\<rparr>)))"

section \<open>The timeout ends\<close>

lemma poll_timeout_counts:
  assumes "timeout \<noteq> 0"
  shows "poll_timeout pf Addr False timeout s =
    (0, ((\<lambda>s. pf_usleep pf 100 (snd (In32 (pf_bus pf) s Addr))) ^^ unat timeout) s)"
  using assms
proof (induction "unat timeout" arbitrary: timeout s)
  case 0
  then show ?case by (simp add: unat_eq_0)
next
  case (Suc n)
  then have n: "unat (timeout - 1) = n" by (simp add: unat_minus_one)
  obtain v s1 where r: "In32 (pf_bus pf) s Addr = (v, s1)" by (cases "In32 (pf_bus pf) s Addr")
  show ?case
  proof (cases "timeout - 1 = 0")
    case True
    then have "unat timeout = 1" using n Suc.hyps(2) by simp
    with True r show ?thesis by (subst poll_timeout.simps) simp
  next
    case False
    have "poll_timeout pf Addr False timeout s = poll_timeout pf Addr False (timeout - 1) (pf_usleep pf 100 s1)"
      using False r by (subst poll_timeout.simps) (simp add: Let_def)
    with Suc.hyps(1) [OF n [symmetric] False] show ?thesis
      using r n by (simp flip: Suc.hyps(2) add: funpow_Suc_right del: funpow.simps)
  qed
qed

lemma poll_timeout_once: "poll_timeout pf Addr True timeout s = (timeout, snd (In32 (pf_bus pf) s Addr))"
  by (subst poll_timeout.simps) (simp add: split_def)

lemma div_100_up: "(n + 99) div 100 = n div 100 + (if n mod 100 = 0 then 0 else 1 :: nat)"
proof -
  have "(n + 99) div 100 = (n mod 100 + 99 + n div 100 * 100) div 100" by (simp add: div_mod_decomp)
  also have "\<dots> = n div 100 + (n mod 100 + 99) div 100" by (simp only: div_mult_self1)
  also have "(n mod 100 + 99) div 100 = (if n mod 100 = 0 then 0 else 1)"
    using mod_less_divisor [of 100 n] by (auto intro: div_nat_eqI)
  finally show ?thesis .
qed

lemma unat_timeout:
  fixes T :: u32
  defines "timeout \<equiv> (if T mod 100 \<noteq> 0 then ucast (T div 100) + 1 else ucast (T div 100) :: u64)"
  shows "unat timeout = (unat T + 99) div 100"
proof -
  have T: "unat T < 2 ^ 32" using unsigned_less [of T] by simp
  have d: "unat (ucast (T div 100) :: u64) = unat T div 100"
    by (simp add: unsigned_ucast_eq take_bit_nat_eq_self unat_div)
  have m: "T mod 100 \<noteq> 0 \<longleftrightarrow> unat T mod 100 \<noteq> 0" by (simp add: word_unat_eq_iff unat_mod)
  show ?thesis
  proof (cases "unat T mod 100 = 0")
    case True
    then have "(unat T + 99) div 100 = unat T div 100" by (simp add: div_100_up)
    with True m d show ?thesis by (simp add: timeout_def)
  next
    case False
    then have e: "(unat T + 99) div 100 = unat T div 100 + 1" by (simp add: div_100_up)
    have "unat (ucast (T div 100) + 1 :: u64) = unat (ucast (T div 100) :: u64) + 1"
      by (subst unat_add_lem [THEN iffD1]) (use T d in \<open>simp_all add: less_mult_imp_div_less\<close>)
    with False m d e show ?thesis by (simp add: timeout_def)
  qed
qed

text \<open>The number of reads of a poll that does not see its condition met.\<close>

definition poll_reads :: "u32 \<Rightarrow> nat" where
  "poll_reads TimeOutInUs = (if TimeOutInUs = 0 then 2 ^ 64 else (unat TimeOutInUs + 99) div 100)"

lemma poll_reads_0: "poll_reads 0 = Suc (unat (- 1 :: u64))"
proof -
  have "unat (- 1 :: u64) = 2 ^ 64 - 1" by (simp add: unsigned_minus_1_eq_mask mask_eq_exp_minus_1)
  then show ?thesis by (simp add: poll_reads_def)
qed

lemma poll_timeout_wraps:
  "poll_timeout pf Addr False 0 s =
     (0, ((\<lambda>s. pf_usleep pf 100 (snd (In32 (pf_bus pf) s Addr))) ^^ poll_reads 0) s)"
proof -
  have "poll_timeout pf Addr False 0 s = poll_timeout pf Addr False (- 1) (pf_usleep pf 100 (snd (In32 (pf_bus pf) s Addr)))"
    by (subst poll_timeout.simps) (simp only: split_def Let_def if_False diff_0, simp)
  moreover have "(- 1 :: u64) \<noteq> 0" by simp
  ultimately show ?thesis
    unfolding poll_reads_0 funpow_Suc_right comp_def by (metis poll_timeout_counts)
qed

lemma poll_timeout_waits:
  assumes "unat timeout = (unat T + 99) div 100" "timeout = 0 \<longleftrightarrow> T = 0"
  shows "poll_timeout pf Addr False timeout s =
     (0, ((\<lambda>s. pf_usleep pf 100 (snd (In32 (pf_bus pf) s Addr))) ^^ poll_reads T) s)"
proof (cases "timeout = 0")
  case True
  with assms(2) poll_timeout_wraps [of pf Addr s] show ?thesis by (simp only: simp_thms)
next
  case False
  then have "poll_reads T = unat timeout" using assms by (simp add: poll_reads_def)
  with poll_timeout_counts [OF False, of pf Addr s] show ?thesis by (simp only: simp_thms)
qed

text \<open>
  C38. \<open>XFsbl_PollTimeout\<close> returns on every argument. A condition that held when it was called ends
  it after one read; one that did not is never looked at again, and every wait up to the next multiple
  of 100 us is made before the failure is reported, although the register may have changed: its value
  decides nothing. A timeout of 0 fails at once when the condition held, and otherwise waits
  \<open>2 ^ 64\<close> times.
\<close>

theorem PollTimeout_returns:
  "XFsbl_PollTimeout pf Addr cond TimeOutInUs s =
     (if cond \<and> TimeOutInUs \<noteq> 0 then XFSBL_SUCCESS else XFSBL_FAILURE,
      if cond then snd (In32 (pf_bus pf) s Addr)
      else ((\<lambda>s. pf_usleep pf 100 (snd (In32 (pf_bus pf) s Addr))) ^^ poll_reads TimeOutInUs) s)"
proof -
  define timeout where "timeout = (if TimeOutInUs mod 100 \<noteq> 0 then ucast (TimeOutInUs div 100) + 1 else ucast (TimeOutInUs div 100) :: u64)"
  have u: "unat timeout = (unat TimeOutInUs + 99) div 100" unfolding timeout_def by (rule unat_timeout)
  have z: "timeout = 0 \<longleftrightarrow> TimeOutInUs = 0"
  proof -
    have "timeout = 0 \<longleftrightarrow> (unat TimeOutInUs + 99) div 100 = 0" using u by (simp add: word_unat_eq_iff)
    also have "\<dots> \<longleftrightarrow> unat TimeOutInUs = 0" by (simp only: div_eq_0_iff) arith
    finally show ?thesis by (simp add: word_unat_eq_iff)
  qed
  have p: "XFsbl_PollTimeout pf Addr cond TimeOutInUs s = (case poll_timeout pf Addr cond timeout s of (timeout, s) \<Rightarrow>
      (if timeout \<noteq> 0 then XFSBL_SUCCESS else XFSBL_FAILURE, s))"
    by (simp add: XFsbl_PollTimeout_def timeout_def Let_def word_gt_0)
  show ?thesis
  proof (cases cond)
    case True
    with p z show ?thesis by (simp add: poll_timeout_once)
  next
    case False
    with p poll_timeout_waits [OF u z, of pf Addr s] show ?thesis by (simp only: prod.case simp_thms if_False)
  qed
qed

section \<open>A platform for examples\<close>

text \<open>Registers and memory are maps of their own. Everything else succeeds and changes nothing.\<close>

type_synonym demo = "(u64 \<Rightarrow> u32) \<times> (u64 \<Rightarrow> u8)"

definition demo_bus :: "demo bus" where
  "demo_bus = \<lparr>In32 = \<lambda>(r, m) a. (r a, (r, m)), Out32 = \<lambda>(r, m) a v. (r(a := v), m)\<rparr>"

definition demo_platform :: "demo platform" where
  "demo_platform = \<lparr>pf_bus = demo_bus, pf_read = snd, pf_memset = \<lambda>_ _ _ s. s, pf_AuthBuffer = 0x200000,
     pf_HashBuffer = 0x300000, pf_ReadBuffer = 0x400000, pf_usleep = \<lambda>_ s. s, pf_DCacheDisable = \<lambda>s. s,
     pf_DCacheEnable = \<lambda>s. s, pf_Platform_info = 0, pf_PSVersion = 2, pf_wdt = None, pf_WdtIsReady = \<lambda>_. False,
     pf_WdtRestart = \<lambda>s. s, pf_WdtStop = \<lambda>s. s, pf_xilpm = False, pf_IpiConfigured = False,
     pf_IpiInitialize = \<lambda>s. (XFSBL_SUCCESS, s), pf_XPm_InitXilpm = \<lambda>s. (XFSBL_SUCCESS, s),
     pf_XPm_SetConfiguration = \<lambda>s. (XFSBL_SUCCESS, s), pf_CsuDma_Transfer = \<lambda>_ _ _ s. s,
     pf_CsuDma_WaitForDone = Some, pf_CsuDma_IntrClear = \<lambda>s. s, pf_psu_protection = \<lambda>s. (XFSBL_SUCCESS, s),
     pf_psu_protection_lock = \<lambda>s. (XFSBL_SUCCESS, s), pf_psu_ps_pl_isolation_removal = \<lambda>s. s,
     pf_psu_ps_pl_reset_config = \<lambda>s. s\<rparr>"

lemma demo_simps [simp]:
  "In32 (pf_bus demo_platform) (r, m) a = (r a, (r, m))"
  "Out32 (pf_bus demo_platform) (r, m) a v = (r(a := v), m)"
  "update_reg demo_platform a f (r, m) = (r(a := f (r a)), m)"
  "write_reg demo_platform a v (r, m) = (r(a := v), m)"
  "mem_bytes demo_platform (r, m) b n = map (\<lambda>i. m (b + of_nat i)) [0..<n]"
  "mem_word demo_platform (r, m) b = le32 (\<lambda>i. m (b + of_nat i)) 0"
  "pf_read demo_platform (r, m) = m"
  by (simp_all add: demo_platform_def demo_bus_def update_reg_def write_reg_def mem_bytes_def mem_word_def)

lemma demo_fst_snd [simp]: "fst (In32 (pf_bus demo_platform) s a) = fst s a" "pf_read demo_platform s = snd s"
  by (cases s, simp)+

lemma demo_put_regs [simp]: "put_regs demo_platform avs (r, m) = (fold (\<lambda>(a, v) r. r(a := v)) avs r, m)"
  by (induction avs arbitrary: r) (auto simp: put_regs_def)

lemma demo_poll [simp]: "ok (r a) \<Longrightarrow> poll_reg demo_platform a ok (r, m) = Some (r, m)"
  by (simp add: poll_reg_def poll_def do_until_done)

end
