(* ===== verification/Boot_Devices.thy ===== *)
theory Boot_Devices
  imports Fsbl_Platform
begin

text \<open>
  The boot devices behind the loader's table of device operations: SD cards and eMMC
  (\<open>xfsbl_sd.c\<close>, over the FAT file system library) and NAND (\<open>xfsbl_nand.c\<close>, over its driver). The serial
  flash has a theory of its own. What a copy from NAND reads is compared with the image laid out over the
  good blocks of the flash.
\<close>

abbreviation (input) CSU_CSU_MULTI_BOOT :: u64 where "CSU_CSU_MULTI_BOOT \<equiv> 0xFFCA0010"
abbreviation (input) XFSBL_IMAGE_SEARCH_OFFSET :: u32 where "XFSBL_IMAGE_SEARCH_OFFSET \<equiv> 0x8000"
abbreviation (input) XFSBL_JTAG_BOOT_MODE :: u32 where "XFSBL_JTAG_BOOT_MODE \<equiv> 0x0"
abbreviation (input) XFSBL_QSPI24_BOOT_MODE :: u32 where "XFSBL_QSPI24_BOOT_MODE \<equiv> 0x1"
abbreviation (input) XFSBL_QSPI32_BOOT_MODE :: u32 where "XFSBL_QSPI32_BOOT_MODE \<equiv> 0x2"
abbreviation (input) XFSBL_SD0_BOOT_MODE :: u32 where "XFSBL_SD0_BOOT_MODE \<equiv> 0x3"
abbreviation (input) XFSBL_NAND_BOOT_MODE :: u32 where "XFSBL_NAND_BOOT_MODE \<equiv> 0x4"
abbreviation (input) XFSBL_SD1_BOOT_MODE :: u32 where "XFSBL_SD1_BOOT_MODE \<equiv> 0x5"
abbreviation (input) XFSBL_EMMC_BOOT_MODE :: u32 where "XFSBL_EMMC_BOOT_MODE \<equiv> 0x6"
abbreviation (input) XFSBL_USB_BOOT_MODE :: u32 where "XFSBL_USB_BOOT_MODE \<equiv> 0x7"
abbreviation (input) XFSBL_SD1_LS_BOOT_MODE :: u32 where "XFSBL_SD1_LS_BOOT_MODE \<equiv> 0xE"

section \<open>SD and eMMC\<close>

text \<open>
  The FAT file system on the machine, for the one file object of the loader: every operation answers with an
  \<open>FRESULT\<close>, zero for success; \<open>fs_read\<close> also with the number of bytes read. \<open>fs_two_drives\<close> tells whether the
  second controller is configured.
\<close>

record 's fatfs =
  fs_two_drives :: bool
  fs_mount :: "string \<Rightarrow> 's \<Rightarrow> u32 \<times> 's"
  fs_open :: "string \<Rightarrow> 's \<Rightarrow> u32 \<times> 's"
  fs_lseek :: "u32 \<Rightarrow> 's \<Rightarrow> u32 \<times> 's"
  fs_read :: "u64 \<Rightarrow> u32 \<Rightarrow> 's \<Rightarrow> u32 \<times> u32 \<times> 's"
  fs_close :: "'s \<Rightarrow> u32 \<times> 's"

abbreviation (input) FR_OK :: u32 where "FR_OK \<equiv> 0"
abbreviation (input) XFSBL_SD_DRV_NUM_1 :: u32 where "XFSBL_SD_DRV_NUM_1 \<equiv> 1"
abbreviation (input) XFSBL_ERROR_SD_INIT :: u32 where "XFSBL_ERROR_SD_INIT \<equiv> 0x28"
abbreviation (input) XFSBL_ERROR_SD_F_OPEN :: u32 where "XFSBL_ERROR_SD_F_OPEN \<equiv> 0x29"
abbreviation (input) XFSBL_ERROR_SD_F_LSEEK :: u32 where "XFSBL_ERROR_SD_F_LSEEK \<equiv> 0x2A"
abbreviation (input) XFSBL_ERROR_SD_F_READ :: u32 where "XFSBL_ERROR_SD_F_READ \<equiv> 0x2B"

definition XFsbl_GetDrvNumSD :: "'s fatfs \<Rightarrow> u32 \<Rightarrow> u32" where
  "XFsbl_GetDrvNumSD fs DeviceFlags =
     (if fs_two_drives fs then
        if DeviceFlags = XFSBL_SD0_BOOT_MODE \<or> DeviceFlags = XFSBL_EMMC_BOOT_MODE
        then XFSBL_SD_DRV_NUM_0 else XFSBL_SD_DRV_NUM_1
      else XFSBL_SD_DRV_NUM_0)"

definition XFsbl_SdInit :: "'s platform \<Rightarrow> 's fatfs \<Rightarrow> u32 \<Rightarrow> 's \<Rightarrow> u32 \<times> 's" where
  "XFsbl_SdInit pf fs DeviceFlags s =
     (let DrvNum = XFsbl_GetDrvNumSD fs DeviceFlags;
          (rc, s) = fs_mount fs (if DrvNum = XFSBL_SD_DRV_NUM_0 then ''0:/'' else ''1:/'') s
      in if rc \<noteq> FR_OK then (XFSBL_ERROR_SD_INIT, s)
         else
           let (MultiBootOffset, s) = In32 (pf_bus pf) s CSU_CSU_MULTI_BOOT;
               (rc, s) = fs_open fs (XFsbl_MakeSdFileName MultiBootOffset DrvNum) s
           in if rc \<noteq> FR_OK then (XFSBL_ERROR_SD_F_OPEN, s) else (XFSBL_SUCCESS, s))"

text \<open>The number of bytes \<open>f_read\<close> has read is not looked at.\<close>

definition XFsbl_SdCopy :: "'s fatfs \<Rightarrow> u32 \<Rightarrow> u64 \<Rightarrow> u32 \<Rightarrow> 's \<Rightarrow> u32 \<times> 's" where
  "XFsbl_SdCopy fs SrcAddress DestAddress Length s =
     (let (rc, s) = fs_lseek fs SrcAddress s
      in if rc \<noteq> FR_OK then (XFSBL_ERROR_SD_F_LSEEK, s)
         else
           let (rc, br, s) = fs_read fs DestAddress Length s
           in if rc \<noteq> FR_OK then (XFSBL_ERROR_SD_F_READ, s) else (XFSBL_SUCCESS, s))"

definition XFsbl_SdRelease :: "'s fatfs \<Rightarrow> 's \<Rightarrow> u32 \<times> 's" where
  "XFsbl_SdRelease fs s = (XFSBL_SUCCESS, snd (fs_close fs s))"

section \<open>NAND\<close>

record 's nand =
  nd_Lookup :: bool
  nd_CfgInitialize :: "'s \<Rightarrow> u32 \<times> 's"
  nd_BlockSize :: "'s \<Rightarrow> u32"
  nd_IsBlockBad :: "u32 \<Rightarrow> 's \<Rightarrow> u32 \<times> 's"
  nd_Read :: "u64 \<Rightarrow> u64 \<Rightarrow> u64 \<Rightarrow> 's \<Rightarrow> u32 \<times> 's"

abbreviation (input) XFSBL_ERROR_NAND_INIT :: u32 where "XFSBL_ERROR_NAND_INIT \<equiv> 0x2C"
abbreviation (input) XFSBL_ERROR_NAND_READ :: u32 where "XFSBL_ERROR_NAND_READ \<equiv> 0x2D"

definition XFsbl_NandInit :: "'s nand \<Rightarrow> 's \<Rightarrow> u32 \<times> 's" where
  "XFsbl_NandInit nd s =
     (if \<not> nd_Lookup nd then (XFSBL_ERROR_NAND_INIT, s)
      else case nd_CfgInitialize nd s of (Status, s) \<Rightarrow>
        (if Status \<noteq> XFSBL_SUCCESS then XFSBL_ERROR_NAND_INIT else XFSBL_SUCCESS, s))"

text \<open>
  The loop that counts the bad blocks: \<open>NoofBlocks\<close> of them from \<open>CurrentBlock\<close> on, each moving the address by a
  block. A block is bad when the driver answers with success.
\<close>

fun skip_bad_blocks :: "'s nand \<Rightarrow> nat \<Rightarrow> u32 \<Rightarrow> u32 \<Rightarrow> 's \<Rightarrow> u32 \<times> 's" where
  "skip_bad_blocks nd 0 CurrentBlock RealSrcAddress s = (RealSrcAddress, s)"
| "skip_bad_blocks nd (Suc NoofBlocks) CurrentBlock RealSrcAddress s =
     (case nd_IsBlockBad nd CurrentBlock s of (Status, s) \<Rightarrow>
        skip_bad_blocks nd NoofBlocks (CurrentBlock + 1)
          (if Status = XFSBL_SUCCESS then RealSrcAddress + nd_BlockSize nd s else RealSrcAddress) s)"

definition XFsbl_NandCopy :: "'s platform \<Rightarrow> 's nand \<Rightarrow> u32 \<Rightarrow> u64 \<Rightarrow> u32 \<Rightarrow> 's \<Rightarrow> u32 \<times> 's" where
  "XFsbl_NandCopy pf nd SrcAddress DestAddress Length s =
     (let (MultiBootOffset, s) = In32 (pf_bus pf) s CSU_CSU_MULTI_BOOT;
          FlashImageOffsetAddress = MultiBootOffset * XFSBL_IMAGE_SEARCH_OFFSET;
          CurrentBlock = FlashImageOffsetAddress div nd_BlockSize nd s;
          NoofBlocks = (SrcAddress - FlashImageOffsetAddress) div nd_BlockSize nd s + 1;
          (RealSrcAddress, s) = skip_bad_blocks nd (unat NoofBlocks) CurrentBlock SrcAddress s;
          (Status, s) = nd_Read nd (ucast RealSrcAddress) (ucast Length) DestAddress s
      in (if Status \<noteq> XFSBL_SUCCESS then XFSBL_ERROR_NAND_READ else XFSBL_SUCCESS, s))"

definition XFsbl_NandRelease :: "'s \<Rightarrow> u32 \<times> 's" where
  "XFsbl_NandRelease s = (XFSBL_SUCCESS, s)"

section \<open>Bad blocks\<close>

text \<open>
  The image lies in the good blocks from block \<open>b\<close> on, in order: block \<open>c\<close> holds its block number \<open>k\<close> when it
  is good and as many good blocks are before it. The driver's read starts at the first good block at or
  behind the address it is given.
\<close>

definition bad_count :: "(nat \<Rightarrow> bool) \<Rightarrow> nat \<Rightarrow> nat \<Rightarrow> nat" where
  "bad_count bad b n = length (filter bad [b..<b + n])"

definition holds_block :: "(nat \<Rightarrow> bool) \<Rightarrow> nat \<Rightarrow> nat \<Rightarrow> nat \<Rightarrow> bool" where
  "holds_block bad b k c \<longleftrightarrow> b \<le> c \<and> \<not> bad c \<and> c = b + k + bad_count bad b (c - b)"

text \<open>A driver that answers from the list of bad blocks.\<close>

definition knows_bad :: "'s nand \<Rightarrow> (nat \<Rightarrow> bool) \<Rightarrow> u32 \<Rightarrow> bool" where
  "knows_bad nd bad bs \<longleftrightarrow> (\<forall>s. nd_BlockSize nd s = bs) \<and>
     (\<forall>b s. fst (nd_IsBlockBad nd b s) = XFSBL_SUCCESS \<longleftrightarrow> bad (unat b))"

lemma bad_count_Suc: "bad_count bad b (Suc n) = bad_count bad b n + (if bad (b + n) then 1 else 0)"
  by (simp add: bad_count_def)

lemma bad_count_Suc_left: "bad_count bad b (Suc n) = (if bad b then 1 else 0) + bad_count bad (Suc b) n"
  by (simp add: bad_count_def upt_conv_Cons del: upt_Suc)

lemma skip_bad_blocks_count:
  assumes "knows_bad nd bad bs" "unat cb + n < 2 ^ 32"
  shows "fst (skip_bad_blocks nd n cb real s) = real + of_nat (bad_count bad (unat cb) n) * bs"
  using assms(2)
proof (induction n arbitrary: cb real s)
  case 0
  then show ?case by (simp add: bad_count_def)
next
  case (Suc n)
  have u: "unat (cb + 1) = Suc (unat cb)" using Suc.prems by (simp add: unat_plus_one)
  obtain St s' where r: "nd_IsBlockBad nd cb s = (St, s')" by (cases "nd_IsBlockBad nd cb s")
  have "St = XFSBL_SUCCESS \<longleftrightarrow> bad (unat cb)" "nd_BlockSize nd s' = bs"
    using assms(1) r by (simp_all add: knows_bad_def) (metis fst_conv)
  then show ?case
    using Suc.IH [of "cb + 1"] Suc.prems u [unfolded add.commute [of cb]] by (simp add: r u bad_count_Suc_left algebra_simps)
qed

text \<open>With at most two bad blocks in reach, all blocks between the computed one and the right one are bad.\<close>

lemma two_bad_blocks:
  assumes "bad_count bad b (k + 4) \<le> 2"
  shows "\<exists>c. holds_block bad b k c \<and> b + k + bad_count bad b (Suc k) \<le> c \<and> c < b + k + 3 \<and>
    (\<forall>j. b + k + bad_count bad b (Suc k) \<le> j \<longrightarrow> j < c \<longrightarrow> bad j)"
proof -
  define n where "n = bad_count bad b k"
  have e: "b + k + 1 = Suc (b + k)" "b + k + 2 = Suc (Suc (b + k))" by simp_all
  have c: "bad_count bad b (Suc k) = n + (if bad (b + k) then 1 else 0)"
    "bad_count bad b (Suc (Suc k)) = n + (if bad (b + k) then 1 else 0) + (if bad (b + k + 1) then 1 else 0)"
    "bad_count bad b (Suc (Suc (Suc k))) =
       n + (if bad (b + k) then 1 else 0) + (if bad (b + k + 1) then 1 else 0) + (if bad (b + k + 2) then 1 else 0)"
    by (simp_all add: bad_count_Suc n_def)
  have "bad_count bad b (Suc (Suc (Suc (Suc k)))) \<le> 2" using assms by (simp add: eval_nat_numeral)
  then have t: "n + (if bad (b + k) then 1 else 0) + (if bad (b + k + 1) then 1 else 0) + (if bad (b + k + 2) then 1 else 0) \<le> 2"
    using c by (simp add: bad_count_Suc)
  have h: "holds_block bad b k (b + k)" if "n = 0" "\<not> bad (b + k)" using that by (simp add: holds_block_def n_def)
  have h1: "holds_block bad b k (b + k + 1)" if "n + (if bad (b + k) then 1 else 0) = 1" "\<not> bad (b + k + 1)"
    using that c(1) by (simp add: holds_block_def)
  have h2: "holds_block bad b k (b + k + 2)"
    if "n + (if bad (b + k) then 1 else 0) + (if bad (b + k + 1) then 1 else 0) = 2" "\<not> bad (b + k + 2)"
    using that c(2) by (simp add: holds_block_def)
  define d0 d1 d2 :: nat where d: "d0 = (if bad (b + k) then 1 else 0)" "d1 = (if bad (b + k + 1) then 1 else 0)"
    "d2 = (if bad (b + k + 2) then 1 else 0)"
  consider "n = 0" "\<not> bad (b + k)" | "n + d0 = 1" "\<not> bad (b + k + 1)" | "n + d0 = 1" "bad (b + k + 1)" "\<not> bad (b + k + 2)"
    | "n + d0 = 2" "\<not> bad (b + k + 1)" "\<not> bad (b + k + 2)"
  proof -
    have "n = 0 \<or> n = 1 \<or> n = 2" using t by linarith
    then show ?thesis using t that unfolding d by (elim disjE) (auto split: if_splits)
  qed
  then show ?thesis
  proof cases
    case 1
    with h c(1) show ?thesis by (intro exI [of _ "b + k"]) simp
  next
    case 2
    with h1 c(1) show ?thesis by (intro exI [of _ "b + k + 1"]) (simp add: d)
  next
    case 3
    with h2 c(1) show ?thesis by (intro exI [of _ "b + k + 2"]) (auto simp: d le_Suc_eq less_Suc_eq numeral_2_eq_2)
  next
    case 4
    with h2 c(1) show ?thesis by (intro exI [of _ "b + k + 2"]) (simp add: d)
  qed
qed

lemma len32: "LENGTH(32) = 32"
  by simp

text \<open>
  C15. A copy from NAND, of an image that starts at block \<open>b\<close>, is read from the block that holds the image's block
  \<open>k\<close> as long as at most two blocks in reach are bad: at the wanted offset of a block that is the right one, or
  that only bad blocks, which the driver skips, separate from the right one.
\<close>

theorem nand_copy_right_block:
  assumes nd: "knows_bad nd bad bs" and M: "In32 (pf_bus pf) s CSU_CSU_MULTI_BOOT = (M, s1)"
    and off: "unat (M * XFSBL_IMAGE_SEARCH_OFFSET) = b * unat bs" "0 < bs"
    and src: "unat Src = (b + k) * unat bs + r" "r < unat bs"
    and room: "(b + k + 4) * unat bs < 2 ^ 32" and two: "bad_count bad b (k + 4) \<le> 2"
  shows "\<exists>a c s2. XFsbl_NandCopy pf nd Src Dest Len s =
      (case nd_Read nd (of_nat (a * unat bs + r)) (ucast Len) Dest s2 of (Status, s3) \<Rightarrow>
         (if Status \<noteq> XFSBL_SUCCESS then XFSBL_ERROR_NAND_READ else XFSBL_SUCCESS, s3)) \<and>
    holds_block bad b k c \<and> a \<le> c \<and> (\<forall>j. a \<le> j \<longrightarrow> j < c \<longrightarrow> bad j)"
proof -
  define B where "B = unat bs"
  have B: "0 < B" "r < B" using off src by (simp_all add: B_def word_less_nat_alt)
  obtain c where c: "holds_block bad b k c" "b + k + bad_count bad b (Suc k) \<le> c" "c < b + k + 3"
    "\<forall>j. b + k + bad_count bad b (Suc k) \<le> j \<longrightarrow> j < c \<longrightarrow> bad j"
    using two_bad_blocks [OF two] by blast
  define n where "n = bad_count bad b (Suc k)"
  define a where "a = b + k + n"
  have a: "a * B + r < 2 ^ 32"
  proof -
    have "a * B + r < (b + k + 4) * B"
      using c(2,3) B mult_le_mono1 [of "Suc a" "b + k + 4" B] by (simp add: a_def n_def)
    with room show ?thesis by (simp add: B_def)
  qed
  have bs0: "nd_BlockSize nd s1 = bs" using nd by (simp add: knows_bad_def)
  have bk: "b + k + 4 < 2 ^ 32"
    using room B le_less_trans [of "b + k + 4" "(b + k + 4) * B"] by (simp add: B_def)
  define Of where "Of = M * XFSBL_IMAGE_SEARCH_OFFSET"
  have ofv: "unat Of = b * B" using off by (simp add: Of_def B_def)
  have cb: "unat (Of div bs) = b" using ofv B by (simp add: unat_div B_def [symmetric])
  have le: "Of \<le> Src" using ofv src by (simp add: word_le_nat_alt B_def [symmetric] algebra_simps)
  have "unat (Src - Of) = k * B + r"
    using ofv src by (simp add: unat_sub [OF le] B_def [symmetric] algebra_simps)
  then have "unat ((Src - Of) div bs) = k" using B by (simp add: unat_div B_def [symmetric])
  then have nb: "unat ((Src - Of) div bs + 1) = Suc k" using bk by (simp add: unat_plus_one)
  obtain ra s2 where k: "skip_bad_blocks nd (Suc k) (Of div bs) Src s1 = (ra, s2)"
    by (cases "skip_bad_blocks nd (Suc k) (Of div bs) Src s1")
  have "ra = Src + of_nat n * bs"
    using skip_bad_blocks_count [OF nd, where n = "Suc k" and cb = "Of div bs" and real = Src and s = s1] bk cb k
    by (simp add: n_def)
  also have "\<dots> = of_nat (a * B + r)"
  proof -
    have "Src = of_nat ((b + k) * B + r)" using src by (metis B_def of_nat_unat ucast_id)
    moreover have "bs = of_nat B" by (simp add: B_def)
    ultimately show ?thesis by (simp add: a_def algebra_simps)
  qed
  finally have "unat ra = a * B + r" using a by (simp only: unat_of_nat_small len32)
  then have ra: "ucast ra = (of_nat (a * B + r) :: u64)" by (metis of_nat_unat)
  have "XFsbl_NandCopy pf nd Src Dest Len s =
      (case nd_Read nd (of_nat (a * B + r)) (ucast Len) Dest s2 of (Status, s3) \<Rightarrow>
         (if Status \<noteq> XFSBL_SUCCESS then XFSBL_ERROR_NAND_READ else XFSBL_SUCCESS, s3))"
    unfolding XFsbl_NandCopy_def M prod.case Let_def Of_def [symmetric] bs0 nb k ra ..
  with c show ?thesis unfolding B_def [symmetric] n_def [symmetric] a_def [symmetric] by blast
qed

text \<open>Block 3 of a flash is bad, and the image starts at block 2: its second block is block 4.\<close>

definition demo_nand :: "demo nand" where
  "demo_nand = \<lparr>nd_Lookup = True, nd_CfgInitialize = \<lambda>s. (XFSBL_SUCCESS, s), nd_BlockSize = \<lambda>_. 0x4000,
     nd_IsBlockBad = \<lambda>b s. (if b = 3 then XFSBL_SUCCESS else XFSBL_FAILURE, s), nd_Read = \<lambda>a len dst s. (XFSBL_SUCCESS, fst s, (\<lambda>_. 0)(dst := ucast (drop_bit 14 a)))\<rparr>"

lemma demo_nand_fields [simp]:
  "nd_BlockSize demo_nand s = 0x4000"
  "nd_Read demo_nand a len dst s = (XFSBL_SUCCESS, fst s, (\<lambda>_. 0)(dst := ucast (drop_bit 14 a)))"
  by (simp_all add: demo_nand_def)

lemma demo_skip: "skip_bad_blocks demo_nand 2 2 0xC010 s = (0x10010, s)"
proof -
  have "skip_bad_blocks demo_nand (Suc (Suc 0)) 2 0xC010 s = (0x10010, s)" by (simp add: demo_nand_def)
  then show ?thesis by (simp only: numeral_2_eq_2)
qed

theorem nand_copy_right_block_witness:
  "\<exists>c. holds_block (\<lambda>b. b = 3) 2 1 c \<and>
     XFsbl_NandCopy demo_platform demo_nand 0xC010 0 4 ((\<lambda>_. 0)(CSU_CSU_MULTI_BOOT := 1), \<lambda>_. 0) =
       (XFSBL_SUCCESS, (\<lambda>_. 0)(CSU_CSU_MULTI_BOOT := 1), (\<lambda>_. 0)(0 := of_nat c))"
proof -
  have k: "knows_bad demo_nand (\<lambda>b. b = 3) 0x4000"
    by (simp add: knows_bad_def demo_nand_def word_unat_eq_iff)
  have t: "bad_count (\<lambda>b. b = 3) 2 (1 + 4) \<le> 2" by (simp add: bad_count_def upt_rec)
  define s :: demo where "s = ((\<lambda>_. 0)(CSU_CSU_MULTI_BOOT := 1), \<lambda>_. 0)"
  have m: "In32 (pf_bus demo_platform) s CSU_CSU_MULTI_BOOT = (1, s)" by (simp add: s_def)
  obtain c where c: "holds_block (\<lambda>b. b = 3) 2 1 c"
    using nand_copy_right_block [OF k m _ _ _ _ _ t, of "0xC010" "0x10" 0 4] by auto
  then have "c = 4"
  proof (cases "4 \<le> c")
    case True
    then have "[2..<c] = 2 # 3 # [4..<c]" by (simp add: upt_rec)
    moreover have "filter (\<lambda>b. b = 3) [4..<c] = []" by (simp add: filter_empty_conv)
    moreover have "2 + (c - 2) = c" using True by simp
    ultimately have "bad_count (\<lambda>b. b = 3) 2 (c - 2) = 1" by (simp only: bad_count_def) simp
    then show ?thesis using c by (simp add: holds_block_def)
  next
    case False
    then have "c = 0 \<or> c = 1 \<or> c = 2 \<or> c = 3" by linarith
    then show ?thesis using c by (elim disjE) (simp_all add: holds_block_def bad_count_def)
  qed
  then show ?thesis
    using c by (intro exI [of _ c]) (simp add: XFsbl_NandCopy_def demo_skip)
qed

text \<open>With three bad blocks the wrong block is read: of the image in the blocks 0, 2, 5, 6 the third block twice.\<close>

lemma three_bad_blocks:
  "holds_block (\<lambda>c. c \<in> {1, 3, 4}) 0 2 5 \<and> holds_block (\<lambda>c. c \<in> {1, 3, 4}) 0 3 6 \<and>
   0 + 3 + bad_count (\<lambda>c. c \<in> {1, 3, 4}) 0 (Suc 3) = 5"
  by (simp add: holds_block_def bad_count_def upt_rec)

end
