(* ===== verification/Authentication.thy ===== *)
theory Authentication
  imports Fsbl_Platform
begin

text \<open>
  The chain of trust (\<open>xfsbl_authentication.c\<close>, \<open>xfsbl_rsa_sha.c\<close>, \<open>xfsbl_csu_dma.c\<close>): the primary
  key is checked against the fuses, the secondary key is signed by the primary one, and the boot header
  and the partitions by the secondary one. The hash is SHA3, of 48 bytes, everywhere.
\<close>

section \<open>The security library\<close>

text \<open>
  \<open>xilsecure\<close>, the drivers of the CSU's DMA, SHA3, RSA and AES engines, is not part of the repository. A
  hash is computed in a context of type \<open>'h\<close>, and the results of the SHA3 and RSA engines depend on
  their arguments only. The AES engine works on the machine and on its structure; its registers and
  their bits are named, not numbered. \<open>sx_SecureHdr\<close> is the address of the loader's buffer for an
  incomplete header of an encrypted block.
\<close>

record rsa_key =
  key_modulus :: "u8 list"
  key_modulus_ext :: "u8 list"
  key_exponent :: "u8 list"

datatype sha3_padding = XSECURE_CSU_KECCAK_SHA3 | XSECURE_CSU_NIST_SHA3

datatype aes_reg = XSECURE_CSU_AES_STS | XSECURE_CSU_AES_START_MSG_REG | XSECURE_CSU_AES_KUP_WR_REG | XSECURE_CSU_AES_IV_0 | XSECURE_CSU_AES_IV_3
datatype aes_bit = XSECURE_CSU_AES_STS_GCM_TAG_OK | XSECURE_CSU_AES_START_MSG | XSECURE_CSU_AES_IV_WR | XSECURE_CSU_AES_KUP_WR

record ('s, 'h) secure =
  sx_CsuDmaLookup :: bool
  sx_CsuDmaCfgInitialize :: "'s \<Rightarrow> u32 \<times> 's"
  sx_CsuDmaEndian :: "u32 \<Rightarrow> 's \<Rightarrow> 's"
  sx_Sha3Initialize :: "u32 \<times> 'h"
  sx_Sha3Start :: "'h \<Rightarrow> 'h"
  sx_Sha3PadSelection :: "sha3_padding \<Rightarrow> 'h \<Rightarrow> u32 \<times> 'h"
  sx_Sha3Update :: "u8 list \<Rightarrow> 'h \<Rightarrow> 'h"
  sx_Sha3ReadHash :: "'h \<Rightarrow> u8 list"
  sx_Sha3Finish :: "'h \<Rightarrow> u8 list"
  sx_Sha3Digest :: "u8 list \<Rightarrow> 'h \<Rightarrow> u8 list"
  sx_RsaInitialize :: "rsa_key \<Rightarrow> u32"
  sx_RsaPublicEncrypt :: "rsa_key \<Rightarrow> u8 list \<Rightarrow> u32 \<times> u8 list"
  sx_RsaSignVerification :: "u8 list \<Rightarrow> u8 list \<Rightarrow> u32"
  sx_AesInitialize :: "u8 list \<Rightarrow> 's \<Rightarrow> u32 \<times> XSecure_Aes \<times> 's"
  sx_AesDecrypt :: "u64 \<Rightarrow> u64 \<Rightarrow> u32 \<Rightarrow> XSecure_Aes \<Rightarrow> 's \<Rightarrow> u32 \<times> XSecure_Aes \<times> 's"
  sx_AesDecryptInit :: "u32 \<Rightarrow> u64 \<Rightarrow> XSecure_Aes \<Rightarrow> 's \<Rightarrow> XSecure_Aes \<times> 's"
  sx_AesDecryptUpdate :: "u64 \<Rightarrow> u32 \<Rightarrow> XSecure_Aes \<Rightarrow> 's \<Rightarrow> u32 \<times> XSecure_Aes \<times> 's"
  sx_AesKeySelNLoad :: "XSecure_Aes \<Rightarrow> 's \<Rightarrow> 's"
  sx_AesWaitForDone :: "'s \<Rightarrow> 's option"
  sx_PcapWaitForDone :: "'s \<Rightarrow> 's option"
  sx_SssInitialize :: "'s \<Rightarrow> 's"
  sx_SssAes :: "'s \<Rightarrow> 's"
  sx_AesReg :: "aes_reg \<Rightarrow> u64"
  sx_AesBit :: "aes_bit \<Rightarrow> u32"
  sx_SecureHdr :: u64

abbreviation (input) XFSBL_ERROR_CSUDMA_INIT_FAIL :: u32 where "XFSBL_ERROR_CSUDMA_INIT_FAIL \<equiv> 0x34"

definition XFsbl_CsuDmaInit :: "('s, 'h) secure \<Rightarrow> 's \<Rightarrow> u32 \<times> 's" where
  "XFsbl_CsuDmaInit sx s =
     (if \<not> sx_CsuDmaLookup sx then (XFSBL_ERROR_CSUDMA_INIT_FAIL, s)
      else case sx_CsuDmaCfgInitialize sx s of (SStatus, s) \<Rightarrow>
        (if SStatus \<noteq> XFSBL_SUCCESS then XFSBL_ERROR_CSUDMA_INIT_FAIL else XFSBL_SUCCESS, s))"

section \<open>Hashes\<close>

definition XFsbl_ShaStart :: "('s, 'h) secure \<Rightarrow> 'h" where
  "XFsbl_ShaStart sx = sx_Sha3Start sx (snd (sx_Sha3Initialize sx))"

definition XFsbl_Sha3PadSelect :: "('s, 'h) secure \<Rightarrow> sha3_padding \<Rightarrow> 'h \<Rightarrow> u32 \<times> 'h" where
  "XFsbl_Sha3PadSelect sx PadType ctx = sx_Sha3PadSelection sx PadType ctx"

definition XFsbl_ShaUpdate :: "'s platform \<Rightarrow> ('s, 'h) secure \<Rightarrow> 's \<Rightarrow> u64 \<Rightarrow> u32 \<Rightarrow> 'h \<Rightarrow> 'h" where
  "XFsbl_ShaUpdate pf sx s Data Size ctx = sx_Sha3Update sx (mem_bytes pf s Data (unat Size)) ctx"

definition XFsbl_ShaFinish :: "('s, 'h) secure \<Rightarrow> 'h \<Rightarrow> u8 list" where
  "XFsbl_ShaFinish sx ctx = sx_Sha3Finish sx ctx"

definition XFsbl_ShaDigest :: "'s platform \<Rightarrow> ('s, 'h) secure \<Rightarrow> 's \<Rightarrow> u64 \<Rightarrow> u32 \<Rightarrow> u8 list" where
  "XFsbl_ShaDigest pf sx s In Size = sx_Sha3Digest sx (mem_bytes pf s In (unat Size)) (snd (sx_Sha3Initialize sx))"

text \<open>Whole words are compared.\<close>

definition XFsbl_CompareHashs :: "u8 list \<Rightarrow> u8 list \<Rightarrow> nat \<Rightarrow> u32" where
  "XFsbl_CompareHashs Hash1 Hash2 HashLen =
     (if take (4 * (HashLen div 4)) Hash1 = take (4 * (HashLen div 4)) Hash2 then XFSBL_SUCCESS else XFSBL_FAILURE)"

section \<open>The certificate\<close>

abbreviation (input) XFSBL_HASH_TYPE_SHA3 :: nat where "XFSBL_HASH_TYPE_SHA3 \<equiv> 48"
abbreviation (input) XFSBL_AUTH_CERT_MIN_SIZE :: u32 where "XFSBL_AUTH_CERT_MIN_SIZE \<equiv> 3776"
abbreviation (input) XFSBL_SPK_SIZE :: u32 where "XFSBL_SPK_SIZE \<equiv> 1088"
abbreviation (input) XFSBL_PPK_SIZE :: u32 where "XFSBL_PPK_SIZE \<equiv> 1088"
abbreviation (input) XFSBL_FSBL_SIG_SIZE :: u32 where "XFSBL_FSBL_SIG_SIZE \<equiv> 512"
abbreviation (input) XFSBL_RSA_AC_ALIGN :: u64 where "XFSBL_RSA_AC_ALIGN \<equiv> 64"
abbreviation (input) XFSBL_SPKID_AC_ALIGN :: u64 where "XFSBL_SPKID_AC_ALIGN \<equiv> 4"
abbreviation (input) XFSBL_AUTH_CERT_PPK_OFFSET :: u64 where "XFSBL_AUTH_CERT_PPK_OFFSET \<equiv> 0x40"
abbreviation (input) XFSBL_AUTH_CERT_SPK_OFFSET :: u64 where "XFSBL_AUTH_CERT_SPK_OFFSET \<equiv> 0x480"
abbreviation (input) XFSBL_AUTH_CERT_SPK_SIG_OFFSET :: u64 where "XFSBL_AUTH_CERT_SPK_SIG_OFFSET \<equiv> 0x8C0"
abbreviation (input) XFSBL_AH_ATTR_SPK_ID_FUSE_SEL_MASK :: u32 where "XFSBL_AH_ATTR_SPK_ID_FUSE_SEL_MASK \<equiv> 0xC0000"
abbreviation (input) XIH_AC_ATTRB_PPK_SELECT_MASK :: u32 where "XIH_AC_ATTRB_PPK_SELECT_MASK \<equiv> 0x30000"
abbreviation (input) XFSBL_SPKID_EFUSE :: u32 where "XFSBL_SPKID_EFUSE \<equiv> 1"
abbreviation (input) XFSBL_USER_EFUSE :: u32 where "XFSBL_USER_EFUSE \<equiv> 2"
abbreviation (input) XFSBL_USER_EFUSE_MIN_VALUE :: u32 where "XFSBL_USER_EFUSE_MIN_VALUE \<equiv> 1"
abbreviation (input) XFSBL_USER_EFUSE_MAX_VALUE :: u32 where "XFSBL_USER_EFUSE_MAX_VALUE \<equiv> 256"
abbreviation (input) XFSBL_USER_EFUSE_ADDR :: u64 where "XFSBL_USER_EFUSE_ADDR \<equiv> 0xFFCC1020"
abbreviation (input) EFUSE_SPKID :: u64 where "EFUSE_SPKID \<equiv> 0xFFCC105C"
abbreviation (input) EFUSE_PPK0 :: u64 where "EFUSE_PPK0 \<equiv> 0xFFCC10A0"
abbreviation (input) EFUSE_PPK1 :: u64 where "EFUSE_PPK1 \<equiv> 0xFFCC10D0"
abbreviation (input) EFUSE_SEC_CTRL_RSA_EN_MASK :: u32 where "EFUSE_SEC_CTRL_RSA_EN_MASK \<equiv> 0x03FFF800"
abbreviation (input) EFUSE_SEC_CTRL_PPK0_RVK_MASK :: u32 where "EFUSE_SEC_CTRL_PPK0_RVK_MASK \<equiv> 0x18000000"
abbreviation (input) EFUSE_SEC_CTRL_PPK1_RVK_MASK :: u32 where "EFUSE_SEC_CTRL_PPK1_RVK_MASK \<equiv> 0xC0000000"
abbreviation (input) XFSBL_ERROR_SPK_RSA_DECRYPT :: u32 where "XFSBL_ERROR_SPK_RSA_DECRYPT \<equiv> 0x2F"
abbreviation (input) XFSBL_ERROR_SPK_SIGNATURE :: u32 where "XFSBL_ERROR_SPK_SIGNATURE \<equiv> 0x30"
abbreviation (input) XFSBL_ERROR_PART_RSA_DECRYPT :: u32 where "XFSBL_ERROR_PART_RSA_DECRYPT \<equiv> 0x31"
abbreviation (input) XFSBL_ERROR_PART_SIGNATURE :: u32 where "XFSBL_ERROR_PART_SIGNATURE \<equiv> 0x32"
abbreviation (input) XFSBL_ERROR_RSA_INITIALIZE :: u32 where "XFSBL_ERROR_RSA_INITIALIZE \<equiv> 0x59"
abbreviation (input) XFSBL_ERROR_PPK_VERIFICATION :: u32 where "XFSBL_ERROR_PPK_VERIFICATION \<equiv> 0x65"
abbreviation (input) XFSBL_ERROR_SPKID_VERIFICATION :: u32 where "XFSBL_ERROR_SPKID_VERIFICATION \<equiv> 0x66"
abbreviation (input) XSFBL_ERROR_PPK_SELECT_ISREVOKED :: u32 where "XSFBL_ERROR_PPK_SELECT_ISREVOKED \<equiv> 0x67"
abbreviation (input) XFSBL_ERROR_BH_RSA_DECRYPT :: u32 where "XFSBL_ERROR_BH_RSA_DECRYPT \<equiv> 0x68"
abbreviation (input) XFSBL_ERROR_BH_SIGNATURE :: u32 where "XFSBL_ERROR_BH_SIGNATURE \<equiv> 0x69"
abbreviation (input) XFSBL_ERROR_USER_EFUSE_ISREVOKED :: u32 where "XFSBL_ERROR_USER_EFUSE_ISREVOKED \<equiv> 0x72"
abbreviation (input) XFSBL_ERROR_OUT_OF_RANGE_USER_EFUSE :: u32 where "XFSBL_ERROR_OUT_OF_RANGE_USER_EFUSE \<equiv> 0x73"
abbreviation (input) XFSBL_ERROR_INVALID_EFUSE_SELECT :: u32 where "XFSBL_ERROR_INVALID_EFUSE_SELECT \<equiv> 0x74"

text \<open>The keys: the primary one as 1088 saved bytes, the secondary one in a certificate at \<open>ac\<close>.\<close>

definition ppk_key :: "u8 list \<Rightarrow> rsa_key" where
  "ppk_key PpkKey = \<lparr>key_modulus = take 512 PpkKey, key_modulus_ext = take 512 (drop 512 PpkKey),
     key_exponent = take 4 (drop 1024 PpkKey)\<rparr>"

definition spk_key :: "'s platform \<Rightarrow> 's \<Rightarrow> u64 \<Rightarrow> rsa_key" where
  "spk_key pf s ac = (let spk = ac + XFSBL_RSA_AC_ALIGN + ucast XFSBL_PPK_SIZE
     in \<lparr>key_modulus = mem_bytes pf s spk 512, key_modulus_ext = mem_bytes pf s (spk + 512) 512,
         key_exponent = mem_bytes pf s (spk + 1024) 4\<rparr>)"

abbreviation (input) BHDR_SIG_OFFSET :: u64 where "BHDR_SIG_OFFSET \<equiv> 64 + 1088 + 512 + 512 + 64 + 512"
abbreviation (input) PARTITION_SIG_OFFSET :: u64 where "PARTITION_SIG_OFFSET \<equiv> 64 + 1088 + 512 + 512 + 64 + 512 + 512"

definition signature_at :: "'s platform \<Rightarrow> 's \<Rightarrow> u64 \<Rightarrow> u8 list" where
  "signature_at pf s a = mem_bytes pf s a 512"

text \<open>Initialising the RSA engine with a key, decrypting a signature and comparing with a hash.\<close>

definition rsa_verify :: "('s, 'h) secure \<Rightarrow> rsa_key \<Rightarrow> u8 list \<Rightarrow> u8 list \<Rightarrow> u32 \<Rightarrow> u32 \<Rightarrow> u32" where
  "rsa_verify sx key signature hash decrypt_error signature_error =
     (if sx_RsaInitialize sx key \<noteq> XFSBL_SUCCESS then XFSBL_ERROR_RSA_INITIALIZE
      else case sx_RsaPublicEncrypt sx key signature of (Status, XFsbl_RsaSha3Array) \<Rightarrow>
        if Status \<noteq> XFSBL_SUCCESS then decrypt_error
        else if sx_RsaSignVerification sx XFsbl_RsaSha3Array hash \<noteq> XFSBL_SUCCESS then signature_error
        else XFSBL_SUCCESS)"

section \<open>The secondary key\<close>

definition spk_fuse_select :: "'s platform \<Rightarrow> 's \<Rightarrow> u64 \<Rightarrow> u32" where
  "spk_fuse_select pf s ac = drop_bit 18 (mem_word pf s ac AND XFSBL_AH_ATTR_SPK_ID_FUSE_SEL_MASK)"

definition user_fuse_revoked :: "'s platform \<Rightarrow> u32 \<Rightarrow> 's \<Rightarrow> u32 \<times> 's" where
  "user_fuse_revoked pf SpkId s =
     (if XFSBL_USER_EFUSE_MIN_VALUE \<le> SpkId \<and> SpkId \<le> XFSBL_USER_EFUSE_MAX_VALUE then
        case In32 (pf_bus pf) s (XFSBL_USER_EFUSE_ADDR + ucast ((SpkId - 1) div 32 * 4)) of (UserFuseVal, s) \<Rightarrow>
          (if UserFuseVal AND push_bit (unat ((SpkId - 1) mod 32)) 1 \<noteq> 0
           then XFSBL_ERROR_USER_EFUSE_ISREVOKED else XFSBL_SUCCESS, s)
      else (XFSBL_ERROR_OUT_OF_RANGE_USER_EFUSE, s))"

definition spk_revocation :: "'s platform \<Rightarrow> u32 \<Rightarrow> u32 \<Rightarrow> u64 \<Rightarrow> 's \<Rightarrow> u32 \<times> 's" where
  "spk_revocation pf EfuseRsa SpkIdFuseSel ac s =
     (if EfuseRsa AND EFUSE_SEC_CTRL_RSA_EN_MASK \<noteq> 0 then
        case In32 (pf_bus pf) s EFUSE_SPKID of (EfuseSpkId, s) \<Rightarrow>
          let SpkId = mem_word pf s (ac + XFSBL_SPKID_AC_ALIGN)
          in if SpkIdFuseSel = XFSBL_SPKID_EFUSE then
               (if EfuseSpkId \<noteq> SpkId then XFSBL_ERROR_SPKID_VERIFICATION else XFSBL_SUCCESS, s)
             else if SpkIdFuseSel = XFSBL_USER_EFUSE then user_fuse_revoked pf SpkId s
             else (XFSBL_SUCCESS, s)
      else (XFSBL_SUCCESS, s))"

definition spk_padding :: "('s, 'h) secure \<Rightarrow> u32 \<Rightarrow> 'h \<Rightarrow> u32 \<times> 'h" where
  "spk_padding sx SpkIdFuseSel ctx =
     (if SpkIdFuseSel = XFSBL_SPKID_EFUSE then XFsbl_Sha3PadSelect sx XSECURE_CSU_KECCAK_SHA3 ctx
      else if SpkIdFuseSel \<noteq> XFSBL_USER_EFUSE then (XFSBL_ERROR_INVALID_EFUSE_SELECT, ctx)
      else (XFSBL_SUCCESS, ctx))"

definition spk_hash :: "'s platform \<Rightarrow> ('s, 'h) secure \<Rightarrow> 's \<Rightarrow> u64 \<Rightarrow> 'h \<Rightarrow> u8 list" where
  "spk_hash pf sx s ac ctx = XFsbl_ShaFinish sx
     (XFsbl_ShaUpdate pf sx s (ac + XFSBL_AUTH_CERT_SPK_OFFSET) XFSBL_SPK_SIZE (XFsbl_ShaUpdate pf sx s ac 8 ctx))"

definition XFsbl_SpkVer :: "'s platform \<Rightarrow> ('s, 'h) secure \<Rightarrow> u8 list \<Rightarrow> u64 \<Rightarrow> 's \<Rightarrow> u32 \<times> 's" where
  "XFsbl_SpkVer pf sx PpkKey AcOffset s =
     (let SpkIdFuseSel = spk_fuse_select pf s AcOffset;
          (EfuseRsa, s) = In32 (pf_bus pf) s EFUSE_SEC_CTRL;
          (Status, s) = XFsbl_CsuDmaInit sx s
      in if Status \<noteq> XFSBL_SUCCESS then (Status, s)
         else case spk_padding sx SpkIdFuseSel (XFsbl_ShaStart sx) of (Status, ctx) \<Rightarrow>
           if Status \<noteq> XFSBL_SUCCESS then (Status, s)
           else
             let Status = rsa_verify sx (ppk_key PpkKey) (signature_at pf s (AcOffset + XFSBL_AUTH_CERT_SPK_SIG_OFFSET))
                   (spk_hash pf sx s AcOffset ctx) XFSBL_ERROR_SPK_RSA_DECRYPT XFSBL_ERROR_SPK_SIGNATURE
             in if Status \<noteq> XFSBL_SUCCESS then (Status, s)
                else spk_revocation pf EfuseRsa SpkIdFuseSel AcOffset s)"

section \<open>A partition\<close>

definition partition_hash :: "'s platform \<Rightarrow> ('s, 'h) secure \<Rightarrow> 's \<Rightarrow> u64 \<Rightarrow> u32 \<Rightarrow> u64 \<Rightarrow> u8 list" where
  "partition_hash pf sx s PartitionOffset PartitionLen AcOffset = XFsbl_ShaFinish sx
     (XFsbl_ShaUpdate pf sx s AcOffset (XFSBL_AUTH_CERT_MIN_SIZE - XFSBL_FSBL_SIG_SIZE)
       (XFsbl_ShaUpdate pf sx s PartitionOffset (PartitionLen - XFSBL_AUTH_CERT_MIN_SIZE) (XFsbl_ShaStart sx)))"

definition XFsbl_PartitionSignVer :: "'s platform \<Rightarrow> ('s, 'h) secure \<Rightarrow> u64 \<Rightarrow> u32 \<Rightarrow> u64 \<Rightarrow> 's \<Rightarrow> u32" where
  "XFsbl_PartitionSignVer pf sx PartitionOffset PartitionLen AcOffset s =
     rsa_verify sx (spk_key pf s AcOffset) (signature_at pf s (AcOffset + PARTITION_SIG_OFFSET))
       (partition_hash pf sx s PartitionOffset PartitionLen AcOffset) XFSBL_ERROR_PART_RSA_DECRYPT XFSBL_ERROR_PART_SIGNATURE"

definition XFsbl_Authentication :: "'s platform \<Rightarrow> ('s, 'h) secure \<Rightarrow> u8 list \<Rightarrow> u64 \<Rightarrow> u32 \<Rightarrow> u64 \<Rightarrow> 's \<Rightarrow> u32 \<times> 's" where
  "XFsbl_Authentication pf sx PpkKey PartitionOffset PartitionLen AcOffset s =
     (case XFsbl_SpkVer pf sx PpkKey AcOffset s of (Status, s) \<Rightarrow>
        if Status \<noteq> XFSBL_SUCCESS then (Status, s)
        else (XFsbl_PartitionSignVer pf sx PartitionOffset PartitionLen AcOffset s, s))"

section \<open>The primary key and the boot header\<close>

fun read_fuses :: "'s platform \<Rightarrow> u64 \<Rightarrow> nat \<Rightarrow> 's \<Rightarrow> u32 list \<times> 's" where
  "read_fuses pf a 0 s = ([], s)"
| "read_fuses pf a (Suc n) s =
     (let (v, s) = In32 (pf_bus pf) s a; (vs, s) = read_fuses pf (a + 4) n s in (v # vs, s))"

definition XFsbl_ReadPpkHash :: "'s platform \<Rightarrow> bool \<Rightarrow> 's \<Rightarrow> u32 list \<times> 's" where
  "XFsbl_ReadPpkHash pf second s = read_fuses pf (if second then EFUSE_PPK1 else EFUSE_PPK0) 12 s"

definition bytes_of_words :: "u32 list \<Rightarrow> u8 list" where
  "bytes_of_words ws = concat (map (\<lambda>w. map (\<lambda>i. ucast (drop_bit (8 * i) w)) [0..<4]) ws)"

definition XFsbl_PpkVer :: "'s platform \<Rightarrow> ('s, 'h) secure \<Rightarrow> u64 \<Rightarrow> 's \<Rightarrow> u32 \<times> 's" where
  "XFsbl_PpkVer pf sx AcOffset s =
     (let second = (mem_word pf s AcOffset AND XIH_AC_ATTRB_PPK_SELECT_MASK \<noteq> 0);
          (ctrl, s) = In32 (pf_bus pf) s EFUSE_SEC_CTRL
      in if ctrl AND (if second then EFUSE_SEC_CTRL_PPK1_RVK_MASK else EFUSE_SEC_CTRL_PPK0_RVK_MASK) \<noteq> 0
         then (XSFBL_ERROR_PPK_SELECT_ISREVOKED, s)
         else case XFsbl_ReadPpkHash pf second s of (EfusePpkHash, s) \<Rightarrow>
           case XFsbl_Sha3PadSelect sx XSECURE_CSU_KECCAK_SHA3 (XFsbl_ShaStart sx) of (Status, ctx) \<Rightarrow>
             if Status \<noteq> XFSBL_SUCCESS then (Status, s)
             else
               let PpkHash = XFsbl_ShaFinish sx (XFsbl_ShaUpdate pf sx s (AcOffset + XFSBL_RSA_AC_ALIGN) XFSBL_PPK_SIZE ctx)
               in (if XFsbl_CompareHashs PpkHash (bytes_of_words EfusePpkHash) XFSBL_HASH_TYPE_SHA3 \<noteq> XFSBL_SUCCESS
                   then XFSBL_ERROR_PPK_VERIFICATION else XFSBL_SUCCESS, s))"

abbreviation (input) XIH_BH_IMAGE_ATTRB_PUF_BH_MASK :: u32 where "XIH_BH_IMAGE_ATTRB_PUF_BH_MASK \<equiv> 0xC0"
abbreviation (input) XIH_BH_MIN_SIZE :: u32 where "XIH_BH_MIN_SIZE \<equiv> 0x8B8"
abbreviation (input) XIH_BH_MAX_SIZE :: u32 where "XIH_BH_MAX_SIZE \<equiv> XIH_BH_MIN_SIZE + 0x182 * 4"

definition bh_hash :: "'s platform \<Rightarrow> ('s, 'h) secure \<Rightarrow> 's \<Rightarrow> u64 \<Rightarrow> u32 \<Rightarrow> 'h \<Rightarrow> u8 list" where
  "bh_hash pf sx s Data SizeofBH ctx = XFsbl_ShaFinish sx (XFsbl_ShaUpdate pf sx s Data SizeofBH ctx)"

text \<open>The primary key is saved once it has been compared with the fuses, for the partitions that follow.\<close>

definition XFsbl_BhAuthentication ::
  "'s platform \<Rightarrow> ('s, 'h) secure \<Rightarrow> u32 \<Rightarrow> u8 list \<Rightarrow> u64 \<Rightarrow> u64 \<Rightarrow> bool \<Rightarrow> 's \<Rightarrow> u32 \<times> u8 list \<times> 's" where
  "XFsbl_BhAuthentication pf sx attributes PpkKey Data AcOffset IsEfuseRsa s =
     (let SizeofBH = (if attributes AND XIH_BH_IMAGE_ATTRB_PUF_BH_MASK \<noteq> 0 then XIH_BH_MAX_SIZE else XIH_BH_MIN_SIZE);
          (Status, s) = XFsbl_CsuDmaInit sx s
      in if Status \<noteq> XFSBL_SUCCESS then (Status, PpkKey, s)
         else case (if IsEfuseRsa then XFsbl_PpkVer pf sx AcOffset s else (XFSBL_SUCCESS, s)) of (Status, s) \<Rightarrow>
           if Status \<noteq> XFSBL_SUCCESS then (Status, PpkKey, s)
           else
             let PpkKey = mem_bytes pf s (AcOffset + XFSBL_AUTH_CERT_PPK_OFFSET) (unat XFSBL_PPK_SIZE);
                 (Status, s) = XFsbl_SpkVer pf sx PpkKey AcOffset s
             in if Status \<noteq> XFSBL_SUCCESS then (Status, PpkKey, s)
                else case XFsbl_Sha3PadSelect sx XSECURE_CSU_KECCAK_SHA3 (XFsbl_ShaStart sx) of (Status, ctx) \<Rightarrow>
                  if Status \<noteq> XFSBL_SUCCESS then (Status, PpkKey, s)
                  else (rsa_verify sx (spk_key pf s AcOffset) (signature_at pf s (AcOffset + BHDR_SIG_OFFSET))
                          (bh_hash pf sx s Data SizeofBH ctx) XFSBL_ERROR_BH_RSA_DECRYPT XFSBL_ERROR_BH_SIGNATURE, PpkKey, s))"

section \<open>What is trusted\<close>

definition signature_ok :: "('s, 'h) secure \<Rightarrow> rsa_key \<Rightarrow> u8 list \<Rightarrow> u8 list \<Rightarrow> bool" where
  "signature_ok sx key signature hash \<longleftrightarrow> sx_RsaInitialize sx key = XFSBL_SUCCESS \<and>
     fst (sx_RsaPublicEncrypt sx key signature) = XFSBL_SUCCESS \<and>
     sx_RsaSignVerification sx (snd (sx_RsaPublicEncrypt sx key signature)) hash = XFSBL_SUCCESS"

lemma rsa_verify_ok [simp]:
  "\<lbrakk>e1 \<noteq> XFSBL_SUCCESS; e2 \<noteq> XFSBL_SUCCESS\<rbrakk> \<Longrightarrow> rsa_verify sx key sig hash e1 e2 = XFSBL_SUCCESS \<longleftrightarrow> signature_ok sx key sig hash"
  by (auto simp: rsa_verify_def signature_ok_def split: prod.split)

text \<open>Reading a fuse or initialising the DMA driver changes neither memory nor fuses.\<close>

definition is_fuse :: "u64 \<Rightarrow> bool" where
  "is_fuse a \<longleftrightarrow> 0xFFCC1000 \<le> a \<and> a < 0xFFCC1400"

definition same_view :: "'s platform \<Rightarrow> 's \<Rightarrow> 's \<Rightarrow> bool" where
  "same_view pf s s' \<longleftrightarrow> pf_read pf s' = pf_read pf s \<and>
     (\<forall>a. is_fuse a \<longrightarrow> fst (In32 (pf_bus pf) s' a) = fst (In32 (pf_bus pf) s a))"

definition fuses_quiet :: "'s platform \<Rightarrow> ('s, 'h) secure \<Rightarrow> bool" where
  "fuses_quiet pf sx \<longleftrightarrow> (\<forall>s a. is_fuse a \<longrightarrow> same_view pf s (snd (In32 (pf_bus pf) s a))) \<and>
     (\<forall>s. same_view pf s (snd (sx_CsuDmaCfgInitialize sx s)))"

definition fuse_value :: "'s platform \<Rightarrow> 's \<Rightarrow> u64 \<Rightarrow> u32" where
  "fuse_value pf s a = fst (In32 (pf_bus pf) s a)"

definition csu_dma_ok :: "('s, 'h) secure \<Rightarrow> 's \<Rightarrow> bool" where
  "csu_dma_ok sx s \<longleftrightarrow> fst (XFsbl_CsuDmaInit sx s) = XFSBL_SUCCESS"

text \<open>A secondary key is revoked by its identifier: another number in the fuse, or a bit of the user fuses.\<close>

definition spk_revoked :: "'s platform \<Rightarrow> 's \<Rightarrow> u64 \<Rightarrow> bool" where
  "spk_revoked pf s ac \<longleftrightarrow> (let SpkId = unat (mem_word pf s (ac + 4)) in
     if spk_fuse_select pf s ac = 1 then fuse_value pf s EFUSE_SPKID \<noteq> of_nat SpkId
     else SpkId = 0 \<or> 256 < SpkId \<or>
       bit (fuse_value pf s (XFSBL_USER_EFUSE_ADDR + of_nat ((SpkId - 1) div 32 * 4))) ((SpkId - 1) mod 32))"

definition spk_trusted :: "'s platform \<Rightarrow> ('s, 'h) secure \<Rightarrow> u8 list \<Rightarrow> u64 \<Rightarrow> 's \<Rightarrow> bool" where
  "spk_trusted pf sx PpkKey ac s \<longleftrightarrow>
     (case spk_padding sx (spk_fuse_select pf s ac) (XFsbl_ShaStart sx) of (Status, ctx) \<Rightarrow>
        Status = XFSBL_SUCCESS \<and>
        signature_ok sx (ppk_key PpkKey) (signature_at pf s (ac + XFSBL_AUTH_CERT_SPK_SIG_OFFSET)) (spk_hash pf sx s ac ctx)) \<and>
     (fuse_value pf s EFUSE_SEC_CTRL AND EFUSE_SEC_CTRL_RSA_EN_MASK \<noteq> 0 \<longrightarrow> \<not> spk_revoked pf s ac)"

lemma same_view_refl [simp]: "same_view pf s s"
  by (simp add: same_view_def)

lemma same_view_trans: "\<lbrakk>same_view pf s t; same_view pf t u\<rbrakk> \<Longrightarrow> same_view pf s u"
  by (auto simp: same_view_def)

lemma same_view_mem:
  assumes "same_view pf s s'"
  shows "mem_bytes pf s' = mem_bytes pf s" "mem_word pf s' = mem_word pf s"
    "spk_fuse_select pf s' = spk_fuse_select pf s" "spk_key pf s' = spk_key pf s"
    "signature_at pf s' = signature_at pf s" "spk_hash pf sx s' = spk_hash pf sx s"
    "partition_hash pf sx s' = partition_hash pf sx s"
  using assms by (simp_all add: same_view_def fun_eq_iff mem_bytes_def mem_word_def spk_fuse_select_def spk_key_def
      signature_at_def spk_hash_def partition_hash_def XFsbl_ShaUpdate_def)

lemma fuses_quiet_In32: "\<lbrakk>fuses_quiet pf sx; is_fuse a; In32 (pf_bus pf) s a = (v, s')\<rbrakk> \<Longrightarrow> same_view pf s s' \<and> v = fuse_value pf s a"
  by (metis fst_conv snd_conv fuses_quiet_def fuse_value_def)

lemma fuses_quiet_CsuDmaInit: "\<lbrakk>fuses_quiet pf sx; XFsbl_CsuDmaInit sx s = (Status, s')\<rbrakk> \<Longrightarrow> same_view pf s s'"
  by (auto simp: fuses_quiet_def XFsbl_CsuDmaInit_def split: if_splits prod.splits) (metis snd_conv)+

lemma same_view_fuse: "\<lbrakk>same_view pf s s'; is_fuse a\<rbrakk> \<Longrightarrow> fuse_value pf s' a = fuse_value pf s a"
  by (simp add: same_view_def fuse_value_def)

lemma user_fuse_address:
  assumes "1 \<le> unat (w :: u32)" "unat w \<le> 256"
  shows "XFSBL_USER_EFUSE_ADDR + ucast ((w - 1) div 32 * 4) = XFSBL_USER_EFUSE_ADDR + of_nat ((unat w - 1) div 32 * 4)"
    and "unat ((w - 1) mod 32) = (unat w - 1) mod 32"
    and "is_fuse (XFSBL_USER_EFUSE_ADDR + ucast ((w - 1) div 32 * 4))"
proof -
  have "w \<noteq> 0" using assms by auto
  then have w: "unat (w - 1) = unat w - 1" by (rule unat_minus_one)
  show m: "unat ((w - 1) mod 32) = (unat w - 1) mod 32" by (simp add: unat_mod w)
  define k where "k = (unat w - 1) div 32"
  have k: "k < 8" using assms by (simp add: k_def)
  have "unat ((w - 1) div 32 * 4) = k * 4"
    using k by (simp add: unat_mult_lem [THEN iffD1] unat_div w k_def)
  then have u: "ucast ((w - 1) div 32 * 4) = (of_nat (k * 4) :: u64)"
    by (metis of_nat_unat)
  then show "XFSBL_USER_EFUSE_ADDR + ucast ((w - 1) div 32 * 4) = XFSBL_USER_EFUSE_ADDR + of_nat ((unat w - 1) div 32 * 4)"
    by (simp add: k_def)
  have "k = 0 \<or> k = 1 \<or> k = 2 \<or> k = 3 \<or> k = 4 \<or> k = 5 \<or> k = 6 \<or> k = 7" using k by auto
  then show "is_fuse (XFSBL_USER_EFUSE_ADDR + ucast ((w - 1) div 32 * 4))"
    unfolding u by (elim disjE) (simp_all add: is_fuse_def)
qed

lemma user_fuse_revoked_iff:
  assumes "fuses_quiet pf sx"
  shows "fst (user_fuse_revoked pf w s) = XFSBL_SUCCESS \<longleftrightarrow> \<not> (unat w = 0 \<or> 256 < unat w \<or>
    bit (fuse_value pf s (XFSBL_USER_EFUSE_ADDR + of_nat ((unat w - 1) div 32 * 4))) ((unat w - 1) mod 32))"
    and "same_view pf s (snd (user_fuse_revoked pf w s))"
proof -
  have r: "XFSBL_USER_EFUSE_MIN_VALUE \<le> w \<and> w \<le> XFSBL_USER_EFUSE_MAX_VALUE \<longleftrightarrow> 1 \<le> unat w \<and> unat w \<le> 256"
    by (simp add: word_le_nat_alt)
  have "(fst (user_fuse_revoked pf w s) = XFSBL_SUCCESS \<longleftrightarrow> \<not> (unat w = 0 \<or> 256 < unat w \<or>
    bit (fuse_value pf s (XFSBL_USER_EFUSE_ADDR + of_nat ((unat w - 1) div 32 * 4))) ((unat w - 1) mod 32)))
    \<and> same_view pf s (snd (user_fuse_revoked pf w s))"
  proof (cases "1 \<le> unat w \<and> unat w \<le> 256")
    case True
    note a = user_fuse_address [OF True [THEN conjunct1] True [THEN conjunct2]]
    obtain v s' where v: "In32 (pf_bus pf) s (XFSBL_USER_EFUSE_ADDR + ucast ((w - 1) div 32 * 4)) = (v, s')"
      by (cases "In32 (pf_bus pf) s (XFSBL_USER_EFUSE_ADDR + ucast ((w - 1) div 32 * 4))")
    note q = fuses_quiet_In32 [OF assms a(3) v]
    have "user_fuse_revoked pf w s = (if bit v ((unat w - 1) mod 32) then XFSBL_ERROR_USER_EFUSE_ISREVOKED else XFSBL_SUCCESS, s')"
      unfolding user_fuse_revoked_def r using True v by (simp add: a(2) and_exp_eq_0_iff_not_bit)
    with q True show ?thesis unfolding a(1) by auto
  next
    case False
    then show ?thesis unfolding user_fuse_revoked_def r by auto
  qed
  then show "fst (user_fuse_revoked pf w s) = XFSBL_SUCCESS \<longleftrightarrow> \<not> (unat w = 0 \<or> 256 < unat w \<or>
    bit (fuse_value pf s (XFSBL_USER_EFUSE_ADDR + of_nat ((unat w - 1) div 32 * 4))) ((unat w - 1) mod 32))"
    and "same_view pf s (snd (user_fuse_revoked pf w s))" by blast+
qed

lemma is_fuse_known [simp]: "is_fuse EFUSE_SEC_CTRL" "is_fuse EFUSE_SPKID"
  by (simp_all add: is_fuse_def)

lemma spk_revocation_iff:
  assumes q: "fuses_quiet pf sx" and sel: "spk_fuse_select pf s ac = 1 \<or> spk_fuse_select pf s ac = 2"
  shows "fst (spk_revocation pf ctrl (spk_fuse_select pf s ac) ac s) = XFSBL_SUCCESS \<longleftrightarrow>
     (ctrl AND EFUSE_SEC_CTRL_RSA_EN_MASK \<noteq> 0 \<longrightarrow> \<not> spk_revoked pf s ac)"
    and "same_view pf s (snd (spk_revocation pf ctrl (spk_fuse_select pf s ac) ac s))"
proof -
  obtain v s' where v: "In32 (pf_bus pf) s EFUSE_SPKID = (v, s')" by (cases "In32 (pf_bus pf) s EFUSE_SPKID")
  note r = fuses_quiet_In32 [OF q is_fuse_known(2) v]
  have m: "mem_word pf s' = mem_word pf s" using r by (simp add: same_view_mem(2))
  define w where "w = mem_word pf s (ac + 4)"
  have f: "fuse_value pf s' (XFSBL_USER_EFUSE_ADDR + of_nat ((unat w - 1) div 32 * 4)) =
      fuse_value pf s (XFSBL_USER_EFUSE_ADDR + of_nat ((unat w - 1) div 32 * 4))" if "1 \<le> unat w" "unat w \<le> 256"
    using user_fuse_address [OF that] r by (simp add: same_view_fuse)
  note u = user_fuse_revoked_iff [OF q, where w = w and s = s']
  show "fst (spk_revocation pf ctrl (spk_fuse_select pf s ac) ac s) = XFSBL_SUCCESS \<longleftrightarrow>
     (ctrl AND EFUSE_SEC_CTRL_RSA_EN_MASK \<noteq> 0 \<longrightarrow> \<not> spk_revoked pf s ac)"
  proof (cases "ctrl AND EFUSE_SEC_CTRL_RSA_EN_MASK = 0 \<or> spk_fuse_select pf s ac = 1")
    case True
    with r show ?thesis unfolding spk_revocation_def spk_revoked_def v m prod.case Let_def by auto
  next
    case False
    with sel have "spk_revocation pf ctrl (spk_fuse_select pf s ac) ac s = user_fuse_revoked pf w s'"
      unfolding spk_revocation_def v m prod.case Let_def w_def by simp
    moreover have "spk_revoked pf s ac \<longleftrightarrow> (unat w = 0 \<or> 256 < unat w \<or>
      bit (fuse_value pf s' (XFSBL_USER_EFUSE_ADDR + of_nat ((unat w - 1) div 32 * 4))) ((unat w - 1) mod 32))"
    proof (cases "1 \<le> unat w \<and> unat w \<le> 256")
      case True
      with False f show ?thesis unfolding spk_revoked_def w_def [symmetric] Let_def by simp
    next
      case oor: False
      with False have "spk_revoked pf s ac" unfolding spk_revoked_def w_def [symmetric] Let_def by auto
      moreover have "unat w = 0 \<or> 256 < unat w" using oor by linarith
      ultimately show ?thesis by blast
    qed
    ultimately show ?thesis using False u(1) by simp
  qed
  show "same_view pf s (snd (spk_revocation pf ctrl (spk_fuse_select pf s ac) ac s))"
    using r u(2) unfolding spk_revocation_def v m prod.case Let_def w_def [symmetric]
    by (auto intro: same_view_trans)
qed

lemma spk_padding_select: "fst (spk_padding sx sel ctx) = XFSBL_SUCCESS \<Longrightarrow> sel = 1 \<or> sel = 2"
  by (auto simp: spk_padding_def split: if_splits)

lemma spk_revoked_view:
  assumes r2: "same_view pf s s2"
  shows "spk_revoked pf s2 ac = spk_revoked pf s ac"
proof -
  note m = same_view_mem [OF r2] and e = same_view_fuse [OF r2 is_fuse_known(2)]
  define w where "w = mem_word pf s (ac + 4)"
  have f: "fuse_value pf s2 (XFSBL_USER_EFUSE_ADDR + of_nat ((unat w - 1) div 32 * 4)) =
    fuse_value pf s (XFSBL_USER_EFUSE_ADDR + of_nat ((unat w - 1) div 32 * 4))" if "1 \<le> unat w" "unat w \<le> 256"
    using user_fuse_address [OF that] same_view_fuse [OF r2] by simp
  show ?thesis
  proof (cases "1 \<le> unat w \<and> unat w \<le> 256")
    case True
    with f show ?thesis unfolding spk_revoked_def m e w_def [symmetric] Let_def by simp
  next
    case False
    then have "unat w = 0 \<or> 256 < unat w" by linarith
    then show ?thesis unfolding spk_revoked_def m e w_def [symmetric] Let_def by auto
  qed
qed

lemma SpkVer_iff:
  assumes q: "fuses_quiet pf sx"
  shows "fst (XFsbl_SpkVer pf sx PpkKey ac s) = XFSBL_SUCCESS \<longleftrightarrow>
     csu_dma_ok sx (snd (In32 (pf_bus pf) s EFUSE_SEC_CTRL)) \<and> spk_trusted pf sx PpkKey ac s"
    and "same_view pf s (snd (XFsbl_SpkVer pf sx PpkKey ac s))"
proof -
  obtain v s1 where v: "In32 (pf_bus pf) s EFUSE_SEC_CTRL = (v, s1)" by (cases "In32 (pf_bus pf) s EFUSE_SEC_CTRL")
  obtain Status s2 where d: "XFsbl_CsuDmaInit sx s1 = (Status, s2)" by (cases "XFsbl_CsuDmaInit sx s1")
  obtain p ctx where p: "spk_padding sx (spk_fuse_select pf s ac) (XFsbl_ShaStart sx) = (p, ctx)"
    by (cases "spk_padding sx (spk_fuse_select pf s ac) (XFsbl_ShaStart sx)")
  note r1 = fuses_quiet_In32 [OF q is_fuse_known(1) v]
  have r2: "same_view pf s s2" by (rule same_view_trans [OF r1 [THEN conjunct1] fuses_quiet_CsuDmaInit [OF q d]])
  note m = same_view_mem [OF r2]
  note sv = spk_revoked_view [OF r2]
  note rv = spk_revocation_iff [OF q, where s = s2 and ac = ac and ctrl = v, unfolded m]
  have "fst (XFsbl_SpkVer pf sx PpkKey ac s) = XFSBL_SUCCESS \<longleftrightarrow>
     Status = XFSBL_SUCCESS \<and> p = XFSBL_SUCCESS \<and>
     signature_ok sx (ppk_key PpkKey) (signature_at pf s (ac + XFSBL_AUTH_CERT_SPK_SIG_OFFSET)) (spk_hash pf sx s ac ctx) \<and>
     fst (spk_revocation pf v (spk_fuse_select pf s ac) ac s2) = XFSBL_SUCCESS"
    unfolding XFsbl_SpkVer_def v d p Let_def prod.case m by auto
  moreover have "p = XFSBL_SUCCESS \<Longrightarrow> spk_fuse_select pf s ac = 1 \<or> spk_fuse_select pf s ac = 2"
    using p spk_padding_select [of sx "spk_fuse_select pf s ac" "XFsbl_ShaStart sx"] by simp
  ultimately show "fst (XFsbl_SpkVer pf sx PpkKey ac s) = XFSBL_SUCCESS \<longleftrightarrow>
     csu_dma_ok sx (snd (In32 (pf_bus pf) s EFUSE_SEC_CTRL)) \<and> spk_trusted pf sx PpkKey ac s"
    unfolding csu_dma_ok_def spk_trusted_def v p prod.case fst_conv snd_conv d
    using rv(1) sv r1 by (metis (full_types))
  show "same_view pf s (snd (XFsbl_SpkVer pf sx PpkKey ac s))"
  proof (cases "p = XFSBL_SUCCESS")
    case True
    then have "spk_fuse_select pf s ac = 1 \<or> spk_fuse_select pf s ac = 2" using p spk_padding_select [of sx "spk_fuse_select pf s ac" "XFsbl_ShaStart sx"] by simp
    with rv(2) r2 show ?thesis unfolding XFsbl_SpkVer_def v d p Let_def prod.case m by (auto intro: same_view_trans)
  next
    case False
    with r2 show ?thesis unfolding XFsbl_SpkVer_def v d p Let_def prod.case m by auto
  qed
qed

lemma Authentication_iff:
  assumes "fuses_quiet pf sx"
  shows "fst (XFsbl_Authentication pf sx PpkKey PartitionOffset PartitionLen ac s) = XFSBL_SUCCESS \<longleftrightarrow>
       csu_dma_ok sx (snd (In32 (pf_bus pf) s EFUSE_SEC_CTRL)) \<and> spk_trusted pf sx PpkKey ac s \<and>
       signature_ok sx (spk_key pf s ac) (signature_at pf s (ac + PARTITION_SIG_OFFSET))
         (partition_hash pf sx s PartitionOffset PartitionLen ac)"
    (is "?accepts \<longleftrightarrow> _")
    and "same_view pf s (snd (XFsbl_Authentication pf sx PpkKey PartitionOffset PartitionLen ac s))"
proof -
  obtain Status s' where v: "XFsbl_SpkVer pf sx PpkKey ac s = (Status, s')" by (cases "XFsbl_SpkVer pf sx PpkKey ac s")
  note i = SpkVer_iff [OF assms, where PpkKey = PpkKey and ac = ac and s = s, unfolded v fst_conv snd_conv]
  have "?accepts \<longleftrightarrow> Status = XFSBL_SUCCESS \<and> XFsbl_PartitionSignVer pf sx PartitionOffset PartitionLen ac s' = XFSBL_SUCCESS"
    by (simp add: XFsbl_Authentication_def v)
  then show "?accepts \<longleftrightarrow> csu_dma_ok sx (snd (In32 (pf_bus pf) s EFUSE_SEC_CTRL)) \<and> spk_trusted pf sx PpkKey ac s \<and>
       signature_ok sx (spk_key pf s ac) (signature_at pf s (ac + PARTITION_SIG_OFFSET))
         (partition_hash pf sx s PartitionOffset PartitionLen ac)"
    unfolding XFsbl_PartitionSignVer_def same_view_mem [OF i(2)] using i(1) by simp
  show "same_view pf s (snd (XFsbl_Authentication pf sx PpkKey PartitionOffset PartitionLen ac s))"
    using i(2) by (simp add: XFsbl_Authentication_def v)
qed

text \<open>
  C10. \<open>XFsbl_Authentication\<close> accepts a partition exactly when the DMA driver starts and two signatures
  verify: under the saved primary key that of the secondary key in the certificate, which, when the RSA
  fuses are blown, must not have been revoked (another identifier in the fuse, a bit of the user fuses,
  or an identifier out of their range); and under that secondary key the signature over the data and the
  whole certificate before the signature. Neither memory nor fuses are changed by the verification.
\<close>

theorem authentication_accepts_iff:
  assumes "fuses_quiet pf sx"
  shows "(fst (XFsbl_Authentication pf sx PpkKey PartitionOffset PartitionLen ac s) = XFSBL_SUCCESS \<longleftrightarrow>
       csu_dma_ok sx (snd (In32 (pf_bus pf) s EFUSE_SEC_CTRL)) \<and> spk_trusted pf sx PpkKey ac s \<and>
       signature_ok sx (spk_key pf s ac) (signature_at pf s (ac + PARTITION_SIG_OFFSET))
         (partition_hash pf sx s PartitionOffset PartitionLen ac)) \<and>
     same_view pf s (snd (XFsbl_Authentication pf sx PpkKey PartitionOffset PartitionLen ac s))"
  using Authentication_iff [OF assms] by blast

section \<open>An example\<close>

text \<open>Contexts are the bytes hashed, and a signature is the first four bytes of the hash.\<close>

definition demo_secure :: "(demo, u8 list) secure" where
  "demo_secure = \<lparr>sx_CsuDmaLookup = True, sx_CsuDmaCfgInitialize = \<lambda>s. (XFSBL_SUCCESS, s), sx_CsuDmaEndian = \<lambda>_ s. s,
     sx_Sha3Initialize = (XFSBL_SUCCESS, []), sx_Sha3Start = \<lambda>h. h, sx_Sha3PadSelection = \<lambda>_ h. (XFSBL_SUCCESS, h),
     sx_Sha3Update = \<lambda>bs h. h @ bs, sx_Sha3ReadHash = \<lambda>h. h, sx_Sha3Finish = \<lambda>h. h, sx_Sha3Digest = \<lambda>bs h. h @ bs,
     sx_RsaInitialize = \<lambda>_. XFSBL_SUCCESS, sx_RsaPublicEncrypt = \<lambda>_ sig. (XFSBL_SUCCESS, take 4 sig),
     sx_RsaSignVerification = \<lambda>out hash. if out = take 4 hash then XFSBL_SUCCESS else XFSBL_FAILURE,
     sx_AesInitialize = \<lambda>_ s. (XFSBL_SUCCESS, \<lparr>KeySel = XSECURE_CSU_AES_KEY_SRC_DEV, KeyGiven = False, SizeofData = 0, IvAddr = 0\<rparr>, s),
     sx_AesDecrypt = \<lambda>_ _ _ a s. (XFSBL_SUCCESS, a, s), sx_AesDecryptInit = \<lambda>_ _ a s. (a, s),
     sx_AesDecryptUpdate = \<lambda>_ _ a s. (XFSBL_SUCCESS, a, s), sx_AesKeySelNLoad = \<lambda>_ s. s, sx_AesWaitForDone = Some,
     sx_PcapWaitForDone = Some, sx_SssInitialize = \<lambda>s. s, sx_SssAes = \<lambda>s. s, sx_AesReg = \<lambda>_. 0, sx_AesBit = \<lambda>_. 0,
     sx_SecureHdr = 0\<rparr>"

text \<open>A certificate at \<open>0x200000\<close> with the key identifier 7 of the fuses, which require signatures.\<close>

definition demo_signed :: demo where
  "demo_signed = ((\<lambda>_. 0)(EFUSE_SEC_CTRL := 0x800, EFUSE_SPKID := 7), (\<lambda>_. 0)(0x200002 := 4, 0x200004 := 7, 0x2008C2 := 4))"

lemma demo_quiet: "fuses_quiet demo_platform demo_secure"
  by (auto simp: fuses_quiet_def same_view_def demo_secure_def)

lemma take_mem_bytes: "take k (mem_bytes pf s a n) = mem_bytes pf s a (min k n)"
  by (simp add: mem_bytes_def take_map take_upt min_def)

lemma demo_word: "mem_word demo_platform demo_signed 0x200000 = 0x40000" "mem_word demo_platform demo_signed 0x200004 = 7"
  by (simp_all add: le32_def demo_signed_def)

lemma demo_trusted: "spk_trusted demo_platform demo_secure (replicate 1088 0) 0x200000 demo_signed"
  by (simp add: spk_trusted_def spk_padding_def spk_fuse_select_def demo_word XFsbl_Sha3PadSelect_def XFsbl_ShaStart_def
      signature_ok_def spk_hash_def XFsbl_ShaFinish_def XFsbl_ShaUpdate_def take_mem_bytes demo_secure_def
      fuse_value_def spk_revoked_def signature_at_def)
    (simp add: demo_signed_def upt_rec)

lemma demo_partition_signed:
  "signature_ok demo_secure (spk_key demo_platform demo_signed 0x200000)
     (signature_at demo_platform demo_signed (0x200000 + PARTITION_SIG_OFFSET))
     (partition_hash demo_platform demo_secure demo_signed 0x100000 3792 0x200000)"
  by (simp add: signature_ok_def partition_hash_def XFsbl_ShaFinish_def XFsbl_ShaUpdate_def XFsbl_ShaStart_def
      take_mem_bytes demo_secure_def signature_at_def)
    (simp add: demo_signed_def upt_rec)

lemma demo_csu_dma: "csu_dma_ok demo_secure m"
  by (simp add: csu_dma_ok_def XFsbl_CsuDmaInit_def demo_secure_def)

lemma demo_SpkVer_keeps: "snd (XFsbl_SpkVer demo_platform demo_secure key ac s) = s"
  by (cases s) (auto simp: XFsbl_SpkVer_def XFsbl_CsuDmaInit_def demo_secure_def spk_revocation_def user_fuse_revoked_def
      Let_def split: prod.split if_splits)

theorem authentication_accepts_iff_witness:
  "fst (XFsbl_Authentication demo_platform demo_secure (replicate 1088 0) 0x100000 3792 0x200000 demo_signed) = XFSBL_SUCCESS"
  by (rule authentication_accepts_iff [OF demo_quiet, THEN conjunct1, THEN iffD2])
    (intro conjI demo_csu_dma demo_trusted demo_partition_signed)

section \<open>The boot header\<close>

text \<open>The hash of the primary key in the fuses that the certificate selects.\<close>

lemma read_fuses_map:
  assumes "fuses_quiet pf sx" "same_view pf s0 s" "\<forall>i < n. is_fuse (a + 4 * of_nat i)"
  shows "fst (read_fuses pf a n s) = map (\<lambda>i. fuse_value pf s0 (a + 4 * of_nat i)) [0..<n]"
    and "same_view pf s0 (snd (read_fuses pf a n s))"
proof -
  have "fst (read_fuses pf a n s) = map (\<lambda>i. fuse_value pf s0 (a + 4 * of_nat i)) [0..<n] \<and>
    same_view pf s0 (snd (read_fuses pf a n s))"
    using assms(2,3)
  proof (induction n arbitrary: a s)
    case (Suc n)
    obtain v s1 where v: "In32 (pf_bus pf) s a = (v, s1)" by (cases "In32 (pf_bus pf) s a")
    have f: "is_fuse a" using Suc.prems(2) [rule_format, of 0] by simp
    note r = fuses_quiet_In32 [OF assms(1) f v]
    have "\<forall>i < n. is_fuse (a + 4 + 4 * of_nat i)"
      using Suc.prems(2) [rule_format, of "Suc _"] by (simp add: algebra_simps)
    note ih = Suc.IH [OF same_view_trans [OF Suc.prems(1) r [THEN conjunct1]] this]
    have "v = fuse_value pf s0 a" using r same_view_fuse [OF Suc.prems(1) f] by simp
    moreover have "map (\<lambda>i. fuse_value pf s0 (a + 4 + 4 * of_nat i)) [0..<n] =
        map (\<lambda>i. fuse_value pf s0 (a + 4 * of_nat i)) (map Suc [0..<n])"
      by (simp add: algebra_simps)
    ultimately show ?case using ih v
      by (simp add: split_def upt_conv_Cons map_Suc_upt del: map_map upt_Suc)
  qed simp
  then show "fst (read_fuses pf a n s) = map (\<lambda>i. fuse_value pf s0 (a + 4 * of_nat i)) [0..<n]"
    and "same_view pf s0 (snd (read_fuses pf a n s))" by blast+
qed

definition ppk_fuses :: "'s platform \<Rightarrow> 's \<Rightarrow> bool \<Rightarrow> u8 list" where
  "ppk_fuses pf s second = bytes_of_words (map (\<lambda>i. fuse_value pf s ((if second then EFUSE_PPK1 else EFUSE_PPK0) + 4 * of_nat i)) [0..<12])"

definition ppk_trusted :: "'s platform \<Rightarrow> ('s, 'h) secure \<Rightarrow> u64 \<Rightarrow> 's \<Rightarrow> bool" where
  "ppk_trusted pf sx ac s \<longleftrightarrow>
     (let second = (mem_word pf s ac AND XIH_AC_ATTRB_PPK_SELECT_MASK \<noteq> 0);
          (Status, ctx) = sx_Sha3PadSelection sx XSECURE_CSU_KECCAK_SHA3 (XFsbl_ShaStart sx)
      in fuse_value pf s EFUSE_SEC_CTRL AND (if second then EFUSE_SEC_CTRL_PPK1_RVK_MASK else EFUSE_SEC_CTRL_PPK0_RVK_MASK) = 0 \<and>
         Status = XFSBL_SUCCESS \<and>
         take 48 (sx_Sha3Finish sx (sx_Sha3Update sx (mem_bytes pf s (ac + XFSBL_RSA_AC_ALIGN) 1088) ctx)) = take 48 (ppk_fuses pf s second))"

lemma is_fuse_ppk: "i < 12 \<Longrightarrow> is_fuse (EFUSE_PPK0 + 4 * of_nat i)" "i < 12 \<Longrightarrow> is_fuse (EFUSE_PPK1 + 4 * of_nat i)"
  by (simp_all add: eval_nat_numeral) (elim less_SucE, simp_all add: is_fuse_def)+

lemma PpkVer_iff:
  assumes q: "fuses_quiet pf sx"
  shows "fst (XFsbl_PpkVer pf sx ac s) = XFSBL_SUCCESS \<longleftrightarrow> ppk_trusted pf sx ac s"
    and "same_view pf s (snd (XFsbl_PpkVer pf sx ac s))"
proof -
  define second where "second = (mem_word pf s ac AND XIH_AC_ATTRB_PPK_SELECT_MASK \<noteq> 0)"
  obtain v s1 where v: "In32 (pf_bus pf) s EFUSE_SEC_CTRL = (v, s1)" by (cases "In32 (pf_bus pf) s EFUSE_SEC_CTRL")
  note r1 = fuses_quiet_In32 [OF q is_fuse_known(1) v]
  obtain ws s2 where w: "XFsbl_ReadPpkHash pf second s1 = (ws, s2)" by (cases "XFsbl_ReadPpkHash pf second s1")
  obtain p ctx where p: "sx_Sha3PadSelection sx XSECURE_CSU_KECCAK_SHA3 (XFsbl_ShaStart sx) = (p, ctx)"
    by (cases "sx_Sha3PadSelection sx XSECURE_CSU_KECCAK_SHA3 (XFsbl_ShaStart sx)")
  have a: "\<forall>i<12. is_fuse ((if second then EFUSE_PPK1 else EFUSE_PPK0) + 4 * of_nat i)"
    using is_fuse_ppk by simp
  note rm = read_fuses_map [OF q r1 [THEN conjunct1] a]
  have ws: "bytes_of_words ws = ppk_fuses pf s second" and r2: "same_view pf s s2"
    using rm w unfolding XFsbl_ReadPpkHash_def ppk_fuses_def by simp_all
  have m: "mem_bytes pf s2 = mem_bytes pf s" by (rule same_view_mem(1) [OF r2])
  show "fst (XFsbl_PpkVer pf sx ac s) = XFSBL_SUCCESS \<longleftrightarrow> ppk_trusted pf sx ac s"
    unfolding XFsbl_PpkVer_def ppk_trusted_def second_def [symmetric] Let_def v w prod.case XFsbl_Sha3PadSelect_def p
      XFsbl_CompareHashs_def XFsbl_ShaFinish_def XFsbl_ShaUpdate_def ws m using r1 by (auto simp: Let_def)
  show "same_view pf s (snd (XFsbl_PpkVer pf sx ac s))"
    unfolding XFsbl_PpkVer_def second_def [symmetric] Let_def v w prod.case XFsbl_Sha3PadSelect_def p
    using r1 r2 by (auto simp: Let_def)
qed

lemma trusted_view:
  assumes "same_view pf s s'"
  shows "ppk_trusted pf sx ac s' = ppk_trusted pf sx ac s" "spk_trusted pf sx key ac s' = spk_trusted pf sx key ac s"
proof -
  note m = same_view_mem [OF assms]
  have f: "ppk_fuses pf s' second = ppk_fuses pf s second" for second
    unfolding ppk_fuses_def using same_view_fuse [OF assms] is_fuse_ppk by (auto intro!: arg_cong [where f = bytes_of_words])
  note e = same_view_fuse [OF assms is_fuse_known(1)]
  show "ppk_trusted pf sx ac s' = ppk_trusted pf sx ac s" unfolding ppk_trusted_def m f e ..
  show "spk_trusted pf sx key ac s' = spk_trusted pf sx key ac s"
    unfolding spk_trusted_def m e spk_revoked_view [OF assms] ..
qed

text \<open>A boot header that is accepted with the fuses blown hangs by two signatures from a key whose hash is in the fuses.\<close>

lemma BhAuthentication_trusted:
  assumes q: "fuses_quiet pf sx"
    and r: "XFsbl_BhAuthentication pf sx attributes PpkKey Data ac rsa s = (XFSBL_SUCCESS, PpkKey', s')"
  shows "same_view pf s s'" "PpkKey' = mem_bytes pf s (ac + XFSBL_AUTH_CERT_PPK_OFFSET) 1088"
    "rsa \<Longrightarrow> ppk_trusted pf sx ac s" "spk_trusted pf sx PpkKey' ac s"
    "signature_ok sx (spk_key pf s ac) (signature_at pf s (ac + BHDR_SIG_OFFSET))
       (bh_hash pf sx s Data (if attributes AND XIH_BH_IMAGE_ATTRB_PUF_BH_MASK \<noteq> 0 then XIH_BH_MAX_SIZE else XIH_BH_MIN_SIZE)
         (snd (sx_Sha3PadSelection sx XSECURE_CSU_KECCAK_SHA3 (XFsbl_ShaStart sx))))"
proof -
  obtain d s1 where d: "XFsbl_CsuDmaInit sx s = (d, s1)" by (cases "XFsbl_CsuDmaInit sx s")
  note r1 = fuses_quiet_CsuDmaInit [OF q d]
  obtain p s2 where p: "(if rsa then XFsbl_PpkVer pf sx ac s1 else (XFSBL_SUCCESS, s1)) = (p, s2)"
    by (cases "if rsa then XFsbl_PpkVer pf sx ac s1 else (XFSBL_SUCCESS, s1)")
  have r2: "same_view pf s1 s2" using p PpkVer_iff(2) [OF q, where ac = ac and s = s1] by (auto split: if_splits)
  define key where "key = mem_bytes pf s2 (ac + XFSBL_AUTH_CERT_PPK_OFFSET) (unat XFSBL_PPK_SIZE)"
  obtain k s3 where k: "XFsbl_SpkVer pf sx key ac s2 = (k, s3)" by (cases "XFsbl_SpkVer pf sx key ac s2")
  have r3: "same_view pf s2 s3" using SpkVer_iff(2) [OF q, where s = s2 and PpkKey = key and ac = ac] k by simp
  obtain h ctx where h: "sx_Sha3PadSelection sx XSECURE_CSU_KECCAK_SHA3 (XFsbl_ShaStart sx) = (h, ctx)"
    by (cases "sx_Sha3PadSelection sx XSECURE_CSU_KECCAK_SHA3 (XFsbl_ShaStart sx)")
  have out: "d = XFSBL_SUCCESS \<and> p = XFSBL_SUCCESS \<and> k = XFSBL_SUCCESS \<and> h = XFSBL_SUCCESS \<and> s' = s3 \<and> PpkKey' = key \<and>
    rsa_verify sx (spk_key pf s3 ac) (signature_at pf s3 (ac + BHDR_SIG_OFFSET))
      (bh_hash pf sx s3 Data (if attributes AND XIH_BH_IMAGE_ATTRB_PUF_BH_MASK \<noteq> 0 then XIH_BH_MAX_SIZE else XIH_BH_MIN_SIZE) ctx)
      XFSBL_ERROR_BH_RSA_DECRYPT XFSBL_ERROR_BH_SIGNATURE = XFSBL_SUCCESS"
    using r unfolding XFsbl_BhAuthentication_def d p Let_def prod.case key_def [symmetric] k XFsbl_Sha3PadSelect_def h
    by (auto split: if_splits)
  note v2 = same_view_trans [OF r1 r2] note v3 = same_view_trans [OF v2 r3]
  have kk: "key = mem_bytes pf s (ac + XFSBL_AUTH_CERT_PPK_OFFSET) 1088"
    by (simp add: key_def same_view_mem(1) [OF v2])
  show "same_view pf s s'" "PpkKey' = mem_bytes pf s (ac + XFSBL_AUTH_CERT_PPK_OFFSET) 1088"
    using v3 kk out by simp_all
  show "signature_ok sx (spk_key pf s ac) (signature_at pf s (ac + BHDR_SIG_OFFSET))
       (bh_hash pf sx s Data (if attributes AND XIH_BH_IMAGE_ATTRB_PUF_BH_MASK \<noteq> 0 then XIH_BH_MAX_SIZE else XIH_BH_MIN_SIZE)
         (snd (sx_Sha3PadSelection sx XSECURE_CSU_KECCAK_SHA3 (XFsbl_ShaStart sx))))"
    using out unfolding same_view_mem [OF v3] bh_hash_def XFsbl_ShaUpdate_def h snd_conv by simp
  have t: "ppk_trusted pf sx ac s1 = ppk_trusted pf sx ac s" "spk_trusted pf sx key ac s2 = spk_trusted pf sx key ac s"
    using trusted_view [OF r1] trusted_view [OF v2] by blast+
  show "rsa \<Longrightarrow> ppk_trusted pf sx ac s" using p out PpkVer_iff(1) [OF q, where ac = ac and s = s1] t by simp
  show "spk_trusted pf sx PpkKey' ac s"
    using SpkVer_iff(1) [OF q, where s = s2 and PpkKey = key and ac = ac] k out t by simp
qed

end
