(* ===== verification/Pl_Partition.thy ===== *)
theory Pl_Partition
  imports Authentication
begin

text \<open>
  A signed bitstream (\<open>xfsbl_plpartition_valid.c\<close>): it is verified block by block, each block in chunks that are
  hashed twice, once for the signature and once more when they are copied again to be configured or decrypted.
  No result is a register that is polled for ever. The protocol \<open>pl_step\<close> says in which order certificates are copied,
  keys checked, chunks hashed, signatures verified and chunks sent; the code is shown to follow it.
\<close>

section \<open>The parameters of a bitstream\<close>

text \<open>
  \<open>XFsblPs_PlPartition\<close>, with the machine: \<open>PlDeviceCopy\<close> is \<open>None\<close> with DDR memory. The hashes of the chunks are
  a list of their own, and the AES structure is there when the bitstream is encrypted.
\<close>

record 's XFsblPs_PlPartition =
  IsAuthenticated :: bool
  IsEncrypted :: bool
  StartAddress :: u64
  TotalLen :: u32
  ChunkSize :: u32
  ChunkBuffer :: u64
  PlDeviceCopy :: "(u32 \<Rightarrow> u64 \<Rightarrow> u32 \<Rightarrow> 's \<Rightarrow> (u32 \<times> 's) option) option"
  PlAes :: "XSecure_Aes option"
  NextBlkLen :: u32
  AuthCertBuf :: u64
  AcOfset :: u32
  NoOfHashs :: u32
  BlockSize :: u32
  Hdr :: u8
  pl_machine :: 's

definition on_pl :: "('s \<Rightarrow> (u32 \<times> 's) option) \<Rightarrow> 's XFsblPs_PlPartition \<Rightarrow> (u32 \<times> 's XFsblPs_PlPartition) option" where
  "on_pl f P = map_option (\<lambda>(Status, s). (Status, P\<lparr>pl_machine := s\<rparr>)) (f (pl_machine P))"

definition with_pl :: "('s \<Rightarrow> 's) \<Rightarrow> 's XFsblPs_PlPartition \<Rightarrow> 's XFsblPs_PlPartition" where
  "with_pl f P = P\<lparr>pl_machine := f (pl_machine P)\<rparr>"

text \<open>A step on the machine that only returns, or does not.\<close>

definition then_pl :: "('s \<Rightarrow> 's option) \<Rightarrow> ('s XFsblPs_PlPartition \<Rightarrow> 'b option) \<Rightarrow> 's XFsblPs_PlPartition \<Rightarrow> 'b option" where
  "then_pl f k P = Option.bind (f (pl_machine P)) (\<lambda>s. k (P\<lparr>pl_machine := s\<rparr>))"

abbreviation (input) XSECURE_SECURE_HDR_SIZE :: u32 where "XSECURE_SECURE_HDR_SIZE \<equiv> 48"
abbreviation (input) XSECURE_SECURE_GCM_TAG_SIZE :: u32 where "XSECURE_SECURE_GCM_TAG_SIZE \<equiv> 16"
abbreviation (input) XFSBL_AES_TAG_SIZE :: u32 where "XFSBL_AES_TAG_SIZE \<equiv> XSECURE_SECURE_HDR_SIZE + XSECURE_SECURE_GCM_TAG_SIZE"
abbreviation (input) XFSBL_ERROR_BITSTREAM_GCM_TAG_MISMATCH :: u32 where "XFSBL_ERROR_BITSTREAM_GCM_TAG_MISMATCH \<equiv> 0x38"
abbreviation (input) XFSBL_ERROR_SECURE_NOT_ENABLED :: u32 where "XFSBL_ERROR_SECURE_NOT_ENABLED \<equiv> 0x3B"
abbreviation (input) XFSBL_ERROR_CHUNK_HASH_COMPARISON :: u32 where "XFSBL_ERROR_CHUNK_HASH_COMPARISON \<equiv> 0x60"
abbreviation (input) XFSBL_ERROR_PROVIDED_BUF_HASH_STORE :: u32 where "XFSBL_ERROR_PROVIDED_BUF_HASH_STORE \<equiv> 0x61"

definition XFsbl_DmaPlCopy :: "'s platform \<Rightarrow> u64 \<Rightarrow> u32 \<Rightarrow> bool \<Rightarrow> 's \<Rightarrow> 's option" where
  "XFsbl_DmaPlCopy pf Src Size EnLast s =
     map_option (pf_CsuDma_IntrClear pf) (pf_CsuDma_WaitForDone pf (pf_CsuDma_Transfer pf Src Size EnLast s))"

definition XFsbl_CopyData ::
  "'s platform \<Rightarrow> u64 \<Rightarrow> u64 \<Rightarrow> u32 \<Rightarrow> 's XFsblPs_PlPartition \<Rightarrow> (u32 \<times> 's XFsblPs_PlPartition) option" where
  "XFsbl_CopyData pf Dst Src Size P =
     on_pl (case PlDeviceCopy P of None \<Rightarrow> XFsbl_AdmaCopy pf Dst Src Size | Some copy \<Rightarrow> copy (ucast Src) Dst Size) P"

section \<open>Decryption\<close>

definition aes_write :: "'s platform \<Rightarrow> ('s, 'h) secure \<Rightarrow> aes_reg \<Rightarrow> u32 \<Rightarrow> 's \<Rightarrow> 's" where
  "aes_write pf sx r v = write_reg pf (sx_AesReg sx r) v"

definition XFsbl_DecrypSecureHdr :: "'s platform \<Rightarrow> ('s, 'h) secure \<Rightarrow> u64 \<Rightarrow> 's \<Rightarrow> (u32 \<times> 's) option" where
  "XFsbl_DecrypSecureHdr pf sx SrcAddr s = do {
     let s = sx_CsuDmaEndian sx 1 s;
     let s = aes_write pf sx XSECURE_CSU_AES_KUP_WR_REG
               (sx_AesBit sx XSECURE_CSU_AES_IV_WR OR sx_AesBit sx XSECURE_CSU_AES_KUP_WR) s;
     let s = pf_CsuDma_IntrClear pf s;
     s \<leftarrow> XFsbl_DmaPlCopy pf SrcAddr (XSECURE_SECURE_HDR_SIZE div 4) True s;
     let s = aes_write pf sx XSECURE_CSU_AES_KUP_WR_REG 0 s;
     s \<leftarrow> XFsbl_DmaPlCopy pf (SrcAddr + ucast XSECURE_SECURE_HDR_SIZE) (XSECURE_SECURE_GCM_TAG_SIZE div 4) True s;
     let s = sx_CsuDmaEndian sx 0 s;
     s \<leftarrow> sx_PcapWaitForDone sx s;
     s \<leftarrow> sx_AesWaitForDone sx s;
     case In32 (pf_bus pf) s (sx_AesReg sx XSECURE_CSU_AES_STS) of (v, s) \<Rightarrow>
       Some (if v AND sx_AesBit sx XSECURE_CSU_AES_STS_GCM_TAG_OK = 0 then XFSBL_ERROR_BITSTREAM_GCM_TAG_MISMATCH
             else XFSBL_SUCCESS, s)
   }"

definition Xil_Htonl :: "u32 \<Rightarrow> u32" where
  "Xil_Htonl w = push_bit 24 (w AND 0xFF) OR push_bit 8 (w AND 0xFF00) OR (drop_bit 8 w AND 0xFF00) OR drop_bit 24 w"

definition XFsbl_DecrptSetUpNextBlk ::
  "'s platform \<Rightarrow> ('s, 'h) secure \<Rightarrow> 's XFsblPs_PlPartition \<Rightarrow> (u32 \<times> 's XFsblPs_PlPartition) option" where
  "XFsbl_DecrptSetUpNextBlk pf sx P =
     (case PlAes P of None \<Rightarrow> None | Some aes \<Rightarrow>
        let (v, s) = In32 (pf_bus pf) (pl_machine P) (sx_AesReg sx XSECURE_CSU_AES_IV_3);
            len = Xil_Htonl v * 4;
            aes = aes\<lparr>IvAddr := sx_AesReg sx XSECURE_CSU_AES_IV_0\<rparr>;
            s = sx_SssAes sx s;
            s = aes_write pf sx XSECURE_CSU_AES_START_MSG_REG (sx_AesBit sx XSECURE_CSU_AES_START_MSG) s
        in Option.bind (XFsbl_DmaPlCopy pf (IvAddr aes) (XSECURE_SECURE_GCM_TAG_SIZE div 4) False s) (\<lambda>s.
             Some (XFSBL_SUCCESS, P\<lparr>NextBlkLen := len, PlAes := Some (aes\<lparr>SizeofData := len\<rparr>),
                                    pl_machine := aes_write pf sx XSECURE_CSU_AES_KUP_WR_REG 0 s\<rparr>)))"

text \<open>The key of the next block is loaded once its header is decrypted.\<close>

definition load_kup_key :: "('s, 'h) secure \<Rightarrow> 's XFsblPs_PlPartition \<Rightarrow> 's XFsblPs_PlPartition" where
  "load_kup_key sx P =
     (case PlAes P of None \<Rightarrow> P | Some aes \<Rightarrow>
        let aes = aes\<lparr>KeySel := XSECURE_CSU_AES_KEY_SRC_KUP\<rparr>
        in P\<lparr>PlAes := Some aes, pl_machine := sx_AesKeySelNLoad sx aes (pl_machine P)\<rparr>)"

text \<open>
  The first half of the loop of \<open>XFsbl_DecrptPl\<close>: the data up to the end of the encrypted block. Too little for the
  header of the next block is kept for the next chunk; the result of that copy is not looked at.
\<close>

definition decrypt_rest ::
  "'s platform \<Rightarrow> ('s, 'h) secure \<Rightarrow> u64 \<Rightarrow> u32 \<Rightarrow> 's XFsblPs_PlPartition \<Rightarrow> (u64 \<times> u32 \<times> 's XFsblPs_PlPartition) option" where
  "decrypt_rest pf sx SrcAddr Size P =
     (case PlAes P of None \<Rightarrow> None | Some aes \<Rightarrow>
        let P = with_pl (\<lambda>s. sx_SssAes sx (sx_CsuDmaEndian sx 1 s)) P;
            done = (\<lambda>(SrcAddr, Size, P). then_pl (\<lambda>s. map_option snd (XFsbl_PcapWaitForDone pf s))
                      (\<lambda>P. Some (SrcAddr, Size, with_pl (sx_CsuDmaEndian sx 0) P)) P)
        in if Size \<le> SizeofData aes \<and> SizeofData aes \<noteq> 0 then
             then_pl (XFsbl_DmaPlCopy pf SrcAddr (Size div 4) False)
               (\<lambda>P. done (SrcAddr, 0, P\<lparr>PlAes := Some (aes\<lparr>SizeofData := SizeofData aes - Size\<rparr>)\<rparr>)) P
           else if SizeofData aes \<noteq> 0 then
             then_pl (XFsbl_DmaPlCopy pf SrcAddr (SizeofData aes div 4) False)
               (\<lambda>P. let SrcAddr = SrcAddr + ucast (SizeofData aes); Size = Size - SizeofData aes;
                        P = P\<lparr>PlAes := Some (aes\<lparr>SizeofData := 0\<rparr>)\<rparr>
                    in if Size < XFSBL_AES_TAG_SIZE then
                         Option.bind (XFsbl_CopyData pf (sx_SecureHdr sx) SrcAddr Size P) (\<lambda>(_, P).
                           done (SrcAddr, 0, P\<lparr>Hdr := ucast Size\<rparr>))
                       else done (SrcAddr, Size, P)) P
           else done (SrcAddr, Size, P))"

definition aes_left :: "'s XFsblPs_PlPartition \<Rightarrow> u32" where
  "aes_left P = (case PlAes P of None \<Rightarrow> 0 | Some aes \<Rightarrow> SizeofData aes)"

lemma CopyData_frame: "XFsbl_CopyData pf d a n P = Some (Status, P') \<Longrightarrow> PlAes P' = PlAes P"
  by (auto simp: XFsbl_CopyData_def on_pl_def)

lemma decrypt_rest_size:
  assumes "decrypt_rest pf sx SrcAddr Size P = Some (SrcAddr', Size', P')" "Size' \<noteq> 0"
  shows "aes_left P = 0 \<and> Size' = Size \<or> aes_left P \<noteq> 0 \<and> aes_left P' = 0 \<and> XFSBL_AES_TAG_SIZE \<le> Size' \<and> unat Size' < unat Size"
  using assms
  by (auto simp: decrypt_rest_def then_pl_def with_pl_def Let_def aes_left_def bind_eq_Some_conv not_le not_less
      split: option.splits if_splits)
    (unat_arith+)

text \<open>
  After the first half either nothing is left or the encrypted block is at its end; the loop goes on only while the
  next block has a size. \<open>NextBlkAddr\<close> keeps its value from one round to the next.
\<close>

function XFsbl_DecrptPl_loop ::
  "'s platform \<Rightarrow> ('s, 'h) secure \<Rightarrow> u64 \<Rightarrow> u32 \<Rightarrow> u64 \<Rightarrow> 's XFsblPs_PlPartition \<Rightarrow> (u32 \<times> 's XFsblPs_PlPartition) option" where
  "XFsbl_DecrptPl_loop pf sx SrcAddr Size NextBlkAddr P =
     Option.bind (decrypt_rest pf sx SrcAddr Size P) (\<lambda>(SrcAddr, Size, P).
       if Size = 0 then Some (XFSBL_SUCCESS, P)
       else on_success (on_pl (XFsbl_DecrypSecureHdr pf sx SrcAddr) P) (\<lambda>Status. Status) (\<lambda>P.
         let Size = Size - XFSBL_AES_TAG_SIZE;
             NextBlkAddr = (if Size \<noteq> 0 then SrcAddr + ucast XFSBL_AES_TAG_SIZE else NextBlkAddr)
         in on_success (XFsbl_DecrptSetUpNextBlk pf sx (load_kup_key sx P)) (\<lambda>Status. Status) (\<lambda>P.
              if NextBlkAddr \<noteq> 0 \<and> aes_left P \<noteq> 0 \<and> Size \<noteq> 0
              then XFsbl_DecrptPl_loop pf sx NextBlkAddr Size NextBlkAddr P
              else Some (XFSBL_SUCCESS, P))))"
  by auto

termination
proof (relation "measure (\<lambda>(_, _, _, Size, _, P). (if aes_left P = 0 then 2 ^ 32 else 0) + unat Size)", simp, goal_cases)
  case (1 pf sx SrcAddr Size NextBlkAddr P r SrcAddr1 r2 Size1 P1 P2 Size2 n P3)
  then have d: "decrypt_rest pf sx SrcAddr Size P = Some (SrcAddr1, Size1, P1)" and z: "Size1 \<noteq> 0"
    and s2: "Size2 = Size1 - XFSBL_AES_TAG_SIZE" and l: "aes_left P3 \<noteq> 0" by auto
  have u: "unat Size2 < 2 ^ 32" by (rule order_less_le_trans [OF unsigned_less]) simp
  from decrypt_rest_size [OF d z] show ?case
  proof (elim disjE conjE)
    assume "aes_left P = 0"
    with l u show ?thesis by simp
  next
    assume a: "XFSBL_AES_TAG_SIZE \<le> Size1" "unat Size1 < unat Size"
    then have "unat Size2 \<le> unat Size1" unfolding s2 by unat_arith
    with a l show ?thesis by simp
  qed
qed

declare XFsbl_DecrptPl_loop.simps [simp del]

definition XFsbl_DecrptPl ::
  "'s platform \<Rightarrow> ('s, 'h) secure \<Rightarrow> u64 \<Rightarrow> u32 \<Rightarrow> 's XFsblPs_PlPartition \<Rightarrow> (u32 \<times> 's XFsblPs_PlPartition) option" where
  "XFsbl_DecrptPl pf sx ChunkAdrs n P = XFsbl_DecrptPl_loop pf sx ChunkAdrs n 0 P"

text \<open>The first chunk begins with the header of the first block.\<close>

definition decrypt_first ::
  "'s platform \<Rightarrow> ('s, 'h) secure \<Rightarrow> u64 \<Rightarrow> u32 \<Rightarrow> 's XFsblPs_PlPartition \<Rightarrow> (u32 \<times> 's XFsblPs_PlPartition) option" where
  "decrypt_first pf sx ChunkAdrs n P =
     (case PlAes P of None \<Rightarrow> None | Some aes \<Rightarrow>
        let (aes, s) = sx_AesDecryptInit sx XSECURE_SECURE_HDR_SIZE (ChunkAdrs + ucast XSECURE_SECURE_HDR_SIZE) aes (pl_machine P);
            s = aes_write pf sx XSECURE_CSU_AES_KUP_WR_REG
                  (sx_AesBit sx XSECURE_CSU_AES_IV_WR OR sx_AesBit sx XSECURE_CSU_AES_KUP_WR) s;
            (Status, aes, s) = sx_AesDecryptUpdate sx ChunkAdrs XSECURE_SECURE_HDR_SIZE aes s;
            P = P\<lparr>PlAes := Some aes, pl_machine := s\<rparr>
        in if Status \<noteq> XFSBL_SUCCESS then Some (XFSBL_ERROR_BITSTREAM_GCM_TAG_MISMATCH, P)
           else
             let P = load_kup_key sx P;
                 P = P\<lparr>PlAes := map_option (\<lambda>aes. aes\<lparr>IvAddr := sx_AesReg sx XSECURE_CSU_AES_IV_0\<rparr>) (PlAes P)\<rparr>;
                 Size = n - XSECURE_SECURE_HDR_SIZE - XSECURE_SECURE_GCM_TAG_SIZE;
                 SrcAddr = ChunkAdrs + ucast XFSBL_AES_TAG_SIZE
             in on_success (XFsbl_DecrptSetUpNextBlk pf sx P) (\<lambda>Status. Status) (XFsbl_DecrptPl pf sx SrcAddr Size))"

text \<open>A chunk that begins with the end of a header whose beginning was kept from the chunk before.\<close>

definition decrypt_split_header ::
  "'s platform \<Rightarrow> ('s, 'h) secure \<Rightarrow> u64 \<Rightarrow> u32 \<Rightarrow> 's XFsblPs_PlPartition \<Rightarrow> (u32 \<times> 's XFsblPs_PlPartition) option" where
  "decrypt_split_header pf sx SrcAddr n P =
     (let missing = XFSBL_AES_TAG_SIZE - ucast (Hdr P); P = with_pl (sx_SssAes sx) P
      in Option.bind (XFsbl_CopyData pf (sx_SecureHdr sx + ucast (Hdr P)) SrcAddr missing P) (\<lambda>(_, P).
           on_success (on_pl (XFsbl_DecrypSecureHdr pf sx (sx_SecureHdr sx)) P) (\<lambda>Status. Status) (\<lambda>P.
             let Size = n - missing;
                 clear_secure_hdr = (\<lambda>P. with_pl (pf_memset pf (sx_SecureHdr sx) 0 XFSBL_AES_TAG_SIZE) (P\<lparr>Hdr := 0\<rparr>));
                 NextBlkAddr = (if Size \<noteq> 0 then SrcAddr + ucast missing else 0)
             in on_success (XFsbl_DecrptSetUpNextBlk pf sx (load_kup_key sx (clear_secure_hdr P))) (\<lambda>Status. Status) (\<lambda>P.
                  if NextBlkAddr \<noteq> 0 \<and> aes_left P \<noteq> 0 then XFsbl_DecrptPl pf sx NextBlkAddr Size P
                  else Some (XFSBL_SUCCESS, P)))))"

definition XFsbl_DecrptPlChunks ::
  "'s platform \<Rightarrow> ('s, 'h) secure \<Rightarrow> u64 \<Rightarrow> u32 \<Rightarrow> 's XFsblPs_PlPartition \<Rightarrow> (u32 \<times> 's XFsblPs_PlPartition) option" where
  "XFsbl_DecrptPlChunks pf sx ChunkAdrs n P =
     (let P = with_pl (sx_SssInitialize sx) P
      in if NextBlkLen P = 0 then decrypt_first pf sx ChunkAdrs n P
         else if Hdr P \<noteq> 0 then decrypt_split_header pf sx ChunkAdrs n P
         else XFsbl_DecrptPl pf sx ChunkAdrs n P)"

section \<open>The signature of a block\<close>

text \<open>
  The running hash after every chunk is stored. \<open>n\<close> counts the chunks that are left; \<open>Len\<close> and
  \<open>HashDataLen\<close> are the variables of the loop.
\<close>

definition chunk_address :: "'s XFsblPs_PlPartition \<Rightarrow> u64 \<Rightarrow> u32 \<Rightarrow> u64" where
  "chunk_address P BlockAdrs Index = BlockAdrs + ucast (ChunkSize P * Index)"

fun sign_chunks ::
  "'s platform \<Rightarrow> ('s, 'h) secure \<Rightarrow> u64 \<Rightarrow> nat \<Rightarrow> u32 \<Rightarrow> u32 \<Rightarrow> u32 \<Rightarrow> 'h \<Rightarrow> u8 list list \<Rightarrow> 's XFsblPs_PlPartition
    \<Rightarrow> (u32 \<times> 'h \<times> u8 list list \<times> 's XFsblPs_PlPartition) option" where
  "sign_chunks pf sx BlockAdrs 0 Index Len HashDataLen ctx hashes P = Some (XFSBL_SUCCESS, ctx, hashes, P)"
| "sign_chunks pf sx BlockAdrs (Suc n) Index Len HashDataLen ctx hashes P =
     (let Len = (if n = 0 \<or> HashDataLen < ChunkSize P then HashDataLen else Len)
      in Option.bind (XFsbl_CopyData pf (ChunkBuffer P) (chunk_address P BlockAdrs Index) Len P) (\<lambda>(Status, P).
           if Status \<noteq> XFSBL_SUCCESS then Some (Status, ctx, hashes, P)
           else
             let ctx = sx_Sha3Update sx (mem_bytes pf (pl_machine P) (ChunkBuffer P) (unat Len)) ctx;
                 hashes = hashes @ [sx_Sha3ReadHash sx ctx];
                 HashDataLen = (if n \<noteq> 0 then HashDataLen - ChunkSize P else HashDataLen)
             in sign_chunks pf sx BlockAdrs n (Index + 1) Len HashDataLen ctx hashes P))"

definition XFsbl_PlSignVer ::
  "'s platform \<Rightarrow> ('s, 'h) secure \<Rightarrow> u64 \<Rightarrow> u32 \<Rightarrow> u64 \<Rightarrow> u32 \<Rightarrow> 's XFsblPs_PlPartition
    \<Rightarrow> (u32 \<times> u8 list list \<times> 's XFsblPs_PlPartition) option" where
  "XFsbl_PlSignVer pf sx BlockAdrs n AcOffset NoOfChunks P =
     Option.bind (sign_chunks pf sx BlockAdrs (unat NoOfChunks) 0 (ChunkSize P) n (XFsbl_ShaStart sx) []
                   (with_pl (sx_CsuDmaEndian sx 0) P)) (\<lambda>(Status, ctx, hashes, P).
       if Status \<noteq> XFSBL_SUCCESS then Some (Status, hashes, P)
       else
         let s = pl_machine P;
             hash = sx_Sha3Finish sx (sx_Sha3Update sx (mem_bytes pf s AcOffset (unat (XFSBL_AUTH_CERT_MIN_SIZE - XFSBL_FSBL_SIG_SIZE))) ctx)
         in Some (rsa_verify sx (spk_key pf s AcOffset) (signature_at pf s (AcOffset + PARTITION_SIG_OFFSET)) hash
                    XFSBL_ERROR_PART_RSA_DECRYPT XFSBL_FAILURE, hashes, P))"

section \<open>Configuring the PL\<close>

definition send_chunk ::
  "'s platform \<Rightarrow> ('s, 'h) secure \<Rightarrow> u32 \<Rightarrow> 's XFsblPs_PlPartition \<Rightarrow> (u32 \<times> 's XFsblPs_PlPartition) option" where
  "send_chunk pf sx Len P =
     (if \<not> IsEncrypted P then
        then_pl (\<lambda>s. XFsbl_DmaPlCopy pf (ChunkBuffer P) (Len div 4) False (write_reg pf CSU_CSU_SSS_CFG XFSBL_CSU_SSS_SRC_SRC_DMA s))
          (on_pl (XFsbl_PcapWaitForDone pf)) P
      else XFsbl_DecrptPlChunks pf sx (ChunkBuffer P) Len P)"

fun send_chunks ::
  "'s platform \<Rightarrow> ('s, 'h) secure \<Rightarrow> u64 \<Rightarrow> u8 list list \<Rightarrow> nat \<Rightarrow> u32 \<Rightarrow> u32 \<Rightarrow> u32 \<Rightarrow> 'h \<Rightarrow> 's XFsblPs_PlPartition
    \<Rightarrow> (u32 \<times> 's XFsblPs_PlPartition) option" where
  "send_chunks pf sx Address HashStored 0 Index Len HashDataLen ctx P = Some (XFSBL_SUCCESS, P)"
| "send_chunks pf sx Address HashStored (Suc n) Index Len HashDataLen ctx P =
     (let Len = (if n = 0 then HashDataLen else Len)
      in on_success (XFsbl_CopyData pf (ChunkBuffer P) (chunk_address P Address Index) Len P) (\<lambda>Status. Status) (\<lambda>P.
           let ctx = sx_Sha3Update sx (mem_bytes pf (pl_machine P) (ChunkBuffer P) (unat Len)) ctx
           in if XFsbl_CompareHashs (HashStored ! unat Index) (sx_Sha3ReadHash sx ctx) XFSBL_HASH_TYPE_SHA3 \<noteq> XFSBL_SUCCESS
              then Some (XFSBL_ERROR_CHUNK_HASH_COMPARISON, P)
              else on_success (send_chunk pf sx Len P) (\<lambda>Status. Status)
                     (send_chunks pf sx Address HashStored n (Index + 1) Len (HashDataLen - ChunkSize P) ctx)))"

definition XFsbl_ReAuthenticationBlock ::
  "'s platform \<Rightarrow> ('s, 'h) secure \<Rightarrow> u64 \<Rightarrow> u32 \<Rightarrow> u32 \<Rightarrow> u8 list list \<Rightarrow> 's XFsblPs_PlPartition
    \<Rightarrow> (u32 \<times> 's XFsblPs_PlPartition) option" where
  "XFsbl_ReAuthenticationBlock pf sx Address BlockLen NoOfChunks HashStored P =
     (if fst (sx_Sha3Initialize sx) \<noteq> XFSBL_SUCCESS then Some (fst (sx_Sha3Initialize sx), P)
      else send_chunks pf sx Address HashStored (unat NoOfChunks) 0 (ChunkSize P) BlockLen
             (sx_Sha3Start sx (snd (sx_Sha3Initialize sx))) P)"

definition no_of_chunks :: "u32 \<Rightarrow> u32 \<Rightarrow> u32" where
  "no_of_chunks n chunk = (if n > chunk then if n mod chunk > 0 then n div chunk + 1 else n div chunk else 1)"

definition XFsbl_PlBlockAuthentication ::
  "'s platform \<Rightarrow> ('s, 'h) secure \<Rightarrow> u8 list \<Rightarrow> u64 \<Rightarrow> u32 \<Rightarrow> u64 \<Rightarrow> 's XFsblPs_PlPartition
    \<Rightarrow> (u32 \<times> 's XFsblPs_PlPartition) option" where
  "XFsbl_PlBlockAuthentication pf sx PpkKey SrcAddress n AuthCer P =
     (let NoOfChunks = no_of_chunks n (ChunkSize P)
      in if NoOfChunks > NoOfHashs P then Some (XFSBL_ERROR_PROVIDED_BUF_HASH_STORE, P)
         else on_success (on_pl (\<lambda>s. Some (XFsbl_SpkVer pf sx PpkKey AuthCer s)) P) (\<lambda>Status. Status) (\<lambda>P.
           Option.bind (XFsbl_PlSignVer pf sx SrcAddress n AuthCer NoOfChunks P) (\<lambda>(Status, HashStored, P).
             if Status \<noteq> XFSBL_SUCCESS then Some (Status, P)
             else XFsbl_ReAuthenticationBlock pf sx SrcAddress n NoOfChunks HashStored P)))"

section \<open>The bitstream\<close>

text \<open>
  The length of the last block is what the total length leaves, with the index of the block in 8 bits.
  The loop over the blocks ends when the block size is not 0, as its caller checks.
\<close>

definition last_block_length :: "'s XFsblPs_PlPartition \<Rightarrow> u8 \<Rightarrow> u32" where
  "last_block_length P Index = TotalLen P - ucast Index * XFSBL_AUTH_CERT_MIN_SIZE - (ucast Index - 1) * BlockSize P"

partial_function (option) sec_blocks ::
  "'s platform \<Rightarrow> ('s, 'h) secure \<Rightarrow> u8 list \<Rightarrow> u64 \<Rightarrow> u64 \<Rightarrow> u8 \<Rightarrow> 's XFsblPs_PlPartition \<Rightarrow> (u32 \<times> 's XFsblPs_PlPartition) option" where
  "sec_blocks pf sx PpkKey SrcAddress CurrentAcOffset Index prm =
     (if SrcAddress < ucast (AcOfset prm) then
        on_success (XFsbl_CopyData pf (AuthCertBuf prm) CurrentAcOffset XFSBL_AUTH_CERT_MIN_SIZE prm) (\<lambda>Status. Status) (\<lambda>prm.
          let IsLastBlock = SrcAddress + ucast (BlockSize prm) > ucast (AcOfset prm);
              Len = (if IsLastBlock then last_block_length prm Index else BlockSize prm)
          in on_success (XFsbl_PlBlockAuthentication pf sx PpkKey SrcAddress Len (AuthCertBuf prm) prm) (\<lambda>Status. Status) (\<lambda>prm.
               if IsLastBlock then Some (XFSBL_SUCCESS, prm)
               else sec_blocks pf sx PpkKey (SrcAddress + ucast (BlockSize prm))
                      (CurrentAcOffset + ucast XFSBL_AUTH_CERT_MIN_SIZE) (Index + 1) prm))
      else Some (XFSBL_SUCCESS, prm))"

definition adma_reset_values :: "(u64 \<times> u32) list" where
  "adma_reset_values =
     [(ADMA_CH0 0x110, 0x80), (ADMA_CH0 0x138, 0), (ADMA_CH0 0x13C, 0), (ADMA_CH0 0x140, 0), (ADMA_CH0 0x144, 0),
      (ADMA_CH0 0x128, 0), (ADMA_CH0 0x12C, 0), (ADMA_CH0 0x130, 0), (ADMA_CH0 0x134, 0)]"

text \<open>The data cache is enabled again only when every block was accepted.\<close>

definition XFsbl_SecPlPartition ::
  "'s platform \<Rightarrow> ('s, 'h) secure \<Rightarrow> u8 list \<Rightarrow> 's XFsblPs_PlPartition \<Rightarrow> (u32 \<times> 's XFsblPs_PlPartition) option" where
  "XFsbl_SecPlPartition pf sx PpkKey P =
     (if \<not> IsAuthenticated P then Some (XFSBL_ERROR_SECURE_NOT_ENABLED, P)
      else
        let P = (if IsEncrypted P then P\<lparr>NextBlkLen := 0\<rparr> else P)
        in if IsEncrypted P \<and> PlAes P = None then Some (XFSBL_ERROR_SECURE_NOT_ENABLED, P)
           else if IsEncrypted P \<and> (case PlAes P of None \<Rightarrow> False | Some aes \<Rightarrow> KeySel aes = XSECURE_CSU_AES_KEY_SRC_KUP \<and> \<not> KeyGiven aes)
           then Some (XFSBL_FAILURE, P)
           else
             let P = with_pl (\<lambda>s. pf_DCacheDisable pf (update_reg pf (ADMA_CH0 0x110) (\<lambda>v. v AND (0x40 OR 0x30)) s)) P
             in on_success (sec_blocks pf sx PpkKey (StartAddress P) (ucast (AcOfset P)) 1 P) (\<lambda>Status. Status) (\<lambda>P.
                  Some (XFSBL_SUCCESS, with_pl (\<lambda>s. put_regs pf adma_reset_values (pf_DCacheEnable pf s)) P)))"

section \<open>Only what was signed reaches the PL\<close>

text \<open>The context after hashing a list of chunks, and what it is for a block to be signed.\<close>

definition hash_data :: "('s, 'h) secure \<Rightarrow> u8 list list \<Rightarrow> 'h" where
  "hash_data sx ds = fold (sx_Sha3Update sx) ds (XFsbl_ShaStart sx)"

definition block_signed :: "'s platform \<Rightarrow> ('s, 'h) secure \<Rightarrow> 's \<Rightarrow> u64 \<Rightarrow> u8 list list \<Rightarrow> bool" where
  "block_signed pf sx s ac ds \<longleftrightarrow>
     signature_ok sx (spk_key pf s ac) (signature_at pf s (ac + PARTITION_SIG_OFFSET))
       (sx_Sha3Finish sx (sx_Sha3Update sx (mem_bytes pf s ac 3264) (hash_data sx ds)))"

definition same_hashes :: "('s, 'h) secure \<Rightarrow> u8 list list \<Rightarrow> u8 list list \<Rightarrow> bool" where
  "same_hashes sx ds ts \<longleftrightarrow> length ts \<le> length ds \<and>
     (\<forall>k < length ts. take 48 (sx_Sha3ReadHash sx (hash_data sx (take (Suc k) ts))) =
        take 48 (sx_Sha3ReadHash sx (hash_data sx (take (Suc k) ds))))"

text \<open>
  The protocol of a signed bitstream. \<open>Hashing a ds\<close>: the key of the block at address \<open>a\<close> was accepted and the chunks
  \<open>ds\<close> have been hashed for the signature; \<open>Sending a ds ts\<close>: the block is signed, and of its chunks \<open>ts\<close> have been
  copied again and sent. Every step but a refusal is the function of the code, on the parameters of the bitstream and
  the machine they hold; one that fails ends the protocol.
\<close>

datatype pl_phase = Idle | Between | Certificate | Hashing u64 "u8 list list" | Sending u64 "u8 list list" "u8 list list"
  | Done | Stopped

definition unless_failed :: "u32 \<Rightarrow> pl_phase \<Rightarrow> pl_phase" where
  "unless_failed Status ph = (if Status = XFSBL_SUCCESS then ph else Stopped)"

definition same_hash :: "('s, 'h) secure \<Rightarrow> u8 list list \<Rightarrow> u8 list list \<Rightarrow> u8 list \<Rightarrow> bool" where
  "same_hash sx ds ts t \<longleftrightarrow> length ts < length ds \<and>
     take 48 (sx_Sha3ReadHash sx (hash_data sx (ts @ [t]))) = take 48 (sx_Sha3ReadHash sx (hash_data sx (take (Suc (length ts)) ds)))"

definition pl_start :: "'s platform \<Rightarrow> 's XFsblPs_PlPartition \<Rightarrow> 's XFsblPs_PlPartition" where
  "pl_start pf P = with_pl (\<lambda>s. pf_DCacheDisable pf (update_reg pf (ADMA_CH0 0x110) (\<lambda>v. v AND (0x40 OR 0x30)) s))
     (if IsEncrypted P then P\<lparr>NextBlkLen := 0\<rparr> else P)"

inductive pl_step ::
  "'s platform \<Rightarrow> ('s, 'h) secure \<Rightarrow> u8 list \<Rightarrow> pl_phase \<times> 's XFsblPs_PlPartition \<Rightarrow> pl_phase \<times> 's XFsblPs_PlPartition \<Rightarrow> bool"
  for pf sx PpkKey where
  Start: "IsAuthenticated P \<Longrightarrow> pl_step pf sx PpkKey (Idle, P) (Between, pl_start pf P)"
| Refuse: "pl_step pf sx PpkKey (Idle, P) (Stopped, P\<lparr>NextBlkLen := n\<rparr>)"
| Copy_certificate: "XFsbl_CopyData pf (AuthCertBuf P) c XFSBL_AUTH_CERT_MIN_SIZE P = Some (Status, P')
    \<Longrightarrow> pl_step pf sx PpkKey (Between, P) (unless_failed Status Certificate, P')"
| Check_key: "XFsbl_SpkVer pf sx PpkKey (AuthCertBuf P) (pl_machine P) = (Status, s)
    \<Longrightarrow> pl_step pf sx PpkKey (Certificate, P) (unless_failed Status (Hashing a []), P\<lparr>pl_machine := s\<rparr>)"
| Endianness: "pl_step pf sx PpkKey (Hashing a [], P) (Hashing a [], with_pl (sx_CsuDmaEndian sx 0) P)"
| Hash_chunk: "XFsbl_CopyData pf (ChunkBuffer P) (chunk_address P a (of_nat (length ds))) n P = Some (Status, P')
    \<Longrightarrow> pl_step pf sx PpkKey (Hashing a ds, P)
          (unless_failed Status (Hashing a (ds @ [mem_bytes pf (pl_machine P') (ChunkBuffer P') (unat n)])), P')"
| Signature: "block_signed pf sx (pl_machine P) (AuthCertBuf P) ds \<Longrightarrow> pl_step pf sx PpkKey (Hashing a ds, P) (Sending a ds [], P)"
| Send_chunk: "\<lbrakk>XFsbl_CopyData pf (ChunkBuffer P) (chunk_address P a (of_nat (length ts))) n P = Some (XFSBL_SUCCESS, Q);
      t = mem_bytes pf (pl_machine Q) (ChunkBuffer Q) (unat n); same_hash sx ds ts t; send_chunk pf sx n Q = Some (Status, P')\<rbrakk>
    \<Longrightarrow> pl_step pf sx PpkKey (Sending a ds ts, P) (unless_failed Status (Sending a ds (ts @ [t])), P')"
| Other_chunk: "XFsbl_CopyData pf (ChunkBuffer P) (chunk_address P a (of_nat (length ts))) n P = Some (Status, P')
    \<Longrightarrow> pl_step pf sx PpkKey (Sending a ds ts, P) (Stopped, P')"
| Block_sent: "length ts = length ds \<Longrightarrow> pl_step pf sx PpkKey (Sending a ds ts, P) (Between, P)"
| Abandon: "ph \<noteq> Idle \<Longrightarrow> ph \<noteq> Done \<Longrightarrow> pl_step pf sx PpkKey (ph, P) (Stopped, P)"
| Finish: "pl_step pf sx PpkKey (Between, P) (Done, with_pl (\<lambda>s. put_regs pf adma_reset_values (pf_DCacheEnable pf s)) P)"

abbreviation pl_run ::
  "'s platform \<Rightarrow> ('s, 'h) secure \<Rightarrow> u8 list \<Rightarrow> pl_phase \<times> 's XFsblPs_PlPartition \<Rightarrow> pl_phase \<times> 's XFsblPs_PlPartition \<Rightarrow> bool" where
  "pl_run pf sx PpkKey \<equiv> (pl_step pf sx PpkKey)\<^sup>*\<^sup>*"

lemma pl_run_step: "pl_step pf sx key p q \<Longrightarrow> pl_run pf sx key q r \<Longrightarrow> pl_run pf sx key p r"
  by (rule converse_rtranclp_into_rtranclp)

lemma pl_run_one: "pl_step pf sx key p q \<Longrightarrow> pl_run pf sx key p q"
  by (rule r_into_rtranclp)

lemma unless_failed_simps [simp]:
  "unless_failed XFSBL_SUCCESS ph = ph" "Status \<noteq> XFSBL_SUCCESS \<Longrightarrow> unless_failed Status ph = Stopped"
  by (simp_all add: unless_failed_def)

inductive_cases to_sendingE: "pl_step pf sx key (ph, P) (Sending a ds ts, Q)"
inductive_cases to_hashingE: "pl_step pf sx key (ph, P) (Hashing a ds, Q)"

text \<open>What the protocol guarantees of a block that is being sent.\<close>

definition key_accepted :: "'s platform \<Rightarrow> ('s, 'h) secure \<Rightarrow> u8 list \<Rightarrow> 's XFsblPs_PlPartition \<Rightarrow> 's XFsblPs_PlPartition \<Rightarrow> 's \<Rightarrow> bool" where
  "key_accepted pf sx key P C s \<longleftrightarrow> pl_run pf sx key (Idle, P) (Certificate, C) \<and>
     XFsbl_SpkVer pf sx key (AuthCertBuf C) (pl_machine C) = (XFSBL_SUCCESS, s)"

definition vouched :: "'s platform \<Rightarrow> ('s, 'h) secure \<Rightarrow> u8 list \<Rightarrow> 's XFsblPs_PlPartition \<Rightarrow> u64 \<Rightarrow> u8 list list \<Rightarrow> u8 list list \<Rightarrow> bool" where
  "vouched pf sx key P a ds ts \<longleftrightarrow> same_hashes sx ds ts \<and>
     (\<exists>C s R. key_accepted pf sx key P C s \<and>
        pl_run pf sx key (Hashing a [], C\<lparr>pl_machine := s\<rparr>) (Hashing a ds, R) \<and>
        block_signed pf sx (pl_machine R) (AuthCertBuf R) ds)"

lemma same_hashes_Nil: "same_hashes sx ds []"
  by (simp add: same_hashes_def)

lemma same_hashes_snoc: "same_hashes sx ds ts \<Longrightarrow> same_hash sx ds ts t \<Longrightarrow> same_hashes sx ds (ts @ [t])"
  by (auto simp: same_hashes_def same_hash_def less_Suc_eq)

lemma unless_failed_eq: "unless_failed Status ph = ph' \<Longrightarrow> ph' \<noteq> Stopped \<Longrightarrow> Status = XFSBL_SUCCESS \<and> ph = ph'"
  by (auto simp: unless_failed_def split: if_splits)

text \<open>A block is hashed only after its key was accepted, and sent only after its signature was.\<close>

lemma run_hashing:
  assumes "pl_run pf sx key (Idle, P) (Hashing a ds, Q)"
  shows "\<exists>C s. key_accepted pf sx key P C s \<and> pl_run pf sx key (Hashing a [], C\<lparr>pl_machine := s\<rparr>) (Hashing a ds, Q)"
  using assms
proof (induction "(Hashing a ds, Q)" arbitrary: ds Q rule: rtranclp_induct)
  case (step p)
  obtain ph1 P1 where p: "p = (ph1, P1)" by (cases p)
  from step.hyps(2) [unfolded p] show ?case
  proof (rule to_hashingE, goal_cases)
    case (2 Status s b)
    then have "key_accepted pf sx key P P1 s \<and> ds = [] \<and> Q = P1\<lparr>pl_machine := s\<rparr>"
      using step.hyps(1) by (auto simp: key_accepted_def p unless_failed_def split: if_splits)
    then show ?case by blast
  next
    case 3
    with step.hyps(3) [of "[]" P1] have "\<exists>C s. key_accepted pf sx key P C s \<and> pl_run pf sx key (Hashing a [], C\<lparr>pl_machine := s\<rparr>) p"
      by (auto simp: p)
    with step.hyps(2) show ?case by (blast intro: rtranclp.rtrancl_into_rtrancl)
  next
    case (4 b ds1 n Status)
    then have "ph1 = Hashing a ds1" by (auto simp: unless_failed_def split: if_splits)
    with step.hyps(3) [of ds1 P1] have "\<exists>C s. key_accepted pf sx key P C s \<and> pl_run pf sx key (Hashing a [], C\<lparr>pl_machine := s\<rparr>) p"
      by (auto simp: p)
    with step.hyps(2) show ?case by (blast intro: rtranclp.rtrancl_into_rtrancl)
  qed (auto simp: unless_failed_def split: if_splits)
qed

lemma run_vouched:
  assumes "pl_run pf sx key (Idle, P) (Sending a ds ts, Q)"
  shows "vouched pf sx key P a ds ts"
proof -
  have "same_hashes sx ds ts \<and> (\<exists>R. pl_run pf sx key (Idle, P) (Hashing a ds, R) \<and> block_signed pf sx (pl_machine R) (AuthCertBuf R) ds)"
    using assms
  proof (induction "(Sending a ds ts, Q)" arbitrary: ts Q rule: rtranclp_induct)
    case (step p)
    obtain ph1 P1 where p: "p = (ph1, P1)" by (cases p)
    from step.hyps(2) [unfolded p] show ?case
      by (rule to_sendingE) (use step.hyps(1,3) in \<open>auto simp: p unless_failed_def same_hashes_Nil same_hashes_snoc split: if_splits\<close>)
  qed
  then show ?thesis unfolding vouched_def using run_hashing by blast
qed

section \<open>The code follows the protocol\<close>

definition running_hashes :: "('s, 'h) secure \<Rightarrow> u8 list list \<Rightarrow> u8 list list" where
  "running_hashes sx ds = map (\<lambda>k. sx_Sha3ReadHash sx (hash_data sx (take (Suc k) ds))) [0..<length ds]"

lemma running_hashes_snoc: "running_hashes sx (ds @ [d]) = running_hashes sx ds @ [sx_Sha3ReadHash sx (hash_data sx (ds @ [d]))]"
  by (simp add: running_hashes_def)

lemma hash_data_snoc: "hash_data sx (ds @ [d]) = sx_Sha3Update sx d (hash_data sx ds)"
  by (simp add: hash_data_def)

lemma CopyData_same: "XFsbl_CopyData pf d a n P = Some (Status, P') \<Longrightarrow> AuthCertBuf P' = AuthCertBuf P \<and> ChunkBuffer P' = ChunkBuffer P"
  by (auto simp: XFsbl_CopyData_def on_pl_def)

lemma sign_chunks_run:
  assumes "sign_chunks pf sx a n (of_nat (length ds)) Len rest (hash_data sx ds) (running_hashes sx ds) P = Some (Status, ctx, hashes, P')"
  shows "\<exists>ds'. pl_run pf sx key (Hashing a ds, P) (unless_failed Status (Hashing a ds'), P') \<and> AuthCertBuf P' = AuthCertBuf P \<and>
    (Status = XFSBL_SUCCESS \<longrightarrow> length ds' = length ds + n \<and> ctx = hash_data sx ds' \<and> hashes = running_hashes sx ds')"
  using assms
proof (induction n arbitrary: Len rest ds P)
  case 0
  then show ?case by auto
next
  case (Suc n)
  define l where "l = (if n = 0 \<or> rest < ChunkSize P then rest else Len)"
  from Suc.prems obtain St P1 where c: "XFsbl_CopyData pf (ChunkBuffer P) (chunk_address P a (of_nat (length ds))) l P = Some (St, P1)"
    by (auto simp: Let_def l_def [symmetric] bind_eq_Some_conv)
  note step = pl_step.Hash_chunk [OF c, of sx key] and f = CopyData_same [OF c]
  show ?case
  proof (cases "St = XFSBL_SUCCESS")
    case False
    with Suc.prems c have "Status = St" "P' = P1" by (auto simp: Let_def l_def [symmetric])
    with False step f show ?thesis by (auto intro!: pl_run_one)
  next
    case True
    define d where "d = mem_bytes pf (pl_machine P1) (ChunkBuffer P1) (unat l)"
    have "sign_chunks pf sx a n (of_nat (length (ds @ [d]))) l (if n \<noteq> 0 then rest - ChunkSize P1 else rest) (hash_data sx (ds @ [d]))
        (running_hashes sx (ds @ [d])) P1 = Some (Status, ctx, hashes, P')"
      using Suc.prems c True
      by (simp add: Let_def l_def [symmetric] d_def [symmetric] hash_data_snoc running_hashes_snoc add.commute)
    from Suc.IH [OF this] obtain ds' where "pl_run pf sx key (Hashing a (ds @ [d]), P1) (unless_failed Status (Hashing a ds'), P')"
      "AuthCertBuf P' = AuthCertBuf P1"
      "Status = XFSBL_SUCCESS \<longrightarrow> length ds' = length ds + Suc n \<and> ctx = hash_data sx ds' \<and> hashes = running_hashes sx ds'"
      by auto
    moreover have "pl_step pf sx key (Hashing a ds, P) (Hashing a (ds @ [d]), P1)" using step True by (simp add: d_def)
    ultimately show ?thesis using f by (metis pl_run_step)
  qed
qed

lemma running_hashes_nth: "k < length ds \<Longrightarrow> running_hashes sx ds ! k = sx_Sha3ReadHash sx (hash_data sx (take (Suc k) ds))"
  by (simp add: running_hashes_def)

lemma send_chunks_run:
  assumes l: "length ds < 2 ^ 32" and "length ts + n = length ds"
    and "send_chunks pf sx a (running_hashes sx ds) n (of_nat (length ts)) Len rest (hash_data sx ts) P = Some (Status, P')"
  shows "pl_run pf sx key (Sending a ds ts, P) (unless_failed Status Between, P')"
  using assms(2-)
proof (induction n arbitrary: Len rest ts P)
  case 0
  then show ?case by (auto intro!: pl_run_one pl_step.Block_sent)
next
  case (Suc n)
  define l where "l = (if n = 0 then rest else Len)"
  have i: "unat (of_nat (length ts) :: u32) = length ts" using Suc.prems(1) assms(1) by (simp add: unat_of_nat_small)
  from Suc.prems(2) obtain St P1 where c: "XFsbl_CopyData pf (ChunkBuffer P) (chunk_address P a (of_nat (length ts))) l P = Some (St, P1)"
    by (auto simp: Let_def l_def [symmetric] on_success_def bind_eq_Some_conv)
  define t where "t = mem_bytes pf (pl_machine P1) (ChunkBuffer P1) (unat l)"
  have same: "XFsbl_CompareHashs (running_hashes sx ds ! length ts) (sx_Sha3ReadHash sx (sx_Sha3Update sx t (hash_data sx ts)))
      XFSBL_HASH_TYPE_SHA3 = XFSBL_SUCCESS \<longleftrightarrow> same_hash sx ds ts t"
    using Suc.prems(1) by (auto simp: same_hash_def running_hashes_nth XFsbl_CompareHashs_def hash_data_snoc)
  have r: "(if St \<noteq> XFSBL_SUCCESS then Some (St, P1)
      else if \<not> same_hash sx ds ts t then Some (XFSBL_ERROR_CHUNK_HASH_COMPARISON, P1)
      else on_success (send_chunk pf sx l P1) (\<lambda>Status. Status)
        (send_chunks pf sx a (running_hashes sx ds) n (of_nat (length (ts @ [t]))) l (rest - ChunkSize P1) (hash_data sx (ts @ [t])))) = Some (Status, P')"
    using Suc.prems(2) c i
    by (simp add: Let_def l_def [symmetric] on_success_def t_def [symmetric] hash_data_snoc [of sx ts t] same add.commute
        split: if_splits)
  show ?case
  proof (cases "St = XFSBL_SUCCESS \<and> same_hash sx ds ts t")
    case False
    with r have "Status \<noteq> XFSBL_SUCCESS" "P' = P1" by (auto split: if_splits)
    with pl_step.Other_chunk [OF c, of sx key ds] show ?thesis by (auto intro!: pl_run_one)
  next
    case True
    from r True have "on_success (send_chunk pf sx l P1) (\<lambda>Status. Status)
        (send_chunks pf sx a (running_hashes sx ds) n (of_nat (length (ts @ [t]))) l (rest - ChunkSize P1) (hash_data sx (ts @ [t]))) = Some (Status, P')"
      by (simp del: length_append)
    then obtain St2 P2 where s: "send_chunk pf sx l P1 = Some (St2, P2)"
      and e: "(if St2 \<noteq> XFSBL_SUCCESS then Some (St2, P2)
        else send_chunks pf sx a (running_hashes sx ds) n (of_nat (length (ts @ [t]))) l (rest - ChunkSize P1) (hash_data sx (ts @ [t])) P2) = Some (Status, P')"
      by (auto simp: on_success_def bind_eq_Some_conv simp del: length_append)
    have step: "pl_step pf sx key (Sending a ds ts, P) (unless_failed St2 (Sending a ds (ts @ [t])), P2)"
      by (rule pl_step.Send_chunk [OF _ t_def _ s]) (use c True in simp_all)
    show ?thesis
    proof (cases "St2 = XFSBL_SUCCESS")
      case False
      with e step show ?thesis by (auto intro!: pl_run_one)
    next
      case True
      have "pl_run pf sx key (Sending a ds (ts @ [t]), P2) (unless_failed Status Between, P')"
        by (rule Suc.IH) (use Suc.prems(1) e True in simp_all)
      with step True show ?thesis by (auto intro: pl_run_step)
    qed
  qed
qed

lemma hash_data_Nil: "hash_data sx [] = XFsbl_ShaStart sx"
  by (simp add: hash_data_def)

lemma running_hashes_Nil: "running_hashes sx [] = []"
  by (simp add: running_hashes_def)

lemma rsa_verify_success: "rsa_verify sx k sig h e XFSBL_FAILURE = XFSBL_SUCCESS \<Longrightarrow> e \<noteq> XFSBL_SUCCESS \<Longrightarrow> signature_ok sx k sig h"
  by (auto simp: signature_ok_def rsa_verify_def split: if_splits prod.splits)

lemma PlSignVer_run:
  assumes "XFsbl_PlSignVer pf sx a n (AuthCertBuf P) NoOfChunks P = Some (Status, hashes, P')"
  shows "\<exists>ds. pl_run pf sx key (Hashing a [], P) (unless_failed Status (Sending a ds []), P') \<and>
    (Status = XFSBL_SUCCESS \<longrightarrow> length ds = unat NoOfChunks \<and> hashes = running_hashes sx ds)"
proof -
  define Q where "Q = with_pl (sx_CsuDmaEndian sx 0) P"
  have e: "pl_step pf sx key (Hashing a [], P) (Hashing a [], Q)" "AuthCertBuf Q = AuthCertBuf P"
    by (simp_all add: Q_def pl_step.Endianness) (simp add: with_pl_def)
  from assms obtain St ctx where s: "sign_chunks pf sx a (unat NoOfChunks) (of_nat (length ([] :: u8 list list))) (ChunkSize P) n (hash_data sx []) (running_hashes sx []) Q
      = Some (St, ctx, hashes, P')"
    and v: "St = XFSBL_SUCCESS \<Longrightarrow> Status = rsa_verify sx (spk_key pf (pl_machine P') (AuthCertBuf P))
      (signature_at pf (pl_machine P') (AuthCertBuf P + PARTITION_SIG_OFFSET))
      (sx_Sha3Finish sx (sx_Sha3Update sx (mem_bytes pf (pl_machine P') (AuthCertBuf P) 3264) ctx)) XFSBL_ERROR_PART_RSA_DECRYPT XFSBL_FAILURE"
    and f: "St \<noteq> XFSBL_SUCCESS \<Longrightarrow> Status = St"
    unfolding XFsbl_PlSignVer_def Q_def hash_data_Nil running_hashes_Nil
    by (auto simp: bind_eq_Some_conv Let_def split: if_splits)
  from sign_chunks_run [OF s, of key] obtain ds where
    r: "pl_run pf sx key (Hashing a [], Q) (unless_failed St (Hashing a ds), P')" "AuthCertBuf P' = AuthCertBuf Q"
    and ds: "St = XFSBL_SUCCESS \<longrightarrow> length ds = unat NoOfChunks \<and> ctx = hash_data sx ds \<and> hashes = running_hashes sx ds"
    by auto
  from e(1) r(1) have run: "pl_run pf sx key (Hashing a [], P) (unless_failed St (Hashing a ds), P')" by (rule pl_run_step)
  show ?thesis
  proof (cases "St = XFSBL_SUCCESS")
    case False
    with f run show ?thesis by auto
  next
    case True
    show ?thesis
    proof (cases "Status = XFSBL_SUCCESS")
      case ok: True
      have "block_signed pf sx (pl_machine P') (AuthCertBuf P') ds"
        using v [OF True] ok ds True r(2) e(2) unfolding block_signed_def by simp
      from pl_step.Signature [OF this, of key a] run True ok ds show ?thesis
        by (auto intro: rtranclp.rtrancl_into_rtrancl)
    next
      case False
      from pl_step.Abandon [of "Hashing a ds" pf sx key P'] run True False show ?thesis
        by (auto intro: rtranclp.rtrancl_into_rtrancl)
    qed
  qed
qed

lemma PlBlockAuthentication_run:
  assumes "XFsbl_PlBlockAuthentication pf sx key a n (AuthCertBuf P) P = Some (Status, P')"
  shows "pl_run pf sx key (Certificate, P) (unless_failed Status Between, P')"
proof (cases "no_of_chunks n (ChunkSize P) > NoOfHashs P")
  case True
  with assms have "Status \<noteq> XFSBL_SUCCESS" "P' = P" by (auto simp: XFsbl_PlBlockAuthentication_def)
  then show ?thesis by (auto intro!: pl_run_one pl_step.Abandon)
next
  case False
  define N where "N = no_of_chunks n (ChunkSize P)"
  obtain k s1 where k: "XFsbl_SpkVer pf sx key (AuthCertBuf P) (pl_machine P) = (k, s1)"
    by (cases "XFsbl_SpkVer pf sx key (AuthCertBuf P) (pl_machine P)")
  define P1 where "P1 = P\<lparr>pl_machine := s1\<rparr>"
  have b: "AuthCertBuf P1 = AuthCertBuf P" by (simp add: P1_def)
  have s1: "pl_step pf sx key (Certificate, P) (unless_failed k (Hashing a []), P1)"
    using pl_step.Check_key [OF k] by (simp add: P1_def)
  show ?thesis
  proof (cases "k = XFSBL_SUCCESS")
    case False
    with assms k \<open>\<not> _ > _\<close> have "Status = k" "P' = P1"
      by (auto simp: XFsbl_PlBlockAuthentication_def on_pl_def on_success_def P1_def Let_def)
    with s1 False show ?thesis by (auto intro!: pl_run_one)
  next
    case True
    with assms k \<open>\<not> _ > _\<close> have "Option.bind (XFsbl_PlSignVer pf sx a n (AuthCertBuf P1) N P1) (\<lambda>(St, hashes, P2).
        if St \<noteq> XFSBL_SUCCESS then Some (St, P2) else XFsbl_ReAuthenticationBlock pf sx a n N hashes P2) = Some (Status, P')"
      unfolding N_def P1_def by (simp add: XFsbl_PlBlockAuthentication_def on_pl_def on_success_def Let_def)
    then obtain St hashes P2 where v: "XFsbl_PlSignVer pf sx a n (AuthCertBuf P1) N P1 = Some (St, hashes, P2)"
      and r: "(if St \<noteq> XFSBL_SUCCESS then Some (St, P2) else XFsbl_ReAuthenticationBlock pf sx a n N hashes P2) = Some (Status, P')"
      by (cases "XFsbl_PlSignVer pf sx a n (AuthCertBuf P1) N P1") auto
    from PlSignVer_run [OF v, of key] obtain ds where
      r2: "pl_run pf sx key (Hashing a [], P1) (unless_failed St (Sending a ds []), P2)"
      and ds: "St = XFSBL_SUCCESS \<longrightarrow> length ds = unat N \<and> hashes = running_hashes sx ds" by blast
    from s1 True r2 have to: "pl_run pf sx key (Certificate, P) (unless_failed St (Sending a ds []), P2)"
      by (auto intro: pl_run_step)
    consider (bad) "St \<noteq> XFSBL_SUCCESS" | (init) "St = XFSBL_SUCCESS" "fst (sx_Sha3Initialize sx) \<noteq> XFSBL_SUCCESS"
      | (ok) "St = XFSBL_SUCCESS" "fst (sx_Sha3Initialize sx) = XFSBL_SUCCESS" by blast
    then show ?thesis
    proof cases
      case bad
      with r to show ?thesis by auto
    next
      case init
      with r have "Status \<noteq> XFSBL_SUCCESS" "P' = P2" by (auto simp: XFsbl_ReAuthenticationBlock_def)
      with to init pl_step.Abandon [of "Sending a ds []" pf sx key P2] show ?thesis
        by (auto intro: rtranclp.rtrancl_into_rtrancl)
    next
      case ok
      have l: "length ds < 2 ^ 32" using ds ok unsigned_less [of N] by simp
      have "send_chunks pf sx a (running_hashes sx ds) (unat N) (of_nat (length ([] :: u8 list list))) (ChunkSize P2) n (hash_data sx []) P2 = Some (Status, P')"
        using r ok ds by (simp add: XFsbl_ReAuthenticationBlock_def hash_data_Nil XFsbl_ShaStart_def)
      from send_chunks_run [OF l _ this, of key] ds ok to show ?thesis by (auto intro: rtranclp_trans)
    qed
  qed
qed

lemma sec_blocks_run:
  assumes "sec_blocks pf sx key a ac Index P = Some (Status, P')"
  shows "pl_run pf sx key (Between, P) (unless_failed Status Between, P')"
proof -
  have "\<forall>Status P'. r = (Status, P') \<longrightarrow> pl_run pf sx key (Between, P) (unless_failed Status Between, P')"
    if "sec_blocks pf sx key a ac Index P = Some r" for r
  proof (rule sec_blocks.raw_induct [OF _ that, where P = "\<lambda>pf sx key a ac Index P r.
        \<forall>Status P'. r = (Status, P') \<longrightarrow> pl_run pf sx key (Between, P) (unless_failed Status Between, P')"], goal_cases)
    case (1 loop pf sx key a ac Index P r)
    show ?case
    proof (cases "a < ucast (AcOfset P)")
      case False
      with 1(2) show ?thesis by auto
    next
      case True
      define Last where "Last = (\<lambda>P :: 'a XFsblPs_PlPartition. a + ucast (BlockSize P) > ucast (AcOfset P))"
      from 1(2) True obtain St1 P1 where c: "XFsbl_CopyData pf (AuthCertBuf P) ac XFSBL_AUTH_CERT_MIN_SIZE P = Some (St1, P1)"
        by (auto simp: on_success_def bind_eq_Some_conv)
      note c1 = pl_step.Copy_certificate [OF c, of sx key]
      show ?thesis
      proof (cases "St1 = XFSBL_SUCCESS")
        case False
        with 1(2) True c have "r = (St1, P1)" by (auto simp: on_success_def)
        with c1 False show ?thesis by (auto intro!: pl_run_one)
      next
        case ok: True
        then have "Option.bind (XFsbl_PlBlockAuthentication pf sx key a
            (if Last P1 then last_block_length P1 Index else BlockSize P1) (AuthCertBuf P1) P1) (\<lambda>(St2, P2).
              if St2 \<noteq> XFSBL_SUCCESS then Some (St2, P2) else if Last P1 then Some (XFSBL_SUCCESS, P2)
              else loop pf sx key (a + ucast (BlockSize P2)) (ac + ucast XFSBL_AUTH_CERT_MIN_SIZE) (Index + 1) P2) = Some r"
          using 1(2) True c unfolding Last_def by (simp add: on_success_def Let_def)
        then obtain St2 P2 where b: "XFsbl_PlBlockAuthentication pf sx key a
            (if Last P1 then last_block_length P1 Index else BlockSize P1) (AuthCertBuf P1) P1 = Some (St2, P2)"
          and r: "(if St2 \<noteq> XFSBL_SUCCESS then Some (St2, P2) else if Last P1 then Some (XFSBL_SUCCESS, P2)
            else loop pf sx key (a + ucast (BlockSize P2)) (ac + ucast XFSBL_AUTH_CERT_MIN_SIZE) (Index + 1) P2) = Some r"
          by (auto simp only: bind_eq_Some_conv split: prod.splits)
        from c1 ok PlBlockAuthentication_run [OF b] have s: "pl_run pf sx key (Between, P) (unless_failed St2 Between, P2)"
          by (auto intro: pl_run_step)
        show ?thesis
        proof (cases "St2 = XFSBL_SUCCESS \<and> \<not> Last P1")
          case False
          with r s show ?thesis by (auto split: if_splits)
        next
          case True
          with r 1(1) have "\<forall>Status P'. r = (Status, P') \<longrightarrow> pl_run pf sx key (Between, P2) (unless_failed Status Between, P')" by simp
          with s True show ?thesis by (auto intro: rtranclp_trans)
        qed
      qed
    qed
  qed
  with assms show ?thesis by blast
qed

lemma SecPlPartition_cases:
  assumes "XFsbl_SecPlPartition pf sx key P = Some (Status, P')"
  shows "(Status \<noteq> XFSBL_SUCCESS \<and> (P' = P \<or> P' = P\<lparr>NextBlkLen := 0\<rparr>)) \<or>
    (IsAuthenticated P \<and> on_success (sec_blocks pf sx key (StartAddress (pl_start pf P)) (ucast (AcOfset (pl_start pf P))) 1 (pl_start pf P))
      (\<lambda>Status. Status) (\<lambda>P. Some (XFSBL_SUCCESS, with_pl (\<lambda>s. put_regs pf adma_reset_values (pf_DCacheEnable pf s)) P)) = Some (Status, P'))"
  using assms unfolding XFsbl_SecPlPartition_def Let_def pl_start_def by (auto split: if_splits)

lemma SecPlPartition_run:
  assumes "XFsbl_SecPlPartition pf sx key P = Some (Status, P')"
  shows "pl_run pf sx key (Idle, P) (unless_failed Status Done, P')"
  using SecPlPartition_cases [OF assms]
proof (elim disjE conjE)
  assume s: "Status \<noteq> XFSBL_SUCCESS" and "P' = P"
  then have "P' = P\<lparr>NextBlkLen := NextBlkLen P\<rparr>" by simp
  with s pl_step.Refuse [of pf sx key P "NextBlkLen P"] show ?thesis by (auto intro!: pl_run_one)
next
  assume "Status \<noteq> XFSBL_SUCCESS" "P' = P\<lparr>NextBlkLen := 0\<rparr>"
  with pl_step.Refuse [of pf sx key P 0] show ?thesis by (auto intro!: pl_run_one)
next
  define Q where "Q = pl_start pf P"
  assume "IsAuthenticated P"
  then have s: "pl_step pf sx key (Idle, P) (Between, Q)" unfolding Q_def by (rule pl_step.Start)
  assume "on_success (sec_blocks pf sx key (StartAddress (pl_start pf P)) (ucast (AcOfset (pl_start pf P))) 1 (pl_start pf P))
      (\<lambda>Status. Status) (\<lambda>P. Some (XFSBL_SUCCESS, with_pl (\<lambda>s. put_regs pf adma_reset_values (pf_DCacheEnable pf s)) P)) = Some (Status, P')"
  then obtain St R where b: "sec_blocks pf sx key (StartAddress Q) (ucast (AcOfset Q)) 1 Q = Some (St, R)"
    and e: "if St = XFSBL_SUCCESS then Status = XFSBL_SUCCESS \<and> P' = with_pl (\<lambda>s. put_regs pf adma_reset_values (pf_DCacheEnable pf s)) R
      else Status = St \<and> P' = R"
    unfolding Q_def [symmetric] by (auto simp: on_success_def bind_eq_Some_conv split: if_splits)
  have r: "pl_run pf sx key (Idle, P) (unless_failed St Between, R)" by (rule pl_run_step [OF s sec_blocks_run [OF b]])
  show ?thesis
  proof (cases "St = XFSBL_SUCCESS")
    case True
    with e r pl_step.Finish [of pf sx key R] show ?thesis by (auto intro: rtranclp.rtrancl_into_rtrancl)
  next
    case False
    with e r show ?thesis by simp
  qed
qed

text \<open>
  C11. Whatever the memory does between the two copies of a chunk, and whether the bitstream is accepted in the
  end or not, a call of \<open>XFsbl_SecPlPartition\<close> that returns is a run of the protocol from \<open>Idle\<close>, on the parameters
  it is given, that ends in \<open>Done\<close> with the parameters it returns when it reports success and in \<open>Stopped\<close> otherwise.
  And whenever the protocol has sent the chunks \<open>ts\<close> of a block to the PL or to the AES engine, the secondary key in
  the certificate of the block was accepted under the primary key, the chunks \<open>ds\<close> hashed after that were accepted
  by the signature in the certificate, and the running hash after every chunk of \<open>ts\<close> is the one after the same
  number of chunks of \<open>ds\<close>.
\<close>

theorem only_signed_chunks_sent:
  assumes "XFsbl_SecPlPartition pf sx PpkKey P = Some (Status, P')"
  shows "(pl_step pf sx PpkKey)\<^sup>*\<^sup>* (Idle, P) (unless_failed Status Done, P') \<and>
    (\<forall>a ds ts Q. (pl_step pf sx PpkKey)\<^sup>*\<^sup>* (Idle, P) (Sending a ds ts, Q) \<longrightarrow> vouched pf sx PpkKey P a ds ts)"
  using SecPlPartition_run [OF assms] run_vouched by blast

section \<open>An example\<close>

text \<open>One block of one chunk of sixteen bytes, with the certificate of \<open>demo_signed\<close>; the DMA is always done.\<close>

definition demo_pl :: "demo XFsblPs_PlPartition" where
  "demo_pl = \<lparr>IsAuthenticated = True, IsEncrypted = False, StartAddress = 0x100000, TotalLen = 3792, ChunkSize = 16,
     ChunkBuffer = 0x400000, PlDeviceCopy = None, PlAes = None, NextBlkLen = 0, AuthCertBuf = 0x200000, AcOfset = 0x100010,
     NoOfHashs = 149, BlockSize = 32, Hdr = 0,
     pl_machine = ((fst demo_signed)(0xFFA80100 := 0x400, CSU_PCAP_STATUS := 1), snd demo_signed)\<rparr>"

definition demo_ready :: "demo \<Rightarrow> bool" where
  "demo_ready s \<longleftrightarrow> snd s = snd demo_signed \<and> fst s 0xFFA80100 = 0x400 \<and> fst s 0xFFA8011C = 0 \<and>
     fst s CSU_PCAP_STATUS = 1 \<and> (\<forall>a. is_fuse a \<longrightarrow> fst s a = fst demo_signed a)"

lemma demo_view: "demo_ready s \<Longrightarrow> same_view demo_platform demo_signed s"
  by (cases s, cases demo_signed) (auto simp: demo_ready_def same_view_def)

lemma demo_AdmaCopy:
  assumes "demo_ready s" shows "\<exists>s'. XFsbl_AdmaCopy demo_platform d a n s = Some (XFSBL_SUCCESS, s') \<and> demo_ready s'"
  using assms by (cases s) (auto simp: XFsbl_AdmaCopy_def demo_ready_def is_fuse_def)

lemma demo_SpkVer:
  assumes "demo_ready s"
  shows "XFsbl_SpkVer demo_platform demo_secure (replicate 1088 0) 0x200000 s = (XFSBL_SUCCESS, s)"
proof -
  have "fst (XFsbl_SpkVer demo_platform demo_secure (replicate 1088 0) 0x200000 s) = XFSBL_SUCCESS"
    unfolding SpkVer_iff(1) [OF demo_quiet] using demo_csu_dma demo_trusted trusted_view(2) [OF demo_view [OF assms]] by blast
  then show ?thesis using demo_SpkVer_keeps by (simp add: prod_eq_iff)
qed

definition demo_at :: "demo \<Rightarrow> demo XFsblPs_PlPartition" where
  "demo_at s = demo_pl\<lparr>pl_machine := s\<rparr>"

lemma demo_at_simps [simp]:
  "IsEncrypted (demo_at s) = False" "ChunkSize (demo_at s) = 16" "ChunkBuffer (demo_at s) = 0x400000"
  "AuthCertBuf (demo_at s) = 0x200000" "AcOfset (demo_at s) = 0x100010" "NoOfHashs (demo_at s) = 149"
  "BlockSize (demo_at s) = 32" "pl_machine (demo_at s) = s" "last_block_length (demo_at s) 1 = 16"
  "(demo_at s)\<lparr>pl_machine := s'\<rparr> = demo_at s'" "IsAuthenticated (demo_at s)" "PlAes (demo_at s) = None"
  "StartAddress (demo_at s) = 0x100000" "PlDeviceCopy (demo_at s) = None"
  by (simp_all add: demo_at_def demo_pl_def last_block_length_def)

lemma demo_CopyData:
  assumes "demo_ready s"
  shows "\<exists>s'. XFsbl_CopyData demo_platform d a n (demo_at s) = Some (XFSBL_SUCCESS, demo_at s') \<and> demo_ready s'"
  using demo_AdmaCopy [OF assms, of d a n] by (auto simp: XFsbl_CopyData_def on_pl_def)

definition demo_data :: "u8 list" where
  "demo_data = map (\<lambda>_. 0) [0..<16]"

lemma demo_buffer: "demo_ready s \<Longrightarrow> mem_bytes demo_platform s 0x400000 16 = demo_data"
  by (cases s) (simp add: demo_ready_def demo_signed_def upt_rec demo_data_def)

lemma demo_sign:
  assumes "demo_ready s"
  shows "\<exists>s'. XFsbl_PlSignVer demo_platform demo_secure 0x100000 16 0x200000 1 (demo_at s) =
    Some (XFSBL_SUCCESS, [demo_data], demo_at s') \<and> demo_ready s'"
proof -
  obtain s' where c: "XFsbl_CopyData demo_platform 0x400000 0x100000 16 (demo_at s) = Some (XFSBL_SUCCESS, demo_at s')"
    and r: "demo_ready s'" using demo_CopyData [OF assms] by blast
  have "with_pl (sx_CsuDmaEndian demo_secure 0) (demo_at s) = demo_at s" by (simp add: with_pl_def demo_secure_def)
  then have "XFsbl_PlSignVer demo_platform demo_secure 0x100000 16 0x200000 1 (demo_at s) =
    Some (rsa_verify demo_secure (spk_key demo_platform s' 0x200000) (signature_at demo_platform s' (0x200000 + PARTITION_SIG_OFFSET))
      (demo_data @ mem_bytes demo_platform s' 0x200000 3264) XFSBL_ERROR_PART_RSA_DECRYPT XFSBL_FAILURE, [demo_data], demo_at s')"
    using c demo_buffer [OF r]
    by (simp add: XFsbl_PlSignVer_def chunk_address_def Let_def demo_secure_def XFsbl_ShaStart_def)
  moreover have "signature_ok demo_secure (spk_key demo_platform s' 0x200000)
    (signature_at demo_platform s' (0x200000 + PARTITION_SIG_OFFSET)) (demo_data @ mem_bytes demo_platform s' 0x200000 3264)"
    using r by (simp add: signature_ok_def demo_secure_def signature_at_def take_mem_bytes)
      (cases s', simp add: demo_ready_def demo_signed_def demo_data_def upt_rec)
  ultimately show ?thesis using r by (intro exI [of _ s']) simp
qed

lemma demo_send:
  assumes "demo_ready s"
  shows "\<exists>s'. send_chunk demo_platform demo_secure 16 (demo_at s) = Some (XFSBL_SUCCESS, demo_at s') \<and> demo_ready s'"
proof -
  have "XFsbl_DmaPlCopy demo_platform b n e s = Some s" for b n e s
    by (simp add: XFsbl_DmaPlCopy_def demo_platform_def)
  then have "send_chunk demo_platform demo_secure 16 (demo_at s) = Some (XFSBL_SUCCESS, demo_at ((fst s)(CSU_CSU_SSS_CFG := 5), snd s))"
    using assms by (cases s) (simp add: send_chunk_def then_pl_def on_pl_def XFsbl_PcapWaitForDone_def demo_ready_def)
  moreover have "demo_ready ((fst s)(CSU_CSU_SSS_CFG := 5), snd s)"
    using assms by (simp add: demo_ready_def is_fuse_def)
  ultimately show ?thesis by blast
qed

lemma demo_pl_run: "\<exists>P'. XFsbl_SecPlPartition demo_platform demo_secure (replicate 1088 0) demo_pl = Some (XFSBL_SUCCESS, P')"
proof -
  define s0 where "s0 = pl_machine demo_pl"
  define s1 where "s1 = update_reg demo_platform (ADMA_CH0 0x110) (\<lambda>v. v AND 0x70) s0"
  have "demo_ready s1"
    by (simp add: s1_def s0_def demo_pl_def demo_ready_def demo_signed_def is_fuse_def)
  then obtain s2 where c: "XFsbl_CopyData demo_platform 0x200000 0x100010 3776 (demo_at s1) = Some (XFSBL_SUCCESS, demo_at s2)"
    and r2: "demo_ready s2" using demo_CopyData by blast
  from demo_sign [OF r2] obtain s3 where v: "XFsbl_PlSignVer demo_platform demo_secure 0x100000 16 0x200000 1 (demo_at s2) =
      Some (XFSBL_SUCCESS, [demo_data], demo_at s3)" and r3: "demo_ready s3" by blast
  obtain s4 where c4: "XFsbl_CopyData demo_platform 0x400000 0x100000 16 (demo_at s3) = Some (XFSBL_SUCCESS, demo_at s4)"
    and r4: "demo_ready s4" using demo_CopyData [OF r3] by blast
  from demo_send [OF r4] obtain s5 where s: "send_chunk demo_platform demo_secure 16 (demo_at s4) = Some (XFSBL_SUCCESS, demo_at s5)"
    by blast
  have "XFsbl_ReAuthenticationBlock demo_platform demo_secure 0x100000 16 1 [demo_data] (demo_at s3) =
      Some (XFSBL_SUCCESS, demo_at s5)"
    using c4 s demo_buffer [OF r4]
    by (simp add: XFsbl_ReAuthenticationBlock_def chunk_address_def on_success_def XFsbl_CompareHashs_def demo_secure_def)
  then have "XFsbl_PlBlockAuthentication demo_platform demo_secure (replicate 1088 0) 0x100000 16 0x200000 (demo_at s2) =
      Some (XFSBL_SUCCESS, demo_at s5)"
    using v demo_SpkVer [OF r2]
    by (simp add: XFsbl_PlBlockAuthentication_def no_of_chunks_def on_pl_def on_success_def)
  then have "sec_blocks demo_platform demo_secure (replicate 1088 0) 0x100000 0x100010 1 (demo_at s1) = Some (XFSBL_SUCCESS, demo_at s5)"
    using c by (subst sec_blocks.simps) (simp add: on_success_def)
  moreover have "with_pl (\<lambda>s. pf_DCacheDisable demo_platform (update_reg demo_platform (ADMA_CH0 0x110) (\<lambda>v. v AND 0x70) s)) demo_pl = demo_at s1"
    by (simp add: with_pl_def demo_at_def s1_def s0_def demo_platform_def)
  ultimately show ?thesis
    by (simp add: XFsbl_SecPlPartition_def on_success_def) (simp add: demo_pl_def)
qed

theorem only_signed_chunks_sent_witness:
  "\<exists>P'. XFsbl_SecPlPartition demo_platform demo_secure (replicate 1088 0) demo_pl = Some (XFSBL_SUCCESS, P') \<and>
     (pl_step demo_platform demo_secure (replicate 1088 0))\<^sup>*\<^sup>* (Idle, demo_pl) (Done, P')"
  using demo_pl_run only_signed_chunks_sent unless_failed_simps(1) by metis

end
