(* ===== verification/Partition_Load.thy ===== *)
theory Partition_Load
  imports Pl_Partition
begin

text \<open>
  Loading a partition (\<open>xfsbl_partition_load.c\<close>): validation of its header, the copy from the boot
  device with the preparation of the memory it goes to, checksum, authentication, decryption and
  configuration of the PL, and the entry in the table of CPUs to hand over to. The build is that of the
  A53 with DDR memory, \<open>XFSBL_SECURE\<close> and \<open>XFSBL_BS\<close>. No result is a register that is polled
  for ever or a write past the handoff table.
\<close>

section \<open>The partition header\<close>

abbreviation (input) XFSBL_ERROR_PH_CHECKSUM_FAILED :: u32 where "XFSBL_ERROR_PH_CHECKSUM_FAILED \<equiv> 0x17"
abbreviation (input) XIH_PH_ATTRB_PART_OWNER_FSBL :: u32 where "XIH_PH_ATTRB_PART_OWNER_FSBL \<equiv> 0x0"

text \<open>The sixteen words of a header in memory.\<close>

definition words_of_ph :: "XFsblPs_PartitionHeader \<Rightarrow> u32 list" where
  "words_of_ph p =
     [EncryptedDataWordLength p, UnEncryptedDataWordLength p, TotalDataWordLength p, NextPartitionOffset p,
      ucast (DestinationExecutionAddress p), ucast (drop_bit 32 (DestinationExecutionAddress p)),
      ucast (DestinationLoadAddress p), ucast (drop_bit 32 (DestinationLoadAddress p)),
      DataWordOffset p, PartitionAttributes p, SectionCount p, ChecksumWordOffset p, ImageHeaderOffset p,
      PH_AuthCertificateOffset p, PH_Iv p, PH_Checksum p]"

definition XFsbl_PartitionHeaderValidation ::
  "'s platform \<Rightarrow> fsbl_config \<Rightarrow> u32 \<Rightarrow> 's XFsblPs \<Rightarrow> u32 \<times> 's XFsblPs" where
  "XFsbl_PartitionHeaderValidation pf cfg PartitionNum I =
     (let p = partition I PartitionNum
      in if XFsbl_ValidateChecksum (words_of_ph p) 16 \<noteq> XFSBL_SUCCESS then (XFSBL_ERROR_PH_CHECKSUM_FAILED, I)
         else if XFsbl_GetPartitionOwner p \<noteq> XIH_PH_ATTRB_PART_OWNER_FSBL then (XFSBL_SUCCESS_NOT_PARTITION_OWNER, I)
         else case XFsbl_ValidatePartitionHeader (pf_bus pf) cfg p (ProcessorID I) (ResetReason I) (machine I) of
                (Status, s) \<Rightarrow> (Status, I\<lparr>machine := s\<rparr>))"

section \<open>The handoff table\<close>

definition XFsbl_CheckHandoffCpu :: "'s XFsblPs \<Rightarrow> u32 \<Rightarrow> u32" where
  "XFsbl_CheckHandoffCpu I DestinationCpu =
     (if list_ex (\<lambda>(CpuSettings, _). CpuSettings AND XIH_PH_ATTRB_DEST_CPU_MASK = DestinationCpu)
           (take (unat (HandoffCpuNo I)) (HandoffValues I))
      then XFSBL_FAILURE else XFSBL_SUCCESS)"

definition update_handoff :: "u32 \<Rightarrow> XFsblPs_PartitionHeader \<Rightarrow> 's XFsblPs \<Rightarrow> 's XFsblPs option" where
  "update_handoff DestinationCpu p I =
     (let CpuNo = HandoffCpuNo I
      in if XFsbl_CheckHandoffCpu I DestinationCpu = XFSBL_SUCCESS then
           if unat CpuNo < length (HandoffValues I) then
             Some (I\<lparr>HandoffValues := (HandoffValues I)[unat CpuNo :=
                       (DestinationCpu OR XFsbl_GetA53ExecState p, DestinationExecutionAddress p)],
                     HandoffCpuNo := CpuNo + 1\<rparr>)
           else None
         else Some I)"

section \<open>Powering up memory\<close>

abbreviation (input) RPU_RPU_GLBL_CNTL :: u64 where "RPU_RPU_GLBL_CNTL \<equiv> 0xFF9A0000"
abbreviation (input) RPU_RPU_0_CFG :: u64 where "RPU_RPU_0_CFG \<equiv> 0xFF9A0100"
abbreviation (input) RPU_RPU_1_CFG :: u64 where "RPU_RPU_1_CFG \<equiv> 0xFF9A0200"
abbreviation (input) CRL_APB_CPU_R5_CTRL :: u64 where "CRL_APB_CPU_R5_CTRL \<equiv> 0xFF5E0090"
abbreviation (input) CRL_APB_RST_LPD_TOP :: u64 where "CRL_APB_RST_LPD_TOP \<equiv> 0xFF5E023C"
abbreviation (input) RPU_RPU_GLBL_CNTL_SLSPLIT_MASK :: u32 where "RPU_RPU_GLBL_CNTL_SLSPLIT_MASK \<equiv> 0x8"
abbreviation (input) RPU_RPU_GLBL_CNTL_SLCLAMP_MASK :: u32 where "RPU_RPU_GLBL_CNTL_SLCLAMP_MASK \<equiv> 0x10"
abbreviation (input) RPU_RPU_GLBL_CNTL_TCM_COMB_MASK :: u32 where "RPU_RPU_GLBL_CNTL_TCM_COMB_MASK \<equiv> 0x40"
abbreviation (input) RPU_RPU_CFG_NCPUHALT_MASK :: u32 where "RPU_RPU_CFG_NCPUHALT_MASK \<equiv> 0x1"
abbreviation (input) CRL_APB_CPU_R5_CTRL_CLKACT_MASK :: u32 where "CRL_APB_CPU_R5_CTRL_CLKACT_MASK \<equiv> 0x1000000"
abbreviation (input) RST_LPD_TOP_RPU_R50_RESET_MASK :: u32 where "RST_LPD_TOP_RPU_R50_RESET_MASK \<equiv> 0x1"
abbreviation (input) RST_LPD_TOP_RPU_R51_RESET_MASK :: u32 where "RST_LPD_TOP_RPU_R51_RESET_MASK \<equiv> 0x2"
abbreviation (input) RST_LPD_TOP_RPU_AMBA_RESET_MASK :: u32 where "RST_LPD_TOP_RPU_AMBA_RESET_MASK \<equiv> 0x4"

definition rpu_split :: "'s platform \<Rightarrow> 's \<Rightarrow> 's" where
  "rpu_split pf = update_reg pf RPU_RPU_GLBL_CNTL
     (\<lambda>v. (v OR RPU_RPU_GLBL_CNTL_SLSPLIT_MASK) AND NOT RPU_RPU_GLBL_CNTL_TCM_COMB_MASK AND NOT RPU_RPU_GLBL_CNTL_SLCLAMP_MASK)"

definition rpu_lockstep :: "'s platform \<Rightarrow> 's \<Rightarrow> 's" where
  "rpu_lockstep pf = update_reg pf RPU_RPU_GLBL_CNTL
     (\<lambda>v. ((v OR RPU_RPU_GLBL_CNTL_SLCLAMP_MASK) AND NOT RPU_RPU_GLBL_CNTL_SLSPLIT_MASK) OR RPU_RPU_GLBL_CNTL_TCM_COMB_MASK)"

definition r5_halt :: "'s platform \<Rightarrow> u64 \<Rightarrow> 's \<Rightarrow> 's" where
  "r5_halt pf cfg_reg = update_reg pf cfg_reg (\<lambda>v. v AND NOT RPU_RPU_CFG_NCPUHALT_MASK)"

definition r5_run :: "'s platform \<Rightarrow> u64 \<Rightarrow> 's \<Rightarrow> 's" where
  "r5_run pf cfg_reg = update_reg pf cfg_reg (\<lambda>v. v OR RPU_RPU_CFG_NCPUHALT_MASK)"

definition r5_clock :: "'s platform \<Rightarrow> 's \<Rightarrow> 's" where
  "r5_clock pf s = pf_usleep pf 0x50 (update_reg pf CRL_APB_CPU_R5_CTRL (\<lambda>v. v OR CRL_APB_CPU_R5_CTRL_CLKACT_MASK) s)"

definition r5_release :: "'s platform \<Rightarrow> u32 \<Rightarrow> 's \<Rightarrow> 's" where
  "r5_release pf resets = update_reg pf CRL_APB_RST_LPD_TOP (\<lambda>v. v AND NOT resets AND NOT RST_LPD_TOP_RPU_AMBA_RESET_MASK)"

abbreviation (input) XFSBL_R5_0_TCM :: u32 where "XFSBL_R5_0_TCM \<equiv> 1"
abbreviation (input) XFSBL_R5_1_TCM :: u32 where "XFSBL_R5_1_TCM \<equiv> 2"
abbreviation (input) XFSBL_R5_L_TCM :: u32 where "XFSBL_R5_L_TCM \<equiv> 3"
abbreviation (input) XFSBL_ERROR_R5_0_TCM_POWER_UP :: u32 where "XFSBL_ERROR_R5_0_TCM_POWER_UP \<equiv> 0x46"
abbreviation (input) XFSBL_ERROR_R5_1_TCM_POWER_UP :: u32 where "XFSBL_ERROR_R5_1_TCM_POWER_UP \<equiv> 0x47"
abbreviation (input) XFSBL_ERROR_R5_L_TCM_POWER_UP :: u32 where "XFSBL_ERROR_R5_L_TCM_POWER_UP \<equiv> 0x48"

definition XFsbl_PowerUpMemory :: "'s platform \<Rightarrow> u32 \<Rightarrow> 's \<Rightarrow> (u32 \<times> 's) option" where
  "XFsbl_PowerUpMemory pf MemoryType s =
     (if MemoryType = XFSBL_R5_0_TCM then
        on_success (XFsbl_PowerUpIsland pf (PMU_GLOBAL_PWR_STATE_R5_0_MASK OR PMU_GLOBAL_PWR_STATE_TCM0A_MASK OR
            PMU_GLOBAL_PWR_STATE_TCM0B_MASK) s) (\<lambda>_. XFSBL_ERROR_R5_0_TCM_POWER_UP)
          (\<lambda>s. Some (XFSBL_SUCCESS, r5_release pf RST_LPD_TOP_RPU_R50_RESET_MASK
                 (r5_clock pf (r5_halt pf RPU_RPU_0_CFG (rpu_split pf s)))))
      else if MemoryType = XFSBL_R5_1_TCM then
        on_success (XFsbl_PowerUpIsland pf (PMU_GLOBAL_PWR_STATE_R5_1_MASK OR PMU_GLOBAL_PWR_STATE_TCM1A_MASK OR
            PMU_GLOBAL_PWR_STATE_TCM1B_MASK) s) (\<lambda>_. XFSBL_ERROR_R5_1_TCM_POWER_UP)
          (\<lambda>s. Some (XFSBL_SUCCESS, r5_release pf RST_LPD_TOP_RPU_R51_RESET_MASK
                 (r5_clock pf (r5_halt pf RPU_RPU_1_CFG (rpu_split pf s)))))
      else if MemoryType = XFSBL_R5_L_TCM then
        on_success (XFsbl_PowerUpIsland pf (PMU_GLOBAL_PWR_STATE_R5_0_MASK OR PMU_GLOBAL_PWR_STATE_TCM0A_MASK OR
            PMU_GLOBAL_PWR_STATE_TCM0B_MASK OR PMU_GLOBAL_PWR_STATE_TCM1A_MASK OR PMU_GLOBAL_PWR_STATE_TCM1B_MASK) s)
          (\<lambda>_. XFSBL_ERROR_R5_L_TCM_POWER_UP)
          (\<lambda>s. Some (XFSBL_SUCCESS, r5_release pf (RST_LPD_TOP_RPU_R50_RESET_MASK OR RST_LPD_TOP_RPU_R51_RESET_MASK)
                 (r5_clock pf (r5_halt pf RPU_RPU_1_CFG (r5_halt pf RPU_RPU_0_CFG (rpu_lockstep pf s))))))
      else Some (XFSBL_SUCCESS, s))"

section \<open>The load address\<close>

abbreviation (input) XFSBL_ERROR_LOAD_ADDRESS :: u32 where "XFSBL_ERROR_LOAD_ADDRESS \<equiv> 0x24"

definition in_tcm_bank :: "u64 \<Rightarrow> bool" where
  "in_tcm_bank Address \<longleftrightarrow> Address < XFSBL_R5_TCM_START_ADDRESS + XFSBL_R5_TCM_BANK_LENGTH \<or>
     XFSBL_R5_BTCM_START_ADDRESS \<le> Address \<and> Address < XFSBL_R5_BTCM_START_ADDRESS + XFSBL_R5_TCM_BANK_LENGTH"

text \<open>The address as the other CPUs see it; it is not changed on an error.\<close>

definition XFsbl_GetLoadAddress :: "u32 \<Rightarrow> u64 \<Rightarrow> u32 \<Rightarrow> u32 \<times> u64" where
  "XFsbl_GetLoadAddress DestinationCpu Address Length =
     (if DestinationCpu = XIH_PH_ATTRB_DEST_CPU_R5_0 \<and> in_tcm_bank Address then
        if ucast Length > XFSBL_R5_TCM_BANK_LENGTH then (XFSBL_ERROR_LOAD_ADDRESS, Address)
        else (XFSBL_SUCCESS, XFSBL_R50_HIGH_ATCM_START_ADDRESS + Address)
      else if DestinationCpu = XIH_PH_ATTRB_DEST_CPU_R5_1 \<and> in_tcm_bank Address then
        if ucast Length > XFSBL_R5_TCM_BANK_LENGTH then (XFSBL_ERROR_LOAD_ADDRESS, Address)
        else (XFSBL_SUCCESS, XFSBL_R51_HIGH_ATCM_START_ADDRESS + Address)
      else if DestinationCpu = XIH_PH_ATTRB_DEST_CPU_R5_L \<and> Address < XFSBL_R5_TCM_START_ADDRESS + XFSBL_R5_TCM_BANK_LENGTH * 4 then
        if ucast Length > XFSBL_R5_TCM_BANK_LENGTH * 4 then (XFSBL_ERROR_LOAD_ADDRESS, Address)
        else (XFSBL_SUCCESS, XFSBL_R50_HIGH_ATCM_START_ADDRESS + Address)
      else (XFSBL_SUCCESS, Address))"

definition in_bank :: "u64 \<Rightarrow> u64 \<Rightarrow> u64 \<Rightarrow> bool" where
  "in_bank start len Address \<longleftrightarrow> start \<le> Address \<and> Address < start + len"

definition power_and_fill :: "'s platform \<Rightarrow> u32 \<Rightarrow> u32 \<Rightarrow> u32 \<Rightarrow> u32 \<Rightarrow> 's XFsblPs \<Rightarrow> (u32 \<times> 's XFsblPs) option" where
  "power_and_fill pf RunningCpu DestinationCpu MemoryType flags I =
     on_success (if RunningCpu \<noteq> DestinationCpu then on_machine (XFsbl_PowerUpMemory pf MemoryType) I
                 else Some (XFSBL_SUCCESS, I)) (\<lambda>Status. Status)
       (\<lambda>I. on_success (if TcmEccInitStatus I AND flags \<noteq> flags then XFsbl_TcmEccInit pf DestinationCpu I
                         else Some (XFSBL_SUCCESS, I)) (\<lambda>Status. Status)
              (\<lambda>I. Some (XFSBL_SUCCESS, I)))"

definition XFsbl_ConfigureMemory ::
  "'s platform \<Rightarrow> u32 \<Rightarrow> u32 \<Rightarrow> u64 \<Rightarrow> 's XFsblPs \<Rightarrow> (u32 \<times> 's XFsblPs) option" where
  "XFsbl_ConfigureMemory pf RunningCpu DestinationCpu Address I =
     (if DestinationCpu = XIH_PH_ATTRB_DEST_CPU_R5_0 \<and>
         (in_bank XFSBL_R50_HIGH_ATCM_START_ADDRESS XFSBL_R5_TCM_BANK_LENGTH Address \<or>
          in_bank XFSBL_R50_HIGH_BTCM_START_ADDRESS XFSBL_R5_TCM_BANK_LENGTH Address)
      then power_and_fill pf RunningCpu DestinationCpu XFSBL_R5_0_TCM XFSBL_R50_TCM_ECC_INIT_STATUS I
      else if DestinationCpu = XIH_PH_ATTRB_DEST_CPU_R5_1 \<and>
         (in_bank XFSBL_R51_HIGH_ATCM_START_ADDRESS XFSBL_R5_TCM_BANK_LENGTH Address \<or>
          in_bank XFSBL_R51_HIGH_BTCM_START_ADDRESS XFSBL_R5_TCM_BANK_LENGTH Address)
      then power_and_fill pf RunningCpu DestinationCpu XFSBL_R5_1_TCM XFSBL_R51_TCM_ECC_INIT_STATUS I
      else if DestinationCpu = XIH_PH_ATTRB_DEST_CPU_R5_L \<and>
         in_bank XFSBL_R50_HIGH_ATCM_START_ADDRESS (XFSBL_R5_TCM_BANK_LENGTH * 4) Address
      then power_and_fill pf RunningCpu DestinationCpu XFSBL_R5_L_TCM
             (XFSBL_R50_TCM_ECC_INIT_STATUS OR XFSBL_R51_TCM_ECC_INIT_STATUS) I
      else Some (XFSBL_SUCCESS, I))"

section \<open>Copying a partition\<close>

abbreviation (input) XFSBL_PS_ONLY_RESET :: u32 where "XFSBL_PS_ONLY_RESET \<equiv> 1"
abbreviation (input) XFSBL_DDR_TEMP_ADDRESS :: u64 where "XFSBL_DDR_TEMP_ADDRESS \<equiv> 0x100000"
abbreviation (input) IPI_PMU_0_IER :: u64 where "IPI_PMU_0_IER \<equiv> 0xFF330018"
abbreviation (input) IPI_PMU_0_TRIG :: u64 where "IPI_PMU_0_TRIG \<equiv> 0xFF330000"
abbreviation (input) IPI_PMU_0_MASK :: u32 where "IPI_PMU_0_MASK \<equiv> 0x10000"

text \<open>The PMU is put to sleep, by an interrupt before its first partition, and waited for.\<close>

definition await_pmu_sleep :: "'s platform \<Rightarrow> XFsblPs_PartitionHeader \<Rightarrow> 's \<Rightarrow> (u32 \<times> 's) option" where
  "await_pmu_sleep pf p s = do {
     let s = (if DestinationExecutionAddress p \<noteq> 0
              then write_reg pf IPI_PMU_0_TRIG IPI_PMU_0_MASK (write_reg pf IPI_PMU_0_IER IPI_PMU_0_MASK s) else s);
     s \<leftarrow> poll_reg pf PMU_GLOBAL_GLOBAL_CNTRL
            (\<lambda>v. v AND PMU_GLOBAL_GLOBAL_CNTRL_MB_SLEEP_MASK = PMU_GLOBAL_GLOBAL_CNTRL_MB_SLEEP_MASK) s;
     Some (XFSBL_SUCCESS, s)
   }"

definition is_signed :: "XFsblPs_PartitionHeader \<Rightarrow> bool" where
  "is_signed p \<longleftrightarrow> XFsbl_IsRsaSignaturePresent p = XIH_PH_ATTRB_RSA_SIGNATURE"

definition is_encrypted :: "XFsblPs_PartitionHeader \<Rightarrow> bool" where
  "is_encrypted p \<longleftrightarrow> XFsbl_IsEncrypted p = XIH_PH_ATTRB_ENCRYPTION"

definition is_pl :: "XFsblPs_PartitionHeader \<Rightarrow> bool" where
  "is_pl p \<longleftrightarrow> XFsbl_GetDestinationDevice p = XIH_PH_ATTRB_DEST_DEVICE_PL"

text \<open>The certificate of a signed partition goes to its own buffer and is not part of the copy.\<close>

definition copied_length :: "XFsblPs_PartitionHeader \<Rightarrow> u32" where
  "copied_length p = TotalDataWordLength p * XIH_PARTITION_WORD_LENGTH -
     (if is_signed p \<and> \<not> is_pl p then XFSBL_AUTH_CERT_MIN_SIZE else 0)"

definition source_address :: "u32 \<Rightarrow> XFsblPs_PartitionHeader \<Rightarrow> u32" where
  "source_address ImageOffset p = ImageOffset + DataWordOffset p * XIH_PARTITION_WORD_LENGTH"

definition staged_address :: "XFsblPs_PartitionHeader \<Rightarrow> u64" where
  "staged_address p = (if is_pl p \<and> DestinationLoadAddress p = XFSBL_DUMMY_PL_ADDR then XFSBL_DDR_TEMP_ADDRESS
     else DestinationLoadAddress p)"

definition copy_data :: "'s platform \<Rightarrow> u32 \<Rightarrow> XFsblPs_PartitionHeader \<Rightarrow> 's XFsblPs \<Rightarrow> (u32 \<times> 's XFsblPs) option" where
  "copy_data pf DestinationCpu p I =
     (if is_pl p \<and> ResetReason I = XFSBL_PS_ONLY_RESET then Some (XFSBL_SUCCESS, I)
      else case XFsbl_GetLoadAddress DestinationCpu (staged_address p) (copied_length p) of (Status, LoadAddress) \<Rightarrow>
        if Status \<noteq> XFSBL_SUCCESS then Some (Status, I)
        else on_success (XFsbl_ConfigureMemory pf (ProcessorID I) DestinationCpu LoadAddress I) (\<lambda>Status. Status) (\<lambda>I.
          on_success (if DestinationCpu = XIH_PH_ATTRB_DEST_CPU_PMU then on_machine (await_pmu_sleep pf p) I
                      else Some (XFSBL_SUCCESS, I)) (\<lambda>Status. Status) (\<lambda>I.
            on_machine (DeviceCopy I (source_address (ImageOffsetAddress I) p) LoadAddress (copied_length p)) I)))"

definition XFsbl_PartitionCopy :: "'s platform \<Rightarrow> u32 \<Rightarrow> 's XFsblPs \<Rightarrow> (u32 \<times> 's XFsblPs) option" where
  "XFsbl_PartitionCopy pf PartitionNum I =
     (let p = partition I PartitionNum;
          DestinationCpu = destination_cpu_or (ProcessorID I) p
      in if UnEncryptedDataWordLength p = 0 then
           map_option (\<lambda>I. (XFSBL_SUCCESS, I)) (update_handoff DestinationCpu p I)
         else
           on_success (if is_signed p \<and> \<not> is_pl p
                       then on_machine (DeviceCopy I (source_address (ImageOffsetAddress I) p + copied_length p)
                              (pf_AuthBuffer pf) XFSBL_AUTH_CERT_MIN_SIZE) I
                       else Some (XFSBL_SUCCESS, I)) (\<lambda>Status. Status)
             (copy_data pf DestinationCpu p))"

section \<open>Checksums\<close>

definition XFsbl_CalcualteSHA :: "'s platform \<Rightarrow> ('s, 'h) secure \<Rightarrow> u64 \<Rightarrow> u32 \<Rightarrow> 's XFsblPs \<Rightarrow> (u32 \<times> 's XFsblPs) option" where
  "XFsbl_CalcualteSHA pf sx LoadAddress PartitionNum I =
     (let p = partition I PartitionNum;
          HashOffset = ImageOffsetAddress I + ChecksumWordOffset p * 4;
          PartitionHash = XFsbl_ShaDigest pf sx (machine I) LoadAddress (TotalDataWordLength p * 4)
      in Option.bind (on_machine (DeviceCopy I HashOffset (pf_HashBuffer pf) 48) I) (\<lambda>(Status, I).
           if Status \<noteq> XFSBL_SUCCESS then Some (XFSBL_FAILURE, I)
           else if take 48 PartitionHash \<noteq> mem_bytes pf (machine I) (pf_HashBuffer pf) 48
           then Some (XFSBL_FAILURE, I) else Some (XFSBL_SUCCESS, I)))"

definition XFsbl_CalcualteCheckSum :: "'s platform \<Rightarrow> ('s, 'h) secure \<Rightarrow> u64 \<Rightarrow> u32 \<Rightarrow> 's XFsblPs \<Rightarrow> (u32 \<times> 's XFsblPs) option" where
  "XFsbl_CalcualteCheckSum pf sx LoadAddress PartitionNum I =
     (if XFsbl_GetChecksumType (partition I PartitionNum) = XIH_PH_ATTRB_HASH_SHA3
      then on_success (XFsbl_CalcualteSHA pf sx LoadAddress PartitionNum I) (\<lambda>_. XFSBL_FAILURE) (\<lambda>I. Some (XFSBL_SUCCESS, I))
      else Some (XFSBL_ERROR_INVALID_CHECKSUM_TYPE, I))"

section \<open>Validating a partition\<close>

abbreviation (input) XFSBL_ERROR_HOOK_BEFORE_BITSTREAM_DOWNLOAD :: u32 where "XFSBL_ERROR_HOOK_BEFORE_BITSTREAM_DOWNLOAD \<equiv> 0x25"
abbreviation (input) XFSBL_ERROR_HOOK_AFTER_BITSTREAM_DOWNLOAD :: u32 where "XFSBL_ERROR_HOOK_AFTER_BITSTREAM_DOWNLOAD \<equiv> 0x26"
abbreviation (input) XFSBL_ERROR_DECRYPTION_FAIL :: u32 where "XFSBL_ERROR_DECRYPTION_FAIL \<equiv> 0x36"
abbreviation (input) XFSBL_ERROR_BITSTREAM_DECRYPTION_FAIL :: u32 where "XFSBL_ERROR_BITSTREAM_DECRYPTION_FAIL \<equiv> 0x3A"
abbreviation (input) XFSBL_ERROR_PARTITION_CHECKSUM_FAILED :: u32 where "XFSBL_ERROR_PARTITION_CHECKSUM_FAILED \<equiv> 0x4F"
abbreviation (input) XFSBL_ERROR_AES_INITIALIZE :: u32 where "XFSBL_ERROR_AES_INITIALIZE \<equiv> 0x56"
abbreviation (input) XFSBL_ERROR_BLOCK_SIZE_SEC_BS :: u32 where "XFSBL_ERROR_BLOCK_SIZE_SEC_BS \<equiv> 0x63"
abbreviation (input) XFSBL_ERROR_SHA2_NOT_SUPPORTED :: u32 where "XFSBL_ERROR_SHA2_NOT_SUPPORTED \<equiv> 0x78"
abbreviation (input) XIH_BH_IMAGE_ATTRB_SHA2_MASK :: u32 where "XIH_BH_IMAGE_ATTRB_SHA2_MASK \<equiv> 0x3000"
abbreviation (input) XFSBL_DESTINATION_PCAP_ADDR :: u64 where "XFSBL_DESTINATION_PCAP_ADDR \<equiv> 0xFFFFFFFF"

text \<open>The initialisation vector: byte 11 is advanced by that of the partition header.\<close>

definition partition_iv :: "u8 list \<Rightarrow> XFsblPs_PartitionHeader \<Rightarrow> u8 list" where
  "partition_iv Iv p = Iv[11 := Iv ! 11 + ucast (PH_Iv p AND 0xFF)]"

text \<open>The address at which the copied data is looked at.\<close>

definition validation_address :: "u32 \<Rightarrow> XFsblPs_PartitionHeader \<Rightarrow> u32 \<times> u64" where
  "validation_address DestinationCpu p =
     (case (if is_signed p \<or> is_encrypted p \<or> XFsbl_GetChecksumType p \<noteq> XIH_PH_ATTRB_NOCHECKSUM
            then XFsbl_GetLoadAddress DestinationCpu (DestinationLoadAddress p) (TotalDataWordLength p * 4)
            else (XFSBL_SUCCESS, DestinationLoadAddress p)) of
        (Status, LoadAddress) \<Rightarrow>
          (Status, if is_pl p \<and> LoadAddress = XFSBL_DUMMY_PL_ADDR then XFSBL_DDR_TEMP_ADDRESS else LoadAddress))"

definition init_aes ::
  "('s, 'h) secure \<Rightarrow> XFsblPs_PartitionHeader \<Rightarrow> u8 list \<Rightarrow> 's XFsblPs \<Rightarrow> (u32 \<times> 's XFsblPs) option" where
  "init_aes sx p FsblIv I =
     (if is_encrypted p then
        (case sx_AesInitialize sx FsblIv (machine I) of (SStatus, aes, s) \<Rightarrow>
           Some (if SStatus \<noteq> XFSBL_SUCCESS then XFSBL_ERROR_AES_INITIALIZE else XFSBL_SUCCESS,
                 I\<lparr>SecureAes_of := aes, machine := s\<rparr>))
      else Some (XFSBL_SUCCESS, I))"

definition before_bitstream :: "'s platform \<Rightarrow> XFsblPs_PartitionHeader \<Rightarrow> 's XFsblPs \<Rightarrow> (u32 \<times> 's XFsblPs) option" where
  "before_bitstream pf p I =
     (if is_pl p then
        if XFsbl_HookBeforeBSDownload \<noteq> XFSBL_SUCCESS then Some (XFSBL_ERROR_HOOK_BEFORE_BITSTREAM_DOWNLOAD, I)
        else on_machine (XFsbl_PcapInit pf) I
      else Some (XFSBL_SUCCESS, I))"

definition verify_checksum :: "'s platform \<Rightarrow> ('s, 'h) secure \<Rightarrow> u64 \<Rightarrow> u32 \<Rightarrow> 's XFsblPs \<Rightarrow> (u32 \<times> 's XFsblPs) option" where
  "verify_checksum pf sx LoadAddress PartitionNum I =
     (if XFsbl_GetChecksumType (partition I PartitionNum) \<noteq> XIH_PH_ATTRB_NOCHECKSUM
      then on_success (XFsbl_CalcualteCheckSum pf sx LoadAddress PartitionNum I)
             (\<lambda>_. XFSBL_ERROR_PARTITION_CHECKSUM_FAILED) (\<lambda>I. Some (XFSBL_SUCCESS, I))
      else Some (XFSBL_SUCCESS, I))"

definition clear_pl :: "'s platform \<Rightarrow> bool \<Rightarrow> 's \<Rightarrow> 's" where
  "clear_pl pf restart s =
     (let s = write_reg pf CSU_PCAP_PROG 0 s
      in if restart then write_reg pf CSU_PCAP_PROG CSU_PCAP_PROG_PCFG_PROG_B_MASK (pf_usleep pf PL_RESET_PERIOD_IN_US s) else s)"

abbreviation (input) READ_BUFFER_SIZE :: u32 where "READ_BUFFER_SIZE \<equiv> 56 * 1024"
abbreviation (input) HASH_BUFFER_SIZE :: u32 where "HASH_BUFFER_SIZE \<equiv> 7 * 1024"

text \<open>The parameters of a signed bitstream: its first certificate is where the header says, from the load address on.\<close>

definition pl_params :: "'s platform \<Rightarrow> XFsblPs_PartitionHeader \<Rightarrow> u64 \<Rightarrow> 's XFsblPs \<Rightarrow> 's XFsblPs_PlPartition" where
  "pl_params pf p LoadAddress I =
     \<lparr>IsAuthenticated = is_signed p, IsEncrypted = is_encrypted p, StartAddress = LoadAddress,
      TotalLen = TotalDataWordLength p * 4, ChunkSize = READ_BUFFER_SIZE, ChunkBuffer = pf_ReadBuffer pf,
      PlDeviceCopy = None, PlAes = (if is_encrypted p then Some (SecureAes_of I) else None), NextBlkLen = 0,
      AuthCertBuf = pf_AuthBuffer pf,
      AcOfset = ucast (LoadAddress + ucast (PH_AuthCertificateOffset p * 4 - DataWordOffset p * XIH_PARTITION_WORD_LENGTH)),
      NoOfHashs = HASH_BUFFER_SIZE div of_nat XFSBL_HASH_TYPE_SHA3, BlockSize = XFsbl_GetBlockSize p, Hdr = 0,
      pl_machine = machine I\<rparr>"

definition verify_signature ::
  "'s platform \<Rightarrow> ('s, 'h) secure \<Rightarrow> u64 \<Rightarrow> u32 \<Rightarrow> 's XFsblPs \<Rightarrow> (u32 \<times> 's XFsblPs) option" where
  "verify_signature pf sx LoadAddress PartitionNum I =
     (let p = partition I PartitionNum
      in if \<not> is_signed p then Some (XFSBL_SUCCESS, I)
         else if \<not> is_pl p then
           on_machine (\<lambda>s. Some (XFsbl_Authentication pf sx (EfusePpkKey I) LoadAddress (TotalDataWordLength p * 4)
                                   (pf_AuthBuffer pf) s)) I
         else if XFsbl_GetBlockSize p = 0 then Some (XFSBL_ERROR_BLOCK_SIZE_SEC_BS, I)
         else if BootHdrAttributes I AND XIH_BH_IMAGE_ATTRB_SHA2_MASK = XIH_BH_IMAGE_ATTRB_SHA2_MASK
         then Some (XFSBL_ERROR_SHA2_NOT_SUPPORTED, I)
         else Option.bind (XFsbl_SecPlPartition pf sx (EfusePpkKey I) (pl_params pf p LoadAddress I)) (\<lambda>(Status, P).
                let I = I\<lparr>machine := pl_machine P, SecureAes_of := (case PlAes P of Some aes \<Rightarrow> aes | None \<Rightarrow> SecureAes_of I)\<rparr>
                in if Status \<noteq> XFSBL_SUCCESS then Some (Status, with_machine (clear_pl pf (is_encrypted p)) I)
                   else Some (XFSBL_SUCCESS, I)))"

text \<open>The AES engine decrypts in place, or into the configuration port.\<close>

definition aes_decrypt ::
  "('s, 'h) secure \<Rightarrow> u64 \<Rightarrow> u64 \<Rightarrow> u32 \<Rightarrow> 's XFsblPs \<Rightarrow> u32 \<times> 's XFsblPs" where
  "aes_decrypt sx Dst Src n I = (case sx_AesDecrypt sx Dst Src n (SecureAes_of I) (machine I) of
     (Status, aes, s) \<Rightarrow> (Status, I\<lparr>SecureAes_of := aes, machine := s\<rparr>))"

definition decrypt_data :: "('s, 'h) secure \<Rightarrow> u64 \<Rightarrow> XFsblPs_PartitionHeader \<Rightarrow> 's XFsblPs \<Rightarrow> (u32 \<times> 's XFsblPs) option" where
  "decrypt_data sx LoadAddress p I =
     (if is_encrypted p \<and> \<not> is_pl p then
        on_success (Some (aes_decrypt sx LoadAddress LoadAddress (UnEncryptedDataWordLength p * 4) I))
          (\<lambda>_. XFSBL_ERROR_DECRYPTION_FAIL) (\<lambda>I. Some (XFSBL_SUCCESS, I))
      else Some (XFSBL_SUCCESS, I))"

definition load_plain_bitstream ::
  "'s platform \<Rightarrow> ('s, 'h) secure \<Rightarrow> u64 \<Rightarrow> XFsblPs_PartitionHeader \<Rightarrow> 's XFsblPs \<Rightarrow> (u32 \<times> 's XFsblPs) option" where
  "load_plain_bitstream pf sx LoadAddress p I =
     (if is_pl p \<and> \<not> is_signed p then
        if is_encrypted p then
          (case aes_decrypt sx XFSBL_DESTINATION_PCAP_ADDR LoadAddress (UnEncryptedDataWordLength p * 4) I of
             (Status, I) \<Rightarrow>
               if Status \<noteq> XFSBL_SUCCESS then Some (XFSBL_ERROR_BITSTREAM_DECRYPTION_FAIL, with_machine (clear_pl pf True) I)
               else Some (XFSBL_SUCCESS, I))
        else on_machine (XFsbl_WriteToPcap pf (UnEncryptedDataWordLength p) LoadAddress) I
      else Some (XFSBL_SUCCESS, I))"

definition after_bitstream :: "'s platform \<Rightarrow> XFsblPs_PartitionHeader \<Rightarrow> 's XFsblPs \<Rightarrow> (u32 \<times> 's XFsblPs) option" where
  "after_bitstream pf p I =
     (if is_pl p then
        on_success (on_machine (XFsbl_PLWaitForDone pf) I) (\<lambda>Status. Status) (\<lambda>I.
          let I = with_machine (\<lambda>s. pf_psu_ps_pl_reset_config pf (pf_psu_ps_pl_isolation_removal pf s)) I
          in if XFsbl_HookAfterBSDownload \<noteq> XFSBL_SUCCESS then Some (XFSBL_ERROR_HOOK_AFTER_BITSTREAM_DOWNLOAD, I)
             else Some (XFSBL_SUCCESS, I))
      else Some (XFSBL_SUCCESS, I))"

definition XFsbl_PartitionValidation ::
  "'s platform \<Rightarrow> ('s, 'h) secure \<Rightarrow> u32 \<Rightarrow> 's XFsblPs \<Rightarrow> (u32 \<times> 's XFsblPs) option" where
  "XFsbl_PartitionValidation pf sx PartitionNum I =
     (let p = partition I PartitionNum;
          FsblIv = partition_iv (BootIv I) p;
          DestinationCpu = destination_cpu_or (ProcessorID I) p
      in if is_pl p \<and> ResetReason I = XFSBL_PS_ONLY_RESET then Some (XFSBL_SUCCESS, I)
         else case validation_address DestinationCpu p of (Status, LoadAddress) \<Rightarrow>
           if Status \<noteq> XFSBL_SUCCESS then Some (Status, I)
           else on_success (init_aes sx p FsblIv I) (\<lambda>Status. Status) (\<lambda>I.
             on_success (before_bitstream pf p I) (\<lambda>Status. Status) (\<lambda>I.
             on_success (verify_checksum pf sx LoadAddress PartitionNum I) (\<lambda>Status. Status) (\<lambda>I.
             on_success (verify_signature pf sx LoadAddress PartitionNum I) (\<lambda>Status. Status) (\<lambda>I.
             on_success (decrypt_data sx LoadAddress p I) (\<lambda>Status. Status) (\<lambda>I.
             on_success (load_plain_bitstream pf sx LoadAddress p I) (\<lambda>Status. Status) (\<lambda>I.
             on_success (after_bitstream pf p I) (\<lambda>Status. Status) (\<lambda>I.
               map_option (\<lambda>I. (XFSBL_SUCCESS, I))
                 (if \<not> is_pl p \<and> DestinationCpu \<noteq> XIH_PH_ATTRB_DEST_CPU_PMU
                  then update_handoff DestinationCpu p I else Some I)))))))))"

section \<open>The PMU firmware\<close>

definition pmu_fw_loaded :: "'s XFsblPs \<Rightarrow> u32 \<Rightarrow> bool" where
  "pmu_fw_loaded I PartitionNum \<longleftrightarrow>
     XFsbl_GetDestinationCpu (partition I PartitionNum) = XIH_PH_ATTRB_DEST_CPU_PMU \<and>
     (PartitionNum + 1 \<le> NoOfPartitions I - 1 \<longrightarrow>
        XFsbl_GetDestinationCpu (partition I (PartitionNum + 1)) \<noteq> XIH_PH_ATTRB_DEST_CPU_PMU)"

definition XFsbl_CheckPmuFw :: "'s platform \<Rightarrow> u32 \<Rightarrow> 's XFsblPs \<Rightarrow> 's XFsblPs option" where
  "XFsbl_CheckPmuFw pf PartitionNum I =
     (if pmu_fw_loaded I PartitionNum then
        map_option (\<lambda>s. I\<lparr>machine := s\<rparr>)
          (poll_reg pf PMU_GLOBAL_GLOBAL_CNTRL
             (\<lambda>v. v AND PMU_GLOBAL_GLOBAL_CNTRL_FW_IS_PRESENT_MASK = PMU_GLOBAL_GLOBAL_CNTRL_FW_IS_PRESENT_MASK)
             (update_reg pf PMU_GLOBAL_GLOBAL_CNTRL (\<lambda>v. v OR 0x1) (machine I)))
      else Some I)"

definition XFsbl_PartitionLoad ::
  "'s platform \<Rightarrow> ('s, 'h) secure \<Rightarrow> fsbl_config \<Rightarrow> u32 \<Rightarrow> 's XFsblPs \<Rightarrow> (u32 \<times> 's XFsblPs) option" where
  "XFsbl_PartitionLoad pf sx cfg PartitionNum I =
     (case XFsbl_PartitionHeaderValidation pf cfg PartitionNum (with_machine (XFsbl_RestartWdt pf (ResetReason I)) I) of
        (Status, I) \<Rightarrow>
          if Status = XFSBL_SUCCESS_NOT_PARTITION_OWNER then Some (XFSBL_SUCCESS, I)
          else if Status \<noteq> XFSBL_SUCCESS then Some (Status, I)
          else
            on_success (XFsbl_PartitionCopy pf PartitionNum I) (\<lambda>Status. Status) (\<lambda>I.
            on_success (XFsbl_PartitionValidation pf sx PartitionNum I) (\<lambda>Status. Status) (\<lambda>I.
              map_option (\<lambda>I. (XFSBL_SUCCESS, I)) (XFsbl_CheckPmuFw pf PartitionNum I))))"

section \<open>What loading leaves alone\<close>

text \<open>Only \<open>update_handoff\<close> touches the table; the headers and the processor are never changed.\<close>

definition same_table :: "'s XFsblPs \<Rightarrow> 's XFsblPs \<Rightarrow> bool" where
  "same_table I I' \<longleftrightarrow> HandoffValues I' = HandoffValues I \<and> HandoffCpuNo I' = HandoffCpuNo I \<and>
     ProcessorID I' = ProcessorID I \<and> ImageHeader_of I' = ImageHeader_of I \<and> ResetReason I' = ResetReason I \<and>
     EfusePpkKey I' = EfusePpkKey I"

definition kept :: "'s XFsblPs \<Rightarrow> (u32 \<times> 's XFsblPs) option \<Rightarrow> bool" where
  "kept I r \<longleftrightarrow> (\<forall>Status I'. r = Some (Status, I') \<longrightarrow> same_table I I')"

named_theorems keeps

lemma same_table_refl [simp]: "same_table I I"
  by (simp add: same_table_def)

lemma same_table_trans: "\<lbrakk>same_table I J; same_table J K\<rbrakk> \<Longrightarrow> same_table I K"
  by (simp add: same_table_def)

lemma same_table_machine [simp]:
  "same_table I (I\<lparr>machine := s\<rparr>)" "same_table I (with_machine f I)" "same_table I (I\<lparr>SecureAes_of := aes, machine := s\<rparr>)"
  "same_table I (I\<lparr>machine := s, SecureAes_of := aes\<rparr>)" "same_table I (with_machine f (I\<lparr>machine := s, SecureAes_of := aes\<rparr>))"
  "same_table I (with_machine f (I\<lparr>SecureAes_of := aes, machine := s\<rparr>))"
  by (simp_all add: same_table_def with_machine_def)

lemma keptD: "\<lbrakk>kept I r; r = Some (Status, I')\<rbrakk> \<Longrightarrow> same_table I I'"
  by (simp add: kept_def)

lemma kept_return [keeps]: "same_table I J \<Longrightarrow> kept I (Some (Status, J))"
  by (simp add: kept_def)

lemma kept_on_machine [keeps]: "kept I (on_machine f I)"
  by (auto simp: kept_def on_machine_def)

lemma kept_bind [keeps]:
  assumes "kept I r" "\<And>Status J. same_table I J \<Longrightarrow> kept J (k Status J)"
  shows "kept I (Option.bind r (\<lambda>(Status, J). k Status J))"
proof (cases r)
  case (Some q)
  then obtain Status J where q: "r = Some (Status, J)" by (cases q) auto
  then have "same_table I J" using assms(1) by (rule keptD [rotated])
  with assms(2) [OF this, of Status] q show ?thesis by (auto simp: kept_def intro: same_table_trans)
qed (simp add: kept_def)

lemma kept_on_success [keeps]:
  assumes "kept I r" "\<And>J. same_table I J \<Longrightarrow> kept J (k J)"
  shows "kept I (on_success r e k)"
  unfolding on_success_def by (rule kept_bind [OF assms(1)]) (auto intro: kept_return assms(2))

lemma kept_if [keeps]: "\<lbrakk>b \<Longrightarrow> kept I f; \<not> b \<Longrightarrow> kept I g\<rbrakk> \<Longrightarrow> kept I (if b then f else g)"
  by simp

lemma kept_pair [keeps]: "(\<And>a b. q = (a, b) \<Longrightarrow> kept I (f a b)) \<Longrightarrow> kept I (case q of (a, b) \<Rightarrow> f a b)"
  by (cases q) simp

lemma kept_TcmEccInit [keeps]: "kept I (XFsbl_TcmEccInit pf CpuId I)"
  unfolding XFsbl_TcmEccInit_def by (intro keeps) (simp add: same_table_def)

lemma kept_ConfigureMemory [keeps]: "kept I (XFsbl_ConfigureMemory pf a b c I)"
  unfolding XFsbl_ConfigureMemory_def power_and_fill_def by (intro keeps) simp_all

lemma kept_copy_data [keeps]: "kept I (copy_data pf cpu p I)"
  unfolding copy_data_def by (intro keeps) simp_all

lemma kept_init_aes [keeps]: "kept I (init_aes sx p Iv I)"
  unfolding init_aes_def by (intro keeps) simp_all

lemma kept_before_bitstream [keeps]: "kept I (before_bitstream pf p I)"
  unfolding before_bitstream_def by (intro keeps) simp_all

lemma kept_verify_checksum [keeps]: "kept I (verify_checksum pf sx a n I)"
  unfolding verify_checksum_def XFsbl_CalcualteCheckSum_def XFsbl_CalcualteSHA_def Let_def by (intro keeps) simp_all

lemma kept_verify_signature [keeps]: "kept I (verify_signature pf sx a n I)"
  unfolding verify_signature_def Let_def
  by (intro keeps) (auto simp: kept_def bind_eq_Some_conv split: if_splits)

lemma kept_aes_decrypt: "aes_decrypt sx a b n I = (Status, J) \<Longrightarrow> same_table I J"
  by (auto simp: aes_decrypt_def split: prod.splits)

lemma kept_decrypt_data [keeps]: "kept I (decrypt_data sx a p I)"
  unfolding decrypt_data_def by (intro keeps) (auto simp: kept_def dest: kept_aes_decrypt)

lemma kept_load_plain_bitstream [keeps]: "kept I (load_plain_bitstream pf sx a p I)"
  unfolding load_plain_bitstream_def
  by (intro keeps) (auto dest!: kept_aes_decrypt simp: same_table_def with_machine_def)

lemma kept_after_bitstream [keeps]: "kept I (after_bitstream pf p I)"
  unfolding after_bitstream_def Let_def by (intro keeps) simp_all

section \<open>The table of CPUs\<close>

definition known_cpus :: "u32 set" where
  "known_cpus = {0x100, 0x200, 0x300, 0x400, 0x500, 0x600, 0x700, 0x800}"

definition table_cpus :: "'s XFsblPs \<Rightarrow> u32 list" where
  "table_cpus I = map (\<lambda>(CpuSettings, _). CpuSettings AND XIH_PH_ATTRB_DEST_CPU_MASK) (take (unat (HandoffCpuNo I)) (HandoffValues I))"

definition table_ok :: "'s XFsblPs \<Rightarrow> bool" where
  "table_ok I \<longleftrightarrow> length (HandoffValues I) = 10 \<and> unat (HandoffCpuNo I) \<le> 8 \<and> distinct (table_cpus I) \<and>
     set (table_cpus I) \<subseteq> known_cpus \<and> ProcessorID I \<in> known_cpus"

lemma same_table_ok: "same_table I J \<Longrightarrow> table_ok J = table_ok I"
  by (simp add: same_table_def table_ok_def table_cpus_def)

lemma known_cpu_mask: "c \<in> known_cpus \<Longrightarrow> (c OR (x AND 8)) AND XIH_PH_ATTRB_DEST_CPU_MASK = c"
proof -
  have "(c OR (x AND 8)) AND 0xF00 = (c AND 0xF00) OR (x AND (8 AND 0xF00))"
    by (simp only: bit.conj_disj_distrib2 and.assoc)
  then show "c \<in> known_cpus \<Longrightarrow> ?thesis" by (auto simp: known_cpus_def)
qed

lemma update_handoff_ok:
  assumes "table_ok I" "c \<in> known_cpus"
  shows "\<exists>J. update_handoff c p I = Some J \<and> table_ok J \<and> set (table_cpus J) = insert c (set (table_cpus I)) \<and>
    (c \<notin> set (table_cpus I) \<longrightarrow> table_cpus J = table_cpus I @ [c]) \<and> (c \<in> set (table_cpus I) \<longrightarrow> J = I)"
proof -
  define n where "n = unat (HandoffCpuNo I)"
  have len: "length (HandoffValues I) = 10" "n \<le> 8" "length (table_cpus I) = n"
    using assms(1) by (simp_all add: table_ok_def n_def table_cpus_def)
  have chk: "XFsbl_CheckHandoffCpu I c = XFSBL_SUCCESS \<longleftrightarrow> c \<notin> set (table_cpus I)"
    by (auto simp: XFsbl_CheckHandoffCpu_def table_cpus_def list_ex_iff split_def)
  show ?thesis
  proof (cases "c \<in> set (table_cpus I)")
    case True
    with chk assms(1) show ?thesis by (auto simp: update_handoff_def Let_def)
  next
    case False
    define e where "e = (c OR XFsbl_GetA53ExecState p, DestinationExecutionAddress p)"
    define J where "J = I\<lparr>HandoffValues := (HandoffValues I)[n := e], HandoffCpuNo := HandoffCpuNo I + 1\<rparr>"
    have n1: "unat (HandoffCpuNo I + 1) = n + 1" using len(2) by (simp add: unat_plus_one n_def)
    have j: "update_handoff c p I = Some J" using False chk len by (simp add: update_handoff_def Let_def J_def n_def e_def)
    have c: "table_cpus J = table_cpus I @ [c]"
      using len known_cpu_mask [OF assms(2)] n1
      by (simp add: table_cpus_def J_def take_Suc_conv_app_nth e_def XFsbl_GetA53ExecState_def n_def)
    have "card (set (table_cpus I @ [c])) \<le> card known_cpus"
      by (rule card_mono) (use assms in \<open>auto simp: table_ok_def known_cpus_def\<close>)
    moreover have "card known_cpus = 8" by (simp add: known_cpus_def)
    moreover have d: "distinct (table_cpus I @ [c])" using assms False by (simp add: table_ok_def)
    ultimately have "n + 1 \<le> 8" using len(3) distinct_card [OF d] by simp
    then have "table_ok J" using assms d c n1 len by (auto simp: table_ok_def J_def)
    with j c False show ?thesis by auto
  qed
qed

lemma cpu_field_known:
  assumes "x AND XIH_PH_ATTRB_DEST_CPU_MASK \<noteq> 0" "x AND XIH_PH_ATTRB_DEST_CPU_MASK \<le> 0x800"
  shows "x AND XIH_PH_ATTRB_DEST_CPU_MASK \<in> known_cpus"
proof -
  define y where "y = take_bit 4 (drop_bit 8 x)"
  have m: "(0xF00 :: u32) = push_bit 8 (mask 4)" by (simp add: mask_eq_exp_minus_1)
  have xy: "x AND 0xF00 = push_bit 8 y"
    unfolding m y_def by (rule bit_word_eqI) (auto simp: bit_simps simp del: push_bit_numeral push_bit_of_nat)
  have "unat y < 16"
    using take_bit_nat_less_exp [of 4 "unat (drop_bit 8 x)"] by (simp add: y_def unsigned_take_bit_eq)
  then obtain k where "k < 16" "y = of_nat k" by (metis of_nat_unat ucast_id)
  then have "y \<in> {0, 1, 2, 3, 4, 5, 6, 7, 8, 9, 10, 11, 12, 13, 14, 15}"
    by (simp add: eval_nat_numeral less_Suc_eq) auto
  then show ?thesis using assms unfolding xy known_cpus_def by auto
qed

lemma accepted_cpu:
  assumes "fst (XFsbl_ValidatePartitionHeader hw cfg p cpu reset s) = XFSBL_SUCCESS" "cpu \<in> known_cpus"
  shows "destination_cpu_or cpu p \<in> known_cpus"
proof -
  have "types_ok p cpu (destination_cpu_or cpu p)"
    using assms(1) unfolding ValidatePartitionHeader_status Let_def
    by (auto simp: status_seq_def check_types_iff [symmetric] split: if_splits)
  then have "destination_cpu_or cpu p \<le> 0x800" by (simp add: types_ok_def)
  with assms(2) show ?thesis
    using cpu_field_known [of "PartitionAttributes p"] by (auto simp: destination_cpu_or_def XFsbl_GetDestinationCpu_def)
qed

text \<open>What a table becomes: the same, or longer by one CPU that was not in it.\<close>

definition table_grows :: "u32 \<Rightarrow> 's XFsblPs \<Rightarrow> 's XFsblPs \<Rightarrow> bool" where
  "table_grows c I J \<longleftrightarrow> table_ok J \<and> (table_cpus J = table_cpus I \<or> c \<notin> set (table_cpus I) \<and> table_cpus J = table_cpus I @ [c])"

lemma update_handoff_same: "update_handoff c p I = Some J \<Longrightarrow> ImageHeader_of J = ImageHeader_of I \<and> ProcessorID J = ProcessorID I"
  by (auto simp: update_handoff_def Let_def split: if_splits)

lemma PartitionCopy_table:
  assumes "table_ok I" "destination_cpu_or (ProcessorID I) (partition I n) \<in> known_cpus"
    and r: "XFsbl_PartitionCopy pf n I = Some (Status, J)"
  shows "table_grows (destination_cpu_or (ProcessorID I) (partition I n)) I J"
    "ImageHeader_of J = ImageHeader_of I" "ProcessorID J = ProcessorID I"
proof -
  define p where "p = partition I n"
  define c where "c = destination_cpu_or (ProcessorID I) p"
  have "table_grows c I J \<and> ImageHeader_of J = ImageHeader_of I \<and> ProcessorID J = ProcessorID I"
  proof (cases "UnEncryptedDataWordLength p = 0")
    case True
    then have "update_handoff c p I = Some J" using r by (simp add: XFsbl_PartitionCopy_def Let_def p_def [symmetric] c_def [symmetric])
    with update_handoff_ok [OF assms(1), of c p] assms(2) update_handoff_same [of c p I J] show ?thesis
      by (auto simp: table_grows_def c_def p_def)
  next
    case False
    have "kept I (XFsbl_PartitionCopy pf n I)"
      unfolding XFsbl_PartitionCopy_def Let_def p_def [symmetric] if_not_P [OF False] by (intro keeps) simp
    from keptD [OF this r] show ?thesis
      using same_table_ok [of I J] assms(1) by (simp add: table_grows_def same_table_def table_cpus_def)
  qed
  then show "table_grows (destination_cpu_or (ProcessorID I) (partition I n)) I J"
    "ImageHeader_of J = ImageHeader_of I" "ProcessorID J = ProcessorID I" by (simp_all add: c_def p_def)
qed

text \<open>A validation that ends early leaves the table; one that reaches its end may have entered the CPU.\<close>

definition entered :: "u32 \<Rightarrow> XFsblPs_PartitionHeader \<Rightarrow> bool \<Rightarrow> 's XFsblPs \<Rightarrow> (u32 \<times> 's XFsblPs) option \<Rightarrow> bool" where
  "entered c p enter I r \<longleftrightarrow> (\<forall>Status K. r = Some (Status, K) \<longrightarrow>
     same_table I K \<and> (enter \<longrightarrow> Status \<noteq> XFSBL_SUCCESS) \<or> enter \<and> (\<exists>J. same_table I J \<and> update_handoff c p J = Some K))"

lemma entered_on_success [keeps]:
  assumes "kept I r" "\<And>J. same_table I J \<Longrightarrow> entered c p enter J (k J)"
  shows "entered c p enter I (on_success r (\<lambda>Status. Status) k)"
  unfolding entered_def
proof (intro allI impI)
  fix Status K assume "on_success r (\<lambda>Status. Status) k = Some (Status, K)"
  then obtain St J where r: "r = Some (St, J)"
    and k: "(if St \<noteq> XFSBL_SUCCESS then Some (St, J) else k J) = Some (Status, K)"
    by (auto simp: on_success_def bind_eq_Some_conv split: if_splits)
  have J: "same_table I J" by (rule keptD [OF assms(1) r])
  with k assms(2) [OF J] show "same_table I K \<and> (enter \<longrightarrow> Status \<noteq> XFSBL_SUCCESS) \<or>
      enter \<and> (\<exists>J. same_table I J \<and> update_handoff c p J = Some K)"
    by (auto simp: entered_def split: if_splits dest: same_table_trans)
qed

lemma entered_end: "entered c p enter I (map_option (\<lambda>I. (XFSBL_SUCCESS, I)) (if enter then update_handoff c p I else Some I))"
  by (auto simp: entered_def intro: exI [of _ I])

lemma PartitionValidation_entered:
  assumes p_def: "p = partition I n" and c_def: "c = destination_cpu_or (ProcessorID I) p"
  shows "entered c p (\<not> is_pl p \<and> c \<noteq> XIH_PH_ATTRB_DEST_CPU_PMU) I (XFsbl_PartitionValidation pf sx n I)"
proof (cases "is_pl p \<and> ResetReason I = XFSBL_PS_ONLY_RESET")
  case True
  then show ?thesis by (simp add: XFsbl_PartitionValidation_def Let_def p_def c_def entered_def)
next
  case False
  obtain Status a where v: "validation_address c p = (Status, a)" by (cases "validation_address c p")
  show ?thesis
  proof (cases "Status = XFSBL_SUCCESS")
    case True
    show ?thesis
      unfolding XFsbl_PartitionValidation_def Let_def p_def [symmetric] c_def [symmetric] if_not_P [OF False] v prod.case True
      by (simp only: simp_thms if_False) (intro keeps entered_end)
  next
    case no: False
    then show ?thesis
      unfolding XFsbl_PartitionValidation_def Let_def p_def [symmetric] c_def [symmetric] if_not_P [OF False] v prod.case
      by (simp add: entered_def)
  qed
qed

lemma CheckPmuFw_same: "XFsbl_CheckPmuFw pf n I = Some J \<Longrightarrow> same_table I J"
  by (auto simp: XFsbl_CheckPmuFw_def split: if_splits)

lemma not_owner_status:
  assumes "fst (XFsbl_ValidatePartitionHeader hw cfg p cpu reset s) = XFSBL_SUCCESS_NOT_PARTITION_OWNER"
  shows "reset = XFSBL_MASTER_ONLY_RESET"
proof -
  have "check_xip p a e \<noteq> 2" "check_lengths p a e \<noteq> 2" "check_r5_to_a53_address p cpu c \<noteq> 2" "check_types p cpu c \<noteq> 2"
    "XFsbl_CheckValidMemoryAddress cfg b c d \<noteq> 2" for a e c b d
    by (simp_all add: check_xip_def check_lengths_def check_r5_to_a53_address_def check_types_def XFsbl_CheckValidMemoryAddress_def Let_def)
  then have "check_partition_owner p cpu reset = 2"
    using assms unfolding ValidatePartitionHeader_status Let_def status_seq_def by (auto split: if_splits)
  then show ?thesis by (auto simp: check_partition_owner_def Let_def split: if_splits)
qed

lemma HeaderValidation_status:
  assumes "XFsbl_PartitionHeaderValidation pf cfg n I = (h, J)"
  shows "same_table I J"
    and "h = XFSBL_SUCCESS \<Longrightarrow> fst (XFsbl_ValidatePartitionHeader (pf_bus pf) cfg (partition I n) (ProcessorID I) (ResetReason I) (machine I)) = XFSBL_SUCCESS"
    and "h = XFSBL_SUCCESS_NOT_PARTITION_OWNER \<Longrightarrow>
      XFsbl_GetPartitionOwner (partition I n) \<noteq> XIH_PH_ATTRB_PART_OWNER_FSBL \<or> ResetReason I = XFSBL_MASTER_ONLY_RESET"
proof -
  obtain v s where v: "XFsbl_ValidatePartitionHeader (pf_bus pf) cfg (partition I n) (ProcessorID I) (ResetReason I) (machine I) = (v, s)"
    by (cases "XFsbl_ValidatePartitionHeader (pf_bus pf) cfg (partition I n) (ProcessorID I) (ResetReason I) (machine I)")
  note u = assms [unfolded XFsbl_PartitionHeaderValidation_def Let_def v prod.case]
  show "same_table I J" using u by (auto split: if_splits)
  show "h = XFSBL_SUCCESS \<Longrightarrow> fst (XFsbl_ValidatePartitionHeader (pf_bus pf) cfg (partition I n) (ProcessorID I) (ResetReason I) (machine I)) = XFSBL_SUCCESS"
    using u v by (auto split: if_splits)
  show "h = XFSBL_SUCCESS_NOT_PARTITION_OWNER \<Longrightarrow>
      XFsbl_GetPartitionOwner (partition I n) \<noteq> XIH_PH_ATTRB_PART_OWNER_FSBL \<or> ResetReason I = XFSBL_MASTER_ONLY_RESET"
    using u not_owner_status [of "pf_bus pf" cfg "partition I n" "ProcessorID I" "ResetReason I" "machine I"] v
    by (auto split: if_splits)
qed

text \<open>The validation of a copied partition, and the check of the PMU firmware after it.\<close>

lemma PartitionValidation_grows:
  assumes "partition I n = p" "destination_cpu_or (ProcessorID I) p = c" "c \<in> known_cpus" "table_grows c I0 I"
    and v: "XFsbl_PartitionValidation pf sx n I = Some (St, J)"
    and enter: "enter = (\<not> is_pl p \<and> c \<noteq> XIH_PH_ATTRB_DEST_CPU_PMU)"
  shows "table_grows c I0 J \<and> (enter \<and> St = XFSBL_SUCCESS \<longrightarrow> c \<in> set (table_cpus J))"
proof -
  from PartitionValidation_entered [OF assms(1) [symmetric] assms(2) [symmetric], of pf sx] v
  have "same_table I J \<and> (enter \<longrightarrow> St \<noteq> XFSBL_SUCCESS) \<or> enter \<and> (\<exists>K. same_table I K \<and> update_handoff c p K = Some J)"
    by (simp add: entered_def enter)
  then show ?thesis
  proof (elim disjE conjE exE)
    assume "same_table I J" "enter \<longrightarrow> St \<noteq> XFSBL_SUCCESS"
    with assms(4) same_table_ok [of I J] show ?thesis by (auto simp: table_grows_def same_table_def table_cpus_def)
  next
    fix K assume K: "same_table I K" "update_handoff c p K = Some J"
    have "table_grows c I0 K"
      using assms(4) same_table_ok [OF K(1)] K(1) by (simp add: table_grows_def same_table_def table_cpus_def)
    with update_handoff_ok [of K c p] assms(3) K(2) show ?thesis by (auto simp: table_grows_def)
  qed
qed

lemma validate_and_check_grows:
  assumes "partition I n = p" "destination_cpu_or (ProcessorID I) p = c" "c \<in> known_cpus" "table_grows c I0 I"
    and r: "on_success (XFsbl_PartitionValidation pf sx n I) (\<lambda>Status. Status)
      (\<lambda>I. map_option (\<lambda>I. (XFSBL_SUCCESS, I)) (XFsbl_CheckPmuFw pf n I)) = Some (Status, J)"
    and enter: "enter = (\<not> is_pl p \<and> c \<noteq> XIH_PH_ATTRB_DEST_CPU_PMU)"
  shows "table_grows c I0 J \<and> (enter \<and> Status = XFSBL_SUCCESS \<longrightarrow> c \<in> set (table_cpus J))"
proof -
  from r obtain St I3 where v: "XFsbl_PartitionValidation pf sx n I = Some (St, I3)"
    and r3: "(if St \<noteq> XFSBL_SUCCESS then Some (St, I3) else map_option (\<lambda>I. (XFSBL_SUCCESS, I)) (XFsbl_CheckPmuFw pf n I3)) = Some (Status, J)"
    by (rule on_success_elim)
  have J: "same_table I3 J" and St: "Status = XFSBL_SUCCESS \<longrightarrow> St = XFSBL_SUCCESS"
    using r3 CheckPmuFw_same [of pf n I3] by (auto split: if_splits)
  from PartitionValidation_grows [OF assms(1-4) v enter] J St same_table_ok [OF J] show ?thesis
    by (auto simp: table_grows_def same_table_def table_cpus_def)
qed

text \<open>
  C39. Loading a partition keeps the table of CPUs to hand over to well-formed: at most eight entries in the array
  of ten, for different CPUs of the chip. It stays the same or grows by the CPU the partition is for, and except
  after a reset of one cluster only, that CPU is in it when a partition of the loader's own was loaded for the
  processing system and not for the PMU.
\<close>

theorem handoff_table_invariant:
  assumes "table_ok I" and r: "XFsbl_PartitionLoad pf sx cfg n I = Some (Status, J)"
  shows "table_ok J \<and> HandoffCpuNo J \<le> 8 \<and>
    (let p = partition I n; c = destination_cpu_or (ProcessorID I) p in
       (table_cpus J = table_cpus I \<or> c \<notin> set (table_cpus I) \<and> table_cpus J = table_cpus I @ [c]) \<and>
       (Status = XFSBL_SUCCESS \<and> XFsbl_GetPartitionOwner p = XIH_PH_ATTRB_PART_OWNER_FSBL \<and>
          ResetReason I \<noteq> XFSBL_MASTER_ONLY_RESET \<and> \<not> is_pl p \<and> c \<noteq> XIH_PH_ATTRB_DEST_CPU_PMU \<longrightarrow> c \<in> set (table_cpus J)))"
proof -
  define p where "p = partition I n"
  define c where "c = destination_cpu_or (ProcessorID I) p"
  define enter where "enter = (\<not> is_pl p \<and> c \<noteq> XIH_PH_ATTRB_DEST_CPU_PMU)"
  define I0 where "I0 = with_machine (XFsbl_RestartWdt pf (ResetReason I)) I"
  obtain h I1 where h: "XFsbl_PartitionHeaderValidation pf cfg n I0 = (h, I1)" by (cases "XFsbl_PartitionHeaderValidation pf cfg n I0")
  have I1: "same_table I I1"
    by (rule same_table_trans [OF _ HeaderValidation_status(1) [OF h]]) (simp add: I0_def)
  have i0: "partition I0 n = p" "ProcessorID I0 = ProcessorID I" "ResetReason I0 = ResetReason I"
    by (simp_all add: I0_def with_machine_def p_def)
  have pc: "partition I1 n = p" "destination_cpu_or (ProcessorID I1) p = c" "table_ok I1" "table_cpus I1 = table_cpus I"
    using assms(1) same_table_ok [OF I1] I1 by (simp_all add: p_def c_def same_table_def table_cpus_def)
  have "table_grows c I J \<and> (Status = XFSBL_SUCCESS \<and> XFsbl_GetPartitionOwner p = XIH_PH_ATTRB_PART_OWNER_FSBL \<and>
      ResetReason I \<noteq> XFSBL_MASTER_ONLY_RESET \<and> enter \<longrightarrow> c \<in> set (table_cpus J))"
  proof (cases "h = XFSBL_SUCCESS")
    case False
    from r False h have "J = I1 \<and> (Status = XFSBL_SUCCESS \<longrightarrow> h = XFSBL_SUCCESS_NOT_PARTITION_OWNER)"
      by (auto simp: XFsbl_PartitionLoad_def I0_def split: if_splits)
    with HeaderValidation_status(3) [OF h] i0 pc show ?thesis by (auto simp: table_grows_def)
  next
    case True
    have known: "c \<in> known_cpus"
      using accepted_cpu [OF HeaderValidation_status(2) [OF h True]] assms(1) i0 by (simp add: table_ok_def c_def)
    from r h True have "on_success (XFsbl_PartitionCopy pf n I1) (\<lambda>Status. Status) (\<lambda>I.
        on_success (XFsbl_PartitionValidation pf sx n I) (\<lambda>Status. Status) (\<lambda>I.
          map_option (\<lambda>I. (XFSBL_SUCCESS, I)) (XFsbl_CheckPmuFw pf n I))) = Some (Status, J)"
      by (simp add: XFsbl_PartitionLoad_def I0_def)
    then obtain St2 I2 where c2: "XFsbl_PartitionCopy pf n I1 = Some (St2, I2)"
      and r2: "(if St2 \<noteq> XFSBL_SUCCESS then Some (St2, I2) else on_success (XFsbl_PartitionValidation pf sx n I2) (\<lambda>Status. Status)
        (\<lambda>I. map_option (\<lambda>I. (XFSBL_SUCCESS, I)) (XFsbl_CheckPmuFw pf n I))) = Some (Status, J)"
      by (rule on_success_elim)
    note t2 = PartitionCopy_table [OF pc(3), of n, unfolded pc(1,2), OF known c2]
    then have g2: "table_grows c I I2" using pc(4) by (simp add: table_grows_def)
    show ?thesis
    proof (cases "St2 = XFSBL_SUCCESS")
      case False
      with r2 g2 show ?thesis by auto
    next
      case True
      with r2 have "on_success (XFsbl_PartitionValidation pf sx n I2) (\<lambda>Status. Status)
        (\<lambda>I. map_option (\<lambda>I. (XFSBL_SUCCESS, I)) (XFsbl_CheckPmuFw pf n I)) = Some (Status, J)" by simp
      from validate_and_check_grows [OF _ _ known g2 this enter_def] t2(2,3) pc show ?thesis by simp
    qed
  qed
  moreover have "table_ok J \<Longrightarrow> HandoffCpuNo J \<le> 8" by (simp add: table_ok_def word_le_nat_alt)
  ultimately show ?thesis unfolding table_grows_def Let_def p_def c_def enter_def by blast
qed

section \<open>Signed partitions\<close>

lemma update_handoff_machine: "update_handoff c p I = Some J \<Longrightarrow> machine J = machine I"
  by (auto simp: update_handoff_def Let_def split: if_splits)

lemma PartitionValidation_signed:
  assumes p: "p = partition I n" and c: "c = destination_cpu_or (ProcessorID I) p"
    and "is_signed p" "\<not> is_pl p" "\<not> is_encrypted p"
    and r: "XFsbl_PartitionValidation pf sx n I = Some (XFSBL_SUCCESS, J)"
  shows "\<exists>a s. XFsbl_GetLoadAddress c (DestinationLoadAddress p) (TotalDataWordLength p * 4) = (XFSBL_SUCCESS, a) \<and>
    XFsbl_Authentication pf sx (EfusePpkKey I) a (TotalDataWordLength p * 4) (pf_AuthBuffer pf) s = (XFSBL_SUCCESS, machine J)"
proof -
  obtain Status a where v: "XFsbl_GetLoadAddress c (DestinationLoadAddress p) (TotalDataWordLength p * 4) = (Status, a)"
    by (cases "XFsbl_GetLoadAddress c (DestinationLoadAddress p) (TotalDataWordLength p * 4)")
  have va: "validation_address c p = (Status, a)" using assms(3,4) v by (simp add: validation_address_def)
  from r va assms(4) have ok: "Status = XFSBL_SUCCESS"
    by (auto simp: XFsbl_PartitionValidation_def Let_def p [symmetric] c [symmetric] split: if_splits)
  define rest where "rest = (\<lambda>I. on_success (decrypt_data sx a p I) (\<lambda>Status. Status) (\<lambda>I.
     on_success (load_plain_bitstream pf sx a p I) (\<lambda>Status. Status) (\<lambda>I.
     on_success (after_bitstream pf p I) (\<lambda>Status. Status) (\<lambda>I.
       map_option (\<lambda>I. (XFSBL_SUCCESS, I))
         (if \<not> is_pl p \<and> c \<noteq> XIH_PH_ATTRB_DEST_CPU_PMU then update_handoff c p I else Some I)))))"
  have "on_success (init_aes sx p (partition_iv (BootIv I) p) I) (\<lambda>Status. Status) (\<lambda>I.
     on_success (before_bitstream pf p I) (\<lambda>Status. Status) (\<lambda>I.
     on_success (verify_checksum pf sx a n I) (\<lambda>Status. Status) (\<lambda>I.
     on_success (verify_signature pf sx a n I) (\<lambda>Status. Status) rest))) = Some (XFSBL_SUCCESS, J)"
    using r assms(4) unfolding XFsbl_PartitionValidation_def Let_def p [symmetric] c [symmetric] va ok rest_def
    by (simp only: prod.case simp_thms if_False)
  then obtain I1 I2 I3 I4 where r1: "init_aes sx p (partition_iv (BootIv I) p) I = Some (XFSBL_SUCCESS, I1)"
    and r2: "before_bitstream pf p I1 = Some (XFSBL_SUCCESS, I2)" and r3: "verify_checksum pf sx a n I2 = Some (XFSBL_SUCCESS, I3)"
    and r4: "verify_signature pf sx a n I3 = Some (XFSBL_SUCCESS, I4)" and r5: "rest I4 = Some (XFSBL_SUCCESS, J)"
    unfolding on_success_keep by blast
  have t: "same_table I I3"
    using keptD [OF kept_init_aes r1] keptD [OF kept_before_bitstream r2] keptD [OF kept_verify_checksum r3]
    by (blast intro: same_table_trans)
  then have q: "partition I3 n = p" "EfusePpkKey I3 = EfusePpkKey I" by (simp_all add: p same_table_def)
  have "machine J = machine I4"
    using r5 assms(4,5) update_handoff_machine [of c p I4 J]
    by (auto simp: rest_def decrypt_data_def load_plain_bitstream_def after_bitstream_def on_success_def split: if_splits)
  moreover have "XFsbl_Authentication pf sx (EfusePpkKey I) a (TotalDataWordLength p * 4) (pf_AuthBuffer pf) (machine I3) = (XFSBL_SUCCESS, machine I4)"
    using r4 assms(3,4) q by (auto simp: verify_signature_def Let_def on_machine_def split: prod.splits)
  ultimately show ?thesis using v ok by auto
qed

lemma PartitionLoad_success:
  assumes r: "XFsbl_PartitionLoad pf sx cfg n I = Some (XFSBL_SUCCESS, J)"
    and "XFsbl_GetPartitionOwner (partition I n) = XIH_PH_ATTRB_PART_OWNER_FSBL" "ResetReason I \<noteq> XFSBL_MASTER_ONLY_RESET"
  obtains I1 I2 I3 where "same_table I I1" "XFsbl_PartitionCopy pf n I1 = Some (XFSBL_SUCCESS, I2)"
    "XFsbl_PartitionValidation pf sx n I2 = Some (XFSBL_SUCCESS, I3)" "XFsbl_CheckPmuFw pf n I3 = Some J"
    "EfusePpkKey I2 = EfusePpkKey I" "partition I2 n = partition I n" "ProcessorID I2 = ProcessorID I"
    "DeviceCopy I1 = DeviceCopy I" "ImageOffsetAddress I1 = ImageOffsetAddress I"
proof -
  define I0 where "I0 = with_machine (XFsbl_RestartWdt pf (ResetReason I)) I"
  obtain h I1 where h: "XFsbl_PartitionHeaderValidation pf cfg n I0 = (h, I1)" by (cases "XFsbl_PartitionHeaderValidation pf cfg n I0")
  have I1: "same_table I I1"
    by (rule same_table_trans [OF _ HeaderValidation_status(1) [OF h]]) (simp add: I0_def)
  have d: "DeviceCopy I1 = DeviceCopy I" "ImageOffsetAddress I1 = ImageOffsetAddress I"
    using h by (auto simp: XFsbl_PartitionHeaderValidation_def Let_def I0_def with_machine_def split: if_splits prod.splits)
  have "h \<noteq> XFSBL_SUCCESS_NOT_PARTITION_OWNER"
    using HeaderValidation_status(3) [OF h] assms(2,3) by (auto simp: I0_def with_machine_def)
  with r h have "on_success (XFsbl_PartitionCopy pf n I1) (\<lambda>Status. Status) (\<lambda>I.
        on_success (XFsbl_PartitionValidation pf sx n I) (\<lambda>Status. Status) (\<lambda>I.
          map_option (\<lambda>I. (XFSBL_SUCCESS, I)) (XFsbl_CheckPmuFw pf n I))) = Some (XFSBL_SUCCESS, J)"
    by (auto simp: XFsbl_PartitionLoad_def I0_def split: if_splits)
  then obtain I2 I3 where c: "XFsbl_PartitionCopy pf n I1 = Some (XFSBL_SUCCESS, I2)"
    "XFsbl_PartitionValidation pf sx n I2 = Some (XFSBL_SUCCESS, I3)" "XFsbl_CheckPmuFw pf n I3 = Some J"
    unfolding on_success_keep by auto
  have "EfusePpkKey I2 = EfusePpkKey I1 \<and> ImageHeader_of I2 = ImageHeader_of I1 \<and> ProcessorID I2 = ProcessorID I1"
  proof (cases "UnEncryptedDataWordLength (partition I1 n) = 0")
    case True
    with c(1) show ?thesis by (auto simp: XFsbl_PartitionCopy_def Let_def update_handoff_def split: if_splits)
  next
    case False
    have "kept I1 (XFsbl_PartitionCopy pf n I1)"
      unfolding XFsbl_PartitionCopy_def Let_def if_not_P [OF False] by (intro keeps) simp
    from keptD [OF this c(1)] show ?thesis by (simp add: same_table_def)
  qed
  with I1 have "EfusePpkKey I2 = EfusePpkKey I" "partition I2 n = partition I n" "ProcessorID I2 = ProcessorID I"
    by (simp_all add: same_table_def)
  with that [OF I1 c] d show ?thesis by blast
qed

text \<open>
  C40. When a signed and unencrypted partition of the loader's own has been loaded for a processor other than the
  PMU, the memory it leaves holds, at the address its processor sees as the load address, data that
  together with the certificate in the loader's buffer carries a signature under a secondary key which itself is
  signed by the saved primary key and is not revoked.
\<close>

theorem signed_partition_verified:
  assumes "fuses_quiet pf sx" and "XFsbl_PartitionLoad pf sx cfg n I = Some (XFSBL_SUCCESS, J)"
    and "p = partition I n" "is_signed p" "\<not> is_encrypted p" "\<not> is_pl p"
    and "XFsbl_GetPartitionOwner p = XIH_PH_ATTRB_PART_OWNER_FSBL" "ResetReason I \<noteq> XFSBL_MASTER_ONLY_RESET"
    and "c = destination_cpu_or (ProcessorID I) p" "c \<noteq> XIH_PH_ATTRB_DEST_CPU_PMU"
  shows "\<exists>a. XFsbl_GetLoadAddress c (DestinationLoadAddress p) (TotalDataWordLength p * 4) = (XFSBL_SUCCESS, a) \<and>
    spk_trusted pf sx (EfusePpkKey I) (pf_AuthBuffer pf) (machine J) \<and>
    signature_ok sx (spk_key pf (machine J) (pf_AuthBuffer pf))
      (signature_at pf (machine J) (pf_AuthBuffer pf + PARTITION_SIG_OFFSET))
      (partition_hash pf sx (machine J) a (TotalDataWordLength p * 4) (pf_AuthBuffer pf))"
proof -
  have own: "XFsbl_GetPartitionOwner (partition I n) = XIH_PH_ATTRB_PART_OWNER_FSBL" using assms(3,7) by simp
  from PartitionLoad_success [OF assms(2) own assms(8)] obtain I2 I3 where
    v: "XFsbl_PartitionValidation pf sx n I2 = Some (XFSBL_SUCCESS, I3)" and k: "XFsbl_CheckPmuFw pf n I3 = Some J"
    and e: "EfusePpkKey I2 = EfusePpkKey I" "partition I2 n = partition I n" "ProcessorID I2 = ProcessorID I" by metis
  from PartitionValidation_signed [of p I2 n c pf sx I3] assms e v obtain a s where
    a: "XFsbl_GetLoadAddress c (DestinationLoadAddress p) (TotalDataWordLength p * 4) = (XFSBL_SUCCESS, a)"
    and s: "XFsbl_Authentication pf sx (EfusePpkKey I) a (TotalDataWordLength p * 4) (pf_AuthBuffer pf) s = (XFSBL_SUCCESS, machine I3)"
    by auto
  have "ImageHeader_of I3 = ImageHeader_of I2"
    using PartitionValidation_entered [OF refl refl, of I2 n pf sx] v
    by (auto simp: entered_def same_table_def dest!: update_handoff_same)
  then have "\<not> pmu_fw_loaded I3 n"
    using assms(3,9,10) e by (auto simp: pmu_fw_loaded_def destination_cpu_or_def split: if_splits)
  then have J: "J = I3" using k by (simp add: XFsbl_CheckPmuFw_def)
  note i = Authentication_iff [OF assms(1), where PpkKey = "EfusePpkKey I" and PartitionOffset = a and
      PartitionLen = "TotalDataWordLength p * 4" and ac = "pf_AuthBuffer pf" and s = s, unfolded s fst_conv snd_conv]
  show ?thesis
    using a i(1) unfolding J same_view_mem [OF i(2)] trusted_view [OF i(2)] by auto
qed

section \<open>An example\<close>

text \<open>A signed partition for the first A53, loaded at \<open>0x100000\<close>, with the certificate of \<open>demo_signed\<close>.\<close>

definition demo_signed_header :: XFsblPs_PartitionHeader where
  "demo_signed_header =
     \<lparr>EncryptedDataWordLength = 4, UnEncryptedDataWordLength = 4, TotalDataWordLength = 948, NextPartitionOffset = 0,
      DestinationExecutionAddress = 0x100000, DestinationLoadAddress = 0x100000, DataWordOffset = 0,
      PartitionAttributes = 0x8110, SectionCount = 0, ChecksumWordOffset = 0, ImageHeaderOffset = 0,
      PH_AuthCertificateOffset = 0, PH_Iv = 0, PH_Checksum = 0xffdf7b33\<rparr>"

definition demo_key :: "u8 list" where "demo_key = replicate 1088 0"

definition demo_instance :: "demo XFsblPs" where
  "demo_instance =
     \<lparr>ProcessorID = 0x100, A53ExecState = 0, BootHdrAttributes = 0, ImageOffsetAddress = 0,
      ImageHeader_of = \<lparr>ImageHeaderTable = demo_table, PartitionHeader = [demo_signed_header, demo_signed_header]\<rparr>,
      ErrorCode = 0, PrimaryBootDevice = 1, SecondaryBootDevice = 0, DeviceCopy = \<lambda>_ _ _ s. Some (XFSBL_SUCCESS, s),
      HandoffCpuNo = 0, ResetReason = 0, TcmEccInitStatus = 0, HandoffValues = replicate 10 (0, 0), machine = demo_signed,
      EfusePpkKey = demo_key,
      SecureAes_of = \<lparr>KeySel = XSECURE_CSU_AES_KEY_SRC_DEV, KeyGiven = False, SizeofData = 0, IvAddr = 0\<rparr>,
      BootIv = replicate 16 0, ATFHandoffParams_of = \<lparr>MagicValue = [0, 0, 0, 0], NumEntries = 0, Entry = replicate 8 \<lparr>EntryPoint = 0, PartitionFlags = 0\<rparr>\<rparr>\<rparr>"

definition demo_loaded :: "demo XFsblPs" where
  "demo_loaded = demo_instance\<lparr>HandoffValues := (replicate 10 (0, 0))[0 := (0x100, 0x100000)], HandoffCpuNo := 1\<rparr>"

lemmas demo_header_simps =
  demo_signed_header_def is_signed_def is_encrypted_def is_pl_def XFsbl_IsRsaSignaturePresent_def XFsbl_IsEncrypted_def
  XFsbl_GetDestinationDevice_def XFsbl_GetChecksumType_def XFsbl_GetDestinationCpu_def XFsbl_GetPartitionOwner_def
  XFsbl_GetA53ExecState_def destination_cpu_or_def

lemma demo_header [simp]:
  "is_signed demo_signed_header" "\<not> is_encrypted demo_signed_header" "\<not> is_pl demo_signed_header"
  "destination_cpu_or cpu demo_signed_header = 0x100" "XFsbl_GetPartitionOwner demo_signed_header = 0"
  "XFsbl_GetChecksumType demo_signed_header = 0" "XFsbl_GetDestinationCpu demo_signed_header = 0x100"
  "XFsbl_GetA53ExecState demo_signed_header = 0" "TotalDataWordLength demo_signed_header * 4 = 3792"
  "UnEncryptedDataWordLength demo_signed_header = 4" "DestinationLoadAddress demo_signed_header = 0x100000"
  by (simp_all add: demo_header_simps)

lemma demo_header_valid:
  "XFsbl_PartitionHeaderValidation demo_platform demo_config 1 demo_instance = (XFSBL_SUCCESS, demo_instance)"
proof -
  have c: "XFsbl_ValidateChecksum (words_of_ph demo_signed_header) 16 = XFSBL_SUCCESS"
    by (simp add: ValidateChecksum_sum words_of_ph_def demo_signed_header_def)
  have "XFsbl_ValidatePartitionHeader (pf_bus demo_platform) demo_config demo_signed_header 0x100 0 demo_signed = (XFSBL_SUCCESS, demo_signed)"
    by (simp add: XFsbl_ValidatePartitionHeader_def demo_config_def check_partition_owner_def check_xip_def check_lengths_def
        XFsbl_CheckValidMemoryAddress_def check_r5_to_a53_address_def check_types_def status_seq_def demo_header_simps
        demo_signed_def word_le_nat_alt word_less_nat_alt)
  with c show ?thesis by (simp add: XFsbl_PartitionHeaderValidation_def demo_instance_def)
qed

lemma demo_Authentication:
  "XFsbl_Authentication demo_platform demo_secure demo_key 0x100000 3792 0x200000 demo_signed = (XFSBL_SUCCESS, demo_signed)"
proof -
  have "fst (XFsbl_Authentication demo_platform demo_secure demo_key 0x100000 3792 0x200000 demo_signed) = XFSBL_SUCCESS"
    unfolding Authentication_iff(1) [OF demo_quiet] by (intro conjI demo_csu_dma demo_trusted [folded demo_key_def] demo_partition_signed)
  moreover have "snd (XFsbl_Authentication demo_platform demo_secure demo_key 0x100000 3792 0x200000 demo_signed) = demo_signed"
    using demo_SpkVer_keeps [of demo_key "0x200000" demo_signed]
    by (cases "XFsbl_SpkVer demo_platform demo_secure demo_key 0x200000 demo_signed") (simp add: XFsbl_Authentication_def)
  ultimately show ?thesis by (simp add: prod_eq_iff)
qed

lemma demo_instance_fields [simp]:
  "PartitionHeader (ImageHeader_of demo_instance) = [demo_signed_header, demo_signed_header]"
  "machine demo_instance = demo_signed" "ProcessorID demo_instance = 0x100"
  "ResetReason demo_instance = 0" "EfusePpkKey demo_instance = demo_key"
  "DeviceCopy demo_instance = (\<lambda>_ _ _ s. Some (XFSBL_SUCCESS, s))" "HandoffCpuNo demo_instance = 0"
  "HandoffValues demo_instance = replicate 10 (0, 0)"
  by (simp_all add: demo_instance_def)

lemma demo_instance_same [simp]: "demo_instance\<lparr>machine := demo_signed\<rparr> = demo_instance"
  by (simp add: demo_instance_def)

lemma demo_auth_buffer [simp]: "pf_AuthBuffer demo_platform = 0x200000" "pf_wdt demo_platform = None"
  by (simp_all add: demo_platform_def)

lemma demo_load_address [simp]: "XFsbl_GetLoadAddress 0x100 a len = (XFSBL_SUCCESS, a)"
  by (simp add: XFsbl_GetLoadAddress_def)

lemma demo_copy_data: "copy_data demo_platform 0x100 demo_signed_header demo_instance = Some (XFSBL_SUCCESS, demo_instance)"
  by (simp add: copy_data_def XFsbl_ConfigureMemory_def on_success_def on_machine_def staged_address_def)

lemma demo_copy: "XFsbl_PartitionCopy demo_platform 1 demo_instance = Some (XFSBL_SUCCESS, demo_instance)"
  by (simp add: XFsbl_PartitionCopy_def Let_def demo_copy_data on_machine_def) (simp add: on_success_def demo_copy_data)

lemma demo_update: "update_handoff 0x100 demo_signed_header demo_instance = Some demo_loaded"
  by (simp add: update_handoff_def XFsbl_CheckHandoffCpu_def demo_loaded_def) (simp add: demo_signed_header_def)

lemma demo_signature:
  "verify_signature demo_platform demo_secure 0x100000 1 demo_instance = Some (XFSBL_SUCCESS, demo_instance)"
  by (simp add: verify_signature_def on_machine_def demo_Authentication)

lemma demo_validation:
  "XFsbl_PartitionValidation demo_platform demo_secure 1 demo_instance = Some (XFSBL_SUCCESS, demo_loaded)"
  by (simp add: XFsbl_PartitionValidation_def validation_address_def init_aes_def before_bitstream_def verify_checksum_def
      demo_signature decrypt_data_def load_plain_bitstream_def after_bitstream_def on_success_def demo_update Let_def)

lemma demo_load: "XFsbl_PartitionLoad demo_platform demo_secure demo_config 1 demo_instance = Some (XFSBL_SUCCESS, demo_loaded)"
proof -
  have w: "with_machine (XFsbl_RestartWdt demo_platform 0) demo_instance = demo_instance"
    by (simp add: with_machine_def XFsbl_RestartWdt_def)
  have "partition demo_loaded 1 = demo_signed_header" by (simp add: demo_loaded_def demo_instance_def)
  then have "\<not> pmu_fw_loaded demo_loaded 1" by (simp add: pmu_fw_loaded_def)
  then show ?thesis
    by (simp add: XFsbl_PartitionLoad_def w demo_header_valid demo_copy demo_validation on_success_def XFsbl_CheckPmuFw_def)
qed

theorem handoff_table_invariant_witness:
  "table_ok demo_loaded \<and> table_cpus demo_loaded = [0x100] \<and> 0x100 \<in> set (table_cpus demo_loaded)"
proof -
  have "table_ok demo_instance" "table_cpus demo_instance = []"
    by (simp_all add: table_ok_def table_cpus_def demo_instance_def known_cpus_def)
  moreover have "partition demo_instance 1 = demo_signed_header" "ResetReason demo_instance = 0"
    by (simp_all add: demo_instance_def)
  ultimately show ?thesis
    using handoff_table_invariant [OF _ demo_load] by (auto simp: Let_def)
qed

theorem signed_partition_verified_witness:
  "spk_trusted demo_platform demo_secure (EfusePpkKey demo_instance) (pf_AuthBuffer demo_platform) (machine demo_loaded)"
proof -
  have "demo_signed_header = partition demo_instance 1" "(0x100 :: u32) = destination_cpu_or (ProcessorID demo_instance) demo_signed_header"
    "ResetReason demo_instance \<noteq> XFSBL_MASTER_ONLY_RESET" "(0x100 :: u32) \<noteq> XIH_PH_ATTRB_DEST_CPU_PMU"
    by simp_all
  from signed_partition_verified [OF demo_quiet demo_load this(1) demo_header(1-3,5) this(3,2,4)]
  show ?thesis by blast
qed

end
