(* ===== verification/Boot_Header.thy ===== *)
theory Boot_Header
  imports Boot_Devices Partition_Load
begin

text \<open>
  The second stage of the loader (\<open>xfsbl_initialization.c\<close>): the boot device is chosen by the mode pins and
  initialised, the boot header and the image header are read, authenticated when the fuses or the boot
  header ask for it, and parsed; an image whose partitions lie on another device is followed there.
\<close>

section \<open>The environment\<close>

text \<open>
  The addresses of the variables the device copies into: the local \<open>AcOffset\<close> and the image header of the
  instance (the table, then the partition headers, 64 bytes each); \<open>be_AtfParams\<close> is the address of the
  parameters of the trusted firmware. Which devices the build has; the operations of the serial flash, on the
  machine; and the driver of the watch dog, with the counter value \<open>XFsbl_ConvertTime_WdtCounter\<close> computes in
  floating point.
\<close>

record 's boot_env =
  be_AcOffset :: u64
  be_ImageHeader :: u64
  be_AtfParams :: u32
  be_has_qspi :: bool
  be_has_nand :: bool
  be_has_sd0 :: bool
  be_has_sd1 :: bool
  be_Qspi24Init :: "'s \<Rightarrow> (u32 \<times> 's) option"
  be_Qspi24Copy :: "u32 \<Rightarrow> u64 \<Rightarrow> u32 \<Rightarrow> 's \<Rightarrow> (u32 \<times> 's) option"
  be_Qspi32Init :: "'s \<Rightarrow> (u32 \<times> 's) option"
  be_Qspi32Copy :: "u32 \<Rightarrow> u64 \<Rightarrow> u32 \<Rightarrow> 's \<Rightarrow> (u32 \<times> 's) option"
  be_fatfs :: "'s fatfs"
  be_nand :: "'s nand"
  be_WdtLookup :: bool
  be_WdtCfgInitialize :: "'s \<Rightarrow> u32 \<times> 's"
  be_WdtSetPrescale4096 :: "'s \<Rightarrow> 's"
  be_WdtCounter :: "u32 \<Rightarrow> 's \<Rightarrow> u32 \<times> 's"
  be_WdtSetReset :: "u32 \<Rightarrow> 's \<Rightarrow> 's"
  be_WdtEnableOutput :: "'s \<Rightarrow> 's"
  be_WdtStart :: "'s \<Rightarrow> 's"

section \<open>The watch dog\<close>

abbreviation (input) XFSBL_WDT_INIT_FAILED :: u32 where "XFSBL_WDT_INIT_FAILED \<equiv> 0x7"
abbreviation (input) XST_DEVICE_IS_STARTED :: u32 where "XST_DEVICE_IS_STARTED \<equiv> 5"
abbreviation (input) XFSBL_WDT_EXPIRE_TIME :: u32 where "XFSBL_WDT_EXPIRE_TIME \<equiv> 100"
abbreviation (input) PMU_GLOBAL_ERROR_SRST_EN_1 :: u64 where "PMU_GLOBAL_ERROR_SRST_EN_1 \<equiv> 0xFFD8056C"
abbreviation (input) PMU_GLOBAL_ERROR_EN_1 :: u64 where "PMU_GLOBAL_ERROR_EN_1 \<equiv> 0xFFD805A0"

definition XFsbl_InitWdt :: "'s platform \<Rightarrow> 's boot_env \<Rightarrow> u32 \<Rightarrow> 's \<Rightarrow> u32 \<times> 's" where
  "XFsbl_InitWdt pf be XFSBL_WDT_MASK s =
     (if \<not> be_WdtLookup be then (XFSBL_WDT_INIT_FAILED, s)
      else case be_WdtCfgInitialize be s of (Status, s) \<Rightarrow>
        if Status \<noteq> XFSBL_SUCCESS then (if Status = XST_DEVICE_IS_STARTED then XFSBL_SUCCESS else XFSBL_WDT_INIT_FAILED, s)
        else
          let s = be_WdtSetPrescale4096 be s;
              (CounterValue, s) = be_WdtCounter be XFSBL_WDT_EXPIRE_TIME s;
              s = be_WdtSetReset be CounterValue s;
              s = be_WdtEnableOutput be s;
              s = update_reg pf PMU_GLOBAL_ERROR_SRST_EN_1 (\<lambda>RegValue. RegValue OR XFSBL_WDT_MASK) s;
              s = update_reg pf PMU_GLOBAL_ERROR_EN_1 (\<lambda>RegValue. RegValue OR XFSBL_WDT_MASK) s;
              s = be_WdtStart be s
          in (XFSBL_SUCCESS, pf_WdtRestart pf s))"

section \<open>The boot device\<close>

abbreviation (input) CRL_APB_BOOT_MODE_USER :: u64 where "CRL_APB_BOOT_MODE_USER \<equiv> 0xFF5E0200"
abbreviation (input) CRL_APB_BOOT_MODE_USER_BOOT_MODE_MASK :: u32 where "CRL_APB_BOOT_MODE_USER_BOOT_MODE_MASK \<equiv> 0xF"
abbreviation (input) XFSBL_ERROR_UNSUPPORTED_BOOT_MODE :: u32 where "XFSBL_ERROR_UNSUPPORTED_BOOT_MODE \<equiv> 0x6"

datatype device_kind = Dev_Qspi24 | Dev_Qspi32 | Dev_Nand | Dev_Sd

text \<open>The members \<open>DeviceInit\<close> and \<open>DeviceCopy\<close> of \<open>DeviceOps\<close>.\<close>

definition device_init :: "'s platform \<Rightarrow> 's boot_env \<Rightarrow> device_kind \<Rightarrow> u32 \<Rightarrow> 's \<Rightarrow> (u32 \<times> 's) option" where
  "device_init pf be d DeviceFlags s =
     (case d of
        Dev_Qspi24 \<Rightarrow> be_Qspi24Init be s
      | Dev_Qspi32 \<Rightarrow> be_Qspi32Init be s
      | Dev_Nand \<Rightarrow> Some (XFsbl_NandInit (be_nand be) s)
      | Dev_Sd \<Rightarrow> Some (XFsbl_SdInit pf (be_fatfs be) DeviceFlags s))"

definition device_copy_of :: "'s platform \<Rightarrow> 's boot_env \<Rightarrow> device_kind \<Rightarrow> u32 \<Rightarrow> u64 \<Rightarrow> u32 \<Rightarrow> 's \<Rightarrow> (u32 \<times> 's) option" where
  "device_copy_of pf be d =
     (case d of
        Dev_Qspi24 \<Rightarrow> be_Qspi24Copy be
      | Dev_Qspi32 \<Rightarrow> be_Qspi32Copy be
      | Dev_Nand \<Rightarrow> \<lambda>src dst len s. Some (XFsbl_NandCopy pf (be_nand be) src dst len s)
      | Dev_Sd \<Rightarrow> \<lambda>src dst len s. Some (XFsbl_SdCopy (be_fatfs be) src dst len s))"

text \<open>The device of a boot mode, when the build supports it.\<close>

definition device_of_mode :: "'s boot_env \<Rightarrow> u32 \<Rightarrow> device_kind option" where
  "device_of_mode be BootMode =
     (if BootMode = XFSBL_QSPI24_BOOT_MODE then if be_has_qspi be then Some Dev_Qspi24 else None
      else if BootMode = XFSBL_QSPI32_BOOT_MODE then if be_has_qspi be then Some Dev_Qspi32 else None
      else if BootMode = XFSBL_NAND_BOOT_MODE then if be_has_nand be then Some Dev_Nand else None
      else if BootMode = XFSBL_SD0_BOOT_MODE \<or> BootMode = XFSBL_EMMC_BOOT_MODE then if be_has_sd0 be then Some Dev_Sd else None
      else if BootMode = XFSBL_SD1_BOOT_MODE \<or> BootMode = XFSBL_SD1_LS_BOOT_MODE then if be_has_sd1 be then Some Dev_Sd else None
      else None)"

definition is_device_mode :: "u32 \<Rightarrow> bool" where
  "is_device_mode BootMode \<longleftrightarrow> BootMode \<in> {XFSBL_QSPI24_BOOT_MODE, XFSBL_QSPI32_BOOT_MODE, XFSBL_NAND_BOOT_MODE, XFSBL_SD0_BOOT_MODE,
     XFSBL_EMMC_BOOT_MODE, XFSBL_SD1_BOOT_MODE, XFSBL_SD1_LS_BOOT_MODE, XFSBL_USB_BOOT_MODE}"

definition init_watchdog :: "'s platform \<Rightarrow> 's boot_env \<Rightarrow> u32 \<Rightarrow> 's \<Rightarrow> u32 \<times> 's" where
  "init_watchdog pf be Reason s =
     (case pf_wdt pf of
        Some XFSBL_WDT_MASK \<Rightarrow> if Reason \<noteq> XFSBL_MASTER_ONLY_RESET then XFsbl_InitWdt pf be XFSBL_WDT_MASK s else (XFSBL_SUCCESS, s)
      | None \<Rightarrow> (XFSBL_SUCCESS, s))"

definition init_drivers :: "'s platform \<Rightarrow> ('s, 'h) secure \<Rightarrow> 's boot_env \<Rightarrow> u32 \<Rightarrow> u32 \<Rightarrow> 's \<Rightarrow> u32 \<times> 's" where
  "init_drivers pf sx be BootMode Reason s =
     (if is_device_mode BootMode then
        case init_watchdog pf be Reason s of (Status, s) \<Rightarrow>
          if Status \<noteq> XFSBL_SUCCESS then (Status, s) else XFsbl_CsuDmaInit sx s
      else (XFSBL_SUCCESS, s))"

definition XFsbl_PrimaryBootDeviceInit ::
  "'s platform \<Rightarrow> ('s, 'h) secure \<Rightarrow> 's boot_env \<Rightarrow> 's XFsblPs \<Rightarrow> (u32 \<times> 's XFsblPs) option" where
  "XFsbl_PrimaryBootDeviceInit pf sx be I =
     (let (v, s) = In32 (pf_bus pf) (machine I) CRL_APB_BOOT_MODE_USER;
          BootMode = v AND CRL_APB_BOOT_MODE_USER_BOOT_MODE_MASK;
          I = I\<lparr>PrimaryBootDevice := BootMode\<rparr>;
          (Status, s) = init_drivers pf sx be BootMode (ResetReason I) s;
          I = I\<lparr>machine := s\<rparr>
      in if Status \<noteq> XFSBL_SUCCESS then Some (Status, I)
         else if BootMode = XFSBL_JTAG_BOOT_MODE then Some (XFSBL_STATUS_JTAG, I)
         else case device_of_mode be BootMode of
           None \<Rightarrow> Some (XFSBL_ERROR_UNSUPPORTED_BOOT_MODE, I)
         | Some d \<Rightarrow> on_machine (device_init pf be d BootMode) (I\<lparr>DeviceCopy := device_copy_of pf be d\<rparr>))"

section \<open>Reading the image header into the instance\<close>

text \<open>
  \<open>XFsbl_ReadImageHeader\<close> copies the table and then one partition header after the other; \<open>k\<close> of them have been
  copied before. A copy that does not return leaves no machine.
\<close>

definition header_address :: "'s boot_env \<Rightarrow> nat \<Rightarrow> u64" where
  "header_address be k = be_ImageHeader be + of_nat (64 * k)"

definition header_copy ::
  "'s platform \<Rightarrow> 's boot_env \<Rightarrow> (u32 \<Rightarrow> u64 \<Rightarrow> u32 \<Rightarrow> 's \<Rightarrow> (u32 \<times> 's) option) \<Rightarrow> ('s \<times> nat) option device_copy" where
  "header_copy pf be copy d off len =
     (case d of
        None \<Rightarrow> (XFSBL_FAILURE, \<lambda>_. 0, None)
      | Some (s, k) \<Rightarrow>
          (case copy off (header_address be k) len s of
             None \<Rightarrow> (XFSBL_FAILURE, \<lambda>_. 0, None)
           | Some (Status, s) \<Rightarrow> (Status, \<lambda>i. mem_word pf s (header_address be k + of_nat (4 * i)), Some (s, Suc k))))"

text \<open>The only register access is the write of \<open>GLOBAL_GEN_STORAGE6\<close> at the end: it is recorded and done on the machine then.\<close>

definition write_log :: "(u64 \<times> u32) list bus" where
  "write_log = \<lparr>In32 = \<lambda>l a. (0, l), Out32 = \<lambda>l a v. l @ [(a, v)]\<rparr>"

definition header_buffer :: "'s platform \<Rightarrow> 's \<Rightarrow> nat \<Rightarrow> u8" where
  "header_buffer pf s i = pf_read pf s (pf_ReadBuffer pf + of_nat i)"

definition load_image_header ::
  "'s platform \<Rightarrow> 's boot_env \<Rightarrow> bool \<Rightarrow> u32 \<Rightarrow> u32 \<Rightarrow> 's XFsblPs \<Rightarrow> (u32 \<times> 's XFsblPs) option" where
  "load_image_header pf be from_device FlashOffset IhtOffset I =
     (case XFsbl_ReadImageHeader write_log (be_AtfParams be)
             (if from_device then Some (header_copy pf be (DeviceCopy I)) else None) (header_buffer pf (machine I))
             FlashOffset (ProcessorID I) IhtOffset
             \<lparr>ImageHeader = ImageHeader_of I, ATFHandoffParams = ATFHandoffParams_of I,
              DeviceState = Some (machine I, 0), BusState = []\<rparr> of
        (Status, st) \<Rightarrow>
          map_option (\<lambda>(s, _). (Status, I\<lparr>ImageHeader_of := ImageHeader st, ATFHandoffParams_of := ATFHandoffParams st,
                                          machine := put_regs pf (BusState st) s\<rparr>)) (DeviceState st))"

section \<open>Validating the header\<close>

abbreviation (input) XIH_BH_IMAGE_ATTRB_OFFSET :: u64 where "XIH_BH_IMAGE_ATTRB_OFFSET \<equiv> 0x44"
abbreviation (input) XIH_BH_IH_TABLE_OFFSET :: u64 where "XIH_BH_IH_TABLE_OFFSET \<equiv> 0x98"
abbreviation (input) XIH_BH_IV_OFFSET :: u64 where "XIH_BH_IV_OFFSET \<equiv> 0xA0"
abbreviation (input) XIH_BH_IV_LENGTH :: nat where "XIH_BH_IV_LENGTH \<equiv> 16"
abbreviation (input) XIH_BH_IMAGE_ATTRB_RSA_MASK :: u32 where "XIH_BH_IMAGE_ATTRB_RSA_MASK \<equiv> 0xC000"
abbreviation (input) XIH_IHT_AC_OFFSET :: u32 where "XIH_IHT_AC_OFFSET \<equiv> 0x10"
abbreviation (input) XIH_FIELD_LEN :: u32 where "XIH_FIELD_LEN \<equiv> 4"
abbreviation (input) XFSBL_ERROR_IMAGE_HEADER_ACOFFSET :: u32 where "XFSBL_ERROR_IMAGE_HEADER_ACOFFSET \<equiv> 0x64"
abbreviation (input) XFSBL_ERROR_BH_AUTH_IS_NOTALLOWED :: u32 where "XFSBL_ERROR_BH_AUTH_IS_NOTALLOWED \<equiv> 0x70"
abbreviation (input) XFSBL_ERROR_IMAGE_HEADER_SIZE :: u32 where "XFSBL_ERROR_IMAGE_HEADER_SIZE \<equiv> 0x79"

text \<open>
  Where the image starts on the flash; in a file system at zero. The code of the secondary device is that of
  the image header table, and compared with the boot modes.
\<close>

definition image_offset :: "'s XFsblPs \<Rightarrow> u32 \<Rightarrow> u32" where
  "image_offset I MultiBootOffset =
     (let d = (if SecondaryBootDevice I = 0 then PrimaryBootDevice I else SecondaryBootDevice I)
      in if d = XFSBL_SD0_BOOT_MODE \<or> d = XFSBL_EMMC_BOOT_MODE \<or> d = XFSBL_SD1_BOOT_MODE \<or> d = XFSBL_SD1_LS_BOOT_MODE \<or>
            d = XFSBL_USB_BOOT_MODE
         then ImageOffsetAddress I else MultiBootOffset * XFSBL_IMAGE_SEARCH_OFFSET)"

definition copy_from :: "u32 \<Rightarrow> u64 \<Rightarrow> u32 \<Rightarrow> 's XFsblPs \<Rightarrow> (u32 \<times> 's XFsblPs) option" where
  "copy_from off dst len I = on_machine (DeviceCopy I off dst len) I"

text \<open>The image header, copied behind the boot header has been authenticated, and authenticated itself.\<close>

definition authenticate_table ::
  "'s platform \<Rightarrow> ('s, 'h) secure \<Rightarrow> u32 \<Rightarrow> u32 \<Rightarrow> 's XFsblPs \<Rightarrow> (u32 \<times> 's XFsblPs) option" where
  "authenticate_table pf sx AcOffset IhtOffset I =
     (let Size = AcOffset * XIH_PARTITION_WORD_LENGTH - IhtOffset
      in if Size > READ_BUFFER_SIZE then Some (XFSBL_ERROR_IMAGE_HEADER_SIZE, I)
         else on_success (copy_from (ImageOffsetAddress I + IhtOffset) (pf_ReadBuffer pf) Size I) (\<lambda>Status. Status) (\<lambda>I.
           case XFsbl_Authentication pf sx (EfusePpkKey I) (pf_ReadBuffer pf) (Size + XFSBL_AUTH_CERT_MIN_SIZE)
                  (pf_AuthBuffer pf) (machine I) of (Status, s) \<Rightarrow>
             let I = I\<lparr>machine := s\<rparr>
             in if Status \<noteq> XFSBL_SUCCESS then Some (Status, I)
                else if AcOffset \<noteq> mem_word pf (machine I) (pf_ReadBuffer pf + ucast XIH_IHT_AC_OFFSET)
                then Some (XFSBL_ERROR_IMAGE_HEADER_ACOFFSET, I) else Some (XFSBL_SUCCESS, I)))"

definition authenticate_header ::
  "'s platform \<Rightarrow> ('s, 'h) secure \<Rightarrow> 's boot_env \<Rightarrow> bool \<Rightarrow> u32 \<Rightarrow> 's XFsblPs \<Rightarrow> (u32 \<times> 's XFsblPs) option" where
  "authenticate_header pf sx be IsEfuseRsa IhtOffset I =
     on_success (copy_from (ImageOffsetAddress I + IhtOffset + XIH_IHT_AC_OFFSET) (be_AcOffset be) XIH_FIELD_LEN I)
       (\<lambda>Status. Status) (\<lambda>I.
       let AcOffset = mem_word pf (machine I) (be_AcOffset be)
       in if AcOffset = 0 then Some (XFSBL_ERROR_IMAGE_HEADER_ACOFFSET, I)
          else on_success (copy_from (ImageOffsetAddress I + AcOffset * XIH_PARTITION_WORD_LENGTH) (pf_AuthBuffer pf)
                            XFSBL_AUTH_CERT_MIN_SIZE I) (\<lambda>Status. Status) (\<lambda>I.
            case XFsbl_BhAuthentication pf sx (BootHdrAttributes I) (EfusePpkKey I) (pf_ReadBuffer pf) (pf_AuthBuffer pf)
                   IsEfuseRsa (machine I) of (Status, PpkKey, s) \<Rightarrow>
              let I = I\<lparr>machine := s, EfusePpkKey := PpkKey\<rparr>
              in if Status \<noteq> XFSBL_SUCCESS then Some (Status, I) else authenticate_table pf sx AcOffset IhtOffset I))"

text \<open>What is taken from the boot header once it is in the buffer, and what is done then.\<close>

definition take_boot_header :: "'s platform \<Rightarrow> 's XFsblPs \<Rightarrow> 's XFsblPs" where
  "take_boot_header pf I =
     I\<lparr>BootIv := mem_bytes pf (machine I) (pf_ReadBuffer pf + XIH_BH_IV_OFFSET) XIH_BH_IV_LENGTH,
       BootHdrAttributes := mem_word pf (machine I) (pf_ReadBuffer pf + XIH_BH_IMAGE_ATTRB_OFFSET)\<rparr>"

definition table_offset :: "'s platform \<Rightarrow> 's XFsblPs \<Rightarrow> u32" where
  "table_offset pf I = mem_word pf (machine I) (pf_ReadBuffer pf + XIH_BH_IH_TABLE_OFFSET)"

definition check_boot_header ::
  "'s platform \<Rightarrow> ('s, 'h) secure \<Rightarrow> 's boot_env \<Rightarrow> 's XFsblPs \<Rightarrow> (u32 \<times> 's XFsblPs) option" where
  "check_boot_header pf sx be I =
     (let I = take_boot_header pf I;
          IhtOffset = table_offset pf I;
          (EfuseCtrl, s) = In32 (pf_bus pf) (machine I) EFUSE_SEC_CTRL;
          I = I\<lparr>machine := s\<rparr>;
          efuse_rsa = (EfuseCtrl AND EFUSE_SEC_CTRL_RSA_EN_MASK \<noteq> 0);
          header_rsa = (BootHdrAttributes I AND XIH_BH_IMAGE_ATTRB_RSA_MASK = XIH_BH_IMAGE_ATTRB_RSA_MASK)
      in if efuse_rsa \<and> header_rsa then Some (XFSBL_ERROR_BH_AUTH_IS_NOTALLOWED, I)
         else if efuse_rsa \<or> header_rsa then
           on_success (authenticate_header pf sx be efuse_rsa IhtOffset I) (\<lambda>Status. Status)
             (load_image_header pf be False (ucast (pf_ReadBuffer pf)) IhtOffset)
         else load_image_header pf be True (ImageOffsetAddress I) IhtOffset I)"

definition XFsbl_ValidateHeader ::
  "'s platform \<Rightarrow> ('s, 'h) secure \<Rightarrow> 's boot_env \<Rightarrow> 's XFsblPs \<Rightarrow> (u32 \<times> 's XFsblPs) option" where
  "XFsbl_ValidateHeader pf sx be I =
     (let (MultiBootOffset, s) = In32 (pf_bus pf) (machine I) CSU_CSU_MULTI_BOOT;
          I = I\<lparr>machine := pf_memset pf (be_AcOffset be) 0 XIH_FIELD_LEN s, ImageOffsetAddress := image_offset I MultiBootOffset\<rparr>
      in on_success (copy_from (ImageOffsetAddress I) (pf_ReadBuffer pf) XIH_BH_MAX_SIZE I) (\<lambda>Status. Status)
           (check_boot_header pf sx be))"

section \<open>The secondary device\<close>

abbreviation (input) XIH_IHT_PPD_QSPI32 :: u32 where "XIH_IHT_PPD_QSPI32 \<equiv> 0x1"
abbreviation (input) XIH_IHT_PPD_QSPI24 :: u32 where "XIH_IHT_PPD_QSPI24 \<equiv> 0x2"
abbreviation (input) XIH_IHT_PPD_NAND :: u32 where "XIH_IHT_PPD_NAND \<equiv> 0x3"
abbreviation (input) XIH_IHT_PPD_SD_0 :: u32 where "XIH_IHT_PPD_SD_0 \<equiv> 0x4"
abbreviation (input) XIH_IHT_PPD_SD_1 :: u32 where "XIH_IHT_PPD_SD_1 \<equiv> 0x5"
abbreviation (input) XIH_IHT_PPD_SD_LS :: u32 where "XIH_IHT_PPD_SD_LS \<equiv> 0x6"
abbreviation (input) XIH_IHT_PPD_MMC :: u32 where "XIH_IHT_PPD_MMC \<equiv> 0x7"

definition mode_of_ppd :: "u32 \<Rightarrow> u32 option" where
  "mode_of_ppd ppd =
     (if ppd = XIH_IHT_PPD_QSPI24 then Some XFSBL_QSPI24_BOOT_MODE
      else if ppd = XIH_IHT_PPD_QSPI32 then Some XFSBL_QSPI32_BOOT_MODE
      else if ppd = XIH_IHT_PPD_NAND then Some XFSBL_NAND_BOOT_MODE
      else if ppd = XIH_IHT_PPD_SD_0 then Some XFSBL_SD0_BOOT_MODE
      else if ppd = XIH_IHT_PPD_MMC then Some XFSBL_EMMC_BOOT_MODE
      else if ppd = XIH_IHT_PPD_SD_1 then Some XFSBL_SD1_BOOT_MODE
      else if ppd = XIH_IHT_PPD_SD_LS then Some XFSBL_SD1_LS_BOOT_MODE
      else None)"

definition XFsbl_SecondaryBootDeviceInit ::
  "'s platform \<Rightarrow> ('s, 'h) secure \<Rightarrow> 's boot_env \<Rightarrow> 's XFsblPs \<Rightarrow> (u32 \<times> 's XFsblPs) option" where
  "XFsbl_SecondaryBootDeviceInit pf sx be I =
     (if SecondaryBootDevice I = XIH_IHT_PPD_SAME then Some (XFSBL_SUCCESS, I)
      else case mode_of_ppd (SecondaryBootDevice I) of
        None \<Rightarrow> Some (XFSBL_ERROR_UNSUPPORTED_BOOT_MODE, I)
      | Some SecBootMode \<Rightarrow>
          (case device_of_mode be SecBootMode of
             None \<Rightarrow> Some (XFSBL_ERROR_UNSUPPORTED_BOOT_MODE, I)
           | Some d \<Rightarrow>
               on_success (on_machine (device_init pf be d SecBootMode) (I\<lparr>DeviceCopy := device_copy_of pf be d\<rparr>))
                 (\<lambda>Status. Status) (\<lambda>I.
                 map_option (\<lambda>(Status, I).
                   (if IHT_PartitionPresentDevice (ImageHeaderTable (ImageHeader_of I)) \<noteq> 0
                    then XFSBL_STATUS_SECONDARY_BOOT_MODE else Status, I)) (XFsbl_ValidateHeader pf sx be I))))"

definition XFsbl_BootDeviceInitAndValidate ::
  "'s platform \<Rightarrow> ('s, 'h) secure \<Rightarrow> 's boot_env \<Rightarrow> 's XFsblPs \<Rightarrow> (u32 \<times> 's XFsblPs) option" where
  "XFsbl_BootDeviceInitAndValidate pf sx be I =
     on_success (XFsbl_PrimaryBootDeviceInit pf sx be I) (\<lambda>Status. Status) (\<lambda>I.
       on_success (XFsbl_ValidateHeader pf sx be I) (\<lambda>Status. Status) (\<lambda>I.
         let I = I\<lparr>SecondaryBootDevice := IHT_PartitionPresentDevice (ImageHeaderTable (ImageHeader_of I))\<rparr>
         in if SecondaryBootDevice I \<noteq> PrimaryBootDevice I then XFsbl_SecondaryBootDeviceInit pf sx be I
            else Some (XFSBL_SUCCESS, I)))"

section \<open>What the second stage leaves alone\<close>

definition same_setup :: "'s XFsblPs \<Rightarrow> 's XFsblPs \<Rightarrow> bool" where
  "same_setup I J \<longleftrightarrow> HandoffValues J = HandoffValues I \<and> HandoffCpuNo J = HandoffCpuNo I \<and> ProcessorID J = ProcessorID I \<and>
     A53ExecState J = A53ExecState I \<and> ResetReason J = ResetReason I"

text \<open>Until the image header is read, it and the choice of the device stay as well.\<close>

definition same_boot :: "'s XFsblPs \<Rightarrow> 's XFsblPs \<Rightarrow> bool" where
  "same_boot I J \<longleftrightarrow> same_setup I J \<and> ImageHeader_of J = ImageHeader_of I \<and> PrimaryBootDevice J = PrimaryBootDevice I \<and>
     SecondaryBootDevice J = SecondaryBootDevice I \<and> DeviceCopy J = DeviceCopy I"

lemma same_setup_refl [simp]: "same_setup I I"
  by (simp add: same_setup_def)

lemma same_setup_trans: "\<lbrakk>same_setup I J; same_setup J K\<rbrakk> \<Longrightarrow> same_setup I K"
  by (simp add: same_setup_def)

lemma same_boot_refl [simp]: "same_boot I I"
  by (simp add: same_boot_def)

lemma same_boot_trans: "\<lbrakk>same_boot I J; same_boot J K\<rbrakk> \<Longrightarrow> same_boot I K"
  by (auto simp: same_boot_def intro: same_setup_trans)

lemma same_boot_updates [simp]:
  "same_boot I (I\<lparr>machine := s\<rparr>)" "same_boot I (I\<lparr>machine := s, EfusePpkKey := key\<rparr>)"
  "same_boot I (I\<lparr>machine := s, ImageOffsetAddress := off\<rparr>)"
  "same_boot I ((take_boot_header pf I)\<lparr>machine := s\<rparr>)"
  by (simp_all add: same_boot_def same_setup_def take_boot_header_def)

text \<open>A function whose every result stands in such a relation to the instance it was called with.\<close>

definition keeping :: "('s XFsblPs \<Rightarrow> 's XFsblPs \<Rightarrow> bool) \<Rightarrow> 's XFsblPs \<Rightarrow> (u32 \<times> 's XFsblPs) option \<Rightarrow> bool" where
  "keeping R I r \<longleftrightarrow> (\<forall>Status J. r = Some (Status, J) \<longrightarrow> R I J)"

lemma keepingD: "\<lbrakk>keeping R I r; r = Some (Status, J)\<rbrakk> \<Longrightarrow> R I J"
  by (simp add: keeping_def)

locale instance_frame =
  fixes R :: "'s XFsblPs \<Rightarrow> 's XFsblPs \<Rightarrow> bool"
  assumes frame_refl: "R I I"
    and frame_trans: "\<lbrakk>R I J; R J K\<rbrakk> \<Longrightarrow> R I K"
    and frame_machine: "R I (I\<lparr>machine := s\<rparr>)"
begin

lemma keep_return: "R I J \<Longrightarrow> keeping R I (Some (Status, J))"
  by (simp add: keeping_def)

lemma keep_on_machine: "keeping R I (on_machine f I)"
  by (auto simp: keeping_def on_machine_def intro: frame_machine)

lemma keep_on_success:
  assumes "keeping R I r" "\<And>J. R I J \<Longrightarrow> keeping R J (k J)"
  shows "keeping R I (on_success r e k)"
  unfolding keeping_def
proof (intro allI impI, elim on_success_elim)
  fix Status J St K
  assume r: "r = Some (St, K)" and k: "(if St \<noteq> XFSBL_SUCCESS then Some (e St, K) else k K) = Some (Status, J)"
  have K: "R I K" by (rule keepingD [OF assms(1) r])
  with assms(2) [OF K] k show "R I J" by (auto simp: keeping_def intro: frame_trans split: if_splits)
qed

lemma keep_if: "\<lbrakk>b \<Longrightarrow> keeping R I f; \<not> b \<Longrightarrow> keeping R I g\<rbrakk> \<Longrightarrow> keeping R I (if b then f else g)"
  by simp

lemma keep_case_pair: "(\<And>a b. q = (a, b) \<Longrightarrow> keeping R I (f a b)) \<Longrightarrow> keeping R I (case q of (a, b) \<Rightarrow> f a b)"
  by (cases q) simp

lemma keep_case_option: "\<lbrakk>keeping R I f; \<And>x. keeping R I (g x)\<rbrakk> \<Longrightarrow> keeping R I (case q of None \<Rightarrow> f | Some x \<Rightarrow> g x)"
  by (cases q) simp_all

lemma keep_from: "\<lbrakk>R I J; keeping R J r\<rbrakk> \<Longrightarrow> keeping R I r"
  by (auto simp: keeping_def intro: frame_trans)

lemmas keep = keep_return keep_on_machine keep_on_success keep_if keep_case_pair keep_case_option frame_refl frame_machine

end

interpretation boot: instance_frame same_boot
  by unfold_locales (auto intro: same_boot_trans)

interpretation setup_kept: instance_frame same_setup
  by unfold_locales (auto intro: same_setup_trans simp: same_setup_def)

lemma boot_copy_from: "keeping same_boot I (copy_from off dst len I)"
  unfolding copy_from_def by (rule boot.keep_on_machine)

lemma boot_authenticate_table: "keeping same_boot I (authenticate_table pf sx AcOffset IhtOffset I)"
  unfolding authenticate_table_def Let_def by (intro boot.keep boot_copy_from)

lemma boot_authenticate_header: "keeping same_boot I (authenticate_header pf sx be rsa IhtOffset I)"
  unfolding authenticate_header_def Let_def
  by (intro boot.keep boot_copy_from boot.keep_from [OF _ boot_authenticate_table] same_boot_updates)

text \<open>
  What a successful reading of the header leaves: either the table is a valid one of this device, or it names another
  device and no partition header has been read.
\<close>

lemma ReadImageHeader_secondary:
  assumes "XFsbl_ReadImageHeader hw a dev hdr fo cpu io st = (XFSBL_SUCCESS, st')"
  shows "XFsbl_ValidateImageHeaderTable (ImageHeaderTable (ImageHeader st')) = XFSBL_SUCCESS \<or>
    IHT_PartitionPresentDevice (ImageHeaderTable (ImageHeader st')) \<noteq> XIH_IHT_PPD_SAME \<and>
    PartitionHeader (ImageHeader st') = PartitionHeader (ImageHeader st)"
proof -
  define r where "r = (case dev of
      Some copy \<Rightarrow> (case copy (DeviceState st) (fo + io) XIH_IHT_LEN of (s, w, d) \<Rightarrow> (s, iht_of_words w, d))
    | None \<Rightarrow> (XFSBL_SUCCESS, iht_of_words (ocm_words hdr 0), DeviceState st))"
  obtain s t d where r: "r = (s, t, d)" by (cases r)
  define st1 where "st1 = st\<lparr>DeviceState := d, ImageHeader := (ImageHeader st)\<lparr>ImageHeaderTable := t\<rparr>\<rparr>"
  define V where "V = XFsbl_ValidateImageHeaderTable t"
  obtain s2 st2 where h: "read_partition_headers dev hdr fo cpu io (unat (IHT_NoOfPartitions t)) 0
      (IHT_PartitionHeaderAddress t * 4) 0 st1 = (s2, st2)"
    by (cases "read_partition_headers dev hdr fo cpu io (unat (IHT_NoOfPartitions t)) 0
      (IHT_PartitionHeaderAddress t * 4) 0 st1")
  from assms r h have "V = XFSBL_STATUS_SECONDARY_BOOT_MODE \<and> st' = st1 \<or>
      V = XFSBL_SUCCESS \<and> s2 = XFSBL_SUCCESS \<and> st' = st2\<lparr>BusState := Out32 hw (BusState st2) PMU_GLOBAL_GLOB_GEN_STORAGE6 a\<rparr>"
    by (auto simp: XFsbl_ReadImageHeader_def r_def [symmetric] Let_def st1_def V_def split: if_splits)
  moreover have "ImageHeaderTable (ImageHeader st2) = t"
    using read_partition_headers_table [of dev hdr fo cpu io "unat (IHT_NoOfPartitions t)" 0 "IHT_PartitionHeaderAddress t * 4" 0 st1]
    unfolding h snd_conv by (simp add: st1_def)
  moreover have "V = XFSBL_STATUS_SECONDARY_BOOT_MODE \<Longrightarrow> IHT_PartitionPresentDevice t \<noteq> XIH_IHT_PPD_SAME"
    by (auto simp: V_def XFsbl_ValidateImageHeaderTable_def Let_def split: if_splits)
  ultimately show ?thesis by (auto simp: V_def st1_def)
qed

text \<open>A header that has been read is valid and of this device, or names another one and the partition headers are those of before.\<close>

definition header_read :: "'s XFsblPs \<Rightarrow> 's XFsblPs \<Rightarrow> bool" where
  "header_read I J \<longleftrightarrow> XFsbl_ValidateImageHeaderTable (ImageHeaderTable (ImageHeader_of J)) = XFSBL_SUCCESS \<or>
     IHT_PartitionPresentDevice (ImageHeaderTable (ImageHeader_of J)) \<noteq> XIH_IHT_PPD_SAME \<and>
     PartitionHeader (ImageHeader_of J) = PartitionHeader (ImageHeader_of I)"

lemma load_image_header_fields:
  assumes "load_image_header pf be dev fo io I = Some (Status, J)"
  shows "same_setup I J" "PrimaryBootDevice J = PrimaryBootDevice I" "SecondaryBootDevice J = SecondaryBootDevice I"
    "DeviceCopy J = DeviceCopy I" "EfusePpkKey J = EfusePpkKey I" "BootIv J = BootIv I"
    "BootHdrAttributes J = BootHdrAttributes I" "Status = XFSBL_SUCCESS \<Longrightarrow> header_read I J"
  using assms ReadImageHeader_secondary
  by (auto simp: load_image_header_def same_setup_def header_read_def split: prod.splits) (fastforce dest: ReadImageHeader_secondary)+

text \<open>Validating a header changes neither the choice of the device nor the table of processors.\<close>

definition header_checked :: "'s XFsblPs \<Rightarrow> u32 \<Rightarrow> 's XFsblPs \<Rightarrow> bool" where
  "header_checked I Status J \<longleftrightarrow> same_setup I J \<and> PrimaryBootDevice J = PrimaryBootDevice I \<and>
     SecondaryBootDevice J = SecondaryBootDevice I \<and> DeviceCopy J = DeviceCopy I \<and> (Status = XFSBL_SUCCESS \<longrightarrow> header_read I J)"

lemma header_checked_failed: "same_boot I J \<Longrightarrow> Status \<noteq> XFSBL_SUCCESS \<Longrightarrow> header_checked I Status J"
  by (simp add: header_checked_def same_boot_def)

lemma header_checked_read:
  "\<lbrakk>same_boot I K; load_image_header pf be dev fo io K = Some (Status, J)\<rbrakk> \<Longrightarrow> header_checked I Status J"
  using load_image_header_fields [of pf be dev fo io K Status J]
  by (auto simp: header_checked_def same_boot_def header_read_def intro: same_setup_trans)

lemma check_boot_header_checked:
  assumes "check_boot_header pf sx be I = Some (Status, J)"
  shows "header_checked I Status J"
proof -
  define L where "L = take_boot_header pf I"
  define io where "io = table_offset pf L"
  obtain ctrl s where c: "In32 (pf_bus pf) (machine L) EFUSE_SEC_CTRL = (ctrl, s)"
    by (cases "In32 (pf_bus pf) (machine L) EFUSE_SEC_CTRL")
  define rsa where "rsa = (ctrl AND EFUSE_SEC_CTRL_RSA_EN_MASK \<noteq> 0)"
  define K where "K = L\<lparr>machine := s\<rparr>"
  have K: "same_boot I K" by (simp add: K_def L_def)
  from assms consider "J = K" "Status \<noteq> XFSBL_SUCCESS"
    | "on_success (authenticate_header pf sx be rsa io K) (\<lambda>Status. Status) (load_image_header pf be False (ucast (pf_ReadBuffer pf)) io)
         = Some (Status, J)"
    | "load_image_header pf be True (ImageOffsetAddress K) io K = Some (Status, J)"
    unfolding check_boot_header_def L_def [symmetric] c Let_def prod.case io_def [symmetric] K_def [symmetric] rsa_def [symmetric]
    by (auto split: if_splits)
  then show ?thesis
  proof cases
    case 1
    with K show ?thesis by (simp add: header_checked_failed)
  next
    case 2
    then obtain St L where a: "authenticate_header pf sx be rsa io K = Some (St, L)"
      and l: "(if St \<noteq> XFSBL_SUCCESS then Some (St, L) else load_image_header pf be False (ucast (pf_ReadBuffer pf)) io L) = Some (Status, J)"
      by (rule on_success_elim)
    have "same_boot I L" by (rule same_boot_trans [OF K keepingD [OF boot_authenticate_header a]])
    with l show ?thesis by (auto intro: header_checked_failed header_checked_read split: if_splits)
  next
    case 3
    with K show ?thesis by (rule header_checked_read)
  qed
qed

lemma ValidateHeader_checked:
  assumes "XFsbl_ValidateHeader pf sx be I = Some (Status, J)"
  shows "header_checked I Status J"
proof -
  obtain M s where m: "In32 (pf_bus pf) (machine I) CSU_CSU_MULTI_BOOT = (M, s)"
    by (cases "In32 (pf_bus pf) (machine I) CSU_CSU_MULTI_BOOT")
  define K where "K = I\<lparr>machine := pf_memset pf (be_AcOffset be) 0 XIH_FIELD_LEN s, ImageOffsetAddress := image_offset I M\<rparr>"
  have K: "same_boot I K" by (simp add: K_def)
  from assms have "on_success (copy_from (ImageOffsetAddress K) (pf_ReadBuffer pf) XIH_BH_MAX_SIZE K) (\<lambda>Status. Status)
      (check_boot_header pf sx be) = Some (Status, J)"
    by (simp add: XFsbl_ValidateHeader_def m K_def)
  then obtain St L where c: "copy_from (ImageOffsetAddress K) (pf_ReadBuffer pf) XIH_BH_MAX_SIZE K = Some (St, L)"
    and l: "(if St \<noteq> XFSBL_SUCCESS then Some (St, L) else check_boot_header pf sx be L) = Some (Status, J)"
    by (rule on_success_elim)
  have L: "same_boot I L" by (rule same_boot_trans [OF K keepingD [OF boot_copy_from c]])
  show ?thesis
  proof (cases "St = XFSBL_SUCCESS")
    case True
    with l check_boot_header_checked have "header_checked L Status J" by simp
    with L show ?thesis by (auto simp: header_checked_def same_boot_def header_read_def intro: same_setup_trans)
  next
    case False
    with l L show ?thesis by (simp add: header_checked_failed)
  qed
qed

lemma SecondaryBootDeviceInit_success:
  assumes "XFsbl_SecondaryBootDeviceInit pf sx be I = Some (XFSBL_SUCCESS, K)"
  shows "SecondaryBootDevice I = XIH_IHT_PPD_SAME \<and> K = I \<or>
    (\<exists>J. same_setup I J \<and> PrimaryBootDevice J = PrimaryBootDevice I \<and> XFsbl_ValidateHeader pf sx be J = Some (XFSBL_SUCCESS, K) \<and>
      IHT_PartitionPresentDevice (ImageHeaderTable (ImageHeader_of K)) = XIH_IHT_PPD_SAME)"
proof (cases "SecondaryBootDevice I = XIH_IHT_PPD_SAME")
  case True
  with assms show ?thesis by (simp add: XFsbl_SecondaryBootDeviceInit_def)
next
  case False
  with assms obtain d mode where "on_success (on_machine (device_init pf be d mode) (I\<lparr>DeviceCopy := device_copy_of pf be d\<rparr>))
      (\<lambda>Status. Status) (\<lambda>I. map_option (\<lambda>(Status, I).
        (if IHT_PartitionPresentDevice (ImageHeaderTable (ImageHeader_of I)) \<noteq> 0
         then XFSBL_STATUS_SECONDARY_BOOT_MODE else Status, I)) (XFsbl_ValidateHeader pf sx be I)) = Some (XFSBL_SUCCESS, K)"
    by (auto simp: XFsbl_SecondaryBootDeviceInit_def split: option.splits)
  then obtain J where j: "on_machine (device_init pf be d mode) (I\<lparr>DeviceCopy := device_copy_of pf be d\<rparr>) = Some (XFSBL_SUCCESS, J)"
    and v: "map_option (\<lambda>(Status, I). (if IHT_PartitionPresentDevice (ImageHeaderTable (ImageHeader_of I)) \<noteq> 0
         then XFSBL_STATUS_SECONDARY_BOOT_MODE else Status, I)) (XFsbl_ValidateHeader pf sx be J) = Some (XFSBL_SUCCESS, K)"
    unfolding on_success_keep by blast
  from v have "XFsbl_ValidateHeader pf sx be J = Some (XFSBL_SUCCESS, K)"
    "IHT_PartitionPresentDevice (ImageHeaderTable (ImageHeader_of K)) = XIH_IHT_PPD_SAME"
    by (auto split: if_splits)
  moreover have "same_setup I J \<and> PrimaryBootDevice J = PrimaryBootDevice I"
    using j by (auto simp: on_machine_def same_setup_def)
  ultimately show ?thesis by blast
qed

lemma header_read_valid:
  "\<lbrakk>header_read I J; IHT_PartitionPresentDevice (ImageHeaderTable (ImageHeader_of J)) = XIH_IHT_PPD_SAME\<rbrakk> \<Longrightarrow>
     XFsbl_ValidateImageHeaderTable (ImageHeaderTable (ImageHeader_of J)) = XFSBL_SUCCESS"
  by (auto simp: header_read_def)

text \<open>
  C16. When the second stage succeeds, either the image header is a valid one for the device it was read from, with 2 to
  32 partitions, or no partition header has been read at all, since the image names another device whose code equals
  the code of the boot mode: the two numberings are compared with each other, so that an image in 24-bit serial flash
  (mode 1) that refers to the 32-bit serial flash (device 1), and the other way round, is taken for one that refers to
  its own device.
\<close>

theorem second_stage_header:
  assumes "XFsbl_BootDeviceInitAndValidate pf sx be I = Some (XFSBL_SUCCESS, K)"
  shows "(XFsbl_ValidateImageHeaderTable (ImageHeaderTable (ImageHeader_of K)) = XFSBL_SUCCESS \<and>
      2 \<le> unat (NoOfPartitions K) \<and> unat (NoOfPartitions K) \<le> 32) \<or>
    (IHT_PartitionPresentDevice (ImageHeaderTable (ImageHeader_of K)) \<noteq> XIH_IHT_PPD_SAME \<and>
     IHT_PartitionPresentDevice (ImageHeaderTable (ImageHeader_of K)) = PrimaryBootDevice K \<and>
     PartitionHeader (ImageHeader_of K) = PartitionHeader (ImageHeader_of I))"
proof -
  from assms obtain I1 where p: "XFsbl_PrimaryBootDeviceInit pf sx be I = Some (XFSBL_SUCCESS, I1)"
    and "on_success (XFsbl_ValidateHeader pf sx be I1) (\<lambda>Status. Status) (\<lambda>I.
         let I = I\<lparr>SecondaryBootDevice := IHT_PartitionPresentDevice (ImageHeaderTable (ImageHeader_of I))\<rparr>
         in if SecondaryBootDevice I \<noteq> PrimaryBootDevice I then XFsbl_SecondaryBootDeviceInit pf sx be I
            else Some (XFSBL_SUCCESS, I)) = Some (XFSBL_SUCCESS, K)"
    unfolding XFsbl_BootDeviceInitAndValidate_def on_success_keep by blast
  then obtain I2 where v: "XFsbl_ValidateHeader pf sx be I1 = Some (XFSBL_SUCCESS, I2)"
    and k: "(let I = I2\<lparr>SecondaryBootDevice := IHT_PartitionPresentDevice (ImageHeaderTable (ImageHeader_of I2))\<rparr>
         in if SecondaryBootDevice I \<noteq> PrimaryBootDevice I then XFsbl_SecondaryBootDeviceInit pf sx be I
            else Some (XFSBL_SUCCESS, I)) = Some (XFSBL_SUCCESS, K)"
    unfolding on_success_keep by blast
  have I1: "ImageHeader_of I1 = ImageHeader_of I"
    using p by (auto simp: XFsbl_PrimaryBootDeviceInit_def on_machine_def Let_def split: prod.splits if_splits option.splits)
  have r: "header_read I1 I2" using ValidateHeader_checked [OF v] by (simp add: header_checked_def)
  define L where "L = I2\<lparr>SecondaryBootDevice := IHT_PartitionPresentDevice (ImageHeaderTable (ImageHeader_of I2))\<rparr>"
  have L: "ImageHeader_of L = ImageHeader_of I2" "PrimaryBootDevice L = PrimaryBootDevice I2"
    "SecondaryBootDevice L = IHT_PartitionPresentDevice (ImageHeaderTable (ImageHeader_of I2))" by (simp_all add: L_def)
  have "XFsbl_ValidateImageHeaderTable (ImageHeaderTable (ImageHeader_of K)) = XFSBL_SUCCESS \<or>
    (IHT_PartitionPresentDevice (ImageHeaderTable (ImageHeader_of K)) \<noteq> XIH_IHT_PPD_SAME \<and>
     IHT_PartitionPresentDevice (ImageHeaderTable (ImageHeader_of K)) = PrimaryBootDevice K \<and>
     PartitionHeader (ImageHeader_of K) = PartitionHeader (ImageHeader_of I))"
  proof (cases "SecondaryBootDevice L = PrimaryBootDevice L")
    case True
    with k have "K = L" by (simp add: L_def [symmetric])
    with True L r I1 show ?thesis by (auto simp: header_read_def)
  next
    case False
    with k have "XFsbl_SecondaryBootDeviceInit pf sx be L = Some (XFSBL_SUCCESS, K)" by (simp add: L_def [symmetric])
    from SecondaryBootDeviceInit_success [OF this] show ?thesis
    proof (elim disjE exE conjE)
      assume "SecondaryBootDevice L = XIH_IHT_PPD_SAME" "K = L"
      with L r header_read_valid show ?thesis by simp
    next
      fix J assume "XFsbl_ValidateHeader pf sx be J = Some (XFSBL_SUCCESS, K)"
        and "IHT_PartitionPresentDevice (ImageHeaderTable (ImageHeader_of K)) = XIH_IHT_PPD_SAME"
      then show ?thesis using ValidateHeader_checked header_read_valid by (fastforce simp: header_checked_def)
    qed
  qed
  with table_accepted_bounds show ?thesis by blast
qed

section \<open>Headers read from the buffer\<close>

lemma read_partition_headers_buffer:
  assumes "read_partition_headers None hdr fo cpu io n i a e st = (Status, st')"
  shows "Status = XFSBL_SUCCESS \<and> DeviceState st' = DeviceState st"
  using assms
proof (induction n arbitrary: i a e st)
  case (Suc n)
  then show ?case by (auto simp: Let_def set_partition_header_def split: if_splits)
qed simp

text \<open>Every header comes from where the header before it says, relative to the image header.\<close>

definition buffer_header :: "(nat \<Rightarrow> u8) \<Rightarrow> u32 \<Rightarrow> u32 \<Rightarrow> XFsblPs_PartitionHeader" where
  "buffer_header hdr IhtOffset PhAddr = ph_of_words (ocm_words hdr (PhAddr - IhtOffset))"

lemma read_partition_headers_buffer_chain:
  assumes "read_partition_headers None hdr fo cpu io n i a e st = (XFSBL_SUCCESS, st')"
    and "unat i + n \<le> length (PartitionHeader (ImageHeader st))"
    and "length (PartitionHeader (ImageHeader st)) \<le> 32" and "unat e \<le> 8" and "k < n"
  shows "PartitionHeader (ImageHeader st') ! (unat i + k) =
    buffer_header hdr io (if k = 0 then a else NextPartitionOffset (PartitionHeader (ImageHeader st') ! (unat i + k - 1)) * 4)"
  using assms
proof (induction n arbitrary: i a e st k)
  case 0
  then show ?case by simp
next
  case (Suc n)
  define p where "p = buffer_header hdr io a"
  define st1 where "st1 = set_partition_header (unat i) p (st\<lparr>DeviceState := DeviceState st\<rparr>)"
  define b where "b = is_atf_entry cpu i e p"
  define st2 where "st2 = (if b then st1\<lparr>ATFHandoffParams :=
    XFsbl_SetATFHandoffParameters p e (ATFHandoffParams st1)\<rparr> else st1)"
  define e2 where "e2 = (if b then e + 1 else e)"
  have step: "read_partition_headers None hdr fo cpu io n (i + 1) (NextPartitionOffset p * 4) e2 st2 = (XFSBL_SUCCESS, st')"
    using Suc.prems(1) by (auto simp: Let_def p_def buffer_header_def st1_def b_def st2_def e2_def split: if_splits)
  have i: "unat (i + 1) = Suc (unat i)" "unat i < 2 ^ 31"
    using Suc.prems(2,3) by (simp_all add: unat_plus_one)
  have e2: "unat e2 \<le> 8"
    using Suc.prems(4) is_atf_entry_iff [OF i(2), of cpu e p] by (simp add: e2_def b_def unat_plus_one)
  have st2: "PartitionHeader (ImageHeader st2) = (PartitionHeader (ImageHeader st))[unat i := p]"
    by (simp add: st2_def st1_def set_partition_header_def)
  have bounds: "unat (i + 1) + n \<le> length (PartitionHeader (ImageHeader st2))"
    "length (PartitionHeader (ImageHeader st2)) \<le> 32"
    using Suc.prems(2,3) st2 i(1) by simp_all
  obtain ps where ps: "PartitionHeader (ImageHeader st') =
      take (unat (i + 1)) (PartitionHeader (ImageHeader st2)) @ ps"
    using read_partition_headers_success [OF step bounds e2] by blast
  have first: "PartitionHeader (ImageHeader st') ! unat i = p"
    using ps i(1) st2 Suc.prems(2) by (simp add: nth_append)
  show ?case
  proof (cases k)
    case 0
    then show ?thesis using first by (simp add: p_def)
  next
    case (Suc m)
    then have "m < n" using Suc.prems(5) by simp
    from Suc.IH [OF step bounds e2 this] show ?thesis
      using Suc i(1) first by (cases m) simp_all
  qed
qed

text \<open>The image header as the loader takes it from the buffer.\<close>

definition parsed_from :: "(nat \<Rightarrow> u8) \<Rightarrow> u32 \<Rightarrow> XFsblPs_ImageHeader \<Rightarrow> bool" where
  "parsed_from hdr IhtOffset H \<longleftrightarrow> ImageHeaderTable H = iht_of_words (ocm_words hdr 0) \<and>
     (IHT_PartitionPresentDevice (ImageHeaderTable H) = XIH_IHT_PPD_SAME \<longrightarrow>
       XFsbl_ValidateImageHeaderTable (ImageHeaderTable H) = XFSBL_SUCCESS \<and>
       (\<forall>k < unat (IHT_NoOfPartitions (ImageHeaderTable H)). PartitionHeader H ! k =
          buffer_header hdr IhtOffset (if k = 0 then IHT_PartitionHeaderAddress (ImageHeaderTable H) * 4
                                       else NextPartitionOffset (PartitionHeader H ! (k - 1)) * 4)))"

lemma ReadImageHeader_buffer:
  assumes r: "XFsbl_ReadImageHeader write_log a None hdr fo cpu io st = (Status, st')"
  shows "DeviceState st' = DeviceState st" "BusState st = [] \<Longrightarrow> BusState st' \<in> {[], [(PMU_GLOBAL_GLOB_GEN_STORAGE6, a)]}"
    and "\<lbrakk>Status = XFSBL_SUCCESS; length (PartitionHeader (ImageHeader st)) = 32\<rbrakk> \<Longrightarrow> parsed_from hdr io (ImageHeader st')"
proof -
  define t where "t = iht_of_words (ocm_words hdr 0)"
  define st1 where "st1 = st\<lparr>DeviceState := DeviceState st, ImageHeader := (ImageHeader st)\<lparr>ImageHeaderTable := t\<rparr>\<rparr>"
  define V where "V = XFsbl_ValidateImageHeaderTable t"
  obtain s2 st2 where h: "read_partition_headers None hdr fo cpu io (unat (IHT_NoOfPartitions t)) 0
      (IHT_PartitionHeaderAddress t * 4) 0 st1 = (s2, st2)"
    by (cases "read_partition_headers None hdr fo cpu io (unat (IHT_NoOfPartitions t)) 0
      (IHT_PartitionHeaderAddress t * 4) 0 st1")
  note d = read_partition_headers_buffer [OF h]
  have cases: "V = XFSBL_STATUS_SECONDARY_BOOT_MODE \<and> st' = st1 \<or> V \<noteq> XFSBL_SUCCESS \<and> V = Status \<and> st' = st1 \<or>
      V = XFSBL_SUCCESS \<and> st' = st2\<lparr>BusState := Out32 write_log (BusState st2) PMU_GLOBAL_GLOB_GEN_STORAGE6 a\<rparr>"
    using r h d by (auto simp: XFsbl_ReadImageHeader_def Let_def st1_def t_def V_def split: if_splits)
  have b: "BusState st2 = BusState st" "ImageHeaderTable (ImageHeader st2) = t"
    using read_partition_headers_bus [of None hdr fo cpu io "unat (IHT_NoOfPartitions t)" 0 "IHT_PartitionHeaderAddress t * 4" 0 st1]
      read_partition_headers_table [of None hdr fo cpu io "unat (IHT_NoOfPartitions t)" 0 "IHT_PartitionHeaderAddress t * 4" 0 st1]
    unfolding h snd_conv by (simp_all add: st1_def)
  show "DeviceState st' = DeviceState st" using cases d by (auto simp: st1_def)
  show "BusState st = [] \<Longrightarrow> BusState st' \<in> {[], [(PMU_GLOBAL_GLOB_GEN_STORAGE6, a)]}"
    using cases b by (auto simp: st1_def write_log_def)
  assume ok: "Status = XFSBL_SUCCESS" "length (PartitionHeader (ImageHeader st)) = 32"
  show "parsed_from hdr io (ImageHeader st')"
  proof (cases "V = XFSBL_SUCCESS")
    case True
    then have n: "unat (IHT_NoOfPartitions t) \<le> 32" by (simp add: V_def table_accepted_bounds)
    have "PartitionHeader (ImageHeader st2) ! (unat (0 :: u32) + k) =
        buffer_header hdr io (if k = 0 then IHT_PartitionHeaderAddress t * 4
          else NextPartitionOffset (PartitionHeader (ImageHeader st2) ! (unat (0 :: u32) + k - 1)) * 4)"
      if "k < unat (IHT_NoOfPartitions t)" for k
      using read_partition_headers_buffer_chain [OF h [unfolded d [THEN conjunct1]], of k] ok n that by (simp add: st1_def)
    with True cases b show ?thesis by (auto simp: parsed_from_def t_def [symmetric] V_def [symmetric])
  next
    case False
    then have "V = XFSBL_STATUS_SECONDARY_BOOT_MODE" "st' = st1" using cases ok by auto
    then show ?thesis
      by (auto simp: parsed_from_def st1_def t_def [symmetric] V_def XFsbl_ValidateImageHeaderTable_def Let_def split: if_splits)
  qed
qed

section \<open>The chain of trust\<close>

definition within :: "u64 \<Rightarrow> u64 \<Rightarrow> nat \<Rightarrow> bool" where
  "within b a n \<longleftrightarrow> unat (b - a) < n"

definition same_fuses :: "'s platform \<Rightarrow> 's \<Rightarrow> 's \<Rightarrow> bool" where
  "same_fuses pf s t \<longleftrightarrow> (\<forall>a. is_fuse a \<longrightarrow> fuse_value pf t a = fuse_value pf s a)"

text \<open>A step of the machine changes no fuse, and memory only in a range.\<close>

definition writes_only :: "'s platform \<Rightarrow> u64 \<Rightarrow> nat \<Rightarrow> 's \<Rightarrow> 's \<Rightarrow> bool" where
  "writes_only pf a n s t \<longleftrightarrow> same_fuses pf s t \<and> (\<forall>b. \<not> within b a n \<longrightarrow> pf_read pf t b = pf_read pf s b)"

text \<open>The two states agree on what lies in a range, and on the fuses.\<close>

definition same_range :: "'s platform \<Rightarrow> u64 \<Rightarrow> nat \<Rightarrow> 's \<Rightarrow> 's \<Rightarrow> bool" where
  "same_range pf a n s t \<longleftrightarrow> same_fuses pf s t \<and> (\<forall>b. within b a n \<longrightarrow> pf_read pf t b = pf_read pf s b)"

definition apart :: "u64 \<Rightarrow> nat \<Rightarrow> u64 \<Rightarrow> nat \<Rightarrow> bool" where
  "apart a n b m \<longleftrightarrow> (\<forall>c. within c a n \<longrightarrow> \<not> within c b m)"

lemma same_range_trans: "\<lbrakk>same_range pf a n s t; same_range pf a n t u\<rbrakk> \<Longrightarrow> same_range pf a n s u"
  by (simp add: same_range_def same_fuses_def)

lemma same_range_writes: "\<lbrakk>writes_only pf b m s t; m \<le> k; apart a n b k\<rbrakk> \<Longrightarrow> same_range pf a n s t"
  by (fastforce simp: same_range_def writes_only_def apart_def within_def)

lemma same_range_view: "same_view pf s t \<Longrightarrow> same_range pf a n s t"
  by (auto simp: same_range_def same_fuses_def same_view_fuse) (simp add: same_view_def)

lemma within_offset: "k < n \<Longrightarrow> n < 2 ^ 64 \<Longrightarrow> within (a + of_nat k) a n"
proof -
  assume k: "k < n" "n < 2 ^ 64"
  then have "unat (of_nat k :: u64) = k" by (intro unat_of_nat_small) simp
  with k show ?thesis by (simp add: within_def)
qed

lemma same_range_bytes:
  assumes "same_range pf a n s t" "k + m \<le> n" "n < 2 ^ 64"
  shows "mem_bytes pf t (a + of_nat k) m = mem_bytes pf s (a + of_nat k) m"
proof -
  have "pf_read pf t (a + of_nat k + of_nat i) = pf_read pf s (a + of_nat k + of_nat i)" if "i < m" for i
    using assms within_offset [of "k + i" n a] that by (simp add: same_range_def add.assoc)
  then show ?thesis by (simp add: mem_bytes_def)
qed

lemma mem_word_bytes: "mem_word pf s a = le32 ((!) (mem_bytes pf s a 4)) 0"
  by (simp add: mem_word_def le32_def mem_bytes_def)

lemma same_range_word:
  "\<lbrakk>same_range pf a n s t; k + 4 \<le> n; n < 2 ^ 64\<rbrakk> \<Longrightarrow> mem_word pf t (a + of_nat k) = mem_word pf s (a + of_nat k)"
  by (simp add: mem_word_bytes same_range_bytes)

text \<open>What is trusted of a certificate depends on its bytes and on the fuses.\<close>

lemma certificate_trusted:
  assumes r: "same_range pf ac 3776 s t"
  shows "ppk_trusted pf sx ac t = ppk_trusted pf sx ac s" "spk_key pf t ac = spk_key pf s ac"
    "signature_at pf t (ac + BHDR_SIG_OFFSET) = signature_at pf s (ac + BHDR_SIG_OFFSET)"
    "mem_bytes pf t (ac + XFSBL_AUTH_CERT_PPK_OFFSET) 1088 = mem_bytes pf s (ac + XFSBL_AUTH_CERT_PPK_OFFSET) 1088"
proof -
  note b = same_range_bytes [OF r] and w = same_range_word [OF r, of 0, simplified]
  have f: "fuse_value pf t EFUSE_SEC_CTRL = fuse_value pf s EFUSE_SEC_CTRL" "ppk_fuses pf t second = ppk_fuses pf s second" for second
    using r is_fuse_ppk unfolding same_range_def same_fuses_def ppk_fuses_def by (auto intro!: arg_cong [where f = bytes_of_words])
  show "mem_bytes pf t (ac + XFSBL_AUTH_CERT_PPK_OFFSET) 1088 = mem_bytes pf s (ac + XFSBL_AUTH_CERT_PPK_OFFSET) 1088"
    using b [of 64 1088] by simp
  have "mem_bytes pf t (ac + XFSBL_RSA_AC_ALIGN) 1088 = mem_bytes pf s (ac + XFSBL_RSA_AC_ALIGN) 1088"
    using b [of 64 1088] by simp
  then show "ppk_trusted pf sx ac t = ppk_trusted pf sx ac s"
    unfolding ppk_trusted_def w f by simp
  show "signature_at pf t (ac + BHDR_SIG_OFFSET) = signature_at pf s (ac + BHDR_SIG_OFFSET)"
    using b [of 2752 512] by (simp add: signature_at_def)
  show "spk_key pf t ac = spk_key pf s ac"
    using b [of 1152 512] b [of 1664 512] b [of 2176 4] by (simp add: spk_key_def Let_def add.assoc)
qed

text \<open>
  The device writes only where it is told to; reading the multiboot register and announcing the parameters of the
  trusted firmware change neither memory nor fuses, and clearing memory no fuse. The three buffers do not overlap.
\<close>

definition copies_only :: "'s platform \<Rightarrow> (u32 \<Rightarrow> u64 \<Rightarrow> u32 \<Rightarrow> 's \<Rightarrow> (u32 \<times> 's) option) \<Rightarrow> bool" where
  "copies_only pf copy \<longleftrightarrow> (\<forall>off dst len s Status t. copy off dst len s = Some (Status, t) \<longrightarrow> writes_only pf dst (unat len) s t)"

definition board_quiet :: "'s platform \<Rightarrow> 's boot_env \<Rightarrow> bool" where
  "board_quiet pf be \<longleftrightarrow> (\<forall>s. same_view pf s (snd (In32 (pf_bus pf) s CSU_CSU_MULTI_BOOT))) \<and>
     (\<forall>s. same_view pf s (write_reg pf PMU_GLOBAL_GLOB_GEN_STORAGE6 (be_AtfParams be) s)) \<and>
     (\<forall>s a v n. same_fuses pf s (pf_memset pf a v n s))"

definition buffers_apart :: "'s platform \<Rightarrow> 's boot_env \<Rightarrow> bool" where
  "buffers_apart pf be \<longleftrightarrow> apart (pf_AuthBuffer pf) 3776 (pf_ReadBuffer pf) 57344 \<and>
     apart (pf_ReadBuffer pf) 57344 (pf_AuthBuffer pf) 3776 \<and> apart (pf_ReadBuffer pf) 57344 (be_AcOffset be) 4"

lemma copy_from_writes:
  assumes "copies_only pf (DeviceCopy I)" "copy_from off dst len I = Some (Status, J)"
  shows "writes_only pf dst (unat len) (machine I) (machine J)" "J = I\<lparr>machine := machine J\<rparr>"
  using assms by (auto simp: copy_from_def on_machine_def copies_only_def)

lemma authenticate_table_trusted:
  assumes q: "fuses_quiet pf sx" and c: "copies_only pf (DeviceCopy I)" and b: "buffers_apart pf be"
    and r: "authenticate_table pf sx Ac io I = Some (XFSBL_SUCCESS, J)"
  shows "J = I\<lparr>machine := machine J\<rparr>" "same_range pf (pf_AuthBuffer pf) 3776 (machine I) (machine J)"
    "spk_trusted pf sx (EfusePpkKey I) (pf_AuthBuffer pf) (machine J)"
    "signature_ok sx (spk_key pf (machine J) (pf_AuthBuffer pf)) (signature_at pf (machine J) (pf_AuthBuffer pf + PARTITION_SIG_OFFSET))
       (partition_hash pf sx (machine J) (pf_ReadBuffer pf) (Ac * 4 - io + XFSBL_AUTH_CERT_MIN_SIZE) (pf_AuthBuffer pf))"
    "mem_word pf (machine J) (pf_ReadBuffer pf + 16) = Ac" "Ac * 4 - io \<le> READ_BUFFER_SIZE"
proof -
  have small: "Ac * 4 - io \<le> READ_BUFFER_SIZE"
    using r by (auto simp: authenticate_table_def Let_def not_less split: if_splits)
  from r have "on_success (copy_from (ImageOffsetAddress I + io) (pf_ReadBuffer pf) (Ac * 4 - io) I) (\<lambda>Status. Status) (\<lambda>I.
           case XFsbl_Authentication pf sx (EfusePpkKey I) (pf_ReadBuffer pf) (Ac * 4 - io + XFSBL_AUTH_CERT_MIN_SIZE)
                  (pf_AuthBuffer pf) (machine I) of (Status, s) \<Rightarrow>
             let I = I\<lparr>machine := s\<rparr>
             in if Status \<noteq> XFSBL_SUCCESS then Some (Status, I)
                else if Ac \<noteq> mem_word pf (machine I) (pf_ReadBuffer pf + ucast XIH_IHT_AC_OFFSET)
                then Some (XFSBL_ERROR_IMAGE_HEADER_ACOFFSET, I) else Some (XFSBL_SUCCESS, I)) = Some (XFSBL_SUCCESS, J)"
    by (simp add: authenticate_table_def Let_def split: if_splits)
  then obtain K where k: "copy_from (ImageOffsetAddress I + io) (pf_ReadBuffer pf) (Ac * 4 - io) I = Some (XFSBL_SUCCESS, K)"
    and a: "(case XFsbl_Authentication pf sx (EfusePpkKey K) (pf_ReadBuffer pf) (Ac * 4 - io + XFSBL_AUTH_CERT_MIN_SIZE)
                  (pf_AuthBuffer pf) (machine K) of (Status, s) \<Rightarrow>
             let I = K\<lparr>machine := s\<rparr>
             in if Status \<noteq> XFSBL_SUCCESS then Some (Status, I)
                else if Ac \<noteq> mem_word pf (machine I) (pf_ReadBuffer pf + ucast XIH_IHT_AC_OFFSET)
                then Some (XFSBL_ERROR_IMAGE_HEADER_ACOFFSET, I) else Some (XFSBL_SUCCESS, I)) = Some (XFSBL_SUCCESS, J)"
    unfolding on_success_keep by blast
  note w = copy_from_writes [OF c k]
  have key: "EfusePpkKey K = EfusePpkKey I" by (subst w(2)) simp
  from a have s: "XFsbl_Authentication pf sx (EfusePpkKey I) (pf_ReadBuffer pf) (Ac * 4 - io + XFSBL_AUTH_CERT_MIN_SIZE)
      (pf_AuthBuffer pf) (machine K) = (XFSBL_SUCCESS, machine J)" and J: "J = K\<lparr>machine := machine J\<rparr>"
    and ac: "mem_word pf (machine J) (pf_ReadBuffer pf + 16) = Ac"
    by (auto simp: key Let_def split: prod.splits if_splits)
  note i = Authentication_iff [OF q, where PpkKey = "EfusePpkKey I" and PartitionOffset = "pf_ReadBuffer pf" and
      PartitionLen = "Ac * 4 - io + XFSBL_AUTH_CERT_MIN_SIZE" and ac = "pf_AuthBuffer pf" and s = "machine K", unfolded s fst_conv snd_conv]
  show "J = I\<lparr>machine := machine J\<rparr>" by (subst J, subst w(2)) simp
  have "unat (Ac * 4 - io) \<le> 57344" using small by (simp add: word_le_nat_alt)
  then have "same_range pf (pf_AuthBuffer pf) 3776 (machine I) (machine K)"
    using w(1) b by (intro same_range_writes [where b = "pf_ReadBuffer pf" and k = 57344]) (simp_all add: buffers_apart_def)
  with i(2) show "same_range pf (pf_AuthBuffer pf) 3776 (machine I) (machine J)"
    by (blast intro: same_range_trans same_range_view)
  show "spk_trusted pf sx (EfusePpkKey I) (pf_AuthBuffer pf) (machine J)"
    "signature_ok sx (spk_key pf (machine J) (pf_AuthBuffer pf)) (signature_at pf (machine J) (pf_AuthBuffer pf + PARTITION_SIG_OFFSET))
       (partition_hash pf sx (machine J) (pf_ReadBuffer pf) (Ac * 4 - io + XFSBL_AUTH_CERT_MIN_SIZE) (pf_AuthBuffer pf))"
    using i(1) unfolding same_view_mem [OF i(2)] trusted_view [OF i(2)] by blast+
  show "mem_word pf (machine J) (pf_ReadBuffer pf + 16) = Ac" "Ac * 4 - io \<le> READ_BUFFER_SIZE" by (fact ac small)+
qed

text \<open>The bytes of a boot header, signed as the certificate in the buffer says.\<close>

definition boot_header_size :: "u32 \<Rightarrow> nat" where
  "boot_header_size attributes = unat (if attributes AND XIH_BH_IMAGE_ATTRB_PUF_BH_MASK \<noteq> 0 then XIH_BH_MAX_SIZE else XIH_BH_MIN_SIZE)"

definition boot_header_signed :: "'s platform \<Rightarrow> ('s, 'h) secure \<Rightarrow> u8 list \<Rightarrow> 's \<Rightarrow> bool" where
  "boot_header_signed pf sx bh s \<longleftrightarrow>
     signature_ok sx (spk_key pf s (pf_AuthBuffer pf)) (signature_at pf s (pf_AuthBuffer pf + BHDR_SIG_OFFSET))
       (sx_Sha3Finish sx (sx_Sha3Update sx bh (snd (sx_Sha3PadSelection sx XSECURE_CSU_KECCAK_SHA3 (XFsbl_ShaStart sx)))))"

lemma authenticate_header_trusted:
  assumes q: "fuses_quiet pf sx" and c: "copies_only pf (DeviceCopy I)" and b: "buffers_apart pf be"
    and r: "authenticate_header pf sx be True io I = Some (XFSBL_SUCCESS, J)"
  shows "ppk_trusted pf sx (pf_AuthBuffer pf) (machine J)"
    "EfusePpkKey J = mem_bytes pf (machine J) (pf_AuthBuffer pf + XFSBL_AUTH_CERT_PPK_OFFSET) 1088"
    "spk_trusted pf sx (EfusePpkKey J) (pf_AuthBuffer pf) (machine J)"
    "boot_header_signed pf sx (mem_bytes pf (machine I) (pf_ReadBuffer pf) (boot_header_size (BootHdrAttributes I))) (machine J)"
    "J = I\<lparr>machine := machine J, EfusePpkKey := EfusePpkKey J\<rparr>"
    "\<exists>Ac. mem_word pf (machine J) (pf_ReadBuffer pf + 16) = Ac \<and> Ac * 4 - io \<le> READ_BUFFER_SIZE \<and>
       signature_ok sx (spk_key pf (machine J) (pf_AuthBuffer pf)) (signature_at pf (machine J) (pf_AuthBuffer pf + PARTITION_SIG_OFFSET))
         (partition_hash pf sx (machine J) (pf_ReadBuffer pf) (Ac * 4 - io + XFSBL_AUTH_CERT_MIN_SIZE) (pf_AuthBuffer pf))"
proof -
  from r obtain K where k: "copy_from (ImageOffsetAddress I + io + XIH_IHT_AC_OFFSET) (be_AcOffset be) XIH_FIELD_LEN I = Some (XFSBL_SUCCESS, K)"
    and kr: "(let AcOffset = mem_word pf (machine K) (be_AcOffset be)
       in if AcOffset = 0 then Some (XFSBL_ERROR_IMAGE_HEADER_ACOFFSET, K)
          else on_success (copy_from (ImageOffsetAddress K + AcOffset * XIH_PARTITION_WORD_LENGTH) (pf_AuthBuffer pf)
                            XFSBL_AUTH_CERT_MIN_SIZE K) (\<lambda>Status. Status) (\<lambda>I.
            case XFsbl_BhAuthentication pf sx (BootHdrAttributes I) (EfusePpkKey I) (pf_ReadBuffer pf) (pf_AuthBuffer pf)
                   True (machine I) of (Status, PpkKey, s) \<Rightarrow>
              let I = I\<lparr>machine := s, EfusePpkKey := PpkKey\<rparr>
              in if Status \<noteq> XFSBL_SUCCESS then Some (Status, I) else authenticate_table pf sx AcOffset io I)) = Some (XFSBL_SUCCESS, J)"
    unfolding authenticate_header_def on_success_keep by blast
  define Ac where "Ac = mem_word pf (machine K) (be_AcOffset be)"
  from kr obtain L where l: "copy_from (ImageOffsetAddress K + Ac * XIH_PARTITION_WORD_LENGTH) (pf_AuthBuffer pf)
                            XFSBL_AUTH_CERT_MIN_SIZE K = Some (XFSBL_SUCCESS, L)"
    and lr: "(case XFsbl_BhAuthentication pf sx (BootHdrAttributes L) (EfusePpkKey L) (pf_ReadBuffer pf) (pf_AuthBuffer pf)
                   True (machine L) of (Status, PpkKey, s) \<Rightarrow>
              let I = L\<lparr>machine := s, EfusePpkKey := PpkKey\<rparr>
              in if Status \<noteq> XFSBL_SUCCESS then Some (Status, I) else authenticate_table pf sx Ac io I) = Some (XFSBL_SUCCESS, J)"
    unfolding Let_def Ac_def [symmetric] by (simp add: on_success_keep split: if_splits) blast
  note wk = copy_from_writes [OF c k]
  have ck: "copies_only pf (DeviceCopy K)" using c by (subst wk(2)) simp
  note wl = copy_from_writes [OF ck l]
  have LI: "L = I\<lparr>machine := machine L\<rparr>" by (subst wl(2), subst wk(2)) simp
  from lr obtain key s where a: "XFsbl_BhAuthentication pf sx (BootHdrAttributes L) (EfusePpkKey L) (pf_ReadBuffer pf) (pf_AuthBuffer pf)
      True (machine L) = (XFSBL_SUCCESS, key, s)"
    and t: "authenticate_table pf sx Ac io (L\<lparr>machine := s, EfusePpkKey := key\<rparr>) = Some (XFSBL_SUCCESS, J)"
    by (auto simp: Let_def split: prod.splits if_splits)
  note h = BhAuthentication_trusted [OF q a]
  define M where "M = L\<lparr>machine := s, EfusePpkKey := key\<rparr>"
  have M: "DeviceCopy M = DeviceCopy I" "machine M = s" "EfusePpkKey M = key" by (simp_all add: M_def, subst LI, simp)
  have cm: "copies_only pf (DeviceCopy M)" using c by (simp add: M)
  note t' = authenticate_table_trusted [OF q cm b t [folded M_def], unfolded M]
  have sr: "same_range pf (pf_AuthBuffer pf) 3776 (machine L) (machine J)"
    using h(1) t'(2) by (blast intro: same_range_trans same_range_view)
  note ct = certificate_trusted [OF sr] and cts = certificate_trusted(3) [OF sr, simplified]
  show key: "EfusePpkKey J = mem_bytes pf (machine J) (pf_AuthBuffer pf + XFSBL_AUTH_CERT_PPK_OFFSET) 1088"
    by (subst t'(1)) (simp add: M h(2) ct)
  have J: "EfusePpkKey J = key" by (subst t'(1)) (simp add: M)
  show "ppk_trusted pf sx (pf_AuthBuffer pf) (machine J)" using h(3) by (simp add: ct)
  show "spk_trusted pf sx (EfusePpkKey J) (pf_AuthBuffer pf) (machine J)" using t'(3) by (simp add: J)
  have "same_range pf (pf_ReadBuffer pf) 57344 (machine I) (machine L)"
    using same_range_trans [OF same_range_writes [OF wk(1), where k = 4] same_range_writes [OF wl(1), where k = 3776]] b
    by (simp add: buffers_apart_def)
  then have bh: "mem_bytes pf (machine L) (pf_ReadBuffer pf) n = mem_bytes pf (machine I) (pf_ReadBuffer pf) n" if "n \<le> 57344" for n
    using same_range_bytes [of pf "pf_ReadBuffer pf" 57344 "machine I" "machine L" 0 n] that by simp
  have "BootHdrAttributes L = BootHdrAttributes I" by (subst LI) simp
  then show "boot_header_signed pf sx (mem_bytes pf (machine I) (pf_ReadBuffer pf) (boot_header_size (BootHdrAttributes I))) (machine J)"
    using h(5) by (simp add: boot_header_signed_def boot_header_size_def bh_hash_def XFsbl_ShaUpdate_def XFsbl_ShaFinish_def ct(1,2,4) cts bh split: if_splits)
  show "J = I\<lparr>machine := machine J, EfusePpkKey := EfusePpkKey J\<rparr>"
    unfolding J by (subst t'(1), simp add: M_def, subst LI, simp)
  show "\<exists>Ac. mem_word pf (machine J) (pf_ReadBuffer pf + 16) = Ac \<and> Ac * 4 - io \<le> READ_BUFFER_SIZE \<and>
       signature_ok sx (spk_key pf (machine J) (pf_AuthBuffer pf)) (signature_at pf (machine J) (pf_AuthBuffer pf + PARTITION_SIG_OFFSET))
         (partition_hash pf sx (machine J) (pf_ReadBuffer pf) (Ac * 4 - io + XFSBL_AUTH_CERT_MIN_SIZE) (pf_AuthBuffer pf))"
    using t'(4-6) by blast
qed

lemma load_image_header_buffer:
  assumes b: "board_quiet pf be" and r: "load_image_header pf be False fo io I = Some (XFSBL_SUCCESS, J)"
    and l: "length (PartitionHeader (ImageHeader_of I)) = 32"
  shows "parsed_from (header_buffer pf (machine I)) io (ImageHeader_of J)" "same_view pf (machine I) (machine J)"
proof -
  obtain Status st where h: "XFsbl_ReadImageHeader write_log (be_AtfParams be) None (header_buffer pf (machine I)) fo (ProcessorID I) io
      \<lparr>ImageHeader = ImageHeader_of I, ATFHandoffParams = ATFHandoffParams_of I,
       DeviceState = Some (machine I, 0 :: nat), BusState = []\<rparr> = (Status, st)" (is "?r = _")
    by (cases ?r)
  note x = ReadImageHeader_buffer [OF h]
  from r h x(1) have "Status = XFSBL_SUCCESS" "ImageHeader_of J = ImageHeader st" "machine J = put_regs pf (BusState st) (machine I)"
    by (auto simp: load_image_header_def)
  with x(2,3) b l show "parsed_from (header_buffer pf (machine I)) io (ImageHeader_of J)" "same_view pf (machine I) (machine J)"
    by (auto simp: put_regs_def board_quiet_def)
qed

text \<open>
  C3. With the fuse that requires signatures blown, the second stage accepts an image only along a chain of trust: the
  certificate it leaves in its buffer has a primary key whose hash is in the fuses and that is not revoked, and a
  secondary key signed by it and not revoked; the boot header, of which the initialisation vector, the attributes and
  the place of the image header are taken, is signed by the secondary key; so is the image header in the buffer, up to
  the certificate; and the table and every partition header the loader goes on with are those in that buffer. The
  primary key is kept for the partitions.
\<close>

theorem boot_image_chain_of_trust:
  assumes q: "fuses_quiet pf sx" and c: "copies_only pf (DeviceCopy I)" and b: "board_quiet pf be" "buffers_apart pf be"
    and blown: "fuse_value pf (machine I) EFUSE_SEC_CTRL AND EFUSE_SEC_CTRL_RSA_EN_MASK \<noteq> 0"
    and l: "length (PartitionHeader (ImageHeader_of I)) = 32"
    and r: "XFsbl_ValidateHeader pf sx be I = Some (XFSBL_SUCCESS, J)"
  shows "let ac = pf_AuthBuffer pf; s = machine J; hdr = header_buffer pf s in
    ppk_trusted pf sx ac s \<and> EfusePpkKey J = mem_bytes pf s (ac + XFSBL_AUTH_CERT_PPK_OFFSET) 1088 \<and>
    spk_trusted pf sx (EfusePpkKey J) ac s \<and>
    (\<exists>bh io len. boot_header_signed pf sx bh s \<and> length bh = boot_header_size (BootHdrAttributes J) \<and>
       BootIv J = take 16 (drop 160 bh) \<and> BootHdrAttributes J = le32 (nth bh) 68 \<and> io = le32 (nth bh) 152 \<and>
       le32 hdr 16 * 4 - io = len \<and> unat len \<le> 57344 \<and>
       signature_ok sx (spk_key pf s ac) (signature_at pf s (ac + PARTITION_SIG_OFFSET))
         (partition_hash pf sx s (pf_ReadBuffer pf) (len + XFSBL_AUTH_CERT_MIN_SIZE) ac) \<and>
       parsed_from hdr io (ImageHeader_of J))"
proof -
  obtain M s0 where m: "In32 (pf_bus pf) (machine I) CSU_CSU_MULTI_BOOT = (M, s0)"
    by (cases "In32 (pf_bus pf) (machine I) CSU_CSU_MULTI_BOOT")
  define K where "K = I\<lparr>machine := pf_memset pf (be_AcOffset be) 0 XIH_FIELD_LEN s0, ImageOffsetAddress := image_offset I M\<rparr>"
  have K: "DeviceCopy K = DeviceCopy I" "ImageHeader_of K = ImageHeader_of I" by (simp_all add: K_def)
  have "same_view pf (machine I) s0" using b(1) m by (simp add: board_quiet_def) (metis snd_conv)
  then have fK: "same_fuses pf (machine I) (machine K)"
    using b(1) same_view_fuse [of pf "machine I" s0] by (simp add: K_def board_quiet_def same_fuses_def)
  from r have "on_success (copy_from (ImageOffsetAddress K) (pf_ReadBuffer pf) XIH_BH_MAX_SIZE K) (\<lambda>Status. Status)
      (check_boot_header pf sx be) = Some (XFSBL_SUCCESS, J)"
    by (simp add: XFsbl_ValidateHeader_def m K_def)
  then obtain I0 where i0: "copy_from (ImageOffsetAddress K) (pf_ReadBuffer pf) XIH_BH_MAX_SIZE K = Some (XFSBL_SUCCESS, I0)"
    and k: "check_boot_header pf sx be I0 = Some (XFSBL_SUCCESS, J)"
    unfolding on_success_keep by blast
  have cK: "copies_only pf (DeviceCopy K)" using c by (simp add: K)
  note w = copy_from_writes [OF cK i0]
  have I0: "DeviceCopy I0 = DeviceCopy I" "ImageHeader_of I0 = ImageHeader_of I" by (subst w(2), simp add: K)+
  define L where "L = take_boot_header pf I0"
  have L: "machine L = machine I0" "DeviceCopy L = DeviceCopy I" "ImageHeader_of L = ImageHeader_of I"
    by (simp_all add: L_def take_boot_header_def I0)
  define io where "io = table_offset pf L"
  obtain ctrl s1 where f: "In32 (pf_bus pf) (machine L) EFUSE_SEC_CTRL = (ctrl, s1)"
    by (cases "In32 (pf_bus pf) (machine L) EFUSE_SEC_CTRL")
  note f1 = fuses_quiet_In32 [OF q is_fuse_known(1) f]
  have "ctrl = fuse_value pf (machine I) EFUSE_SEC_CTRL"
    using f1 fK w(1) is_fuse_known(1) by (simp add: L writes_only_def same_fuses_def)
  with blown have rsa: "(ctrl AND EFUSE_SEC_CTRL_RSA_EN_MASK \<noteq> 0) = True" by simp
  define P where "P = L\<lparr>machine := s1\<rparr>"
  from k have "on_success (authenticate_header pf sx be True io P) (\<lambda>Status. Status)
      (load_image_header pf be False (ucast (pf_ReadBuffer pf)) io) = Some (XFSBL_SUCCESS, J)"
    unfolding check_boot_header_def L_def [symmetric] f Let_def prod.case io_def [symmetric] P_def [symmetric] rsa
    by (simp split: if_splits)
  then obtain A where a: "authenticate_header pf sx be True io P = Some (XFSBL_SUCCESS, A)"
    and rd: "load_image_header pf be False (ucast (pf_ReadBuffer pf)) io A = Some (XFSBL_SUCCESS, J)"
    unfolding on_success_keep by blast
  have P: "DeviceCopy P = DeviceCopy I" "machine P = s1" "ImageHeader_of P = ImageHeader_of I" "BootIv P = BootIv L"
    "BootHdrAttributes P = BootHdrAttributes L" by (simp_all add: P_def L)
  have cP: "copies_only pf (DeviceCopy P)" using c by (simp add: P)
  note t = authenticate_header_trusted [OF q cP b(2) a, unfolded P]
  have A: "ImageHeader_of A = ImageHeader_of I" "BootIv A = BootIv L" "BootHdrAttributes A = BootHdrAttributes L"
    by (subst t(5), simp add: P)+
  note p = load_image_header_buffer [OF b(1) rd, unfolded A, OF l]
  note J = load_image_header_fields(5-7) [OF rd]
  note v = same_view_mem [OF p(2)] trusted_view [OF p(2)]
  have hb: "header_buffer pf (machine J) = header_buffer pf (machine A)"
    using p(2) by (simp add: header_buffer_def fun_eq_iff same_view_def)
  define bh where "bh = mem_bytes pf s1 (pf_ReadBuffer pf) (boot_header_size (BootHdrAttributes L))"
  have m1: "mem_bytes pf s1 = mem_bytes pf (machine I0)" "mem_word pf s1 = mem_word pf (machine I0)"
    using same_view_mem [OF f1 [THEN conjunct1]] by (simp_all add: L)
  have size: "2232 \<le> boot_header_size x" for x by (simp add: boot_header_size_def)
  have nth: "bh ! k = pf_read pf (machine I0) (pf_ReadBuffer pf + of_nat k)" if "k < 2232" for k
    using that order_less_le_trans [OF that size] by (simp add: bh_def m1 mem_bytes_def)
  have len: "length bh = boot_header_size (BootHdrAttributes L)" by (simp add: bh_def mem_bytes_def)
  have bytes: "take 16 (drop 160 bh) = BootIv L"
    using size [of "BootHdrAttributes L"]
    by (intro nth_equalityI) (simp_all add: len nth L_def take_boot_header_def mem_bytes_def add.assoc)
  have words: "le32 (nth bh) k = mem_word pf (machine I0) (pf_ReadBuffer pf + of_nat k)" if "k < 2000" for k
    using that by (simp add: le32_def mem_word_def nth ac_simps)
  have "le32 (header_buffer pf (machine A)) 16 = mem_word pf (machine A) (pf_ReadBuffer pf + 16)"
    by (simp add: le32_def mem_word_def header_buffer_def add.assoc)
  with t(6) obtain len1 where h: "le32 (header_buffer pf (machine J)) 16 * 4 - io = len1" "unat len1 \<le> 57344"
    "signature_ok sx (spk_key pf (machine J) (pf_AuthBuffer pf)) (signature_at pf (machine J) (pf_AuthBuffer pf + PARTITION_SIG_OFFSET))
         (partition_hash pf sx (machine J) (pf_ReadBuffer pf) (len1 + XFSBL_AUTH_CERT_MIN_SIZE) (pf_AuthBuffer pf))"
    by (auto simp: hb v word_le_nat_alt)
  have "boot_header_signed pf sx bh (machine J)"
    using t(4) by (simp add: bh_def boot_header_signed_def v)
  moreover have "BootHdrAttributes L = le32 (nth bh) 68" "io = le32 (nth bh) 152"
    by (simp_all add: words L_def take_boot_header_def io_def table_offset_def)
  ultimately have "\<exists>bh io len. boot_header_signed pf sx bh (machine J) \<and> length bh = boot_header_size (BootHdrAttributes J) \<and>
       BootIv J = take 16 (drop 160 bh) \<and> BootHdrAttributes J = le32 (nth bh) 68 \<and> io = le32 (nth bh) 152 \<and>
       le32 (header_buffer pf (machine J)) 16 * 4 - io = len \<and> unat len \<le> 57344 \<and>
       signature_ok sx (spk_key pf (machine J) (pf_AuthBuffer pf)) (signature_at pf (machine J) (pf_AuthBuffer pf + PARTITION_SIG_OFFSET))
         (partition_hash pf sx (machine J) (pf_ReadBuffer pf) (len + XFSBL_AUTH_CERT_MIN_SIZE) (pf_AuthBuffer pf)) \<and>
       parsed_from (header_buffer pf (machine J)) io (ImageHeader_of J)"
    using h p(1) len bytes unfolding J A hb by metis
  with t(1-3) show ?thesis by (simp add: Let_def J v)
qed

section \<open>Examples\<close>

text \<open>A serial flash with the given content, which can be copied to memory.\<close>

definition flash_to_memory :: "(nat \<Rightarrow> u8) \<Rightarrow> u32 \<Rightarrow> u64 \<Rightarrow> u32 \<Rightarrow> demo \<Rightarrow> (u32 \<times> demo) option" where
  "flash_to_memory flash off dst len = (\<lambda>(r, m).
     Some (XFSBL_SUCCESS, r, \<lambda>b. if within b dst (unat len) then flash (unat off + unat (b - dst)) else m b))"

definition demo_environment :: "(nat \<Rightarrow> u8) \<Rightarrow> demo boot_env" where
  "demo_environment flash =
     \<lparr>be_AcOffset = 0x500000, be_ImageHeader = 0x600000, be_AtfParams = 0x700000, be_has_qspi = True, be_has_nand = False,
      be_has_sd0 = False, be_has_sd1 = False, be_Qspi24Init = \<lambda>s. Some (XFSBL_SUCCESS, s), be_Qspi24Copy = flash_to_memory flash,
      be_Qspi32Init = \<lambda>s. Some (XFSBL_SUCCESS, s), be_Qspi32Copy = flash_to_memory flash,
      be_fatfs = \<lparr>fs_two_drives = False, fs_mount = \<lambda>_ s. (0, s), fs_open = \<lambda>_ s. (0, s), fs_lseek = \<lambda>_ s. (0, s),
                  fs_read = \<lambda>_ _ s. (0, 0, s), fs_close = \<lambda>s. (0, s)\<rparr>, be_nand = demo_nand,
      be_WdtLookup = False, be_WdtCfgInitialize = \<lambda>s. (XFSBL_SUCCESS, s), be_WdtSetPrescale4096 = \<lambda>s. s,
      be_WdtCounter = \<lambda>_ s. (0, s), be_WdtSetReset = \<lambda>_ s. s, be_WdtEnableOutput = \<lambda>s. s, be_WdtStart = \<lambda>s. s\<rparr>"

text \<open>A signed image: the header points to a table at \<open>0x1000\<close>, its certificate is at \<open>0x2000\<close>.\<close>

definition demo_image :: "nat \<Rightarrow> u8" where
  "demo_image = (\<lambda>_. 0)(0x99 := 0x10, 0x1004 := 2, 0x1008 := 0x40, 0x1009 := 4, 0x1011 := 8,
     0x103C := 0xBD, 0x103D := 0xF3, 0x103E := 0xFF, 0x103F := 0xFF, 0x2002 := 4, 0x2004 := 7, 0x28C2 := 4)"

definition demo_start_up :: "(nat \<Rightarrow> u8) \<Rightarrow> (u64 \<Rightarrow> u32) \<Rightarrow> demo XFsblPs" where
  "demo_start_up flash regs = demo_instance\<lparr>machine := (regs, \<lambda>_. 0), DeviceCopy := flash_to_memory flash,
     ImageHeader_of := \<lparr>ImageHeaderTable = demo_table, PartitionHeader = replicate 32 demo_signed_header\<rparr>\<rparr>"

lemma demo_buffer_addresses [simp]:
  "pf_ReadBuffer demo_platform = 0x400000" "be_AcOffset (demo_environment flash) = 0x500000" "be_AtfParams (demo_environment flash) = 0x700000"
  "pf_memset demo_platform a v n s = s"
  by (simp_all add: demo_platform_def demo_environment_def)

lemma demo_copies: "copies_only demo_platform (flash_to_memory flash)"
  by (auto simp: copies_only_def flash_to_memory_def writes_only_def same_fuses_def fuse_value_def)

lemma demo_board: "board_quiet demo_platform (demo_environment flash)"
proof -
  have "pf_memset demo_platform = (\<lambda>_ _ _ s. s)" by (simp add: demo_platform_def)
  then show ?thesis
    by (auto simp: board_quiet_def same_view_def same_fuses_def fuse_value_def is_fuse_def demo_environment_def)
qed

lemma len64: "LENGTH(64) = 64"
  by simp

lemma within_unat:
  assumes "within c a n" "unat a + n \<le> 2 ^ 64"
  shows "unat a \<le> unat c \<and> unat c < unat a + n"
proof -
  have "c = a + (c - a)" by simp
  moreover have "unat a + unat (c - a) < 2 ^ 64" using assms by (simp add: within_def)
  ultimately have "unat c = unat a + unat (c - a)" by (metis unat_add_lem len64)
  with assms(1) show ?thesis by (simp add: within_def)
qed

lemma apartI: "\<lbrakk>unat a + n \<le> unat b; unat b + m \<le> 2 ^ 64\<rbrakk> \<Longrightarrow> apart a n b m \<and> apart b m a n"
  unfolding apart_def by (auto dest!: within_unat)

lemma demo_buffers: "buffers_apart demo_platform (demo_environment flash)"
proof -
  have s: "pf_AuthBuffer demo_platform = 0x200000" "pf_ReadBuffer demo_platform = 0x400000" "be_AcOffset (demo_environment flash) = 0x500000"
    by (simp_all add: demo_platform_def demo_environment_def)
  show ?thesis
    unfolding buffers_apart_def s
    using apartI [of "0x200000" 3776 "0x400000" 57344] apartI [of "0x400000" 57344 "0x500000" 4] by simp
qed

definition blown_fuses :: "u64 \<Rightarrow> u32" where
  "blown_fuses = (\<lambda>_. 0)(EFUSE_SEC_CTRL := 0x800, EFUSE_SPKID := 7)"

definition overlay :: "u64 \<Rightarrow> nat \<Rightarrow> (nat \<Rightarrow> u8) \<Rightarrow> nat \<Rightarrow> (u64 \<Rightarrow> u8) \<Rightarrow> u64 \<Rightarrow> u8" where
  "overlay dst n flash off m = (\<lambda>b. if within b dst n then flash (off + unat (b - dst)) else m b)"

text \<open>Memory after the boot header, the offset of the certificate, the certificate and the image header have been copied.\<close>

definition demo_m1 :: "u64 \<Rightarrow> u8" where "demo_m1 = overlay 0x400000 3776 demo_image 0 (\<lambda>_. 0)"
definition demo_m2 :: "u64 \<Rightarrow> u8" where "demo_m2 = overlay 0x500000 4 demo_image 0x1010 demo_m1"
definition demo_m3 :: "u64 \<Rightarrow> u8" where "demo_m3 = overlay 0x200000 3776 demo_image 0x2000 demo_m2"
definition demo_m4 :: "u64 \<Rightarrow> u8" where "demo_m4 = overlay 0x400000 0x1000 demo_image 0x1000 demo_m3"

lemmas demo_memories = demo_m1_def demo_m2_def demo_m3_def demo_m4_def overlay_def within_def demo_image_def

lemma demo_read_words:
  "mem_word demo_platform (r, demo_m1) 0x400044 = 0" "mem_word demo_platform (r, demo_m1) 0x400098 = 0x1000"
  "mem_word demo_platform (r, demo_m2) 0x500000 = 0x800" "mem_word demo_platform (r, demo_m4) 0x400010 = 0x800"
  "mem_word demo_platform (r, demo_m3) 0x200000 = 0x40000" "mem_word demo_platform (r, demo_m4) 0x200000 = 0x40000"
  "mem_word demo_platform (r, demo_m3) 0x200004 = 7" "mem_word demo_platform (r, demo_m4) 0x200004 = 7"
  by (simp_all add: le32_def demo_memories)

lemma demo_secure_fields [simp]:
  "sx_Sha3PadSelection demo_secure p h = (XFSBL_SUCCESS, h)" "sx_Sha3Update demo_secure bs h = h @ bs" "sx_Sha3Finish demo_secure h = h"
  "XFsbl_ShaStart demo_secure = []" "sx_RsaInitialize demo_secure key = XFSBL_SUCCESS"
  "sx_RsaPublicEncrypt demo_secure key sig = (XFSBL_SUCCESS, take 4 sig)"
  "sx_RsaSignVerification demo_secure out hash = (if out = take 4 hash then XFSBL_SUCCESS else XFSBL_FAILURE)"
  "XFsbl_CsuDmaInit demo_secure s = (XFSBL_SUCCESS, s)"
  by (simp_all add: demo_secure_def XFsbl_ShaStart_def XFsbl_CsuDmaInit_def)

lemma demo_fuse_values [simp]:
  "fuse_value demo_platform (blown_fuses, m) a = blown_fuses a" "blown_fuses EFUSE_SEC_CTRL = 0x800" "blown_fuses EFUSE_SPKID = 7"
  by (simp_all add: fuse_value_def blown_fuses_def)

text \<open>What the buffers hold.\<close>

lemma overlay_at: "\<lbrakk>k < n; n < 2 ^ 64\<rbrakk> \<Longrightarrow> overlay dst n flash off m (dst + of_nat k) = flash (off + k)"
  using unat_of_nat_small [of k, where 'a = 64] by (simp add: overlay_def within_def)

lemma overlay_apart: "\<lbrakk>apart a k dst n; within c a k\<rbrakk> \<Longrightarrow> overlay dst n flash off m c = m c"
  by (simp add: overlay_def apart_def)

lemma demo_buffer_bytes:
  "k < 3776 \<Longrightarrow> demo_m3 (0x200000 + of_nat k) = demo_image (0x2000 + k)"
  "k < 3776 \<Longrightarrow> demo_m4 (0x200000 + of_nat k) = demo_image (0x2000 + k)"
  "k < 3776 \<Longrightarrow> demo_m3 (0x400000 + of_nat k) = demo_image k"
  "k < 0x1000 \<Longrightarrow> demo_m4 (0x400000 + of_nat k) = demo_image (0x1000 + k)"
proof -
  have a: "apart 0x200000 3776 0x400000 0x1000" "apart 0x400000 3776 0x500000 4" "apart 0x400000 3776 0x200000 3776"
    using apartI [of "0x200000" 3776 "0x400000" "0x1000"] apartI [of "0x400000" 3776 "0x500000" 4]
      apartI [of "0x200000" 3776 "0x400000" 3776] by simp_all
  show 3: "k < 3776 \<Longrightarrow> demo_m3 (0x200000 + of_nat k) = demo_image (0x2000 + k)"
    unfolding demo_m3_def by (rule overlay_at) simp_all
  show "k < 3776 \<Longrightarrow> demo_m4 (0x200000 + of_nat k) = demo_image (0x2000 + k)"
    unfolding demo_m4_def using 3 by (subst overlay_apart [OF a(1) within_offset]) simp_all
  show "k < 3776 \<Longrightarrow> demo_m3 (0x400000 + of_nat k) = demo_image k"
    unfolding demo_m3_def demo_m2_def demo_m1_def
    by (simp add: overlay_apart [OF a(3) within_offset] overlay_apart [OF a(2) within_offset] overlay_at)
  show "k < 0x1000 \<Longrightarrow> demo_m4 (0x400000 + of_nat k) = demo_image (0x1000 + k)"
    unfolding demo_m4_def by (rule overlay_at) simp_all
qed

lemma demo_certificate_bytes:
  assumes "m = demo_m3 \<or> m = demo_m4" "k + n \<le> 3776"
  shows "mem_bytes demo_platform (r, m) (0x200000 + of_nat k) n = map (\<lambda>i. demo_image (0x2000 + k + i)) [0..<n]"
proof -
  have "m (0x200000 + of_nat k + of_nat i) = demo_image (0x2000 + k + i)" if "i < n" for i
    using assms that demo_buffer_bytes(1,2) [of "k + i"] by (auto simp: add.assoc)
  then show ?thesis by simp
qed

text \<open>Signatures of the example are compared on four bytes.\<close>

lemma demo_first_bytes:
  assumes "m = demo_m3 \<or> m = demo_m4"
  shows "mem_bytes demo_platform (r, m) 0x200000 4 = [0, 0, 4, 0]" "mem_bytes demo_platform (r, m) 0x2008C0 4 = [0, 0, 4, 0]"
    "mem_bytes demo_platform (r, m) 0x200AC0 4 = [0, 0, 0, 0]" "mem_bytes demo_platform (r, m) 0x200CC0 4 = [0, 0, 0, 0]"
    "mem_bytes demo_platform (r, m) 0x200040 48 = replicate 48 0"
proof -
  note b = demo_certificate_bytes [OF assms]
  show "mem_bytes demo_platform (r, m) 0x200000 4 = [0, 0, 4, 0]" "mem_bytes demo_platform (r, m) 0x2008C0 4 = [0, 0, 4, 0]"
    "mem_bytes demo_platform (r, m) 0x200AC0 4 = [0, 0, 0, 0]" "mem_bytes demo_platform (r, m) 0x200CC0 4 = [0, 0, 0, 0]"
    using b [of 0 4 r] b [of "0x8C0" 4 r] b [of "0xAC0" 4 r] b [of "0xCC0" 4 r]
    by (simp_all add: demo_image_def upt_rec del: demo_simps)
  have "map (\<lambda>i. demo_image (0x2040 + i)) [0..<48] = replicate 48 0"
    by (intro nth_equalityI) (auto simp: demo_image_def)
  then show "mem_bytes demo_platform (r, m) 0x200040 48 = replicate 48 0"
    using b [of "0x40" 48 r] by (simp del: demo_simps)
qed

lemma demo_header_bytes:
  "mem_bytes demo_platform (r, demo_m3) 0x400000 4 = [0, 0, 0, 0]" "mem_bytes demo_platform (r, demo_m4) 0x400000 4 = [0, 0, 0, 0]"
proof -
  have "map (\<lambda>i. demo_m3 (0x400000 + of_nat i)) [0..<4] = map demo_image [0..<4]"
    "map (\<lambda>i. demo_m4 (0x400000 + of_nat i)) [0..<4] = map (\<lambda>i. demo_image (0x1000 + i)) [0..<4]"
    by (simp_all add: demo_buffer_bytes)
  then show "mem_bytes demo_platform (r, demo_m3) 0x400000 4 = [0, 0, 0, 0]" "mem_bytes demo_platform (r, demo_m4) 0x400000 4 = [0, 0, 0, 0]"
    by (simp_all add: demo_image_def upt_rec)
qed

lemma mem_bytes_length: "length (mem_bytes pf s a n) = n" "mem_bytes pf s a 0 = []"
  by (simp_all add: mem_bytes_def)

lemma demo_image_trusted:
  assumes "m = demo_m3 \<or> m = demo_m4"
  shows "ppk_trusted demo_platform demo_secure 0x200000 (blown_fuses, m)"
    and "spk_trusted demo_platform demo_secure key 0x200000 (blown_fuses, m)"
proof -
  have w: "mem_word demo_platform (blown_fuses, m) 0x200000 = 0x40000" "mem_word demo_platform (blown_fuses, m) 0x200004 = 7"
    using assms by (elim disjE, simp_all only: demo_read_words)+
  note f = demo_first_bytes [OF assms, of blown_fuses]
  have "\<forall>i \<in> {0..<12}. blown_fuses (EFUSE_PPK0 + 4 * of_nat i) = 0"
    by (simp add: blown_fuses_def atLeastLessThan_upt upt_rec)
  then have "map (\<lambda>i. blown_fuses (EFUSE_PPK0 + 4 * of_nat i)) [0..<12] = replicate 12 0"
    by (intro nth_equalityI) simp_all
  then have p: "ppk_fuses demo_platform (blown_fuses, m) False = replicate 48 0"
    by (simp add: ppk_fuses_def bytes_of_words_def upt_rec numeral_eq_Suc)
  show "ppk_trusted demo_platform demo_secure 0x200000 (blown_fuses, m)"
    by (simp add: ppk_trusted_def w take_mem_bytes f p del: demo_simps)
  show "spk_trusted demo_platform demo_secure key 0x200000 (blown_fuses, m)"
    by (simp add: spk_trusted_def spk_padding_def spk_fuse_select_def w XFsbl_Sha3PadSelect_def signature_ok_def spk_hash_def
        XFsbl_ShaFinish_def XFsbl_ShaUpdate_def take_mem_bytes spk_revoked_def signature_at_def f mem_bytes_length del: demo_simps)
qed

lemma demo_PpkVer_keeps: "snd (XFsbl_PpkVer demo_platform demo_secure ac s) = s"
proof -
  have i: "In32 (pf_bus demo_platform) s a = (fst s a, s)" for s a by (cases s) simp
  have "snd (read_fuses demo_platform a n s) = s" for a n s
    by (induction n arbitrary: a s) (simp_all add: i split_beta)
  then show ?thesis by (simp add: XFsbl_PpkVer_def XFsbl_ReadPpkHash_def XFsbl_Sha3PadSelect_def i split_beta Let_def)
qed

lemma demo_header_authenticated:
  "XFsbl_BhAuthentication demo_platform demo_secure 0 key 0x400000 0x200000 True (blown_fuses, demo_m3) =
     (XFSBL_SUCCESS, mem_bytes demo_platform (blown_fuses, demo_m3) 0x200040 1088, (blown_fuses, demo_m3))"
proof -
  define s where "s = (blown_fuses, demo_m3)"
  have p: "XFsbl_PpkVer demo_platform demo_secure 0x200000 s = (XFSBL_SUCCESS, s)"
    using PpkVer_iff(1) [OF demo_quiet, of "0x200000" s] demo_image_trusted(1) [of demo_m3] demo_PpkVer_keeps [of "0x200000" s]
    by (simp add: prod_eq_iff s_def)
  have k: "XFsbl_SpkVer demo_platform demo_secure k 0x200000 s = (XFSBL_SUCCESS, s)" for k
    using SpkVer_iff(1) [OF demo_quiet, of k "0x200000" s] demo_image_trusted(2) [of demo_m3 k] demo_SpkVer_keeps [of k "0x200000" s]
    by (simp add: prod_eq_iff s_def demo_csu_dma)
  have "rsa_verify demo_secure (spk_key demo_platform s 0x200000) (signature_at demo_platform s (0x200000 + BHDR_SIG_OFFSET))
      (bh_hash demo_platform demo_secure s 0x400000 XIH_BH_MIN_SIZE []) XFSBL_ERROR_BH_RSA_DECRYPT XFSBL_ERROR_BH_SIGNATURE = XFSBL_SUCCESS"
    by (simp add: rsa_verify_def signature_at_def bh_hash_def XFsbl_ShaFinish_def XFsbl_ShaUpdate_def take_mem_bytes s_def
        demo_first_bytes demo_header_bytes del: demo_simps)
  then show ?thesis
    unfolding s_def [symmetric] by (simp add: XFsbl_BhAuthentication_def p k XFsbl_Sha3PadSelect_def)
qed

lemma demo_table_authenticated:
  "XFsbl_Authentication demo_platform demo_secure key 0x400000 (0x1000 + 3776) 0x200000 (blown_fuses, demo_m4) =
     (XFSBL_SUCCESS, (blown_fuses, demo_m4))"
proof -
  define s where "s = (blown_fuses, demo_m4)"
  have "signature_ok demo_secure (spk_key demo_platform s 0x200000) (signature_at demo_platform s (0x200000 + PARTITION_SIG_OFFSET))
     (partition_hash demo_platform demo_secure s 0x400000 (0x1000 + 3776) 0x200000)"
    by (simp add: signature_ok_def partition_hash_def XFsbl_ShaFinish_def XFsbl_ShaUpdate_def take_mem_bytes signature_at_def s_def
        demo_first_bytes demo_header_bytes mem_bytes_length del: demo_simps)
  then have "fst (XFsbl_Authentication demo_platform demo_secure key 0x400000 (0x1000 + 3776) 0x200000 s) = XFSBL_SUCCESS"
    unfolding Authentication_iff(1) [OF demo_quiet] using demo_csu_dma demo_image_trusted(2) [of demo_m4 key] by (simp add: s_def)
  moreover have "snd (XFsbl_Authentication demo_platform demo_secure key 0x400000 (0x1000 + 3776) 0x200000 s) = s"
    using demo_SpkVer_keeps [of key "0x200000" s]
    by (cases "XFsbl_SpkVer demo_platform demo_secure key 0x200000 s") (simp add: XFsbl_Authentication_def)
  ultimately show ?thesis by (simp add: prod_eq_iff s_def)
qed

lemma demo_image_table:
  "XFsbl_ValidateImageHeaderTable (iht_of_words (ocm_words (header_buffer demo_platform (r, demo_m4)) 0)) = XFSBL_SUCCESS"
proof -
  have "iht_of_words (ocm_words (header_buffer demo_platform (r, demo_m4)) 0) =
    \<lparr>IHT_Version = 0, IHT_NoOfPartitions = 2, IHT_PartitionHeaderAddress = 0x440, IHT_Reserved_0xC = 0,
     IHT_AuthCertificateOffset = 0x800, IHT_PartitionPresentDevice = 0, IHT_Reserved = [0, 0, 0, 0, 0, 0, 0, 0, 0],
     IHT_Checksum = 0xFFFFF3BD\<rparr>"
  proof -
    have "ocm_words (header_buffer demo_platform (r, demo_m4)) 0 i = le32 demo_image (0x1000 + 4 * i)" if "i < 16" for i
      using that demo_buffer_bytes(4) [of "4 * i"] demo_buffer_bytes(4) [of "4 * i + 1"]
        demo_buffer_bytes(4) [of "4 * i + 2"] demo_buffer_bytes(4) [of "4 * i + 3"]
      by (simp add: ocm_words_def header_buffer_def le32_def)
    then show ?thesis by (simp add: iht_of_words_def le32_def demo_image_def upt_rec)
  qed
  then show ?thesis
    by (simp add: XFsbl_ValidateImageHeaderTable_def ValidateChecksum_sum words_of_iht_def word_le_nat_alt)
qed

lemma flash_to_memory_overlay [simp]:
  "flash_to_memory flash off dst len (r, m) = Some (XFSBL_SUCCESS, r, overlay dst (unat len) flash (unat off) m)"
  by (simp add: flash_to_memory_def overlay_def)

lemma demo_start_up_fields [simp]:
  "machine (demo_start_up flash regs) = (regs, \<lambda>_. 0)" "DeviceCopy (demo_start_up flash regs) = flash_to_memory flash"
  "PartitionHeader (ImageHeader_of (demo_start_up flash regs)) = replicate 32 demo_signed_header"
  "PrimaryBootDevice (demo_start_up flash regs) = 1" "SecondaryBootDevice (demo_start_up flash regs) = 0"
  by (simp_all add: demo_start_up_def demo_instance_def)

lemma demo_copy_steps:
  "overlay 0x400000 3776 demo_image 0 (\<lambda>_. 0) = demo_m1" "overlay 0x500000 4 demo_image 0x1010 demo_m1 = demo_m2"
  "overlay 0x200000 3776 demo_image 0x2000 demo_m2 = demo_m3" "overlay 0x400000 0x1000 demo_image 0x1000 demo_m3 = demo_m4"
  by (simp_all add: demo_m1_def demo_m2_def demo_m3_def demo_m4_def)

lemma load_image_header_buffer_returns:
  assumes "XFsbl_ValidateImageHeaderTable (iht_of_words (ocm_words (header_buffer pf (machine I)) 0)) = XFSBL_SUCCESS"
  shows "\<exists>J. load_image_header pf be False fo io I = Some (XFSBL_SUCCESS, J)"
proof -
  obtain Status st where h: "XFsbl_ReadImageHeader write_log (be_AtfParams be) None (header_buffer pf (machine I)) fo (ProcessorID I) io
      \<lparr>ImageHeader = ImageHeader_of I, ATFHandoffParams = ATFHandoffParams_of I,
       DeviceState = Some (machine I, 0 :: nat), BusState = []\<rparr> = (Status, st)" (is "?r = _")
    by (cases ?r)
  note d = ReadImageHeader_buffer(1) [OF h]
  have "fst ?r = XFSBL_SUCCESS"
    using assms by (auto simp: XFsbl_ReadImageHeader_def Let_def split: prod.split dest: read_partition_headers_buffer)
  with h d show ?thesis by (auto simp: load_image_header_def)
qed

lemma demo_authenticate:
  assumes "machine I = (blown_fuses, demo_m1)" "DeviceCopy I = flash_to_memory demo_image" "BootHdrAttributes I = 0" "ImageOffsetAddress I = 0"
  shows "\<exists>J. authenticate_header demo_platform demo_secure (demo_environment demo_image) True 0x1000 I = Some (XFSBL_SUCCESS, J) \<and>
    machine J = (blown_fuses, demo_m4)"
  using assms
  by (simp add: authenticate_header_def authenticate_table_def copy_from_def on_machine_def on_success_def demo_copy_steps
      demo_read_words demo_header_authenticated demo_table_authenticated [simplified] del: demo_simps)

lemma demo_validate:
  "\<exists>J. XFsbl_ValidateHeader demo_platform demo_secure (demo_environment demo_image) (demo_start_up demo_image blown_fuses) = Some (XFSBL_SUCCESS, J)"
proof -
  define I0 where "I0 = (demo_start_up demo_image blown_fuses)\<lparr>machine := (blown_fuses, demo_m1), ImageOffsetAddress := 0\<rparr>"
  define P where "P = (take_boot_header demo_platform I0)\<lparr>machine := (blown_fuses, demo_m1)\<rparr>"
  have I0: "machine I0 = (blown_fuses, demo_m1)" by (simp add: I0_def)
  have P: "machine P = (blown_fuses, demo_m1)" "DeviceCopy P = flash_to_memory demo_image" "BootHdrAttributes P = 0"
    "ImageOffsetAddress P = 0"
    by (simp_all add: P_def take_boot_header_def I0 demo_read_words del: demo_simps) (simp_all add: I0_def)
  from demo_authenticate [OF P] obtain A where
    a: "authenticate_header demo_platform demo_secure (demo_environment demo_image) True 0x1000 P = Some (XFSBL_SUCCESS, A)"
    and m: "machine A = (blown_fuses, demo_m4)" by blast
  obtain J where j: "load_image_header demo_platform (demo_environment demo_image) False 0x400000 0x1000 A = Some (XFSBL_SUCCESS, J)"
    using load_image_header_buffer_returns [of demo_platform A] demo_image_table m by metis
  have f: "In32 (pf_bus demo_platform) (blown_fuses, demo_m1) EFUSE_SEC_CTRL = (0x800, (blown_fuses, demo_m1))"
    by (simp add: blown_fuses_def)
  have t: "table_offset demo_platform (take_boot_header demo_platform I0) = 0x1000"
    by (simp add: table_offset_def take_boot_header_def I0 demo_read_words del: demo_simps)
  have k: "check_boot_header demo_platform demo_secure (demo_environment demo_image) I0 = Some (XFSBL_SUCCESS, J)"
  proof -
    have "machine (take_boot_header demo_platform I0) = (blown_fuses, demo_m1)" by (simp add: take_boot_header_def I0)
    moreover have "BootHdrAttributes (take_boot_header demo_platform I0) = 0" using P(3) by (simp add: P_def)
    ultimately show ?thesis
      unfolding check_boot_header_def Let_def t
      by (simp add: f P_def [symmetric] P a j on_success_def del: demo_simps)
  qed
  define K where "K = (demo_start_up demo_image blown_fuses)\<lparr>machine := (blown_fuses, \<lambda>_. 0), ImageOffsetAddress := 0\<rparr>"
  have c: "copy_from 0 0x400000 3776 K = Some (XFSBL_SUCCESS, I0)"
    by (simp add: copy_from_def on_machine_def demo_copy_steps I0_def K_def)
  have m: "In32 (pf_bus demo_platform) (blown_fuses, \<lambda>_. 0) CSU_CSU_MULTI_BOOT = (0, (blown_fuses, \<lambda>_. 0))"
    by (simp add: blown_fuses_def)
  have o: "image_offset (demo_start_up demo_image blown_fuses) 0 = 0" "ImageOffsetAddress K = 0" by (simp_all add: image_offset_def K_def)
  have "XFsbl_ValidateHeader demo_platform demo_secure (demo_environment demo_image) (demo_start_up demo_image blown_fuses) = Some (XFSBL_SUCCESS, J)"
    by (simp add: XFsbl_ValidateHeader_def m o K_def [symmetric] c k on_success_def del: demo_simps)
  then show ?thesis by blast
qed

theorem boot_image_chain_of_trust_witness:
  "\<exists>J. XFsbl_ValidateHeader demo_platform demo_secure (demo_environment demo_image) (demo_start_up demo_image blown_fuses) = Some (XFSBL_SUCCESS, J) \<and>
     ppk_trusted demo_platform demo_secure 0x200000 (machine J) \<and> spk_trusted demo_platform demo_secure (EfusePpkKey J) 0x200000 (machine J)"
proof -
  obtain J where j: "XFsbl_ValidateHeader demo_platform demo_secure (demo_environment demo_image) (demo_start_up demo_image blown_fuses) =
      Some (XFSBL_SUCCESS, J)" using demo_validate by blast
  have "copies_only demo_platform (DeviceCopy (demo_start_up demo_image blown_fuses))" by (simp add: demo_copies)
  moreover have "fuse_value demo_platform (machine (demo_start_up demo_image blown_fuses)) EFUSE_SEC_CTRL AND EFUSE_SEC_CTRL_RSA_EN_MASK \<noteq> 0"
    by simp
  moreover have "length (PartitionHeader (ImageHeader_of (demo_start_up demo_image blown_fuses))) = 32" by simp
  ultimately show ?thesis
    using boot_image_chain_of_trust [OF demo_quiet _ demo_board demo_buffers _ _ j] j by (auto simp: Let_def)
qed

text \<open>
  An unsigned image in 24-bit serial flash, which says that its partitions are in the 32-bit serial flash: the loader
  goes on with whatever partition headers it had.
\<close>

definition demo_secondary_image :: "nat \<Rightarrow> u8" where
  "demo_secondary_image = (\<lambda>_. 0)(0x99 := 0x10, 0x1014 := 1, 0x103C := 0xFE, 0x103D := 0xFF, 0x103E := 0xFF, 0x103F := 0xFF)"

definition qspi24_pins :: "u64 \<Rightarrow> u32" where "qspi24_pins = (\<lambda>_. 0)(CRL_APB_BOOT_MODE_USER := 1)"

definition demo_secondary_table :: XFsblPs_ImageHeaderTable where
  "demo_secondary_table =
     \<lparr>IHT_Version = 0, IHT_NoOfPartitions = 0, IHT_PartitionHeaderAddress = 0, IHT_Reserved_0xC = 0,
      IHT_AuthCertificateOffset = 0, IHT_PartitionPresentDevice = 1, IHT_Reserved = [0, 0, 0, 0, 0, 0, 0, 0, 0],
      IHT_Checksum = 0xFFFFFFFE\<rparr>"

lemma demo_secondary_words:
  "iht_of_words (\<lambda>i. mem_word demo_platform (r, overlay 0x600000 64 demo_secondary_image 0x1000 m) (0x600000 + of_nat (4 * i))) =
     demo_secondary_table"
proof -
  define w where "w i = mem_word demo_platform (r, overlay 0x600000 64 demo_secondary_image 0x1000 m) (0x600000 + of_nat (4 * i))" for i
  have "w i = le32 demo_secondary_image (0x1000 + 4 * i)" if "i < 16" for i
    using that overlay_at [of "4 * i" 64 "0x600000" demo_secondary_image "0x1000" m]
      overlay_at [of "4 * i + 1" 64 "0x600000" demo_secondary_image "0x1000" m]
      overlay_at [of "4 * i + 2" 64 "0x600000" demo_secondary_image "0x1000" m]
      overlay_at [of "4 * i + 3" 64 "0x600000" demo_secondary_image "0x1000" m]
    by (simp add: le32_def w_def add.assoc)
  then have "iht_of_words w = demo_secondary_table"
    by (simp add: iht_of_words_def demo_secondary_table_def le32_def demo_secondary_image_def upt_rec)
  then show ?thesis by (simp only: w_def [abs_def])
qed

lemma demo_secondary:
  "\<exists>K. XFsbl_BootDeviceInitAndValidate demo_platform demo_secure (demo_environment demo_secondary_image)
         (demo_start_up demo_secondary_image qspi24_pins) = Some (XFSBL_SUCCESS, K) \<and>
    IHT_PartitionPresentDevice (ImageHeaderTable (ImageHeader_of K)) = 1"
proof -
  define be where "be = demo_environment demo_secondary_image"
  define I where "I = demo_start_up demo_secondary_image qspi24_pins"
  define m where "m = overlay 0x400000 3776 demo_secondary_image 0 (\<lambda>_. 0)"
  have I: "machine I = (qspi24_pins, \<lambda>_. 0)" "SecondaryBootDevice I = 0" "PrimaryBootDevice I = 1" "DeviceCopy I = flash_to_memory demo_secondary_image"
    by (simp_all add: I_def)
  have be: "be_has_qspi be" "be_Qspi24Init be s = Some (XFSBL_SUCCESS, s)" "be_Qspi24Copy be = flash_to_memory demo_secondary_image"
    "be_AcOffset be = 0x500000" "be_ImageHeader be = 0x600000" for s
    by (simp_all add: be_def demo_environment_def)
  define J where "J = I\<lparr>PrimaryBootDevice := 1, machine := (qspi24_pins, \<lambda>_. 0), DeviceCopy := flash_to_memory demo_secondary_image,
      machine := (qspi24_pins, \<lambda>_. 0)\<rparr>"
  have pins: "qspi24_pins 0xFF5E0200 = 1" "qspi24_pins 0xFFCA0010 = 0" "qspi24_pins 0xFFCC1058 = 0"
    by (simp_all add: qspi24_pins_def)
  have p: "XFsbl_PrimaryBootDeviceInit demo_platform demo_secure be I = Some (XFSBL_SUCCESS, J)"
    by (simp add: XFsbl_PrimaryBootDeviceInit_def I pins init_drivers_def is_device_mode_def init_watchdog_def device_of_mode_def be
        on_machine_def device_init_def device_copy_of_def J_def)
  have J: "machine J = (qspi24_pins, \<lambda>_. 0)" "SecondaryBootDevice J = 0" "PrimaryBootDevice J = 1" "DeviceCopy J = flash_to_memory demo_secondary_image"
    by (simp_all add: J_def I)
  define L where "L = J\<lparr>machine := (qspi24_pins, m), ImageOffsetAddress := 0\<rparr>"
  have L: "machine L = (qspi24_pins, m)" by (simp add: L_def)
  have words: "mem_word demo_platform (r, m) 0x400044 = 0" "mem_word demo_platform (r, m) 0x400098 = 0x1000" for r
    by (simp_all add: m_def overlay_def within_def le32_def demo_secondary_image_def)
  define P where "P = (take_boot_header demo_platform L)\<lparr>machine := (qspi24_pins, m)\<rparr>"
  have P: "machine P = (qspi24_pins, m)" "DeviceCopy P = flash_to_memory demo_secondary_image" "ImageOffsetAddress P = 0"
    "PrimaryBootDevice P = 1"
    by (simp_all add: P_def take_boot_header_def L_def J)
  have t: "table_offset demo_platform (take_boot_header demo_platform L) = 0x1000" "machine (take_boot_header demo_platform L) = (qspi24_pins, m)"
    "BootHdrAttributes (take_boot_header demo_platform L) = 0" "ImageOffsetAddress (take_boot_header demo_platform L) = 0"
    by (simp_all add: table_offset_def take_boot_header_def L words del: demo_simps) (simp add: L_def)
  have v: "XFsbl_ValidateImageHeaderTable demo_secondary_table = XFSBL_STATUS_SECONDARY_BOOT_MODE"
    by (simp add: demo_secondary_table_def XFsbl_ValidateImageHeaderTable_def ValidateChecksum_sum words_of_iht_def)
  have d: "header_copy demo_platform be (flash_to_memory demo_secondary_image) (Some ((qspi24_pins, m), 0)) 0x1000 XIH_IHT_LEN =
      (XFSBL_SUCCESS, \<lambda>i. mem_word demo_platform (qspi24_pins, overlay 0x600000 64 demo_secondary_image 0x1000 m) (0x600000 + of_nat (4 * i)),
       Some ((qspi24_pins, overlay 0x600000 64 demo_secondary_image 0x1000 m), 1))"
    by (simp add: header_copy_def header_address_def be del: demo_simps)
  have "\<exists>K. load_image_header demo_platform be True 0 0x1000 P = Some (XFSBL_SUCCESS, K) \<and> PrimaryBootDevice K = 1 \<and>
      IHT_PartitionPresentDevice (ImageHeaderTable (ImageHeader_of K)) = 1"
    by (simp add: load_image_header_def XFsbl_ReadImageHeader_def P d [simplified] demo_secondary_words [simplified] v del: demo_simps)
      (simp add: demo_secondary_table_def P)
  then obtain K where k: "load_image_header demo_platform be True 0 0x1000 P = Some (XFSBL_SUCCESS, K)"
    and K: "PrimaryBootDevice K = 1" "IHT_PartitionPresentDevice (ImageHeaderTable (ImageHeader_of K)) = 1" by blast
  have f: "In32 (pf_bus demo_platform) (qspi24_pins, m) EFUSE_SEC_CTRL = (0, (qspi24_pins, m))" by (simp add: pins)
  have c: "check_boot_header demo_platform demo_secure be L = Some (XFSBL_SUCCESS, K)"
    unfolding check_boot_header_def Let_def t
    by (simp add: f k P_def [symmetric] t del: demo_simps)
  define K0 where "K0 = J\<lparr>machine := (qspi24_pins, \<lambda>_. 0), ImageOffsetAddress := 0\<rparr>"
  have h: "copy_from 0 0x400000 3776 K0 = Some (XFSBL_SUCCESS, L)"
    by (simp add: copy_from_def on_machine_def L_def K0_def m_def J)
  have q: "In32 (pf_bus demo_platform) (qspi24_pins, \<lambda>_. 0) CSU_CSU_MULTI_BOOT = (0, (qspi24_pins, \<lambda>_. 0))" by (simp add: pins)
  have o: "image_offset J 0 = 0" "ImageOffsetAddress K0 = 0" by (simp_all add: image_offset_def J K0_def)
  have "XFsbl_ValidateHeader demo_platform demo_secure be J = Some (XFSBL_SUCCESS, K)"
    by (simp add: XFsbl_ValidateHeader_def J q o K0_def [symmetric] h c on_success_def del: demo_simps)
  then show ?thesis
    unfolding be_def [symmetric] I_def [symmetric]
    by (simp add: XFsbl_BootDeviceInitAndValidate_def p on_success_def K)
qed

theorem second_stage_header_witness:
  "\<exists>K. XFsbl_BootDeviceInitAndValidate demo_platform demo_secure (demo_environment demo_secondary_image)
         (demo_start_up demo_secondary_image qspi24_pins) = Some (XFSBL_SUCCESS, K) \<and>
    IHT_PartitionPresentDevice (ImageHeaderTable (ImageHeader_of K)) = XIH_IHT_PPD_QSPI32 \<and> PrimaryBootDevice K = XFSBL_QSPI24_BOOT_MODE \<and>
    PartitionHeader (ImageHeader_of K) = replicate 32 demo_signed_header"
proof -
  obtain K where K: "XFsbl_BootDeviceInitAndValidate demo_platform demo_secure (demo_environment demo_secondary_image)
         (demo_start_up demo_secondary_image qspi24_pins) = Some (XFSBL_SUCCESS, K)"
    and d: "IHT_PartitionPresentDevice (ImageHeaderTable (ImageHeader_of K)) = 1" using demo_secondary by blast
  have "XFsbl_ValidateImageHeaderTable (ImageHeaderTable (ImageHeader_of K)) \<noteq> XFSBL_SUCCESS"
    using d table_accepted_bounds(3) by force
  with second_stage_header [OF K] K d show ?thesis by auto
qed

end
