(* ===== verification/Handoff.thy ===== *)
theory Handoff
  imports Partition_Load Boot_Devices
begin

text \<open>
  Handing over (\<open>xfsbl_handoff.c\<close>, \<open>xfsbl_exit.S\<close>): the power management firmware is configured and the memory
  protection switched on, then the processors of the handoff table are started one after the other, and the loader
  leaves to the entry of its own processor, or sleeps when there is none. Early handoff of the R5 processors, which
  the build may switch on, is a flag \<open>early\<close>; the position in the table it has got to is kept from call to call.
\<close>

section \<open>Starting a processor\<close>

abbreviation (input) XIH_PH_ATTRB_A53_EXEC_ST_AA32 :: u32 where "XIH_PH_ATTRB_A53_EXEC_ST_AA32 \<equiv> 0x8"
abbreviation (input) XIH_PH_ATTRB_A53_EXEC_ST_AA64 :: u32 where "XIH_PH_ATTRB_A53_EXEC_ST_AA64 \<equiv> 0x0"
abbreviation (input) XFSBL_CPU_POWER_UP :: u32 where "XFSBL_CPU_POWER_UP \<equiv> 0x1"
abbreviation (input) XFSBL_CPU_SWRST :: u32 where "XFSBL_CPU_SWRST \<equiv> 0x2"
abbreviation (input) APU_CONFIG_0 :: u64 where "APU_CONFIG_0 \<equiv> 0xFD5C0020"
abbreviation (input) CRF_APB_ACPU_CTRL :: u64 where "CRF_APB_ACPU_CTRL \<equiv> 0xFD1A0060"
abbreviation (input) CRF_APB_ACPU_CTRL_CLKACT_FULL_MASK :: u32 where "CRF_APB_ACPU_CTRL_CLKACT_FULL_MASK \<equiv> 0x1000000"
abbreviation (input) CRF_APB_ACPU_CTRL_CLKACT_HALF_MASK :: u32 where "CRF_APB_ACPU_CTRL_CLKACT_HALF_MASK \<equiv> 0x2000000"
abbreviation (input) CRF_APB_RST_FPD_APU :: u64 where "CRF_APB_RST_FPD_APU \<equiv> 0xFD1A0104"
abbreviation (input) CRF_APB_RST_FPD_APU_APU_L2_RESET_MASK :: u32 where "CRF_APB_RST_FPD_APU_APU_L2_RESET_MASK \<equiv> 0x100"
abbreviation (input) XFSBL_ERROR_PWR_UP_CPU :: u32 where "XFSBL_ERROR_PWR_UP_CPU \<equiv> 0x18"
abbreviation (input) XFSBL_ERROR_HANDOFF_CPUID :: u32 where "XFSBL_ERROR_HANDOFF_CPUID \<equiv> 0x23"
abbreviation (input) XFSBL_ERROR_HOOK_BEFORE_HANDOFF :: u32 where "XFSBL_ERROR_HOOK_BEFORE_HANDOFF \<equiv> 0x27"
abbreviation (input) XFSBL_ERROR_A53_0_POWER_UP :: u32 where "XFSBL_ERROR_A53_0_POWER_UP \<equiv> 0x3F"
abbreviation (input) XFSBL_ERROR_R5_0_POWER_UP :: u32 where "XFSBL_ERROR_R5_0_POWER_UP \<equiv> 0x43"
abbreviation (input) XFSBL_ERROR_R5_1_POWER_UP :: u32 where "XFSBL_ERROR_R5_1_POWER_UP \<equiv> 0x44"
abbreviation (input) XFSBL_ERROR_R5_L_POWER_UP :: u32 where "XFSBL_ERROR_R5_L_POWER_UP \<equiv> 0x45"
abbreviation (input) XFSBL_ERROR_UNSUPPORTED_HANDOFF :: u32 where "XFSBL_ERROR_UNSUPPORTED_HANDOFF \<equiv> 0x4E"
abbreviation (input) XFSBL_ERROR_PROTECTION_CFG :: u32 where "XFSBL_ERROR_PROTECTION_CFG \<equiv> 0x51"

definition cpu_id :: "u32 \<Rightarrow> u32" where "cpu_id CpuSettings = CpuSettings AND XIH_PH_ATTRB_DEST_CPU_MASK"
definition exec_state :: "u32 \<Rightarrow> u32" where "exec_state CpuSettings = CpuSettings AND XIH_PH_ATTRB_A53_EXEC_ST_MASK"

text \<open>The number of an A53 processor.\<close>

definition a53_number :: "u32 \<Rightarrow> nat option" where
  "a53_number CpuId =
     (if CpuId = XIH_PH_ATTRB_DEST_CPU_A53_0 then Some 0 else if CpuId = XIH_PH_ATTRB_DEST_CPU_A53_1 then Some 1
      else if CpuId = XIH_PH_ATTRB_DEST_CPU_A53_2 then Some 2 else if CpuId = XIH_PH_ATTRB_DEST_CPU_A53_3 then Some 3
      else None)"

definition is_r5 :: "u32 \<Rightarrow> bool" where
  "is_r5 CpuId \<longleftrightarrow> CpuId = XIH_PH_ATTRB_DEST_CPU_R5_0 \<or> CpuId = XIH_PH_ATTRB_DEST_CPU_R5_1 \<or> CpuId = XIH_PH_ATTRB_DEST_CPU_R5_L"

definition XFsbl_Is32BitCpu :: "u32 \<Rightarrow> bool" where
  "XFsbl_Is32BitCpu CpuSettings \<longleftrightarrow> is_r5 (cpu_id CpuSettings) \<or> exec_state CpuSettings = XIH_PH_ATTRB_A53_EXEC_ST_AA32"

text \<open>The bits of the \<open>n\<close>th A53 in the power, configuration and reset registers.\<close>

definition a53_bit :: "u32 \<Rightarrow> nat \<Rightarrow> u32" where "a53_bit b n = push_bit n b"

definition a53_resets :: "nat \<Rightarrow> u32" where
  "a53_resets n = a53_bit 0x1 n OR CRF_APB_RST_FPD_APU_APU_L2_RESET_MASK OR a53_bit 0x400 n"

definition start_a53 :: "'s platform \<Rightarrow> nat \<Rightarrow> u32 \<Rightarrow> 's \<Rightarrow> (u32 \<times> 's) option" where
  "start_a53 pf n ExecState s =
     on_success (XFsbl_PowerUpIsland pf (a53_bit 0x1 n OR PMU_GLOBAL_PWR_STATE_FP_MASK OR PMU_GLOBAL_PWR_STATE_L2_BANK0_MASK) s)
       (\<lambda>_. XFSBL_ERROR_A53_0_POWER_UP + of_nat n)
       (\<lambda>s. let s = (if ExecState = XIH_PH_ATTRB_A53_EXEC_ST_AA32
                     then update_reg pf APU_CONFIG_0 (\<lambda>v. v AND NOT (a53_bit 0x1 n)) s else s);
                 s = update_reg pf CRF_APB_ACPU_CTRL
                       (\<lambda>v. v OR (CRF_APB_ACPU_CTRL_CLKACT_FULL_MASK OR CRF_APB_ACPU_CTRL_CLKACT_HALF_MASK)) s
             in Some (XFSBL_SUCCESS, update_reg pf CRF_APB_RST_FPD_APU (\<lambda>v. v AND NOT (a53_resets n)) s))"

definition XFsbl_SetCpuPwrSettings :: "'s platform \<Rightarrow> u32 \<Rightarrow> u32 \<Rightarrow> 's \<Rightarrow> (u32 \<times> 's) option" where
  "XFsbl_SetCpuPwrSettings pf CpuSettings Flags s =
     (if Flags AND XFSBL_CPU_SWRST \<noteq> 0 then
        let CpuId = cpu_id CpuSettings
        in case a53_number CpuId of
             Some n \<Rightarrow> start_a53 pf n (exec_state CpuSettings) s
           | None \<Rightarrow>
               if CpuId = XIH_PH_ATTRB_DEST_CPU_R5_0 then
                 on_success (XFsbl_PowerUpIsland pf PMU_GLOBAL_PWR_STATE_R5_0_MASK s) (\<lambda>_. XFSBL_ERROR_R5_0_POWER_UP)
                   (\<lambda>s. Some (XFSBL_SUCCESS, r5_run pf RPU_RPU_0_CFG (r5_release pf RST_LPD_TOP_RPU_R50_RESET_MASK
                          (r5_clock pf (r5_halt pf RPU_RPU_0_CFG (rpu_split pf s))))))
               else if CpuId = XIH_PH_ATTRB_DEST_CPU_R5_1 then
                 on_success (XFsbl_PowerUpIsland pf PMU_GLOBAL_PWR_STATE_R5_1_MASK s) (\<lambda>_. XFSBL_ERROR_R5_1_POWER_UP)
                   (\<lambda>s. Some (XFSBL_SUCCESS, r5_run pf RPU_RPU_1_CFG (r5_release pf RST_LPD_TOP_RPU_R51_RESET_MASK
                          (r5_clock pf (r5_halt pf RPU_RPU_1_CFG (rpu_split pf s))))))
               else if CpuId = XIH_PH_ATTRB_DEST_CPU_R5_L then
                 on_success (XFsbl_PowerUpIsland pf PMU_GLOBAL_PWR_STATE_R5_0_MASK s) (\<lambda>_. XFSBL_ERROR_R5_L_POWER_UP)
                   (\<lambda>s. Some (XFSBL_SUCCESS, r5_run pf RPU_RPU_1_CFG (r5_run pf RPU_RPU_0_CFG
                          (r5_release pf (RST_LPD_TOP_RPU_R50_RESET_MASK OR RST_LPD_TOP_RPU_R51_RESET_MASK)
                            (r5_clock pf (r5_halt pf RPU_RPU_1_CFG (r5_halt pf RPU_RPU_0_CFG (rpu_lockstep pf s))))))))
               else Some (XFSBL_ERROR_HANDOFF_CPUID, s)
      else Some (XFSBL_SUCCESS, s))"

section \<open>The reset vector\<close>

abbreviation (input) OTHER_CPU_HANDOFF :: u32 where "OTHER_CPU_HANDOFF \<equiv> 0x0"
abbreviation (input) A53_0_32_HANDOFF_TO_A53_0_64 :: u32 where "A53_0_32_HANDOFF_TO_A53_0_64 \<equiv> 0x2"
abbreviation (input) RPU_RPU_CFG_VINITHI_MASK :: u32 where "RPU_RPU_CFG_VINITHI_MASK \<equiv> 0x4"
abbreviation (input) RPU_RPU_CFG_VINITHI_SHIFT :: nat where "RPU_RPU_CFG_VINITHI_SHIFT \<equiv> 2"
abbreviation (input) XIH_ATTRB_VECTOR_LOCATION_SHIFT :: nat where "XIH_ATTRB_VECTOR_LOCATION_SHIFT \<equiv> 23"

text \<open>\<open>APU_RVBARADDRnL\<close> and \<open>APU_RVBARADDRnH\<close>.\<close>

definition rvbar_low :: "nat \<Rightarrow> u64" where "rvbar_low n = 0xFD5C0040 + 8 * of_nat n"
definition rvbar_high :: "nat \<Rightarrow> u64" where "rvbar_high n = 0xFD5C0044 + 8 * of_nat n"

definition put_vector_bit :: "'s platform \<Rightarrow> u64 \<Rightarrow> u32 \<Rightarrow> nat \<Rightarrow> u32 \<Rightarrow> 's \<Rightarrow> 's" where
  "put_vector_bit pf reg bits shift Vector = update_reg pf reg (\<lambda>v. (v AND NOT bits) OR push_bit shift Vector)"

definition XFsbl_UpdateResetVector :: "'s platform \<Rightarrow> u64 \<Rightarrow> u32 \<Rightarrow> u32 \<Rightarrow> u32 \<Rightarrow> 's \<Rightarrow> 's" where
  "XFsbl_UpdateResetVector pf HandOffAddress CpuSettings HandoffType Vector s =
     (let CpuId = cpu_id CpuSettings;
          ExecState = exec_state CpuSettings;
          s = (if CpuId = XIH_PH_ATTRB_DEST_CPU_R5_0 \<or> CpuId = XIH_PH_ATTRB_DEST_CPU_R5_L
               then put_vector_bit pf RPU_RPU_0_CFG RPU_RPU_CFG_VINITHI_MASK RPU_RPU_CFG_VINITHI_SHIFT Vector s
               else if CpuId = XIH_PH_ATTRB_DEST_CPU_R5_1 \<or> CpuId = XIH_PH_ATTRB_DEST_CPU_R5_L
               then put_vector_bit pf RPU_RPU_1_CFG RPU_RPU_CFG_VINITHI_MASK RPU_RPU_CFG_VINITHI_SHIFT Vector s
               else case a53_number CpuId of
                 Some n \<Rightarrow> if ExecState = XIH_PH_ATTRB_A53_EXEC_ST_AA32
                           then put_vector_bit pf APU_CONFIG_0 (a53_bit 0x100 n) (8 + n) Vector s else s
               | None \<Rightarrow> s)
      in if \<not> XFsbl_Is32BitCpu CpuSettings \<and> HandoffType \<noteq> A53_0_32_HANDOFF_TO_A53_0_64 then
           let (LowAddressReg, HighAddressReg) =
             (case a53_number CpuId of Some n \<Rightarrow> (rvbar_low n, rvbar_high n) | None \<Rightarrow> (0, 0))
           in write_reg pf HighAddressReg (ucast (drop_bit 32 HandOffAddress))
                (write_reg pf LowAddressReg (ucast HandOffAddress) s)
         else s)"

section \<open>Leaving\<close>

abbreviation (input) XFSBL_NO_HANDOFFEXIT :: u32 where "XFSBL_NO_HANDOFFEXIT \<equiv> 0x0"
abbreviation (input) XFSBL_HANDOFFEXIT :: u32 where "XFSBL_HANDOFFEXIT \<equiv> 0x1"
abbreviation (input) XFSBL_HANDOFFEXIT_32 :: u32 where "XFSBL_HANDOFFEXIT_32 \<equiv> 0x2"
abbreviation (input) PMU_GLOBAL_GLOB_GEN_STORAGE5 :: u64 where "PMU_GLOBAL_GLOB_GEN_STORAGE5 \<equiv> 0xFFD80044"
abbreviation (input) XFSBL_EXEC_COMPLETED :: u32 where "XFSBL_EXEC_COMPLETED \<equiv> 0x1"

text \<open>
  \<open>XFsbl_Exit\<close> does not return: the processor waits for events for ever, branches to the address, or asks for a
  warm reset into the 32-bit state.
\<close>

datatype fsbl_exit = Wait_for_event | Branch_to u64 | Warm_reset_aarch32

definition XFsbl_Exit :: "u64 \<Rightarrow> u32 \<Rightarrow> fsbl_exit" where
  "XFsbl_Exit HandoffAddress Flags =
     (if Flags = 0 then Wait_for_event else if Flags = 1 then Branch_to HandoffAddress else Warm_reset_aarch32)"

text \<open>How a call of the handoff ends: with a status, or not at all.\<close>

datatype handoff_end = Returned u32 | Exited fsbl_exit

definition XFsbl_HandoffExit :: "'s platform \<Rightarrow> u64 \<Rightarrow> u32 \<Rightarrow> 's \<Rightarrow> fsbl_exit \<times> 's" where
  "XFsbl_HandoffExit pf HandoffAddress Flags s =
     (XFsbl_Exit HandoffAddress Flags,
      update_reg pf PMU_GLOBAL_GLOB_GEN_STORAGE5 (\<lambda>v. (v AND NOT XFSBL_EXEC_COMPLETED) OR XFSBL_EXEC_COMPLETED) s)"

section \<open>Protection\<close>

abbreviation (input) XFSBL_PS_SYSMON_CONFIGREG1 :: u64 where "XFSBL_PS_SYSMON_CONFIGREG1 \<equiv> 0xFFA50904"
abbreviation (input) XFSBL_PS_SYSMON_CONFIGREG3 :: u64 where "XFSBL_PS_SYSMON_CONFIGREG3 \<equiv> 0xFFA5090C"
abbreviation (input) XFSBL_PS_SYSMON_CFGREG1_ALRM_DISBL_MASK :: u32 where "XFSBL_PS_SYSMON_CFGREG1_ALRM_DISBL_MASK \<equiv> 0xF0E"
abbreviation (input) XFSBL_PS_SYSMON_CFGREG3_ALRM_DISBL_MASK :: u32 where "XFSBL_PS_SYSMON_CFGREG3_ALRM_DISBL_MASK \<equiv> 0x3F"

definition XFsbl_ProtectionConfig :: "'s platform \<Rightarrow> 's \<Rightarrow> u32 \<times> 's" where
  "XFsbl_ProtectionConfig pf s =
     (let (CfgRegVal1, s) = In32 (pf_bus pf) s XFSBL_PS_SYSMON_CONFIGREG1;
          (CfgRegVal3, s) = In32 (pf_bus pf) s XFSBL_PS_SYSMON_CONFIGREG3;
          s = write_reg pf XFSBL_PS_SYSMON_CONFIGREG1 (CfgRegVal1 OR XFSBL_PS_SYSMON_CFGREG1_ALRM_DISBL_MASK) s;
          s = write_reg pf XFSBL_PS_SYSMON_CONFIGREG3 (CfgRegVal3 OR XFSBL_PS_SYSMON_CFGREG3_ALRM_DISBL_MASK) s
      in or_fail (pf_psu_protection pf s) XFSBL_ERROR_PROTECTION_CFG (\<lambda>s.
           or_fail (pf_psu_protection_lock pf s) XFSBL_ERROR_PROTECTION_CFG (\<lambda>s.
             (XFSBL_SUCCESS, write_reg pf XFSBL_PS_SYSMON_CONFIGREG3 CfgRegVal3
                               (write_reg pf XFSBL_PS_SYSMON_CONFIGREG1 CfgRegVal1 s)))))"

section \<open>The handoff\<close>

abbreviation (input) IOU_SLCR_SD_CDN_CTRL :: u64 where "IOU_SLCR_SD_CDN_CTRL \<equiv> 0xFF18035C"
abbreviation (input) XFSBL_ERROR_STATUS_REGISTER_OFFSET :: u64 where "XFSBL_ERROR_STATUS_REGISTER_OFFSET \<equiv> 0xFFD80060"
abbreviation (input) XFSBL_COMPLETED :: u32 where "XFSBL_COMPLETED \<equiv> 0x0"

definition XFsbl_CheckEarlyHandoffCpu :: "bool \<Rightarrow> u32 \<Rightarrow> bool" where
  "XFsbl_CheckEarlyHandoffCpu early CpuId \<longleftrightarrow> early \<and> is_r5 CpuId"

text \<open>Before the processors: the power management and the protection, except when only the APU was reset.\<close>

definition prepare_handoff :: "'s platform \<Rightarrow> u32 \<Rightarrow> 's \<Rightarrow> u32 \<times> 's" where
  "prepare_handoff pf Reason s =
     (let s = write_reg pf IOU_SLCR_SD_CDN_CTRL 0 s;
          s = (if Reason = XFSBL_PS_ONLY_RESET
               then pf_psu_ps_pl_reset_config pf (pf_psu_ps_pl_isolation_removal pf s) else s);
          s = pf_DCacheDisable pf s
      in if Reason \<noteq> XFSBL_MASTER_ONLY_RESET
         then or_fail (XFsbl_PmInit pf s) XFSBL_ERROR_PM_INIT (XFsbl_ProtectionConfig pf)
         else (XFSBL_SUCCESS, s))"

text \<open>With JTAG the loader stops here; on QEMU it jumps to a loop it has written to on-chip memory.\<close>

definition jtag_exit :: "'s platform \<Rightarrow> 's \<Rightarrow> (fsbl_exit \<times> 's) option" where
  "jtag_exit pf s =
     map_option (\<lambda>(Status, s).
       let s = (if Status = XFSBL_SUCCESS
                then pf_psu_ps_pl_reset_config pf (pf_psu_ps_pl_isolation_removal pf s) else s);
           s = write_reg pf XFSBL_ERROR_STATUS_REGISTER_OFFSET XFSBL_COMPLETED s
       in if pf_Platform_info pf = XPLAT_ZYNQ_ULTRA_MPQEMU
          then (XFsbl_Exit 0xFFFC0000 XFSBL_HANDOFFEXIT, write_reg pf 0xFFFC0000 0x14000000 s)
          else XFsbl_HandoffExit pf 0 XFSBL_NO_HANDOFFEXIT s) (XFsbl_PLCheckForDone pf s)"

text \<open>
  One entry of the table. Another processor is started; for the running one the address and the execution state
  are kept, and it must have the state the loader runs in. \<open>Vector\<close> is that of the partition the handoff is
  called with, for every entry.
\<close>

definition handoff_entry ::
  "'s platform \<Rightarrow> 's XFsblPs \<Rightarrow> u32 \<Rightarrow> u32 \<times> u64 \<Rightarrow> (u64 \<times> u32) option \<Rightarrow> 's \<Rightarrow> (u32 \<times> (u64 \<times> u32) option \<times> 's) option" where
  "handoff_entry pf I Vector entry running s =
     (case entry of (CpuSettings, HandoffAddress) \<Rightarrow>
        if cpu_id CpuSettings \<noteq> ProcessorID I then
          case XFsbl_CheckSupportedCpu pf (cpu_id CpuSettings) s of (Status, s) \<Rightarrow>
            if Status \<noteq> XFSBL_SUCCESS then Some (XFSBL_ERROR_UNAVAILABLE_CPU, running, s)
            else
              map_option (\<lambda>(Status, s). (Status, running, s))
                (on_success (XFsbl_SetCpuPwrSettings pf CpuSettings XFSBL_CPU_POWER_UP s) (\<lambda>_. XFSBL_ERROR_PWR_UP_CPU) (\<lambda>s.
                   XFsbl_SetCpuPwrSettings pf CpuSettings XFSBL_CPU_SWRST
                     (XFsbl_UpdateResetVector pf HandoffAddress CpuSettings OTHER_CPU_HANDOFF Vector s)))
        else
          let running = Some (HandoffAddress, exec_state CpuSettings)
          in Some (if A53ExecState I = XIH_PH_ATTRB_A53_EXEC_ST_AA64 \<and> exec_state CpuSettings = XIH_PH_ATTRB_A53_EXEC_ST_AA32 \<or>
                      A53ExecState I = XIH_PH_ATTRB_A53_EXEC_ST_AA32 \<and> exec_state CpuSettings = XIH_PH_ATTRB_A53_EXEC_ST_AA64
                   then XFSBL_ERROR_UNSUPPORTED_HANDOFF else XFSBL_SUCCESS, running, s))"

text \<open>
  The loop over the table from \<open>CpuIndex\<close>; \<open>IndexEarly\<close> is \<open>CpuIndexEarlyHandoff\<close>. It ends with a status to
  return, or after the last entry with the entry of the running processor. An index outside the array has no
  result.
\<close>

function handoff_loop ::
  "'s platform \<Rightarrow> bool \<Rightarrow> 's XFsblPs \<Rightarrow> u32 \<Rightarrow> bool \<Rightarrow> u32 \<Rightarrow> u32 \<Rightarrow> u32 \<Rightarrow> (u64 \<times> u32) option \<Rightarrow> 's
    \<Rightarrow> ((u32 + (u64 \<times> u32) option) \<times> u32 \<times> 's) option" where
  "handoff_loop pf early I PartitionNum EarlyHandoff Vector CpuIndex IndexEarly running s =
     (if \<not> CpuIndex < HandoffCpuNo I then Some (Inr running, IndexEarly, s)
      else if \<not> unat CpuIndex < length (HandoffValues I) then None
      else
        let entry = HandoffValues I ! unat CpuIndex;
            needs = XFsbl_CheckEarlyHandoffCpu early (cpu_id (fst entry));
            handled = (needs \<and> EarlyHandoff \<or> \<not> EarlyHandoff \<and> \<not> needs \<or>
                       \<not> EarlyHandoff \<and> needs \<and> cpu_id (fst entry) = ProcessorID I)
        in Option.bind (if handled then handoff_entry pf I Vector entry running s
                        else Some (XFSBL_SUCCESS, running, s)) (\<lambda>(Status, running, s).
             if Status \<noteq> XFSBL_SUCCESS then Some (Inl Status, IndexEarly, s)
             else if EarlyHandoff \<and> needs then
               let s = pf_DCacheEnable pf s
               in if PartitionNum < NoOfPartitions I - 1
                  then Some (Inl XFSBL_STATUS_CONTINUE_PARTITION_LOAD, IndexEarly + 1, s)
                  else Some (Inl XFSBL_STATUS_CONTINUE_OTHER_HANDOFF, IndexEarly, s)
             else handoff_loop pf early I PartitionNum EarlyHandoff Vector (CpuIndex + 1) (IndexEarly + 1) running s))"
  by auto

termination
proof (relation "measure (\<lambda>(_, _, I, _, _, _, CpuIndex, _, _, _). unat (HandoffCpuNo I - CpuIndex))", simp, goal_cases)
  case (1 pf early I PartitionNum EarlyHandoff Vector CpuIndex IndexEarly running s)
  then have "CpuIndex < HandoffCpuNo I" by simp
  then have "unat (HandoffCpuNo I - (CpuIndex + 1)) < unat (HandoffCpuNo I - CpuIndex)" by unat_arith
  then show ?case by simp
qed

declare handoff_loop.simps [simp del]

definition leave :: "'s platform \<Rightarrow> u32 \<Rightarrow> (u64 \<times> u32) option \<Rightarrow> 's \<Rightarrow> fsbl_exit \<times> 's" where
  "leave pf Reason running s =
     (let s = write_reg pf XFSBL_ERROR_STATUS_REGISTER_OFFSET XFSBL_COMPLETED s;
          s = XFsbl_StopWdt pf Reason s
      in case running of
           None \<Rightarrow> XFsbl_HandoffExit pf 0 XFSBL_NO_HANDOFFEXIT s
         | Some (a, state) \<Rightarrow>
             XFsbl_HandoffExit pf a (if state = XIH_PH_ATTRB_A53_EXEC_ST_AA32 then XFSBL_HANDOFFEXIT_32 else XFSBL_HANDOFFEXIT) s)"

definition XFsbl_Handoff ::
  "'s platform \<Rightarrow> bool \<Rightarrow> 's XFsblPs \<Rightarrow> u32 \<Rightarrow> bool \<Rightarrow> u32 \<Rightarrow> (handoff_end \<times> u32 \<times> 's) option" where
  "XFsbl_Handoff pf early I PartitionNum EarlyHandoff IndexEarly =
     (case prepare_handoff pf (ResetReason I) (machine I) of (Status, s) \<Rightarrow>
        if Status \<noteq> XFSBL_SUCCESS then Some (Returned Status, IndexEarly, s)
        else if PrimaryBootDevice I = XFSBL_JTAG_BOOT_MODE then map_option (\<lambda>(x, s). (Exited x, IndexEarly, s)) (jtag_exit pf s)
        else if XFsbl_HookBeforeHandoff (if EarlyHandoff then 1 else 0) \<noteq> XFSBL_SUCCESS
        then Some (Returned XFSBL_ERROR_HOOK_BEFORE_HANDOFF, IndexEarly, s)
        else
          let Vector = drop_bit XIH_ATTRB_VECTOR_LOCATION_SHIFT (XFsbl_GetVectorLocation (partition I PartitionNum))
          in Option.bind (handoff_loop pf early I PartitionNum EarlyHandoff Vector
                            (if EarlyHandoff then IndexEarly else 0) IndexEarly None s) (\<lambda>(r, IndexEarly, s).
               case r of
                 Inl Status \<Rightarrow> Some (Returned Status, IndexEarly, s)
               | Inr running \<Rightarrow> (case leave pf (ResetReason I) running s of (x, s) \<Rightarrow> Some (Exited x, IndexEarly, s))))"

abbreviation (input) XIH_PH_ATTRB_DEST_DEVICE_NONE :: u32 where "XIH_PH_ATTRB_DEST_DEVICE_NONE \<equiv> 0x0"
abbreviation (input) XIH_PH_ATTRB_DEST_DEVICE_PS :: u32 where "XIH_PH_ATTRB_DEST_DEVICE_PS \<equiv> 0x10"

text \<open>Whether a partition just loaded was the last one of an R5 that is to be started at once.\<close>

definition early_cpu :: "'s XFsblPs \<Rightarrow> u32 \<Rightarrow> u32" where
  "early_cpu I n =
     (let p = partition I n
      in if XFsbl_GetDestinationCpu p = XIH_PH_ATTRB_DEST_CPU_NONE \<and>
            (XFsbl_GetDestinationDevice p = XIH_PH_ATTRB_DEST_DEVICE_PS \<or> XFsbl_GetDestinationDevice p = XIH_PH_ATTRB_DEST_DEVICE_NONE)
         then ProcessorID I else XFsbl_GetDestinationCpu p)"

definition XFsbl_CheckEarlyHandoff :: "bool \<Rightarrow> 's XFsblPs \<Rightarrow> u32 \<Rightarrow> bool" where
  "XFsbl_CheckEarlyHandoff early I PartitionNum =
     (early \<and>
      (let DestinationCpu = early_cpu I PartitionNum;
           DestinationCpuNxt = (if PartitionNum + 1 \<le> NoOfPartitions I - 1 then early_cpu I (PartitionNum + 1) else 0)
       in XFsbl_CheckEarlyHandoffCpu early DestinationCpu \<and> DestinationCpu \<noteq> ProcessorID I \<and>
          DestinationCpuNxt \<noteq> DestinationCpu))"

section \<open>What the processors find when they start\<close>

text \<open>
  The registers \<open>A\<close> hold what is written to them: reading any register and writing another one leave them alone,
  and so do the delays and the watch dog.
\<close>

definition register_file :: "'s platform \<Rightarrow> ('s \<Rightarrow> u64 \<Rightarrow> u32) \<Rightarrow> u64 set \<Rightarrow> bool" where
  "register_file pf regs A \<longleftrightarrow>
     (\<forall>s a. \<forall>b \<in> A. regs (snd (In32 (pf_bus pf) s a)) b = regs s b) \<and>
     (\<forall>s. \<forall>a \<in> A. fst (In32 (pf_bus pf) s a) = regs s a) \<and>
     (\<forall>s a v. \<forall>b \<in> A. regs (Out32 (pf_bus pf) s a v) b = (if a = b then v else regs s b)) \<and>
     (\<forall>n s. \<forall>b \<in> A. regs (pf_usleep pf n s) b = regs s b) \<and> (\<forall>s. \<forall>b \<in> A. regs (pf_WdtStop pf s) b = regs s b)"

definition a53_registers :: "u64 set" where
  "a53_registers = {CRF_APB_RST_FPD_APU} \<union> rvbar_low ` {0, 1, 2, 3} \<union> rvbar_high ` {0, 1, 2, 3}"

text \<open>An A53 has been released from reset with its entry point in the reset vector.\<close>

definition started :: "('s \<Rightarrow> u64 \<Rightarrow> u32) \<Rightarrow> nat \<Rightarrow> u64 \<Rightarrow> 's \<Rightarrow> bool" where
  "started regs n a s \<longleftrightarrow> regs s (rvbar_low n) = ucast a \<and> regs s (rvbar_high n) = ucast (drop_bit 32 a) \<and>
     regs s CRF_APB_RST_FPD_APU AND a53_resets n = 0"

definition same_regs :: "('s \<Rightarrow> u64 \<Rightarrow> u32) \<Rightarrow> 's \<Rightarrow> 's \<Rightarrow> bool" where
  "same_regs regs s t \<longleftrightarrow> (\<forall>b \<in> a53_registers. regs t b = regs s b)"

lemma same_regs_refl [simp]: "same_regs regs s s"
  by (simp add: same_regs_def)

lemma same_regs_trans: "same_regs regs s t \<Longrightarrow> same_regs regs t u \<Longrightarrow> same_regs regs s u"
  by (simp add: same_regs_def)

lemma a53_registers_mem [simp]:
  "CRF_APB_RST_FPD_APU \<in> a53_registers" "n < 4 \<Longrightarrow> rvbar_low n \<in> a53_registers" "n < 4 \<Longrightarrow> rvbar_high n \<in> a53_registers"
proof -
  have "n < 4 \<Longrightarrow> n \<in> {0, 1, 2, 3}" by auto
  then show "CRF_APB_RST_FPD_APU \<in> a53_registers" "n < 4 \<Longrightarrow> rvbar_low n \<in> a53_registers" "n < 4 \<Longrightarrow> rvbar_high n \<in> a53_registers"
    by (simp_all only: a53_registers_def Un_iff imageI insertI1 simp_thms)
qed

lemma started_same: "same_regs regs s t \<Longrightarrow> n < 4 \<Longrightarrow> started regs n a t = started regs n a s"
  by (simp add: same_regs_def started_def)

lemma a53_number_bound: "a53_number c = Some n \<Longrightarrow> n < 4"
  by (auto simp: a53_number_def split: if_splits)

lemma a53_number_inj: "a53_number c = Some n \<Longrightarrow> a53_number d = Some n \<Longrightarrow> c = d"
  by (auto simp: a53_number_def split: if_splits)

lemma register_fileD:
  assumes "register_file pf regs A" "b \<in> A"
  shows "regs (snd (In32 (pf_bus pf) s a)) b = regs s b" "fst (In32 (pf_bus pf) s b) = regs s b"
    "regs (Out32 (pf_bus pf) s a v) b = (if a = b then v else regs s b)" "regs (pf_usleep pf n s) b = regs s b"
    "regs (pf_WdtStop pf s) b = regs s b"
  using assms by (simp_all add: register_file_def)

lemma update_reg_file:
  "register_file pf regs A \<Longrightarrow> b \<in> A \<Longrightarrow> regs (update_reg pf a f s) b = (if a = b then f (regs s b) else regs s b)"
  using register_fileD [of pf regs A b]
  by (cases "In32 (pf_bus pf) s a") (simp add: update_reg_def, metis fst_conv snd_conv)

lemma write_reg_file:
  "register_file pf regs A \<Longrightarrow> b \<in> A \<Longrightarrow> regs (write_reg pf a v s) b = (if a = b then v else regs s b)"
  using register_fileD(3) [of pf regs A b] by (simp add: write_reg_def)

text \<open>Steps that touch none of the registers.\<close>

named_theorems same_intros

lemma same_steps [same_intros]:
  assumes "register_file pf regs a53_registers" "same_regs regs s t"
  shows "same_regs regs s (snd (In32 (pf_bus pf) t a))" "a \<notin> a53_registers \<Longrightarrow> same_regs regs s (write_reg pf a v t)"
    "a \<notin> a53_registers \<Longrightarrow> same_regs regs s (update_reg pf a f t)"
    "same_regs regs s (pf_usleep pf n t)" "same_regs regs s (pf_WdtStop pf t)"
  using assms register_fileD [OF assms(1)]
  by (auto simp: same_regs_def update_reg_file [OF assms(1)] write_reg_file [OF assms(1)])

lemma a53_register_iff:
  "a \<in> a53_registers \<longleftrightarrow> a \<in> {0xFD1A0104, 0xFD5C0040, 0xFD5C0044, 0xFD5C0048, 0xFD5C004C, 0xFD5C0050, 0xFD5C0054, 0xFD5C0058, 0xFD5C005C}"
  by (auto simp: a53_registers_def rvbar_low_def rvbar_high_def)

lemma same_read:
  assumes "register_file pf regs a53_registers" "same_regs regs s t" "In32 (pf_bus pf) t a = (v, u)"
  shows "same_regs regs s u"
  using same_steps(1) [OF assms(1,2), of a] assms(3) by simp

lemma same_poll:
  assumes rf: "register_file pf regs a53_registers" and p: "poll_reg pf a ok s = Some t"
  shows "same_regs regs s t"
proof -
  from p obtain r where "do_until (\<lambda>s. In32 (pf_bus pf) s a) ok s = Some (r, t)"
    by (auto simp: poll_reg_def poll_def)
  then show ?thesis
    by (rule do_until_result [where I = "same_regs regs s" and Q = "\<lambda>_. same_regs regs s"]) (auto intro: same_read [OF rf])
qed

lemma same_PowerUpIsland:
  assumes rf: "register_file pf regs a53_registers" and p: "XFsbl_PowerUpIsland pf m s = Some (Status, t)"
  shows "same_regs regs s t"
proof (cases "pf_Platform_info pf = XPLAT_ZYNQ_ULTRA_MPQEMU")
  case True
  with p show ?thesis by (simp add: XFsbl_PowerUpIsland_def)
next
  case False
  define u where "u = write_reg pf PMU_GLOBAL_REQ_PWRUP_TRIG (island_mask m) (write_reg pf PMU_GLOBAL_REQ_PWRUP_INT_EN (island_mask m) s)"
  have "same_regs regs s u" unfolding u_def by (intro same_steps [OF rf] same_regs_refl) (simp_all add: a53_register_iff)
  moreover from False p have "poll_reg pf PMU_GLOBAL_REQ_PWRUP_STATUS (\<lambda>v. v AND island_mask m = 0) u = Some t"
    by (auto simp: XFsbl_PowerUpIsland_def u_def Let_def bind_eq_Some_conv)
  ultimately show ?thesis using same_poll [OF rf] by (blast intro: same_regs_trans)
qed

lemma same_CheckSupportedCpu:
  assumes rf: "register_file pf regs a53_registers" and c: "XFsbl_CheckSupportedCpu pf c s = (Status, t)"
  shows "same_regs regs s t"
proof -
  have "same_regs regs s (snd (XFsbl_CheckSupportedCpu pf c s))"
    unfolding XFsbl_CheckSupportedCpu_def XFsbl_GetProcEng_def Let_def
    by (auto split: prod.split) (blast intro: same_read [OF rf] same_regs_refl)+
  with c show ?thesis by simp
qed

text \<open>The R5 registers are none of them.\<close>

lemma same_r5 [same_intros]:
  assumes rf: "register_file pf regs a53_registers" and s: "same_regs regs s t"
  shows "same_regs regs s (rpu_split pf t)" "same_regs regs s (rpu_lockstep pf t)" "same_regs regs s (r5_clock pf t)"
    "same_regs regs s (r5_release pf m t)"
    "a \<notin> a53_registers \<Longrightarrow> same_regs regs s (r5_halt pf a t)" "a \<notin> a53_registers \<Longrightarrow> same_regs regs s (r5_run pf a t)"
    "a \<notin> a53_registers \<Longrightarrow> same_regs regs s (put_vector_bit pf a b n v t)"
  unfolding rpu_split_def rpu_lockstep_def r5_clock_def r5_release_def r5_halt_def r5_run_def put_vector_bit_def
  by (intro same_steps [OF rf] s; simp add: a53_register_iff)+

text \<open>Starting an A53 clears its reset bits and leaves the other registers alone.\<close>

lemma masked_out: "(v AND NOT m) AND m = (0 :: u32)"
  by (rule bit_eqI) (auto simp: bit_simps)

lemma resets_kept:
  assumes "v AND m = (0 :: u32)"
  shows "(v AND NOT r) AND m = 0"
proof -
  have "(v AND NOT r) AND m = (v AND m) AND NOT r" by (simp only: ac_simps)
  with assms show ?thesis by simp
qed

lemma start_a53_regs:
  assumes rf: "register_file pf regs a53_registers" and st: "start_a53 pf n e s = Some (XFSBL_SUCCESS, t)"
    and err: "XFSBL_ERROR_A53_0_POWER_UP + of_nat n \<noteq> (0 :: u32)"
  obtains u where "same_regs regs s u" "t = update_reg pf CRF_APB_RST_FPD_APU (\<lambda>v. v AND NOT (a53_resets n)) u"
proof -
  from st err obtain s1 where p: "XFsbl_PowerUpIsland pf (a53_bit 0x1 n OR PMU_GLOBAL_PWR_STATE_FP_MASK OR PMU_GLOBAL_PWR_STATE_L2_BANK0_MASK) s = Some (XFSBL_SUCCESS, s1)"
    and t: "t = update_reg pf CRF_APB_RST_FPD_APU (\<lambda>v. v AND NOT (a53_resets n)) (update_reg pf CRF_APB_ACPU_CTRL
      (\<lambda>v. v OR (CRF_APB_ACPU_CTRL_CLKACT_FULL_MASK OR CRF_APB_ACPU_CTRL_CLKACT_HALF_MASK))
      (if e = XIH_PH_ATTRB_A53_EXEC_ST_AA32 then update_reg pf APU_CONFIG_0 (\<lambda>v. v AND NOT (a53_bit 0x1 n)) s1 else s1))"
    unfolding start_a53_def Let_def by (auto simp: on_success_code)
  have "same_regs regs s (update_reg pf CRF_APB_ACPU_CTRL
      (\<lambda>v. v OR (CRF_APB_ACPU_CTRL_CLKACT_FULL_MASK OR CRF_APB_ACPU_CTRL_CLKACT_HALF_MASK))
      (if e = XIH_PH_ATTRB_A53_EXEC_ST_AA32 then update_reg pf APU_CONFIG_0 (\<lambda>v. v AND NOT (a53_bit 0x1 n)) s1 else s1))"
    using same_PowerUpIsland [OF rf p]
    by (cases "e = XIH_PH_ATTRB_A53_EXEC_ST_AA32") (auto simp: a53_register_iff intro!: same_steps(3) [OF rf])
  with that t show ?thesis by blast
qed

lemma rvbar_eqs [simp]:
  "m < 4 \<Longrightarrow> n < 4 \<Longrightarrow> rvbar_low m = rvbar_low n \<longleftrightarrow> m = n" "m < 4 \<Longrightarrow> n < 4 \<Longrightarrow> rvbar_high m = rvbar_high n \<longleftrightarrow> m = n"
  "m < 4 \<Longrightarrow> n < 4 \<Longrightarrow> rvbar_low m \<noteq> rvbar_high n" "m < 4 \<Longrightarrow> n < 4 \<Longrightarrow> rvbar_high m \<noteq> rvbar_low n"
  "m < 4 \<Longrightarrow> CRF_APB_RST_FPD_APU \<noteq> rvbar_low m" "m < 4 \<Longrightarrow> CRF_APB_RST_FPD_APU \<noteq> rvbar_high m"
  "m < 4 \<Longrightarrow> rvbar_low m \<noteq> CRF_APB_RST_FPD_APU" "m < 4 \<Longrightarrow> rvbar_high m \<noteq> CRF_APB_RST_FPD_APU"
proof -
  have "m < 4 \<Longrightarrow> m \<in> {0, 1, 2, 3}" "n < 4 \<Longrightarrow> n \<in> {0, 1, 2, 3}" by auto
  then show "m < 4 \<Longrightarrow> n < 4 \<Longrightarrow> rvbar_low m = rvbar_low n \<longleftrightarrow> m = n" "m < 4 \<Longrightarrow> n < 4 \<Longrightarrow> rvbar_high m = rvbar_high n \<longleftrightarrow> m = n"
    "m < 4 \<Longrightarrow> n < 4 \<Longrightarrow> rvbar_low m \<noteq> rvbar_high n" "m < 4 \<Longrightarrow> n < 4 \<Longrightarrow> rvbar_high m \<noteq> rvbar_low n"
    "m < 4 \<Longrightarrow> CRF_APB_RST_FPD_APU \<noteq> rvbar_low m" "m < 4 \<Longrightarrow> CRF_APB_RST_FPD_APU \<noteq> rvbar_high m"
    "m < 4 \<Longrightarrow> rvbar_low m \<noteq> CRF_APB_RST_FPD_APU" "m < 4 \<Longrightarrow> rvbar_high m \<noteq> CRF_APB_RST_FPD_APU"
    by (auto simp: rvbar_low_def rvbar_high_def)
qed

lemma rvbar_nonzero [simp]: "m < 4 \<Longrightarrow> 0 \<noteq> rvbar_low m" "m < 4 \<Longrightarrow> 0 \<noteq> rvbar_high m"
proof -
  have "m < 4 \<Longrightarrow> m \<in> {0, 1, 2, 3}" by auto
  then show "m < 4 \<Longrightarrow> 0 \<noteq> rvbar_low m" "m < 4 \<Longrightarrow> 0 \<noteq> rvbar_high m" by (auto simp: rvbar_low_def rvbar_high_def)
qed

lemma release_started:
  assumes rf: "register_file pf regs a53_registers" and m: "m < 4"
    and t: "t = update_reg pf CRF_APB_RST_FPD_APU (\<lambda>v. v AND NOT (a53_resets n)) u"
  shows "started regs m a u \<Longrightarrow> started regs m a t"
    and "regs u (rvbar_low n) = ucast a \<Longrightarrow> regs u (rvbar_high n) = ucast (drop_bit 32 a) \<Longrightarrow> n < 4 \<Longrightarrow> started regs n a t"
  using m unfolding t started_def
  by (simp_all add: update_reg_file [OF rf] resets_kept masked_out)

text \<open>Other processors than the A53 do not touch the registers either.\<close>

lemma SetCpuPwrSettings_other:
  assumes rf: "register_file pf regs a53_registers" and n: "a53_number (cpu_id c) = None"
    and r: "XFsbl_SetCpuPwrSettings pf c XFSBL_CPU_SWRST s = Some (Status, t)"
  shows "same_regs regs s t"
proof -
  have k: "(\<And>s' . same_regs regs s s' \<Longrightarrow> same_regs regs s (f s')) \<Longrightarrow>
      on_success (XFsbl_PowerUpIsland pf m s) (\<lambda>_. e) (\<lambda>s. Some (XFSBL_SUCCESS, f s)) = Some (Status, t) \<Longrightarrow> same_regs regs s t" for f m e
    using same_PowerUpIsland [OF rf] by (auto simp: on_success_def bind_eq_Some_conv split: if_splits)
  note r' = r [unfolded XFsbl_SetCpuPwrSettings_def Let_def n option.case, simplified]
  show ?thesis
  proof (cases "cpu_id c = XIH_PH_ATTRB_DEST_CPU_R5_0 \<or> cpu_id c = XIH_PH_ATTRB_DEST_CPU_R5_1 \<or> cpu_id c = XIH_PH_ATTRB_DEST_CPU_R5_L")
    case False
    with r' show ?thesis by simp
  next
    case True
    then show ?thesis
    proof (elim disjE)
      assume c: "cpu_id c = XIH_PH_ATTRB_DEST_CPU_R5_0"
      show ?thesis by (rule k [OF _ r' [unfolded c, simplified]]) (intro same_r5 [OF rf]; simp add: a53_register_iff)
    next
      assume c: "cpu_id c = XIH_PH_ATTRB_DEST_CPU_R5_1"
      show ?thesis by (rule k [OF _ r' [unfolded c, simplified]]) (intro same_r5 [OF rf]; simp add: a53_register_iff)
    next
      assume c: "cpu_id c = XIH_PH_ATTRB_DEST_CPU_R5_L"
      show ?thesis by (rule k [OF _ r' [unfolded c, simplified]]) (intro same_r5 [OF rf]; simp add: a53_register_iff)
    qed
  qed
qed

lemma UpdateResetVector_regs:
  assumes rf: "register_file pf regs a53_registers"
  shows "m < 4 \<Longrightarrow> a53_number (cpu_id c) \<noteq> Some m \<Longrightarrow> started regs m b s \<Longrightarrow>
      started regs m b (XFsbl_UpdateResetVector pf a c OTHER_CPU_HANDOFF V s)"
    and "a53_number (cpu_id c) = Some n \<Longrightarrow> \<not> XFsbl_Is32BitCpu c \<Longrightarrow>
      regs (XFsbl_UpdateResetVector pf a c OTHER_CPU_HANDOFF V s) (rvbar_low n) = ucast a \<and>
      regs (XFsbl_UpdateResetVector pf a c OTHER_CPU_HANDOFF V s) (rvbar_high n) = ucast (drop_bit 32 a)"
proof -
  define u where "u = (if cpu_id c = XIH_PH_ATTRB_DEST_CPU_R5_0 \<or> cpu_id c = XIH_PH_ATTRB_DEST_CPU_R5_L
       then put_vector_bit pf RPU_RPU_0_CFG RPU_RPU_CFG_VINITHI_MASK RPU_RPU_CFG_VINITHI_SHIFT V s
       else if cpu_id c = XIH_PH_ATTRB_DEST_CPU_R5_1 \<or> cpu_id c = XIH_PH_ATTRB_DEST_CPU_R5_L
       then put_vector_bit pf RPU_RPU_1_CFG RPU_RPU_CFG_VINITHI_MASK RPU_RPU_CFG_VINITHI_SHIFT V s
       else case a53_number (cpu_id c) of
         Some n \<Rightarrow> if exec_state c = XIH_PH_ATTRB_A53_EXEC_ST_AA32
                   then put_vector_bit pf APU_CONFIG_0 (a53_bit 0x100 n) (8 + n) V s else s
       | None \<Rightarrow> s)"
  have u: "same_regs regs s u"
    unfolding u_def by (auto split: option.split intro!: same_r5(7) [OF rf] simp: a53_register_iff)
  note eq = XFsbl_UpdateResetVector_def [of pf a c OTHER_CPU_HANDOFF V s, unfolded Let_def, folded u_def]
  show "m < 4 \<Longrightarrow> a53_number (cpu_id c) \<noteq> Some m \<Longrightarrow> started regs m b s \<Longrightarrow>
      started regs m b (XFsbl_UpdateResetVector pf a c OTHER_CPU_HANDOFF V s)"
    using u a53_number_bound [of "cpu_id c"]
    by (cases "a53_number (cpu_id c)") (auto simp: eq started_def same_regs_def write_reg_file [OF rf])
  show "a53_number (cpu_id c) = Some n \<Longrightarrow> \<not> XFsbl_Is32BitCpu c \<Longrightarrow>
      regs (XFsbl_UpdateResetVector pf a c OTHER_CPU_HANDOFF V s) (rvbar_low n) = ucast a \<and>
      regs (XFsbl_UpdateResetVector pf a c OTHER_CPU_HANDOFF V s) (rvbar_high n) = ucast (drop_bit 32 a)"
    using a53_number_bound [of "cpu_id c"] by (auto simp: eq write_reg_file [OF rf])
qed

lemma handoff_entry_started:
  assumes rf: "register_file pf regs a53_registers"
    and e: "handoff_entry pf I V (c, a) running s = Some (XFSBL_SUCCESS, running', t)"
  shows "m < 4 \<Longrightarrow> a53_number (cpu_id c) \<noteq> Some m \<Longrightarrow> started regs m b s \<Longrightarrow> started regs m b t"
    and "cpu_id c \<noteq> ProcessorID I \<Longrightarrow> a53_number (cpu_id c) = Some n \<Longrightarrow> \<not> XFsbl_Is32BitCpu c \<Longrightarrow> started regs n a t"
    and "running' = (if cpu_id c = ProcessorID I then Some (a, exec_state c) else running)"
    and "cpu_id c = ProcessorID I \<Longrightarrow> A53ExecState I = XIH_PH_ATTRB_A53_EXEC_ST_AA64 \<Longrightarrow> exec_state c \<noteq> XIH_PH_ATTRB_A53_EXEC_ST_AA32"
proof -
  have A: "(m < 4 \<longrightarrow> a53_number (cpu_id c) \<noteq> Some m \<longrightarrow> started regs m b s \<longrightarrow> started regs m b t) \<and>
    (a53_number (cpu_id c) = Some n \<longrightarrow> \<not> XFsbl_Is32BitCpu c \<longrightarrow> started regs n a t) \<and> running' = running"
    if ne: "cpu_id c \<noteq> ProcessorID I"
  proof -
    obtain s1 where c: "XFsbl_CheckSupportedCpu pf (cpu_id c) s = (XFSBL_SUCCESS, s1)"
      using e ne by (cases "XFsbl_CheckSupportedCpu pf (cpu_id c) s") (auto simp: handoff_entry_def split: if_splits)
    define s2 where "s2 = XFsbl_UpdateResetVector pf a c OTHER_CPU_HANDOFF V s1"
    have p: "XFsbl_SetCpuPwrSettings pf c XFSBL_CPU_SWRST s2 = Some (XFSBL_SUCCESS, t)" and r: "running' = running"
      using e ne c by (auto simp: handoff_entry_def s2_def XFsbl_SetCpuPwrSettings_def [of _ _ XFSBL_CPU_POWER_UP] on_success_def)
    have s1: "same_regs regs s s1" by (rule same_CheckSupportedCpu [OF rf c])
    note v1 = UpdateResetVector_regs(1) [OF rf, where c = c and a = a and V = V and s = s1, folded s2_def]
    note v2 = UpdateResetVector_regs(2) [OF rf, where c = c and a = a and V = V and s = s1, folded s2_def]
    show ?thesis
    proof (cases "a53_number (cpu_id c)")
      case None
      have s2: "same_regs regs s2 t" by (rule SetCpuPwrSettings_other [OF rf None p])
      show ?thesis using v1 [of m b] started_same [OF s1, of m b] started_same [OF s2, of m b] None r by auto
    next
      case (Some k)
      then have k: "k < 4" by (rule a53_number_bound)
      then have "k \<in> {0, 1, 2, 3}" by auto
      then have err: "XFSBL_ERROR_A53_0_POWER_UP + of_nat k \<noteq> (0 :: u32)" by auto
      from p Some have "start_a53 pf k (exec_state c) s2 = Some (XFSBL_SUCCESS, t)" by (simp add: XFsbl_SetCpuPwrSettings_def)
      from start_a53_regs [OF rf this err] obtain u where u: "same_regs regs s2 u"
        and t: "t = update_reg pf CRF_APB_RST_FPD_APU (\<lambda>v. v AND NOT (a53_resets k)) u" .
      have a: "started regs m b t" if "m < 4" "a53_number (cpu_id c) \<noteq> Some m" "started regs m b s"
        using v1 [OF that(1,2)] that started_same [OF s1, of m b] started_same [OF u, of m b]
        by (intro release_started(1) [OF rf that(1) t]) simp
      have "started regs k a t" if "\<not> XFsbl_Is32BitCpu c"
        using v2 [OF Some that] u k by (intro release_started(2) [OF rf k t]) (simp_all add: same_regs_def)
      with a Some r show ?thesis by auto
    qed
  qed
  have B: "t = s \<and> running' = Some (a, exec_state c)" if "cpu_id c = ProcessorID I"
    using e that by (auto simp: handoff_entry_def Let_def split: if_splits)
  show "m < 4 \<Longrightarrow> a53_number (cpu_id c) \<noteq> Some m \<Longrightarrow> started regs m b s \<Longrightarrow> started regs m b t"
    using A B by (cases "cpu_id c = ProcessorID I") simp_all
  show "cpu_id c \<noteq> ProcessorID I \<Longrightarrow> a53_number (cpu_id c) = Some n \<Longrightarrow> \<not> XFsbl_Is32BitCpu c \<Longrightarrow> started regs n a t"
    using A by simp
  show "running' = (if cpu_id c = ProcessorID I then Some (a, exec_state c) else running)"
    using A B by (cases "cpu_id c = ProcessorID I") simp_all
  show "cpu_id c = ProcessorID I \<Longrightarrow> A53ExecState I = XIH_PH_ATTRB_A53_EXEC_ST_AA64 \<Longrightarrow> exec_state c \<noteq> XIH_PH_ATTRB_A53_EXEC_ST_AA32"
    using e by (auto simp: handoff_entry_def Let_def split: if_splits)
qed

text \<open>Without early handoff the loop is a pass over the entries.\<close>

fun run_entries ::
  "'s platform \<Rightarrow> 's XFsblPs \<Rightarrow> u32 \<Rightarrow> (u32 \<times> u64) list \<Rightarrow> (u64 \<times> u32) option \<Rightarrow> 's \<Rightarrow> ((u32 + (u64 \<times> u32) option) \<times> 's) option" where
  "run_entries pf I V [] running s = Some (Inr running, s)"
| "run_entries pf I V (e # es) running s =
     Option.bind (handoff_entry pf I V e running s) (\<lambda>(Status, running, s).
       if Status \<noteq> XFSBL_SUCCESS then Some (Inl Status, s) else run_entries pf I V es running s)"

definition table_entries :: "'s XFsblPs \<Rightarrow> (u32 \<times> u64) list" where
  "table_entries I = take (unat (HandoffCpuNo I)) (HandoffValues I)"

lemma handoff_loop_entries:
  assumes "unat (HandoffCpuNo I) \<le> length (HandoffValues I)"
  shows "map_option (\<lambda>(r, _, s). (r, s)) (handoff_loop pf False I PartitionNum False V i ie running s) =
    run_entries pf I V (drop (unat i) (table_entries I)) running s"
  using assms
proof (induction "unat (HandoffCpuNo I - i)" arbitrary: i ie running s rule: less_induct)
  case less
  show ?case
  proof (cases "i < HandoffCpuNo I")
    case False
    then have "drop (unat i) (table_entries I) = []" by (simp add: table_entries_def not_less word_le_nat_alt)
    with False show ?thesis by (simp add: handoff_loop.simps [of pf False I])
  next
    case True
    have i: "unat i < unat (HandoffCpuNo I)" "unat (i + 1) = Suc (unat i)" using True by (unat_arith+)
    have d: "drop (unat i) (table_entries I) = HandoffValues I ! unat i # drop (unat (i + 1)) (table_entries I)"
      using i less.prems by (simp add: table_entries_def Cons_nth_drop_Suc [symmetric])
    have m: "unat (HandoffCpuNo I - (i + 1)) < unat (HandoffCpuNo I - i)" using True by unat_arith
    show ?thesis
      unfolding d using True i less.prems
      by (cases "handoff_entry pf I V (HandoffValues I ! unat i) running s")
        (auto simp: handoff_loop.simps [of pf False I _ _ _ i] XFsbl_CheckEarlyHandoffCpu_def Let_def less.hyps [OF m])
  qed
qed

text \<open>What the pass has done for every entry.\<close>

definition entry_of :: "u32 \<Rightarrow> (u32 \<times> u64) list \<Rightarrow> (u64 \<times> u32) option" where
  "entry_of cpu es = map_option (\<lambda>(c, a). (a, exec_state c)) (find (\<lambda>(c, _). cpu_id c = cpu) es)"

lemma entry_of_mem:
  "entry_of cpu es = Some (a, st) \<Longrightarrow> \<exists>c. (c, a) \<in> set es \<and> cpu_id c = cpu \<and> st = exec_state c"
  by (force simp: entry_of_def find_Some_iff in_set_conv_nth)

lemma run_entries_started:
  assumes rf: "register_file pf regs a53_registers"
    and "run_entries pf I V es running s = Some (Inr running', t)" "distinct (map (\<lambda>(c, _). cpu_id c) es)"
  shows "(\<forall>(c, a) \<in> set es. \<forall>n. cpu_id c \<noteq> ProcessorID I \<longrightarrow> a53_number (cpu_id c) = Some n \<longrightarrow> \<not> XFsbl_Is32BitCpu c \<longrightarrow> started regs n a t) \<and>
    (\<forall>m b. m < 4 \<longrightarrow> (\<forall>(c, _) \<in> set es. a53_number (cpu_id c) \<noteq> Some m) \<longrightarrow> started regs m b s \<longrightarrow> started regs m b t) \<and>
    running' = (case entry_of (ProcessorID I) es of Some r \<Rightarrow> Some r | None \<Rightarrow> running) \<and>
    (\<forall>(c, a) \<in> set es. cpu_id c = ProcessorID I \<longrightarrow> A53ExecState I = XIH_PH_ATTRB_A53_EXEC_ST_AA64 \<longrightarrow>
       exec_state c \<noteq> XIH_PH_ATTRB_A53_EXEC_ST_AA32)"
  using assms(2,3)
proof (induction es arbitrary: running s)
  case Nil
  then show ?case by (simp add: entry_of_def)
next
  case (Cons e es)
  obtain c a where e: "e = (c, a)" by (cases e)
  from Cons.prems(1) obtain running1 s1 where h: "handoff_entry pf I V (c, a) running s = Some (XFSBL_SUCCESS, running1, s1)"
    and r: "run_entries pf I V es running1 s1 = Some (Inr running', t)"
    by (auto simp: e bind_eq_Some_conv split: if_splits)
  have d: "distinct (map (\<lambda>(c, _). cpu_id c) es)" and nin: "cpu_id c \<notin> cpu_id ` fst ` set es"
    using Cons.prems(2) by (auto simp: e)
  note ih = Cons.IH [OF r d]
  have other: "\<forall>(c', _) \<in> set es. a53_number (cpu_id c') \<noteq> Some n" if "a53_number (cpu_id c) = Some n" for n
    using nin a53_number_inj [OF that] by (auto simp: image_iff)
  have no_entry: "entry_of (ProcessorID I) es = None" if "cpu_id c = ProcessorID I"
    using nin that by (auto simp: entry_of_def find_None_iff image_iff)
  show ?case
  proof (intro conjI)
    show "\<forall>(c, a) \<in> set (e # es). \<forall>n. cpu_id c \<noteq> ProcessorID I \<longrightarrow> a53_number (cpu_id c) = Some n \<longrightarrow> \<not> XFsbl_Is32BitCpu c \<longrightarrow> started regs n a t"
      using ih other handoff_entry_started(2) [OF rf h] a53_number_bound by (auto simp: e)
    show "\<forall>m b. m < 4 \<longrightarrow> (\<forall>(c, _) \<in> set (e # es). a53_number (cpu_id c) \<noteq> Some m) \<longrightarrow> started regs m b s \<longrightarrow> started regs m b t"
      using ih handoff_entry_started(1) [OF rf h] by (auto simp: e)
    show "running' = (case entry_of (ProcessorID I) (e # es) of Some r \<Rightarrow> Some r | None \<Rightarrow> running)"
      using ih handoff_entry_started(3) [OF rf h] no_entry
      by (cases "cpu_id c = ProcessorID I") (auto simp: e entry_of_def split: option.split)
    show "\<forall>(c, a) \<in> set (e # es). cpu_id c = ProcessorID I \<longrightarrow> A53ExecState I = XIH_PH_ATTRB_A53_EXEC_ST_AA64 \<longrightarrow>
       exec_state c \<noteq> XIH_PH_ATTRB_A53_EXEC_ST_AA32"
      using ih handoff_entry_started(4) [OF rf h] by (auto simp: e)
  qed
qed

lemma leave_regs:
  assumes rf: "register_file pf regs a53_registers" and l: "leave pf r running s = (x, t)"
  shows "same_regs regs s t"
    and "x = (case running of None \<Rightarrow> Wait_for_event | Some (a, st) \<Rightarrow>
      if st = XIH_PH_ATTRB_A53_EXEC_ST_AA32 then Warm_reset_aarch32 else Branch_to a)"
proof -
  define u where "u = XFsbl_StopWdt pf r (write_reg pf XFSBL_ERROR_STATUS_REGISTER_OFFSET XFSBL_COMPLETED s)"
  have "same_regs regs s u"
    unfolding u_def XFsbl_StopWdt_def
    by (auto simp: Let_def a53_register_iff split: option.split intro!: same_steps [OF rf] same_regs_refl)
  moreover have "t = update_reg pf PMU_GLOBAL_GLOB_GEN_STORAGE5 (\<lambda>v. (v AND NOT XFSBL_EXEC_COMPLETED) OR XFSBL_EXEC_COMPLETED) u"
    using l by (auto simp: leave_def Let_def XFsbl_HandoffExit_def u_def split: option.splits)
  ultimately show "same_regs regs s t" by (auto intro: same_steps(3) [OF rf] simp: a53_register_iff)
  show "x = (case running of None \<Rightarrow> Wait_for_event | Some (a, st) \<Rightarrow>
      if st = XIH_PH_ATTRB_A53_EXEC_ST_AA32 then Warm_reset_aarch32 else Branch_to a)"
    using l by (auto simp: leave_def Let_def XFsbl_HandoffExit_def XFsbl_Exit_def split: option.splits)
qed

text \<open>
  C7. When the handoff leaves with a well-formed table (and not by JTAG), every 64-bit A53 of the table other than
  the running one has been released from reset with the address of its entry in its reset vector, whatever
  was done for the other processors, and the loader itself branches to the address of its own processor's entry, or
  waits for ever when the table has none. A 64-bit loader never leaves into the 32-bit state.
\<close>

theorem handoff_starts_processors:
  assumes "register_file pf regs a53_registers" "table_ok I" "PrimaryBootDevice I \<noteq> XFSBL_JTAG_BOOT_MODE"
    and "A53ExecState I = XIH_PH_ATTRB_A53_EXEC_ST_AA64"
    and h: "XFsbl_Handoff pf False I n False ie = Some (Exited x, ie', t)"
  shows "(\<forall>(c, a) \<in> set (table_entries I). \<forall>k. cpu_id c \<noteq> ProcessorID I \<and> a53_number (cpu_id c) = Some k \<and>
        \<not> XFsbl_Is32BitCpu c \<longrightarrow> started regs k a t) \<and>
    x = (case entry_of (ProcessorID I) (table_entries I) of None \<Rightarrow> Wait_for_event | Some (a, _) \<Rightarrow> Branch_to a)"
proof -
  define V where "V = drop_bit XIH_ATTRB_VECTOR_LOCATION_SHIFT (XFsbl_GetVectorLocation (partition I n))"
  obtain St s where p: "prepare_handoff pf (ResetReason I) (machine I) = (St, s)"
    by (cases "prepare_handoff pf (ResetReason I) (machine I)")
  from h assms(3) p obtain r j u where l: "handoff_loop pf False I n False V 0 ie None s = Some (r, j, u)"
    and k: "(case r of Inl Status \<Rightarrow> Some (Returned Status, j, u)
      | Inr running \<Rightarrow> (case leave pf (ResetReason I) running u of (x, s) \<Rightarrow> Some (Exited x, j, s))) = Some (Exited x, ie', t)"
    by (auto simp: XFsbl_Handoff_def V_def Let_def bind_eq_Some_conv simp del: split_paired_Ex split: if_splits)
  from k obtain running where r: "r = Inr running" and lv: "leave pf (ResetReason I) running u = (x, t)"
    by (cases r) (auto split: prod.splits)
  have len: "unat (HandoffCpuNo I) \<le> length (HandoffValues I)" and d: "distinct (map (\<lambda>(c, _). cpu_id c) (table_entries I))"
    using assms(2) by (simp_all add: table_ok_def table_cpus_def table_entries_def cpu_id_def)
  from handoff_loop_entries [OF len, of pf n V 0 ie None s] l
  have "run_entries pf I V (table_entries I) None s = Some (Inr running, u)" by (simp add: r)
  note r = run_entries_started [OF assms(1) this d]
  note lv' = leave_regs [OF assms(1) lv]
  have "entry_of (ProcessorID I) (table_entries I) = Some (a, st) \<Longrightarrow> st \<noteq> XIH_PH_ATTRB_A53_EXEC_ST_AA32" for a st
    using r assms(4) by (auto dest!: entry_of_mem)
  then have "x = (case entry_of (ProcessorID I) (table_entries I) of None \<Rightarrow> Wait_for_event | Some (a, _) \<Rightarrow> Branch_to a)"
    using r lv'(2) by (auto split: option.split)
  moreover have "\<forall>(c, a) \<in> set (table_entries I). \<forall>k. cpu_id c \<noteq> ProcessorID I \<and> a53_number (cpu_id c) = Some k \<and>
      \<not> XFsbl_Is32BitCpu c \<longrightarrow> started regs k a t"
    using r started_same [OF lv'(1)] a53_number_bound by (auto split: prod.splits)
  ultimately show ?thesis by blast
qed

section \<open>An example\<close>

text \<open>The loader runs on the first A53; the second one gets an application of its own.\<close>

definition demo_two :: "demo XFsblPs" where
  "demo_two = demo_instance\<lparr>HandoffValues := (replicate 10 (0, 0))[0 := (0x100, 0x100000), 1 := (0x200, 0x200000)],
     HandoffCpuNo := 2, machine := (\<lambda>_. 0, \<lambda>_. 0)\<rparr>"

lemma demo_two_fields [simp]:
  "PartitionHeader (ImageHeader_of demo_two) = [demo_signed_header, demo_signed_header]"
  "machine demo_two = (\<lambda>_. 0, \<lambda>_. 0)" "ProcessorID demo_two = 0x100" "A53ExecState demo_two = 0"
  "ResetReason demo_two = 0" "PrimaryBootDevice demo_two = 1" "HandoffCpuNo demo_two = 2"
  "HandoffValues demo_two = [(0x100, 0x100000), (0x200, 0x200000), (0, 0), (0, 0), (0, 0), (0, 0), (0, 0), (0, 0), (0, 0), (0, 0)]"
  by (simp_all add: demo_two_def) (simp_all add: demo_instance_def numeral_eq_Suc)

lemma demo_register_file: "register_file demo_platform fst A"
proof -
  have "pf_usleep demo_platform = (\<lambda>_ s. s)" "pf_WdtStop demo_platform = (\<lambda>s. s)" by (simp_all add: demo_platform_def)
  then show ?thesis by (auto simp: register_file_def)
qed

lemma demo_fields [simp]:
  "pf_psu_protection demo_platform s = (XFSBL_SUCCESS, s)" "pf_psu_protection_lock demo_platform s = (XFSBL_SUCCESS, s)"
  "pf_DCacheDisable demo_platform s = s" "pf_xilpm demo_platform = False" "pf_Platform_info demo_platform = 0"
  by (simp_all add: demo_platform_def)

lemma demo_prepare: "\<exists>r. prepare_handoff demo_platform 0 (\<lambda>_. 0, m) = (XFSBL_SUCCESS, r, m) \<and> r PMU_GLOBAL_REQ_PWRUP_STATUS = 0"
  by (simp add: prepare_handoff_def XFsbl_PmInit_def XFsbl_ProtectionConfig_def Let_def)

lemma demo_start:
  assumes "r PMU_GLOBAL_REQ_PWRUP_STATUS = 0"
  shows "\<exists>t. handoff_entry demo_platform demo_two V (0x200, 0x200000) running (r, m) = Some (XFSBL_SUCCESS, running, t)"
  using assms
  by (simp add: handoff_entry_def cpu_id_def exec_state_def XFsbl_CheckSupportedCpu_def XFsbl_GetProcEng_def Let_def
      XFsbl_SetCpuPwrSettings_def on_success_def a53_number_def start_a53_def XFsbl_PowerUpIsland_def
      XFsbl_UpdateResetVector_def XFsbl_Is32BitCpu_def is_r5_def rvbar_low_def rvbar_high_def split: prod.split)

lemma demo_handoff: "\<exists>x ie t. XFsbl_Handoff demo_platform False demo_two 1 False 0 = Some (Exited x, ie, t)"
proof -
  obtain r m where p: "prepare_handoff demo_platform 0 (\<lambda>_. 0, \<lambda>_. 0) = (XFSBL_SUCCESS, r, m)"
    and r: "r PMU_GLOBAL_REQ_PWRUP_STATUS = 0" using demo_prepare by blast
  define V where "V = drop_bit XIH_ATTRB_VECTOR_LOCATION_SHIFT (XFsbl_GetVectorLocation demo_signed_header)"
  obtain t where t: "handoff_entry demo_platform demo_two V (0x200, 0x200000) (Some (0x100000, 0)) (r, m) =
      Some (XFSBL_SUCCESS, Some (0x100000, 0), t)" using demo_start [where r = r, OF r] by blast
  have "table_entries demo_two = [(0x100, 0x100000), (0x200, 0x200000)]"
    by (simp add: table_entries_def)
  moreover have "handoff_entry demo_platform demo_two V (0x100, 0x100000) None (r, m) = Some (XFSBL_SUCCESS, Some (0x100000, 0), (r, m))"
    by (simp add: handoff_entry_def cpu_id_def exec_state_def)
  ultimately have "run_entries demo_platform demo_two V (table_entries demo_two) None (r, m) = Some (Inr (Some (0x100000, 0)), t)"
    using t by simp
  with handoff_loop_entries [of demo_two demo_platform 1 V 0 0 None "(r, m)"]
  obtain j where "handoff_loop demo_platform False demo_two 1 False V 0 0 None (r, m) = Some (Inr (Some (0x100000, 0)), j, t)"
    by auto
  with p show ?thesis
    by (simp add: XFsbl_Handoff_def XFsbl_HookBeforeHandoff_def V_def split: prod.split)
qed

theorem handoff_starts_processors_witness:
  "\<exists>ie t. XFsbl_Handoff demo_platform False demo_two 1 False 0 = Some (Exited (Branch_to 0x100000), ie, t) \<and> started fst 1 0x200000 t"
proof -
  from demo_handoff obtain x ie t where h: "XFsbl_Handoff demo_platform False demo_two 1 False 0 = Some (Exited x, ie, t)" by blast
  have ok: "table_ok demo_two" "table_entries demo_two = [(0x100, 0x100000), (0x200, 0x200000)]"
    by (simp_all add: table_ok_def table_cpus_def known_cpus_def table_entries_def)
  have cpus: "cpu_id 0x200 = 0x200" "cpu_id 0x100 = 0x100" "a53_number 0x200 = Some 1" "\<not> XFsbl_Is32BitCpu 0x200"
    by (simp_all add: cpu_id_def a53_number_def XFsbl_Is32BitCpu_def is_r5_def exec_state_def)
  from handoff_starts_processors [OF demo_register_file ok(1) _ _ h] have "started fst 1 0x200000 t" "x = Branch_to 0x100000"
    by (simp_all add: ok(2) cpus entry_of_def)
  with h show ?thesis by blast
qed

end
