(* ===== verification/Te_Board.thy ===== *)
theory Te_Board
  imports Fsbl_Platform
begin

text \<open>
  The board's part of the loader (\<open>te_iic_platform.c\<close>, \<open>te_si5338.c\<close>, \<open>te_xfsbl_hooks.c\<close>,
  \<open>te_xfsbl_hooks_te0803.c\<close>, \<open>XFsbl_HookPsuInit\<close> and \<open>XFsbl_BoardInit\<close>): registers of the board's chips over I2C, the
  clock generator, and the hook that configures the processing system. The build is that of
  \<open>te_iic_define_te0803.h\<close>: the I2C controller of the processing system and the clock generator Si5338.
\<close>

section \<open>The environment\<close>

text \<open>
  The driver of the I2C controller and the functions generated with the hardware description, on the machine. A
  transfer that receives nothing leaves the caller's byte as it is. The \<open>psu\<close> functions return 1 when they succeed;
  \<open>te_lanes\<close> are the addresses of the lock status of the serial lanes the design has.
\<close>

record 's te_board =
  te_IicLookup :: bool
  te_IicCfgInitialize :: "'s \<Rightarrow> u32 \<times> 's"
  te_IicSetSClk :: "u32 \<Rightarrow> 's \<Rightarrow> 's"
  te_IicSend :: "u8 list \<Rightarrow> u8 \<Rightarrow> 's \<Rightarrow> u32 \<times> 's"
  te_IicRecv :: "u8 \<Rightarrow> 's \<Rightarrow> u8 option \<times> 's"
  te_IicBusIsBusy :: "'s \<Rightarrow> bool \<times> 's"
  te_psu_mio_init_data :: "'s \<Rightarrow> u32 \<times> 's"
  te_psu_peripherals_pre_init_data :: "'s \<Rightarrow> u32 \<times> 's"
  te_psu_pll_init_data :: "'s \<Rightarrow> u32 \<times> 's"
  te_psu_clock_init_data :: "'s \<Rightarrow> u32 \<times> 's"
  te_psu_ddr_init_data :: "'s \<Rightarrow> u32 \<times> 's"
  te_psu_ddr_phybringup_data :: "'s \<Rightarrow> u32 \<times> 's"
  te_psu_peripherals_init_data :: "'s \<Rightarrow> u32 \<times> 's"
  te_psu_resetin_init_data :: "'s \<Rightarrow> u32 \<times> 's"
  te_serdes_fixcal_code :: "'s \<Rightarrow> u32 \<times> 's"
  te_psu_serdes_init_data :: "'s \<Rightarrow> u32 \<times> 's"
  te_psu_resetout_init_data :: "'s \<Rightarrow> u32 \<times> 's"
  te_psu_peripherals_powerdwn_data :: "'s \<Rightarrow> u32 \<times> 's"
  te_psu_afi_config :: "'s \<Rightarrow> u32 \<times> 's"
  te_psu_ddr_qos_init_data :: "'s \<Rightarrow> 's"
  te_lanes :: "u64 list"

abbreviation (input) XST_SUCCESS :: u32 where "XST_SUCCESS \<equiv> 0"
abbreviation (input) XST_FAILURE :: u32 where "XST_FAILURE \<equiv> 1"

section \<open>Registers over I2C\<close>

abbreviation (input) IIC_SCLK_RATE :: u32 where "IIC_SCLK_RATE \<equiv> 400000"

definition iic_init :: "'s te_board \<Rightarrow> 's \<Rightarrow> u32 \<times> 's" where
  "iic_init te s =
     (if \<not> te_IicLookup te then (XST_FAILURE, s)
      else case te_IicCfgInitialize te s of (Status, s) \<Rightarrow>
        if Status \<noteq> XST_SUCCESS then (XST_FAILURE, s) else (Status, te_IicSetSClk te IIC_SCLK_RATE s))"

text \<open>\<open>while (XIicPs_BusIsBusy(...)) {};\<close>\<close>

definition iic_idle :: "'s te_board \<Rightarrow> 's \<Rightarrow> 's option" where
  "iic_idle te s = map_option snd (do_until (te_IicBusIsBusy te) Not s)"

definition iic_write8 :: "'s te_board \<Rightarrow> u8 \<Rightarrow> u8 \<Rightarrow> u8 \<Rightarrow> 's \<Rightarrow> (u32 \<times> 's) option" where
  "iic_write8 te chip_addr reg_addr reg_val s =
     (case te_IicSend te [reg_addr, reg_val] chip_addr s of (Status, s) \<Rightarrow>
        if Status \<noteq> XST_SUCCESS then Some (Status, s) else map_option (\<lambda>s. (XST_SUCCESS, s)) (iic_idle te s))"

text \<open>Reading never fails; \<open>data\<close> is the caller's variable.\<close>

definition iic_read8 :: "'s te_board \<Rightarrow> u8 \<Rightarrow> u8 \<Rightarrow> u8 \<Rightarrow> 's \<Rightarrow> (u32 \<times> u8 \<times> 's) option" where
  "iic_read8 te chip_addr reg_addr data s =
     (case te_IicSend te [reg_addr] chip_addr s of (_, s) \<Rightarrow>
        case te_IicRecv te chip_addr s of (received, s) \<Rightarrow>
          map_option (\<lambda>s. (XST_SUCCESS, case received of Some x \<Rightarrow> x | None \<Rightarrow> data, s)) (iic_idle te s))"

text \<open>The status of a write of a whole register is not looked at; \<open>rd_val\<close> is what the local variable holds before.\<close>

definition iic_write8_mask :: "'s te_board \<Rightarrow> u8 \<Rightarrow> u8 \<Rightarrow> u8 \<Rightarrow> u8 \<Rightarrow> u8 \<Rightarrow> 's \<Rightarrow> (u32 \<times> 's) option" where
  "iic_write8_mask te rd_val chip_addr reg_addr reg_val msk s =
     (if msk = 0xFF then map_option (\<lambda>(_, s). (XST_SUCCESS, s)) (iic_write8 te chip_addr reg_addr reg_val s)
      else Option.bind (iic_read8 te chip_addr reg_addr rd_val s) (\<lambda>(Status, rd_val, s).
        if Status \<noteq> XST_SUCCESS then Some (Status, s)
        else map_option (\<lambda>(Status, s). (if Status \<noteq> XST_SUCCESS then Status else XST_SUCCESS, s))
               (iic_write8 te chip_addr reg_addr ((rd_val AND NOT msk) OR (reg_val AND msk)) s)))"

text \<open>
  Registers with 16-bit addresses, in pages of 256: \<open>page_now\<close> is the page each of the two functions has selected last,
  \<open>None\<close> before the first one (\<open>_last_page\<close> is -1). Each function has a variable of its own.
\<close>

definition select_page :: "'s te_board \<Rightarrow> u8 \<Rightarrow> u8 option \<Rightarrow> u16 \<Rightarrow> 's \<Rightarrow> (u32 \<times> u8 option \<times> 's) option" where
  "select_page te chip_addr page_now reg_addr s =
     (let page = ucast (drop_bit 8 reg_addr)
      in if page_now = Some page then Some (XST_SUCCESS, page_now, s)
         else map_option (\<lambda>(Status, s). if Status \<noteq> XST_SUCCESS then (XST_FAILURE, page_now, s) else (XST_SUCCESS, Some page, s))
                (iic_write8 te chip_addr 0x01 page s))"

definition iic_write16 :: "'s te_board \<Rightarrow> u8 \<Rightarrow> u8 option \<Rightarrow> u16 \<Rightarrow> u8 \<Rightarrow> 's \<Rightarrow> (u32 \<times> u8 option \<times> 's) option" where
  "iic_write16 te chip_addr page_now reg_addr reg_val s =
     Option.bind (select_page te chip_addr page_now reg_addr s) (\<lambda>(Status, page_now, s).
       if Status \<noteq> XST_SUCCESS then Some (Status, page_now, s)
       else map_option (\<lambda>(Status, s). (if Status \<noteq> XST_SUCCESS then XST_FAILURE else Status, page_now, s))
              (iic_write8 te chip_addr (ucast reg_addr) reg_val s))"

definition iic_read16 :: "'s te_board \<Rightarrow> u8 \<Rightarrow> u8 option \<Rightarrow> u16 \<Rightarrow> u8 \<Rightarrow> 's \<Rightarrow> (u32 \<times> u8 \<times> u8 option \<times> 's) option" where
  "iic_read16 te chip_addr page_now reg_addr reg_val s =
     Option.bind (select_page te chip_addr page_now reg_addr s) (\<lambda>(Status, page_now, s).
       if Status \<noteq> XST_SUCCESS then Some (Status, reg_val, page_now, s)
       else map_option (\<lambda>(Status, reg_val, s). (if Status \<noteq> XST_SUCCESS then XST_FAILURE else Status, reg_val, page_now, s))
              (iic_read8 te chip_addr (ucast reg_addr) reg_val s))"

section \<open>The clock generator\<close>

abbreviation (input) LOS_MASK :: u8 where "LOS_MASK \<equiv> 0x04"
abbreviation (input) LOCK_MASK :: u8 where "LOCK_MASK \<equiv> 0x15"
abbreviation (input) FCAL_OVRD_EN :: u8 where "FCAL_OVRD_EN \<equiv> 0x80"
abbreviation (input) SOFT_RESET :: u8 where "SOFT_RESET \<equiv> 0x02"
abbreviation (input) EOB_ALL :: u8 where "EOB_ALL \<equiv> 0x10"
abbreviation (input) DIS_LOL :: u8 where "DIS_LOL \<equiv> 0x80"
abbreviation (input) DELAY_AFTER_PLL_CONFIG_US :: u32 where "DELAY_AFTER_PLL_CONFIG_US \<equiv> 0x100000"

text \<open>
  \<open>Reg_Store\<close> (\<open>te_Si5338-Registers.h\<close>): address, value and mask. The array has one entry more than its
  initialiser, which is zero.
\<close>

definition Reg_Store :: "(u8 \<times> u8 \<times> u8) list" where
  "Reg_Store =
     [
     (0, 0x0, 0x0), (1, 0x0, 0x0), (2, 0x0, 0x0), (3, 0x0, 0x0), (4, 0x0, 0x0), (5, 0x0, 0x0), (6, 0x8, 0x1D), (7, 0x0, 0x0), (8, 0x70, 0x0), (9, 0xF, 0x0),
     (10, 0x0, 0x0), (11, 0x0, 0x0), (12, 0x0, 0x0), (13, 0x0, 0x0), (14, 0x0, 0x0), (15, 0x0, 0x0), (16, 0x0, 0x0), (17, 0x0, 0x0), (18, 0x0, 0x0), (19, 0x0, 0x0),
     (20, 0x0, 0x0), (21, 0x0, 0x0), (22, 0x0, 0x0), (23, 0x0, 0x0), (24, 0x0, 0x0), (25, 0x0, 0x0), (26, 0x0, 0x0), (27, 0x70, 0x80), (28, 0xB, 0xFF), (29, 0x8, 0xFF),
     (30, 0xB0, 0xFF), (31, 0xC0, 0xFF), (32, 0xC0, 0xFF), (33, 0xC0, 0xFF), (34, 0xC0, 0xFF), (35, 0xAA, 0xFF), (36, 0x6, 0x1F), (37, 0x6, 0x1F), (38, 0x6, 0x1F), (39, 0x6, 0x1F),
     (40, 0x84, 0xFF), (41, 0x10, 0x7F), (42, 0x24, 0x3F), (43, 0x0, 0x0), (44, 0x0, 0x0), (45, 0x0, 0xFF), (46, 0x0, 0xFF), (47, 0x14, 0x3F), (48, 0x3A, 0xFF), (49, 0x0, 0xFF),
     (50, 0xC4, 0xFF), (51, 0x7, 0xFF), (52, 0x10, 0xFF), (53, 0x80, 0xFF), (54, 0xA, 0xFF), (55, 0x0, 0xFF), (56, 0x0, 0xFF), (57, 0x0, 0xFF), (58, 0x0, 0xFF), (59, 0x1, 0xFF),
     (60, 0x0, 0xFF), (61, 0x0, 0xFF), (62, 0x0, 0x3F), (63, 0x10, 0xFF), (64, 0x0, 0xFF), (65, 0x8, 0xFF), (66, 0x0, 0xFF), (67, 0x0, 0xFF), (68, 0x0, 0xFF), (69, 0x0, 0xFF),
     (70, 0x1, 0xFF), (71, 0x0, 0xFF), (72, 0x0, 0xFF), (73, 0x0, 0x3F), (74, 0x10, 0xFF), (75, 0x4B, 0xFF), (76, 0x2C, 0xFF), (77, 0x5C, 0xFF), (78, 0x0, 0xFF), (79, 0x0, 0xFF),
     (80, 0x0, 0xFF), (81, 0x1B, 0xFF), (82, 0x0, 0xFF), (83, 0x0, 0xFF), (84, 0x0, 0x3F), (85, 0x10, 0xFF), (86, 0x80, 0xFF), (87, 0xA, 0xFF), (88, 0x0, 0xFF), (89, 0x0, 0xFF),
     (90, 0x0, 0xFF), (91, 0x0, 0xFF), (92, 0x1, 0xFF), (93, 0x0, 0xFF), (94, 0x0, 0xFF), (95, 0x0, 0x3F), (96, 0x10, 0x0), (97, 0x0, 0xFF), (98, 0x30, 0xFF), (99, 0x0, 0xFF),
     (100, 0x0, 0xFF), (101, 0x0, 0xFF), (102, 0x0, 0xFF), (103, 0x1, 0xFF), (104, 0x0, 0xFF), (105, 0x0, 0xFF), (106, 0x80, 0xBF), (107, 0x0, 0xFF), (108, 0x0, 0xFF), (109, 0x0, 0xFF),
     (110, 0x40, 0xFF), (111, 0x0, 0xFF), (112, 0x0, 0xFF), (113, 0x0, 0xFF), (114, 0x40, 0xFF), (115, 0x0, 0xFF), (116, 0x80, 0xFF), (117, 0x0, 0xFF), (118, 0x40, 0xFF), (119, 0x0, 0xFF),
     (120, 0x0, 0xFF), (121, 0x0, 0xFF), (122, 0x40, 0xFF), (123, 0x0, 0xFF), (124, 0x0, 0xFF), (125, 0x0, 0xFF), (126, 0x0, 0xFF), (127, 0x0, 0xFF), (128, 0x0, 0xFF), (129, 0x0, 0xF),
     (130, 0x0, 0xF), (131, 0x0, 0xFF), (132, 0x0, 0xFF), (133, 0x0, 0xFF), (134, 0x0, 0xFF), (135, 0x0, 0xFF), (136, 0x0, 0xFF), (137, 0x0, 0xFF), (138, 0x0, 0xFF), (139, 0x0, 0xFF),
     (140, 0x0, 0xFF), (141, 0x0, 0xFF), (142, 0x0, 0xFF), (143, 0x0, 0xFF), (144, 0x0, 0xFF), (145, 0x0, 0x0), (146, 0xFF, 0x0), (147, 0x0, 0x0), (148, 0x0, 0x0), (149, 0x0, 0x0),
     (150, 0x0, 0x0), (151, 0x0, 0x0), (152, 0x0, 0xFF), (153, 0x0, 0xFF), (154, 0x0, 0xFF), (155, 0x0, 0xFF), (156, 0x0, 0xFF), (157, 0x0, 0xFF), (158, 0x0, 0xF), (159, 0x0, 0xF),
     (160, 0x0, 0xFF), (161, 0x0, 0xFF), (162, 0x0, 0xFF), (163, 0x0, 0xFF), (164, 0x0, 0xFF), (165, 0x0, 0xFF), (166, 0x0, 0xFF), (167, 0x0, 0xFF), (168, 0x0, 0xFF), (169, 0x0, 0xFF),
     (170, 0x0, 0xFF), (171, 0x0, 0xFF), (172, 0x0, 0xFF), (173, 0x0, 0xFF), (174, 0x0, 0xFF), (175, 0x0, 0xFF), (176, 0x0, 0xFF), (177, 0x0, 0xFF), (178, 0x0, 0xFF), (179, 0x0, 0xFF),
     (180, 0x0, 0xFF), (181, 0x0, 0xF), (182, 0x0, 0xFF), (183, 0x0, 0xFF), (184, 0x0, 0xFF), (185, 0x0, 0xFF), (186, 0x0, 0xFF), (187, 0x0, 0xFF), (188, 0x0, 0xFF), (189, 0x0, 0xFF),
     (190, 0x0, 0xFF), (191, 0x0, 0xFF), (192, 0x0, 0xFF), (193, 0x0, 0xFF), (194, 0x0, 0xFF), (195, 0x0, 0xFF), (196, 0x0, 0xFF), (197, 0x0, 0xFF), (198, 0x0, 0xFF), (199, 0x0, 0xFF),
     (200, 0x0, 0xFF), (201, 0x0, 0xFF), (202, 0x0, 0xFF), (203, 0x0, 0xF), (204, 0x0, 0xFF), (205, 0x0, 0xFF), (206, 0x0, 0xFF), (207, 0x0, 0xFF), (208, 0x0, 0xFF), (209, 0x0, 0xFF),
     (210, 0x0, 0xFF), (211, 0x0, 0xFF), (212, 0x0, 0xFF), (213, 0x0, 0xFF), (214, 0x0, 0xFF), (215, 0x0, 0xFF), (216, 0x0, 0xFF), (217, 0x0, 0xFF), (218, 0x0, 0x0), (219, 0x0, 0x0),
     (220, 0x0, 0x0), (221, 0xD, 0x0), (222, 0x0, 0x0), (223, 0x0, 0x0), (224, 0xF4, 0x0), (225, 0xF0, 0x0), (226, 0x0, 0x0), (227, 0x0, 0x0), (228, 0x0, 0x0), (229, 0x0, 0x0),
     (231, 0x0, 0x0), (232, 0x0, 0x0), (233, 0x0, 0x0), (234, 0x0, 0x0), (235, 0x0, 0x0), (236, 0x0, 0x0), (237, 0x0, 0x0), (238, 0x14, 0x0), (239, 0x0, 0x0), (240, 0x0, 0x0),
     (242, 0x2, 0x2), (243, 0xF0, 0x0), (244, 0x0, 0x0), (245, 0x0, 0x0), (247, 0x0, 0x0), (248, 0x0, 0x0), (249, 0xA8, 0x0), (250, 0x0, 0x0), (251, 0x84, 0x0), (252, 0x0, 0x0),
     (253, 0x0, 0x0), (254, 0x0, 0x0), (255, 1, 0xFF), (0, 0x0, 0x0), (1, 0x0, 0x0), (2, 0x0, 0x0), (3, 0x0, 0x0), (4, 0x0, 0x0), (5, 0x0, 0x0), (6, 0x0, 0x0),
     (7, 0x0, 0x0), (8, 0x0, 0x0), (9, 0x0, 0x0), (10, 0x0, 0x0), (11, 0x0, 0x0), (12, 0x0, 0x0), (13, 0x0, 0x0), (14, 0x0, 0x0), (15, 0x0, 0x0), (16, 0x0, 0x0),
     (17, 0x1, 0x0), (18, 0x0, 0x0), (19, 0x0, 0x0), (20, 0x90, 0x0), (21, 0x31, 0x0), (22, 0x0, 0x0), (23, 0x0, 0x0), (24, 0x1, 0x0), (25, 0x0, 0x0), (26, 0x0, 0x0),
     (27, 0x0, 0x0), (28, 0x0, 0x0), (29, 0x0, 0x0), (30, 0x0, 0x0), (31, 0x0, 0xFF), (32, 0x0, 0xFF), (33, 0x1, 0xFF), (34, 0x0, 0xFF), (35, 0x0, 0xFF), (36, 0x90, 0xFF),
     (37, 0x31, 0xFF), (38, 0x0, 0xFF), (39, 0x0, 0xFF), (40, 0x1, 0xFF), (41, 0x0, 0xFF), (42, 0x0, 0xFF), (43, 0x0, 0xF), (44, 0x0, 0x0), (45, 0x0, 0x0), (46, 0x0, 0x0),
     (47, 0x0, 0xFF), (48, 0x0, 0xFF), (49, 0x1, 0xFF), (50, 0x0, 0xFF), (51, 0x0, 0xFF), (52, 0x90, 0xFF), (53, 0x31, 0xFF), (54, 0x0, 0xFF), (55, 0x0, 0xFF), (56, 0x1, 0xFF),
     (57, 0x0, 0xFF), (58, 0x0, 0xFF), (59, 0x0, 0xF), (60, 0x0, 0x0), (61, 0x0, 0x0), (62, 0x0, 0x0), (63, 0x0, 0xFF), (64, 0x0, 0xFF), (65, 0x1, 0xFF), (66, 0x0, 0xFF),
     (67, 0x0, 0xFF), (68, 0x90, 0xFF), (69, 0x31, 0xFF), (70, 0x0, 0xFF), (71, 0x0, 0xFF), (72, 0x1, 0xFF), (73, 0x0, 0xFF), (74, 0x0, 0xFF), (75, 0x0, 0xF), (76, 0x0, 0x0),
     (77, 0x0, 0x0), (78, 0x0, 0x0), (79, 0x0, 0xFF), (80, 0x0, 0xFF), (81, 0x0, 0xFF), (82, 0x0, 0xFF), (83, 0x0, 0xFF), (84, 0x90, 0xFF), (85, 0x31, 0xFF), (86, 0x0, 0xFF),
     (87, 0x0, 0xFF), (88, 0x1, 0xFF), (89, 0x0, 0xFF), (90, 0x0, 0xFF), (91, 0x0, 0xF), (92, 0x0, 0x0), (93, 0x0, 0x0), (94, 0x0, 0x0), (255, 0, 0xFF)] @ [(0, 0, 0)]"

definition si5338_version :: "'s te_board \<Rightarrow> u8 \<Rightarrow> u8 \<Rightarrow> 's \<Rightarrow> (u32 \<times> 's) option" where
  "si5338_version te reg_val chip_addr s =
     Option.bind (iic_read8 te chip_addr 2 reg_val s) (\<lambda>(_, reg_val, s).
       map_option (\<lambda>(Status, _, s). (Status, s)) (iic_read8 te chip_addr 0 reg_val s))"

text \<open>
  The loops that read the status register until it satisfies \<open>ok\<close>; with \<open>stop\<close> a read that fails ends them.
\<close>

partial_function (option) read_until ::
  "'s te_board \<Rightarrow> bool \<Rightarrow> (u8 \<Rightarrow> bool) \<Rightarrow> u8 \<Rightarrow> u8 \<Rightarrow> u8 \<Rightarrow> 's \<Rightarrow> (u32 \<times> u8 \<times> 's) option" where
  "read_until te stop ok chip_addr reg_addr reg_val s =
     Option.bind (iic_read8 te chip_addr reg_addr reg_val s) (\<lambda>(Status, reg_val, s).
       if stop \<and> Status \<noteq> XST_SUCCESS \<or> ok reg_val then Some (Status, reg_val, s)
       else read_until te stop ok chip_addr reg_addr reg_val s)"

definition si5338_status_wait :: "'s platform \<Rightarrow> 's te_board \<Rightarrow> u8 \<Rightarrow> u8 \<Rightarrow> 's \<Rightarrow> (u32 \<times> 's) option" where
  "si5338_status_wait pf te reg_val chip_addr s =
     Option.bind (iic_read8 te chip_addr 218 reg_val (pf_usleep pf 5 s)) (\<lambda>(_, reg_val, s).
       Option.bind (read_until te False (\<lambda>v. v AND 0x01 \<noteq> 1) chip_addr 218 reg_val s) (\<lambda>(_, reg_val, s).
         map_option (\<lambda>(Status, _, s). (Status, s))
           (iic_read8 te chip_addr 218 reg_val (pf_usleep pf DELAY_AFTER_PLL_CONFIG_US s))))"

text \<open>Writes whose status is dropped; \<open>junk\<close> is the uninitialised variable of \<open>iic_write8_mask\<close>.\<close>

definition chip_put :: "'s te_board \<Rightarrow> u8 \<Rightarrow> u8 \<Rightarrow> u8 \<Rightarrow> 's \<Rightarrow> 's option" where
  "chip_put te chip_addr reg_addr reg_val s = map_option snd (iic_write8 te chip_addr reg_addr reg_val s)"

definition chip_put_mask :: "'s te_board \<Rightarrow> u8 \<Rightarrow> u8 \<Rightarrow> u8 \<Rightarrow> u8 \<Rightarrow> u8 \<Rightarrow> 's \<Rightarrow> 's option" where
  "chip_put_mask te junk chip_addr reg_addr reg_val msk s = map_option snd (iic_write8_mask te junk chip_addr reg_addr reg_val msk s)"

fun write_regs :: "'s te_board \<Rightarrow> u8 \<Rightarrow> u8 \<Rightarrow> (u8 \<times> u8 \<times> u8) list \<Rightarrow> 's \<Rightarrow> 's option" where
  "write_regs te junk chip_addr [] s = Some s"
| "write_regs te junk chip_addr ((Reg_Addr, Reg_Val, Reg_Mask) # regs) s =
     Option.bind (chip_put_mask te junk chip_addr Reg_Addr Reg_Val Reg_Mask s) (write_regs te junk chip_addr regs)"

text \<open>Copying the calibration values to the active registers, and switching the outputs on.\<close>

definition use_calibration :: "'s te_board \<Rightarrow> u8 \<Rightarrow> u8 \<Rightarrow> u8 \<Rightarrow> 's \<Rightarrow> 's option" where
  "use_calibration te junk chip_addr reg_val s = do {
     (_, reg_val, s) \<leftarrow> iic_read8 te chip_addr 237 reg_val s;
     s \<leftarrow> chip_put_mask te junk chip_addr 47 reg_val 0x03 s;
     (_, reg_val, s) \<leftarrow> iic_read8 te chip_addr 236 reg_val s;
     s \<leftarrow> chip_put te chip_addr 46 reg_val s;
     (_, reg_val, s) \<leftarrow> iic_read8 te chip_addr 235 reg_val s;
     s \<leftarrow> chip_put te chip_addr 45 reg_val s;
     s \<leftarrow> chip_put_mask te junk chip_addr 47 0x14 0xFC s;
     s \<leftarrow> chip_put_mask te junk chip_addr 49 FCAL_OVRD_EN FCAL_OVRD_EN s;
     chip_put te chip_addr 230 0x00 s
   }"

definition start_pll :: "'s platform \<Rightarrow> 's te_board \<Rightarrow> u8 \<Rightarrow> u8 \<Rightarrow> 's \<Rightarrow> 's option" where
  "start_pll pf te junk chip_addr s = do {
     s \<leftarrow> chip_put_mask te junk chip_addr 49 0 FCAL_OVRD_EN s;
     s \<leftarrow> chip_put te chip_addr 246 SOFT_RESET s;
     let s = pf_usleep pf (25 * 1000) s;
     s \<leftarrow> chip_put_mask te junk chip_addr 241 0 DIS_LOL s;
     chip_put te chip_addr 241 0x65 s
   }"

definition si5338_init :: "'s platform \<Rightarrow> 's te_board \<Rightarrow> u8 \<Rightarrow> u8 \<Rightarrow> u8 \<Rightarrow> 's \<Rightarrow> (u32 \<times> 's) option" where
  "si5338_init pf te junk reg_val chip_addr s = do {
     s \<leftarrow> chip_put te chip_addr 246 0x01 s;
     s \<leftarrow> chip_put_mask te junk chip_addr 230 EOB_ALL EOB_ALL s;
     s \<leftarrow> chip_put_mask te junk chip_addr 241 DIS_LOL DIS_LOL s;
     s \<leftarrow> write_regs te junk chip_addr Reg_Store s;
     (Status, reg_val, s) \<leftarrow> read_until te True (\<lambda>v. v AND LOS_MASK = 0) chip_addr 218 reg_val s;
     if Status \<noteq> XST_SUCCESS then Some (Status, s)
     else do {
       s \<leftarrow> start_pll pf te junk chip_addr s;
       (Status, reg_val, s) \<leftarrow> read_until te True (\<lambda>v. v AND LOCK_MASK = 0) chip_addr 218 reg_val s;
       if Status \<noteq> XST_SUCCESS then Some (Status, s)
       else do {
         s \<leftarrow> use_calibration te junk chip_addr reg_val s;
         Some (XST_SUCCESS, s)
       }
     }
   }"

section \<open>The hook for the processing system\<close>

abbreviation (input) GPIO_DATA_1 :: u64 where "GPIO_DATA_1 \<equiv> 0xFF0A0044"
abbreviation (input) GPIO_DIRM_1 :: u64 where "GPIO_DIRM_1 \<equiv> 0xFF0A0244"
abbreviation (input) GPIO_OEN_1 :: u64 where "GPIO_OEN_1 \<equiv> 0xFF0A0248"
abbreviation (input) GPIO_MIO31_MASK :: u32 where "GPIO_MIO31_MASK \<equiv> 0x20"
abbreviation (input) GPIO_MIO30_MASK :: u32 where "GPIO_MIO30_MASK \<equiv> 0x10"
abbreviation (input) DELAY_5_US :: u32 where "DELAY_5_US \<equiv> 5"
abbreviation (input) AMS_PS_SYSMON_ANALOG_BUS :: u64 where "AMS_PS_SYSMON_ANALOG_BUS \<equiv> 0xFFA50914"
abbreviation (input) PS_SYSMON_ANALOG_BUS_VAL :: u32 where "PS_SYSMON_ANALOG_BUS_VAL \<equiv> 0x3210"
abbreviation (input) XFSBL_PSU_INIT_FAILED :: u32 where "XFSBL_PSU_INIT_FAILED \<equiv> 0x800"

text \<open>\<open>psu_status &= f();\<close>\<close>

definition psu_and :: "('s \<Rightarrow> u32 \<times> 's) \<Rightarrow> u32 \<times> 's \<Rightarrow> u32 \<times> 's" where
  "psu_and f = (\<lambda>(psu_status, s). case f s of (r, s) \<Rightarrow> (psu_status AND r, s))"

definition psu_first_half :: "'s te_board \<Rightarrow> 's \<Rightarrow> u32 \<times> 's" where
  "psu_first_half te s =
     fold psu_and [te_psu_mio_init_data te, te_psu_peripherals_pre_init_data te, te_psu_pll_init_data te,
       te_psu_clock_init_data te, te_psu_ddr_init_data te, te_psu_ddr_phybringup_data te, te_psu_peripherals_init_data te] (1, s)"

text \<open>An output pin is configured and pulled low.\<close>

definition hold_reset :: "'s platform \<Rightarrow> u32 \<Rightarrow> 's \<Rightarrow> 's" where
  "hold_reset pf pin s =
     update_reg pf GPIO_DATA_1 (\<lambda>v. v AND NOT pin)
       (update_reg pf GPIO_OEN_1 (\<lambda>v. v OR pin) (update_reg pf GPIO_DIRM_1 (\<lambda>v. v OR pin) s))"

text \<open>The clock generator, behind the switch of the carrier; the local variables start as \<open>junk\<close>.\<close>

definition init_clocks :: "'s platform \<Rightarrow> 's te_board \<Rightarrow> u8 \<Rightarrow> 's \<Rightarrow> (u32 \<times> 's) option" where
  "init_clocks pf te junk s =
     (case iic_init te s of (Status, s) \<Rightarrow>
        if Status \<noteq> XFSBL_SUCCESS then Some (Status, s)
        else on_success (iic_write8 te 0x77 0x00 0x10 s) (\<lambda>Status. Status) (\<lambda>s.
          on_success (si5338_version te junk 0x70 s) (\<lambda>Status. Status) (\<lambda>s.
            on_success (si5338_init pf te junk junk 0x70 s) (\<lambda>Status. Status) (si5338_status_wait pf te junk 0x70))))"

definition init_serdes :: "'s platform \<Rightarrow> 's te_board \<Rightarrow> u32 \<times> 's \<Rightarrow> u32 \<times> 's" where
  "init_serdes pf te p =
     (if te_lanes te = [] then p
      else
        let (psu_status, s) = fold psu_and [te_psu_resetin_init_data te, te_serdes_fixcal_code te] p;
            s = fold (\<lambda>a. write_reg pf a 0x10) [0xFD402094, 0xFD406094, 0xFD40A094, 0xFD40E094] s
        in fold psu_and [te_psu_serdes_init_data te, te_psu_resetout_init_data te] (psu_status, s))"

definition psu_second_half :: "'s platform \<Rightarrow> 's te_board \<Rightarrow> u32 \<times> 's \<Rightarrow> u32 \<times> 's" where
  "psu_second_half pf te p =
     (let (psu_status, s) = init_serdes pf te p;
          s = update_reg pf 0xFD5F0018 (\<lambda>RegVal. (RegVal AND NOT 0x8000001F) OR (0x8000001F AND 0x8000001F)) s;
          (psu_status, s) = fold psu_and [te_psu_peripherals_powerdwn_data te, te_psu_afi_config te] (psu_status, s)
      in (psu_status, te_psu_ddr_qos_init_data te s))"

text \<open>
  \<open>Status\<close> is that of the last call of the clock generator when the end is reached, or \<open>psu_status\<close> when that is zero.
\<close>

definition TE_XFsbl_TPSU_MODIFIED :: "'s platform \<Rightarrow> 's te_board \<Rightarrow> u8 \<Rightarrow> 's \<Rightarrow> (u32 \<times> 's) option" where
  "TE_XFsbl_TPSU_MODIFIED pf te junk s =
     (case psu_first_half te s of (psu_status, s) \<Rightarrow>
        if psu_status = 0 then Some (psu_status, s)
        else
          on_success (init_clocks pf te junk (hold_reset pf GPIO_MIO31_MASK (hold_reset pf GPIO_MIO30_MASK s)))
            (\<lambda>Status. Status) (\<lambda>s.
            let Status = XFSBL_SUCCESS;
                s = update_reg pf GPIO_DATA_1 (\<lambda>v. v OR GPIO_MIO30_MASK) s;
                s = update_reg pf GPIO_DATA_1 (\<lambda>v. v OR GPIO_MIO31_MASK) s;
                s = pf_usleep pf DELAY_5_US s;
                (psu_status, s) = psu_second_half pf te (psu_status, s)
            in Some (if psu_status = 0 then psu_status else Status, s)))"

definition TE_XFsbl_HookPsuInit :: "'s platform \<Rightarrow> 's te_board \<Rightarrow> u8 \<Rightarrow> 's \<Rightarrow> (u32 \<times> 's) option" where
  "TE_XFsbl_HookPsuInit pf te junk = TE_XFsbl_TPSU_MODIFIED pf te junk"

definition XFsbl_HookPsuInit :: "'s platform \<Rightarrow> 's te_board \<Rightarrow> u8 \<Rightarrow> 's \<Rightarrow> (u32 \<times> 's) option" where
  "XFsbl_HookPsuInit pf te junk s =
     map_option (\<lambda>(Status, s).
       (if Status \<noteq> XFSBL_SUCCESS then XFSBL_PSU_INIT_FAILED + Status else Status,
        write_reg pf AMS_PS_SYSMON_ANALOG_BUS PS_SYSMON_ANALOG_BUS_VAL s)) (TE_XFsbl_HookPsuInit pf te junk s)"

section \<open>The hook for the board\<close>

text \<open>The resets and the locks of the lanes are only read to be reported.\<close>

definition TE_XFsbl_BoardInit :: "'s platform \<Rightarrow> 's te_board \<Rightarrow> 's \<Rightarrow> (u32 \<times> 's) option" where
  "TE_XFsbl_BoardInit pf te s =
     (let s = fold (\<lambda>a s. snd (In32 (pf_bus pf) s a)) (GPIO_DATA_1 # te_lanes te) s
      in iic_write8 te 0x73 0x00 0x20 s)"

text \<open>For this board the status of the hook is dropped.\<close>

definition XFsbl_BoardInit :: "'s platform \<Rightarrow> 's te_board \<Rightarrow> 's \<Rightarrow> (u32 \<times> 's) option" where
  "XFsbl_BoardInit pf te s = map_option (\<lambda>(_, s). (XFSBL_SUCCESS, s)) (TE_XFsbl_BoardInit pf te s)"

section \<open>What is reported\<close>

lemma TPSU_failure:
  assumes "TE_XFsbl_TPSU_MODIFIED pf te junk s = Some (Status, t)" "Status \<noteq> XFSBL_SUCCESS"
  shows "fst (psu_first_half te s) \<noteq> 0 \<and>
    (\<exists>u. init_clocks pf te junk (hold_reset pf GPIO_MIO31_MASK (hold_reset pf GPIO_MIO30_MASK (snd (psu_first_half te s)))) = Some (Status, u))"
proof -
  obtain p s1 where h: "psu_first_half te s = (p, s1)" by (cases "psu_first_half te s")
  have p: "p \<noteq> 0" using assms by (auto simp: TE_XFsbl_TPSU_MODIFIED_def h)
  with assms(1) have "on_success (init_clocks pf te junk (hold_reset pf GPIO_MIO31_MASK (hold_reset pf GPIO_MIO30_MASK s1)))
      (\<lambda>Status. Status) (\<lambda>s.
            let Status = XFSBL_SUCCESS;
                s = update_reg pf GPIO_DATA_1 (\<lambda>v. v OR GPIO_MIO30_MASK) s;
                s = update_reg pf GPIO_DATA_1 (\<lambda>v. v OR GPIO_MIO31_MASK) s;
                s = pf_usleep pf DELAY_5_US s;
                (psu_status, s) = psu_second_half pf te (p, s)
            in Some (if psu_status = 0 then psu_status else Status, s)) = Some (Status, t)"
    by (simp add: TE_XFsbl_TPSU_MODIFIED_def h)
  then obtain St u where c: "init_clocks pf te junk (hold_reset pf GPIO_MIO31_MASK (hold_reset pf GPIO_MIO30_MASK s1)) = Some (St, u)"
    and r: "(if St \<noteq> XFSBL_SUCCESS then Some (St, u) else
          (let Status = XFSBL_SUCCESS;
                s = update_reg pf GPIO_DATA_1 (\<lambda>v. v OR GPIO_MIO30_MASK) u;
                s = update_reg pf GPIO_DATA_1 (\<lambda>v. v OR GPIO_MIO31_MASK) s;
                s = pf_usleep pf DELAY_5_US s;
                (psu_status, s) = psu_second_half pf te (p, s)
            in Some (if psu_status = 0 then psu_status else Status, s))) = Some (Status, t)"
    by (rule on_success_elim)
  have "St = Status" using r assms(2) by (auto simp: Let_def split: if_splits prod.splits)
  with c p show ?thesis by (simp add: h)
qed

text \<open>
  C33. The hook for the processing system never reports that a generated \<open>psu\<close> function has failed: when the product
  of the first group is zero it ends there with zero, which is \<open>XFSBL_SUCCESS\<close>, before the clocks and the rest are
  configured. The only failures it reports are those of the I2C transfers and of the clock generator, and the hook
  for the board reports none at all.
\<close>

theorem psu_failure_unreported:
  "(fst (psu_first_half te s) = 0 \<longrightarrow>
      XFsbl_HookPsuInit pf te junk s = Some (XFSBL_SUCCESS, write_reg pf AMS_PS_SYSMON_ANALOG_BUS PS_SYSMON_ANALOG_BUS_VAL (snd (psu_first_half te s)))) \<and>
   (XFsbl_HookPsuInit pf te junk s = Some (Status, t) \<and> Status \<noteq> XFSBL_SUCCESS \<longrightarrow>
      fst (psu_first_half te s) \<noteq> 0 \<and>
      (\<exists>St u. init_clocks pf te junk (hold_reset pf GPIO_MIO31_MASK (hold_reset pf GPIO_MIO30_MASK (snd (psu_first_half te s)))) = Some (St, u) \<and>
         St \<noteq> XFSBL_SUCCESS \<and> Status = XFSBL_PSU_INIT_FAILED + St)) \<and>
   (XFsbl_BoardInit pf te s = Some (Status, t) \<longrightarrow> Status = XFSBL_SUCCESS)"
proof (intro conjI)
  show "fst (psu_first_half te s) = 0 \<longrightarrow>
      XFsbl_HookPsuInit pf te junk s = Some (XFSBL_SUCCESS, write_reg pf AMS_PS_SYSMON_ANALOG_BUS PS_SYSMON_ANALOG_BUS_VAL (snd (psu_first_half te s)))"
    by (auto simp: XFsbl_HookPsuInit_def TE_XFsbl_HookPsuInit_def TE_XFsbl_TPSU_MODIFIED_def split: prod.split)
  show "XFsbl_HookPsuInit pf te junk s = Some (Status, t) \<and> Status \<noteq> XFSBL_SUCCESS \<longrightarrow>
      fst (psu_first_half te s) \<noteq> 0 \<and>
      (\<exists>St u. init_clocks pf te junk (hold_reset pf GPIO_MIO31_MASK (hold_reset pf GPIO_MIO30_MASK (snd (psu_first_half te s)))) = Some (St, u) \<and>
         St \<noteq> XFSBL_SUCCESS \<and> Status = XFSBL_PSU_INIT_FAILED + St)"
    using TPSU_failure [of pf te junk s]
    by (fastforce simp: XFsbl_HookPsuInit_def TE_XFsbl_HookPsuInit_def split: if_splits)
  show "XFsbl_BoardInit pf te s = Some (Status, t) \<longrightarrow> Status = XFSBL_SUCCESS"
    by (auto simp: XFsbl_BoardInit_def)
qed

section \<open>An example\<close>

text \<open>A board on which every transfer succeeds; \<open>ok\<close> is what the generated functions return.\<close>

definition demo_te_board :: "u32 \<Rightarrow> 's te_board" where
  "demo_te_board ok =
     \<lparr>te_IicLookup = True, te_IicCfgInitialize = \<lambda>s. (XST_SUCCESS, s), te_IicSetSClk = \<lambda>_ s. s, te_IicSend = \<lambda>_ _ s. (XST_SUCCESS, s),
      te_IicRecv = \<lambda>_ s. (Some 0, s), te_IicBusIsBusy = \<lambda>s. (False, s), te_psu_mio_init_data = \<lambda>s. (ok, s),
      te_psu_peripherals_pre_init_data = \<lambda>s. (ok, s), te_psu_pll_init_data = \<lambda>s. (ok, s), te_psu_clock_init_data = \<lambda>s. (ok, s),
      te_psu_ddr_init_data = \<lambda>s. (ok, s), te_psu_ddr_phybringup_data = \<lambda>s. (ok, s), te_psu_peripherals_init_data = \<lambda>s. (ok, s),
      te_psu_resetin_init_data = \<lambda>s. (ok, s), te_serdes_fixcal_code = \<lambda>s. (ok, s), te_psu_serdes_init_data = \<lambda>s. (ok, s),
      te_psu_resetout_init_data = \<lambda>s. (ok, s), te_psu_peripherals_powerdwn_data = \<lambda>s. (ok, s), te_psu_afi_config = \<lambda>s. (ok, s),
      te_psu_ddr_qos_init_data = \<lambda>s. s, te_lanes = []\<rparr>"

lemma demo_iic [simp]:
  "iic_idle (demo_te_board ok) s = Some s" "iic_write8 (demo_te_board ok) c a v s = Some (XST_SUCCESS, s)"
  "iic_read8 (demo_te_board ok) c a d s = Some (XST_SUCCESS, 0, s)" "iic_init (demo_te_board ok) s = (XST_SUCCESS, s)"
proof -
  show i: "iic_idle (demo_te_board ok) s = Some s" for s :: 'a by (simp add: iic_idle_def demo_te_board_def do_until.simps)
  show "iic_write8 (demo_te_board ok) c a v s = Some (XST_SUCCESS, s)" "iic_read8 (demo_te_board ok) c a d s = Some (XST_SUCCESS, 0, s)"
    "iic_init (demo_te_board ok) s = (XST_SUCCESS, s)"
    using i by (simp_all add: iic_write8_def iic_read8_def iic_init_def) (simp_all add: demo_te_board_def)
qed

lemma demo_chip [simp]:
  "chip_put (demo_te_board ok) c a v s = Some s" "chip_put_mask (demo_te_board ok) junk c a v m s = Some s"
  by (simp_all add: chip_put_def chip_put_mask_def iic_write8_mask_def)

lemma demo_write_regs [simp]: "write_regs (demo_te_board ok) junk c regs s = Some s"
  by (induction regs) auto

lemma demo_read_until [simp]: "ok_value 0 \<Longrightarrow> read_until (demo_te_board ok) stop ok_value c a d s = Some (XST_SUCCESS, 0, s)"
  by (simp add: read_until.simps)

lemma demo_clocks: "pf_usleep pf = (\<lambda>_ s. s) \<Longrightarrow> init_clocks pf (demo_te_board ok) junk s = Some (XFSBL_SUCCESS, s)"
  by (simp add: init_clocks_def on_success_def si5338_version_def si5338_init_def si5338_status_wait_def start_pll_def use_calibration_def)

lemma demo_psu_halves:
  "psu_first_half (demo_te_board ok) s = (1 AND ok, s)"
  "psu_second_half pf (demo_te_board ok) (1, s) = (1 AND ok, update_reg pf 0xFD5F0018 (\<lambda>RegVal. (RegVal AND NOT 0x8000001F) OR (0x8000001F AND 0x8000001F)) s)"
  by (simp_all add: psu_first_half_def psu_second_half_def init_serdes_def demo_te_board_def psu_and_def Let_def and.assoc)

theorem psu_failure_unreported_witness:
  "fst (psu_first_half (demo_te_board 0) (\<lambda>_ :: u64. 0 :: u32, \<lambda>_. 0)) = 0 \<and>
   XFsbl_HookPsuInit demo_platform (demo_te_board 0) 0 (\<lambda>_. 0, \<lambda>_. 0) = Some (XFSBL_SUCCESS, (\<lambda>_. 0)(AMS_PS_SYSMON_ANALOG_BUS := 0x3210), \<lambda>_. 0)"
  using psu_failure_unreported [of "demo_te_board 0" "(\<lambda>_. 0, \<lambda>_. 0)" demo_platform 0] by (auto simp add: demo_psu_halves)

end
