(* ===== verification/Fsbl_Init.thy ===== *)
theory Fsbl_Init
  imports Boot_Header Handoff Te_Board
begin

text \<open>
  The first stage of the loader (\<open>xfsbl_initialization.c\<close>): why the processor was reset, the configuration of the
  system, which processor the loader runs on, the initialisation of memory for its ECC, the board, and the
  detection of a watchdog reset of the loader itself.
\<close>

section \<open>The environment\<close>

text \<open>
  The affinity register of the processor, the registration of the exception handlers, the caches and the
  translation tables; \<open>ie_DdrInit\<close> is \<open>XFsbl_DdrInit\<close> where the design has dynamic DDR, \<open>ie_ddr_end\<close> the last address
  of the lower DDR memory, \<open>ie_hi_ddr\<close> the first and the last one of the upper memory, if any. \<open>ie_junk\<close> is what the
  byte variables of the board's code hold before they are written.
\<close>

record 's init_env =
  ie_MPIDR_EL1 :: u64
  ie_RegisterHandlers :: "'s \<Rightarrow> 's"
  ie_DCacheFlush :: "'s \<Rightarrow> 's"
  ie_SetTlbAttributes :: "u64 \<Rightarrow> u64 \<Rightarrow> 's \<Rightarrow> 's"
  ie_ps_ddr :: bool
  ie_DdrInit :: "('s \<Rightarrow> (u32 \<times> 's) option) option"
  ie_has_ecc :: bool
  ie_ddr_end :: u64
  ie_hi_ddr :: "(u64 \<times> u64) option"
  ie_junk :: u8
  ie_board :: "'s te_board"

section \<open>The reset reason\<close>

abbreviation (input) CRL_APB_RESET_REASON :: u64 where "CRL_APB_RESET_REASON \<equiv> 0xFF5E0220"
abbreviation (input) CRL_APB_RESET_REASON_PSONLY_RESET_REQ_MASK :: u32 where "CRL_APB_RESET_REASON_PSONLY_RESET_REQ_MASK \<equiv> 0x8"
abbreviation (input) CRL_APB_RESET_REASON_PMU_SYS_RESET_MASK :: u32 where "CRL_APB_RESET_REASON_PMU_SYS_RESET_MASK \<equiv> 0x4"
abbreviation (input) PMU_GLOBAL_GLOB_GEN_STORAGE4 :: u64 where "PMU_GLOBAL_GLOB_GEN_STORAGE4 \<equiv> 0xFFD80040"
abbreviation (input) XFSBL_APU_RESET_MASK :: u32 where "XFSBL_APU_RESET_MASK \<equiv> 0x10000"
abbreviation (input) XFSBL_APU_RESET_BIT :: nat where "XFSBL_APU_RESET_BIT \<equiv> 16"
abbreviation (input) XFSBL_SYSTEM_RESET :: u32 where "XFSBL_SYSTEM_RESET \<equiv> 0"

text \<open>
  The initialised data of the loader is saved in a second section, and comes back from there when only the
  processor was reset. The machine and the variables that are not initialised are not in it.
\<close>

definition XFsbl_RestoreData :: "'s XFsblPs \<Rightarrow> 's XFsblPs \<Rightarrow> 's XFsblPs" where
  "XFsbl_RestoreData saved I =
     saved\<lparr>machine := machine I, EfusePpkKey := EfusePpkKey I, SecureAes_of := SecureAes_of I, BootIv := BootIv I,
       ATFHandoffParams_of := ATFHandoffParams_of I\<rparr>"

text \<open>The reason, the instance and the saved data.\<close>

definition XFsbl_GetResetReason :: "'s platform \<Rightarrow> 's XFsblPs \<Rightarrow> 's XFsblPs \<Rightarrow> u32 \<times> 's XFsblPs \<times> 's XFsblPs" where
  "XFsbl_GetResetReason pf saved I =
     (case In32 (pf_bus pf) (machine I) CRL_APB_RESET_REASON of (Val, s) \<Rightarrow>
        if Val AND CRL_APB_RESET_REASON_PSONLY_RESET_REQ_MASK \<noteq> 0 then
          let I = I\<lparr>machine := write_reg pf CRL_APB_RESET_REASON CRL_APB_RESET_REASON_PSONLY_RESET_REQ_MASK s\<rparr>
          in (XFSBL_PS_ONLY_RESET, I, I)
        else
          case In32 (pf_bus pf) s PMU_GLOBAL_GLOB_GEN_STORAGE4 of (v, s) \<Rightarrow>
            let I = I\<lparr>machine := s\<rparr>
            in if drop_bit XFSBL_APU_RESET_BIT (v AND XFSBL_APU_RESET_MASK) = XFSBL_SYSTEM_RESET
               then (XFSBL_SYSTEM_RESET, I, I)
               else (XFSBL_MASTER_ONLY_RESET, XFsbl_RestoreData saved I, saved))"

section \<open>The system\<close>

abbreviation (input) CSU_PCAP_PROG :: u64 where "CSU_PCAP_PROG \<equiv> 0xFFCA3000"
abbreviation (input) CSU_PCAP_PROG_PCFG_PROG_B_MASK :: u32 where "CSU_PCAP_PROG_PCFG_PROG_B_MASK \<equiv> 0x1"
abbreviation (input) PMU_GLOBAL_PS_CNTRL :: u64 where "PMU_GLOBAL_PS_CNTRL \<equiv> 0xFFD80004"
abbreviation (input) PMU_GLOBAL_PS_CNTRL_PROG_ENABLE_MASK :: u32 where "PMU_GLOBAL_PS_CNTRL_PROG_ENABLE_MASK \<equiv> 0x2"
abbreviation (input) PMU_GLOBAL_PS_CNTRL_PROG_GATE_MASK :: u32 where "PMU_GLOBAL_PS_CNTRL_PROG_GATE_MASK \<equiv> 0x1"
abbreviation (input) PMU_GLOBAL_AIB_CNTRL :: u64 where "PMU_GLOBAL_AIB_CNTRL \<equiv> 0xFFD80600"
abbreviation (input) PMU_GLOBAL_AIB_STATUS :: u64 where "PMU_GLOBAL_AIB_STATUS \<equiv> 0xFFD80604"
abbreviation (input) XFSBL_ERROR_PL_POWER_UP :: u32 where "XFSBL_ERROR_PL_POWER_UP \<equiv> 0x3E"
abbreviation (input) IOU_SLCR_SD_CDN_MASKS :: u32 where "IOU_SLCR_SD_CDN_MASKS \<equiv> 0x10001"

definition XFsbl_EnableProgToPL :: "'s platform \<Rightarrow> 's \<Rightarrow> 's" where
  "XFsbl_EnableProgToPL pf s =
     update_reg pf PMU_GLOBAL_PS_CNTRL
       (\<lambda>RegVal. (RegVal AND NOT PMU_GLOBAL_PS_CNTRL_PROG_GATE_MASK) OR PMU_GLOBAL_PS_CNTRL_PROG_ENABLE_MASK)
       (write_reg pf CSU_PCAP_PROG CSU_PCAP_PROG_PCFG_PROG_B_MASK s)"

text \<open>\<open>reg = In32(STATUS); while (reg) { Out32(CNTRL, 0); reg = In32(STATUS); }\<close>\<close>

definition remove_isolation :: "'s platform \<Rightarrow> 's \<Rightarrow> 's option" where
  "remove_isolation pf s =
     (case In32 (pf_bus pf) s PMU_GLOBAL_AIB_STATUS of (reg, s) \<Rightarrow>
        if reg = 0 then Some s
        else map_option snd
               (do_until (\<lambda>s. In32 (pf_bus pf) (write_reg pf PMU_GLOBAL_AIB_CNTRL 0 s) PMU_GLOBAL_AIB_STATUS) (\<lambda>reg. reg = 0) s))"

text \<open>
  Before the configuration: the programmable logic is powered up on old silicon, or freed after a reset of the
  processing system alone. The branch for a reset of the processor alone comes second and is never taken.
\<close>

definition power_up_pl :: "'s platform \<Rightarrow> u32 \<Rightarrow> 's \<Rightarrow> (u32 \<times> 's) option" where
  "power_up_pl pf Reason s =
     (if Reason \<noteq> XFSBL_PS_ONLY_RESET then
        if pf_PSVersion pf \<le> XPS_VERSION_2 then
          on_success (XFsbl_PowerUpIsland pf PMU_GLOBAL_PWR_STATE_PL_MASK s) (\<lambda>_. XFSBL_ERROR_PL_POWER_UP) (\<lambda>s.
            on_success (XFsbl_IsolationRestore pf PMU_GLOBAL_REQ_ISO_INT_EN_PL_NONPCAP_MASK s)
              (\<lambda>_. XFSBL_ERROR_PMU_GLOBAL_REQ_ISO) (\<lambda>s. Some (XFSBL_SUCCESS, s)))
        else Some (XFSBL_SUCCESS, s)
      else if Reason = XFSBL_MASTER_ONLY_RESET then Some (XFSBL_SUCCESS, s)
      else map_option (\<lambda>s. (XFSBL_SUCCESS, s)) (remove_isolation pf s))"

abbreviation (input) BLOCK_SIZE_A53_64 :: u64 where "BLOCK_SIZE_A53_64 \<equiv> 0x200000"
abbreviation (input) NUM_BLOCKS_A53_64 :: nat where "NUM_BLOCKS_A53_64 \<equiv> 0x400"
abbreviation (input) BLOCK_SIZE_A53_64_HIGH :: u64 where "BLOCK_SIZE_A53_64_HIGH \<equiv> 0x40000000"
abbreviation (input) ATTRIB_MEMORY_A53_64 :: u64 where "ATTRIB_MEMORY_A53_64 \<equiv> 0x705"
abbreviation (input) ATTRIB_RESERVED_A53 :: u64 where "ATTRIB_RESERVED_A53 \<equiv> 0x0"

text \<open>The blocks of the DDR memory whose attributes are set.\<close>

definition ddr_blocks :: "'s init_env \<Rightarrow> u64 list" where
  "ddr_blocks ie =
     map (\<lambda>BlockNum. of_nat BlockNum * BLOCK_SIZE_A53_64) [0..<NUM_BLOCKS_A53_64] @
     (case ie_hi_ddr ie of
        None \<Rightarrow> []
      | Some (start, end_) \<Rightarrow>
          map (\<lambda>BlockNum. start + of_nat BlockNum * BLOCK_SIZE_A53_64_HIGH)
            [0..<unat ((end_ - start + 1) div BLOCK_SIZE_A53_64_HIGH)])"

definition XFsbl_MarkDdrAsReserved :: "'s init_env \<Rightarrow> bool \<Rightarrow> 's \<Rightarrow> 's" where
  "XFsbl_MarkDdrAsReserved ie Cond s =
     (if \<not> ie_ps_ddr ie then s
      else
        let Attrib = (if Cond then ATTRIB_RESERVED_A53 else ATTRIB_MEMORY_A53_64)
        in ie_DCacheFlush ie (fold (\<lambda>a. ie_SetTlbAttributes ie a Attrib) (ddr_blocks ie) s))"

definition XFsbl_SystemInit :: "'s platform \<Rightarrow> 's init_env \<Rightarrow> u32 \<Rightarrow> 's \<Rightarrow> (u32 \<times> 's) option" where
  "XFsbl_SystemInit pf ie Reason s =
     on_success (power_up_pl pf Reason s) (\<lambda>Status. Status) (\<lambda>s.
       on_success (XFsbl_HookPsuInit pf (ie_board ie) (ie_junk ie) s) (\<lambda>Status. Status) (\<lambda>s.
         on_success (case ie_DdrInit ie of Some f \<Rightarrow> if ie_ps_ddr ie then f s else Some (XFSBL_SUCCESS, s)
                     | None \<Rightarrow> Some (XFSBL_SUCCESS, s))
           (\<lambda>Status. Status) (\<lambda>s.
           Some (XFSBL_SUCCESS, write_reg pf IOU_SLCR_SD_CDN_CTRL IOU_SLCR_SD_CDN_MASKS (XFsbl_MarkDdrAsReserved ie False s)))))"

section \<open>The processor\<close>

abbreviation (input) XFSBL_CLUSTER_ID_MASK :: u64 where "XFSBL_CLUSTER_ID_MASK \<equiv> 0xF00"
abbreviation (input) XFSBL_A53_PROCESSOR :: u64 where "XFSBL_A53_PROCESSOR \<equiv> 0x0"
abbreviation (input) XFSBL_R5_PROCESSOR :: u64 where "XFSBL_R5_PROCESSOR \<equiv> 0x100"
abbreviation (input) XFSBL_R5_LOVEC_VALUE :: u32 where "XFSBL_R5_LOVEC_VALUE \<equiv> 0xEAFEFFFE"
abbreviation (input) XIH_INVALID_EXEC_ST :: u32 where "XIH_INVALID_EXEC_ST \<equiv> 0xFFFF"
abbreviation (input) XFSBL_ERROR_UNSUPPORTED_CLUSTER_ID :: u32 where "XFSBL_ERROR_UNSUPPORTED_CLUSTER_ID \<equiv> 0x49"
abbreviation (input) XFSBL_RUNNING_ON_A53 :: u32 where "XFSBL_RUNNING_ON_A53 \<equiv> 0x1"
abbreviation (input) XFSBL_RUNNING_ON_R5_0 :: u32 where "XFSBL_RUNNING_ON_R5_0 \<equiv> 0x2"
abbreviation (input) XFSBL_RUNNING_ON_R5_L :: u32 where "XFSBL_RUNNING_ON_R5_L \<equiv> 0x3"
abbreviation (input) XFSBL_STATE_PROC_SHIFT :: nat where "XFSBL_STATE_PROC_SHIFT \<equiv> 1"
abbreviation (input) XFSBL_STATE_PROC_INFO_MASK :: u32 where "XFSBL_STATE_PROC_INFO_MASK \<equiv> 0x6"

text \<open>On QEMU the numbers of the R5 processors are mapped to those of the silicon; the second one is refused.\<close>

definition remap_cluster :: "'s platform \<Rightarrow> u64 \<Rightarrow> u64 option" where
  "remap_cluster pf ClusterId =
     (if pf_Platform_info pf = XPLAT_ZYNQ_ULTRA_MPQEMU then
        if ClusterId = 0x80000004 then Some 0xC0000100 else if ClusterId = 0x80000005 then None else Some ClusterId
      else Some ClusterId)"

text \<open>The processor, its execution state, and its number for the power management unit.\<close>

definition identify_cpu :: "'s platform \<Rightarrow> u64 \<Rightarrow> 's \<Rightarrow> (u32 \<times> u32 \<times> u32) option \<times> 's" where
  "identify_cpu pf ClusterId s =
     (if ClusterId AND XFSBL_CLUSTER_ID_MASK = XFSBL_A53_PROCESSOR
      then (Some (XIH_PH_ATTRB_DEST_CPU_A53_0, XIH_PH_ATTRB_A53_EXEC_ST_AA64, push_bit XFSBL_STATE_PROC_SHIFT XFSBL_RUNNING_ON_A53), s)
      else if ClusterId AND XFSBL_CLUSTER_ID_MASK = XFSBL_R5_PROCESSOR then
        case In32 (pf_bus pf) s RPU_RPU_GLBL_CNTL of (RegValue, s) \<Rightarrow>
          (Some (if RegValue AND RPU_RPU_GLBL_CNTL_SLSPLIT_MASK = 0
                 then (XIH_PH_ATTRB_DEST_CPU_R5_L, XIH_INVALID_EXEC_ST, push_bit XFSBL_STATE_PROC_SHIFT XFSBL_RUNNING_ON_R5_L)
                 else (XIH_PH_ATTRB_DEST_CPU_R5_0, XIH_INVALID_EXEC_ST, push_bit XFSBL_STATE_PROC_SHIFT XFSBL_RUNNING_ON_R5_0)), s)
      else (None, s))"

text \<open>The low vectors of an R5.\<close>

definition write_vectors :: "'s platform \<Rightarrow> 's init_env \<Rightarrow> 's \<Rightarrow> 's" where
  "write_vectors pf ie s =
     ie_DCacheFlush ie (fold (\<lambda>Index. write_reg pf Index XFSBL_R5_LOVEC_VALUE) [0, 4, 8, 12, 16, 20, 24, 28] s)"

text \<open>The name that is printed, for which registers are read.\<close>

definition device_name :: "'s platform \<Rightarrow> 's \<Rightarrow> string \<times> 's" where
  "device_name pf s =
     (let (name, s) = XFsbl_GetSiliconIdName pf s; (eng, s) = XFsbl_GetProcEng pf s in (''XCZU'' @ name @ eng, s))"

definition XFsbl_ProcessorInit :: "'s platform \<Rightarrow> 's init_env \<Rightarrow> 's XFsblPs \<Rightarrow> u32 \<times> 's XFsblPs" where
  "XFsbl_ProcessorInit pf ie I =
     (case remap_cluster pf (ie_MPIDR_EL1 ie) of
        None \<Rightarrow> (XFSBL_ERROR_UNSUPPORTED_CLUSTER_ID, I)
      | Some ClusterId \<Rightarrow>
          (case identify_cpu pf ClusterId (machine I) of
             (None, s) \<Rightarrow> (XFSBL_ERROR_UNSUPPORTED_CLUSTER_ID, I\<lparr>machine := s\<rparr>)
           | (Some (Cpu, ExecState, FsblProcType), s) \<Rightarrow>
               let s = (if Cpu = XIH_PH_ATTRB_DEST_CPU_A53_0 then s else write_vectors pf ie s);
                   s = update_reg pf PMU_GLOBAL_GLOB_GEN_STORAGE5 (\<lambda>v. FsblProcType OR (v AND NOT XFSBL_STATE_PROC_INFO_MASK)) s;
                   (name, s) = device_name pf s;
                   s = ie_RegisterHandlers ie s
               in (XFSBL_SUCCESS, I\<lparr>ProcessorID := Cpu, A53ExecState := ExecState, machine := s\<rparr>)))"

text \<open>The registers cleared when the processor alone was reset, in the order of the code.\<close>

definition gic_bank :: "nat \<Rightarrow> u64 list" where
  "gic_bank n = [0xF9010180 + 4 * of_nat n, 0xF9010280 + 4 * of_nat n, 0xF9010380 + 4 * of_nat n]"

definition XFsbl_ClearPendingInterrupts :: "'s platform \<Rightarrow> 's \<Rightarrow> 's" where
  "XFsbl_ClearPendingInterrupts pf s =
     (let s = fold (\<lambda>a. write_reg pf a 0xFFFFFFFF) (concat (map gic_bank [0..<6])) s;
          (RegVal, s) = In32 (pf_bus pf) s 0xF902000C;
          s = write_reg pf 0xF9020010 RegVal s
      in fold (\<lambda>a. write_reg pf a 0xFFFFFFFF) [0xF9010F10, 0xF9010F14, 0xF9010F18, 0xF9010F1C] s)"

section \<open>Memory\<close>

abbreviation (input) XFSBL_PS_DDR_INIT_START_ADDRESS :: u64 where "XFSBL_PS_DDR_INIT_START_ADDRESS \<equiv> 0x0"
abbreviation (input) XFSBL_ERROR_DDR_ECC_INIT :: u32 where "XFSBL_ERROR_DDR_ECC_INIT \<equiv> 0x4C"

definition XFsbl_DdrEccInit :: "'s platform \<Rightarrow> 's init_env \<Rightarrow> 's \<Rightarrow> (u32 \<times> 's) option" where
  "XFsbl_DdrEccInit pf ie s =
     (if \<not> ie_has_ecc ie then Some (XFSBL_SUCCESS, s)
      else
        on_success (XFsbl_EccInit pf XFSBL_PS_DDR_INIT_START_ADDRESS (ie_ddr_end ie - XFSBL_PS_DDR_INIT_START_ADDRESS + 1) s)
          (\<lambda>_. XFSBL_ERROR_DDR_ECC_INIT) (\<lambda>s.
          case ie_hi_ddr ie of
            None \<Rightarrow> Some (XFSBL_SUCCESS, s)
          | Some (start, end_) \<Rightarrow>
              on_success (XFsbl_EccInit pf start (end_ - start + 1) s) (\<lambda>_. XFSBL_ERROR_DDR_ECC_INIT) (\<lambda>s. Some (XFSBL_SUCCESS, s))))"

text \<open>On the A53 the tightly coupled memory is left alone, as \<open>XFSBL_A53_TCM_ECC\<close> is not defined.\<close>

definition XFsbl_TcmInit :: "'s platform \<Rightarrow> 's XFsblPs \<Rightarrow> (u32 \<times> 's XFsblPs) option" where
  "XFsbl_TcmInit pf I =
     (if ProcessorID I = XIH_PH_ATTRB_DEST_CPU_A53_0 then Some (XFSBL_SUCCESS, I)
      else XFsbl_TcmEccInit pf (ProcessorID I) I)"

section \<open>The watchdog of the loader\<close>

abbreviation (input) XFSBL_RUNNING :: u32 where "XFSBL_RUNNING \<equiv> 0xFFFF"
abbreviation (input) PMU_GLOBAL_ERROR_STATUS_1 :: u64 where "PMU_GLOBAL_ERROR_STATUS_1 \<equiv> 0xFFD80530"
abbreviation (input) PMU_GLOBAL_ERROR_STATUS_1_LPD_SWDT_MASK :: u32 where "PMU_GLOBAL_ERROR_STATUS_1_LPD_SWDT_MASK \<equiv> 0x1000"
abbreviation (input) XFSBL_ERROR_SYSTEM_WDT_RESET :: u32 where "XFSBL_ERROR_SYSTEM_WDT_RESET \<equiv> 0x9"

text \<open>A reset by the watchdog while the loader was marked as running; otherwise it is marked now.\<close>

definition XFsbl_ResetValidation :: "'s platform \<Rightarrow> 's \<Rightarrow> u32 \<times> 's" where
  "XFsbl_ResetValidation pf s =
     (let (FsblErrorStatus, s) = In32 (pf_bus pf) s XFSBL_ERROR_STATUS_REGISTER_OFFSET;
          (ResetReasonValue, s) = In32 (pf_bus pf) s CRL_APB_RESET_REASON;
          pmu_reset = (ResetReasonValue AND CRL_APB_RESET_REASON_PMU_SYS_RESET_MASK = CRL_APB_RESET_REASON_PMU_SYS_RESET_MASK);
          (ErrStatusRegValue, s) = (if pmu_reset then In32 (pf_bus pf) s PMU_GLOBAL_ERROR_STATUS_1 else (0, s))
      in if pmu_reset \<and> ErrStatusRegValue AND PMU_GLOBAL_ERROR_STATUS_1_LPD_SWDT_MASK = PMU_GLOBAL_ERROR_STATUS_1_LPD_SWDT_MASK \<and>
            FsblErrorStatus = XFSBL_RUNNING
         then (XFSBL_ERROR_SYSTEM_WDT_RESET,
               case pf_wdt pf of Some XFSBL_WDT_MASK \<Rightarrow> write_reg pf PMU_GLOBAL_ERROR_STATUS_1 XFSBL_WDT_MASK s | None \<Rightarrow> s)
         else (XFSBL_SUCCESS,
               if FsblErrorStatus \<noteq> XFSBL_RUNNING then write_reg pf XFSBL_ERROR_STATUS_REGISTER_OFFSET XFSBL_RUNNING s else s))"

section \<open>The first stage\<close>

abbreviation (input) CSU_AES_RESET :: u64 where "CSU_AES_RESET \<equiv> 0xFFCA1010"
abbreviation (input) CSU_SHA_RESET :: u64 where "CSU_SHA_RESET \<equiv> 0xFFCA2004"

definition reset_engines :: "'s platform \<Rightarrow> 's \<Rightarrow> 's" where
  "reset_engines pf s = write_reg pf CSU_SHA_RESET 0x1 (write_reg pf CSU_AES_RESET 0x1 s)"

text \<open>After the processor is known: memory, board and watchdog, unless the processor alone was reset.\<close>

definition init_memory_and_board :: "'s platform \<Rightarrow> 's init_env \<Rightarrow> 's XFsblPs \<Rightarrow> (u32 \<times> 's XFsblPs) option" where
  "init_memory_and_board pf ie I =
     on_success (XFsbl_TcmInit pf I) (\<lambda>Status. Status) (\<lambda>I.
       on_success (on_machine (XFsbl_DdrEccInit pf ie) I) (\<lambda>Status. Status) (\<lambda>I.
         on_success (on_machine (XFsbl_BoardInit pf (ie_board ie)) I) (\<lambda>Status. Status)
           (on_machine (\<lambda>s. Some (XFsbl_ResetValidation pf s)))))"

definition init_system :: "'s platform \<Rightarrow> 's init_env \<Rightarrow> 's XFsblPs \<Rightarrow> (u32 \<times> 's XFsblPs) option" where
  "init_system pf ie I =
     on_success (if ResetReason I \<noteq> XFSBL_MASTER_ONLY_RESET then on_machine (XFsbl_SystemInit pf ie (ResetReason I)) I
                 else Some (XFSBL_SUCCESS, I)) (\<lambda>Status. Status) (\<lambda>I.
       on_success (Some (XFsbl_ProcessorInit pf ie (with_machine (\<lambda>s. snd (device_name pf (reset_engines pf s))) I))) (\<lambda>Status. Status) (\<lambda>I.
         if ResetReason I = XFSBL_MASTER_ONLY_RESET then
           Some (XFSBL_SUCCESS, if ProcessorID I = XIH_PH_ATTRB_DEST_CPU_A53_0 then with_machine (XFsbl_ClearPendingInterrupts pf) I else I)
         else init_memory_and_board pf ie I))"

text \<open>The second component of the result is the saved data.\<close>

definition XFsbl_Initialize ::
  "'s platform \<Rightarrow> 's init_env \<Rightarrow> 's XFsblPs \<Rightarrow> 's XFsblPs \<Rightarrow> (u32 \<times> 's XFsblPs \<times> 's XFsblPs) option" where
  "XFsbl_Initialize pf ie saved I =
     (case XFsbl_GetResetReason pf saved (with_machine (reset_engines pf) I) of (Reason, I, saved) \<Rightarrow>
        let I = I\<lparr>ResetReason := Reason\<rparr>;
            I = (if Reason = XFSBL_PS_ONLY_RESET then with_machine (XFsbl_EnableProgToPL pf) I else I)
        in map_option (\<lambda>(Status, I). (Status, saved, I)) (init_system pf ie I))"

end
