(* ===== verification/Fsbl_Main.thy ===== *)
theory Fsbl_Main
  imports Fsbl_Init
begin

text \<open>
  The stages of the loader (\<open>xfsbl_main.c\<close>): \<open>main\<close> runs one stage after the other, loads the partitions in the third
  one and hands over in the fourth; an error is written to the error status register and the loader falls back to
  the next image of the flash. The stages are compared with the straight line they are meant to be.
\<close>

section \<open>The end of the loader\<close>

abbreviation (input) CRL_APB_RESET_CTRL :: u64 where "CRL_APB_RESET_CTRL \<equiv> 0xFF5E0218"
abbreviation (input) CRL_APB_RESET_CTRL_SOFT_RESET_MASK :: u32 where "CRL_APB_RESET_CTRL_SOFT_RESET_MASK \<equiv> 0x10"
abbreviation (input) CRL_APB_RPLL_CTRL :: u64 where "CRL_APB_RPLL_CTRL \<equiv> 0xFF5E0030"
abbreviation (input) CRL_APB_RPLL_CTRL_BYPASS_MASK :: u32 where "CRL_APB_RPLL_CTRL_BYPASS_MASK \<equiv> 0x8"
abbreviation (input) XFSBL_R5_USAGE_STATUS_REG :: u64 where "XFSBL_R5_USAGE_STATUS_REG \<equiv> 0xFFD80040"
abbreviation (input) XFSBL_R5_0_STATUS_MASK :: u32 where "XFSBL_R5_0_STATUS_MASK \<equiv> 0x2"
abbreviation (input) XFSBL_R5_1_STATUS_MASK :: u32 where "XFSBL_R5_1_STATUS_MASK \<equiv> 0x4"
abbreviation (input) XFSBL_ERROR_STAGE_1 :: u32 where "XFSBL_ERROR_STAGE_1 \<equiv> 0x0"
abbreviation (input) XFSBL_ERROR_STAGE_2 :: u32 where "XFSBL_ERROR_STAGE_2 \<equiv> 0x2000"
abbreviation (input) XFSBL_ERROR_STAGE_3 :: u32 where "XFSBL_ERROR_STAGE_3 \<equiv> 0x4000"
abbreviation (input) XFSBL_ERROR_STAGE_4 :: u32 where "XFSBL_ERROR_STAGE_4 \<equiv> 0x6000"

text \<open>
  \<open>main\<close> never returns: the loader has left to what it loaded or sleeps, it waits for the reset it has asked for, or
  it loops for ever.
\<close>

datatype 's fsbl_end = Left fsbl_exit "'s XFsblPs" | Soft_reset "'s XFsblPs" | Spins "'s XFsblPs"

definition XFsbl_UpdateMultiBoot :: "'s platform \<Rightarrow> u32 \<Rightarrow> 's XFsblPs \<Rightarrow> 's fsbl_end" where
  "XFsbl_UpdateMultiBoot pf MultiBootValue I =
     (let I = with_machine (write_reg pf CSU_CSU_MULTI_BOOT MultiBootValue) I;
          I = (if pf_PSVersion pf = XPS_VERSION_1
               then with_machine (update_reg pf CRL_APB_RPLL_CTRL (\<lambda>v. v OR CRL_APB_RPLL_CTRL_BYPASS_MASK)) I else I)
      in if ResetReason I \<noteq> XFSBL_MASTER_ONLY_RESET
         then Soft_reset (with_machine (update_reg pf CRL_APB_RESET_CTRL (\<lambda>v. v OR CRL_APB_RESET_CTRL_SOFT_RESET_MASK)) I)
         else Spins I)"

definition XFsbl_FallBack :: "'s platform \<Rightarrow> 's XFsblPs \<Rightarrow> 's fsbl_end" where
  "XFsbl_FallBack pf I =
     (let I = with_machine (XFsbl_StopWdt pf (ResetReason I)) I;
          (RegValue, s) = In32 (pf_bus pf) (machine I) CSU_CSU_MULTI_BOOT
      in XFsbl_UpdateMultiBoot pf (RegValue + 1) (I\<lparr>machine := s\<rparr>))"

definition falls_back :: "u32 \<Rightarrow> bool" where
  "falls_back BootMode \<longleftrightarrow> BootMode \<in> {XFSBL_QSPI24_BOOT_MODE, XFSBL_QSPI32_BOOT_MODE, XFSBL_NAND_BOOT_MODE, XFSBL_SD0_BOOT_MODE,
     XFSBL_EMMC_BOOT_MODE, XFSBL_SD1_BOOT_MODE, XFSBL_SD1_LS_BOOT_MODE}"

definition leave_for_good :: "'s platform \<Rightarrow> 's XFsblPs \<Rightarrow> 's fsbl_end" where
  "leave_for_good pf I = (case XFsbl_HandoffExit pf 0 XFSBL_NO_HANDOFFEXIT (machine I) of (x, s) \<Rightarrow> Left x (I\<lparr>machine := s\<rparr>))"

definition XFsbl_ErrorLockDown :: "'s platform \<Rightarrow> u32 \<Rightarrow> 's XFsblPs \<Rightarrow> 's fsbl_end" where
  "XFsbl_ErrorLockDown pf ErrorStatus I =
     (let I = (with_machine (write_reg pf XFSBL_ERROR_STATUS_REGISTER_OFFSET ErrorStatus) I)\<lparr>ErrorCode := ErrorStatus\<rparr>;
          (v, s) = In32 (pf_bus pf) (machine I) CRL_APB_BOOT_MODE_USER;
          I = I\<lparr>machine := s\<rparr>
      in if falls_back (v AND CRL_APB_BOOT_MODE_USER_BOOT_MODE_MASK) then XFsbl_FallBack pf I else leave_for_good pf I)"

section \<open>The stages\<close>

text \<open>The cores the partition uses are marked for the power management unit.\<close>

definition XFsbl_MarkUsedRPUCores :: "'s platform \<Rightarrow> u32 \<Rightarrow> 's XFsblPs \<Rightarrow> 's XFsblPs" where
  "XFsbl_MarkUsedRPUCores pf PartitionNum I =
     (let DestCpu = XFsbl_GetDestinationCpu (partition I PartitionNum);
          (RegValue, s) = In32 (pf_bus pf) (machine I) XFSBL_R5_USAGE_STATUS_REG;
          mark = (\<lambda>bits. write_reg pf XFSBL_R5_USAGE_STATUS_REG (RegValue OR bits) s)
      in I\<lparr>machine :=
           if DestCpu = XIH_PH_ATTRB_DEST_CPU_R5_0 \<or> DestCpu = XIH_PH_ATTRB_DEST_CPU_R5_L then mark XFSBL_R5_0_STATUS_MASK
           else if DestCpu = XIH_PH_ATTRB_DEST_CPU_R5_1 then mark XFSBL_R5_1_STATUS_MASK
           else if DestCpu = XIH_PH_ATTRB_DEST_CPU_NONE \<and>
                   (ProcessorID I = XIH_PH_ATTRB_DEST_CPU_R5_0 \<or> ProcessorID I = XIH_PH_ATTRB_DEST_CPU_R5_L)
           then mark XFSBL_R5_0_STATUS_MASK
           else s\<rparr>)"

datatype fsbl_stage = XFSBL_STAGE1 | XFSBL_STAGE2 | XFSBL_STAGE3 | XFSBL_STAGE4 | XFSBL_STAGE_ERR | XFSBL_STAGE_DEFAULT

text \<open>
  The local variables of \<open>main\<close>, the position in the handoff table that \<open>XFsbl_Handoff\<close> keeps for the early handoff,
  the saved data and the instance; and what the loader runs on, with the flag of the build for the early handoff.
\<close>

record 's fsbl =
  fs_Stage :: fsbl_stage
  fs_Status :: u32
  fs_PartitionNum :: u32
  fs_EarlyHandoff :: bool
  fs_IndexEarly :: u32
  fs_saved :: "'s XFsblPs"
  fs_inst :: "'s XFsblPs"

record ('s, 'h) loader =
  ld_pf :: "'s platform"
  ld_ie :: "'s init_env"
  ld_be :: "'s boot_env"
  ld_sx :: "('s, 'h) secure"
  ld_cfg :: fsbl_config
  ld_early :: bool

definition stage1 :: "('s, 'h) loader \<Rightarrow> 's fsbl \<Rightarrow> 's fsbl option" where
  "stage1 ld st =
     map_option (\<lambda>(Status, saved, I).
       let st = st\<lparr>fs_saved := saved, fs_inst := I\<rparr>
       in if Status \<noteq> XFSBL_SUCCESS then st\<lparr>fs_Status := Status + XFSBL_ERROR_STAGE_1, fs_Stage := XFSBL_STAGE_ERR\<rparr>
          else st\<lparr>fs_Status := Status, fs_Stage := XFSBL_STAGE2\<rparr>)
       (XFsbl_Initialize (ld_pf ld) (ld_ie ld) (fs_saved st) (fs_inst st))"

definition mark_all_cores :: "'s platform \<Rightarrow> 's XFsblPs \<Rightarrow> 's XFsblPs" where
  "mark_all_cores pf = with_machine (update_reg pf XFSBL_R5_USAGE_STATUS_REG (\<lambda>v. v OR (XFSBL_R5_0_STATUS_MASK OR XFSBL_R5_1_STATUS_MASK)))"

definition clear_all_cores :: "'s platform \<Rightarrow> 's XFsblPs \<Rightarrow> 's XFsblPs" where
  "clear_all_cores pf =
     with_machine (update_reg pf XFSBL_R5_USAGE_STATUS_REG (\<lambda>v. v AND NOT (XFSBL_R5_0_STATUS_MASK OR XFSBL_R5_1_STATUS_MASK)))"

definition stage2 :: "('s, 'h) loader \<Rightarrow> 's fsbl \<Rightarrow> 's fsbl option" where
  "stage2 ld st =
     map_option (\<lambda>(Status, I).
       if Status \<noteq> XFSBL_SUCCESS \<and> Status \<noteq> XFSBL_STATUS_JTAG
       then st\<lparr>fs_inst := I, fs_Status := Status + XFSBL_ERROR_STAGE_2, fs_Stage := XFSBL_STAGE_ERR\<rparr>
       else if Status = XFSBL_STATUS_JTAG
       then st\<lparr>fs_inst := mark_all_cores (ld_pf ld) I, fs_Status := Status, fs_Stage := XFSBL_STAGE4\<rparr>
       else st\<lparr>fs_PartitionNum := 1, fs_inst := clear_all_cores (ld_pf ld) I, fs_Status := Status, fs_Stage := XFSBL_STAGE3\<rparr>)
       (XFsbl_BootDeviceInitAndValidate (ld_pf ld) (ld_sx ld) (ld_be ld) (fs_inst st))"

text \<open>A partition outside the array of headers has no result.\<close>

definition load_partition :: "('s, 'h) loader \<Rightarrow> u32 \<Rightarrow> 's XFsblPs \<Rightarrow> (u32 \<times> 's XFsblPs) option" where
  "load_partition ld PartitionNum I =
     (if \<not> unat PartitionNum < length (PartitionHeader (ImageHeader_of I)) then None
      else XFsbl_PartitionLoad (ld_pf ld) (ld_sx ld) (ld_cfg ld) PartitionNum I)"

definition stage3 :: "('s, 'h) loader \<Rightarrow> 's fsbl \<Rightarrow> 's fsbl option" where
  "stage3 ld st =
     map_option (\<lambda>(Status, I).
       if Status \<noteq> XFSBL_SUCCESS
       then st\<lparr>fs_inst := I, fs_Status := Status + XFSBL_ERROR_STAGE_3, fs_Stage := XFSBL_STAGE_ERR\<rparr>
       else
         let I = XFsbl_MarkUsedRPUCores (ld_pf ld) (fs_PartitionNum st) I;
             early = XFsbl_CheckEarlyHandoff (ld_early ld) I (fs_PartitionNum st);
             st = st\<lparr>fs_inst := I, fs_Status := (if early then 1 else 0)\<rparr>
         in if fs_PartitionNum st < NoOfPartitions I - 1 then
              if early then st\<lparr>fs_EarlyHandoff := True, fs_Stage := XFSBL_STAGE4\<rparr>
              else st\<lparr>fs_PartitionNum := fs_PartitionNum st + 1\<rparr>
            else st\<lparr>fs_Stage := XFSBL_STAGE4, fs_EarlyHandoff := early\<rparr>)
       (load_partition ld (fs_PartitionNum st) (fs_inst st))"

definition stage4 :: "('s, 'h) loader \<Rightarrow> 's fsbl \<Rightarrow> ('s fsbl_end + 's fsbl) option" where
  "stage4 ld st =
     map_option (\<lambda>(r, index, s).
       let I = fs_inst st\<lparr>machine := s\<rparr>;
           st = st\<lparr>fs_inst := I, fs_IndexEarly := index\<rparr>
       in case r of
            Exited x \<Rightarrow> Inl (Left x I)
          | Returned Status \<Rightarrow>
              Inr (if Status = XFSBL_STATUS_CONTINUE_PARTITION_LOAD
                   then st\<lparr>fs_Status := Status, fs_PartitionNum := fs_PartitionNum st + 1, fs_Stage := XFSBL_STAGE3\<rparr>
                   else if Status = XFSBL_STATUS_CONTINUE_OTHER_HANDOFF then st\<lparr>fs_Status := Status, fs_EarlyHandoff := False\<rparr>
                   else if Status \<noteq> XFSBL_SUCCESS then st\<lparr>fs_Status := Status + XFSBL_ERROR_STAGE_4, fs_Stage := XFSBL_STAGE_ERR\<rparr>
                   else st\<lparr>fs_Status := Status, fs_Stage := XFSBL_STAGE_DEFAULT\<rparr>))
       (XFsbl_Handoff (ld_pf ld) (ld_early ld) (fs_inst st) (fs_PartitionNum st) (fs_EarlyHandoff st) (fs_IndexEarly st))"

definition main_step :: "('s, 'h) loader \<Rightarrow> 's fsbl \<Rightarrow> ('s fsbl_end + 's fsbl) option" where
  "main_step ld st =
     (case fs_Stage st of
        XFSBL_STAGE1 \<Rightarrow> map_option Inr (stage1 ld st)
      | XFSBL_STAGE2 \<Rightarrow> map_option Inr (stage2 ld st)
      | XFSBL_STAGE3 \<Rightarrow> map_option Inr (stage3 ld st)
      | XFSBL_STAGE4 \<Rightarrow> stage4 ld st
      | XFSBL_STAGE_ERR \<Rightarrow> Some (Inl (XFsbl_ErrorLockDown (ld_pf ld) (fs_Status st) (fs_inst st)))
      | XFSBL_STAGE_DEFAULT \<Rightarrow> Some (Inl (leave_for_good (ld_pf ld) (fs_inst st))))"

partial_function (option) main_loop :: "('s, 'h) loader \<Rightarrow> 's fsbl \<Rightarrow> 's fsbl_end option" where
  "main_loop ld st = Option.bind (main_step ld st) (\<lambda>r. case r of Inl e \<Rightarrow> Some e | Inr st \<Rightarrow> main_loop ld st)"

definition main :: "('s, 'h) loader \<Rightarrow> 's XFsblPs \<Rightarrow> 's XFsblPs \<Rightarrow> 's fsbl_end option" where
  "main ld saved I =
     main_loop ld \<lparr>fs_Stage = XFSBL_STAGE1, fs_Status = XFSBL_SUCCESS, fs_PartitionNum = 0, fs_EarlyHandoff = False,
                    fs_IndexEarly = 0, fs_saved = saved, fs_inst = I\<rparr>"

section \<open>The straight line\<close>

text \<open>
  The partitions are loaded from the first one to the last, at least one; each is marked. A boot ends with an
  error, that of the stage it is in, or by leaving.
\<close>

definition partition_numbers :: "u32 \<Rightarrow> u32 list" where
  "partition_numbers NoOf = map of_nat [1..<Suc (max 1 (unat (NoOf - 1)))]"

fun load_partitions :: "('s, 'h) loader \<Rightarrow> u32 list \<Rightarrow> 's XFsblPs \<Rightarrow> (u32 \<times> 's XFsblPs) option" where
  "load_partitions ld [] I = Some (XFSBL_SUCCESS, I)"
| "load_partitions ld (n # ns) I =
     on_success (load_partition ld n I) (\<lambda>Status. Status) (\<lambda>I. load_partitions ld ns (XFsbl_MarkUsedRPUCores (ld_pf ld) n I))"

type_synonym 's boot_result = "(u32 \<times> 's XFsblPs + fsbl_exit \<times> 's XFsblPs) option"

definition stage_ok :: "u32 \<Rightarrow> (u32 \<times> 's XFsblPs) option \<Rightarrow> ('s XFsblPs \<Rightarrow> 's boot_result) \<Rightarrow> 's boot_result" where
  "stage_ok code r k =
     Option.bind r (\<lambda>(Status, I). if Status \<noteq> XFSBL_SUCCESS then Some (Inl (Status + code, I)) else k I)"

definition hand_over :: "('s, 'h) loader \<Rightarrow> u32 \<Rightarrow> 's XFsblPs \<Rightarrow> 's boot_result" where
  "hand_over ld n I =
     Option.bind (XFsbl_Handoff (ld_pf ld) False I n False 0) (\<lambda>(r, _, s).
       let I = I\<lparr>machine := s\<rparr>
       in case r of
            Exited x \<Rightarrow> Some (Inr (x, I))
          | Returned Status \<Rightarrow>
              stage_ok XFSBL_ERROR_STAGE_4 (Some (Status, I)) (\<lambda>I.
                case XFsbl_HandoffExit (ld_pf ld) 0 XFSBL_NO_HANDOFFEXIT s of (x, s) \<Rightarrow> Some (Inr (x, I\<lparr>machine := s\<rparr>))))"

definition boot :: "('s, 'h) loader \<Rightarrow> 's XFsblPs \<Rightarrow> 's XFsblPs \<Rightarrow> 's boot_result" where
  "boot ld saved I =
     stage_ok XFSBL_ERROR_STAGE_1 (map_option (\<lambda>(Status, _, I). (Status, I)) (XFsbl_Initialize (ld_pf ld) (ld_ie ld) saved I)) (\<lambda>I.
       Option.bind (XFsbl_BootDeviceInitAndValidate (ld_pf ld) (ld_sx ld) (ld_be ld) I) (\<lambda>(Status, I).
         if Status = XFSBL_STATUS_JTAG then hand_over ld 0 (mark_all_cores (ld_pf ld) I)
         else stage_ok XFSBL_ERROR_STAGE_2 (Some (Status, I)) (\<lambda>I.
           let ns = partition_numbers (NoOfPartitions I)
           in stage_ok XFSBL_ERROR_STAGE_3 (load_partitions ld ns (clear_all_cores (ld_pf ld) I)) (hand_over ld (last ns)))))"

definition boot_end :: "'s platform \<Rightarrow> u32 \<times> 's XFsblPs + fsbl_exit \<times> 's XFsblPs \<Rightarrow> 's fsbl_end" where
  "boot_end pf r = (case r of Inl (e, I) \<Rightarrow> XFsbl_ErrorLockDown pf e I | Inr (x, I) \<Rightarrow> Left x I)"


section \<open>What the stages keep\<close>

lemma update_handoff_header: "update_handoff c p I = Some J \<Longrightarrow> ImageHeader_of J = ImageHeader_of I"
  by (simp add: update_handoff_same)

lemma entered_header:
  "\<lbrakk>entered c p enter I r; r = Some (Status, K)\<rbrakk> \<Longrightarrow> ImageHeader_of K = ImageHeader_of I"
  unfolding entered_def same_table_def by (fastforce dest: update_handoff_header)

lemma PartitionCopy_header:
  assumes "XFsbl_PartitionCopy pf n I = Some (Status, J)"
  shows "ImageHeader_of J = ImageHeader_of I"
proof (cases "UnEncryptedDataWordLength (partition I n) = 0")
  case True
  with assms show ?thesis by (auto simp: XFsbl_PartitionCopy_def Let_def dest: update_handoff_header)
next
  case False
  have "kept I (XFsbl_PartitionCopy pf n I)"
    unfolding XFsbl_PartitionCopy_def Let_def if_not_P [OF False] by (intro keeps) simp
  from keptD [OF this assms] show ?thesis by (simp add: same_table_def)
qed

lemma PartitionLoad_header:
  assumes "XFsbl_PartitionLoad pf sx cfg n I = Some (Status, J)"
  shows "ImageHeader_of J = ImageHeader_of I"
proof -
  define I0 where "I0 = with_machine (XFsbl_RestartWdt pf (ResetReason I)) I"
  obtain h I1 where h: "XFsbl_PartitionHeaderValidation pf cfg n I0 = (h, I1)" by (cases "XFsbl_PartitionHeaderValidation pf cfg n I0")
  have I1: "ImageHeader_of I1 = ImageHeader_of I"
    using HeaderValidation_status(1) [OF h] by (simp add: same_table_def I0_def with_machine_def)
  show ?thesis
  proof (cases "h = XFSBL_SUCCESS")
    case False
    with assms h I1 show ?thesis by (auto simp: XFsbl_PartitionLoad_def I0_def split: if_splits)
  next
    case True
    with assms h have "on_success (XFsbl_PartitionCopy pf n I1) (\<lambda>Status. Status) (\<lambda>I.
        on_success (XFsbl_PartitionValidation pf sx n I) (\<lambda>Status. Status) (\<lambda>I.
          map_option (\<lambda>I. (XFSBL_SUCCESS, I)) (XFsbl_CheckPmuFw pf n I))) = Some (Status, J)"
      by (simp add: XFsbl_PartitionLoad_def I0_def)
    then obtain St I2 where c: "XFsbl_PartitionCopy pf n I1 = Some (St, I2)"
      and r: "(if St \<noteq> XFSBL_SUCCESS then Some (St, I2) else on_success (XFsbl_PartitionValidation pf sx n I2) (\<lambda>Status. Status)
        (\<lambda>I. map_option (\<lambda>I. (XFSBL_SUCCESS, I)) (XFsbl_CheckPmuFw pf n I))) = Some (Status, J)"
      by (rule on_success_elim)
    have I2: "ImageHeader_of I2 = ImageHeader_of I" using PartitionCopy_header [OF c] I1 by simp
    show ?thesis
    proof (cases "St = XFSBL_SUCCESS")
      case False
      with r I2 show ?thesis by simp
    next
      case True
      with r obtain Sv I3 where v: "XFsbl_PartitionValidation pf sx n I2 = Some (Sv, I3)"
        and k: "(if Sv \<noteq> XFSBL_SUCCESS then Some (Sv, I3) else map_option (\<lambda>I. (XFSBL_SUCCESS, I)) (XFsbl_CheckPmuFw pf n I3)) = Some (Status, J)"
        by (auto elim!: on_success_elim)
      have "ImageHeader_of I3 = ImageHeader_of I"
        using entered_header [OF PartitionValidation_entered [OF refl refl] v] I2 by simp
      with k CheckPmuFw_same [of pf n I3] show ?thesis by (auto simp: same_table_def split: if_splits)
    qed
  qed
qed

lemma MarkUsedRPUCores_header [simp]: "ImageHeader_of (XFsbl_MarkUsedRPUCores pf n I) = ImageHeader_of I"
  by (simp add: XFsbl_MarkUsedRPUCores_def Let_def split: prod.split)

lemma load_partition_header: "load_partition ld n I = Some (Status, J) \<Longrightarrow> ImageHeader_of J = ImageHeader_of I"
  by (auto simp: load_partition_def dest: PartitionLoad_header split: if_splits)

text \<open>Without early handoff the handoff never asks for more partitions.\<close>

definition asks_for_more :: "u32 \<Rightarrow> bool" where
  "asks_for_more Status \<longleftrightarrow> Status = XFSBL_STATUS_CONTINUE_PARTITION_LOAD \<or> Status = XFSBL_STATUS_CONTINUE_OTHER_HANDOFF"

lemma on_success_codes:
  "\<lbrakk>on_success r (\<lambda>_. e) (\<lambda>s. Some (XFSBL_SUCCESS, f s)) = Some (Status, t)\<rbrakk> \<Longrightarrow> Status = e \<or> Status = XFSBL_SUCCESS"
  by (auto elim!: on_success_elim split: if_splits)

lemma SetCpuPwrSettings_status:
  assumes "XFsbl_SetCpuPwrSettings pf c flags s = Some (Status, t)"
  shows "\<not> asks_for_more Status"
proof -
  have a: "\<not> asks_for_more Status" if n: "n < 4" and "start_a53 pf n x s = Some (Status, t)" for n x
  proof -
    from that(2) have "Status = XFSBL_ERROR_A53_0_POWER_UP + of_nat n \<or> Status = XFSBL_SUCCESS"
      unfolding start_a53_def Let_def by (rule on_success_codes)
    moreover from n have "n \<in> {0, 1, 2, 3}" by auto
    ultimately show ?thesis by (auto simp: asks_for_more_def)
  qed
  show ?thesis
    using assms a a53_number_bound [of "cpu_id c"]
    by (fastforce simp: XFsbl_SetCpuPwrSettings_def Let_def asks_for_more_def dest: on_success_codes split: if_splits option.splits)
qed

lemma handoff_entry_status:
  assumes "handoff_entry pf I V e running s = Some (Status, running', t)"
  shows "\<not> asks_for_more Status"
proof (cases "cpu_id (fst e) = ProcessorID I")
  case True
  with assms show ?thesis by (auto simp: handoff_entry_def asks_for_more_def Let_def split: prod.splits if_splits)
next
  case False
  obtain c a where e: "e = (c, a)" by (cases e)
  obtain S1 s1 where k: "XFsbl_CheckSupportedCpu pf (cpu_id c) s = (S1, s1)" by (cases "XFsbl_CheckSupportedCpu pf (cpu_id c) s")
  show ?thesis
  proof (cases "S1 = XFSBL_SUCCESS")
    case no: False
    with assms False show ?thesis by (auto simp: e handoff_entry_def k asks_for_more_def)
  next
    case True
    with assms False have "on_success (XFsbl_SetCpuPwrSettings pf c XFSBL_CPU_POWER_UP s1) (\<lambda>_. XFSBL_ERROR_PWR_UP_CPU) (\<lambda>s.
        XFsbl_SetCpuPwrSettings pf c XFSBL_CPU_SWRST (XFsbl_UpdateResetVector pf a c OTHER_CPU_HANDOFF V s)) = Some (Status, t)"
      by (auto simp: e handoff_entry_def k)
    then show ?thesis
      by (rule on_success_elim) (auto simp: asks_for_more_def [of XFSBL_ERROR_PWR_UP_CPU] dest: SetCpuPwrSettings_status split: if_splits)
  qed
qed

lemma handoff_loop_status:
  "handoff_loop pf early I n False V i ie running s = Some (Inl Status, ie', t) \<Longrightarrow> \<not> asks_for_more Status"
proof (induction "unat (HandoffCpuNo I - i)" arbitrary: i ie running s rule: less_induct)
  case less
  show ?case
  proof (cases "i < HandoffCpuNo I \<and> unat i < length (HandoffValues I)")
    case False
    with less.prems show ?thesis by (auto simp: handoff_loop.simps [of pf early I n False V i] split: if_splits)
  next
    case True
    then have m: "unat (HandoffCpuNo I - (i + 1)) < unat (HandoffCpuNo I - i)" by unat_arith
    show ?thesis
      using less.prems True less.hyps [OF m]
      by (auto simp: handoff_loop.simps [of pf early I n False V i] Let_def bind_eq_Some_conv split: if_splits dest: handoff_entry_status)
  qed
qed

lemma Handoff_status:
  assumes "XFsbl_Handoff pf early I n False k = Some (Returned Status, ie, t)"
  shows "\<not> asks_for_more Status"
proof -
  obtain S1 s1 where p: "prepare_handoff pf (ResetReason I) (machine I) = (S1, s1)" by (cases "prepare_handoff pf (ResetReason I) (machine I)")
  have "S1 = XFSBL_ERROR_PM_INIT \<or> S1 = XFSBL_ERROR_PROTECTION_CFG \<or> S1 = XFSBL_SUCCESS"
    using p by (auto simp: prepare_handoff_def XFsbl_ProtectionConfig_def Let_def or_fail_def split: if_splits prod.splits)
  then have "\<not> asks_for_more S1" by (auto simp: asks_for_more_def)
  show ?thesis
  proof (rule ccontr)
    assume more: "\<not> \<not> asks_for_more Status"
    have h: "\<not> asks_for_more XFSBL_ERROR_HOOK_BEFORE_HANDOFF" by (simp add: asks_for_more_def)
    have "S1 = XFSBL_SUCCESS" using assms \<open>\<not> asks_for_more S1\<close> more by (auto simp: XFsbl_Handoff_def p split: if_splits)
    with assms h more obtain V r i u where l: "handoff_loop pf early I n False V 0 k None s1 = Some (r, i, u)"
      and r: "(case r of Inl Status \<Rightarrow> Some (Returned Status, i, u)
        | Inr running \<Rightarrow> (case leave pf (ResetReason I) running u of (x, s) \<Rightarrow> Some (Exited x, i, s))) = Some (Returned Status, ie, t)"
      by (auto simp: XFsbl_Handoff_def p Let_def bind_eq_Some_conv split: if_splits)
    from r have r: "r = Inl Status" by (cases r) (auto split: prod.splits)
    from handoff_loop_status [OF l [unfolded r]] more show False by simp
  qed
qed

section \<open>The stages are the straight line\<close>

lemma main_loop_goes_on: "main_step ld st = Some (Inr st') \<Longrightarrow> main_loop ld st = main_loop ld st'"
  by (subst main_loop.simps) simp

lemma main_loop_ends: "main_step ld st = Some (Inl e) \<Longrightarrow> main_loop ld st = Some e"
  by (subst main_loop.simps) simp

lemma main_loop_stuck: "main_step ld st = None \<Longrightarrow> main_loop ld st = None"
  by (subst main_loop.simps) simp

lemma main_loop_error:
  "fs_Stage st = XFSBL_STAGE_ERR \<Longrightarrow> main_loop ld st = Some (boot_end (ld_pf ld) (Inl (fs_Status st, fs_inst st)))"
  by (rule main_loop_ends) (simp add: main_step_def boot_end_def)

lemma main_loop_default:
  "fs_Stage st = XFSBL_STAGE_DEFAULT \<Longrightarrow> main_loop ld st = Some (leave_for_good (ld_pf ld) (fs_inst st))"
  by (rule main_loop_ends) (simp add: main_step_def)

lemma main_loop_stage4:
  assumes "fs_Stage st = XFSBL_STAGE4" "\<not> ld_early ld" "\<not> fs_EarlyHandoff st" "fs_IndexEarly st = 0"
  shows "main_loop ld st = map_option (boot_end (ld_pf ld)) (hand_over ld (fs_PartitionNum st) (fs_inst st))"
proof (cases "XFsbl_Handoff (ld_pf ld) False (fs_inst st) (fs_PartitionNum st) False 0")
  case None
  then have "main_step ld st = None" using assms by (simp add: main_step_def stage4_def)
  with None show ?thesis by (simp add: main_loop_stuck hand_over_def)
next
  case (Some q)
  obtain r i s where q: "q = (r, i, s)" by (cases q)
  show ?thesis
  proof (cases r)
    case (Exited x)
    with Some q assms have "main_step ld st = Some (Inl (Left x (fs_inst st\<lparr>machine := s\<rparr>)))"
      by (simp add: main_step_def stage4_def)
    with Some q Exited show ?thesis by (simp add: main_loop_ends hand_over_def boot_end_def)
  next
    case (Returned Status)
    have n: "\<not> asks_for_more Status" by (rule Handoff_status [OF Some [unfolded q Returned]])
    define st' where "st' = st\<lparr>fs_inst := fs_inst st\<lparr>machine := s\<rparr>, fs_IndexEarly := i\<rparr>"
    have step: "main_step ld st = Some (Inr (if Status \<noteq> XFSBL_SUCCESS
        then st'\<lparr>fs_Status := Status + XFSBL_ERROR_STAGE_4, fs_Stage := XFSBL_STAGE_ERR\<rparr>
        else st'\<lparr>fs_Status := Status, fs_Stage := XFSBL_STAGE_DEFAULT\<rparr>))"
      using Some q Returned n assms by (auto simp: main_step_def stage4_def asks_for_more_def st'_def)
    show ?thesis
      using Some q Returned
      by (cases "Status = XFSBL_SUCCESS")
        (simp_all add: main_loop_goes_on [OF step] main_loop_error main_loop_default hand_over_def stage_ok_def st'_def
          leave_for_good_def boot_end_def split: prod.split)
  qed
qed

text \<open>The partitions that are left when the third stage is at \<open>n\<close>.\<close>

definition numbers_from :: "u32 \<Rightarrow> u32 \<Rightarrow> u32 list" where
  "numbers_from NoOf n = map of_nat [unat n..<Suc (max (unat n) (unat (NoOf - 1)))]"

lemma numbers_from_Cons:
  assumes "n < NoOf - 1"
  shows "numbers_from NoOf n = n # numbers_from NoOf (n + 1)" "numbers_from NoOf (n + 1) \<noteq> []"
proof -
  have n: "unat (n + 1) = Suc (unat n)" "unat n < unat (NoOf - 1)" using assms by unat_arith+
  then have "[unat n..<Suc (max (unat n) (unat (NoOf - 1)))] = unat n # [unat (n + 1)..<Suc (max (unat (n + 1)) (unat (NoOf - 1)))]"
    by (simp add: upt_conv_Cons)
  then show "numbers_from NoOf n = n # numbers_from NoOf (n + 1)"
    by (simp only: numbers_from_def list.map) simp
  show "numbers_from NoOf (n + 1) \<noteq> []" by (simp add: numbers_from_def)
qed

lemma numbers_from_last: "\<not> n < NoOf - 1 \<Longrightarrow> numbers_from NoOf n = [n]"
  by (simp add: numbers_from_def not_less word_le_nat_alt max_def)

lemma main_loop_stage3:
  assumes "fs_Stage st = XFSBL_STAGE3" "\<not> ld_early ld" "\<not> fs_EarlyHandoff st" "fs_IndexEarly st = 0"
  shows "main_loop ld st = map_option (boot_end (ld_pf ld))
    (let ns = numbers_from (NoOfPartitions (fs_inst st)) (fs_PartitionNum st)
     in stage_ok XFSBL_ERROR_STAGE_3 (load_partitions ld ns (fs_inst st)) (hand_over ld (last ns)))"
  using assms
proof (induction "unat (NoOfPartitions (fs_inst st) - 1) - unat (fs_PartitionNum st)" arbitrary: st rule: less_induct)
  case less
  define n where "n = fs_PartitionNum st"
  define N where "N = NoOfPartitions (fs_inst st)"
  have hd: "\<exists>ns. numbers_from N n = n # ns"
    by (cases "n < N - 1") (auto simp: numbers_from_Cons numbers_from_last)
  show ?case
  proof (cases "load_partition ld n (fs_inst st)")
    case None
    then have "main_step ld st = None" using less.prems by (simp add: main_step_def stage3_def n_def)
    with None hd show ?thesis by (auto simp: main_loop_stuck on_success_def stage_ok_def n_def [symmetric] N_def [symmetric])
  next
    case (Some q)
    obtain Status J where q: "q = (Status, J)" by (cases q)
    have J: "ImageHeader_of J = ImageHeader_of (fs_inst st)" by (rule load_partition_header [OF Some [unfolded q]])
    define M where "M = XFsbl_MarkUsedRPUCores (ld_pf ld) n J"
    have M: "NoOfPartitions M = N" by (simp add: M_def J N_def)
    have early: "\<not> XFsbl_CheckEarlyHandoff (ld_early ld) M n" using less.prems by (simp add: XFsbl_CheckEarlyHandoff_def)
    show ?thesis
    proof (cases "Status = XFSBL_SUCCESS")
      case False
      with Some q less.prems have "main_step ld st =
          Some (Inr (st\<lparr>fs_inst := J, fs_Status := Status + XFSBL_ERROR_STAGE_3, fs_Stage := XFSBL_STAGE_ERR\<rparr>))"
        by (simp add: main_step_def stage3_def n_def)
      from main_loop_goes_on [OF this] Some q hd False show ?thesis
        by (auto simp: main_loop_error on_success_def stage_ok_def n_def [symmetric] N_def [symmetric])
    next
      case True
      define st' where "st' = st\<lparr>fs_inst := M, fs_Status := 0\<rparr>"
      have step: "main_step ld st = Some (Inr (if n < N - 1 then st'\<lparr>fs_PartitionNum := n + 1\<rparr>
          else st'\<lparr>fs_Stage := XFSBL_STAGE4, fs_EarlyHandoff := False\<rparr>))"
        using Some q True early J less.prems
        by (simp add: main_step_def stage3_def n_def [symmetric] N_def M_def [symmetric] st'_def Let_def)
      have load: "load_partitions ld (n # ns) (fs_inst st) = load_partitions ld ns M" for ns
        using Some q True by (simp add: on_success_def M_def)
      show ?thesis
      proof (cases "n < N - 1")
        case True
        then have "unat (n + 1) = Suc (unat n)" "unat n < unat (N - 1)" by unat_arith+
        then have less_m: "unat (N - 1) - unat (n + 1) < unat (N - 1) - unat n" by simp
        define st'' where "st'' = st'\<lparr>fs_PartitionNum := n + 1\<rparr>"
        have f: "fs_inst st'' = M" "fs_PartitionNum st'' = n + 1" "fs_Stage st'' = XFSBL_STAGE3" "\<not> fs_EarlyHandoff st''" "fs_IndexEarly st'' = 0"
          using less.prems by (simp_all add: st''_def st'_def)
        have step: "main_step ld st = Some (Inr st'')" using step True by (simp add: st''_def)
        have "unat (NoOfPartitions (fs_inst st'') - 1) - unat (fs_PartitionNum st'') < unat (NoOfPartitions (fs_inst st) - 1) - unat (fs_PartitionNum st)"
          unfolding f M N_def [symmetric] n_def [symmetric] by (rule less_m)
        from less.hyps [OF this f(3) less.prems(2) f(4,5)] have "main_loop ld st'' = map_option (boot_end (ld_pf ld))
            (let ns = numbers_from N (n + 1) in stage_ok XFSBL_ERROR_STAGE_3 (load_partitions ld ns M) (hand_over ld (last ns)))"
          unfolding f M .
        then show ?thesis
          using True numbers_from_Cons [OF True] load
          by (simp add: main_loop_goes_on [OF step] n_def [symmetric] N_def [symmetric] Let_def)
      next
        case False
        then show ?thesis
          using less.prems numbers_from_last [OF False] load
          by (simp add: main_loop_goes_on [OF step] main_loop_stage4 st'_def stage_ok_def n_def [symmetric] N_def [symmetric] del: load_partitions.simps(2))
      qed
    qed
  qed
qed

lemma main_loop_stage2:
  assumes "fs_Stage st = XFSBL_STAGE2" "\<not> ld_early ld" "\<not> fs_EarlyHandoff st" "fs_IndexEarly st = 0" "fs_PartitionNum st = 0"
  shows "main_loop ld st = map_option (boot_end (ld_pf ld))
    (Option.bind (XFsbl_BootDeviceInitAndValidate (ld_pf ld) (ld_sx ld) (ld_be ld) (fs_inst st)) (\<lambda>(Status, I).
       if Status = XFSBL_STATUS_JTAG then hand_over ld 0 (mark_all_cores (ld_pf ld) I)
       else stage_ok XFSBL_ERROR_STAGE_2 (Some (Status, I)) (\<lambda>I.
         let ns = partition_numbers (NoOfPartitions I)
         in stage_ok XFSBL_ERROR_STAGE_3 (load_partitions ld ns (clear_all_cores (ld_pf ld) I)) (hand_over ld (last ns)))))"
proof (cases "XFsbl_BootDeviceInitAndValidate (ld_pf ld) (ld_sx ld) (ld_be ld) (fs_inst st)")
  case None
  then have "main_step ld st = None" using assms by (simp add: main_step_def stage2_def)
  with None show ?thesis by (simp add: main_loop_stuck)
next
  case (Some q)
  obtain Status I where q: "q = (Status, I)" by (cases q)
  have numbers: "partition_numbers N = numbers_from N 1" for N by (simp add: partition_numbers_def numbers_from_def)
  have I: "NoOfPartitions (clear_all_cores (ld_pf ld) I) = NoOfPartitions I" by (simp add: clear_all_cores_def with_machine_def)
  consider "Status = XFSBL_SUCCESS" | "Status = XFSBL_STATUS_JTAG" | "Status \<noteq> XFSBL_SUCCESS" "Status \<noteq> XFSBL_STATUS_JTAG" by blast
  then show ?thesis
  proof cases
    case 1
    define st' where "st' = st\<lparr>fs_PartitionNum := 1, fs_inst := clear_all_cores (ld_pf ld) I, fs_Status := Status, fs_Stage := XFSBL_STAGE3\<rparr>"
    have "main_step ld st = Some (Inr st')" using assms Some q 1 by (simp add: main_step_def stage2_def st'_def)
    moreover have "main_loop ld st' = map_option (boot_end (ld_pf ld))
        (let ns = numbers_from (NoOfPartitions I) 1
         in stage_ok XFSBL_ERROR_STAGE_3 (load_partitions ld ns (clear_all_cores (ld_pf ld) I)) (hand_over ld (last ns)))"
      using main_loop_stage3 [of st' ld] assms I by (simp add: st'_def)
    ultimately show ?thesis using Some q 1 by (simp add: main_loop_goes_on numbers stage_ok_def [of XFSBL_ERROR_STAGE_2])
  next
    case 2
    define st' where "st' = st\<lparr>fs_inst := mark_all_cores (ld_pf ld) I, fs_Status := Status, fs_Stage := XFSBL_STAGE4\<rparr>"
    have "main_step ld st = Some (Inr st')" using assms Some q 2 by (simp add: main_step_def stage2_def st'_def)
    then show ?thesis using main_loop_stage4 [of st' ld] assms Some q 2 by (simp add: main_loop_goes_on st'_def)
  next
    case 3
    define st' where "st' = st\<lparr>fs_inst := I, fs_Status := Status + XFSBL_ERROR_STAGE_2, fs_Stage := XFSBL_STAGE_ERR\<rparr>"
    have "main_step ld st = Some (Inr st')" using assms Some q 3 by (simp add: main_step_def stage2_def st'_def)
    then show ?thesis using Some q 3 by (simp add: main_loop_goes_on main_loop_error stage_ok_def st'_def)
  qed
qed

lemma main_loop_straight:
  assumes "\<not> ld_early ld"
  shows "main ld saved I = map_option (boot_end (ld_pf ld)) (boot ld saved I)"
proof (cases "XFsbl_Initialize (ld_pf ld) (ld_ie ld) saved I")
  case None
  then show ?thesis by (simp add: main_def boot_def stage_ok_def main_loop_stuck main_step_def stage1_def)
next
  case (Some q)
  obtain Status D J where q: "q = (Status, D, J)" by (cases q)
  define st where "st = \<lparr>fs_Stage = XFSBL_STAGE1, fs_Status = XFSBL_SUCCESS, fs_PartitionNum = 0, fs_EarlyHandoff = False,
                    fs_IndexEarly = 0, fs_saved = saved, fs_inst = I\<rparr>"
  define st' where "st' = st\<lparr>fs_saved := D, fs_inst := J\<rparr>"
  have step: "main_step ld st = Some (Inr (if Status \<noteq> XFSBL_SUCCESS
      then st'\<lparr>fs_Status := Status + XFSBL_ERROR_STAGE_1, fs_Stage := XFSBL_STAGE_ERR\<rparr>
      else st'\<lparr>fs_Status := Status, fs_Stage := XFSBL_STAGE2\<rparr>))"
    using Some q by (simp add: main_step_def stage1_def st'_def st_def)
  have "main ld saved I = main_loop ld st" by (simp add: main_def st_def)
  also have "\<dots> = map_option (boot_end (ld_pf ld)) (boot ld saved I)"
  proof (cases "Status = XFSBL_SUCCESS")
    case True
    define st'' where "st'' = st'\<lparr>fs_Status := Status, fs_Stage := XFSBL_STAGE2\<rparr>"
    have f: "fs_inst st'' = J" "fs_Stage st'' = XFSBL_STAGE2" "\<not> fs_EarlyHandoff st''" "fs_IndexEarly st'' = 0" "fs_PartitionNum st'' = 0"
      by (simp_all add: st''_def st'_def st_def)
    have "main_loop ld st = main_loop ld st''"
      by (rule main_loop_goes_on) (simp add: step True st''_def)
    also note main_loop_stage2 [OF f(2) assms f(3-5), unfolded f(1)]
    finally show ?thesis using Some q True by (simp add: boot_def stage_ok_def [of XFSBL_ERROR_STAGE_1])
  next
    case False
    then show ?thesis using Some q by (simp add: main_loop_goes_on [OF step] main_loop_error boot_def stage_ok_def st'_def)
  qed
  finally show ?thesis .
qed

text \<open>
  C1. Without early handoff the stages of \<open>main\<close> are the straight line: the system is initialised, the boot device and
  the image header are read, the partitions are loaded one after the other from the first to the last, each is
  marked, and the loader hands over; the first error, with the code of its stage added, ends in the lock-down. Both
  sides have the same end, and if one has none then neither has the other.
\<close>

theorem main_is_straight_boot:
  assumes "\<not> ld_early ld"
  shows "main ld saved I = map_option (boot_end (ld_pf ld)) (boot ld saved I)"
  using assms by (rule main_loop_straight)

section \<open>Falling back\<close>

abbreviation fallback_registers :: "u64 set" where
  "fallback_registers \<equiv> {XFSBL_ERROR_STATUS_REGISTER_OFFSET, CSU_CSU_MULTI_BOOT, CRL_APB_RESET_CTRL, CRL_APB_BOOT_MODE_USER}"

lemma StopWdt_file:
  "\<lbrakk>register_file pf regs A; b \<in> A; b \<noteq> PMU_GLOBAL_ERROR_SRST_DIS_1\<rbrakk> \<Longrightarrow> regs (XFsbl_StopWdt pf r s) b = regs s b"
  by (simp add: XFsbl_StopWdt_def Let_def update_reg_file register_fileD split: option.split)

text \<open>What the registers hold after the multiboot register has been written.\<close>

lemma UpdateMultiBoot_ends:
  assumes rf: "register_file pf regs fallback_registers"
  shows "\<exists>K. XFsbl_UpdateMultiBoot pf v I = (if ResetReason I \<noteq> XFSBL_MASTER_ONLY_RESET then Soft_reset K else Spins K) \<and>
    ErrorCode K = ErrorCode I \<and> regs (machine K) CSU_CSU_MULTI_BOOT = v \<and>
    regs (machine K) XFSBL_ERROR_STATUS_REGISTER_OFFSET = regs (machine I) XFSBL_ERROR_STATUS_REGISTER_OFFSET \<and>
    regs (machine K) CRL_APB_RESET_CTRL =
      (if ResetReason I \<noteq> XFSBL_MASTER_ONLY_RESET then regs (machine I) CRL_APB_RESET_CTRL OR CRL_APB_RESET_CTRL_SOFT_RESET_MASK
       else regs (machine I) CRL_APB_RESET_CTRL)"
  by (simp add: XFsbl_UpdateMultiBoot_def Let_def with_machine_def update_reg_file [OF rf] write_reg_file [OF rf])

lemma FallBack_ends:
  assumes rf: "register_file pf regs fallback_registers"
  shows "\<exists>K. XFsbl_FallBack pf I = (if ResetReason I \<noteq> XFSBL_MASTER_ONLY_RESET then Soft_reset K else Spins K) \<and>
    ErrorCode K = ErrorCode I \<and> regs (machine K) CSU_CSU_MULTI_BOOT = regs (machine I) CSU_CSU_MULTI_BOOT + 1 \<and>
    regs (machine K) XFSBL_ERROR_STATUS_REGISTER_OFFSET = regs (machine I) XFSBL_ERROR_STATUS_REGISTER_OFFSET \<and>
    regs (machine K) CRL_APB_RESET_CTRL =
      (if ResetReason I \<noteq> XFSBL_MASTER_ONLY_RESET then regs (machine I) CRL_APB_RESET_CTRL OR CRL_APB_RESET_CTRL_SOFT_RESET_MASK
       else regs (machine I) CRL_APB_RESET_CTRL)"
proof -
  define s where "s = XFsbl_StopWdt pf (ResetReason I) (machine I)"
  define J where "J = I\<lparr>machine := snd (In32 (pf_bus pf) s CSU_CSU_MULTI_BOOT)\<rparr>"
  have "XFsbl_FallBack pf I = XFsbl_UpdateMultiBoot pf (regs (machine I) CSU_CSU_MULTI_BOOT + 1) J"
    using register_fileD(2) [OF rf, of CSU_CSU_MULTI_BOOT s] StopWdt_file [OF rf, of CSU_CSU_MULTI_BOOT "ResetReason I" "machine I"]
    by (simp add: XFsbl_FallBack_def with_machine_def s_def [symmetric] J_def case_prod_beta del: One_nat_def)
  moreover have "regs (machine J) b = regs (machine I) b" if "b \<in> fallback_registers" for b
    using that register_fileD(1) [OF rf that, of s] StopWdt_file [OF rf that] by (auto simp: J_def s_def)
  moreover have "ResetReason J = ResetReason I" "ErrorCode J = ErrorCode I" by (simp_all add: J_def)
  ultimately show ?thesis
    using UpdateMultiBoot_ends [OF rf, of "regs (machine I) CSU_CSU_MULTI_BOOT + 1" J] by auto
qed

text \<open>
  C31. A boot that fails, in whatever stage, ends in the lock-down: the error is in the error status register and in
  the instance, with the code of its stage. From a flash device the multiboot register is then one higher and a soft
  reset is requested, except that after a reset of the processor alone the loader loops for ever; in the other boot
  modes the processor goes to sleep and the multiboot register is as before.
\<close>

theorem failed_boot_falls_back:
  assumes "\<not> ld_early ld" and failed: "boot ld saved I = Some (Inl (e, J))"
    and rf: "register_file (ld_pf ld) regs fallback_registers"
  shows "\<exists>K. main ld saved I = Some
      (if falls_back (regs (machine J) CRL_APB_BOOT_MODE_USER AND CRL_APB_BOOT_MODE_USER_BOOT_MODE_MASK)
       then if ResetReason J \<noteq> XFSBL_MASTER_ONLY_RESET then Soft_reset K else Spins K else Left Wait_for_event K) \<and>
    ErrorCode K = e \<and> regs (machine K) XFSBL_ERROR_STATUS_REGISTER_OFFSET = e \<and>
    (if falls_back (regs (machine J) CRL_APB_BOOT_MODE_USER AND CRL_APB_BOOT_MODE_USER_BOOT_MODE_MASK)
     then regs (machine K) CSU_CSU_MULTI_BOOT = regs (machine J) CSU_CSU_MULTI_BOOT + 1 \<and>
       (ResetReason J \<noteq> XFSBL_MASTER_ONLY_RESET \<longrightarrow>
         regs (machine K) CRL_APB_RESET_CTRL = regs (machine J) CRL_APB_RESET_CTRL OR CRL_APB_RESET_CTRL_SOFT_RESET_MASK)
     else regs (machine K) CSU_CSU_MULTI_BOOT = regs (machine J) CSU_CSU_MULTI_BOOT)"
proof -
  define pf where "pf = ld_pf ld"
  define L where "L = (with_machine (write_reg pf XFSBL_ERROR_STATUS_REGISTER_OFFSET e) J)\<lparr>ErrorCode := e\<rparr>"
  define M where "M = L\<lparr>machine := snd (In32 (pf_bus pf) (machine L) CRL_APB_BOOT_MODE_USER)\<rparr>"
  note rf = rf [folded pf_def]
  have L: "regs (machine L) b = (if b = XFSBL_ERROR_STATUS_REGISTER_OFFSET then e else regs (machine J) b)"
    if "b \<in> fallback_registers" for b
    using write_reg_file [OF rf that] by (simp add: L_def with_machine_def)
  have M: "regs (machine M) b = regs (machine L) b" if "b \<in> fallback_registers" for b
    using register_fileD(1) [OF rf that] by (simp add: M_def)
  have fields: "ErrorCode M = e" "ResetReason M = ResetReason J" by (simp_all add: M_def L_def with_machine_def)
  have mode: "fst (In32 (pf_bus pf) (machine L) CRL_APB_BOOT_MODE_USER) = regs (machine J) CRL_APB_BOOT_MODE_USER"
    using register_fileD(2) [OF rf] L by simp
  have m: "main ld saved I = Some (if falls_back (regs (machine J) CRL_APB_BOOT_MODE_USER AND CRL_APB_BOOT_MODE_USER_BOOT_MODE_MASK)
      then XFsbl_FallBack pf M else leave_for_good pf M)"
    using main_loop_straight [OF assms(1), of saved I] failed mode
    by (simp add: boot_end_def XFsbl_ErrorLockDown_def pf_def [symmetric] L_def [symmetric] M_def case_prod_beta Let_def)
  show ?thesis
  proof (cases "falls_back (regs (machine J) CRL_APB_BOOT_MODE_USER AND CRL_APB_BOOT_MODE_USER_BOOT_MODE_MASK)")
    case True
    then show ?thesis using FallBack_ends [OF rf, of M] m fields by (auto simp: M L)
  next
    case False
    define K where "K = M\<lparr>machine := update_reg pf PMU_GLOBAL_GLOB_GEN_STORAGE5 (\<lambda>v. (v AND NOT XFSBL_EXEC_COMPLETED) OR XFSBL_EXEC_COMPLETED) (machine M)\<rparr>"
    have "leave_for_good pf M = Left Wait_for_event K"
      by (simp add: leave_for_good_def XFsbl_HandoffExit_def XFsbl_Exit_def K_def)
    moreover have "regs (machine K) b = regs (machine M) b" if "b \<in> fallback_registers" for b
      using that update_reg_file [OF rf that] by (auto simp: K_def)
    ultimately show ?thesis using False m fields by (auto simp: M L K_def)
  qed
qed

section \<open>An example\<close>

text \<open>
  The board on which everything succeeds. With no boot mode pin set the loader finds JTAG and stops; on an unknown
  processor, with the pins of the 24-bit serial flash, it falls back.
\<close>

definition demo_init_env :: "u64 \<Rightarrow> demo init_env" where
  "demo_init_env mpidr =
     \<lparr>ie_MPIDR_EL1 = mpidr, ie_RegisterHandlers = \<lambda>s. s, ie_DCacheFlush = \<lambda>s. s, ie_SetTlbAttributes = \<lambda>_ _ s. s,
      ie_ps_ddr = False, ie_DdrInit = None, ie_has_ecc = False, ie_ddr_end = 0x7FFFFFFF, ie_hi_ddr = None, ie_junk = 0,
      ie_board = demo_te_board 1\<rparr>"

definition demo_loader :: "u64 \<Rightarrow> (demo, u8 list) loader" where
  "demo_loader mpidr =
     \<lparr>ld_pf = demo_platform, ld_ie = demo_init_env mpidr, ld_be = demo_environment demo_image, ld_sx = demo_secure,
      ld_cfg = demo_config, ld_early = False\<rparr>"

lemma demo_loader_fields [simp]:
  "ld_pf (demo_loader mpidr) = demo_platform" "ld_ie (demo_loader mpidr) = demo_init_env mpidr" "\<not> ld_early (demo_loader mpidr)"
  "ld_be (demo_loader mpidr) = demo_environment demo_image" "ld_sx (demo_loader mpidr) = demo_secure"
  "pf_PSVersion demo_platform = 2" "pf_usleep demo_platform = (\<lambda>_ s. s)"
  by (simp_all add: demo_loader_def demo_platform_def)

lemma demo_psu_hook:
  "XFsbl_HookPsuInit demo_platform (demo_te_board 1) 0 (r, m) =
     Some (XFSBL_SUCCESS, r(GPIO_DIRM_1 := r GPIO_DIRM_1 OR 0x30, GPIO_OEN_1 := r GPIO_OEN_1 OR 0x30,
       GPIO_DATA_1 := (((r GPIO_DATA_1 AND NOT 0x10) AND NOT 0x20) OR 0x10) OR 0x20,
       0xFD5F0018 := (r 0xFD5F0018 AND NOT 0x8000001F) OR 0x8000001F, AMS_PS_SYSMON_ANALOG_BUS := 0x3210), m)"
  by (simp add: XFsbl_HookPsuInit_def TE_XFsbl_HookPsuInit_def TE_XFsbl_TPSU_MODIFIED_def demo_psu_halves demo_clocks
      hold_reset_def on_success_def fun_upd_twist or.assoc)

text \<open>The registers that decide: the pins, the reset reason, the multiboot number, the error status, the state of the logic.\<close>

definition deciding :: "u64 set" where
  "deciding = {CRL_APB_BOOT_MODE_USER, CRL_APB_RESET_REASON, CSU_CSU_MULTI_BOOT, XFSBL_ERROR_STATUS_REGISTER_OFFSET, CSU_PCAP_STATUS,
     PMU_GLOBAL_GLOB_GEN_STORAGE4}"

definition same_deciding :: "(u64 \<Rightarrow> u32) \<Rightarrow> (u64 \<Rightarrow> u32) \<Rightarrow> bool" where
  "same_deciding r r' \<longleftrightarrow> (\<forall>a \<in> deciding. r' a = r a)"

lemma demo_system_init:
  "\<exists>r'. XFsbl_SystemInit demo_platform (demo_init_env mpidr) 0 (r, m) = Some (XFSBL_SUCCESS, r', m) \<and> same_deciding r r'"
  by (simp add: XFsbl_SystemInit_def power_up_pl_def on_success_def demo_init_env_def demo_psu_hook XFsbl_MarkDdrAsReserved_def
      same_deciding_def deciding_def word_le_nat_alt)

lemma demo_device_name [simp]: "snd (device_name demo_platform (r, m)) = (r, m)"
  by (simp add: device_name_def XFsbl_GetSiliconIdName_def XFsbl_GetProcEng_def Let_def split: prod.split)

lemma demo_reset_reason:
  "\<lbrakk>machine I = (r, m); r CRL_APB_RESET_REASON = 0; r PMU_GLOBAL_GLOB_GEN_STORAGE4 = 0\<rbrakk> \<Longrightarrow>
     XFsbl_GetResetReason demo_platform D I = (XFSBL_SYSTEM_RESET, I, I)"
  by (cases I) (simp add: XFsbl_GetResetReason_def Let_def)

text \<open>The first stage up to the processor.\<close>

lemma demo_up_to_processor:
  assumes "machine I = (r, m)" "r CRL_APB_RESET_REASON = 0" "r PMU_GLOBAL_GLOB_GEN_STORAGE4 = 0"
  shows "\<exists>r' D. same_deciding r r' \<and> XFsbl_Initialize demo_platform (demo_init_env mpidr) D0 I =
    map_option (\<lambda>(Status, I). (Status, D, I))
      (on_success (Some (XFsbl_ProcessorInit demo_platform (demo_init_env mpidr) (I\<lparr>ResetReason := 0, machine := (r', m)\<rparr>))) (\<lambda>Status. Status)
         (init_memory_and_board demo_platform (demo_init_env mpidr)))"
proof -
  define r1 where "r1 = r(CSU_AES_RESET := 1, CSU_SHA_RESET := 1)"
  define I1 where "I1 = I\<lparr>machine := (r1, m)\<rparr>"
  have w: "with_machine (reset_engines demo_platform) I = I1"
    by (simp add: with_machine_def reset_engines_def assms I1_def r1_def)
  have reason: "XFsbl_GetResetReason demo_platform D0 I1 = (XFSBL_SYSTEM_RESET, I1, I1)"
    by (rule demo_reset_reason [where r = r1 and m = m]) (simp_all add: I1_def r1_def assms)
  obtain r2 where s: "XFsbl_SystemInit demo_platform (demo_init_env mpidr) 0 (r1, m) = Some (XFSBL_SUCCESS, r2, m)"
    and q: "same_deciding r1 r2" using demo_system_init by blast
  define r3 where "r3 = r2(CSU_AES_RESET := 1, CSU_SHA_RESET := 1)"
  have "same_deciding r r3" using q by (simp add: same_deciding_def deciding_def r1_def r3_def)
  moreover have "on_machine (XFsbl_SystemInit demo_platform (demo_init_env mpidr) 0) (I1\<lparr>ResetReason := 0\<rparr>) =
      Some (XFSBL_SUCCESS, I\<lparr>ResetReason := 0, machine := (r2, m)\<rparr>)"
    by (simp add: on_machine_def I1_def s)
  moreover have "with_machine (\<lambda>s. snd (device_name demo_platform (reset_engines demo_platform s))) (I\<lparr>ResetReason := 0, machine := (r2, m)\<rparr>) =
      I\<lparr>ResetReason := 0, machine := (r3, m)\<rparr>"
    by (simp add: with_machine_def reset_engines_def r3_def)
  moreover have "ResetReason J = 0" if "XFsbl_ProcessorInit demo_platform (demo_init_env mpidr) (I\<lparr>ResetReason := 0, machine := (r3, m)\<rparr>) = (St, J)" for St J
    using that by (auto simp: XFsbl_ProcessorInit_def Let_def split: option.splits prod.splits)
  ultimately have "XFsbl_Initialize demo_platform (demo_init_env mpidr) D0 I =
    map_option (\<lambda>(Status, I). (Status, I1, I))
      (on_success (Some (XFsbl_ProcessorInit demo_platform (demo_init_env mpidr) (I\<lparr>ResetReason := 0, machine := (r3, m)\<rparr>))) (\<lambda>Status. Status)
         (init_memory_and_board demo_platform (demo_init_env mpidr)))"
    by (simp add: XFsbl_Initialize_def w reason init_system_def on_success_def split: prod.split)
  with \<open>same_deciding r r3\<close> show ?thesis by blast
qed

lemma demo_bad_processor:
  assumes "machine I = (r, m)" "r CRL_APB_RESET_REASON = 0" "r PMU_GLOBAL_GLOB_GEN_STORAGE4 = 0"
  shows "\<exists>J r'. boot (demo_loader 0x200) D0 I = Some (Inl (XFSBL_ERROR_UNSUPPORTED_CLUSTER_ID, J)) \<and> machine J = (r', m) \<and>
    same_deciding r r' \<and> ResetReason J = 0"
proof -
  from demo_up_to_processor [OF assms, where mpidr = "0x200" and ?D0.0 = D0] obtain r' D where q: "same_deciding r r'"
    and i: "XFsbl_Initialize demo_platform (demo_init_env 0x200) D0 I =
    map_option (\<lambda>(Status, I). (Status, D, I))
      (on_success (Some (XFsbl_ProcessorInit demo_platform (demo_init_env 0x200) (I\<lparr>ResetReason := 0, machine := (r', m)\<rparr>))) (\<lambda>Status. Status)
         (init_memory_and_board demo_platform (demo_init_env 0x200)))" by blast
  have "ie_MPIDR_EL1 (demo_init_env 0x200) = 0x200" by (simp add: demo_init_env_def)
  then have "XFsbl_ProcessorInit demo_platform (demo_init_env 0x200) (I\<lparr>ResetReason := 0, machine := (r', m)\<rparr>) =
      (XFSBL_ERROR_UNSUPPORTED_CLUSTER_ID, I\<lparr>ResetReason := 0, machine := (r', m)\<rparr>)"
    by (simp add: XFsbl_ProcessorInit_def remap_cluster_def identify_cpu_def)
  with i have "boot (demo_loader 0x200) D0 I = Some (Inl (XFSBL_ERROR_UNSUPPORTED_CLUSTER_ID, I\<lparr>ResetReason := 0, machine := (r', m)\<rparr>))"
    by (simp add: boot_def stage_ok_def on_success_def)
  with q show ?thesis by auto
qed

theorem failed_boot_falls_back_witness:
  "\<exists>K. main (demo_loader 0x200) (demo_start_up demo_image qspi24_pins) (demo_start_up demo_image qspi24_pins) = Some (Soft_reset K) \<and>
    fst (machine K) XFSBL_ERROR_STATUS_REGISTER_OFFSET = XFSBL_ERROR_UNSUPPORTED_CLUSTER_ID \<and> fst (machine K) CSU_CSU_MULTI_BOOT = 1"
proof -
  have "machine (demo_start_up demo_image qspi24_pins) = (qspi24_pins, \<lambda>_. 0)" by (simp add: demo_start_up_def)
  from demo_bad_processor [OF this, where ?D0.0 = "demo_start_up demo_image qspi24_pins"] obtain J r' where
    b: "boot (demo_loader 0x200) (demo_start_up demo_image qspi24_pins) (demo_start_up demo_image qspi24_pins) =
      Some (Inl (XFSBL_ERROR_UNSUPPORTED_CLUSTER_ID, J))"
    and J: "machine J = (r', \<lambda>_. 0)" "same_deciding qspi24_pins r'" "ResetReason J = 0"
    by (auto simp: qspi24_pins_def)
  have r: "r' CRL_APB_BOOT_MODE_USER = 1" "r' CSU_CSU_MULTI_BOOT = 0"
    using J(2) by (simp_all add: same_deciding_def deciding_def qspi24_pins_def)
  show ?thesis
    using failed_boot_falls_back [OF _ b, of fst] demo_register_file r J by (auto simp: falls_back_def)
qed

lemma demo_first_stage:
  assumes "machine I = (r, m)" "r CRL_APB_RESET_REASON = 0" "r PMU_GLOBAL_GLOB_GEN_STORAGE4 = 0"
  shows "\<exists>D J r'. XFsbl_Initialize demo_platform (demo_init_env 0) D0 I = Some (XFSBL_SUCCESS, D, J) \<and> machine J = (r', m) \<and>
    r' CRL_APB_BOOT_MODE_USER = r CRL_APB_BOOT_MODE_USER \<and> r' CSU_PCAP_STATUS = r CSU_PCAP_STATUS \<and> ResetReason J = 0"
proof -
  from demo_up_to_processor [OF assms, where mpidr = 0 and ?D0.0 = D0] obtain r' D where q: "same_deciding r r'"
    and i: "XFsbl_Initialize demo_platform (demo_init_env 0) D0 I =
    map_option (\<lambda>(Status, I). (Status, D, I))
      (on_success (Some (XFsbl_ProcessorInit demo_platform (demo_init_env 0) (I\<lparr>ResetReason := 0, machine := (r', m)\<rparr>))) (\<lambda>Status. Status)
         (init_memory_and_board demo_platform (demo_init_env 0)))" by blast
  have ie: "ie_MPIDR_EL1 (demo_init_env 0) = 0" "ie_RegisterHandlers (demo_init_env 0) = (\<lambda>s. s)" "\<not> ie_has_ecc (demo_init_env 0)"
    "ie_board (demo_init_env 0) = demo_te_board 1" "te_lanes (demo_te_board 1) = []"
    by (simp_all add: demo_init_env_def demo_te_board_def)
  define r2 where "r2 = r'(PMU_GLOBAL_GLOB_GEN_STORAGE5 := 2 OR (r' PMU_GLOBAL_GLOB_GEN_STORAGE5 AND NOT XFSBL_STATE_PROC_INFO_MASK))"
  define J where "J = I\<lparr>ResetReason := 0, machine := (r', m), ProcessorID := 0x100, A53ExecState := 0, machine := (r2, m)\<rparr>"
  have p: "XFsbl_ProcessorInit demo_platform (demo_init_env 0) (I\<lparr>ResetReason := 0, machine := (r', m)\<rparr>) = (XFSBL_SUCCESS, J)"
    using demo_device_name [of r2 m]
    by (simp add: XFsbl_ProcessorInit_def remap_cluster_def identify_cpu_def ie Let_def J_def r2_def case_prod_beta)
  have z: "r2 CRL_APB_RESET_REASON = 0" using q assms by (simp add: same_deciding_def deciding_def r2_def)
  have "\<exists>r3. init_memory_and_board demo_platform (demo_init_env 0) J = Some (XFSBL_SUCCESS, J\<lparr>machine := (r3, m)\<rparr>) \<and>
      (\<forall>a. a \<noteq> XFSBL_ERROR_STATUS_REGISTER_OFFSET \<longrightarrow> r3 a = r2 a)"
    by (simp add: init_memory_and_board_def XFsbl_TcmInit_def on_success_def on_machine_def XFsbl_DdrEccInit_def XFsbl_BoardInit_def
        TE_XFsbl_BoardInit_def XFsbl_ResetValidation_def Let_def ie z J_def)
      (intro conjI impI; (rule exI, rule conjI, rule refl, simp))
  then obtain r3 where "init_memory_and_board demo_platform (demo_init_env 0) J = Some (XFSBL_SUCCESS, J\<lparr>machine := (r3, m)\<rparr>)"
    and "\<forall>a. a \<noteq> XFSBL_ERROR_STATUS_REGISTER_OFFSET \<longrightarrow> r3 a = r2 a" by blast
  with i p q show ?thesis
    by (intro exI [of _ D] exI [of _ "J\<lparr>machine := (r3, m)\<rparr>"] exI [of _ r3])
      (simp add: on_success_def same_deciding_def deciding_def r2_def J_def)
qed

lemma demo_jtag_boot:
  assumes "machine I = (r, m)" "r CRL_APB_RESET_REASON = 0" "r PMU_GLOBAL_GLOB_GEN_STORAGE4 = 0" "r CRL_APB_BOOT_MODE_USER = 0"
    "r CSU_PCAP_STATUS = 0"
  shows "\<exists>K. boot (demo_loader 0) D0 I = Some (Inr (Wait_for_event, K))"
proof -
  from demo_first_stage [OF assms(1-3), of D0] obtain D J r' where i: "XFsbl_Initialize demo_platform (demo_init_env 0) D0 I = Some (XFSBL_SUCCESS, D, J)"
    and J: "machine J = (r', m)" "r' CRL_APB_BOOT_MODE_USER = 0" "r' CSU_PCAP_STATUS = 0" "ResetReason J = 0"
    using assms(4,5) by auto
  define K where "K = J\<lparr>PrimaryBootDevice := XFSBL_JTAG_BOOT_MODE, machine := (r', m)\<rparr>"
  have "XFsbl_PrimaryBootDeviceInit demo_platform demo_secure (demo_environment demo_image) J = Some (XFSBL_STATUS_JTAG, K)"
    by (simp add: XFsbl_PrimaryBootDeviceInit_def J init_drivers_def is_device_mode_def K_def Let_def)
  then have b: "XFsbl_BootDeviceInitAndValidate demo_platform demo_secure (demo_environment demo_image) J = Some (XFSBL_STATUS_JTAG, K)"
    by (simp add: XFsbl_BootDeviceInitAndValidate_def on_success_def)
  define M where "M = mark_all_cores demo_platform K"
  define r2 where "r2 = r'(XFSBL_R5_USAGE_STATUS_REG := r' XFSBL_R5_USAGE_STATUS_REG OR 0x6)"
  have M: "machine M = (r2, m)" "ResetReason M = 0" "PrimaryBootDevice M = XFSBL_JTAG_BOOT_MODE"
    by (simp_all add: M_def mark_all_cores_def with_machine_def K_def r2_def J)
  have "\<exists>r3. prepare_handoff demo_platform 0 (r2, m) = (XFSBL_SUCCESS, r3, m) \<and> r3 CSU_PCAP_STATUS = 0"
    by (simp add: prepare_handoff_def XFsbl_PmInit_def XFsbl_ProtectionConfig_def Let_def r2_def J)
  then obtain r3 where p: "prepare_handoff demo_platform 0 (r2, m) = (XFSBL_SUCCESS, r3, m)" and r3: "r3 CSU_PCAP_STATUS = 0" by blast
  have "\<exists>s. jtag_exit demo_platform (r3, m) = Some (Wait_for_event, s)"
    by (simp add: jtag_exit_def XFsbl_PLCheckForDone_def r3 XFsbl_HandoffExit_def XFsbl_Exit_def)
  then have "\<exists>s. XFsbl_Handoff demo_platform False M 0 False 0 = Some (Exited Wait_for_event, 0, s)"
    by (auto simp: XFsbl_Handoff_def M p)
  then have "\<exists>K. hand_over (demo_loader 0) 0 M = Some (Inr (Wait_for_event, K))"
    by (auto simp: hand_over_def)
  with i b show ?thesis by (simp add: boot_def stage_ok_def M_def)
qed

theorem main_is_straight_boot_witness:
  "\<exists>K. main (demo_loader 0) (demo_start_up demo_image (\<lambda>_. 0)) (demo_start_up demo_image (\<lambda>_. 0)) = Some (Left Wait_for_event K)"
proof -
  have "machine (demo_start_up demo_image (\<lambda>_. 0)) = (\<lambda>_. 0, \<lambda>_. 0)" by (simp add: demo_start_up_def)
  from demo_jtag_boot [where ?D0.0 = "demo_start_up demo_image (\<lambda>_. 0)", OF this] obtain K where
    "boot (demo_loader 0) (demo_start_up demo_image (\<lambda>_. 0)) (demo_start_up demo_image (\<lambda>_. 0)) = Some (Inr (Wait_for_event, K))"
    by auto
  with main_is_straight_boot [of "demo_loader 0" "demo_start_up demo_image (\<lambda>_. 0)" "demo_start_up demo_image (\<lambda>_. 0)"]
  show ?thesis by (auto simp: boot_end_def)
qed

end
