(* ===== verification/Ddr_Addr_Map.thy ===== *)
theory Ddr_Addr_Map
  imports Sdk_Prelude
begin

text \<open>
  The arithmetic of the DDR set-up (\<open>xfsbl_ddr_init.c\<close>): the base-two logarithm, the rank sizes
  read from a module's SPD bytes, and the address map. The map is built in two steps, as in the
  code: an array \<open>HifAddr\<close> says which row, column, bank or bank-group bit each bit of the host
  address carries, in one of five layouts; then each controller field is the position of its bit in
  that array minus a base, and twelve registers are written. Every write to \<open>HifAddr\<close> past its 40
  slots and every search that runs out of the array is \<open>None\<close>: both are undefined in C. The
  theorems say that the registers, read back the way the controller reads them, give every address
  bit its position in the layout.
\<close>

section \<open>Logarithm and rank sizes\<close>

text \<open>The loop of \<open>XFsbl_GetLog2\<close> after the test for zero.\<close>

function log2_loop :: "u32 \<Rightarrow> u32 \<Rightarrow> u32" where
  "log2_loop RVal XVal =
     (if XVal = 1 \<or> XVal = 0 then RVal else log2_loop (RVal + 1) (drop_bit 1 XVal))"
  by auto

termination
proof (relation "measure (\<lambda>(_, x). unat x)", goal_cases)
  case (2 r x)
  then have "unat x \<noteq> 0" by (simp add: unat_eq_0)
  then show ?case by (simp add: drop_bit_Suc unat_div)
qed simp

declare log2_loop.simps [simp del]

definition XFsbl_GetLog2 :: "u32 \<Rightarrow> u32" where
  "XFsbl_GetLog2 XVal = (if XVal = 0 then 0 else log2_loop 0 XVal)"

text \<open>The SPD bytes a rank size depends on; the three SPD layouts agree on them.\<close>

record spd_size =
  SpdDensityBanks :: u8
  SpdBusWidth :: u8
  SpdOrganization :: u8
  SpdPackageType :: u8

definition nbit_primary_bus_width :: "spd_size \<Rightarrow> u32" where
  "nbit_primary_bus_width s =
     (if ucast (SpdBusWidth s) AND 0x7 < (4 :: u32) then (ucast (SpdBusWidth s) AND 0x7) + 3 else 0)"

definition nbit_sdram_width :: "spd_size \<Rightarrow> u32" where
  "nbit_sdram_width s =
     (if ucast (SpdOrganization s) AND 0x7 < (4 :: u32)
      then (ucast (SpdOrganization s) AND 0x7) + 2 else 0)"

text \<open>\<open>1ULL << n\<close>: shifting by the width or more is undefined.\<close>

definition shl64 :: "u32 \<Rightarrow> u64 option" where
  "shl64 n = (if n < 64 then Some (push_bit (unat n) 1) else None)"

definition XFsbl_ComputeDdr4RankSize :: "spd_size \<Rightarrow> u64 option" where
  "XFsbl_ComputeDdr4RankSize s =
     (let NbitDdramCapBsize =
            (if ucast (SpdDensityBanks s) AND 0xF \<le> (7 :: u32)
             then (ucast (SpdDensityBanks s) AND 0xF) + 28 else 0);
          Package3Ds = (ucast (SpdPackageType s) AND (0x3 :: u32) = 0x2);
          DieCount = (if Package3Ds then ucast (drop_bit 4 (SpdPackageType s)) AND 0x7 else 0)
      in shl64 (NbitDdramCapBsize - 3 + nbit_primary_bus_width s - nbit_sdram_width s + DieCount))"

definition XFsbl_ComputeDdr3RankSize :: "spd_size \<Rightarrow> u64 option" where
  "XFsbl_ComputeDdr3RankSize s =
     (let NbitDdramCapBsize =
            (if ucast (SpdDensityBanks s) AND 0xF < (7 :: u32)
             then (ucast (SpdDensityBanks s) AND 0xF) + 28 else 0)
      in shl64 (NbitDdramCapBsize - 3 + nbit_primary_bus_width s - nbit_sdram_width s))"

definition XFsbl_ComputeLpDdrRankSize :: "spd_size \<Rightarrow> u64 option" where
  "XFsbl_ComputeLpDdrRankSize s =
     (let NbitDdramCapBsize =
            (if ucast (SpdDensityBanks s) AND 0xF \<le> (7 :: u32)
             then (ucast (SpdDensityBanks s) AND 0xF) + 28 else 0);
          Package3Ds = (ucast (SpdPackageType s) AND (0x3 :: u32) = 0x2);
          DieCount = (if Package3Ds then ucast (drop_bit 4 (SpdPackageType s)) AND 0x7 else 0)
      in shl64 (NbitDdramCapBsize - 3 + nbit_primary_bus_width s - nbit_sdram_width s + DieCount))"

section \<open>The address map\<close>

abbreviation (input) SPD_MEMTYPE_DDR4 :: u32 where "SPD_MEMTYPE_DDR4 \<equiv> 0x0C"
abbreviation (input) XFSBL_HIF_COLUMN :: "nat \<Rightarrow> u32" where "XFSBL_HIF_COLUMN n \<equiv> 100 + of_nat n"
abbreviation (input) XFSBL_HIF_ROW :: "nat \<Rightarrow> u32" where "XFSBL_HIF_ROW n \<equiv> 200 + of_nat n"
abbreviation (input) XFSBL_HIF_BANK :: "nat \<Rightarrow> u32" where "XFSBL_HIF_BANK n \<equiv> 300 + of_nat n"
abbreviation (input) XFSBL_HIF_BG :: "nat \<Rightarrow> u32" where "XFSBL_HIF_BG n \<equiv> 400 + of_nat n"
abbreviation (input) XFSBL_HIF_RANK :: "nat \<Rightarrow> u32" where "XFSBL_HIF_RANK n \<equiv> 500 + of_nat n"
abbreviation (input) XFSBL_DDRC_BASE_ADDR :: u64 where "XFSBL_DDRC_BASE_ADDR \<equiv> 0xFD070000"

text \<open>The fields of \<open>XFsbl_DimmParams\<close> that the address map reads.\<close>

record XFsbl_DimmParams =
  MemType :: u32
  BusWidth :: u32
  NumRankAddr :: u32
  NumRowAddr :: u32
  NumColAddr :: u32
  NumBankAddr :: u32
  NumBgAddr :: u32

record DdrcInitData =
  AddrMapRowBit :: "u32 list"
  AddrMapColBit :: "u32 list"
  AddrMapBankBit :: "u32 list"
  AddrMapBgBit :: "u32 list"
  AddrMapCsBit0 :: u32
  AddrMapRowBits2To10 :: u32

text \<open>
  \<open>for (Index = i; ...; Index++) { HifAddr[Position] = f(Index); Position++; }\<close>, \<open>n\<close> rounds: the
  loop state is the position and the array.
\<close>

fun hif_for :: "(nat \<Rightarrow> u32) \<Rightarrow> nat \<Rightarrow> nat \<Rightarrow> nat \<times> u32 list \<Rightarrow> (nat \<times> u32 list) option" where
  "hif_for f i 0 (Position, HifAddr) = Some (Position, HifAddr)"
| "hif_for f i (Suc n) (Position, HifAddr) =
     (if Position < length HifAddr
      then hif_for f (Suc i) n (Suc Position, HifAddr[Position := f i]) else None)"

definition hif_upto :: "(nat \<Rightarrow> u32) \<Rightarrow> nat \<Rightarrow> u32 \<Rightarrow> nat \<times> u32 list \<Rightarrow> (nat \<times> u32 list) option" where
  "hif_upto f i bound = hif_for f i (unat bound - i)"

definition XFsbl_DdrCalcDdr4HifAddr :: "XFsbl_DimmParams \<Rightarrow> u32 list \<Rightarrow> (nat \<times> u32 list) option" where
  "XFsbl_DdrCalcDdr4HifAddr P HifAddr =
     Option.bind (hif_upto XFSBL_HIF_COLUMN 0 (NumColAddr P) (0, HifAddr)) (\<lambda>s.
     Option.bind (hif_upto XFSBL_HIF_BG 0 (NumBgAddr P) s) (\<lambda>s.
     Option.bind (hif_upto XFSBL_HIF_BANK 0 (NumBankAddr P) s) (\<lambda>s.
     Option.bind (hif_upto XFSBL_HIF_ROW 0 (NumRowAddr P) s) (\<lambda>s.
     hif_upto XFSBL_HIF_RANK 0 (NumRankAddr P) s))))"

definition video_buf_width :: "u32 \<Rightarrow> u32 \<Rightarrow> u32" where
  "video_buf_width bus VideoBuf =
     (let BufWidth = (case first_index VideoBuf (map (\<lambda>i. push_bit i 1) [0..<7]) of
            Some i \<Rightarrow> of_nat i + 20 | None \<Rightarrow> 20);
          BufWidth = (if bus = 16 then BufWidth + 2 else BufWidth)
      in if bus = 32 then BufWidth + 1 else BufWidth)"

text \<open>The four host address bits that the DDR4 layouts other than the default one fix.\<close>

definition hif_fixed4 :: "u32 list \<Rightarrow> u32 list" where
  "hif_fixed4 HifAddr = HifAddr[0 := XFSBL_HIF_COLUMN 0, 1 := XFSBL_HIF_COLUMN 1,
     2 := XFSBL_HIF_COLUMN 2, 3 := XFSBL_HIF_BG 0]"

definition XFsbl_DdrCalcHifAddrVideo ::
  "XFsbl_DimmParams \<Rightarrow> u32 list \<Rightarrow> u32 \<Rightarrow> (nat \<times> u32 list) option" where
  "XFsbl_DdrCalcHifAddrVideo P HifAddr VideoBuf =
     (let BufWidth = video_buf_width (BusWidth P) VideoBuf
      in if MemType P \<noteq> SPD_MEMTYPE_DDR4 then
           let RemainingRow = NumRowAddr P - (BufWidth - NumColAddr P - 3) in
           Option.bind (hif_upto XFSBL_HIF_COLUMN 3 (NumColAddr P) (0, HifAddr)) (\<lambda>s.
           Option.bind (hif_upto XFSBL_HIF_ROW 0 (BufWidth - NumColAddr P - 3) s) (\<lambda>s.
           Option.bind (hif_upto XFSBL_HIF_BANK 0 (NumBankAddr P) s) (\<lambda>s.
           Option.bind (hif_upto (\<lambda>i. XFSBL_HIF_ROW i + (BufWidth - NumColAddr P - 4)) 0
             RemainingRow s) (\<lambda>s.
           hif_upto XFSBL_HIF_RANK 0 (NumRankAddr P) s))))
         else
           let RemainingRow = NumRowAddr P - (BufWidth - NumColAddr P - 4) in
           Option.bind (hif_upto XFSBL_HIF_COLUMN 3 (NumColAddr P) (4, hif_fixed4 HifAddr)) (\<lambda>s.
           Option.bind (hif_upto XFSBL_HIF_ROW 0 (BufWidth - NumColAddr P - 4) s) (\<lambda>s.
           Option.bind (hif_upto XFSBL_HIF_BANK 0 (NumBankAddr P) s) (\<lambda>s.
           Option.bind (hif_upto (\<lambda>i. XFSBL_HIF_ROW i + (BufWidth - NumColAddr P - 4)) 0
             RemainingRow s) (\<lambda>s.
           hif_upto XFSBL_HIF_RANK 0 (NumRankAddr P) s)))))"

definition XFsbl_DdrCalcHifAddrBrcMap :: "XFsbl_DimmParams \<Rightarrow> u32 list \<Rightarrow> (nat \<times> u32 list) option" where
  "XFsbl_DdrCalcHifAddrBrcMap P HifAddr =
     Option.bind (hif_upto XFSBL_HIF_COLUMN 3 (NumColAddr P) (4, hif_fixed4 HifAddr)) (\<lambda>s.
     Option.bind (hif_upto XFSBL_HIF_ROW 0 (NumRowAddr P) s) (\<lambda>s.
     Option.bind (hif_upto XFSBL_HIF_BANK 0 (NumBankAddr P) s) (\<lambda>s.
     hif_upto XFSBL_HIF_RANK 0 (NumRankAddr P) s)))"

definition XFsbl_DdrCalcHifAddrMemMap :: "XFsbl_DimmParams \<Rightarrow> u32 list \<Rightarrow> (nat \<times> u32 list) option" where
  "XFsbl_DdrCalcHifAddrMemMap P HifAddr =
     Option.bind (hif_upto XFSBL_HIF_COLUMN 3 (NumColAddr P) (4, hif_fixed4 HifAddr)) (\<lambda>s.
     Option.bind (hif_upto XFSBL_HIF_BANK 0 (NumBankAddr P) s) (\<lambda>s.
     Option.bind (hif_upto XFSBL_HIF_ROW 0 (NumRowAddr P) s) (\<lambda>s.
     hif_upto XFSBL_HIF_RANK 0 (NumRankAddr P) s)))"

definition XFsbl_DdrCalcHifAddr :: "XFsbl_DimmParams \<Rightarrow> u32 list \<Rightarrow> (nat \<times> u32 list) option" where
  "XFsbl_DdrCalcHifAddr P HifAddr =
     Option.bind (hif_upto XFSBL_HIF_COLUMN 0 (NumColAddr P) (0, HifAddr)) (\<lambda>s.
     Option.bind (hif_upto XFSBL_HIF_BANK 0 (NumBankAddr P) s) (\<lambda>s.
     Option.bind (hif_upto XFSBL_HIF_ROW 0 (NumRowAddr P) s) (\<lambda>s.
     hif_upto XFSBL_HIF_RANK 0 (NumRankAddr P) s)))"

text \<open>
  \<open>for (Bit = ...) a[Bit] = ...;\<close> over the listed bits, where computing an entry may run out of
  the array.
\<close>

fun set_entries :: "(nat \<Rightarrow> u32 option) \<Rightarrow> nat list \<Rightarrow> u32 list \<Rightarrow> u32 list option" where
  "set_entries f [] a = Some a"
| "set_entries f (b # bs) a = Option.bind (f b) (\<lambda>v. set_entries f bs (a[b := v]))"

definition XFsbl_DdrCalcBankAddr ::
  "XFsbl_DimmParams \<Rightarrow> u32 list \<Rightarrow> DdrcInitData \<Rightarrow> DdrcInitData option" where
  "XFsbl_DdrCalcBankAddr P HifAddr d =
     map_option (\<lambda>a. d\<lparr>AddrMapBankBit := a\<rparr>)
       (set_entries (\<lambda>b.
          if of_nat b < NumBankAddr P
          then map_option (\<lambda>Index. of_nat Index - (of_nat b + 2)) (first_index (XFSBL_HIF_BANK b) HifAddr)
          else Some 0x1F) [0..<3] (AddrMapBankBit d))"

definition XFsbl_DdrCalcBgAddr ::
  "XFsbl_DimmParams \<Rightarrow> u32 list \<Rightarrow> DdrcInitData \<Rightarrow> DdrcInitData option" where
  "XFsbl_DdrCalcBgAddr P HifAddr d =
     map_option (\<lambda>a. d\<lparr>AddrMapBgBit := a\<rparr>)
       (set_entries (\<lambda>b.
          if of_nat b < NumBgAddr P
          then map_option (\<lambda>Index. if Index \<ge> b + 2 then of_nat Index - (of_nat b + 2) else 0)
                 (first_index (XFSBL_HIF_BG b) HifAddr)
          else Some 0x1F) [0..<2] (AddrMapBgBit d))"

definition XFsbl_DdrCalcColAddr ::
  "XFsbl_DimmParams \<Rightarrow> u32 list \<Rightarrow> DdrcInitData \<Rightarrow> DdrcInitData option" where
  "XFsbl_DdrCalcColAddr P HifAddr d =
     map_option (\<lambda>a. d\<lparr>AddrMapColBit := a\<rparr>)
       (set_entries (\<lambda>b.
          if of_nat b < NumColAddr P
          then map_option (\<lambda>Index. of_nat Index - of_nat b) (first_index (XFSBL_HIF_COLUMN b) HifAddr)
          else Some 0xF) [2..<12] (AddrMapColBit d))"

definition XFsbl_DdrCalcRowAddr ::
  "XFsbl_DimmParams \<Rightarrow> u32 list \<Rightarrow> DdrcInitData \<Rightarrow> DdrcInitData option" where
  "XFsbl_DdrCalcRowAddr P HifAddr d =
     map_option (\<lambda>a. d\<lparr>AddrMapRowBits2To10 := 15, AddrMapRowBit := a\<rparr>)
       (set_entries (\<lambda>b.
          if of_nat b < NumRowAddr P
          then map_option (\<lambda>Index. of_nat Index - (of_nat b + 6)) (first_index (XFSBL_HIF_ROW b) HifAddr)
          else Some 0xF) [0..<18] (AddrMapRowBit d))"

text \<open>What the design's \<open>XPAR_PSU_DDRC_0_*\<close> parameters select.\<close>

record ddr_config =
  VideoBuf :: u32
  BrcMapping :: u32
  Ddr4AddrMapping :: u32

definition XFsbl_DdrHifLayout ::
  "ddr_config \<Rightarrow> XFsbl_DimmParams \<Rightarrow> u32 list \<Rightarrow> (nat \<times> u32 list) option" where
  "XFsbl_DdrHifLayout c P HifAddr =
     (if VideoBuf c \<noteq> 0 then XFsbl_DdrCalcHifAddrVideo P HifAddr (VideoBuf c)
      else if BrcMapping c = 1 then
        if MemType P \<noteq> SPD_MEMTYPE_DDR4 then XFsbl_DdrCalcHifAddr P HifAddr
        else XFsbl_DdrCalcHifAddrBrcMap P HifAddr
      else if MemType P \<noteq> SPD_MEMTYPE_DDR4 then XFsbl_DdrCalcHifAddr P HifAddr
      else if Ddr4AddrMapping c = 1 then XFsbl_DdrCalcHifAddrMemMap P HifAddr
      else XFsbl_DdrCalcDdr4HifAddr P HifAddr)"

text \<open>One step of \<open>HifAddr[Index] = HifAddr[Index + 1]\<close> over the array, a zero at its end.\<close>

definition hif_shift :: "u32 list \<Rightarrow> u32 list" where
  "hif_shift HifAddr = drop 1 HifAddr @ [0]"

definition hif_narrow :: "u32 \<Rightarrow> u32 list \<Rightarrow> u32 list" where
  "hif_narrow bus HifAddr =
     (let HifAddr = (if bus \<le> 32 then hif_shift HifAddr else HifAddr)
      in if bus = 16 then hif_shift HifAddr else HifAddr)"

text \<open>\<open>(v & m) << s\<close> with a mask of \<open>w\<close> ones.\<close>

definition reg_field :: "nat \<Rightarrow> nat \<Rightarrow> u32 \<Rightarrow> u32" where
  "reg_field w s v = push_bit s (v AND mask w)"

definition addr_map_regs :: "DdrcInitData \<Rightarrow> u32 list" where
  "addr_map_regs d =
    [reg_field 5 0 (AddrMapCsBit0 d),
     reg_field 5 16 (AddrMapBankBit d ! 2) OR reg_field 5 8 (AddrMapBankBit d ! 1) OR
       reg_field 5 0 (AddrMapBankBit d ! 0),
     reg_field 4 24 (AddrMapColBit d ! 5) OR reg_field 4 16 (AddrMapColBit d ! 4) OR
       reg_field 4 8 (AddrMapColBit d ! 3) OR reg_field 4 0 (AddrMapColBit d ! 2),
     reg_field 4 24 (AddrMapColBit d ! 9) OR reg_field 4 16 (AddrMapColBit d ! 8) OR
       reg_field 4 8 (AddrMapColBit d ! 7) OR reg_field 4 0 (AddrMapColBit d ! 6),
     reg_field 4 8 (AddrMapColBit d ! 11) OR reg_field 4 0 (AddrMapColBit d ! 10),
     reg_field 4 24 (AddrMapRowBit d ! 11) OR reg_field 4 16 (AddrMapRowBits2To10 d) OR
       reg_field 4 8 (AddrMapRowBit d ! 1) OR reg_field 4 0 (AddrMapRowBit d ! 0),
     reg_field 4 24 (AddrMapRowBit d ! 15) OR reg_field 4 16 (AddrMapRowBit d ! 14) OR
       reg_field 4 8 (AddrMapRowBit d ! 13) OR reg_field 4 0 (AddrMapRowBit d ! 12),
     reg_field 4 8 (AddrMapRowBit d ! 17) OR reg_field 4 0 (AddrMapRowBit d ! 16),
     reg_field 5 8 (AddrMapBgBit d ! 1) OR reg_field 5 0 (AddrMapBgBit d ! 0),
     reg_field 4 24 (AddrMapRowBit d ! 5) OR reg_field 4 16 (AddrMapRowBit d ! 4) OR
       reg_field 4 8 (AddrMapRowBit d ! 3) OR reg_field 4 0 (AddrMapRowBit d ! 2),
     reg_field 4 24 (AddrMapRowBit d ! 9) OR reg_field 4 16 (AddrMapRowBit d ! 8) OR
       reg_field 4 8 (AddrMapRowBit d ! 7) OR reg_field 4 0 (AddrMapRowBit d ! 6),
     reg_field 4 0 (AddrMapRowBit d ! 10)]"

definition XFsbl_DdrCalcAddrMap ::
  "'s bus \<Rightarrow> ddr_config \<Rightarrow> XFsbl_DimmParams \<Rightarrow> DdrcInitData \<Rightarrow> 's \<Rightarrow> (DdrcInitData \<times> 's) option" where
  "XFsbl_DdrCalcAddrMap hw c P d s =
     Option.bind (XFsbl_DdrHifLayout c P (replicate 40 0)) (\<lambda>(_, HifAddr).
     let HifAddr = hif_narrow (BusWidth P) HifAddr in
     Option.bind (XFsbl_DdrCalcBankAddr P HifAddr d) (\<lambda>d.
     Option.bind (XFsbl_DdrCalcColAddr P HifAddr d) (\<lambda>d.
     Option.bind (XFsbl_DdrCalcRowAddr P HifAddr d) (\<lambda>d.
     Option.bind (XFsbl_DdrCalcBgAddr P HifAddr d) (\<lambda>d.
     let d = d\<lparr>AddrMapCsBit0 := 0x1F\<rparr>
     in Some (d, fold (\<lambda>i s. Out32 hw s (XFSBL_DDRC_BASE_ADDR + 0x200 + of_nat i * 4)
                   (addr_map_regs d ! i)) [0..<12] s))))))"

section \<open>What logarithm and rank sizes mean\<close>

lemma log2_loop_bounds:
  "XVal \<noteq> 0 \<Longrightarrow> \<exists>k. log2_loop RVal XVal = RVal + of_nat k \<and> k < 32 \<and>
     2 ^ k \<le> unat XVal \<and> unat XVal < 2 ^ Suc k"
proof (induction RVal XVal rule: log2_loop.induct)
  case (1 RVal XVal)
  show ?case
  proof (cases "XVal = 1")
    case True
    then show ?thesis by (intro exI [of _ 0]) (simp add: log2_loop.simps)
  next
    case False
    have half: "unat (drop_bit 1 XVal) = unat XVal div 2"
      by (simp add: drop_bit_Suc unat_div)
    have "unat XVal \<noteq> 0" "unat XVal \<noteq> 1"
      using False "1.prems" unat_eq_1 [of XVal] by (simp_all add: unat_eq_0)
    then have "unat XVal div 2 \<noteq> 0" by simp
    then have "drop_bit 1 XVal \<noteq> 0" unfolding half [symmetric] by (metis unat_0)
    with "1.IH" False "1.prems" obtain k where
      k: "log2_loop (RVal + 1) (drop_bit 1 XVal) = RVal + 1 + of_nat k"
        "2 ^ k \<le> unat XVal div 2" "unat XVal div 2 < 2 ^ Suc k"
      using half by auto
    have b: "2 ^ Suc k \<le> unat XVal" "unat XVal < 2 ^ Suc (Suc k)"
      using k(2,3) by simp_all
    have "unat XVal < 2 ^ 32" using unsigned_less [of XVal] by simp
    with b(1) have "(2::nat) ^ Suc k < 2 ^ 32" by linarith
    then have "Suc k < 32" by (simp only: power_strict_increasing_iff)
    with b k(1) False "1.prems" show ?thesis
      by (intro exI [of _ "Suc k"]) (simp add: log2_loop.simps [of RVal XVal])
  qed
qed

text \<open>
  \<open>XFsbl_GetLog2\<close> is the integer part of the base-two logarithm of every 32-bit value but
  zero, and zero there.
\<close>

lemma get_log2_floor:
  "XFsbl_GetLog2 0 = 0 \<and>
   (x \<noteq> 0 \<longrightarrow> 2 ^ unat (XFsbl_GetLog2 x) \<le> unat x \<and> unat x < 2 ^ Suc (unat (XFsbl_GetLog2 x)))"
  using log2_loop_bounds [of x 0]
  by (auto simp: XFsbl_GetLog2_def take_bit_nat_eq_self unat_of_nat)

text \<open>The JEDEC reading of the same bytes.\<close>

definition spd_device_bits :: "spd_size \<Rightarrow> nat" where
  "spd_device_bits s = 2 ^ (unat (SpdDensityBanks s AND 0xF) + 28)"

definition spd_bus_bits :: "spd_size \<Rightarrow> nat" where
  "spd_bus_bits s = 8 * 2 ^ unat (SpdBusWidth s AND 0x7)"

definition spd_device_width :: "spd_size \<Rightarrow> nat" where
  "spd_device_width s = 4 * 2 ^ unat (SpdOrganization s AND 0x7)"

text \<open>
  The die count field of a stacked (3DS) package holds one less than the number of dies; the code takes
  it for the logarithm of that number.
\<close>

definition spd_dies :: "spd_size \<Rightarrow> nat" where
  "spd_dies s = (if SpdPackageType s AND 0x3 = 0x2
     then unat (drop_bit 4 (SpdPackageType s) AND 0x7) + 1 else 1)"

definition spd_valid :: "spd_size \<Rightarrow> bool" where
  "spd_valid s \<longleftrightarrow> SpdDensityBanks s AND 0xF \<le> 7 \<and> SpdBusWidth s AND 0x7 < 4 \<and>
     SpdOrganization s AND 0x7 < 4"

lemma ucast_and_u8: "(ucast (x :: u8) AND 0x7 :: u32) = ucast (x AND 0x7)"
  "(ucast (x :: u8) AND 0xF :: u32) = ucast (x AND 0xF)"
  "(ucast (x :: u8) AND 0x3 :: u32) = ucast (x AND 0x3)"
  by (simp_all add: unsigned_and_eq)

lemma ucast_le_u8: "(ucast (x :: u8) :: u32) \<le> 7 \<longleftrightarrow> x \<le> 7" "(ucast (x :: u8) :: u32) < 4 \<longleftrightarrow> x < 4"
 "(ucast (x :: u8) :: u32) < 7 \<longleftrightarrow> x < 7" "(ucast (x :: u8) :: u32) = 2 \<longleftrightarrow> x = 2"
  by (simp_all add: word_le_nat_alt word_less_nat_alt word_unat_eq_iff unat_ucast_u8)

lemma shl64_sum:
  assumes "d \<le> 7" "b < 4" "w < 4" "e \<le> 7"
  shows "shl64 (of_nat d + 28 - 3 + (of_nat b + 3) - (of_nat w + 2) + of_nat e) =
    Some (push_bit (d + b + e + 26 - w) 1)"
proof -
  have "(of_nat d + 28 - 3 + (of_nat b + 3) - (of_nat w + 2) + of_nat e :: u32) =
    of_nat (d + b + e + 26 - w)"
    using assms by (simp add: of_nat_diff algebra_simps)
  moreover have "unat (of_nat (d + b + e + 26 - w) :: u32) = d + b + e + 26 - w"
    using assms by (intro unat_of_nat_small) simp
  ultimately show ?thesis using assms by (simp only: shl64_def word_less_nat_alt) simp
qed

lemma rank_bytes:
  assumes "w < 4" "d \<le> 7" "b < 4" "e \<le> 7"
  shows "unat (push_bit (d + b + e + 26 - w) 1 :: u64) * 8 * (4 * 2 ^ w) = 2 ^ (d + 28) * (8 * 2 ^ b) * 2 ^ e"
proof -
  have "unat (push_bit (d + b + e + 26 - w) 1 :: u64) = 2 ^ (d + b + e + 26 - w)"
    using assms by (intro unat_push_bit_1) simp
  then have "unat (push_bit (d + b + e + 26 - w) 1 :: u64) * 8 * (4 * 2 ^ w) = 2 ^ (d + b + e + 26 - w + 5 + w)"
    by (simp add: power_add)
  also have "d + b + e + 26 - w + 5 + w = (d + 28) + (3 + b) + e" using assms by simp
  finally show ?thesis by (simp add: power_add)
qed

lemma dies_power: "n < (2::nat) ^ (n - 1) \<longleftrightarrow> n = 0 \<or> 2 < n"
proof (induction n)
  case (Suc n)
  then show ?case by (cases n) (auto simp: not_less le_Suc_eq)
qed simp

lemma power_le_dies: "2 ^ e = e + (1::nat) \<longleftrightarrow> e \<le> 1"
  using dies_power [of "e + 1"] by (cases e) (auto simp: le_Suc_eq)

text \<open>
  C8. For SPD bytes whose codes are in range, each rank-size function returns a size, without an undefined shift.
  For DDR3 it is the size of the JEDEC relation: bytes times eight times the device width is the capacity of one
  device times the bus width. For DDR4 the relation has the number of dies of a stacked package as a further
  factor, of which the code makes two to the power of the number less one: the size is the right one for one die
  and for two, and for a stack of more dies it is larger than the memory. The function for LPDDR modules returns
  the same value as that for DDR4 ones.
\<close>

theorem rank_sizes_correct:
  assumes "spd_valid s"
  shows "(\<exists>r. XFsbl_ComputeDdr4RankSize s = Some r \<and> XFsbl_ComputeLpDdrRankSize s = Some r \<and>
            unat r * 8 * spd_device_width s = spd_device_bits s * spd_bus_bits s * 2 ^ (spd_dies s - 1) \<and>
            (unat r * 8 * spd_device_width s = spd_device_bits s * spd_bus_bits s * spd_dies s \<longleftrightarrow> spd_dies s \<le> 2) \<and>
            (unat r * 8 * spd_device_width s > spd_device_bits s * spd_bus_bits s * spd_dies s \<longleftrightarrow> 2 < spd_dies s)) \<and>
         (SpdDensityBanks s AND 0xF < 7 \<longrightarrow> (\<exists>r. XFsbl_ComputeDdr3RankSize s = Some r \<and>
            unat r * 8 * spd_device_width s = spd_device_bits s * spd_bus_bits s))"
proof -
  define d b w e where "d = unat (SpdDensityBanks s AND 0xF)" and "b = unat (SpdBusWidth s AND 0x7)"
    and "w = unat (SpdOrganization s AND 0x7)"
    and "e = (if SpdPackageType s AND 0x3 = 0x2 then unat (drop_bit 4 (SpdPackageType s) AND 0x7) else 0)"
  have "drop_bit 4 (SpdPackageType s) AND 0x7 \<le> 7"
    by (rule word_and_le1)
  then have bounds: "d \<le> 7" "b < 4" "w < 4" "e \<le> 7"
    using assms by (simp_all add: spd_valid_def d_def b_def w_def e_def word_le_nat_alt word_less_nat_alt)
  have of_nat: "of_nat d = (ucast (SpdDensityBanks s AND 0xF) :: u32)"
    "of_nat b = (ucast (SpdBusWidth s AND 0x7) :: u32)"
    "of_nat w = (ucast (SpdOrganization s AND 0x7) :: u32)"
    "of_nat e = (if SpdPackageType s AND 0x3 = 0x2
       then (ucast (drop_bit 4 (SpdPackageType s) AND 0x7) :: u32) else 0)"
    by (simp_all add: d_def b_def w_def e_def word_unat_eq_iff)
  have fields: "nbit_primary_bus_width s = of_nat b + 3" "nbit_sdram_width s = of_nat w + 2"
    using assms by (simp_all add: of_nat spd_valid_def nbit_primary_bus_width_def nbit_sdram_width_def
        ucast_and_u8 ucast_le_u8)
  have ddr4: "XFsbl_ComputeDdr4RankSize s = Some (push_bit (d + b + e + 26 - w) 1)"
    "XFsbl_ComputeLpDdrRankSize s = Some (push_bit (d + b + e + 26 - w) 1)"
    using assms shl64_sum [OF bounds]
    by (cases "SpdPackageType s AND 0x3 = 0x2";
        simp add: XFsbl_ComputeDdr4RankSize_def XFsbl_ComputeLpDdrRankSize_def Let_def fields
        spd_valid_def ucast_and_u8 ucast_le_u8 of_nat)+
  have ddr3: "XFsbl_ComputeDdr3RankSize s = Some (push_bit (d + b + 0 + 26 - w) 1)"
    if "SpdDensityBanks s AND 0xF < 7"
    using that shl64_sum [OF bounds(1-3), of 0]
    by (simp add: XFsbl_ComputeDdr3RankSize_def Let_def fields ucast_and_u8 ucast_le_u8 of_nat)
  have sizes: "spd_device_width s = 4 * 2 ^ w" "spd_device_bits s = 2 ^ (d + 28)"
    "spd_bus_bits s = 8 * 2 ^ b" "spd_dies s = e + 1"
    by (simp_all add: spd_device_width_def spd_device_bits_def spd_bus_bits_def spd_dies_def
        d_def b_def w_def e_def)
  have pos: "0 < spd_device_bits s * spd_bus_bits s" unfolding sizes by simp
  have dies: "spd_device_bits s * spd_bus_bits s * (e + 1) < spd_device_bits s * spd_bus_bits s * 2 ^ e \<longleftrightarrow> 2 < e + 1"
    "spd_device_bits s * spd_bus_bits s * 2 ^ e = spd_device_bits s * spd_bus_bits s * (e + 1) \<longleftrightarrow> e + 1 \<le> 2"
    using pos dies_power [of "e + 1"] power_le_dies [of e]
    by (simp_all only: mult_less_cancel1 mult_cancel1 diff_add_inverse2) auto
  have r: "unat (push_bit (d + b + e + 26 - w) 1 :: u64) * 8 * spd_device_width s = spd_device_bits s * spd_bus_bits s * 2 ^ e"
    unfolding sizes by (rule rank_bytes [OF bounds(3,1,2,4)])
  have r3: "unat (push_bit (d + b + 0 + 26 - w) 1 :: u64) * 8 * spd_device_width s = spd_device_bits s * spd_bus_bits s"
    unfolding sizes using rank_bytes [OF bounds(3,1,2), of 0] by simp
  show ?thesis
    unfolding ddr4 r sizes(4) using dies r r3 ddr3 by (intro conjI exI impI) (auto simp only: option.inject diff_add_inverse2)
qed

text \<open>A 64-bit module of eight 8-bit 8 Gbit devices is 8 GiB; of stacks of four such dies it would be 32 GiB, not 64.\<close>

theorem rank_sizes_correct_witness:
  "(\<exists>r. XFsbl_ComputeDdr4RankSize \<lparr>SpdDensityBanks = 0x85, SpdBusWidth = 0x03, SpdOrganization = 0x01,
      SpdPackageType = 0x00\<rparr> = Some r \<and> unat r = 2 ^ 33) \<and>
   (\<exists>r. XFsbl_ComputeDdr4RankSize \<lparr>SpdDensityBanks = 0x85, SpdBusWidth = 0x03, SpdOrganization = 0x01,
      SpdPackageType = 0xB2\<rparr> = Some r \<and> unat r = 2 ^ 36)"
  using rank_sizes_correct [of "\<lparr>SpdDensityBanks = 0x85, SpdBusWidth = 0x03, SpdOrganization = 0x01,
      SpdPackageType = 0x00\<rparr>"] rank_sizes_correct [of "\<lparr>SpdDensityBanks = 0x85, SpdBusWidth = 0x03,
      SpdOrganization = 0x01, SpdPackageType = 0xB2\<rparr>"]
  by (auto simp: spd_valid_def spd_device_width_def spd_device_bits_def spd_bus_bits_def spd_dies_def)

section \<open>The layouts as lists of device bits\<close>

datatype dram_bit = Col nat | Row nat | Bank nat | Bg nat | Rank nat

fun hif_code :: "dram_bit \<Rightarrow> u32" where
  "hif_code (Col n) = XFSBL_HIF_COLUMN n"
| "hif_code (Row n) = XFSBL_HIF_ROW n"
| "hif_code (Bank n) = XFSBL_HIF_BANK n"
| "hif_code (Bg n) = XFSBL_HIF_BG n"
| "hif_code (Rank n) = XFSBL_HIF_RANK n"

fun bit_index :: "dram_bit \<Rightarrow> nat" where
  "bit_index (Col n) = n"
| "bit_index (Row n) = n"
| "bit_index (Bank n) = n"
| "bit_index (Bg n) = n"
| "bit_index (Rank n) = n"

definition proper_bit :: "dram_bit \<Rightarrow> bool" where
  "proper_bit b \<longleftrightarrow> bit_index b < 100"

lemma hif_code_nat:
  "proper_bit b \<Longrightarrow> unat (hif_code b) = (case b of Col n \<Rightarrow> 100 + n | Row n \<Rightarrow> 200 + n
     | Bank n \<Rightarrow> 300 + n | Bg n \<Rightarrow> 400 + n | Rank n \<Rightarrow> 500 + n)"
  using unat_of_nat_small [of "100 + bit_index b", where 'a = 32]
    unat_of_nat_small [of "200 + bit_index b", where 'a = 32]
    unat_of_nat_small [of "300 + bit_index b", where 'a = 32]
    unat_of_nat_small [of "400 + bit_index b", where 'a = 32]
    unat_of_nat_small [of "500 + bit_index b", where 'a = 32]
  by (cases b) (simp_all add: proper_bit_def)

lemma hif_code_inj: "inj_on hif_code {b. proper_bit b}"
proof (rule inj_onI)
  fix a b
  assume p: "a \<in> {b. proper_bit b}" "b \<in> {b. proper_bit b}" and "hif_code a = hif_code b"
  then have "unat (hif_code a) = unat (hif_code b)" by simp
  with p show "a = b"
    unfolding mem_Collect_eq hif_code_nat [OF p(1) [unfolded mem_Collect_eq]]
      hif_code_nat [OF p(2) [unfolded mem_Collect_eq]]
    by (auto simp: proper_bit_def split: dram_bit.splits)
qed

lemma hif_code_nonzero: "proper_bit b \<Longrightarrow> hif_code b \<noteq> 0"
  using hif_code_nat [of b] by (auto split: dram_bit.splits)

lemma first_index_layout:
  assumes "proper_bit b" "\<forall>a\<in>set L. proper_bit a"
  shows "first_index (hif_code b) (map hif_code L @ replicate k 0) = first_index b L"
proof -
  have inj: "inj_on hif_code (insert b (set L))"
    by (rule inj_on_subset [OF hif_code_inj]) (use assms in auto)
  then have m: "first_index (hif_code b) (map hif_code L) = first_index b L"
    by (rule first_index_map_inj)
  have "hif_code b \<in> set (map hif_code L) \<longleftrightarrow> b \<in> set L"
    using inj by (auto simp: inj_on_def)
  moreover have "first_index (hif_code b) (replicate k 0) = None"
    using hif_code_nonzero [OF assms(1)] by simp
  moreover have "b \<notin> set L \<Longrightarrow> first_index b L = None" by simp
  ultimately show ?thesis
    using m by (cases "b \<in> set L") (simp_all add: first_index_append del: first_index_None)
qed

text \<open>Writing a run of names at the position reached extends the layout by them.\<close>

lemma hif_for_extends:
  "n \<le> k \<Longrightarrow> hif_for f i n (length xs, xs @ replicate k 0) =
     Some (length xs + n, (xs @ map f [i..<i + n]) @ replicate (k - n) 0)"
proof (induction n arbitrary: i xs k)
  case 0
  then show ?case by simp
next
  case (Suc n)
  then obtain m where k: "k = Suc m" by (cases k) auto
  have "(xs @ replicate k 0)[length xs := f i] = (xs @ [f i]) @ replicate m 0"
    by (simp add: k)
  with Suc.IH [of m "Suc i" "xs @ [f i]"] Suc.prems show ?case
    by (simp add: k upt_conv_Cons del: upt_Suc)
qed

lemma hif_upto_extends:
  assumes "unat bound - i \<le> k" "p = length L"
    and "\<And>n. f n = hif_code (c n)"
  shows "hif_upto f i bound (p, map hif_code L @ replicate k 0) =
     Some (length (L @ map c [i..<unat bound]),
       map hif_code (L @ map c [i..<unat bound]) @ replicate (k - (unat bound - i)) 0)"
  using hif_for_extends [of "unat bound - i" k f i "map hif_code L"] assms
  by (cases "i \<le> unat bound") (simp_all add: hif_upto_def comp_def)

section \<open>The layouts\<close>

text \<open>What each host address bit carries, from bit 0 up, for the layouts the code selects from.\<close>

definition video_low_rows :: "ddr_config \<Rightarrow> XFsbl_DimmParams \<Rightarrow> nat" where
  "video_low_rows c P = unat (video_buf_width (BusWidth P) (VideoBuf c)) - unat (NumColAddr P) - 4"

definition ddr_layout :: "ddr_config \<Rightarrow> XFsbl_DimmParams \<Rightarrow> dram_bit list" where
  "ddr_layout c P =
     (let cols = map Col [0..<unat (NumColAddr P)]; cols3 = map Col [3..<unat (NumColAddr P)];
          rows = (\<lambda>i. map Row [i..<unat (NumRowAddr P)]); bgs = map Bg [0..<unat (NumBgAddr P)];
          banks = map Bank [0..<unat (NumBankAddr P)]; ranks = map Rank [0..<unat (NumRankAddr P)];
          fixed4 = [Col 0, Col 1, Col 2, Bg 0]; m = video_low_rows c P
      in if MemType P \<noteq> SPD_MEMTYPE_DDR4 then cols @ banks @ rows 0 @ ranks
         else if VideoBuf c \<noteq> 0 then fixed4 @ cols3 @ map Row [0..<m] @ banks @ rows m @ ranks
         else if BrcMapping c = 1 then fixed4 @ cols3 @ rows 0 @ banks @ ranks
         else if Ddr4AddrMapping c = 1 then fixed4 @ cols3 @ banks @ rows 0 @ ranks
         else cols @ bgs @ banks @ rows 0 @ ranks)"

text \<open>
  The geometries the layouts are meant for: a 64-bit bus, no more bits of a kind than there are
  controller fields, one bank-group bit in the layouts that fix one, no bank groups without DDR4,
  no video layout without DDR4, and rows that begin where the row fields can point.
\<close>

definition default_ddr4 :: "ddr_config \<Rightarrow> XFsbl_DimmParams \<Rightarrow> bool" where
  "default_ddr4 c P \<longleftrightarrow> MemType P = SPD_MEMTYPE_DDR4 \<and> VideoBuf c = 0 \<and> BrcMapping c \<noteq> 1 \<and>
     Ddr4AddrMapping c \<noteq> 1"

definition geometry_ok :: "ddr_config \<Rightarrow> XFsbl_DimmParams \<Rightarrow> bool" where
  "geometry_ok c P \<longleftrightarrow> BusWidth P = 64 \<and>
     8 \<le> NumColAddr P \<and> NumColAddr P \<le> 12 \<and> NumRowAddr P \<le> 18 \<and> NumBankAddr P \<le> 3 \<and>
     NumRankAddr P \<le> 2 \<and>
     (if MemType P \<noteq> SPD_MEMTYPE_DDR4 then NumBgAddr P = 0 \<and> VideoBuf c = 0
      else if default_ddr4 c P then NumBgAddr P \<le> 2 else NumBgAddr P = 1) \<and>
     (VideoBuf c \<noteq> 0 \<longrightarrow> video_low_rows c P \<le> unat (NumRowAddr P))"

definition hif_padded :: "dram_bit list \<Rightarrow> u32 list" where
  "hif_padded L = map hif_code L @ replicate (40 - length L) 0"

definition hif_state :: "dram_bit list \<Rightarrow> nat \<times> u32 list" where
  "hif_state L = (length L, hif_padded L)"

lemma hif_state_init: "(0, replicate 40 0) = hif_state []"
  "(4, hif_fixed4 (replicate 40 0)) = hif_state [Col 0, Col 1, Col 2, Bg 0]"
  by (simp_all add: hif_state_def hif_padded_def hif_fixed4_def numeral_eq_Suc)

lemma hif_upto_state:
  assumes "length L + (unat bound - i) \<le> 40" "\<And>n. f n = hif_code (c n)"
  shows "hif_upto f i bound (hif_state L) = Some (hif_state (L @ map c [i..<unat bound]))"
  using hif_upto_extends [of bound i "40 - length L" "length L" L f c] assms
  by (simp add: hif_state_def hif_padded_def diff_diff_add)

lemmas hif_upto_layout =
  hif_upto_state [where c = Col, unfolded hif_code.simps, OF _ refl]
  hif_upto_state [where c = Row, unfolded hif_code.simps, OF _ refl]
  hif_upto_state [where c = Bank, unfolded hif_code.simps, OF _ refl]
  hif_upto_state [where c = Bg, unfolded hif_code.simps, OF _ refl]
  hif_upto_state [where c = Rank, unfolded hif_code.simps, OF _ refl]
  hif_upto_state [where c = "\<lambda>i. Row (i + m)" for m]

lemma geometry_bounds:
  assumes "geometry_ok c P"
  shows "8 \<le> unat (NumColAddr P)" "unat (NumColAddr P) \<le> 12" "unat (NumRowAddr P) \<le> 18"
    "unat (NumBankAddr P) \<le> 3" "unat (NumRankAddr P) \<le> 2" "unat (NumBgAddr P) \<le> 2"
    "BusWidth P = 64"
  using assms by (auto simp: geometry_ok_def word_le_nat_alt split: if_splits)

lemma video_width_range:
  "20 \<le> unat (video_buf_width 64 v)" "unat (video_buf_width 64 v) \<le> 26"
proof -
  define r where "r = first_index v (map (\<lambda>i. push_bit i 1) [0..<7])"
  have w: "video_buf_width 64 v = (case r of Some i \<Rightarrow> of_nat i + 20 | None \<Rightarrow> 20)"
    unfolding r_def video_buf_width_def Let_def by simp
  show "20 \<le> unat (video_buf_width 64 v)" "unat (video_buf_width 64 v) \<le> 26"
  proof (atomize (full), cases r)
    case None
    then show "20 \<le> unat (video_buf_width 64 v) \<and> unat (video_buf_width 64 v) \<le> 26" by (simp add: w)
  next
    case (Some i)
    then have "i < 7" using first_index_Some [of v _ i] by (fastforce simp: r_def)
    then have "unat (of_nat (i + 20) :: u32) = i + 20" by (intro unat_of_nat_small) simp
    with \<open>i < 7\<close> Some show "20 \<le> unat (video_buf_width 64 v) \<and> unat (video_buf_width 64 v) \<le> 26"
      by (simp add: w)
  qed
qed

lemma video_rows:
  assumes "geometry_ok c P" "VideoBuf c \<noteq> 0"
  shows "unat (video_buf_width (BusWidth P) (VideoBuf c) - NumColAddr P - 4) = video_low_rows c P"
    "unat (NumRowAddr P - (video_buf_width (BusWidth P) (VideoBuf c) - NumColAddr P - 4)) =
      unat (NumRowAddr P) - video_low_rows c P"
    "video_low_rows c P \<le> unat (NumRowAddr P)"
proof -
  let ?w = "video_buf_width (BusWidth P) (VideoBuf c)"
  note b = geometry_bounds [OF assms(1)]
  have w: "20 \<le> unat ?w" using video_width_range b(7) by simp
  then have 1: "unat (?w - NumColAddr P) = unat ?w - unat (NumColAddr P)"
    using b by (intro unat_sub) (simp add: word_le_nat_alt)
  then have "unat (?w - NumColAddr P - 4) = unat (?w - NumColAddr P) - unat (4 :: u32)"
    using b w by (intro unat_sub) (simp add: word_le_nat_alt)
  with 1 show 2: "unat (?w - NumColAddr P - 4) = video_low_rows c P"
    by (simp add: video_low_rows_def)
  show 3: "video_low_rows c P \<le> unat (NumRowAddr P)"
    using assms by (simp add: geometry_ok_def)
  show "unat (NumRowAddr P - (?w - NumColAddr P - 4)) = unat (NumRowAddr P) - video_low_rows c P"
    using 2 3 by (subst unat_sub) (simp_all add: word_le_nat_alt)
qed

lemma HifLayout_eq:
  assumes "geometry_ok c P"
  shows "XFsbl_DdrHifLayout c P (replicate 40 0) = Some (hif_state (ddr_layout c P))"
proof -
  note b = geometry_bounds [OF assms]
  have video: "XFsbl_DdrCalcHifAddrVideo P (replicate 40 0) (VideoBuf c) = Some (hif_state (ddr_layout c P))"
    if v: "VideoBuf c \<noteq> 0" "MemType P = SPD_MEMTYPE_DDR4"
  proof -
    let ?m = "video_low_rows c P" and ?w = "video_buf_width (BusWidth P) (VideoBuf c) - NumColAddr P - 4"
    have w: "?w = of_nat ?m" by (simp add: video_rows(1) [OF assms v(1), symmetric])
    have rows: "map (\<lambda>i. Row (i + ?m)) [0..<unat (NumRowAddr P) - ?m] = map Row [?m..<unat (NumRowAddr P)]"
      using video_rows(3) [OF assms v(1)] by (intro nth_equalityI) (simp_all add: ac_simps)
    have low: "hif_upto XFSBL_HIF_ROW 0 (of_nat ?m) (hif_state L) = Some (hif_state (L @ map Row [0..<?m]))"
      if "length L + ?m \<le> 40" for L
      using hif_upto_layout(2) [of L ?w 0] that video_rows(1) [OF assms v(1)] by (simp add: w)
    have high: "hif_upto (\<lambda>i. XFSBL_HIF_ROW i + of_nat ?m) 0 (NumRowAddr P - of_nat ?m) (hif_state L) =
        Some (hif_state (L @ map Row [?m..<unat (NumRowAddr P)]))"
      if "length L + (unat (NumRowAddr P) - ?m) \<le> 40" for L
      using hif_upto_state [of L "NumRowAddr P - ?w" 0 "\<lambda>i. XFSBL_HIF_ROW i + of_nat ?m" "\<lambda>i. Row (i + ?m)"]
        that video_rows(2) [OF assms v(1)] rows by (simp add: w)
    show ?thesis
      unfolding XFsbl_DdrCalcHifAddrVideo_def Let_def w
      using b v video_rows(3) [OF assms v(1)]
      by (simp add: hif_state_init hif_upto_layout low high ddr_layout_def Let_def)
  qed
  have "MemType P \<noteq> SPD_MEMTYPE_DDR4 \<Longrightarrow> VideoBuf c = 0"
    using assms by (simp add: geometry_ok_def)
  with b video show ?thesis
    by (simp add: XFsbl_DdrHifLayout_def XFsbl_DdrCalcHifAddr_def XFsbl_DdrCalcHifAddrBrcMap_def
        XFsbl_DdrCalcHifAddrMemMap_def XFsbl_DdrCalcDdr4HifAddr_def hif_state_init hif_upto_layout
        ddr_layout_def Let_def)
qed

section \<open>Reading the registers back\<close>

lemma set_entries_values:
  assumes "\<And>b. b \<in> set bs \<Longrightarrow> f b = Some (g b)" "\<And>b. b \<in> set bs \<Longrightarrow> b < length a"
  shows "\<exists>a'. set_entries f bs a = Some a' \<and> length a' = length a \<and>
    (\<forall>j<length a. a' ! j = (if j \<in> set bs then g j else a ! j))"
  using assms
proof (induction bs arbitrary: a)
  case Nil
  then show ?case by simp
next
  case (Cons b bs)
  then obtain a' where "set_entries f bs (a[b := g b]) = Some a'" "length a' = length a"
    "\<forall>j<length a. a' ! j = (if j \<in> set bs then g j else a[b := g b] ! j)"
    using Cons.IH [of "a[b := g b]"] by auto
  then show ?case
    using Cons.prems by (auto simp: nth_list_update)
qed

lemma reg_field_read:
  "drop_bit s x AND mask w = take_bit w (drop_bit s x)"
  by (simp add: take_bit_eq_mask)

lemma read_own_field:
  "s + w \<le> 32 \<Longrightarrow> take_bit w (drop_bit s (reg_field w s v)) = take_bit w v"
  by (rule bit_word_eqI) (auto simp: reg_field_def bit_simps)

lemma read_other_field:
  "t + w' \<le> s \<or> s + w \<le> t \<Longrightarrow> take_bit w (drop_bit s (reg_field w' t v)) = 0"
  by (rule bit_word_eqI) (auto simp: reg_field_def bit_simps)

lemmas read_field = take_bit_or drop_bit_or read_own_field read_other_field
  read_own_field [of 0, simplified] read_other_field [of _ _ 0, simplified]

fun row_slot :: "nat \<Rightarrow> nat \<times> nat" where
  "row_slot r = (if r < 2 then (5, 8 * r) else if r < 6 then (9, 8 * (r - 2))
     else if r < 10 then (10, 8 * (r - 6)) else if r = 10 then (11, 0) else if r = 11 then (5, 24)
     else if r < 16 then (6, 8 * (r - 12)) else (7, 8 * (r - 16)))"

fun col_slot :: "nat \<Rightarrow> nat \<times> nat" where
  "col_slot c = (if c < 6 then (2, 8 * (c - 2)) else if c < 10 then (3, 8 * (c - 6)) else (4, 8 * (c - 10)))"

lemma read_row_field:
  assumes "r < 18"
  shows "take_bit 4 (drop_bit (snd (row_slot r)) (addr_map_regs d ! fst (row_slot r))) =
    take_bit 4 (AddrMapRowBit d ! r)"
proof -
  have "r = 0 \<or> r = 1 \<or> r = 2 \<or> r = 3 \<or> r = 4 \<or> r = 5 \<or> r = 6 \<or> r = 7 \<or> r = 8 \<or> r = 9 \<or> r = 10 \<or> r = 11 \<or> r = 12 \<or> r = 13 \<or> r = 14 \<or> r = 15 \<or> r = 16 \<or> r = 17"
    using assms by arith
  then show ?thesis
    unfolding addr_map_regs_def by (elim disjE; simp add: read_field)
qed

lemma read_col_field:
  assumes "2 \<le> c" "c < 12"
  shows "take_bit 4 (drop_bit (snd (col_slot c)) (addr_map_regs d ! fst (col_slot c))) =
    take_bit 4 (AddrMapColBit d ! c)"
proof -
  have "c = 2 \<or> c = 3 \<or> c = 4 \<or> c = 5 \<or> c = 6 \<or> c = 7 \<or> c = 8 \<or> c = 9 \<or> c = 10 \<or> c = 11"
    using assms by arith
  then show ?thesis
    unfolding addr_map_regs_def by (elim disjE; simp add: read_field)
qed

lemma read_bank_field:
  assumes "b < 3"
  shows "take_bit 5 (drop_bit (8 * b) (addr_map_regs d ! 1)) = take_bit 5 (AddrMapBankBit d ! b)"
proof -
  have "b = 0 \<or> b = 1 \<or> b = 2" using assms by arith
  then show ?thesis
    unfolding addr_map_regs_def by (elim disjE; simp add: read_field)
qed

lemma read_bg_field:
  assumes "b < 2"
  shows "take_bit 5 (drop_bit (8 * b) (addr_map_regs d ! 8)) = take_bit 5 (AddrMapBgBit d ! b)"
proof -
  have "b = 0 \<or> b = 1" using assms by arith
  then show ?thesis
    unfolding addr_map_regs_def by (elim disjE; simp add: read_field)
qed

lemma write_regs:
  assumes "j < n" "n \<le> 12"
  shows "fold (\<lambda>i s. Out32 mem_bus s (XFSBL_DDRC_BASE_ADDR + 0x200 + of_nat i * 4) (v i)) [0..<n] m
    (XFSBL_DDRC_BASE_ADDR + 0x200 + of_nat j * 4) = v j"
  using assms
proof (induction n)
  case 0
  then show ?case by simp
next
  case (Suc n)
  show ?case
  proof (cases "j = n")
    case True
    then show ?thesis by simp
  next
    case False
    with Suc.prems have "j < n" by simp
    have jn: "j * 4 < 2 ^ LENGTH(64)" "n * 4 < 2 ^ LENGTH(64)" "j * 4 \<noteq> n * 4"
      using \<open>j < n\<close> Suc.prems by simp_all
    have "(of_nat (j * 4) :: u64) \<noteq> of_nat (n * 4)"
      using jn(3) unat_of_nat_small [OF jn(1)] unat_of_nat_small [OF jn(2)] by metis
    with Suc \<open>j < n\<close> show ?thesis by simp
  qed
qed

text \<open>
  How the controller reads an address-map field: all ones is \<open>not mapped\<close>, any other value is
  added to the field's base. The row fields 2 to 10 count only while \<open>ADDRMAP5\<close> says 15.
\<close>

definition field_position :: "nat \<Rightarrow> nat \<Rightarrow> u32 \<Rightarrow> nat option" where
  "field_position w base v = (if v = mask w then None else Some (unat v + base))"

definition addr_map_reg :: "(u64 \<Rightarrow> u32) \<Rightarrow> nat \<Rightarrow> u32" where
  "addr_map_reg m i = m (XFSBL_DDRC_BASE_ADDR + 0x200 + of_nat i * 4)"

definition dram_decode :: "(u64 \<Rightarrow> u32) \<Rightarrow> dram_bit \<Rightarrow> nat option" where
  "dram_decode m b = (case b of
     Col n \<Rightarrow> field_position 4 n (take_bit 4 (drop_bit (snd (col_slot n)) (addr_map_reg m (fst (col_slot n)))))
   | Row n \<Rightarrow> (if n \<in> {2..10} \<and> take_bit 4 (drop_bit 16 (addr_map_reg m 5)) \<noteq> 15 then None
       else field_position 4 (n + 6)
         (take_bit 4 (drop_bit (snd (row_slot n)) (addr_map_reg m (fst (row_slot n))))))
   | Bank n \<Rightarrow> field_position 5 (n + 2) (take_bit 5 (drop_bit (8 * n) (addr_map_reg m 1)))
   | Bg n \<Rightarrow> field_position 5 (n + 2) (take_bit 5 (drop_bit (8 * n) (addr_map_reg m 8)))
   | Rank n \<Rightarrow> field_position 5 (n + 6) (take_bit 5 (addr_map_reg m 0)))"

text \<open>The bits that have a field of their own; columns 0 and 1 are implied by the burst.\<close>

definition has_field :: "dram_bit \<Rightarrow> bool" where
  "has_field b \<longleftrightarrow> (case b of Col n \<Rightarrow> 2 \<le> n \<and> n < 12 | Row n \<Rightarrow> n < 18 | Bank n \<Rightarrow> n < 3
     | Bg n \<Rightarrow> n < 2 | Rank n \<Rightarrow> False)"

definition init_data_ok :: "DdrcInitData \<Rightarrow> bool" where
  "init_data_ok d \<longleftrightarrow> length (AddrMapRowBit d) = 18 \<and> length (AddrMapColBit d) = 12 \<and>
     length (AddrMapBankBit d) = 3 \<and> length (AddrMapBgBit d) = 2"

lemma first_index_map_upt:
  assumes "inj c"
  shows "first_index (c n) (map c [a..<b]) = (if a \<le> n \<and> n < b then Some (n - a) else None)"
proof (cases "a \<le> n \<and> n < b")
  case True
  have "distinct (map c [a..<b])" using assms by (simp add: distinct_map inj_on_def)
  moreover have "n - a < b - a" using True by arith
  ultimately show ?thesis using first_index_distinct [of "map c [a..<b]" "n - a"] True by simp
next
  case False
  then show ?thesis using assms by (auto dest: injD)
qed

lemma first_index_absent: "v \<notin> set xs \<Longrightarrow> first_index v xs = None"
  by simp

lemma first_index_map_upt_kinds [simp]:
  "first_index (Col n) (map Col [a..<b]) = (if a \<le> n \<and> n < b then Some (n - a) else None)"
  "first_index (Row n) (map Row [a..<b]) = (if a \<le> n \<and> n < b then Some (n - a) else None)"
  "first_index (Bank n) (map Bank [a..<b]) = (if a \<le> n \<and> n < b then Some (n - a) else None)"
  "first_index (Bg n) (map Bg [a..<b]) = (if a \<le> n \<and> n < b then Some (n - a) else None)"
  by (rule first_index_map_upt; simp add: inj_def)+

lemma dram_bit_in_maps [simp]:
  "Col n \<in> Col ` A \<longleftrightarrow> n \<in> A" "Row n \<in> Row ` A \<longleftrightarrow> n \<in> A" "Bank n \<in> Bank ` A \<longleftrightarrow> n \<in> A"
  "Bg n \<in> Bg ` A \<longleftrightarrow> n \<in> A" "Rank n \<in> Rank ` A \<longleftrightarrow> n \<in> A"
  by auto

definition bit_count :: "XFsbl_DimmParams \<Rightarrow> dram_bit \<Rightarrow> u32" where
  "bit_count P b = (case b of Col n \<Rightarrow> NumColAddr P | Row n \<Rightarrow> NumRowAddr P
     | Bank n \<Rightarrow> NumBankAddr P | Bg n \<Rightarrow> NumBgAddr P | Rank n \<Rightarrow> NumRankAddr P)"

lemma layout_member:
  assumes "geometry_ok c P"
  shows "b \<in> set (ddr_layout c P) \<longleftrightarrow> bit_index b < unat (bit_count P b)"
proof -
  have "MemType P \<noteq> SPD_MEMTYPE_DDR4 \<Longrightarrow> NumBgAddr P = 0"
    "MemType P = SPD_MEMTYPE_DDR4 \<Longrightarrow> \<not> default_ddr4 c P \<Longrightarrow> NumBgAddr P = 1"
    using assms by (simp_all add: geometry_ok_def)
  then show ?thesis
    using geometry_bounds [OF assms] video_rows(3) [OF assms]
    by (cases b; auto simp: ddr_layout_def Let_def bit_count_def default_ddr4_def)
qed

lemma layout_distinct:
  assumes "geometry_ok c P"
  shows "distinct (ddr_layout c P)" "length (ddr_layout c P) \<le> 40"
  using geometry_bounds [OF assms] video_rows(3) [OF assms]
  by (auto simp: ddr_layout_def Let_def distinct_map inj_on_def)

text \<open>Every position is within reach of its field.\<close>

lemma layout_reach:
  assumes "geometry_ok c P" "first_index b (ddr_layout c P) = Some i" "has_field b"
  shows "case b of Col n \<Rightarrow> n \<le> i \<and> i \<le> n + 1 | Row n \<Rightarrow> n + 6 \<le> i \<and> i < n + 21
     | Bank n \<Rightarrow> n + 2 \<le> i \<and> i < n + 33 | Bg n \<Rightarrow> n + 2 \<le> i \<and> i < n + 33 | Rank n \<Rightarrow> True"
  using geometry_bounds [OF assms(1)] video_rows(3) [OF assms(1)] assms(2,3)
  by (cases b; auto simp: ddr_layout_def Let_def first_index_append has_field_def first_index_absent image_iff
      split: if_splits)

text \<open>A field that holds a position minus its base decodes to the position.\<close>

lemma field_position_of:
  assumes "base \<le> i" "i - base < 2 ^ w - 1" "w \<le> 5"
  shows "field_position w base (take_bit w (of_nat i - of_nat base)) = Some i"
proof -
  have "2 ^ w \<le> (2 :: nat) ^ 5" using assms(3) by (rule power_increasing) simp
  then have lt: "i - base < 2 ^ LENGTH(32)" using assms(2) by simp
  have eq: "of_nat i - of_nat base = (of_nat (i - base) :: u32)" using assms(1) by simp
  have u: "unat (take_bit w (of_nat (i - base) :: u32)) = i - base"
    using assms(2) unat_of_nat_small [OF lt] by (simp add: unsigned_take_bit_eq take_bit_nat_eq_self)
  moreover have "unat (mask w :: u32) = 2 ^ w - 1"
  proof -
    have "w = 0 \<or> w = 1 \<or> w = 2 \<or> w = 3 \<or> w = 4 \<or> w = 5" using assms(3) by arith
    then show ?thesis by (elim disjE; simp add: mask_eq_exp_minus_1)
  qed
  ultimately have "take_bit w (of_nat (i - base) :: u32) \<noteq> mask w"
    using assms(2) by (metis less_irrefl)
  then show ?thesis
    unfolding eq using assms(1) u by (simp add: field_position_def)
qed

lemma field_position_unused [simp]: "field_position w base (mask w) = None"
  by (simp add: field_position_def)

text \<open>What a search followed by subtracting the base stores, or the unused code.\<close>

definition field_value :: "dram_bit list \<Rightarrow> dram_bit \<Rightarrow> nat \<Rightarrow> u32 \<Rightarrow> u32" where
  "field_value L b base unused =
     (case first_index b L of Some i \<Rightarrow> of_nat i - of_nat base | None \<Rightarrow> unused)"

lemma layout_proper:
  assumes "geometry_ok c P"
  shows "\<forall>a\<in>set (ddr_layout c P). proper_bit a"
proof
  fix a
  assume "a \<in> set (ddr_layout c P)"
  then show "proper_bit a"
    using layout_member [OF assms, of a] geometry_bounds [OF assms]
    by (simp add: proper_bit_def bit_count_def split: dram_bit.splits)
qed

text \<open>What the searches need of a layout, whatever shift brought it about.\<close>

definition layout_serves :: "XFsbl_DimmParams \<Rightarrow> dram_bit list \<Rightarrow> bool" where
  "layout_serves P L \<longleftrightarrow> (\<forall>a\<in>set L. proper_bit a) \<and>
     (\<forall>b. has_field b \<longrightarrow> (b \<in> set L \<longleftrightarrow> bit_index b < unat (bit_count P b))) \<and>
     (\<forall>n i. n < 2 \<longrightarrow> first_index (Bg n) L = Some i \<longrightarrow> n + 2 \<le> i)"

lemma has_field_proper: "has_field b \<Longrightarrow> proper_bit b"
  by (cases b) (simp_all add: has_field_def proper_bit_def)

lemma find_in_layout:
  assumes "layout_serves P L" "has_field b"
  shows "first_index (hif_code b) (hif_padded L) = first_index b L"
  unfolding hif_padded_def
  by (rule first_index_layout) (use assms has_field_proper in \<open>simp_all add: layout_serves_def\<close>)

lemma field_search:
  assumes "layout_serves P L" "has_field b"
  shows "(if of_nat (bit_index b) < bit_count P b
      then map_option (\<lambda>i. of_nat i - of_nat base) (first_index (hif_code b) (hif_padded L))
      else Some u) = Some (field_value L b base u)"
proof -
  have "unat (of_nat (bit_index b) :: u32) = bit_index b"
    using has_field_proper [OF assms(2)] by (intro unat_of_nat_small) (simp add: proper_bit_def)
  then have "of_nat (bit_index b) < bit_count P b \<longleftrightarrow> first_index b L \<noteq> None"
    using assms by (simp add: word_less_nat_alt layout_serves_def)
  with find_in_layout [OF assms] show ?thesis
    by (cases "first_index b L") (simp_all add: field_value_def del: first_index_None)
qed

lemma set_entries_upt:
  assumes "\<And>b. lo \<le> b \<Longrightarrow> b < hi \<Longrightarrow> f b = Some (g b)" "length a = hi"
  shows "\<exists>a'. map_option F (set_entries f [lo..<hi] a) = Some (F a') \<and>
    (\<forall>j. lo \<le> j \<longrightarrow> j < hi \<longrightarrow> a' ! j = g j)"
proof -
  obtain a' where "set_entries f [lo..<hi] a = Some a'"
    "\<forall>j<length a. a' ! j = (if j \<in> set [lo..<hi] then g j else a ! j)"
    using set_entries_values [of "[lo..<hi]" f g a] assms by auto
  then show ?thesis using assms(2) by (intro exI [of _ a']) simp
qed

lemma CalcBankAddr_layout:
  assumes g: "layout_serves P L" and "length (AddrMapBankBit d) = 3"
  shows "\<exists>a. XFsbl_DdrCalcBankAddr P (hif_padded L) d = Some (d\<lparr>AddrMapBankBit := a\<rparr>) \<and>
    (\<forall>n. 0 \<le> n \<longrightarrow> n < 3 \<longrightarrow> a ! n = field_value L (Bank n) (n + 2) 0x1F)"
  unfolding XFsbl_DdrCalcBankAddr_def
proof (rule set_entries_upt, goal_cases)
  case (1 n)
  then show ?case
    using field_search [OF g, of "Bank n" "n + 2" "0x1F"]
    by (auto simp: has_field_def bit_count_def ac_simps split: if_splits)
qed (use assms(2) in simp)

lemma CalcColAddr_layout:
  assumes g: "layout_serves P L" and "length (AddrMapColBit d) = 12"
  shows "\<exists>a. XFsbl_DdrCalcColAddr P (hif_padded L) d = Some (d\<lparr>AddrMapColBit := a\<rparr>) \<and>
    (\<forall>n. 2 \<le> n \<longrightarrow> n < 12 \<longrightarrow> a ! n = field_value L (Col n) n 0xF)"
  unfolding XFsbl_DdrCalcColAddr_def
proof (rule set_entries_upt, goal_cases)
  case (1 n)
  then show ?case
    using field_search [OF g, of "Col n" n "0xF"]
    by (auto simp: has_field_def bit_count_def ac_simps split: if_splits)
qed (use assms(2) in simp)

lemma CalcRowAddr_layout:
  assumes g: "layout_serves P L" and "length (AddrMapRowBit d) = 18"
  shows "\<exists>a. XFsbl_DdrCalcRowAddr P (hif_padded L) d =
      Some (d\<lparr>AddrMapRowBits2To10 := 15, AddrMapRowBit := a\<rparr>) \<and>
    (\<forall>n. 0 \<le> n \<longrightarrow> n < 18 \<longrightarrow> a ! n = field_value L (Row n) (n + 6) 0xF)"
  unfolding XFsbl_DdrCalcRowAddr_def
proof (rule set_entries_upt, goal_cases)
  case (1 n)
  then show ?case
    using field_search [OF g, of "Row n" "n + 6" "0xF"]
    by (auto simp: has_field_def bit_count_def ac_simps split: if_splits)
qed (use assms(2) in simp)

lemma CalcBgAddr_layout:
  assumes g: "layout_serves P L" and "length (AddrMapBgBit d) = 2"
  shows "\<exists>a. XFsbl_DdrCalcBgAddr P (hif_padded L) d = Some (d\<lparr>AddrMapBgBit := a\<rparr>) \<and>
    (\<forall>n. 0 \<le> n \<longrightarrow> n < 2 \<longrightarrow> a ! n = field_value L (Bg n) (n + 2) 0x1F)"
  unfolding XFsbl_DdrCalcBgAddr_def
proof (rule set_entries_upt, goal_cases)
  case (1 n)
  then have b: "has_field (Bg n)" by (simp add: has_field_def)
  have "n + 2 \<le> i" if "first_index (Bg n) L = Some i" for i
    using g that 1 by (simp add: layout_serves_def)
  with field_search [OF g b, of "n + 2" "0x1F"] find_in_layout [OF g b] show ?case
    by (cases "first_index (Bg n) L")
      (auto simp: bit_count_def ac_simps simp del: first_index_None split: if_splits)
qed (use assms(2) in simp)

lemma addr_map_run:
  assumes g: "layout_serves P L" and "init_data_ok d"
    and layout: "XFsbl_DdrHifLayout c P (replicate 40 0) = Some (p, h)"
    and narrow: "hif_narrow (BusWidth P) h = hif_padded L"
  shows "\<exists>d' m'. XFsbl_DdrCalcAddrMap mem_bus c P d m = Some (d', m') \<and>
    (\<forall>i<12. addr_map_reg m' i = addr_map_regs d' ! i) \<and> AddrMapRowBits2To10 d' = 15 \<and>
    (\<forall>n<18. AddrMapRowBit d' ! n = field_value L (Row n) (n + 6) 0xF) \<and>
    (\<forall>n. 2 \<le> n \<longrightarrow> n < 12 \<longrightarrow> AddrMapColBit d' ! n = field_value L (Col n) n 0xF) \<and>
    (\<forall>n<3. AddrMapBankBit d' ! n = field_value L (Bank n) (n + 2) 0x1F) \<and>
    (\<forall>n<2. AddrMapBgBit d' ! n = field_value L (Bg n) (n + 2) 0x1F)"
proof -
  let ?h = "hif_padded L"
  have len: "length (AddrMapRowBit d) = 18" "length (AddrMapColBit d) = 12"
    "length (AddrMapBankBit d) = 3" "length (AddrMapBgBit d) = 2"
    using assms(2) by (simp_all add: init_data_ok_def)
  obtain ba where ba: "XFsbl_DdrCalcBankAddr P ?h d = Some (d\<lparr>AddrMapBankBit := ba\<rparr>)"
    "\<forall>n. 0 \<le> n \<longrightarrow> n < 3 \<longrightarrow> ba ! n = field_value L (Bank n) (n + 2) 0x1F"
    using CalcBankAddr_layout [OF g len(3)] by blast
  define d1 where "d1 = d\<lparr>AddrMapBankBit := ba\<rparr>"
  obtain co where co: "XFsbl_DdrCalcColAddr P ?h d1 = Some (d1\<lparr>AddrMapColBit := co\<rparr>)"
    "\<forall>n. 2 \<le> n \<longrightarrow> n < 12 \<longrightarrow> co ! n = field_value L (Col n) n 0xF"
    using CalcColAddr_layout [OF g, of d1] len by (auto simp: d1_def)
  define d2 where "d2 = d1\<lparr>AddrMapColBit := co\<rparr>"
  obtain ro where ro: "XFsbl_DdrCalcRowAddr P ?h d2 = Some (d2\<lparr>AddrMapRowBits2To10 := 15, AddrMapRowBit := ro\<rparr>)"
    "\<forall>n. 0 \<le> n \<longrightarrow> n < 18 \<longrightarrow> ro ! n = field_value L (Row n) (n + 6) 0xF"
    using CalcRowAddr_layout [OF g, of d2] len by (auto simp: d1_def d2_def)
  define d3 where "d3 = d2\<lparr>AddrMapRowBits2To10 := 15, AddrMapRowBit := ro\<rparr>"
  obtain bg where bg: "XFsbl_DdrCalcBgAddr P ?h d3 = Some (d3\<lparr>AddrMapBgBit := bg\<rparr>)"
    "\<forall>n. 0 \<le> n \<longrightarrow> n < 2 \<longrightarrow> bg ! n = field_value L (Bg n) (n + 2) 0x1F"
    using CalcBgAddr_layout [OF g, of d3] len by (auto simp: d1_def d2_def d3_def)
  define d4 where "d4 = d3\<lparr>AddrMapBgBit := bg, AddrMapCsBit0 := 0x1F\<rparr>"
  define m4 where "m4 = fold (\<lambda>i s. Out32 mem_bus s (XFSBL_DDRC_BASE_ADDR + 0x200 + of_nat i * 4)
    (addr_map_regs d4 ! i)) [0..<12] m"
  have "XFsbl_DdrCalcAddrMap mem_bus c P d m = Some (d4, m4)"
    using ba(1) co(1) ro(1) bg(1)
    by (simp add: XFsbl_DdrCalcAddrMap_def layout narrow Let_def d1_def d2_def d3_def d4_def m4_def
        del: upt_Suc)
  moreover have "addr_map_reg m4 i = addr_map_regs d4 ! i" if "i < 12" for i
    unfolding addr_map_reg_def m4_def by (rule write_regs) (use that in simp_all)
  moreover have "AddrMapRowBits2To10 d4 = 15" "AddrMapRowBit d4 = ro" "AddrMapColBit d4 = co"
    "AddrMapBankBit d4 = ba" "AddrMapBgBit d4 = bg"
    by (simp_all add: d1_def d2_def d3_def d4_def)
  ultimately show ?thesis
    using ba(2) co(2) ro(2) bg(2) by (intro exI [of _ d4] exI [of _ m4]) simp
qed

text \<open>A stored field decodes to the position of its bit, provided the position is in reach.\<close>

lemma field_value_decodes:
  assumes "w = 4 \<or> w = 5"
    and "\<And>i. first_index b L = Some i \<Longrightarrow> base \<le> i \<and> i - base < 2 ^ w - 1"
  shows "field_position w base (take_bit w (field_value L b base (mask w))) = first_index b L"
proof (cases "first_index b L")
  case None
  then show ?thesis by (simp add: field_value_def take_bit_eq_mask del: first_index_None)
next
  case (Some i)
  then show ?thesis
    using field_position_of [of base i w] assms by (auto simp: field_value_def)
qed

lemma masks: "(mask 4 :: u32) = 0xF" "(mask 5 :: u32) = 0x1F"
  by (simp_all add: mask_eq_exp_minus_1)

lemma layout_serves_geometry:
  assumes "geometry_ok c P"
  shows "layout_serves P (ddr_layout c P)"
  using layout_proper [OF assms] layout_member [OF assms] layout_reach [OF assms]
  by (fastforce simp: layout_serves_def has_field_def)

lemma narrow_geometry: "geometry_ok c P \<Longrightarrow> hif_narrow (BusWidth P) h = h"
  using geometry_bounds(7) by (simp add: hif_narrow_def)

text \<open>
  C9. For every layout the code offers on a 64-bit bus (DDR4 default, DDR4 address mapping,
  bank-row-column, video, and the one for other memories) and every geometry it is meant for,
  \<open>XFsbl_DdrCalcAddrMap\<close> runs without leaving an array, and the twelve registers it writes,
  read the way the controller reads them, give each column, row, bank and bank-group bit exactly
  its position in the layout and mark every bit the memory does not have as unmapped. No two bits
  share a position.
\<close>

theorem ddr_address_map_correct:
  assumes "geometry_ok c P" and "init_data_ok d"
  shows "\<exists>d' m'. XFsbl_DdrCalcAddrMap mem_bus c P d m = Some (d', m') \<and>
    (\<forall>b. has_field b \<longrightarrow> dram_decode m' b = first_index b (ddr_layout c P)) \<and>
    distinct (ddr_layout c P) \<and>
    (\<forall>b. b \<in> set (ddr_layout c P) \<longleftrightarrow> bit_index b < unat (bit_count P b))"
proof -
  obtain d' m' where run: "XFsbl_DdrCalcAddrMap mem_bus c P d m = Some (d', m')"
    and regs: "\<forall>i<12. addr_map_reg m' i = addr_map_regs d' ! i" "AddrMapRowBits2To10 d' = 15"
    and f: "\<forall>n<18. AddrMapRowBit d' ! n = field_value (ddr_layout c P) (Row n) (n + 6) 0xF"
      "\<forall>n. 2 \<le> n \<longrightarrow> n < 12 \<longrightarrow> AddrMapColBit d' ! n = field_value (ddr_layout c P) (Col n) n 0xF"
      "\<forall>n<3. AddrMapBankBit d' ! n = field_value (ddr_layout c P) (Bank n) (n + 2) 0x1F"
      "\<forall>n<2. AddrMapBgBit d' ! n = field_value (ddr_layout c P) (Bg n) (n + 2) 0x1F"
    using addr_map_run [OF layout_serves_geometry [OF assms(1)] assms(2)
        HifLayout_eq [OF assms(1), unfolded hif_state_def] narrow_geometry [OF assms(1)]] by blast
  have on: "take_bit 4 (drop_bit 16 (addr_map_reg m' 5)) = 15"
    using regs by (simp add: addr_map_regs_def read_field)
  have slots: "n < 18 \<Longrightarrow> fst (row_slot n) < 12" "n < 12 \<Longrightarrow> fst (col_slot n) < 12" for n
    by auto
  have "dram_decode m' b = first_index b (ddr_layout c P)" if b: "has_field b" for b
  proof (cases b)
    case (Col n)
    with b have n: "2 \<le> n" "n < 12" by (simp_all add: has_field_def)
    show ?thesis
      using layout_reach [OF assms(1) _ b] read_col_field [OF n, of d'] slots(2) [OF n(2)] regs(1) f(2) n Col
        field_value_decodes [of 4 b "ddr_layout c P" n]
      by (fastforce simp: dram_decode_def masks simp del: col_slot.simps)
  next
    case (Row n)
    with b have n: "n < 18" by (simp add: has_field_def)
    show ?thesis
      using layout_reach [OF assms(1) _ b] read_row_field [OF n, of d'] slots(1) [OF n] regs(1) f(1) n Row
        field_value_decodes [of 4 b "ddr_layout c P" "n + 6"] on
      by (fastforce simp: dram_decode_def masks simp del: row_slot.simps)
  next
    case (Bank n)
    with b have n: "n < 3" by (simp add: has_field_def)
    show ?thesis
      using layout_reach [OF assms(1) _ b] read_bank_field [OF n, of d'] regs(1) f(3) n Bank
        field_value_decodes [of 5 b "ddr_layout c P" "n + 2"]
      by (fastforce simp: dram_decode_def masks)
  next
    case (Bg n)
    with b have n: "n < 2" by (simp add: has_field_def)
    show ?thesis
      using layout_reach [OF assms(1) _ b] read_bg_field [OF n, of d'] regs(1) f(4) n Bg
        field_value_decodes [of 5 b "ddr_layout c P" "n + 2"]
      by (fastforce simp: dram_decode_def masks)
  next
    case (Rank n)
    with b show ?thesis by (simp add: has_field_def)
  qed
  with run layout_distinct(1) [OF assms(1)] layout_member [OF assms(1)] show ?thesis by blast
qed

text \<open>A DDR4 module with two bank groups, ten column and sixteen row bits, default layout.\<close>

definition demo_dimm :: XFsbl_DimmParams where
  "demo_dimm = \<lparr>MemType = SPD_MEMTYPE_DDR4, BusWidth = 64, NumRankAddr = 0, NumRowAddr = 16,
     NumColAddr = 10, NumBankAddr = 2, NumBgAddr = 2\<rparr>"

definition demo_ddr_config :: ddr_config where
  "demo_ddr_config = \<lparr>VideoBuf = 0, BrcMapping = 0, Ddr4AddrMapping = 0\<rparr>"

definition demo_init_data :: DdrcInitData where
  "demo_init_data = \<lparr>AddrMapRowBit = replicate 18 0, AddrMapColBit = replicate 12 0,
     AddrMapBankBit = replicate 3 0, AddrMapBgBit = replicate 2 0, AddrMapCsBit0 = 0,
     AddrMapRowBits2To10 = 0\<rparr>"

lemma demo_geometry: "geometry_ok demo_ddr_config demo_dimm" "init_data_ok demo_init_data"
  by (simp_all add: geometry_ok_def default_ddr4_def demo_ddr_config_def demo_dimm_def
      init_data_ok_def demo_init_data_def word_le_nat_alt)

theorem ddr_address_map_correct_witness:
  "\<exists>d' m'. XFsbl_DdrCalcAddrMap mem_bus demo_ddr_config demo_dimm demo_init_data (\<lambda>_. 0) = Some (d', m') \<and>
     dram_decode m' (Row 15) = Some 29 \<and> dram_decode m' (Row 16) = None"
proof -
  have "first_index (Row 15) (ddr_layout demo_ddr_config demo_dimm) = Some 29"
    "first_index (Row 16) (ddr_layout demo_ddr_config demo_dimm) = None"
    by (simp_all add: ddr_layout_def demo_ddr_config_def demo_dimm_def upt_rec Let_def)
  then show ?thesis
    using ddr_address_map_correct [OF demo_geometry, of "\<lambda>_. 0"] by (fastforce simp: has_field_def)
qed

lemma hif_shift_padded:
  assumes "L \<noteq> []" "length L \<le> 40"
  shows "hif_shift (hif_padded L) = hif_padded (tl L)"
proof -
  obtain x xs where L: "L = x # xs" using assms(1) by (cases L) auto
  have "replicate (40 - length L) 0 @ [0 :: u32] = replicate (40 - length (tl L)) 0"
    using assms(2) L by (simp add: replicate_append_same Suc_diff_le flip: replicate_Suc)
  then show ?thesis using L by (simp add: hif_shift_def hif_padded_def)
qed

text \<open>The default DDR4 layout without its first bit, which is what a 32-bit bus leaves of it.\<close>

definition default_tail :: "XFsbl_DimmParams \<Rightarrow> dram_bit list" where
  "default_tail P = map Col [1..<unat (NumColAddr P)] @ map Bg [0..<unat (NumBgAddr P)] @
     map Bank [0..<unat (NumBankAddr P)] @ map Row [0..<unat (NumRowAddr P)] @
     map Rank [0..<unat (NumRankAddr P)]"

lemma default_tail_layout:
  assumes "geometry_ok c (P\<lparr>BusWidth := 64\<rparr>)" "default_ddr4 c P"
  shows "ddr_layout c (P\<lparr>BusWidth := 64\<rparr>) = Col 0 # default_tail P"
  using geometry_bounds [OF assms(1)] assms(2)
  by (simp add: ddr_layout_def default_ddr4_def default_tail_def upt_conv_Cons Let_def)

lemma default_tail_serves:
  assumes "geometry_ok c (P\<lparr>BusWidth := 64\<rparr>)" "default_ddr4 c P"
  shows "layout_serves P (default_tail P)"
proof -
  have C: "8 \<le> unat (NumColAddr P)" using geometry_bounds [OF assms(1)] by simp
  have "n + 2 \<le> i" if "first_index (Bg n) (default_tail P) = Some i" "n < 2" for n i
    using that C unfolding default_tail_def
    by (auto simp: first_index_append first_index_absent image_iff split: if_splits)
  moreover have "b \<in> set (default_tail P) \<longleftrightarrow> bit_index b < unat (bit_count P b)" if "has_field b" for b
    using that by (cases b) (auto simp: has_field_def bit_count_def default_tail_def)
  moreover have "\<forall>a\<in>set (default_tail P). proper_bit a"
    using layout_proper [OF assms(1)] unfolding default_tail_layout [OF assms] by simp
  ultimately show ?thesis by (simp add: layout_serves_def)
qed

text \<open>
  With a 32-bit data bus the array is shifted down by one before the searches, so in the
  default DDR4 layout every column bit is found one place below its field's base: the stored value
  is minus one, the four-bit field is 15, and the registers mark every column as unmapped. This is
  the code the file itself uses for columns the memory does not have.
\<close>

theorem ddr_bus32_columns_unmapped:
  assumes "geometry_ok c (P\<lparr>BusWidth := 64\<rparr>)" "default_ddr4 c P" "BusWidth P = 32" "init_data_ok d"
  shows "\<exists>d' m'. XFsbl_DdrCalcAddrMap mem_bus c P d m = Some (d', m') \<and>
    (\<forall>n. 2 \<le> n \<longrightarrow> n < 12 \<longrightarrow> dram_decode m' (Col n) = None)"
proof -
  let ?L = "Col 0 # default_tail P"
  note L = default_tail_layout [OF assms(1,2)]
  have run: "XFsbl_DdrHifLayout c P (replicate 40 0) = Some (hif_state ?L)"
    using HifLayout_eq [OF assms(1)] assms(2) unfolding L
    by (simp add: XFsbl_DdrHifLayout_def default_ddr4_def XFsbl_DdrCalcDdr4HifAddr_def)
  have narrow: "hif_narrow (BusWidth P) (hif_padded ?L) = hif_padded (default_tail P)"
    using hif_shift_padded [of ?L] layout_distinct(2) [OF assms(1)] L assms(3)
    by (simp add: hif_narrow_def)
  obtain d' m' where ok: "XFsbl_DdrCalcAddrMap mem_bus c P d m = Some (d', m')"
    and regs: "\<forall>i<12. addr_map_reg m' i = addr_map_regs d' ! i"
    and col: "\<forall>n. 2 \<le> n \<longrightarrow> n < 12 \<longrightarrow> AddrMapColBit d' ! n = field_value (default_tail P) (Col n) n 0xF"
    using addr_map_run [OF default_tail_serves [OF assms(1,2)] assms(4) run [unfolded hif_state_def] narrow] by blast
  have "take_bit 4 (field_value (default_tail P) (Col n) n 0xF) = mask 4" if "2 \<le> n" "n < 12" for n
  proof -
    have "first_index (Col n) (default_tail P) = (if n < unat (NumColAddr P) then Some (n - 1) else None)"
      using that unfolding default_tail_def
      by (auto simp: first_index_append first_index_absent image_iff)
    moreover have "of_nat (n - 1) - of_nat n = (- 1 :: u32)" using that by (simp add: of_nat_diff)
    ultimately show ?thesis by (simp add: field_value_def masks take_bit_eq_mask)
  qed
  then have "dram_decode m' (Col n) = None" if "2 \<le> n" "n < 12" for n
    using that regs col read_col_field [OF that, of d']
    by (simp add: dram_decode_def del: col_slot.simps) auto
  with ok show ?thesis by blast
qed

theorem ddr_bus32_columns_unmapped_witness:
  "\<exists>d' m'. XFsbl_DdrCalcAddrMap mem_bus demo_ddr_config (demo_dimm\<lparr>BusWidth := 32\<rparr>) demo_init_data (\<lambda>_. 0) =
     Some (d', m') \<and> dram_decode m' (Col 3) = None"
  using ddr_bus32_columns_unmapped [of demo_ddr_config "demo_dimm\<lparr>BusWidth := 32\<rparr>" demo_init_data "\<lambda>_. 0"]
    demo_geometry
  by (fastforce simp: demo_ddr_config_def demo_dimm_def default_ddr4_def)

lemma hif_for_absent:
  assumes "hif_for f i n (p, h) = Some (p', h')" "v \<notin> set h"
    and "\<And>j. i \<le> j \<Longrightarrow> j < i + n \<Longrightarrow> j + p < i + length h \<Longrightarrow> f j \<noteq> v"
  shows "v \<notin> set h' \<and> length h' = length h"
  using assms
proof (induction n arbitrary: i p h)
  case 0
  then show ?case by simp
next
  case (Suc n)
  then have "hif_for f (Suc i) n (Suc p, h[p := f i]) = Some (p', h')" "p < length h"
    by (auto split: if_splits)
  moreover have "v \<notin> set (h[p := f i])"
    using Suc.prems(2) Suc.prems(3) [of i] \<open>p < length h\<close> set_update_subset_insert [of h p "f i"]
    by auto
  ultimately show ?case
    using Suc.IH [of "Suc i" "Suc p" "h[p := f i]"] Suc.prems(3) by auto
qed

lemma hif_upto_absent:
  assumes "hif_upto f i b s = Some s'" "v \<notin> set (snd s)" "length (snd s) = 40"
    and "\<And>j. i \<le> j \<Longrightarrow> j < i + 40 \<Longrightarrow> f j \<noteq> v"
  shows "v \<notin> set (snd s') \<and> length (snd s') = 40"
  using hif_for_absent [of f i "unat b - i" "fst s" "snd s" "fst s'" "snd s'" v] assms
  by (simp add: hif_upto_def)

lemma u32_small_neq:
  assumes "a < 2 ^ 32" "b < 2 ^ 32" "a \<noteq> b"
  shows "(of_nat a :: u32) \<noteq> of_nat b"
  using assms unat_of_nat_small [of a, where 'a = 32] unat_of_nat_small [of b, where 'a = 32]
  by auto

text \<open>
  With a video buffer size set and a memory that is not DDR4, the layout starts at column 3
  and never names column 2, but the column search asks for it: whatever the module (with at least
  three column bits and at most twelve), the search leaves the array.
\<close>

theorem ddr_video_layout_without_ddr4:
  assumes "VideoBuf c \<noteq> 0" "MemType P \<noteq> SPD_MEMTYPE_DDR4" "3 \<le> NumColAddr P" "NumColAddr P \<le> 12"
    and "BusWidth P = 64"
  shows "XFsbl_DdrCalcAddrMap hw c P d s = None"
proof -
  let ?w = "video_buf_width (BusWidth P) (VideoBuf c)"
  have "102 \<notin> set h" if r: "XFsbl_DdrHifLayout c P (replicate 40 0) = Some (p, h)" for p h
  proof -
    define m where "m = unat ?w - unat (NumColAddr P) - 4"
    have "unat (NumColAddr P) \<le> 12" "20 \<le> unat ?w" "unat ?w \<le> 26"
      using assms video_width_range by (simp_all add: word_le_nat_alt)
    then have eq: "?w - NumColAddr P - 4 = of_nat m" and m: "m \<le> 26"
      by (simp_all add: m_def of_nat_diff)
    have "XFsbl_DdrCalcHifAddrVideo P (replicate 40 0) (VideoBuf c) = Some (p, h)"
      using r assms(1) by (simp add: XFsbl_DdrHifLayout_def)
    with assms(2) obtain s1 s2 s3 s4 where
      1: "hif_upto XFSBL_HIF_COLUMN 3 (NumColAddr P) (0, replicate 40 0) = Some s1" and
      2: "hif_upto XFSBL_HIF_ROW 0 (?w - NumColAddr P - 3) s1 = Some s2" and
      3: "hif_upto XFSBL_HIF_BANK 0 (NumBankAddr P) s2 = Some s3" and
      4: "hif_upto (\<lambda>i. XFSBL_HIF_ROW i + of_nat m) 0
        (NumRowAddr P - (?w - NumColAddr P - 3)) s3 = Some s4" and
      5: "hif_upto XFSBL_HIF_RANK 0 (NumRankAddr P) s4 = Some (p, h)"
      unfolding XFsbl_DdrCalcHifAddrVideo_def Let_def eq
      by (auto simp: bind_eq_Some_conv simp del: replicate.simps)
    note neq = u32_small_neq [of _ 102, simplified]
    have "102 \<notin> set (snd s1) \<and> length (snd s1) = 40"
      by (rule hif_upto_absent [OF 1]) (use neq [of "100 + j" for j] in auto)
    then have "102 \<notin> set (snd s2) \<and> length (snd s2) = 40"
      using hif_upto_absent [OF 2, of 102] neq [of "200 + j" for j] by auto
    then have "102 \<notin> set (snd s3) \<and> length (snd s3) = 40"
      using hif_upto_absent [OF 3, of 102] neq [of "300 + j" for j] by auto
    then have "102 \<notin> set (snd s4) \<and> length (snd s4) = 40"
      using hif_upto_absent [OF 4, of 102] neq [of "200 + j + m" for j] m by (auto simp: ac_simps)
    then show ?thesis
      using hif_upto_absent [OF 5, of 102] neq [of "500 + j" for j] by auto
  qed
  moreover have "XFsbl_DdrCalcColAddr P h d = None" if "102 \<notin> set h" for h d
  proof -
    have "first_index (XFSBL_HIF_COLUMN 2) h = None" using that by simp
    moreover have "(2 :: u32) < NumColAddr P" using assms(3) by (simp add: word_less_nat_alt word_le_nat_alt)
    ultimately show ?thesis
      by (simp add: XFsbl_DdrCalcColAddr_def upt_conv_Cons del: first_index_None)
  qed
  ultimately show ?thesis
    using assms(5) by (auto simp: XFsbl_DdrCalcAddrMap_def hif_narrow_def Let_def
        split: bind_split)
qed

theorem ddr_video_layout_without_ddr4_witness:
  "XFsbl_DdrCalcAddrMap mem_bus (demo_ddr_config\<lparr>VideoBuf := 8\<rparr>)
     (demo_dimm\<lparr>MemType := 0x0B, NumBankAddr := 3, NumBgAddr := 0\<rparr>) demo_init_data (\<lambda>_. 0) = None"
  by (rule ddr_video_layout_without_ddr4)
    (simp_all add: demo_ddr_config_def demo_dimm_def word_le_nat_alt)

end
