(* ===== verification/Qspi.thy ===== *)
theory Qspi
  imports Image_Header
begin

text \<open>
  The QSPI boot device (\<open>xfsbl_qspi.c\<close>): identification of the flash, initialisation for 24-bit
  and 32-bit addressing, bank selection, the QPI mode of Macronix parts, and the two copy routines
  the image-header reader and the partition loader call. The driver \<open>XQspiPsu\<close> is not part of the
  repository: its operations are the record \<open>qspi_driver\<close> over a device state \<open>'d\<close>. A transfer is a
  list of messages resolved to the bytes they send and to whether they receive; the driver answers
  with a status, the bytes received by each message and its next state. The static variables of the
  file, the message array included, are one record, so that message fields a branch leaves alone
  keep what an earlier transfer put there.
\<close>

section \<open>Driver and state\<close>

datatype qspi_mode = MODE_SINGLE | MODE_STACKED | MODE_PARALLEL | MODE_OTHER
datatype spi_width = SELECT_MODE_UNSET | SELECT_MODE_SPI | SELECT_MODE_DUALSPI | SELECT_MODE_QUADSPI
datatype msg_flag = MSG_FLAG_TX | MSG_FLAG_RX | MSG_FLAG_STRIPE
datatype flash_cs = CS_LOWER | CS_UPPER | CS_BOTH
datatype flash_bus = BUS_LOWER | BUS_UPPER | BUS_BOTH

record qspi_config =
  CfgBusWidth :: u8
  ConnectionMode :: qspi_mode

record wire_msg =
  WireTx :: "u8 list option"
  WireRx :: bool
  WireCount :: u32
  WireWidth :: spi_width
  WireFlags :: "msg_flag list"

record 'd qspi_driver =
  LookupConfig :: "qspi_config option"
  CfgInitialize :: "'d \<Rightarrow> qspi_config \<Rightarrow> u32 \<times> qspi_config \<times> 'd"
  SetManualStart :: "'d \<Rightarrow> u32 \<times> 'd"
  SetClkPrescaler8 :: "'d \<Rightarrow> u32 \<times> 'd"
  SelectFlash :: "'d \<Rightarrow> flash_cs \<Rightarrow> flash_bus \<Rightarrow> 'd"
  PolledTransfer :: "'d \<Rightarrow> wire_msg list \<Rightarrow> u32 \<times> (nat \<Rightarrow> nat \<Rightarrow> u8) \<times> 'd"

datatype tx_ptr = TxNull | TxByte | TxWriteBuffer nat
datatype rx_ptr = RxNull | RxReadBuffer | RxMemory u64

record XQspiPsu_Msg =
  MsgTx :: tx_ptr
  MsgRx :: rx_ptr
  MsgByteCount :: u32
  MsgBusWidth :: spi_width
  MsgFlags :: "msg_flag list"

record 'd qspi =
  Dev :: 'd
  Config :: qspi_config
  QspiFlashSize :: u32
  QspiFlashMake :: u32
  ReadCommand :: u32
  FlashMsg :: "XQspiPsu_Msg list"
  IssiIdFlag :: u8
  TxBfr :: u8
  ReadBuffer :: "u8 list"
  WriteBuffer :: "u8 list"
  MacronixFlash :: u32
  Memory :: "u64 \<Rightarrow> u8"

abbreviation (input) READ_ID_CMD :: u8 where "READ_ID_CMD \<equiv> 0x9F"
abbreviation (input) FAST_READ_CMD_24BIT :: u32 where "FAST_READ_CMD_24BIT \<equiv> 0x0B"
abbreviation (input) DUAL_READ_CMD_24BIT :: u32 where "DUAL_READ_CMD_24BIT \<equiv> 0x3B"
abbreviation (input) QUAD_READ_CMD_24BIT :: u32 where "QUAD_READ_CMD_24BIT \<equiv> 0x6B"
abbreviation (input) FAST_READ_CMD_32BIT :: u32 where "FAST_READ_CMD_32BIT \<equiv> 0x0C"
abbreviation (input) DUAL_READ_CMD_32BIT :: u32 where "DUAL_READ_CMD_32BIT \<equiv> 0x3C"
abbreviation (input) QUAD_READ_CMD_32BIT :: u32 where "QUAD_READ_CMD_32BIT \<equiv> 0x6C"
abbreviation (input) QUAD_READ_CMD_24BIT2 :: u32 where "QUAD_READ_CMD_24BIT2 \<equiv> 0xEB"
abbreviation (input) WRITE_ENABLE_CMD :: u8 where "WRITE_ENABLE_CMD \<equiv> 0x06"
abbreviation (input) BANK_REG_RD_CMD :: u8 where "BANK_REG_RD_CMD \<equiv> 0x16"
abbreviation (input) BANK_REG_WR_CMD :: u8 where "BANK_REG_WR_CMD \<equiv> 0x17"
abbreviation (input) EXTADD_REG_RD_CMD :: u8 where "EXTADD_REG_RD_CMD \<equiv> 0xC8"
abbreviation (input) EXTADD_REG_WR_CMD :: u8 where "EXTADD_REG_WR_CMD \<equiv> 0xC5"
abbreviation (input) MICRON_ID :: u32 where "MICRON_ID \<equiv> 0x20"
abbreviation (input) SPANSION_ID :: u32 where "SPANSION_ID \<equiv> 0x01"
abbreviation (input) WINBOND_ID :: u32 where "WINBOND_ID \<equiv> 0xEF"
abbreviation (input) MACRONIX_ID :: u32 where "MACRONIX_ID \<equiv> 0xC2"
abbreviation (input) ISSI_ID :: u32 where "ISSI_ID \<equiv> 0x9D"
abbreviation (input) FLASH_SIZE_128M :: u32 where "FLASH_SIZE_128M \<equiv> 0x1000000"
abbreviation (input) BANKSIZE :: u32 where "BANKSIZE \<equiv> 0x1000000"
abbreviation (input) BANKMASK :: u32 where "BANKMASK \<equiv> 0xFF000000"
abbreviation (input) DMA_DATA_TRAN_SIZE :: u32 where "DMA_DATA_TRAN_SIZE \<equiv> 0x20000000"
abbreviation (input) DUMMY_CLOCKS :: u32 where "DUMMY_CLOCKS \<equiv> 8"
abbreviation (input) DUMMY_CLOCKS_MACRONIX :: u32 where "DUMMY_CLOCKS_MACRONIX \<equiv> 6"
abbreviation (input) XFSBL_QSPI_BUSWIDTH_ONE :: u8 where "XFSBL_QSPI_BUSWIDTH_ONE \<equiv> 0"
abbreviation (input) XFSBL_QSPI_BUSWIDTH_TWO :: u8 where "XFSBL_QSPI_BUSWIDTH_TWO \<equiv> 1"
abbreviation (input) XFSBL_QSPI_BUSWIDTH_FOUR :: u8 where "XFSBL_QSPI_BUSWIDTH_FOUR \<equiv> 2"

section \<open>Transfers\<close>

definition set_msg :: "nat \<Rightarrow> (XQspiPsu_Msg \<Rightarrow> XQspiPsu_Msg) \<Rightarrow> 'd qspi \<Rightarrow> 'd qspi" where
  "set_msg i f st = st\<lparr>FlashMsg := (FlashMsg st)[i := f (FlashMsg st ! i)]\<rparr>"

definition tx_msg :: "tx_ptr \<Rightarrow> u32 \<Rightarrow> spi_width \<Rightarrow> XQspiPsu_Msg \<Rightarrow> XQspiPsu_Msg" where
  "tx_msg p n w m = m\<lparr>MsgTx := p, MsgRx := RxNull, MsgByteCount := n, MsgBusWidth := w,
     MsgFlags := [MSG_FLAG_TX]\<rparr>"

definition rx_msg :: "rx_ptr \<Rightarrow> u32 \<Rightarrow> spi_width \<Rightarrow> XQspiPsu_Msg \<Rightarrow> XQspiPsu_Msg" where
  "rx_msg p n w m = m\<lparr>MsgTx := TxNull, MsgRx := p, MsgByteCount := n, MsgBusWidth := w,
     MsgFlags := [MSG_FLAG_RX]\<rparr>"

definition dummy_msg :: "u32 \<Rightarrow> spi_width \<Rightarrow> XQspiPsu_Msg \<Rightarrow> XQspiPsu_Msg" where
  "dummy_msg n w m = m\<lparr>MsgTx := TxNull, MsgRx := RxNull, MsgByteCount := n, MsgBusWidth := w,
     MsgFlags := []\<rparr>"

definition stripe_if_parallel :: "'d qspi \<Rightarrow> XQspiPsu_Msg \<Rightarrow> XQspiPsu_Msg" where
  "stripe_if_parallel st m =
     (if ConnectionMode (Config st) = MODE_PARALLEL
      then m\<lparr>MsgFlags := MsgFlags m @ [MSG_FLAG_STRIPE]\<rparr> else m)"

definition write_buffer :: "u8 list \<Rightarrow> 'd qspi \<Rightarrow> 'd qspi" where
  "write_buffer bs st = st\<lparr>WriteBuffer := bs @ drop (length bs) (WriteBuffer st)\<rparr>"

text \<open>The messages as the driver sees them through their pointers.\<close>

definition wire :: "'d qspi \<Rightarrow> XQspiPsu_Msg \<Rightarrow> wire_msg" where
  "wire st m =
     \<lparr>WireTx = (case MsgTx m of
         TxNull \<Rightarrow> None
       | TxByte \<Rightarrow> Some [TxBfr st]
       | TxWriteBuffer off \<Rightarrow> Some (take (unat (MsgByteCount m)) (drop off (WriteBuffer st)))),
      WireRx = (MsgRx m \<noteq> RxNull), WireCount = MsgByteCount m, WireWidth = MsgBusWidth m,
      WireFlags = MsgFlags m\<rparr>"

fun receive :: "(nat \<Rightarrow> nat \<Rightarrow> u8) \<Rightarrow> nat \<Rightarrow> XQspiPsu_Msg list \<Rightarrow> 'd qspi \<Rightarrow> 'd qspi" where
  "receive resp i [] st = st"
| "receive resp i (m # ms) st = receive resp (Suc i) ms
     (case MsgRx m of
        RxNull \<Rightarrow> st
      | RxReadBuffer \<Rightarrow> st\<lparr>ReadBuffer :=
          map (resp i) [0..<unat (MsgByteCount m)] @ drop (unat (MsgByteCount m)) (ReadBuffer st)\<rparr>
      | RxMemory a \<Rightarrow> st\<lparr>Memory := (\<lambda>x. if x - a < ucast (MsgByteCount m)
          then resp i (unat (x - a)) else Memory st x)\<rparr>)"

definition XQspiPsu_PolledTransfer :: "'d qspi_driver \<Rightarrow> nat \<Rightarrow> 'd qspi \<Rightarrow> u32 \<times> 'd qspi" where
  "XQspiPsu_PolledTransfer drv n st =
     (case PolledTransfer drv (Dev st) (map (wire st) (take n (FlashMsg st))) of
        (Status, resp, d) \<Rightarrow> (Status, receive resp 0 (take n (FlashMsg st)) (st\<lparr>Dev := d\<rparr>)))"

text \<open>A one-byte command from \<open>TxBfrPtr\<close>.\<close>

definition send_byte :: "'d qspi_driver \<Rightarrow> u8 \<Rightarrow> spi_width \<Rightarrow> 'd qspi \<Rightarrow> u32 \<times> 'd qspi" where
  "send_byte drv b w st =
     XQspiPsu_PolledTransfer drv 1 (set_msg 0 (tx_msg TxByte 1 w) (st\<lparr>TxBfr := b\<rparr>))"

section \<open>Identification\<close>

definition flash_make :: "u8 \<Rightarrow> u32 option" where
  "flash_make b =
     (if b = 0x20 then Some MICRON_ID else if b = 0x01 then Some SPANSION_ID
      else if b = 0xEF then Some WINBOND_ID else if b = 0xC2 then Some MACRONIX_ID
      else if b = 0x9D then Some ISSI_ID else None)"

definition flash_size :: "u8 \<Rightarrow> u32 option" where
  "flash_size b =
     (if b = 0x14 then Some 0x0100000
      else if b = 0x15 then Some 0x0200000
      else if b = 0x16 then Some 0x0400000
      else if b = 0x17 then Some 0x0800000
      else if b = 0x18 then Some FLASH_SIZE_128M
      else if b = 0x19 \<or> b = 0x39 then Some 0x2000000
      else if b = 0x20 \<or> b = 0x1A \<or> b = 0x3A then Some 0x4000000
      else if b = 0x21 \<or> b = 0x1B \<or> b = 0x3B then Some 0x8000000
      else if b = 0x22 then Some 0x10000000
      else None)"

definition FlashReadID :: "'d qspi_driver \<Rightarrow> 'd qspi \<Rightarrow> u32 \<times> 'd qspi" where
  "FlashReadID drv st =
     (let st = set_msg 1 (rx_msg RxReadBuffer 4 SELECT_MODE_SPI)
                (set_msg 0 (tx_msg TxByte 1 SELECT_MODE_SPI) (st\<lparr>TxBfr := READ_ID_CMD\<rparr>))
      in or_fail (XQspiPsu_PolledTransfer drv 2 st) XFSBL_FAILURE (\<lambda>st.
         let st = st\<lparr>MacronixFlash := 0\<rparr> in
         case flash_make (ReadBuffer st ! 0) of
           None \<Rightarrow> (XFSBL_ERROR_UNSUPPORTED_QSPI, st)
         | Some mk \<Rightarrow>
             let st = st\<lparr>QspiFlashMake := mk,
                         MacronixFlash := (if mk = MACRONIX_ID then 1 else 0)\<rparr> in
             case flash_size (ReadBuffer st ! 2) of
               None \<Rightarrow> (XFSBL_ERROR_UNSUPPORTED_QSPI, st)
             | Some sz \<Rightarrow>
                 let st = st\<lparr>QspiFlashSize := sz\<rparr>
                 in (XFSBL_SUCCESS,
                     if QspiFlashMake st = ISSI_ID \<and> QspiFlashSize st = FLASH_SIZE_128M
                     then st\<lparr>IssiIdFlag := 1\<rparr> else st)))"

section \<open>Initialisation\<close>

text \<open>
  What both initialisations do before reading the flash identity; \<open>board_mode\<close> is the
  \<open>XPAR_PSU_QSPI_0_QSPI_MODE\<close> of the hardware design.
\<close>

definition qspi_driver_init ::
  "'d qspi_driver \<Rightarrow> qspi_mode \<Rightarrow> 'd qspi \<Rightarrow> ('d qspi \<Rightarrow> u32 \<times> 'd qspi) \<Rightarrow> u32 \<times> 'd qspi" where
  "qspi_driver_init drv board_mode st k =
     (case LookupConfig drv of
        None \<Rightarrow> (XFSBL_ERROR_QSPI_INIT, st)
      | Some cfg \<Rightarrow>
          or_fail (case CfgInitialize drv (Dev st) cfg of
              (Status, c, d) \<Rightarrow> (Status, st\<lparr>Config := c, Dev := d\<rparr>)) XFSBL_ERROR_QSPI_INIT (\<lambda>st.
          or_fail (case SetManualStart drv (Dev st) of (Status, d) \<Rightarrow> (Status, st\<lparr>Dev := d\<rparr>))
            XFSBL_ERROR_QSPI_MANUAL_START (\<lambda>st.
          or_fail (case SetClkPrescaler8 drv (Dev st) of (Status, d) \<Rightarrow> (Status, st\<lparr>Dev := d\<rparr>))
            XFSBL_ERROR_QSPI_PRESCALER_CLK (\<lambda>st.
          let st = st\<lparr>Dev := SelectFlash drv (Dev st) CS_LOWER BUS_LOWER\<rparr>
          in if board_mode = MODE_OTHER then (XFSBL_ERROR_INVALID_QSPI_CONNECTION, st)
             else k st))))"

definition double_size_if_dual :: "'d qspi \<Rightarrow> 'd qspi" where
  "double_size_if_dual st =
     (if ConnectionMode (Config st) = MODE_PARALLEL \<or> ConnectionMode (Config st) = MODE_STACKED
      then st\<lparr>QspiFlashSize := 2 * QspiFlashSize st\<rparr> else st)"

definition XFsbl_Qspi24Init :: "'d qspi_driver \<Rightarrow> qspi_mode \<Rightarrow> 'd qspi \<Rightarrow> u32 \<times> 'd qspi" where
  "XFsbl_Qspi24Init drv board_mode st = qspi_driver_init drv board_mode st (\<lambda>st.
     let st = (if CfgBusWidth (Config st) = XFSBL_QSPI_BUSWIDTH_ONE
               then st\<lparr>ReadCommand := FAST_READ_CMD_24BIT\<rparr>
               else if CfgBusWidth (Config st) = XFSBL_QSPI_BUSWIDTH_TWO
               then st\<lparr>ReadCommand := DUAL_READ_CMD_24BIT\<rparr>
               else if CfgBusWidth (Config st) = XFSBL_QSPI_BUSWIDTH_FOUR
               then st\<lparr>ReadCommand := QUAD_READ_CMD_24BIT\<rparr> else st);
         (UStatus, st) = FlashReadID drv st
     in if UStatus \<noteq> XFSBL_SUCCESS then (UStatus, st)
        else
          let st = (if IssiIdFlag st = 1 then st\<lparr>ReadCommand := DUAL_READ_CMD_24BIT\<rparr> else st);
              st = (if MacronixFlash st = 1 \<and> CfgBusWidth (Config st) = XFSBL_QSPI_BUSWIDTH_FOUR
                    then st\<lparr>ReadCommand := QUAD_READ_CMD_24BIT2\<rparr> else st)
          in (UStatus, double_size_if_dual st))"

definition MacronixEnable4B :: "'d qspi_driver \<Rightarrow> 'd qspi \<Rightarrow> u32 \<times> 'd qspi" where
  "MacronixEnable4B drv st =
     or_fail (send_byte drv WRITE_ENABLE_CMD SELECT_MODE_SPI st) XFSBL_FAILURE (\<lambda>st.
     or_fail (send_byte drv 0xB7 SELECT_MODE_SPI st) XFSBL_FAILURE (\<lambda>st.
     (XFSBL_SUCCESS, st)))"

definition XFsbl_Qspi32Init :: "'d qspi_driver \<Rightarrow> qspi_mode \<Rightarrow> 'd qspi \<Rightarrow> u32 \<times> 'd qspi" where
  "XFsbl_Qspi32Init drv board_mode st = qspi_driver_init drv board_mode st (\<lambda>st.
     let st = (if CfgBusWidth (Config st) = XFSBL_QSPI_BUSWIDTH_ONE
               then st\<lparr>ReadCommand := FAST_READ_CMD_32BIT\<rparr>
               else if CfgBusWidth (Config st) = XFSBL_QSPI_BUSWIDTH_TWO
               then st\<lparr>ReadCommand := DUAL_READ_CMD_32BIT\<rparr>
               else if CfgBusWidth (Config st) = XFSBL_QSPI_BUSWIDTH_FOUR
               then st\<lparr>ReadCommand := QUAD_READ_CMD_32BIT\<rparr> else st);
         (UStatus, st) = FlashReadID drv st
     in if UStatus \<noteq> XFSBL_SUCCESS then (UStatus, st)
        else if MacronixFlash st = 1 then
          let st = (if CfgBusWidth (Config st) = XFSBL_QSPI_BUSWIDTH_FOUR
                    then st\<lparr>ReadCommand := QUAD_READ_CMD_24BIT2\<rparr> else st)
          in if ConnectionMode (Config st) = MODE_PARALLEL then
               let st = st\<lparr>Dev := SelectFlash drv (Dev st) CS_BOTH BUS_BOTH\<rparr>;
                   (Status, st) = MacronixEnable4B drv st
               in (UStatus, double_size_if_dual st)
             else
               let st = st\<lparr>Dev := SelectFlash drv (Dev st) CS_LOWER BUS_LOWER\<rparr>
               in or_fail (MacronixEnable4B drv st) XFSBL_FAILURE (\<lambda>st.
                  if ConnectionMode (Config st) = MODE_STACKED then
                    let st = st\<lparr>Dev := SelectFlash drv (Dev st) CS_UPPER BUS_LOWER\<rparr>;
                        (Status, st) = MacronixEnable4B drv st
                    in (UStatus, double_size_if_dual st)
                  else (UStatus, double_size_if_dual st))
        else (UStatus, double_size_if_dual st))"

section \<open>Addressing and banks\<close>

definition qspi_real_addr :: "'d qspi \<Rightarrow> u32 \<Rightarrow> u32" where
  "qspi_real_addr st Address =
     (case ConnectionMode (Config st) of
        MODE_SINGLE \<Rightarrow> Address
      | MODE_STACKED \<Rightarrow>
          if Address \<ge> QspiFlashSize st div 2 then Address - QspiFlashSize st div 2 else Address
      | MODE_PARALLEL \<Rightarrow> Address div 2
      | MODE_OTHER \<Rightarrow> 0)"

definition XFsbl_GetQspiAddr :: "'d qspi_driver \<Rightarrow> u32 \<Rightarrow> 'd qspi \<Rightarrow> u32 \<times> 'd qspi" where
  "XFsbl_GetQspiAddr drv Address st =
     (qspi_real_addr st Address,
      case ConnectionMode (Config st) of
        MODE_SINGLE \<Rightarrow> st\<lparr>Dev := SelectFlash drv (Dev st) CS_LOWER BUS_LOWER\<rparr>
      | MODE_STACKED \<Rightarrow>
          if Address \<ge> QspiFlashSize st div 2
          then st\<lparr>Dev := SelectFlash drv (Dev st) CS_UPPER BUS_LOWER\<rparr>
          else st\<lparr>Dev := SelectFlash drv (Dev st) CS_LOWER BUS_LOWER\<rparr>
      | MODE_PARALLEL \<Rightarrow> st\<lparr>Dev := SelectFlash drv (Dev st) CS_BOTH BUS_BOTH\<rparr>
      | MODE_OTHER \<Rightarrow> st)"

definition write_bank_reg :: "'d qspi_driver \<Rightarrow> u8 \<Rightarrow> u32 \<Rightarrow> 'd qspi \<Rightarrow> u32 \<times> 'd qspi" where
  "write_bank_reg drv cmd BankSel st =
     XQspiPsu_PolledTransfer drv 1 (set_msg 0 (tx_msg (TxWriteBuffer 0) 2 SELECT_MODE_SPI)
       (write_buffer [cmd, ucast BankSel] st))"

definition read_bank_reg :: "'d qspi_driver \<Rightarrow> u8 \<Rightarrow> 'd qspi \<Rightarrow> u32 \<times> 'd qspi" where
  "read_bank_reg drv cmd st =
     XQspiPsu_PolledTransfer drv 2
       (set_msg 1 (rx_msg RxReadBuffer 1 SELECT_MODE_SPI)
         (set_msg 0 (tx_msg (TxWriteBuffer 0) 1 SELECT_MODE_SPI) (write_buffer [cmd] st)))"

definition SendBankSelect :: "'d qspi_driver \<Rightarrow> u32 \<Rightarrow> 'd qspi \<Rightarrow> u32 \<times> 'd qspi" where
  "SendBankSelect drv BankSel st =
     (if QspiFlashMake st = MICRON_ID \<or> QspiFlashMake st = MACRONIX_ID then
        or_fail (send_byte drv WRITE_ENABLE_CMD SELECT_MODE_SPI st) XFSBL_ERROR_QSPI_READ (\<lambda>st.
        or_fail (write_bank_reg drv EXTADD_REG_WR_CMD BankSel st) XFSBL_ERROR_QSPI_READ (\<lambda>st.
        or_fail (read_bank_reg drv EXTADD_REG_RD_CMD st) XFSBL_ERROR_QSPI_READ (\<lambda>st.
        (XFSBL_SUCCESS, st))))
      else if QspiFlashMake st = SPANSION_ID then
        or_fail (write_bank_reg drv BANK_REG_WR_CMD BankSel st) XFSBL_ERROR_QSPI_READ (\<lambda>st.
        or_fail (read_bank_reg drv BANK_REG_RD_CMD st) XFSBL_ERROR_QSPI_READ (\<lambda>st.
        if ucast (ReadBuffer st ! 0) \<noteq> BankSel then (XFSBL_ERROR_QSPI_READ, st)
        else (XFSBL_SUCCESS, st)))
      else (XFSBL_SUCCESS, st))"

definition MacronixEnableQPIMode :: "'d qspi_driver \<Rightarrow> bool \<Rightarrow> 'd qspi \<Rightarrow> u32 \<times> 'd qspi" where
  "MacronixEnableQPIMode drv Enable st =
     (let w = (if Enable then SELECT_MODE_SPI else SELECT_MODE_QUADSPI) in
      or_fail (send_byte drv WRITE_ENABLE_CMD w st) XFSBL_ERROR_QSPI_READ (\<lambda>st.
      or_fail (send_byte drv (if Enable then 0x35 else 0xF5) w st) XFSBL_ERROR_QSPI_READ (\<lambda>st.
      (XFSBL_SUCCESS, st))))"

section \<open>Copying\<close>

definition addr_bytes24 :: "u32 \<Rightarrow> u8 list" where
  "addr_bytes24 a = [ucast (drop_bit 16 (a AND 0xFF0000)), ucast (drop_bit 8 (a AND 0xFF00)),
     ucast (a AND 0xFF)]"

definition addr_bytes32 :: "u32 \<Rightarrow> u8 list" where
  "addr_bytes32 a = ucast (drop_bit 24 (a AND 0xFF000000)) # addr_bytes24 a"

text \<open>
  The read transfer in QPI mode and in SPI mode, shared by the two copies: \<open>addr\<close> is the address
  as bytes, \<open>fast\<close>, \<open>dual\<close> and \<open>quad\<close> the read commands of the addressing width.
\<close>

definition qpi_read :: "'d qspi_driver \<Rightarrow> u8 list \<Rightarrow> u64 \<Rightarrow> u32 \<Rightarrow> 'd qspi \<Rightarrow> u32 \<times> 'd qspi" where
  "qpi_read drv addr DestAddress TransferBytes st =
     or_fail (MacronixEnableQPIMode drv True st) XFSBL_ERROR_QSPI_READ (\<lambda>st.
     let st = write_buffer (ucast (ReadCommand st) # addr) st;
         st = set_msg 0 (tx_msg (TxWriteBuffer 0) 1 SELECT_MODE_QUADSPI) st;
         st = set_msg 1 (tx_msg (TxWriteBuffer 1) (of_nat (length addr)) SELECT_MODE_QUADSPI) st;
         st = set_msg 2 (dummy_msg DUMMY_CLOCKS_MACRONIX SELECT_MODE_QUADSPI) st;
         st = set_msg 3 (stripe_if_parallel st \<circ>
                rx_msg (RxMemory DestAddress) TransferBytes SELECT_MODE_QUADSPI) st
     in or_fail (XQspiPsu_PolledTransfer drv 4 st) XFSBL_ERROR_QSPI_READ (\<lambda>st.
        or_fail (MacronixEnableQPIMode drv False st) XFSBL_ERROR_QSPI_READ (\<lambda>st.
        (XFSBL_SUCCESS, st))))"

definition command_width :: "u32 \<Rightarrow> u32 \<Rightarrow> u32 \<Rightarrow> u32 \<Rightarrow> spi_width option" where
  "command_width fast dual quad cmd =
     (if cmd = fast then Some SELECT_MODE_SPI else if cmd = dual then Some SELECT_MODE_DUALSPI
      else if cmd = quad then Some SELECT_MODE_QUADSPI else None)"

definition spi_read ::
  "'d qspi_driver \<Rightarrow> u32 \<Rightarrow> u32 \<Rightarrow> u32 \<Rightarrow> u8 list \<Rightarrow> u64 \<Rightarrow> u32 \<Rightarrow> 'd qspi \<Rightarrow> u32 \<times> 'd qspi" where
  "spi_read drv fast dual quad addr DestAddress TransferBytes st =
     (let st = write_buffer (ucast (ReadCommand st) # addr) st;
          st = set_msg 0 (tx_msg (TxWriteBuffer 0) (of_nat (Suc (length addr))) SELECT_MODE_SPI) st;
          width = command_width fast dual quad (ReadCommand st);
          st = (case width of Some w \<Rightarrow> set_msg 1 (dummy_msg DUMMY_CLOCKS w) st | None \<Rightarrow> st);
          st = set_msg 2 (\<lambda>m. stripe_if_parallel st
                 (rx_msg (RxMemory DestAddress) TransferBytes
                   (case width of Some w \<Rightarrow> w | None \<Rightarrow> MsgBusWidth m) m)) st
      in or_fail (XQspiPsu_PolledTransfer drv 3 st) XFSBL_ERROR_QSPI_READ (\<lambda>st. (XFSBL_SUCCESS, st)))"

definition qpi_path :: "'d qspi \<Rightarrow> bool" where
  "qpi_path st \<longleftrightarrow> MacronixFlash st = 1 \<and> CfgBusWidth (Config st) = XFSBL_QSPI_BUSWIDTH_FOUR"

definition dma_bytes :: "u32 \<Rightarrow> u32" where
  "dma_bytes RemainingBytes =
     (if RemainingBytes > DMA_DATA_TRAN_SIZE then DMA_DATA_TRAN_SIZE else RemainingBytes)"

definition bank_size :: "'d qspi \<Rightarrow> u32" where
  "bank_size st = (if ConnectionMode (Config st) = MODE_PARALLEL then BANKSIZE * 2 else BANKSIZE)"

definition bank_mask :: "'d qspi \<Rightarrow> u32" where
  "bank_mask st = (if ConnectionMode (Config st) = MODE_PARALLEL then BANKMASK * 2 else BANKMASK)"

text \<open>The number of bytes of one round, cut at the end of the bank.\<close>

definition transfer_bytes24 :: "'d qspi \<Rightarrow> u32 \<Rightarrow> u32 \<Rightarrow> u32" where
  "transfer_bytes24 st QspiAddr RemainingBytes =
     (let TransferBytes = dma_bytes RemainingBytes;
          OrigAddr = (if ConnectionMode (Config st) = MODE_PARALLEL then QspiAddr * 2 else QspiAddr)
      in if OrigAddr AND bank_mask st \<noteq> (OrigAddr + TransferBytes) AND bank_mask st
         then (OrigAddr AND bank_mask st) + bank_size st - OrigAddr else TransferBytes)"

definition qspi24_round ::
  "'d qspi_driver \<Rightarrow> u32 \<Rightarrow> u64 \<Rightarrow> u32 \<Rightarrow> 'd qspi \<Rightarrow> u32 \<times> 'd qspi" where
  "qspi24_round drv SrcAddress DestAddress RemainingBytes st =
     (let (QspiAddr, st) = XFsbl_GetQspiAddr drv SrcAddress st
      in or_fail (if QspiFlashSize st > bank_size st
                  then SendBankSelect drv (QspiAddr div BANKSIZE) st else (XFSBL_SUCCESS, st))
           XFSBL_ERROR_QSPI_READ (\<lambda>st.
         let TransferBytes = transfer_bytes24 st QspiAddr RemainingBytes
         in if qpi_path st then qpi_read drv (addr_bytes24 QspiAddr) DestAddress TransferBytes st
            else spi_read drv FAST_READ_CMD_24BIT DUAL_READ_CMD_24BIT QUAD_READ_CMD_24BIT
                   (addr_bytes24 QspiAddr) DestAddress TransferBytes st))"

lemma bank_mask_eq: "bank_mask st = NOT (mask (if ConnectionMode (Config st) = MODE_PARALLEL then 25 else 24))"
  "bank_size st = push_bit (if ConnectionMode (Config st) = MODE_PARALLEL then 25 else 24) 1"
  by (simp_all add: bank_mask_def bank_size_def mask_eq_exp_minus_1)

lemma dma_bytes_bounds:
  assumes "n \<noteq> 0"
  shows "0 < unat (dma_bytes n)" "unat (dma_bytes n) \<le> unat n"
  using assms by (auto simp: dma_bytes_def word_less_nat_alt unat_gt_0)

text \<open>Every round moves at least one byte and never more than remain.\<close>

lemma transfer_bytes24_bounds:
  assumes "n \<noteq> 0"
  shows "0 < unat (transfer_bytes24 st a n)" "unat (transfer_bytes24 st a n) \<le> unat n"
proof -
  define k :: nat where "k = (if ConnectionMode (Config st) = MODE_PARALLEL then 25 else 24)"
  define x where "x = (if ConnectionMode (Config st) = MODE_PARALLEL then a * 2 else a)"
  have k: "k < 32" by (simp add: k_def)
  have T: "transfer_bytes24 st a n =
      (if x AND NOT (mask k) \<noteq> (x + dma_bytes n) AND NOT (mask k)
       then (x AND NOT (mask k)) + push_bit k 1 - x else dma_bytes n)"
    by (simp only: transfer_bytes24_def Let_def bank_mask_eq k_def x_def)
  have cut: "2 ^ k \<le> unat x mod 2 ^ k + unat (dma_bytes n)"
    if "x AND NOT (mask k) \<noteq> (x + dma_bytes n) AND NOT (mask k)"
    using that same_bank [OF k, of x "dma_bytes n"] by (metis not_le)
  have "unat x mod 2 ^ k < 2 ^ k" by simp
  then show "0 < unat (transfer_bytes24 st a n)" "unat (transfer_bytes24 st a n) \<le> unat n"
    using dma_bytes_bounds [OF assms] cut bank_rest [OF k, of x] unfolding T by auto
qed

function qspi24_loop ::
  "'d qspi_driver \<Rightarrow> u32 \<Rightarrow> u64 \<Rightarrow> u32 \<Rightarrow> 'd qspi \<Rightarrow> u32 \<times> 'd qspi" where
  "qspi24_loop drv SrcAddress DestAddress RemainingBytes st =
     (if RemainingBytes = 0 then (XFSBL_SUCCESS, st)
      else
        let TransferBytes = transfer_bytes24 st (qspi_real_addr st SrcAddress) RemainingBytes
        in case qspi24_round drv SrcAddress DestAddress RemainingBytes st of
             (Status, st) \<Rightarrow>
               if Status \<noteq> XFSBL_SUCCESS then (Status, st)
               else qspi24_loop drv (SrcAddress + TransferBytes) (DestAddress + ucast TransferBytes)
                      (RemainingBytes - TransferBytes) st)"
  by auto

termination
proof (relation "measure (\<lambda>(_, _, _, n, _). unat n)", goal_cases)
  case (2 drv src dst n st t)
  with transfer_bytes24_bounds [of n st "qspi_real_addr st src"] show ?case
    by (simp add: unat_sub word_le_nat_alt)
qed simp

declare qspi24_loop.simps [simp del]

definition XFsbl_Qspi24Copy ::
  "'d qspi_driver \<Rightarrow> u32 \<Rightarrow> u64 \<Rightarrow> u32 \<Rightarrow> 'd qspi \<Rightarrow> u32 \<times> 'd qspi" where
  "XFsbl_Qspi24Copy drv SrcAddress DestAddress Length st =
     (if SrcAddress + Length > QspiFlashSize st then (XFSBL_ERROR_QSPI_LENGTH, st)
      else qspi24_loop drv SrcAddress DestAddress Length st)"

definition qspi32_round ::
  "'d qspi_driver \<Rightarrow> u32 \<Rightarrow> u64 \<Rightarrow> u32 \<Rightarrow> 'd qspi \<Rightarrow> u32 \<times> 'd qspi" where
  "qspi32_round drv SrcAddress DestAddress TransferBytes st =
     (let (QspiAddr, st) = XFsbl_GetQspiAddr drv SrcAddress st
      in if qpi_path st then qpi_read drv (addr_bytes32 QspiAddr) DestAddress TransferBytes st
         else spi_read drv FAST_READ_CMD_32BIT DUAL_READ_CMD_32BIT QUAD_READ_CMD_32BIT
                (addr_bytes32 QspiAddr) DestAddress TransferBytes st)"

function qspi32_loop ::
  "'d qspi_driver \<Rightarrow> u32 \<Rightarrow> u64 \<Rightarrow> u32 \<Rightarrow> 'd qspi \<Rightarrow> u32 \<times> 'd qspi" where
  "qspi32_loop drv SrcAddress DestAddress RemainingBytes st =
     (if RemainingBytes = 0 then (XFSBL_SUCCESS, st)
      else
        let TransferBytes = dma_bytes RemainingBytes
        in case qspi32_round drv SrcAddress DestAddress TransferBytes st of
             (Status, st) \<Rightarrow>
               if Status \<noteq> XFSBL_SUCCESS then (Status, st)
               else qspi32_loop drv (SrcAddress + TransferBytes) (DestAddress + ucast TransferBytes)
                      (RemainingBytes - TransferBytes) st)"
  by auto

termination
proof (relation "measure (\<lambda>(_, _, _, n, _). unat n)", goal_cases)
  case (2 drv src dst n st t)
  with dma_bytes_bounds [of n] show ?case
    by (simp add: unat_sub word_le_nat_alt)
qed simp

declare qspi32_loop.simps [simp del]

definition XFsbl_Qspi32Copy ::
  "'d qspi_driver \<Rightarrow> u32 \<Rightarrow> u64 \<Rightarrow> u32 \<Rightarrow> 'd qspi \<Rightarrow> u32 \<times> 'd qspi" where
  "XFsbl_Qspi32Copy drv SrcAddress DestAddress Length st =
     (if SrcAddress + Length > QspiFlashSize st then (XFSBL_ERROR_QSPI_LENGTH, st)
      else qspi32_loop drv SrcAddress DestAddress Length st)"

definition XFsbl_Qspi24Release :: "u32" where
  "XFsbl_Qspi24Release = XFSBL_SUCCESS"

definition XFsbl_Qspi32Release :: "u32" where
  "XFsbl_Qspi32Release = XFSBL_SUCCESS"

section \<open>A flash behind the driver\<close>

text \<open>
  Documented behaviour of the parts as the copies use it: one or two chips, each with an extended
  address (bank) register that supplies address bits 24 and up in three-byte reads, in which
  the address counter wraps inside the bank; four-byte reads wrap at the end of the chip. With both
  chips selected the even bytes come from the lower one and the odd bytes from the upper one.
  A chip writes its bank register by command \<open>0xC5\<close> and enters the mode of four-byte addresses by \<open>0xB7\<close> only after a
  write enable. It answers a read only when the bytes come on the lines of its mode, the address has the
  length of its mode, the dummy clocks are those of the command and the data are received on the command's lines,
  and two chips only with the stripe flag. What the chips do not answer is read as zeros, with success: a
  flash has no way to report an error.
\<close>

record flash_chip =
  ChipMem :: "nat \<Rightarrow> u8"
  BankReg :: u8
  WriteEnabled :: bool
  FourByteMode :: bool
  QpiMode :: bool

record sim_flash =
  Lower :: flash_chip
  Upper :: flash_chip
  ChipSize :: nat
  ChipId :: "u8 list"
  Cs :: flash_cs

abbreviation LowerChip :: "sim_flash \<Rightarrow> nat \<Rightarrow> u8" where "LowerChip d \<equiv> ChipMem (Lower d)"
abbreviation UpperChip :: "sim_flash \<Rightarrow> nat \<Rightarrow> u8" where "UpperChip d \<equiv> ChipMem (Upper d)"
abbreviation LowerBank :: "sim_flash \<Rightarrow> u8" where "LowerBank d \<equiv> BankReg (Lower d)"
abbreviation UpperBank :: "sim_flash \<Rightarrow> u8" where "UpperBank d \<equiv> BankReg (Upper d)"

definition selected :: "sim_flash \<Rightarrow> flash_chip list" where
  "selected d = (case Cs d of CS_LOWER \<Rightarrow> [Lower d] | CS_UPPER \<Rightarrow> [Upper d] | CS_BOTH \<Rightarrow> [Lower d, Upper d])"

definition on_selected :: "(flash_chip \<Rightarrow> flash_chip) \<Rightarrow> sim_flash \<Rightarrow> sim_flash" where
  "on_selected f d = (case Cs d of
     CS_LOWER \<Rightarrow> d\<lparr>Lower := f (Lower d)\<rparr> | CS_UPPER \<Rightarrow> d\<lparr>Upper := f (Upper d)\<rparr>
   | CS_BOTH \<Rightarrow> d\<lparr>Lower := f (Lower d), Upper := f (Upper d)\<rparr>)"

definition be_addr :: "u8 list \<Rightarrow> nat" where
  "be_addr bs = foldl (\<lambda>a b. a * 256 + unat b) 0 bs"

definition sim_read24 :: "sim_flash \<Rightarrow> nat \<Rightarrow> nat \<Rightarrow> u8" where
  "sim_read24 d A j = (case Cs d of
     CS_LOWER \<Rightarrow> LowerChip d (unat (LowerBank d) * 2 ^ 24 + (A + j) mod 2 ^ 24)
   | CS_UPPER \<Rightarrow> UpperChip d (unat (UpperBank d) * 2 ^ 24 + (A + j) mod 2 ^ 24)
   | CS_BOTH \<Rightarrow>
       if even j then LowerChip d (unat (LowerBank d) * 2 ^ 24 + (A + j div 2) mod 2 ^ 24)
       else UpperChip d (unat (UpperBank d) * 2 ^ 24 + (A + j div 2) mod 2 ^ 24))"

definition sim_read32 :: "sim_flash \<Rightarrow> nat \<Rightarrow> nat \<Rightarrow> u8" where
  "sim_read32 d A j = (case Cs d of
     CS_LOWER \<Rightarrow> LowerChip d ((A + j) mod ChipSize d)
   | CS_UPPER \<Rightarrow> UpperChip d ((A + j) mod ChipSize d)
   | CS_BOTH \<Rightarrow> if even j then LowerChip d ((A + j div 2) mod ChipSize d)
       else UpperChip d ((A + j div 2) mod ChipSize d))"

definition sim_bank :: "sim_flash \<Rightarrow> u8" where
  "sim_bank d = (case Cs d of CS_UPPER \<Rightarrow> UpperBank d | _ \<Rightarrow> LowerBank d)"

definition sent_bytes :: "wire_msg list \<Rightarrow> u8 list" where
  "sent_bytes ms = concat (map (\<lambda>m. case WireTx m of Some bs \<Rightarrow> bs | None \<Rightarrow> []) ms)"

definition dummy_clocks :: "wire_msg list \<Rightarrow> nat" where
  "dummy_clocks ms = sum_list (map (\<lambda>m. if WireTx m = None \<and> \<not> WireRx m then unat (WireCount m) else 0) ms)"

definition rx_width :: "wire_msg list \<Rightarrow> spi_width" where
  "rx_width ms = (case filter WireRx ms of [m] \<Rightarrow> WireWidth m | _ \<Rightarrow> SELECT_MODE_UNSET)"

definition striped :: "wire_msg list \<Rightarrow> bool" where
  "striped ms \<longleftrightarrow> list_ex (\<lambda>m. WireRx m \<and> MSG_FLAG_STRIPE \<in> set (WireFlags m)) ms"

definition mode_width :: "bool \<Rightarrow> spi_width" where
  "mode_width qpi = (if qpi then SELECT_MODE_QUADSPI else SELECT_MODE_SPI)"

text \<open>The lines on which the selected chips listen.\<close>

definition listens :: "spi_width \<Rightarrow> sim_flash \<Rightarrow> bool" where
  "listens w d \<longleftrightarrow> list_all (\<lambda>ch. w = mode_width (QpiMode ch)) (selected d)"

definition understood :: "sim_flash \<Rightarrow> wire_msg list \<Rightarrow> bool" where
  "understood d ms \<longleftrightarrow> list_all (\<lambda>m. WireTx m \<noteq> None \<longrightarrow> listens (WireWidth m) d) ms"

definition read_ok :: "u8 \<Rightarrow> nat \<Rightarrow> wire_msg list \<Rightarrow> flash_chip \<Rightarrow> bool" where
  "read_ok c n ms ch \<longleftrightarrow>
     (if QpiMode ch then c = 0xEB \<and> n = (if FourByteMode ch then 4 else 3) \<and> dummy_clocks ms = 6
      else (c \<in> {0x0B, 0x3B, 0x6B} \<and> n = 3 \<and> \<not> FourByteMode ch \<or> c \<in> {0x0C, 0x3C, 0x6C} \<and> n = 4) \<and> dummy_clocks ms = 8) \<and>
     rx_width ms = (if c \<in> {0x0B, 0x0C} then SELECT_MODE_SPI else if c \<in> {0x3B, 0x3C} then SELECT_MODE_DUALSPI
       else SELECT_MODE_QUADSPI)"

definition sim_reply :: "u8 \<Rightarrow> u8 list \<Rightarrow> wire_msg list \<Rightarrow> sim_flash \<Rightarrow> nat \<Rightarrow> u8" where
  "sim_reply c args ms d j =
     (if c = 0x9F then if j < length (ChipId d) then ChipId d ! j else 0
      else if c = 0xC8 \<or> c = 0x16 then sim_bank d
      else if list_all (read_ok c (length args) ms) (selected d) \<and> striped ms = (Cs d = CS_BOTH)
      then if length args = 3 then sim_read24 d (be_addr args) j else sim_read32 d (be_addr args) j
      else 0)"

definition chip_command :: "u8 \<Rightarrow> u8 list \<Rightarrow> flash_chip \<Rightarrow> flash_chip" where
  "chip_command c args ch =
     (if c = 0x06 then ch\<lparr>WriteEnabled := True\<rparr>
      else if c = 0x35 then ch\<lparr>QpiMode := True\<rparr>
      else if c = 0xF5 then ch\<lparr>QpiMode := False\<rparr>
      else if c = 0x17 \<and> length args = 1 then ch\<lparr>BankReg := hd args\<rparr>
      else if WriteEnabled ch \<and> c = 0xC5 \<and> length args = 1 then ch\<lparr>BankReg := hd args, WriteEnabled := False\<rparr>
      else if WriteEnabled ch \<and> c = 0xB7 then ch\<lparr>FourByteMode := True, WriteEnabled := False\<rparr>
      else ch)"

definition sim_transfer ::
  "sim_flash \<Rightarrow> wire_msg list \<Rightarrow> u32 \<times> (nat \<Rightarrow> nat \<Rightarrow> u8) \<times> sim_flash" where
  "sim_transfer d ms =
     (case sent_bytes ms of
        c # args \<Rightarrow>
          if understood d ms then (0, \<lambda>_. sim_reply c args ms d, on_selected (chip_command c args) d)
          else (0, \<lambda>_ _. 0, d)
      | [] \<Rightarrow> (0, \<lambda>_ _. 0, d))"

definition sim_driver :: "qspi_config \<Rightarrow> sim_flash qspi_driver" where
  "sim_driver cfg =
     \<lparr>LookupConfig = Some cfg, CfgInitialize = (\<lambda>d c. (0, c, d)), SetManualStart = (\<lambda>d. (0, d)),
      SetClkPrescaler8 = (\<lambda>d. (0, d)), SelectFlash = (\<lambda>d cs _. d\<lparr>Cs := cs\<rparr>),
      PolledTransfer = sim_transfer\<rparr>"

text \<open>The flash as the boot image sees it, by connection.\<close>

definition flash_byte :: "qspi_mode \<Rightarrow> nat \<Rightarrow> sim_flash \<Rightarrow> nat \<Rightarrow> u8" where
  "flash_byte mode half d a = (case mode of
     MODE_STACKED \<Rightarrow> if a < half then LowerChip d a else UpperChip d (a - half)
   | MODE_PARALLEL \<Rightarrow> if even a then LowerChip d (a div 2) else UpperChip d (a div 2)
   | _ \<Rightarrow> LowerChip d a)"

section \<open>The driver calls on that flash\<close>

text \<open>What no step of a copy changes: the state of the code apart from memory and buffers, and the chips but for banks and write enable.\<close>

definition chip_same :: "flash_chip \<Rightarrow> flash_chip \<Rightarrow> bool" where
  "chip_same c c' \<longleftrightarrow> ChipMem c' = ChipMem c \<and> FourByteMode c' = FourByteMode c \<and> QpiMode c' = QpiMode c"

definition code_same :: "sim_flash qspi \<Rightarrow> sim_flash qspi \<Rightarrow> bool" where
  "code_same st st' \<longleftrightarrow> Config st' = Config st \<and> QspiFlashSize st' = QspiFlashSize st \<and>
     QspiFlashMake st' = QspiFlashMake st \<and> ReadCommand st' = ReadCommand st \<and> IssiIdFlag st' = IssiIdFlag st \<and>
     MacronixFlash st' = MacronixFlash st \<and> length (FlashMsg st') = length (FlashMsg st) \<and>
     length (WriteBuffer st') = length (WriteBuffer st) \<and> length (ReadBuffer st') = length (ReadBuffer st)"

definition qspi_frame :: "sim_flash qspi \<Rightarrow> sim_flash qspi \<Rightarrow> bool" where
  "qspi_frame st st' \<longleftrightarrow> code_same st st' \<and> chip_same (Lower (Dev st)) (Lower (Dev st')) \<and>
     chip_same (Upper (Dev st)) (Upper (Dev st')) \<and> ChipSize (Dev st') = ChipSize (Dev st)"

definition qspi_lists :: "sim_flash qspi \<Rightarrow> bool" where
  "qspi_lists st \<longleftrightarrow> length (FlashMsg st) = 5 \<and> length (WriteBuffer st) = 10 \<and> length (ReadBuffer st) = 10"

definition qspi_buffers :: "sim_flash qspi \<Rightarrow> bool" where
  "qspi_buffers st \<longleftrightarrow> qspi_lists st \<and> \<not> QpiMode (Lower (Dev st)) \<and> \<not> QpiMode (Upper (Dev st))"

lemmas qspi_frame_defs = qspi_frame_def code_same_def chip_same_def

lemma code_same_trans: "code_same a b \<Longrightarrow> code_same b c \<Longrightarrow> code_same a c"
  by (simp add: code_same_def)

lemma code_same_lists: "code_same a b \<Longrightarrow> qspi_lists a \<Longrightarrow> qspi_lists b"
  by (simp add: code_same_def qspi_lists_def)

lemma qspi_frame_refl [simp]: "qspi_frame st st"
  by (simp add: qspi_frame_defs)

lemma qspi_frame_trans: "qspi_frame a b \<Longrightarrow> qspi_frame b c \<Longrightarrow> qspi_frame a c"
  by (simp add: qspi_frame_defs)

lemma qspi_frame_buffers: "qspi_frame a b \<Longrightarrow> qspi_buffers a \<Longrightarrow> qspi_buffers b"
  by (simp add: qspi_frame_defs qspi_buffers_def qspi_lists_def)

lemma on_selected_select [simp]:
  "Cs (on_selected f d) = Cs d" "ChipSize (on_selected f d) = ChipSize d" "ChipId (on_selected f d) = ChipId d"
  "selected (on_selected f d) = map f (selected d)"
  "Lower (on_selected f d) = (if Cs d = CS_UPPER then Lower d else f (Lower d))"
  "Upper (on_selected f d) = (if Cs d = CS_LOWER then Upper d else f (Upper d))"
  by (cases "Cs d"; simp add: on_selected_def selected_def)+

lemma on_selected_cong: "(\<And>ch. ch \<in> set (selected d) \<Longrightarrow> f ch = g ch) \<Longrightarrow> on_selected f d = on_selected g d"
  by (cases "Cs d"; simp add: on_selected_def selected_def)

lemma on_selected_on_selected [simp]: "on_selected f (on_selected g d) = on_selected (\<lambda>ch. f (g ch)) d"
  by (cases "Cs d"; simp add: on_selected_def)

lemma on_selected_id: "(\<And>ch. ch \<in> set (selected d) \<Longrightarrow> f ch = ch) \<Longrightarrow> on_selected f d = d"
  by (cases "Cs d"; simp add: on_selected_def selected_def)

lemma in_selected: "P (Lower d) \<Longrightarrow> P (Upper d) \<Longrightarrow> list_all P (selected d)"
  by (simp add: selected_def split: flash_cs.split)

lemma reads_on_selected:
  assumes "\<And>ch. ChipMem (f ch) = ChipMem ch" "\<And>ch. BankReg (f ch) = BankReg ch"
  shows "sim_read24 (on_selected f d) = sim_read24 d" "sim_read32 (on_selected f d) = sim_read32 d"
  using assms by (simp_all add: sim_read24_def sim_read32_def fun_eq_iff split: flash_cs.split)

lemma qspi_listsE:
  assumes "qspi_lists st"
  obtains m0 m1 m2 m3 m4 w0 w1 w2 w3 w4 ws r0 rs where
    "FlashMsg st = [m0, m1, m2, m3, m4]" "WriteBuffer st = [w0, w1, w2, w3, w4] @ ws" "length ws = 5"
    "ReadBuffer st = r0 # rs" "length rs = 9"
proof -
  have "\<exists>m0 m1 m2 m3 m4. FlashMsg st = [m0, m1, m2, m3, m4]"
    "\<exists>w0 w1 w2 w3 w4 ws. WriteBuffer st = [w0, w1, w2, w3, w4] @ ws \<and> length ws = 5"
    "\<exists>r0 rs. ReadBuffer st = r0 # rs \<and> length rs = 9"
    using assms by (auto simp: qspi_lists_def numeral_eq_Suc length_Suc_conv)
  with that show ?thesis by (fastforce simp: qspi_lists_def)
qed

lemma list_update_numerals [simp]:
  "(a # b # c # xs)[2 := v] = a # b # v # xs" "(a # b # c # d # xs)[3 := v] = a # b # c # v # xs"
  by (simp_all add: numeral_eq_Suc)

lemmas sim_step_defs = XQspiPsu_PolledTransfer_def set_msg_def sim_driver_def wire_def tx_msg_def
  rx_msg_def dummy_msg_def sim_transfer_def sent_bytes_def code_same_def write_buffer_def understood_def

lemma listens_spi: "qspi_buffers st \<Longrightarrow> listens SELECT_MODE_SPI (Dev st)"
  unfolding listens_def by (rule in_selected) (simp_all add: qspi_buffers_def mode_width_def)

lemma listens_on_selected:
  "(\<And>ch. QpiMode (f ch) = QpiMode ch) \<Longrightarrow> listens w (on_selected f d) = listens w d"
  by (simp add: listens_def list_all_iff)

lemma send_byte_sim:
  assumes "qspi_lists st" "listens w (Dev st)"
  shows "\<exists>st'. send_byte (sim_driver cfg) b w st = (XFSBL_SUCCESS, st') \<and> code_same st st' \<and>
    Memory st' = Memory st \<and> Dev st' = on_selected (chip_command b []) (Dev st)"
  using assms by (elim qspi_listsE) (simp add: send_byte_def sim_step_defs)

lemma write_bank_sim:
  assumes "qspi_lists st" "listens SELECT_MODE_SPI (Dev st)"
  shows "\<exists>st'. write_bank_reg (sim_driver cfg) cmd b st = (XFSBL_SUCCESS, st') \<and> code_same st st' \<and>
    Memory st' = Memory st \<and> Dev st' = on_selected (chip_command cmd [ucast b]) (Dev st)"
  using assms by (elim qspi_listsE) (simp add: write_bank_reg_def sim_step_defs)

lemma read_bank_sim:
  assumes "qspi_lists st" "listens SELECT_MODE_SPI (Dev st)" "cmd = 0xC8 \<or> cmd = 0x16"
  shows "\<exists>st'. read_bank_reg (sim_driver cfg) cmd st = (XFSBL_SUCCESS, st') \<and> code_same st st' \<and>
    Memory st' = Memory st \<and> Dev st' = Dev st \<and> ReadBuffer st' ! 0 = sim_bank (Dev st)"
proof -
  have id: "on_selected (chip_command cmd []) (Dev st) = Dev st"
    using assms(3) by (intro on_selected_id) (auto simp: chip_command_def)
  show ?thesis
    using assms id by (elim qspi_listsE) (auto simp: read_bank_reg_def sim_step_defs sim_reply_def)
qed

definition bank_make :: "u32 \<Rightarrow> bool" where
  "bank_make mk \<longleftrightarrow> mk = MICRON_ID \<or> mk = MACRONIX_ID \<or> mk = SPANSION_ID"

lemma sim_bank_set: "(\<And>ch. BankReg (f ch) = b) \<Longrightarrow> sim_bank (on_selected f d) = b"
  by (simp add: sim_bank_def split: flash_cs.split)

lemma frame_on_selected:
  assumes "code_same st st'" "Dev st' = on_selected f (Dev st)" "\<And>ch. chip_same ch (f ch)"
  shows "qspi_frame st st'"
  using assms by (simp add: qspi_frame_def) (simp add: chip_same_def)

lemma SendBankSelect_sim:
  assumes "qspi_buffers st" "bank_make (QspiFlashMake st)" "b < 256"
  shows "\<exists>st'. SendBankSelect (sim_driver cfg) b st = (XFSBL_SUCCESS, st') \<and>
    qspi_frame st st' \<and> Memory st' = Memory st \<and> Cs (Dev st') = Cs (Dev st) \<and>
    (Cs (Dev st) \<noteq> CS_UPPER \<longrightarrow> LowerBank (Dev st') = ucast b) \<and> (Cs (Dev st) \<noteq> CS_LOWER \<longrightarrow> UpperBank (Dev st') = ucast b)"
proof -
  have b: "ucast (ucast b :: u8) = b"
    using assms(3)
    by (simp add: word_unat_eq_iff take_bit_nat_eq_self word_less_nat_alt unsigned_ucast_eq
        unsigned_take_bit_eq)
  have l: "qspi_lists st" using assms(1) by (simp add: qspi_buffers_def)
  note w = listens_spi [OF assms(1)]
  show ?thesis
  proof (cases "QspiFlashMake st = SPANSION_ID")
    case True
    define f where "f = chip_command 0x17 [ucast b]"
    have f: "BankReg (f ch) = ucast b" "QpiMode (f ch) = QpiMode ch" "chip_same ch (f ch)" for ch
      by (simp_all add: f_def chip_command_def chip_same_def)
    obtain st1 where 1: "write_bank_reg (sim_driver cfg) 0x17 b st = (XFSBL_SUCCESS, st1)"
      "code_same st st1" "Memory st1 = Memory st" "Dev st1 = on_selected f (Dev st)"
      using write_bank_sim [OF l w, of cfg "0x17" b] unfolding f_def by blast
    have w1: "listens SELECT_MODE_SPI (Dev st1)" using w f(2) by (simp add: 1(4) listens_on_selected)
    obtain st2 where 2: "read_bank_reg (sim_driver cfg) 0x16 st1 = (XFSBL_SUCCESS, st2)"
      "code_same st1 st2" "Memory st2 = Memory st1" "Dev st2 = Dev st1" "ReadBuffer st2 ! 0 = sim_bank (Dev st1)"
      using read_bank_sim [OF code_same_lists [OF 1(2) l] w1, of "0x16" cfg] by blast
    have "qspi_frame st st2"
      by (rule frame_on_selected [OF code_same_trans [OF 1(2) 2(2)] _ f(3)]) (simp add: 2(4) 1(4))
    then show ?thesis
      using True 1 2 b f sim_bank_set [of f "ucast b" "Dev st"] by (simp add: SendBankSelect_def)
  next
    case False
    then have mk: "QspiFlashMake st = MICRON_ID \<or> QspiFlashMake st = MACRONIX_ID"
      using assms(2) by (simp add: bank_make_def)
    define f where "f = (\<lambda>ch. chip_command 0xC5 [ucast b] (chip_command 0x06 [] ch))"
    have f: "BankReg (f ch) = ucast b" "QpiMode (f ch) = QpiMode ch" "chip_same ch (f ch)" for ch
      by (simp_all add: f_def chip_command_def chip_same_def)
    obtain st0 where 0: "send_byte (sim_driver cfg) 0x06 SELECT_MODE_SPI st = (XFSBL_SUCCESS, st0)"
      "code_same st st0" "Memory st0 = Memory st" "Dev st0 = on_selected (chip_command 0x06 []) (Dev st)"
      using send_byte_sim [OF l w, of cfg "0x06"] by blast
    have w0: "listens SELECT_MODE_SPI (Dev st0)"
      using w by (simp add: 0(4) listens_on_selected chip_command_def)
    obtain st1 where 1: "write_bank_reg (sim_driver cfg) 0xC5 b st0 = (XFSBL_SUCCESS, st1)"
      "code_same st0 st1" "Memory st1 = Memory st0" "Dev st1 = on_selected f (Dev st)"
      using write_bank_sim [OF code_same_lists [OF 0(2) l] w0, of cfg "0xC5" b] unfolding 0(4) on_selected_on_selected f_def
      by blast
    note s1 = code_same_trans [OF 0(2) 1(2)]
    have w1: "listens SELECT_MODE_SPI (Dev st1)" using w f(2) by (simp add: 1(4) listens_on_selected)
    obtain st2 where 2: "read_bank_reg (sim_driver cfg) 0xC8 st1 = (XFSBL_SUCCESS, st2)"
      "code_same st1 st2" "Memory st2 = Memory st1" "Dev st2 = Dev st1"
      using read_bank_sim [OF code_same_lists [OF s1 l] w1, of "0xC8" cfg] by blast
    have "qspi_frame st st2"
      by (rule frame_on_selected [OF code_same_trans [OF s1 2(2)] _ f(3)]) (simp add: 2(4) 1(4))
    then show ?thesis
      using mk 0 1 2 f by (simp add: SendBankSelect_def)
  qed
qed

text \<open>What a read transfer leaves in memory.\<close>

definition mem_write :: "u64 \<Rightarrow> u32 \<Rightarrow> (nat \<Rightarrow> u8) \<Rightarrow> (u64 \<Rightarrow> u8) \<Rightarrow> u64 \<Rightarrow> u8" where
  "mem_write dst n f m = (\<lambda>x. if x - dst < ucast n then f (unat (x - dst)) else m x)"

lemma set_msg_select [simp]:
  "Config (set_msg i f st) = Config st" "ReadCommand (set_msg i f st) = ReadCommand st"
  by (simp_all add: set_msg_def)

lemma write_buffer_select [simp]:
  "Config (write_buffer bs st) = Config st" "ReadCommand (write_buffer bs st) = ReadCommand st"
  by (simp_all add: write_buffer_def)

text \<open>The chips are selected as the connection wants them.\<close>

definition cs_fits :: "sim_flash qspi \<Rightarrow> bool" where
  "cs_fits st \<longleftrightarrow> (Cs (Dev st) = CS_BOTH \<longleftrightarrow> ConnectionMode (Config st) = MODE_PARALLEL)"

definition address_mode :: "bool \<Rightarrow> sim_flash \<Rightarrow> bool" where
  "address_mode four d \<longleftrightarrow> list_all (\<lambda>ch. FourByteMode ch = four) (selected d)"

lemma selected_spi: "qspi_buffers st \<Longrightarrow> list_all (\<lambda>ch. \<not> QpiMode ch) (selected (Dev st))"
  by (rule in_selected) (simp_all add: qspi_buffers_def)

lemma sim_reply_read:
  assumes "c \<noteq> 0x9F" "c \<noteq> 0xC8" "c \<noteq> 0x16" "list_all (read_ok c (length args) ms) (selected d)" "striped ms = (Cs d = CS_BOTH)"
  shows "sim_reply c args ms d = (if length args = 3 then sim_read24 d (be_addr args) else sim_read32 d (be_addr args))"
  using assms by (simp add: sim_reply_def fun_eq_iff)

lemma read_command_id: "c \<in> {0x0B, 0x3B, 0x6B, 0x0C, 0x3C, 0x6C, 0xEB} \<Longrightarrow> chip_command c args ch = ch"
  by (auto simp: chip_command_def)

text \<open>The messages of a read in SPI mode and in QPI mode, and what the chips answer.\<close>

definition spi_read_msgs :: "u8 \<Rightarrow> u8 list \<Rightarrow> spi_width \<Rightarrow> u32 \<Rightarrow> msg_flag list \<Rightarrow> wire_msg list" where
  "spi_read_msgs c addr w n fl =
     [\<lparr>WireTx = Some (c # addr), WireRx = False, WireCount = of_nat (Suc (length addr)), WireWidth = SELECT_MODE_SPI, WireFlags = [MSG_FLAG_TX]\<rparr>,
      \<lparr>WireTx = None, WireRx = False, WireCount = DUMMY_CLOCKS, WireWidth = w, WireFlags = []\<rparr>,
      \<lparr>WireTx = None, WireRx = True, WireCount = n, WireWidth = w, WireFlags = fl\<rparr>]"

definition qpi_read_msgs :: "u8 \<Rightarrow> u8 list \<Rightarrow> u32 \<Rightarrow> msg_flag list \<Rightarrow> wire_msg list" where
  "qpi_read_msgs c addr n fl =
     [\<lparr>WireTx = Some [c], WireRx = False, WireCount = 1, WireWidth = SELECT_MODE_QUADSPI, WireFlags = [MSG_FLAG_TX]\<rparr>,
      \<lparr>WireTx = Some addr, WireRx = False, WireCount = of_nat (length addr), WireWidth = SELECT_MODE_QUADSPI, WireFlags = [MSG_FLAG_TX]\<rparr>,
      \<lparr>WireTx = None, WireRx = False, WireCount = DUMMY_CLOCKS_MACRONIX, WireWidth = SELECT_MODE_QUADSPI, WireFlags = []\<rparr>,
      \<lparr>WireTx = None, WireRx = True, WireCount = n, WireWidth = SELECT_MODE_QUADSPI, WireFlags = fl\<rparr>]"

definition rx_flags :: "bool \<Rightarrow> msg_flag list" where
  "rx_flags parallel = (if parallel then [MSG_FLAG_RX, MSG_FLAG_STRIPE] else [MSG_FLAG_RX])"

lemma stripe_if_parallel_rx: "stripe_if_parallel st (rx_msg p n w m) =
    m\<lparr>MsgTx := TxNull, MsgRx := p, MsgByteCount := n, MsgBusWidth := w, MsgFlags := rx_flags (ConnectionMode (Config st) = MODE_PARALLEL)\<rparr>"
  by (simp add: stripe_if_parallel_def rx_msg_def rx_flags_def)

definition chips_read :: "sim_flash \<Rightarrow> u8 list \<Rightarrow> nat \<Rightarrow> u8" where
  "chips_read d addr = (if length addr = 3 then sim_read24 d (be_addr addr) else sim_read32 d (be_addr addr))"

lemma spi_read_transfer:
  assumes "list_all (\<lambda>ch. \<not> QpiMode ch) (selected d)" "Cs d = CS_BOTH \<longleftrightarrow> parallel"
    and "c \<in> {0x0B, 0x3B, 0x6B} \<and> length addr = 3 \<and> address_mode False d \<or> c \<in> {0x0C, 0x3C, 0x6C} \<and> length addr = 4"
    and "w = (if c \<in> {0x0B, 0x0C} then SELECT_MODE_SPI else if c \<in> {0x3B, 0x3C} then SELECT_MODE_DUALSPI else SELECT_MODE_QUADSPI)"
  shows "sim_transfer d (spi_read_msgs c addr w n (rx_flags parallel)) = (0, \<lambda>_. chips_read d addr, d)"
proof -
  let ?ms = "spi_read_msgs c addr w n (rx_flags parallel)"
  have d: "dummy_clocks ?ms = 8" "rx_width ?ms = w" "striped ?ms = parallel" "sent_bytes ?ms = c # addr"
    by (simp_all add: spi_read_msgs_def dummy_clocks_def rx_width_def striped_def rx_flags_def sent_bytes_def)
  have u: "understood d ?ms"
    using assms(1) by (simp add: understood_def spi_read_msgs_def listens_def mode_width_def list_all_iff)
  have "list_all (read_ok c (length addr) ?ms) (selected d)"
    using assms(1,3,4) d by (auto simp: read_ok_def address_mode_def list_all_iff)
  then have r: "sim_reply c addr ?ms d = chips_read d addr"
    unfolding chips_read_def by (intro sim_reply_read) (use assms(2,3) d in auto)
  have "on_selected (chip_command c addr) d = d"
    by (rule on_selected_id, rule read_command_id) (use assms(3) in auto)
  then show ?thesis using u r d(4) by (simp add: sim_transfer_def)
qed

lemma qpi_read_transfer:
  assumes "list_all QpiMode (selected d)" "Cs d = CS_BOTH \<longleftrightarrow> parallel"
    and "length addr = (if four then 4 else 3)" "address_mode four d"
  shows "sim_transfer d (qpi_read_msgs 0xEB addr n (rx_flags parallel)) = (0, \<lambda>_. chips_read d addr, d)"
proof -
  let ?ms = "qpi_read_msgs 0xEB addr n (rx_flags parallel)"
  have d: "dummy_clocks ?ms = 6" "rx_width ?ms = SELECT_MODE_QUADSPI" "striped ?ms = parallel" "sent_bytes ?ms = 0xEB # addr"
    by (simp_all add: qpi_read_msgs_def dummy_clocks_def rx_width_def striped_def rx_flags_def sent_bytes_def)
  have u: "understood d ?ms"
    using assms(1) by (simp add: understood_def qpi_read_msgs_def listens_def mode_width_def list_all_iff)
  have "list_all (read_ok 0xEB (length addr) ?ms) (selected d)"
    using assms(1,3,4) d by (auto simp: read_ok_def address_mode_def list_all_iff)
  then have r: "sim_reply 0xEB addr ?ms d = chips_read d addr"
    unfolding chips_read_def by (intro sim_reply_read) (use assms(2) d in auto)
  have "on_selected (chip_command 0xEB addr) d = d"
    by (rule on_selected_id, rule read_command_id) auto
  then show ?thesis using u r d(4) by (simp add: sim_transfer_def)
qed

lemma receive_silent: "list_all (\<lambda>m. MsgRx m = RxNull) ms \<Longrightarrow> receive resp i (ms @ ms') st = receive resp (i + length ms) ms' st"
  by (induction ms arbitrary: i) simp_all

lemma read_transfer:
  assumes "take k (FlashMsg st) = ms @ [m]" "list_all (\<lambda>m. MsgRx m = RxNull) ms" "MsgRx m = RxMemory dst" "MsgByteCount m = n"
    and "sim_transfer (Dev st) (map (wire st) (ms @ [m])) = (0, \<lambda>_. f, Dev st)"
  shows "XQspiPsu_PolledTransfer (sim_driver cfg) k st = (0, st\<lparr>Memory := mem_write dst n f (Memory st)\<rparr>)"
  using assms by (simp add: XQspiPsu_PolledTransfer_def sim_driver_def receive_silent mem_write_def cong: if_cong)

lemma spi_read_sim:
  assumes "qspi_buffers st" "cs_fits st"
    and "fast = 0x0B \<and> dual = 0x3B \<and> quad = 0x6B \<and> length addr = 3 \<and> address_mode False (Dev st) \<or>
      fast = 0x0C \<and> dual = 0x3C \<and> quad = 0x6C \<and> length addr = 4"
    and "ReadCommand st \<in> {fast, dual, quad}"
  shows "\<exists>st'. spi_read (sim_driver cfg) fast dual quad addr dst n st = (XFSBL_SUCCESS, st') \<and>
    code_same st st' \<and> Dev st' = Dev st \<and> Memory st' = mem_write dst n (chips_read (Dev st) addr) (Memory st)"
proof -
  define c where "c = (ucast (ReadCommand st) :: u8)"
  define w where "w = (if c \<in> {0x0B, 0x0C} then SELECT_MODE_SPI else if c \<in> {0x3B, 0x3C} then SELECT_MODE_DUALSPI else SELECT_MODE_QUADSPI)"
  have cw: "command_width fast dual quad (ReadCommand st) = Some w"
    "c \<in> {0x0B, 0x3B, 0x6B} \<and> length addr = 3 \<and> address_mode False (Dev st) \<or> c \<in> {0x0C, 0x3C, 0x6C} \<and> length addr = 4"
    using assms(3,4) by (elim disjE conjE insertE emptyE; simp add: command_width_def c_def w_def)+
  have l: "qspi_lists st" using assms(1) by (simp add: qspi_buffers_def)
  have t: "sim_transfer (Dev st) (spi_read_msgs c addr w n (rx_flags (ConnectionMode (Config st) = MODE_PARALLEL))) =
      (0, \<lambda>_. chips_read (Dev st) addr, Dev st)"
    by (rule spi_read_transfer [OF selected_spi [OF assms(1)] _ cw(2) w_def]) (use assms(2) in \<open>simp add: cs_fits_def\<close>)
  define stA where "stA = write_buffer (ucast (ReadCommand st) # addr) st"
  define stB where "stB = set_msg 2 (\<lambda>m. stripe_if_parallel st (rx_msg (RxMemory dst) n w m))
    (set_msg 1 (dummy_msg DUMMY_CLOCKS w) (set_msg 0 (tx_msg (TxWriteBuffer 0) (of_nat (Suc (length addr))) SELECT_MODE_SPI) stA))"
  have "length addr \<le> 4" using assms(3) by auto
  then have B: "Dev stB = Dev st" "Memory stB = Memory st" "code_same st stB"
    using l unfolding qspi_lists_def by (simp_all add: stB_def stA_def set_msg_def write_buffer_def code_same_def)
  obtain m0 m1 m2 m3 m4 where m: "FlashMsg st = [m0, m1, m2, m3, m4]" by (rule qspi_listsE [OF l])
  define ms where "ms = [tx_msg (TxWriteBuffer 0) (of_nat (Suc (length addr))) SELECT_MODE_SPI m0, dummy_msg DUMMY_CLOCKS w m1]"
  define mr where "mr = stripe_if_parallel st (rx_msg (RxMemory dst) n w m2)"
  have f: "take 3 (FlashMsg stB) = ms @ [mr]" by (simp add: stB_def stA_def set_msg_def write_buffer_def m ms_def mr_def)
  have s1: "list_all (\<lambda>m. MsgRx m = RxNull) ms" "MsgRx mr = RxMemory dst" "MsgByteCount mr = n"
    by (simp_all add: ms_def mr_def tx_msg_def dummy_msg_def stripe_if_parallel_rx)
  have wb: "WriteBuffer stB = (c # addr) @ drop (Suc (length addr)) (WriteBuffer st)"
    by (simp add: stB_def stA_def set_msg_def write_buffer_def c_def)
  have la: "length addr \<le> 4" using assms(3) by auto
  then have "unat (of_nat (Suc (length addr)) :: u32) = Suc (length addr)" by (intro unat_of_nat_small) simp
  then have "map (wire stB) (ms @ [mr]) = spi_read_msgs c addr w n (rx_flags (ConnectionMode (Config st) = MODE_PARALLEL))"
    by (simp add: ms_def mr_def spi_read_msgs_def wire_def tx_msg_def dummy_msg_def stripe_if_parallel_rx wb del: of_nat_Suc)
  with t B(1) have "sim_transfer (Dev stB) (map (wire stB) (ms @ [mr])) = (0, \<lambda>_. chips_read (Dev st) addr, Dev stB)" by simp
  note run = read_transfer [OF f s1 this, of cfg]
  have "spi_read (sim_driver cfg) fast dual quad addr dst n st =
      (XFSBL_SUCCESS, stB\<lparr>Memory := mem_write dst n (chips_read (Dev st) addr) (Memory stB)\<rparr>)"
    using run cw(1) by (simp add: spi_read_def Let_def stB_def stA_def stripe_if_parallel_def cong: if_cong)
  then show ?thesis using B by (simp add: code_same_def)
qed

text \<open>The QPI mode of the selected chips on and off, and the read between.\<close>

definition in_qpi :: "bool \<Rightarrow> flash_chip \<Rightarrow> flash_chip" where
  "in_qpi b ch = ch\<lparr>WriteEnabled := True, QpiMode := b\<rparr>"

lemma in_qpi_select [simp]:
  "ChipMem (in_qpi b ch) = ChipMem ch" "BankReg (in_qpi b ch) = BankReg ch" "FourByteMode (in_qpi b ch) = FourByteMode ch"
  "QpiMode (in_qpi b ch) = b" "in_qpi a (in_qpi b ch) = in_qpi a ch"
  by (simp_all add: in_qpi_def)

lemma MacronixEnableQPIMode_sim:
  assumes "qspi_lists st" "listens (mode_width (\<not> Enable)) (Dev st)"
  shows "\<exists>st'. MacronixEnableQPIMode (sim_driver cfg) Enable st = (XFSBL_SUCCESS, st') \<and> code_same st st' \<and>
    Memory st' = Memory st \<and> Dev st' = on_selected (in_qpi Enable) (Dev st)"
proof -
  define w where "w = mode_width (\<not> Enable)"
  define c :: u8 where "c = (if Enable then 0x35 else 0xF5)"
  have w: "w = (if Enable then SELECT_MODE_SPI else SELECT_MODE_QUADSPI)" by (simp add: w_def mode_width_def)
  obtain st1 where 1: "send_byte (sim_driver cfg) 0x06 w st = (XFSBL_SUCCESS, st1)" "code_same st st1" "Memory st1 = Memory st"
    "Dev st1 = on_selected (chip_command 0x06 []) (Dev st)"
    using send_byte_sim [OF assms, of cfg "0x06"] unfolding w_def by blast
  have w1: "listens w (Dev st1)" using assms(2) by (simp add: 1(4) listens_on_selected chip_command_def w_def)
  obtain st2 where 2: "send_byte (sim_driver cfg) c w st1 = (XFSBL_SUCCESS, st2)" "code_same st1 st2" "Memory st2 = Memory st1"
    "Dev st2 = on_selected (chip_command c []) (Dev st1)"
    using send_byte_sim [OF code_same_lists [OF 1(2) assms(1)] w1, of cfg c] by blast
  have "Dev st2 = on_selected (in_qpi Enable) (Dev st)"
    unfolding 2(4) 1(4) on_selected_on_selected by (rule on_selected_cong) (simp add: in_qpi_def chip_command_def c_def)
  moreover have "MacronixEnableQPIMode (sim_driver cfg) Enable st = (XFSBL_SUCCESS, st2)"
    using 1(1) 2(1) by (cases Enable) (simp_all add: MacronixEnableQPIMode_def w c_def)
  ultimately show ?thesis using 1 2 code_same_trans [OF 1(2) 2(2)] by simp
qed

lemma chips_read_on_selected:
  "(\<And>ch. ChipMem (f ch) = ChipMem ch) \<Longrightarrow> (\<And>ch. BankReg (f ch) = BankReg ch) \<Longrightarrow> chips_read (on_selected f d) = chips_read d"
  by (simp add: chips_read_def fun_eq_iff reads_on_selected)

lemma qpi_read_sim:
  assumes "qspi_buffers st" "cs_fits st" "ReadCommand st = 0xEB"
    and "length addr = (if four then 4 else 3)" "address_mode four (Dev st)"
  shows "\<exists>st'. qpi_read (sim_driver cfg) addr dst n st = (XFSBL_SUCCESS, st') \<and> code_same st st' \<and>
    Dev st' = on_selected (in_qpi False) (Dev st) \<and> Memory st' = mem_write dst n (chips_read (Dev st) addr) (Memory st)"
proof -
  have l: "qspi_lists st" using assms(1) by (simp add: qspi_buffers_def)
  have "listens (mode_width (\<not> True)) (Dev st)" using listens_spi [OF assms(1)] by (simp add: mode_width_def)
  from MacronixEnableQPIMode_sim [OF l this, of cfg] obtain st1 where 1: "MacronixEnableQPIMode (sim_driver cfg) True st = (XFSBL_SUCCESS, st1)"
    "code_same st st1" "Memory st1 = Memory st" "Dev st1 = on_selected (in_qpi True) (Dev st)" by blast
  have l1: "qspi_lists st1" by (rule code_same_lists [OF 1(2) l])
  have c: "Config st1 = Config st" "ReadCommand st1 = 0xEB" using 1(2) assms(3) by (simp_all add: code_same_def)
  obtain m0 m1 m2 m3 m4 where m: "FlashMsg st1 = [m0, m1, m2, m3, m4]" by (rule qspi_listsE [OF l1])
  define ms where "ms = [tx_msg (TxWriteBuffer 0) 1 SELECT_MODE_QUADSPI m0,
    tx_msg (TxWriteBuffer 1) (of_nat (length addr)) SELECT_MODE_QUADSPI m1, dummy_msg DUMMY_CLOCKS_MACRONIX SELECT_MODE_QUADSPI m2]"
  define mr where "mr = stripe_if_parallel st1 (rx_msg (RxMemory dst) n SELECT_MODE_QUADSPI m3)"
  define stA where "stA = write_buffer (ucast (ReadCommand st1) # addr) st1"
  define stB where "stB = set_msg 3 (stripe_if_parallel st1 \<circ> rx_msg (RxMemory dst) n SELECT_MODE_QUADSPI)
    (set_msg 2 (dummy_msg DUMMY_CLOCKS_MACRONIX SELECT_MODE_QUADSPI)
      (set_msg 1 (tx_msg (TxWriteBuffer 1) (of_nat (length addr)) SELECT_MODE_QUADSPI)
        (set_msg 0 (tx_msg (TxWriteBuffer 0) 1 SELECT_MODE_QUADSPI) stA)))"
  have la: "length addr \<le> 4" using assms(4) by simp
  then have B: "Dev stB = Dev st1" "Memory stB = Memory st1" "code_same st1 stB"
    using l1 unfolding qspi_lists_def by (simp_all add: stB_def stA_def set_msg_def write_buffer_def code_same_def)
  have f: "take 4 (FlashMsg stB) = ms @ [mr]" by (simp add: stB_def stA_def set_msg_def write_buffer_def m ms_def mr_def)
  have s1: "list_all (\<lambda>m. MsgRx m = RxNull) ms" "MsgRx mr = RxMemory dst" "MsgByteCount mr = n"
    by (simp_all add: ms_def mr_def tx_msg_def dummy_msg_def stripe_if_parallel_rx)
  have wb: "WriteBuffer stB = (0xEB # addr) @ drop (Suc (length addr)) (WriteBuffer st1)"
    by (simp add: stB_def stA_def set_msg_def write_buffer_def c(2))
  have "unat (of_nat (length addr) :: u32) = length addr" using la by (intro unat_of_nat_small) simp
  then have w: "map (wire stB) (ms @ [mr]) = qpi_read_msgs 0xEB addr n (rx_flags (ConnectionMode (Config st) = MODE_PARALLEL))"
    by (simp add: ms_def mr_def qpi_read_msgs_def wire_def tx_msg_def dummy_msg_def stripe_if_parallel_rx wb c)
  have "sim_transfer (Dev stB) (map (wire stB) (ms @ [mr])) = (0, \<lambda>_. chips_read (Dev st1) addr, Dev stB)"
    unfolding w B(1)
    by (rule qpi_read_transfer [OF _ _ assms(4)])
      (use assms(2,5) in \<open>simp_all add: 1(4) cs_fits_def address_mode_def list_all_iff\<close>)
  note run = read_transfer [OF f s1 this, of cfg]
  define st2 where "st2 = stB\<lparr>Memory := mem_write dst n (chips_read (Dev st1) addr) (Memory stB)\<rparr>"
  have 2: "code_same st1 st2" "Dev st2 = Dev st1" "Memory st2 = mem_write dst n (chips_read (Dev st) addr) (Memory st)"
    using B 1(3) by (simp_all add: st2_def code_same_def) (simp add: 1(4) chips_read_on_selected)
  have "listens (mode_width (\<not> False)) (Dev st2)"
    by (simp add: 2(2) 1(4) listens_def list_all_iff)
  from MacronixEnableQPIMode_sim [OF code_same_lists [OF 2(1) l1] this, of cfg] obtain st3 where
    3: "MacronixEnableQPIMode (sim_driver cfg) False st2 = (XFSBL_SUCCESS, st3)"
    "code_same st2 st3" "Memory st3 = Memory st2" "Dev st3 = on_selected (in_qpi False) (Dev st2)" by blast
  have "qpi_read (sim_driver cfg) addr dst n st = (XFSBL_SUCCESS, st3)"
    using 1(1) run 3(1) c by (simp add: qpi_read_def Let_def stB_def stA_def st2_def comp_def stripe_if_parallel_def cong: if_cong)
  moreover have "Dev st3 = on_selected (in_qpi False) (Dev st)"
    unfolding 3(4) 2(2) 1(4) on_selected_on_selected by (rule on_selected_cong) simp
  ultimately show ?thesis
    using code_same_trans [OF 1(2) code_same_trans [OF 2(1) 3(2)]] 2(3) 3(3) by simp
qed

lemma addr_byte:
  "ucast (drop_bit 16 (a AND 0xFF0000)) = (ucast (drop_bit 16 (a :: u32)) :: u8)"
  "ucast (drop_bit 8 (a AND 0xFF00)) = (ucast (drop_bit 8 a) :: u8)"
  "ucast (a AND 0xFF) = (ucast a :: u8)"
  "ucast (drop_bit 24 (a AND 0xFF000000)) = (ucast (drop_bit 24 a) :: u8)"
proof -
  have m: "(0xFF0000 :: u32) = push_bit 16 (mask 8)" "(0xFF00 :: u32) = push_bit 8 (mask 8)"
    "(0xFF :: u32) = mask 8" "(0xFF000000 :: u32) = push_bit 24 (mask 8)"
    by (simp_all add: mask_eq_exp_minus_1 push_bit_eq_mult)
  show "ucast (drop_bit 16 (a AND 0xFF0000)) = (ucast (drop_bit 16 a) :: u8)"
    "ucast (drop_bit 8 (a AND 0xFF00)) = (ucast (drop_bit 8 a) :: u8)"
    "ucast (a AND 0xFF) = (ucast a :: u8)"
    "ucast (drop_bit 24 (a AND 0xFF000000)) = (ucast (drop_bit 24 a) :: u8)"
    unfolding m by (rule bit_word_eqI; auto simp: bit_simps)+
qed

lemma unat_ucast_byte: "unat (ucast (drop_bit n (a :: u32)) :: u8) = unat a div 2 ^ n mod 256"
  unfolding unsigned_ucast_eq unat_drop_bit_eq by (simp add: drop_bit_eq_div take_bit_eq_mod)

lemma three_bytes: "x div 65536 mod 256 * 65536 + x div 256 mod 256 * 256 + x mod 256 = x mod (16777216 :: nat)"
  using mod_mult2_eq [of x 256 65536] mod_mult2_eq [of "x div 256" 256 256] div_mult2_eq [of x 256 256]
  by simp

lemma be_addr_bytes:
  "be_addr (addr_bytes24 a) = unat a mod 2 ^ 24"
  "be_addr (addr_bytes32 a) = unat a"
proof -
  have b: "unat (ucast a :: u8) = unat a mod 256" using unat_ucast_byte [of 0 a] by simp
  then show 24: "be_addr (addr_bytes24 a) = unat a mod 2 ^ 24"
    using three_bytes [of "unat a"]
    by (simp add: be_addr_def addr_bytes24_def addr_byte unat_ucast_byte add_mult_distrib)
  have "unat a < 2 ^ 32" using unsigned_less [of a] by simp
  then have "unat a div 2 ^ 24 mod 256 = unat a div 2 ^ 24" by simp
  moreover have "be_addr (addr_bytes32 a) = 16777216 * (unat a div 2 ^ 24 mod 256) +
      (unat a div 65536 mod 256 * 65536 + unat a div 256 mod 256 * 256 + unat a mod 256)"
    using b by (simp add: be_addr_def addr_bytes32_def addr_bytes24_def addr_byte unat_ucast_byte)
  moreover have "16777216 * (unat a div 2 ^ 24) + unat a mod 16777216 = unat a"
    using mult_div_mod_eq [of "16777216" "unat a"] by simp
  ultimately show "be_addr (addr_bytes32 a) = unat a"
    using three_bytes [of "unat a"] by (metis)
qed

section \<open>The 24-bit copy delivers the flash\<close>

definition bank_bits :: "'d qspi \<Rightarrow> nat" where
  "bank_bits st = (if ConnectionMode (Config st) = MODE_PARALLEL then 25 else 24)"

definition bank_orig :: "'d qspi \<Rightarrow> u32 \<Rightarrow> u32" where
  "bank_orig st a = (if ConnectionMode (Config st) = MODE_PARALLEL then a * 2 else a)"

lemma transfer_bytes24_eq:
  "transfer_bytes24 st a n =
     (if bank_orig st a AND NOT (mask (bank_bits st)) \<noteq>
         (bank_orig st a + dma_bytes n) AND NOT (mask (bank_bits st))
      then (bank_orig st a AND NOT (mask (bank_bits st))) + push_bit (bank_bits st) 1 - bank_orig st a
      else dma_bytes n)"
  by (simp only: transfer_bytes24_def Let_def bank_mask_eq bank_bits_def bank_orig_def)

lemma transfer_bytes24_in_bank:
  assumes "unat (bank_orig st a) + unat n < 2 ^ 32"
  shows "unat (bank_orig st a) mod 2 ^ bank_bits st + unat (transfer_bytes24 st a n) \<le> 2 ^ bank_bits st"
proof -
  let ?x = "bank_orig st a" and ?k = "bank_bits st" and ?t = "dma_bytes n"
  have k: "?k < 32" by (simp add: bank_bits_def)
  have lt: "unat ?x mod 2 ^ ?k < 2 ^ ?k" by simp
  show ?thesis
  proof (cases "?x AND NOT (mask ?k) = (?x + ?t) AND NOT (mask ?k)")
    case False
    then show ?thesis using bank_rest [OF k, of ?x] lt by (simp add: transfer_bytes24_eq)
  next
    case True
    have t: "unat ?t \<le> unat n" by (simp add: dma_bytes_def word_less_nat_alt)
    then have "unat (?x + ?t) = unat ?x + unat ?t"
      using assms by (simp add: unat_add_lem [THEN iffD1])
    moreover have "unat ?x div 2 ^ ?k = unat (?x + ?t) div 2 ^ ?k"
      using arg_cong [OF True, of unat] by (simp only: unat_and_not_mask) simp
    ultimately have "unat ?x div 2 ^ ?k = (unat ?x + unat ?t) div 2 ^ ?k" by simp
    then have "unat ?x + unat ?t < unat ?x div 2 ^ ?k * 2 ^ ?k + 2 ^ ?k"
      by (metis div_mult_mod_eq lt mod_less_divisor nat_add_left_cancel_less zero_less_numeral zero_less_power)
    moreover have "unat ?x = unat ?x div 2 ^ ?k * 2 ^ ?k + unat ?x mod 2 ^ ?k"
      by (rule div_mult_mod_eq [symmetric])
    ultimately have "unat ?x mod 2 ^ ?k + unat ?t < 2 ^ ?k" by linarith
    then show ?thesis using True by (simp add: transfer_bytes24_eq)
  qed
qed

definition half_size :: "'d qspi \<Rightarrow> nat" where
  "half_size st = unat (QspiFlashSize st div 2)"

text \<open>
  A flash set up for 24-bit reads: on the SPI path one of the three fast-read commands and on the QPI path its
  command, the chips taking three-byte addresses, a connection the initialisation accepts, and either a maker
  whose bank register the code knows and a size for which it writes it, or chips of at most a bank with the bank
  registers still at zero; and for stacked chips a chip size that is a multiple of the bank size.
\<close>

definition chip_bytes :: "'d qspi \<Rightarrow> nat" where
  "chip_bytes st = (if ConnectionMode (Config st) = MODE_SINGLE then unat (QspiFlashSize st)
     else (unat (QspiFlashSize st) + 1) div 2)"

definition writes_banks :: "'d qspi \<Rightarrow> bool" where
  "writes_banks st \<longleftrightarrow> QspiFlashSize st > bank_size st \<and> bank_make (QspiFlashMake st)"

definition one_bank :: "sim_flash qspi \<Rightarrow> bool" where
  "one_bank st \<longleftrightarrow> LowerBank (Dev st) = 0 \<and> UpperBank (Dev st) = 0 \<and> chip_bytes st \<le> 2 ^ 24"

definition qspi24_ready :: "sim_flash qspi \<Rightarrow> bool" where
  "qspi24_ready st \<longleftrightarrow> qspi_buffers st \<and> ReadCommand st \<in> (if qpi_path st then {0xEB} else {0x0B, 0x3B, 0x6B}) \<and>
     \<not> FourByteMode (Lower (Dev st)) \<and> \<not> FourByteMode (Upper (Dev st)) \<and>
     ConnectionMode (Config st) \<noteq> MODE_OTHER \<and> (writes_banks st \<or> one_bank st) \<and>
     (ConnectionMode (Config st) = MODE_STACKED \<longrightarrow> 2 ^ 24 dvd half_size st)"

lemma frame_ready:
  assumes "qspi_frame st st'" "qspi24_ready st" "writes_banks st \<or> LowerBank (Dev st') = 0 \<and> UpperBank (Dev st') = 0"
  shows "qspi24_ready st'"
proof -
  have "qspi_buffers st'" using qspi_frame_buffers [OF assms(1)] assms(2) by (simp add: qspi24_ready_def)
  then show ?thesis
    using assms by (auto simp: qspi24_ready_def qspi_frame_defs qpi_path_def writes_banks_def one_bank_def
        bank_size_def chip_bytes_def half_size_def)
qed

definition src_ok :: "'d qspi \<Rightarrow> u32 \<Rightarrow> bool" where
  "src_ok st a \<longleftrightarrow> (ConnectionMode (Config st) = MODE_PARALLEL \<longrightarrow> even (unat a))"

definition linear_flash :: "sim_flash qspi \<Rightarrow> nat \<Rightarrow> u8" where
  "linear_flash st = flash_byte (ConnectionMode (Config st)) (half_size st) (Dev st)"

text \<open>What a read of a chip, selected and with its bank set for address \<open>A\<close>, returns.\<close>

lemma sim_read24_bank:
  assumes "unat A mod 2 ^ 24 + j < 2 ^ 24" "sim_bank d = ucast (A div BANKSIZE)" "Cs d \<noteq> CS_BOTH"
  shows "sim_read24 d (be_addr (addr_bytes24 A)) j =
    (if Cs d = CS_UPPER then UpperChip d (unat A + j) else LowerChip d (unat A + j))"
proof -
  have A: "unat A < 2 ^ 32" using unsigned_less [of A] by simp
  have "unat (ucast (A div BANKSIZE) :: u8) = unat A div 2 ^ 24"
    using A by (simp add: unsigned_ucast_eq unat_div take_bit_nat_eq_self)
  moreover have "unat A div 2 ^ 24 * 2 ^ 24 + (unat A mod 2 ^ 24 + j) = unat A + j" by simp
  ultimately show ?thesis
    using assms by (cases "Cs d") (simp_all add: sim_read24_def be_addr_bytes sim_bank_def)
qed

lemma sim_read24_both:
  assumes "unat A mod 2 ^ 24 + j div 2 < 2 ^ 24" "Cs d = CS_BOTH"
    "LowerBank d = ucast (A div BANKSIZE)" "UpperBank d = ucast (A div BANKSIZE)"
  shows "sim_read24 d (be_addr (addr_bytes24 A)) j =
    (if even j then LowerChip d (unat A + j div 2) else UpperChip d (unat A + j div 2))"
proof -
  have A: "unat A < 2 ^ 32" using unsigned_less [of A] by simp
  have "unat (ucast (A div BANKSIZE) :: u8) = unat A div 2 ^ 24"
    using A by (simp add: unsigned_ucast_eq unat_div take_bit_nat_eq_self)
  moreover have "unat A div 2 ^ 24 * 2 ^ 24 + (unat A mod 2 ^ 24 + j div 2) = unat A + j div 2" by simp
  ultimately show ?thesis
    using assms by (simp add: sim_read24_def be_addr_bytes)
qed

lemma mem_write_cong:
  assumes "\<And>j. j < unat n \<Longrightarrow> f j = g j"
  shows "mem_write dst n f m = mem_write dst n g m"
  using assms by (auto simp: mem_write_def fun_eq_iff word_less_nat_alt)

lemma mem_write_0 [simp]: "mem_write dst 0 f m = m"
  by (simp add: mem_write_def)

lemma mem_write_split:
  assumes "unat t \<le> unat n"
  shows "mem_write (dst + ucast t) (n - t) (\<lambda>j. f (unat t + j)) (mem_write dst t f m) = mem_write dst n f m"
proof
  fix x
  define y where "y = x - dst"
  have u: "unat (ucast k :: u64) = unat k" "unat k < 2 ^ 32" for k :: u32
    using unat_u32_less by simp_all
  have n: "unat (n - t) = unat n - unat t"
    using assms by (simp add: unat_sub word_le_nat_alt)
  have xy: "x - (dst + ucast t) = y - ucast t" by (simp add: y_def)
  have y: "unat (y - ucast t) = (if unat t \<le> unat y then unat y - unat t else unat y + 2 ^ 64 - unat t)"
    using u [of t] by (auto simp: unat_sub_if_size word_size u)
  have yl: "unat y < 2 ^ 64" using unsigned_less [of y] by simp
  have less: "y - ucast t < ucast (n - t) \<longleftrightarrow> unat t \<le> unat y \<and> unat y < unat n"
    "y < ucast t \<longleftrightarrow> unat y < unat t" "y < ucast n \<longleftrightarrow> unat y < unat n"
    using assms y n u(2) [of n] u(2) [of t] yl by (auto simp: word_less_nat_alt)
  show "mem_write (dst + ucast t) (n - t) (\<lambda>j. f (unat t + j)) (mem_write dst t f m) x = mem_write dst n f m x"
    using assms y unfolding mem_write_def xy y_def [symmetric] less by auto
qed

text \<open>The bank step of a round: afterwards the selected chips are on the bank of the address.\<close>

definition bank_step :: "qspi_config \<Rightarrow> u32 \<Rightarrow> sim_flash qspi \<Rightarrow> u32 \<times> sim_flash qspi" where
  "bank_step cfg A st = (if QspiFlashSize st > bank_size st
     then SendBankSelect (sim_driver cfg) (A div BANKSIZE) st else (XFSBL_SUCCESS, st))"

lemma bank_step_sim:
  assumes "qspi24_ready st" "writes_banks st \<or> unat A < 2 ^ 24"
  shows "\<exists>st1. bank_step cfg A (st\<lparr>Dev := Dev st\<lparr>Cs := cs\<rparr>\<rparr>) = (XFSBL_SUCCESS, st1) \<and> qspi_frame st st1 \<and> qspi24_ready st1 \<and>
    Memory st1 = Memory st \<and> Cs (Dev st1) = cs \<and>
    (cs \<noteq> CS_UPPER \<longrightarrow> LowerBank (Dev st1) = ucast (A div BANKSIZE)) \<and>
    (cs \<noteq> CS_LOWER \<longrightarrow> UpperBank (Dev st1) = ucast (A div BANKSIZE))"
proof -
  define st' where "st' = st\<lparr>Dev := Dev st\<lparr>Cs := cs\<rparr>\<rparr>"
  have dev: "Dev st' = Dev st\<lparr>Cs := cs\<rparr>" by (simp add: st'_def)
  have f: "qspi_frame st st'" "Memory st' = Memory st"
    by (simp_all add: st'_def qspi_frame_defs)
  have same: "bank_size st' = bank_size st" "QspiFlashSize st' = QspiFlashSize st" "QspiFlashMake st' = QspiFlashMake st"
    using f(1) by (simp_all add: qspi_frame_defs bank_size_def)
  have buf: "qspi_buffers st'" using qspi_frame_buffers [OF f(1)] assms(1) by (simp add: qspi24_ready_def)
  show ?thesis
  proof (cases "writes_banks st")
    case True
    have "A div BANKSIZE < 256"
      using unat_u32_less [of A] by (simp add: word_less_nat_alt unat_div)
    moreover have "bank_make (QspiFlashMake st')"
      using True same by (simp add: writes_banks_def)
    ultimately obtain st1 where 1: "SendBankSelect (sim_driver cfg) (A div BANKSIZE) st' = (XFSBL_SUCCESS, st1)"
      "qspi_frame st' st1" "Memory st1 = Memory st'" "Cs (Dev st1) = Cs (Dev st')"
      "Cs (Dev st') \<noteq> CS_UPPER \<longrightarrow> LowerBank (Dev st1) = ucast (A div BANKSIZE)"
      "Cs (Dev st') \<noteq> CS_LOWER \<longrightarrow> UpperBank (Dev st1) = ucast (A div BANKSIZE)"
      using SendBankSelect_sim [OF buf] by blast
    note fr = qspi_frame_trans [OF f(1) 1(2)]
    have "bank_step cfg A st' = (XFSBL_SUCCESS, st1)"
      using True 1(1) same by (simp add: bank_step_def writes_banks_def)
    then show ?thesis
      using 1 f(2) dev fr frame_ready [OF fr assms(1) disjI1 [OF True]] by (simp add: st'_def [symmetric])
  next
    case False
    then have "A div BANKSIZE = 0"
      using assms(2) by (simp add: word_unat_eq_iff unat_div)
    moreover have z: "LowerBank (Dev st) = 0" "UpperBank (Dev st) = 0"
      using False assms(1) by (auto simp: qspi24_ready_def one_bank_def)
    moreover have "bank_step cfg A st' = (XFSBL_SUCCESS, st')"
      using False same by (auto simp: bank_step_def writes_banks_def SendBankSelect_def bank_make_def)
    moreover have "qspi24_ready st'"
      by (rule frame_ready [OF f(1) assms(1)]) (simp add: dev z)
    ultimately show ?thesis using f dev by (simp add: st'_def [symmetric])
  qed
qed

text \<open>The chip select of an address, as \<open>XFsbl_GetQspiAddr\<close> asserts it.\<close>

definition addr_cs :: "'d qspi \<Rightarrow> u32 \<Rightarrow> flash_cs" where
  "addr_cs st a = (case ConnectionMode (Config st) of MODE_PARALLEL \<Rightarrow> CS_BOTH
     | MODE_STACKED \<Rightarrow> (if a \<ge> QspiFlashSize st div 2 then CS_UPPER else CS_LOWER)
     | _ \<Rightarrow> CS_LOWER)"

lemma GetQspiAddr_sim:
  "ConnectionMode (Config st) \<noteq> MODE_OTHER \<Longrightarrow> XFsbl_GetQspiAddr (sim_driver cfg) a st =
     (qspi_real_addr st a, st\<lparr>Dev := Dev st\<lparr>Cs := addr_cs st a\<rparr>\<rparr>)"
  by (simp add: XFsbl_GetQspiAddr_def addr_cs_def sim_driver_def split: qspi_mode.split)

lemma round_small_addr:
  assumes "qspi24_ready st" "unat a < unat (QspiFlashSize st)"
  shows "writes_banks st \<or> unat (qspi_real_addr st a) < 2 ^ 24"
proof (cases "writes_banks st")
  case False
  with assms(1) have "chip_bytes st \<le> 2 ^ 24" by (auto simp: qspi24_ready_def one_bank_def)
  moreover have "unat (qspi_real_addr st a) < chip_bytes st"
    using assms by (cases "ConnectionMode (Config st)")
      (auto simp: qspi24_ready_def qspi_real_addr_def chip_bytes_def word_less_nat_alt word_le_nat_alt unat_div unat_sub)
  ultimately show ?thesis by simp
qed simp

text \<open>The bytes of one round are those of the flash.\<close>

lemma round_bytes:
  assumes "qspi24_ready st" "src_ok st a" "n \<noteq> 0" "unat a + unat n \<le> unat (QspiFlashSize st)"
    and d: "Cs d = addr_cs st a" "LowerChip d = LowerChip (Dev st)" "UpperChip d = UpperChip (Dev st)"
      "Cs d \<noteq> CS_UPPER \<longrightarrow> LowerBank d = ucast (qspi_real_addr st a div BANKSIZE)"
      "Cs d \<noteq> CS_LOWER \<longrightarrow> UpperBank d = ucast (qspi_real_addr st a div BANKSIZE)"
    and j: "j < unat (transfer_bytes24 st (qspi_real_addr st a) n)"
  shows "sim_read24 d (be_addr (addr_bytes24 (qspi_real_addr st a))) j = linear_flash st (unat a + j)"
proof -
  let ?A = "qspi_real_addr st a"
  have a32: "unat a + unat n < 2 ^ 32" using assms(4) unat_u32_less [of "QspiFlashSize st"] by simp
  have bank: "sim_bank d = ucast (?A div BANKSIZE)"
    using d(4,5) by (cases "Cs d") (simp_all add: sim_bank_def)
  consider (single) "ConnectionMode (Config st) = MODE_SINGLE"
    | (low) "ConnectionMode (Config st) = MODE_STACKED" "a < QspiFlashSize st div 2"
    | (high) "ConnectionMode (Config st) = MODE_STACKED" "a \<ge> QspiFlashSize st div 2"
    | (both) "ConnectionMode (Config st) = MODE_PARALLEL"
    using assms(1) by (cases "ConnectionMode (Config st)") (force simp: qspi24_ready_def not_less)+
  then show ?thesis
  proof cases
    case single
    then have "?A = a" "bank_orig st ?A = a" "bank_bits st = 24"
      by (simp_all add: qspi_real_addr_def bank_orig_def bank_bits_def)
    with transfer_bytes24_in_bank [of st ?A n] a32 j have "unat ?A mod 2 ^ 24 + j < 2 ^ 24" by simp
    from sim_read24_bank [OF this bank] show ?thesis
      using single d \<open>?A = a\<close> by (simp add: addr_cs_def linear_flash_def flash_byte_def)
  next
    case low
    then have nl: "\<not> QspiFlashSize st div 2 \<le> a" by simp
    with low have A: "?A = a" "bank_orig st ?A = a" "bank_bits st = 24"
      by (simp_all add: qspi_real_addr_def bank_orig_def bank_bits_def)
    with transfer_bytes24_in_bank [of st ?A n] a32 j have in_bank: "unat ?A mod 2 ^ 24 + j < 2 ^ 24" by simp
    obtain h where h: "half_size st = 2 ^ 24 * h"
      using assms(1) low by (auto simp: qspi24_ready_def)
    have "unat a < half_size st" using low by (simp add: half_size_def word_less_nat_alt)
    then have "unat a div 2 ^ 24 < h" using h by (simp add: less_mult_imp_div_less ac_simps)
    then have "unat a div 2 ^ 24 * 2 ^ 24 + 2 ^ 24 \<le> half_size st" using h by (simp add: Suc_leI)
    then have "unat a + j < half_size st"
      using in_bank div_mult_mod_eq [of "unat a" "2 ^ 24"] unfolding A(1) by linarith
    with sim_read24_bank [OF in_bank bank] show ?thesis
      using low(1) nl d A by (simp add: addr_cs_def linear_flash_def flash_byte_def)
  next
    case high
    then have A: "?A = a - QspiFlashSize st div 2" "bank_orig st ?A = ?A" "bank_bits st = 24"
      by (simp_all add: qspi_real_addr_def bank_orig_def bank_bits_def)
    have u: "unat ?A = unat a - half_size st" "half_size st \<le> unat a"
      using high A by (simp_all add: half_size_def unat_sub word_le_nat_alt)
    then have "unat (bank_orig st ?A) + unat n < 2 ^ 32" unfolding A(2) using a32 by linarith
    from transfer_bytes24_in_bank [OF this] j A(2,3) have "unat ?A mod 2 ^ 24 + j < 2 ^ 24" by simp
    from sim_read24_bank [OF this bank] show ?thesis
      using high d u by (simp add: addr_cs_def linear_flash_def flash_byte_def)
  next
    case both
    then have ev: "even (unat a)" using assms(2) by (simp add: src_ok_def)
    have A: "?A = a div 2" "bank_bits st = 25" "bank_orig st ?A = a div 2 * 2"
      using both by (simp_all add: qspi_real_addr_def bank_orig_def bank_bits_def)
    have uA: "unat ?A = unat a div 2" using A(1) by (simp add: unat_div)
    have "unat (bank_orig st ?A) = unat a"
      using ev unat_u32_less [of a] A uA by (simp add: unat_mult_lem [THEN iffD1])
    with transfer_bytes24_in_bank [of st ?A n] a32 j A have "unat a mod 2 ^ 25 + j < 2 ^ 25" by simp
    moreover obtain h where "unat a = 2 * h" using ev by blast
    ultimately have "unat ?A mod 2 ^ 24 + j div 2 < 2 ^ 24"
      using mult_mod_right [of 2 h "2 ^ 24"] uA by simp
    from sim_read24_both [OF this] show ?thesis
      using both d uA ev by (auto simp: addr_cs_def linear_flash_def flash_byte_def elim!: evenE)
  qed
qed

lemma linear_flash_frame: "qspi_frame st st' \<Longrightarrow> linear_flash st' = linear_flash st"
  by (simp add: qspi_frame_defs linear_flash_def flash_byte_def half_size_def fun_eq_iff
      split: qspi_mode.split)

lemma qspi24_round_sim:
  assumes "qspi24_ready st" "src_ok st a" "n \<noteq> 0" "unat a + unat n \<le> unat (QspiFlashSize st)"
  shows "\<exists>st'. qspi24_round (sim_driver cfg) a dst n st = (XFSBL_SUCCESS, st') \<and>
    qspi_frame st st' \<and> qspi24_ready st' \<and>
    Memory st' = mem_write dst (transfer_bytes24 st (qspi_real_addr st a) n)
      (\<lambda>j. linear_flash st (unat a + j)) (Memory st)"
proof -
  let ?A = "qspi_real_addr st a" and ?st = "st\<lparr>Dev := Dev st\<lparr>Cs := addr_cs st a\<rparr>\<rparr>"
  have "0 < unat n" using assms(3) by (simp add: unat_gt_0)
  with assms(4) have "unat a < unat (QspiFlashSize st)" by linarith
  from bank_step_sim [OF assms(1) round_small_addr [OF assms(1) this], of cfg "addr_cs st a"]
  obtain st1 where 1: "bank_step cfg ?A ?st = (XFSBL_SUCCESS, st1)" "qspi_frame st st1" "qspi24_ready st1"
    "Memory st1 = Memory st" "Cs (Dev st1) = addr_cs st a"
    "addr_cs st a \<noteq> CS_UPPER \<longrightarrow> LowerBank (Dev st1) = ucast (?A div BANKSIZE)"
    "addr_cs st a \<noteq> CS_LOWER \<longrightarrow> UpperBank (Dev st1) = ucast (?A div BANKSIZE)"
    by blast
  define T where "T = transfer_bytes24 st ?A n"
  have T: "transfer_bytes24 st1 ?A n = T"
    using 1(2) by (simp add: T_def transfer_bytes24_eq qspi_frame_defs bank_orig_def bank_bits_def)
  have l: "length (addr_bytes24 ?A) = 3" by (simp add: addr_bytes24_def)
  have mode: "ConnectionMode (Config st) \<noteq> MODE_OTHER" "Config st1 = Config st"
    using assms(1) 1(2) by (simp_all add: qspi24_ready_def qspi_frame_defs)
  have b1: "qspi_buffers st1" "cs_fits st1" "address_mode False (Dev st1)"
    using 1(3,5) mode by (auto simp: qspi24_ready_def cs_fits_def addr_cs_def address_mode_def selected_def
        split: qspi_mode.split flash_cs.split)
  obtain st2 where 2: "(if qpi_path st1 then qpi_read (sim_driver cfg) (addr_bytes24 ?A) dst T st1
      else spi_read (sim_driver cfg) 0x0B 0x3B 0x6B (addr_bytes24 ?A) dst T st1) = (XFSBL_SUCCESS, st2)"
    "qspi_frame st1 st2" "LowerBank (Dev st2) = LowerBank (Dev st1)" "UpperBank (Dev st2) = UpperBank (Dev st1)"
    "Memory st2 = mem_write dst T (chips_read (Dev st1) (addr_bytes24 ?A)) (Memory st1)"
  proof (cases "qpi_path st1")
    case True
    then have "ReadCommand st1 = 0xEB" using 1(3) by (simp add: qspi24_ready_def)
    from qpi_read_sim [OF b1(1,2) this, of "addr_bytes24 ?A" False] b1(3) l obtain st2 where
      2: "qpi_read (sim_driver cfg) (addr_bytes24 ?A) dst T st1 = (XFSBL_SUCCESS, st2)" "code_same st1 st2"
      "Dev st2 = on_selected (in_qpi False) (Dev st1)" "Memory st2 = mem_write dst T (chips_read (Dev st1) (addr_bytes24 ?A)) (Memory st1)"
      by force
    have "qspi_frame st1 st2"
      using 2(2,3) b1(1) by (auto simp: qspi_frame_def chip_same_def qspi_buffers_def)
    with that 2 True show ?thesis by simp
  next
    case False
    then have "ReadCommand st1 \<in> {0x0B, 0x3B, 0x6B}" using 1(3) by (simp add: qspi24_ready_def)
    from spi_read_sim [OF b1(1,2) _ this, of "addr_bytes24 ?A" cfg dst T] b1(3) l obtain st2 where
      2: "spi_read (sim_driver cfg) 0x0B 0x3B 0x6B (addr_bytes24 ?A) dst T st1 = (XFSBL_SUCCESS, st2)" "code_same st1 st2"
      "Dev st2 = Dev st1" "Memory st2 = mem_write dst T (chips_read (Dev st1) (addr_bytes24 ?A)) (Memory st1)"
      by force
    have "qspi_frame st1 st2"
      using 2(2,3) by (simp add: qspi_frame_def chip_same_def)
    with that 2 False show ?thesis by simp
  qed
  have "chips_read (Dev st1) (addr_bytes24 ?A) j = linear_flash st (unat a + j)" if "j < unat T" for j
    unfolding chips_read_def l using 1 that
    by (simp add: T_def) (rule round_bytes [OF assms], simp_all add: qspi_frame_defs)
  then have mem: "Memory st2 = mem_write dst T (\<lambda>j. linear_flash st (unat a + j)) (Memory st)"
    unfolding 2(5) 1(4) by (rule mem_write_cong)
  have "qspi24_ready st2"
  proof (rule frame_ready [OF 2(2) 1(3)])
    show "writes_banks st1 \<or> LowerBank (Dev st2) = 0 \<and> UpperBank (Dev st2) = 0"
      using 1(3) 2(3,4) by (auto simp: qspi24_ready_def one_bank_def)
  qed
  moreover have "qspi24_round (sim_driver cfg) a dst n st = (XFSBL_SUCCESS, st2)"
    unfolding qspi24_round_def GetQspiAddr_sim [OF mode(1)] Let_def prod.case
      bank_step_def [symmetric] 1(1)
    using T 2(1) by (simp split del: if_split cong: if_cong)
  ultimately show ?thesis
    using mem qspi_frame_trans [OF 1(2) 2(2)] by (auto simp: T_def)
qed

lemma src_ok_step:
  assumes "qspi24_ready st" "src_ok st a" "n \<noteq> 0" "unat a + unat n \<le> unat (QspiFlashSize st)"
    and "transfer_bytes24 st (qspi_real_addr st a) n \<noteq> n"
  shows "src_ok st (a + transfer_bytes24 st (qspi_real_addr st a) n)"
proof (cases "ConnectionMode (Config st) = MODE_PARALLEL")
  case False
  then show ?thesis by (simp add: src_ok_def)
next
  case True
  let ?A = "qspi_real_addr st a" and ?t = "transfer_bytes24 st (qspi_real_addr st a) n"
  have ev: "even (unat a)" using assms(2) True by (simp add: src_ok_def)
  have a32: "unat a + unat n < 2 ^ 32" using assms(4) unat_u32_less [of "QspiFlashSize st"] by simp
  have o: "unat (bank_orig st ?A) = unat a" "bank_bits st = 25"
    using ev True unat_u32_less [of a]
    by (simp_all add: bank_orig_def bank_bits_def qspi_real_addr_def unat_div unat_mult_lem [THEN iffD1])
  have "even (unat ?t)"
  proof (cases "bank_orig st ?A AND NOT (mask 25) \<noteq> (bank_orig st ?A + dma_bytes n) AND NOT (mask 25)")
    case True
    then have "unat ?t = 2 ^ 25 - unat a mod 2 ^ 25"
      using bank_rest [of 25 "bank_orig st ?A"] o by (simp add: transfer_bytes24_eq)
    moreover have "even (unat a mod 2 ^ 25)" using ev by (simp add: dvd_mod_iff)
    ultimately show ?thesis by simp
  next
    case False
    then have "?t = dma_bytes n" using o by (simp add: transfer_bytes24_eq)
    then show ?thesis using assms(5) by (auto simp: dma_bytes_def split: if_splits)
  qed
  moreover have "unat (a + ?t) = unat a + unat ?t"
    using a32 transfer_bytes24_bounds(2) [OF assms(3), of st ?A] by (simp add: unat_add_lem [THEN iffD1])
  ultimately show ?thesis using ev by (simp add: src_ok_def)
qed

lemma qspi24_loop_sim:
  assumes "qspi24_ready st" "n = 0 \<or> src_ok st a" "unat a + unat n \<le> unat (QspiFlashSize st)"
  shows "\<exists>st'. qspi24_loop (sim_driver cfg) a dst n st = (XFSBL_SUCCESS, st') \<and>
    qspi_frame st st' \<and> qspi24_ready st' \<and>
    Memory st' = mem_write dst n (\<lambda>j. linear_flash st (unat a + j)) (Memory st)"
  using assms
proof (induction "unat n" arbitrary: a dst n st rule: less_induct)
  case less
  show ?case
  proof (cases "n = 0")
    case True
    then show ?thesis using less.prems by (simp add: qspi24_loop.simps)
  next
    case False
    let ?T = "transfer_bytes24 st (qspi_real_addr st a) n"
    have src: "src_ok st a" using less.prems(2) False by simp
    note T = transfer_bytes24_bounds [OF False, of st "qspi_real_addr st a"]
    obtain st1 where 1: "qspi24_round (sim_driver cfg) a dst n st = (XFSBL_SUCCESS, st1)"
      "qspi_frame st st1" "qspi24_ready st1"
      "Memory st1 = mem_write dst ?T (\<lambda>j. linear_flash st (unat a + j)) (Memory st)"
      using qspi24_round_sim [OF less.prems(1) src False less.prems(3)] by blast
    have un: "unat (n - ?T) = unat n - unat ?T" using T(2) by (simp add: unat_sub word_le_nat_alt)
    have ua: "unat (a + ?T) = unat a + unat ?T"
      using T(2) less.prems(3) unat_u32_less [of "QspiFlashSize st"]
      by (simp add: unat_add_lem [THEN iffD1])
    have size: "QspiFlashSize st1 = QspiFlashSize st" "Config st1 = Config st"
      using 1(2) by (simp_all add: qspi_frame_defs)
    have "n - ?T = 0 \<or> src_ok st1 (a + ?T)"
      using src_ok_step [OF less.prems(1) src False less.prems(3)] size
      by (cases "?T = n") (simp_all add: src_ok_def)
    then obtain st2 where 2: "qspi24_loop (sim_driver cfg) (a + ?T) (dst + ucast ?T) (n - ?T) st1 = (XFSBL_SUCCESS, st2)"
      "qspi_frame st1 st2" "qspi24_ready st2"
      "Memory st2 = mem_write (dst + ucast ?T) (n - ?T) (\<lambda>j. linear_flash st1 (unat (a + ?T) + j)) (Memory st1)"
      using less.hyps [of "n - ?T" st1 "a + ?T" "dst + ucast ?T"] 1(3) T un ua size less.prems(3) by auto
    have "Memory st2 = mem_write dst n (\<lambda>j. linear_flash st (unat a + j)) (Memory st)"
      using mem_write_split [OF T(2), of dst "\<lambda>j. linear_flash st (unat a + j)" "Memory st"]
      by (simp add: 2(4) 1(4) ua linear_flash_frame [OF 1(2)] add.assoc)
    moreover have "qspi24_loop (sim_driver cfg) a dst n st = (XFSBL_SUCCESS, st2)"
      using False 1(1) 2(1) by (subst qspi24_loop.simps) (simp add: Let_def)
    ultimately show ?thesis
      using 2(3) qspi_frame_trans [OF 1(2) 2(2)] by blast
  qed
qed

lemma qspi24_copy_sim:
  assumes "qspi24_ready st" "src_ok st Src" "unat Src + unat Len \<le> unat (QspiFlashSize st)"
  shows "\<exists>st'. XFsbl_Qspi24Copy (sim_driver cfg) Src Dst Len st = (XFSBL_SUCCESS, st') \<and>
    qspi24_ready st' \<and> qspi_frame st st' \<and>
    Memory st' = mem_write Dst Len (\<lambda>j. linear_flash st (unat Src + j)) (Memory st)"
proof -
  have "unat (Src + Len) = unat Src + unat Len"
    using assms(3) unat_u32_less [of "QspiFlashSize st"] by (simp add: unat_add_lem [THEN iffD1])
  then have "\<not> Src + Len > QspiFlashSize st"
    using assms(3) by (simp add: word_less_nat_alt)
  then show ?thesis
    using qspi24_loop_sim [OF assms(1) disjI2 [OF assms(2)] assms(3), of cfg Dst]
    by (auto simp: XFsbl_Qspi24Copy_def)
qed

text \<open>
  C12. On a flash set up for 24-bit reads, by the SPI commands or, for Macronix parts on four lines, in QPI mode
  (single, stacked or dual parallel; in parallel the source
  even), a copy that lies within the flash succeeds whatever its length and wherever the bank and
  chip boundaries fall in it: afterwards the destination holds exactly the source bytes in order, no
  other byte of memory has changed, and the flash is still set up.
\<close>

theorem qspi24_copy_correct:
  assumes "qspi24_ready st" "src_ok st Src" "unat Src + unat Len \<le> unat (QspiFlashSize st)"
  shows "\<exists>st'. XFsbl_Qspi24Copy (sim_driver cfg) Src Dst Len st = (XFSBL_SUCCESS, st') \<and>
    qspi24_ready st' \<and> qspi_frame st st' \<and>
    (\<forall>x. Memory st' x =
       (if x - Dst < ucast Len then linear_flash st (unat Src + unat (x - Dst)) else Memory st x))"
  using qspi24_copy_sim [OF assms, of cfg Dst] by (auto simp: mem_write_def)

text \<open>A single 32 MB Micron part on a four-bit bus, and a read across its first bank boundary.\<close>

definition demo_cfg :: qspi_config where
  "demo_cfg = \<lparr>CfgBusWidth = 2, ConnectionMode = MODE_SINGLE\<rparr>"

definition idle_chip :: "(nat \<Rightarrow> u8) \<Rightarrow> flash_chip" where
  "idle_chip m = \<lparr>ChipMem = m, BankReg = 0, WriteEnabled = False, FourByteMode = False, QpiMode = False\<rparr>"

definition demo_chip :: "sim_flash" where
  "demo_chip = \<lparr>Lower = idle_chip (\<lambda>a. of_nat (a div 2 ^ 20)), Upper = idle_chip (\<lambda>_. 0xFF), ChipSize = 2 ^ 25,
     ChipId = [0x20, 0xBB, 0x19, 0x10], Cs = CS_LOWER\<rparr>"

definition demo_qspi :: "sim_flash qspi" where
  "demo_qspi = \<lparr>Dev = demo_chip, Config = \<lparr>CfgBusWidth = XFSBL_QSPI_BUSWIDTH_FOUR, ConnectionMode = MODE_SINGLE\<rparr>,
     QspiFlashSize = 0x2000000, QspiFlashMake = MICRON_ID, ReadCommand = QUAD_READ_CMD_24BIT,
     FlashMsg = replicate 5 \<lparr>MsgTx = TxNull, MsgRx = RxNull, MsgByteCount = 0,
       MsgBusWidth = SELECT_MODE_UNSET, MsgFlags = []\<rparr>,
     IssiIdFlag = 0, TxBfr = 0, ReadBuffer = replicate 10 0, WriteBuffer = replicate 10 0,
     MacronixFlash = 0, Memory = (\<lambda>_. 0)\<rparr>"

lemma demo_qspi_ready: "qspi24_ready demo_qspi" "src_ok demo_qspi a" "QspiFlashSize demo_qspi = 0x2000000"
  by (simp_all add: qspi24_ready_def demo_qspi_def demo_chip_def idle_chip_def qspi_buffers_def qspi_lists_def qpi_path_def
      writes_banks_def bank_size_def bank_make_def src_ok_def)

theorem qspi24_copy_correct_witness:
  "\<exists>st'. XFsbl_Qspi24Copy (sim_driver demo_cfg) 0xFFFFF0 0x100000 0x20 demo_qspi = (XFSBL_SUCCESS, st') \<and>
     Memory st' 0x10000F = 0x0F \<and> Memory st' 0x100010 = 0x10 \<and> Memory st' 0x100020 = 0"
proof -
  obtain st' where st': "XFsbl_Qspi24Copy (sim_driver demo_cfg) 0xFFFFF0 0x100000 0x20 demo_qspi = (XFSBL_SUCCESS, st')"
    and mem: "\<forall>x. Memory st' x = (if x - 0x100000 < ucast (0x20 :: u32)
      then linear_flash demo_qspi (unat (0xFFFFF0 :: u32) + unat (x - 0x100000)) else Memory demo_qspi x)"
    using qspi24_copy_correct [of demo_qspi "0xFFFFF0" "0x20" demo_cfg "0x100000"] demo_qspi_ready by auto
  have "linear_flash demo_qspi a = of_nat (a div 2 ^ 20)" "Memory demo_qspi a' = 0" for a a'
    by (simp_all add: linear_flash_def flash_byte_def demo_qspi_def demo_chip_def idle_chip_def)
  with mem have "Memory st' 0x10000F = 0x0F" "Memory st' 0x100010 = 0x10" "Memory st' 0x100020 = 0"
    by simp_all
  with st' show ?thesis by blast
qed

lemma mem_write_at:
  assumes "k < unat n"
  shows "mem_write dst n f m (dst + of_nat k) = f k"
proof -
  have "k < 2 ^ LENGTH(64)" using assms unat_u32_less [of n] by simp
  then have u: "unat (of_nat k :: u64) = k" by (rule unat_of_nat_small)
  then have "(of_nat k :: u64) < ucast n" using assms by (simp add: word_less_nat_alt)
  then show ?thesis using u by (simp add: mem_write_def)
qed

section \<open>Initialisation on that flash\<close>

lemma FlashReadID_sim:
  assumes "qspi_buffers st" "length (ChipId (Dev st)) = 4"
    and "flash_make (ChipId (Dev st) ! 0) = Some mk" "flash_size (ChipId (Dev st) ! 2) = Some sz"
  shows "\<exists>st'. FlashReadID (sim_driver cfg) st = (XFSBL_SUCCESS, st') \<and> qspi_lists st' \<and>
    Dev st' = Dev st \<and> Memory st' = Memory st \<and> Config st' = Config st \<and>
    ReadCommand st' = ReadCommand st \<and> QspiFlashMake st' = mk \<and> QspiFlashSize st' = sz \<and>
    MacronixFlash st' = (if mk = MACRONIX_ID then 1 else 0)"
proof -
  obtain a b c d where id: "ChipId (Dev st) = [a, b, c, d]"
    using assms(2) by (auto simp: numeral_eq_Suc length_Suc_conv)
  have r: "[0..<4] = [0, 1, 2, 3]" by (simp add: upt_rec)
  have l: "qspi_lists st" using assms(1) by (simp add: qspi_buffers_def)
  have same: "on_selected (chip_command 0x9F as) (Dev st) = Dev st" for as
    by (rule on_selected_id) (simp add: chip_command_def)
  show ?thesis
    by (rule qspi_listsE [OF l])
      (use assms(3,4) listens_spi [OF assms(1)] same in
        \<open>simp add: FlashReadID_def sim_step_defs sim_reply_def Let_def id r qspi_lists_def\<close>)
qed

lemma flash_size_bound: "flash_size b = Some sz \<Longrightarrow> unat sz \<le> 2 ^ 28"
  by (simp add: flash_size_def split: if_splits)

lemma flash_size_banks:
  "flash_size b = Some sz \<Longrightarrow> 16777216 \<le> unat sz \<Longrightarrow> 16777216 dvd unat sz"
  by (simp add: flash_size_def split: if_splits)

text \<open>The total size \<open>double_size_if_dual\<close> computes.\<close>

definition total_size :: "qspi_mode \<Rightarrow> u32 \<Rightarrow> u32" where
  "total_size mode sz = (if mode = MODE_PARALLEL \<or> mode = MODE_STACKED then 2 * sz else sz)"

lemma total_size_nat:
  assumes "flash_size b = Some sz"
  shows "unat (2 * sz) = 2 * unat sz" "2 * sz div 2 = sz"
proof -
  show 1: "unat (2 * sz) = 2 * unat sz"
    using flash_size_bound [OF assms] by (simp add: unat_mult_lem [THEN iffD1])
  then show "2 * sz div 2 = sz" by (simp add: word_unat_eq_iff unat_div)
qed

lemma qspi_driver_init_sim:
  "board_mode \<noteq> MODE_OTHER \<Longrightarrow> qspi_driver_init (sim_driver cfg) board_mode st k =
     k (st\<lparr>Config := cfg, Dev := Dev st\<lparr>Cs := CS_LOWER\<rparr>\<rparr>)"
  by (simp add: qspi_driver_init_def sim_driver_def)

section \<open>The 32-bit copy\<close>

text \<open>
  A flash set up for 32-bit reads: on the SPI path one of the three four-byte read commands, on the QPI path its
  command and the chips of the connection in the mode of four-byte addresses; and the size that of its chips.
\<close>

definition qspi32_ready :: "sim_flash qspi \<Rightarrow> bool" where
  "qspi32_ready st \<longleftrightarrow> qspi_buffers st \<and>
     (if qpi_path st then ReadCommand st = 0xEB \<and> FourByteMode (Lower (Dev st)) \<and>
        (ConnectionMode (Config st) \<noteq> MODE_SINGLE \<longrightarrow> FourByteMode (Upper (Dev st)))
      else ReadCommand st \<in> {0x0C, 0x3C, 0x6C}) \<and>
     ConnectionMode (Config st) \<noteq> MODE_OTHER \<and> QspiFlashSize st \<le> DMA_DATA_TRAN_SIZE \<and>
     unat (QspiFlashSize st) =
       (if ConnectionMode (Config st) = MODE_SINGLE then 1 else 2) * ChipSize (Dev st)"

text \<open>One transfer does the whole copy, from the chip and address of its first byte.\<close>

lemma qspi32_round_sim:
  assumes "qspi32_ready st"
  shows "\<exists>st'. qspi32_round (sim_driver cfg) Src Dst Len st = (XFSBL_SUCCESS, st') \<and> qspi_frame st st' \<and> qspi32_ready st' \<and>
    Memory st' = mem_write Dst Len
      (sim_read32 (Dev st\<lparr>Cs := addr_cs st Src\<rparr>) (unat (qspi_real_addr st Src))) (Memory st)"
proof -
  let ?A = "qspi_real_addr st Src" and ?st = "st\<lparr>Dev := Dev st\<lparr>Cs := addr_cs st Src\<rparr>\<rparr>"
  have mode: "ConnectionMode (Config st) \<noteq> MODE_OTHER" using assms by (simp add: qspi32_ready_def)
  have b: "qspi_buffers ?st" "cs_fits ?st" "qspi_lists ?st"
    using assms mode by (auto simp: qspi32_ready_def qspi_buffers_def qspi_lists_def cs_fits_def addr_cs_def split: qspi_mode.split)
  have l: "length (addr_bytes32 ?A) = 4" by (simp add: addr_bytes32_def addr_bytes24_def)
  obtain st1 where 1: "(if qpi_path ?st then qpi_read (sim_driver cfg) (addr_bytes32 ?A) Dst Len ?st
      else spi_read (sim_driver cfg) 0x0C 0x3C 0x6C (addr_bytes32 ?A) Dst Len ?st) = (XFSBL_SUCCESS, st1)"
    "qspi_frame ?st st1" "Memory st1 = mem_write Dst Len (chips_read (Dev ?st) (addr_bytes32 ?A)) (Memory ?st)"
  proof (cases "qpi_path st")
    case True
    then have p: "qpi_path ?st" "ReadCommand ?st = 0xEB" using assms by (simp_all add: qspi32_ready_def qpi_path_def)
    have "address_mode True (Dev ?st)"
      using assms True by (auto simp: qspi32_ready_def address_mode_def selected_def addr_cs_def split: qspi_mode.split flash_cs.split)
    from qpi_read_sim [OF b(1,2) p(2) _ this, of "addr_bytes32 ?A"] l obtain st1 where
      1: "qpi_read (sim_driver cfg) (addr_bytes32 ?A) Dst Len ?st = (XFSBL_SUCCESS, st1)" "code_same ?st st1"
      "Dev st1 = on_selected (in_qpi False) (Dev ?st)" "Memory st1 = mem_write Dst Len (chips_read (Dev ?st) (addr_bytes32 ?A)) (Memory ?st)"
      by force
    have "qspi_frame ?st st1"
      using 1(2,3) b(1) by (auto simp: qspi_frame_def chip_same_def qspi_buffers_def)
    with that 1 p(1) show ?thesis by simp
  next
    case False
    then have "ReadCommand st \<in> {0x0C, 0x3C, 0x6C}" using assms by (simp add: qspi32_ready_def)
    with False have p: "\<not> qpi_path ?st" "ReadCommand ?st \<in> {0x0C, 0x3C, 0x6C}" by (simp_all add: qpi_path_def)
    from spi_read_sim [OF b(1,2) _ p(2), of "addr_bytes32 ?A" cfg Dst Len] l obtain st1 where
      1: "spi_read (sim_driver cfg) 0x0C 0x3C 0x6C (addr_bytes32 ?A) Dst Len ?st = (XFSBL_SUCCESS, st1)" "code_same ?st st1"
      "Dev st1 = Dev ?st" "Memory st1 = mem_write Dst Len (chips_read (Dev ?st) (addr_bytes32 ?A)) (Memory ?st)"
      by force
    have "qspi_frame ?st st1"
      using 1(2,3) by (simp add: qspi_frame_def chip_same_def)
    with that 1 p(1) show ?thesis by simp
  qed
  have f: "qspi_frame st st1"
    by (rule qspi_frame_trans [OF _ 1(2)]) (simp add: qspi_frame_defs)
  have "qspi32_ready st1"
    using assms f qspi_frame_buffers [OF f] by (auto simp: qspi32_ready_def qspi_frame_defs qpi_path_def split: if_splits)
  moreover have "chips_read (Dev ?st) (addr_bytes32 ?A) = sim_read32 (Dev st\<lparr>Cs := addr_cs st Src\<rparr>) (unat ?A)"
    by (simp add: fun_eq_iff chips_read_def l be_addr_bytes)
  moreover have "qspi32_round (sim_driver cfg) Src Dst Len st = (XFSBL_SUCCESS, st1)"
    unfolding qspi32_round_def GetQspiAddr_sim [OF mode] Let_def prod.case using 1(1) by simp
  ultimately show ?thesis using f 1(3) by auto
qed

lemma qspi32_copy_sim:
  assumes "qspi32_ready st" "unat Src + unat Len \<le> unat (QspiFlashSize st)"
  shows "\<exists>st'. XFsbl_Qspi32Copy (sim_driver cfg) Src Dst Len st = (XFSBL_SUCCESS, st') \<and> qspi_frame st st' \<and> qspi32_ready st' \<and>
    Memory st' = mem_write Dst Len
      (sim_read32 (Dev st\<lparr>Cs := addr_cs st Src\<rparr>) (unat (qspi_real_addr st Src))) (Memory st)"
proof -
  have "unat (Src + Len) = unat Src + unat Len"
    using assms(2) unat_u32_less [of "QspiFlashSize st"] by (simp add: unat_add_lem [THEN iffD1])
  then have fits: "\<not> Src + Len > QspiFlashSize st"
    using assms(2) by (simp add: word_less_nat_alt)
  show ?thesis
  proof (cases "Len = 0")
    case True
    then show ?thesis using fits assms(1) by (simp add: XFsbl_Qspi32Copy_def qspi32_loop.simps)
  next
    case False
    obtain st1 where 1: "qspi32_round (sim_driver cfg) Src Dst Len st = (XFSBL_SUCCESS, st1)" "qspi_frame st st1" "qspi32_ready st1"
      "Memory st1 = mem_write Dst Len (sim_read32 (Dev st\<lparr>Cs := addr_cs st Src\<rparr>) (unat (qspi_real_addr st Src))) (Memory st)"
      using qspi32_round_sim [OF assms(1)] by blast
    have "dma_bytes Len = Len"
      using assms by (simp add: dma_bytes_def qspi32_ready_def word_le_nat_alt word_less_nat_alt)
    with 1(1) False have "qspi32_loop (sim_driver cfg) Src Dst Len st = (XFSBL_SUCCESS, st1)"
      by (subst qspi32_loop.simps) (simp add: qspi32_loop.simps)
    then show ?thesis
      using fits 1 by (simp add: XFsbl_Qspi32Copy_def)
  qed
qed

text \<open>
  C14. The 32-bit copy on a flash set up for it, by the SPI commands or, for Macronix parts on four lines, in QPI
  mode. On a single flash, on a dual parallel one from an even source, and on stacked chips only as long as the range
  stays in one of them (\<open>qspi32_stacked_boundary_misread\<close> has what happens otherwise), a copy that lies within the
  flash succeeds: the destination holds the source bytes, no other byte of memory changes, and the flash is still set
  up.
\<close>

theorem qspi32_copy_correct:
  assumes "qspi32_ready st" "src_ok st Src" "unat Src + unat Len \<le> unat (QspiFlashSize st)"
    and "ConnectionMode (Config st) = MODE_STACKED \<longrightarrow>
      unat Src + unat Len \<le> half_size st \<or> half_size st \<le> unat Src"
  shows "\<exists>st'. XFsbl_Qspi32Copy (sim_driver cfg) Src Dst Len st = (XFSBL_SUCCESS, st') \<and>
    qspi32_ready st' \<and> qspi_frame st st' \<and>
    (\<forall>x. Memory st' x =
       (if x - Dst < ucast Len then linear_flash st (unat Src + unat (x - Dst)) else Memory st x))"
proof -
  let ?d = "Dev st\<lparr>Cs := addr_cs st Src\<rparr>" and ?A = "unat (qspi_real_addr st Src)"
  have "sim_read32 ?d ?A j = linear_flash st (unat Src + j)" if j: "j < unat Len" for j
  proof (cases "ConnectionMode (Config st)")
    case MODE_SINGLE
    then have "unat Src + j < ChipSize (Dev st)" using assms(1,3) j by (simp add: qspi32_ready_def)
    then show ?thesis
      using MODE_SINGLE by (simp add: addr_cs_def qspi_real_addr_def sim_read32_def linear_flash_def flash_byte_def)
  next
    case MODE_STACKED
    have half: "half_size st = ChipSize (Dev st)"
      using assms(1) MODE_STACKED by (simp add: qspi32_ready_def half_size_def unat_div)
    have le: "QspiFlashSize st div 2 \<le> Src \<longleftrightarrow> half_size st \<le> unat Src"
      by (simp add: half_size_def word_le_nat_alt)
    have u: "unat (Src - QspiFlashSize st div 2) = unat Src - half_size st" if "half_size st \<le> unat Src"
      using that le by (simp add: half_size_def unat_sub)
    show ?thesis
    proof (cases "half_size st \<le> unat Src")
      case True
      have "unat Src - half_size st + j < ChipSize (Dev st)"
        using True assms(1,3) j MODE_STACKED half by (simp add: qspi32_ready_def)
      then show ?thesis
        using True MODE_STACKED le u [OF True]
        by (simp add: addr_cs_def qspi_real_addr_def sim_read32_def linear_flash_def flash_byte_def)
    next
      case False
      then have "unat Src + j < half_size st" using assms(4) MODE_STACKED j by auto
      then show ?thesis
        using False MODE_STACKED le half
        by (simp add: addr_cs_def qspi_real_addr_def sim_read32_def linear_flash_def flash_byte_def)
    qed
  next
    case MODE_PARALLEL
    then have ev: "even (unat Src)" using assms(2) by (simp add: src_ok_def)
    have "unat Src + j < 2 * ChipSize (Dev st)"
      using assms(1,3) j MODE_PARALLEL by (simp add: qspi32_ready_def)
    then have "unat Src div 2 + j div 2 < ChipSize (Dev st)" using ev by (auto elim!: evenE)
    then show ?thesis
      using MODE_PARALLEL ev
      by (auto simp: addr_cs_def qspi_real_addr_def sim_read32_def linear_flash_def flash_byte_def unat_div
          elim!: evenE)
  next
    case MODE_OTHER
    then show ?thesis using assms(1) by (simp add: qspi32_ready_def)
  qed
  then have "mem_write Dst Len (sim_read32 ?d ?A) (Memory st) =
      mem_write Dst Len (\<lambda>j. linear_flash st (unat Src + j)) (Memory st)"
    by (rule mem_write_cong)
  then show ?thesis
    using qspi32_copy_sim [OF assms(1,3), of cfg Dst] by (auto simp: mem_write_def)
qed

definition demo_stacked :: "sim_flash qspi" where
  "demo_stacked = demo_qspi\<lparr>Config := \<lparr>CfgBusWidth = XFSBL_QSPI_BUSWIDTH_FOUR, ConnectionMode = MODE_STACKED\<rparr>,
     QspiFlashSize := 0x4000000, ReadCommand := QUAD_READ_CMD_32BIT\<rparr>"

lemma demo_stacked_ready: "qspi32_ready demo_stacked" "src_ok demo_stacked a"
  "half_size demo_stacked = 0x2000000" "QspiFlashSize demo_stacked = 0x4000000"
  "ConnectionMode (Config demo_stacked) = MODE_STACKED" "Memory demo_stacked a' = 0"
  "linear_flash demo_stacked n = (if n < 0x2000000 then of_nat (n div 2 ^ 20) else 0xFF)"
  by (simp_all add: qspi32_ready_def demo_stacked_def demo_qspi_def demo_chip_def idle_chip_def qspi_buffers_def qspi_lists_def
      qpi_path_def src_ok_def half_size_def linear_flash_def flash_byte_def)

definition demo_macronix :: "sim_flash qspi" where
  "demo_macronix = demo_qspi\<lparr>Dev := demo_chip\<lparr>Lower := (Lower demo_chip)\<lparr>FourByteMode := True\<rparr>\<rparr>,
     QspiFlashMake := MACRONIX_ID, MacronixFlash := 1, ReadCommand := QUAD_READ_CMD_24BIT2\<rparr>"

lemma demo_macronix_ready: "qspi32_ready demo_macronix" "qpi_path demo_macronix" "src_ok demo_macronix a"
  "QspiFlashSize demo_macronix = 0x2000000" "ConnectionMode (Config demo_macronix) = MODE_SINGLE"
  "linear_flash demo_macronix n = of_nat (n div 2 ^ 20)"
  by (simp_all add: qspi32_ready_def demo_macronix_def demo_qspi_def demo_chip_def idle_chip_def qspi_buffers_def qspi_lists_def
      qpi_path_def src_ok_def linear_flash_def flash_byte_def)

text \<open>In the first chip of a stack, and on a Macronix part in QPI mode across the end of its first bank.\<close>

theorem qspi32_copy_correct_witness:
  "(\<exists>st'. XFsbl_Qspi32Copy (sim_driver demo_cfg) 0x1FFFFF0 0x100000 0x10 demo_stacked = (XFSBL_SUCCESS, st') \<and>
     Memory st' 0x10000F = 0x1F \<and> Memory st' 0x100010 = 0) \<and>
   (\<exists>st'. XFsbl_Qspi32Copy (sim_driver demo_cfg) 0xFFFFF0 0x100000 0x20 demo_macronix = (XFSBL_SUCCESS, st') \<and>
     Memory st' 0x10000F = 0x0F \<and> Memory st' 0x100010 = 0x10)"
proof
  show "\<exists>st'. XFsbl_Qspi32Copy (sim_driver demo_cfg) 0x1FFFFF0 0x100000 0x10 demo_stacked = (XFSBL_SUCCESS, st') \<and>
     Memory st' 0x10000F = 0x1F \<and> Memory st' 0x100010 = 0"
    using qspi32_copy_correct [OF demo_stacked_ready(1,2), of "0x1FFFFF0" "0x10" demo_cfg "0x100000"]
    by (auto simp: demo_stacked_ready)
  show "\<exists>st'. XFsbl_Qspi32Copy (sim_driver demo_cfg) 0xFFFFF0 0x100000 0x20 demo_macronix = (XFSBL_SUCCESS, st') \<and>
     Memory st' 0x10000F = 0x0F \<and> Memory st' 0x100010 = 0x10"
    using qspi32_copy_correct [OF demo_macronix_ready(1,3), of "0xFFFFF0" "0x20" demo_cfg "0x100000"]
    by (auto simp: demo_macronix_ready)
qed

text \<open>
  On stacked chips the 32-bit copy does not split at the chip boundary: a range that starts in
  the first chip and ends in the second is read entirely from the first, the part beyond its end
  wrapping to its start, and still reports success. The 24-bit copy, which cuts at bank boundaries,
  does not have this fault.
\<close>

lemma qspi32_stacked_boundary_misread:
  assumes "qspi32_ready st" "ConnectionMode (Config st) = MODE_STACKED"
    and "unat Src < half_size st" "half_size st < unat Src + unat Len"
    and "unat Src + unat Len \<le> unat (QspiFlashSize st)"
  shows "\<exists>st'. XFsbl_Qspi32Copy (sim_driver cfg) Src Dst Len st = (XFSBL_SUCCESS, st') \<and>
    (\<forall>j<unat Len. Memory st' (Dst + of_nat j) = LowerChip (Dev st) ((unat Src + j) mod half_size st))"
proof -
  have half: "half_size st = ChipSize (Dev st)"
    using assms(1,2) by (simp add: qspi32_ready_def half_size_def unat_div)
  have lt: "\<not> QspiFlashSize st div 2 \<le> Src"
    using assms(3) by (simp add: half_size_def word_le_nat_alt)
  have "(of_nat j :: u64) < ucast Len" "unat (of_nat j :: u64) = j" if "j < unat Len" for j
  proof -
    have "j < 2 ^ LENGTH(64)" using that unat_u32_less [of Len] by simp
    then show u: "unat (of_nat j :: u64) = j" by (rule unat_of_nat_small)
    then show "(of_nat j :: u64) < ucast Len" using that by (simp add: word_less_nat_alt)
  qed
  then show ?thesis
    using qspi32_copy_sim [OF assms(1,5), of cfg Dst] assms(2) lt half
    by (auto simp: mem_write_def addr_cs_def qspi_real_addr_def sim_read32_def)
qed

lemma qspi32_stacked_boundary_misread_example:
  "\<exists>st'. XFsbl_Qspi32Copy (sim_driver demo_cfg) 0x1FFFFF0 0x100000 0x20 demo_stacked = (XFSBL_SUCCESS, st') \<and>
     Memory st' 0x100010 = 0 \<and> linear_flash demo_stacked 0x2000000 = 0xFF"
proof -
  obtain st' where st': "XFsbl_Qspi32Copy (sim_driver demo_cfg) 0x1FFFFF0 0x100000 0x20 demo_stacked = (XFSBL_SUCCESS, st')"
    "\<forall>j<32. Memory st' (0x100000 + of_nat j) = LowerChip (Dev demo_stacked) ((0x1FFFFF0 + j) mod 0x2000000)"
    using qspi32_stacked_boundary_misread [OF demo_stacked_ready(1,5), of "0x1FFFFF0" "0x20" demo_cfg "0x100000"]
    by (auto simp: demo_stacked_ready)
  then have "Memory st' 0x100010 = 0"
    using spec [OF st'(2), of 16] by (simp add: demo_stacked_def demo_qspi_def demo_chip_def idle_chip_def)
  with st'(1) show ?thesis by (simp add: demo_stacked_ready)
qed

section \<open>Initialisation makes the flash ready\<close>

definition out_of_reset :: "flash_chip \<Rightarrow> bool" where
  "out_of_reset ch \<longleftrightarrow> BankReg ch = 0 \<and> \<not> FourByteMode ch \<and> \<not> QpiMode ch"

text \<open>What both initialisations have found out, on a board with connection \<open>cfg\<close>, of a flash of maker \<open>mk\<close> and size \<open>sz\<close>.\<close>

definition identified :: "qspi_config \<Rightarrow> u32 \<Rightarrow> u32 \<Rightarrow> sim_flash qspi \<Rightarrow> sim_flash qspi \<Rightarrow> bool" where
  "identified cfg mk sz st st' \<longleftrightarrow> Config st' = cfg \<and> QspiFlashMake st' = mk \<and>
     QspiFlashSize st' = total_size (ConnectionMode cfg) sz \<and> MacronixFlash st' = (if mk = MACRONIX_ID then 1 else 0) \<and>
     LowerChip (Dev st') = LowerChip (Dev st) \<and> UpperChip (Dev st') = UpperChip (Dev st) \<and>
     ChipSize (Dev st') = ChipSize (Dev st) \<and> Memory st' = Memory st"

definition command24 :: "u8 \<Rightarrow> u32" where
  "command24 w = (if w = XFSBL_QSPI_BUSWIDTH_ONE then FAST_READ_CMD_24BIT
     else if w = XFSBL_QSPI_BUSWIDTH_TWO then DUAL_READ_CMD_24BIT else QUAD_READ_CMD_24BIT)"

definition command32 :: "u8 \<Rightarrow> u32" where
  "command32 w = (if w = XFSBL_QSPI_BUSWIDTH_ONE then FAST_READ_CMD_32BIT
     else if w = XFSBL_QSPI_BUSWIDTH_TWO then DUAL_READ_CMD_32BIT else QUAD_READ_CMD_32BIT)"

lemma bus_widths: "(w :: u8) \<le> 2 \<Longrightarrow> w = 0 \<or> w = 1 \<or> w = 2"
proof -
  assume "w \<le> 2"
  then have "unat w = 0 \<or> unat w = 1 \<or> unat w = 2" by (simp add: word_le_nat_alt) arith
  then show ?thesis by (simp add: word_unat_eq_iff)
qed

text \<open>The state after the flash has been identified.\<close>

lemma read_id_sim:
  assumes "qspi_buffers st" "length (ChipId (Dev st)) = 4"
    and "flash_make (ChipId (Dev st) ! 0) = Some mk" "flash_size (ChipId (Dev st) ! 2) = Some sz"
  shows "\<exists>st1. FlashReadID (sim_driver cfg) (st\<lparr>Config := cfg, Dev := Dev st\<lparr>Cs := CS_LOWER\<rparr>, ReadCommand := cmd\<rparr>) = (XFSBL_SUCCESS, st1) \<and>
    qspi_lists st1 \<and> Dev st1 = Dev st\<lparr>Cs := CS_LOWER\<rparr> \<and> Memory st1 = Memory st \<and> Config st1 = cfg \<and> ReadCommand st1 = cmd \<and>
    QspiFlashMake st1 = mk \<and> QspiFlashSize st1 = sz \<and> MacronixFlash st1 = (if mk = MACRONIX_ID then 1 else 0)"
proof -
  let ?st = "st\<lparr>Config := cfg, Dev := Dev st\<lparr>Cs := CS_LOWER\<rparr>, ReadCommand := cmd\<rparr>"
  have "qspi_buffers ?st" using assms(1) by (simp add: qspi_buffers_def qspi_lists_def)
  from FlashReadID_sim [OF this, of mk sz cfg] assms(2-4) show ?thesis by simp
qed

lemma Qspi24Init_sim:
  assumes "qspi_buffers st" "length (ChipId (Dev st)) = 4" "out_of_reset (Lower (Dev st))" "out_of_reset (Upper (Dev st))"
    and "flash_make (ChipId (Dev st) ! 0) = Some mk" "flash_size (ChipId (Dev st) ! 2) = Some sz"
    and "board_mode \<noteq> MODE_OTHER" "CfgBusWidth cfg \<le> 2"
  shows "\<exists>st'. XFsbl_Qspi24Init (sim_driver cfg) board_mode st = (XFSBL_SUCCESS, st') \<and> identified cfg mk sz st st' \<and>
    qspi_buffers st' \<and> Dev st' = Dev st\<lparr>Cs := CS_LOWER\<rparr> \<and> ReadCommand st' \<in> (if qpi_path st' then {0xEB} else {0x0B, 0x3B, 0x6B})"
proof -
  define cmd where "cmd = command24 (CfgBusWidth cfg)"
  let ?st = "st\<lparr>Config := cfg, Dev := Dev st\<lparr>Cs := CS_LOWER\<rparr>\<rparr>"
  from read_id_sim [OF assms(1,2,5,6), of cfg cmd] obtain st1 where 1:
    "FlashReadID (sim_driver cfg) (?st\<lparr>ReadCommand := cmd\<rparr>) = (XFSBL_SUCCESS, st1)"
    "qspi_lists st1" "Dev st1 = Dev st\<lparr>Cs := CS_LOWER\<rparr>" "Memory st1 = Memory st" "Config st1 = cfg" "ReadCommand st1 = cmd"
    "QspiFlashMake st1 = mk" "QspiFlashSize st1 = sz" "MacronixFlash st1 = (if mk = MACRONIX_ID then 1 else 0)"
    by auto
  have pre: "(if CfgBusWidth (Config ?st) = XFSBL_QSPI_BUSWIDTH_ONE
      then ?st\<lparr>ReadCommand := FAST_READ_CMD_24BIT\<rparr>
      else if CfgBusWidth (Config ?st) = XFSBL_QSPI_BUSWIDTH_TWO
      then ?st\<lparr>ReadCommand := DUAL_READ_CMD_24BIT\<rparr>
      else if CfgBusWidth (Config ?st) = XFSBL_QSPI_BUSWIDTH_FOUR
      then ?st\<lparr>ReadCommand := QUAD_READ_CMD_24BIT\<rparr> else ?st) = ?st\<lparr>ReadCommand := cmd\<rparr>"
    using bus_widths [OF assms(8)] by (auto simp: cmd_def command24_def)
  define st2 where "st2 = (if IssiIdFlag st1 = 1 then st1\<lparr>ReadCommand := DUAL_READ_CMD_24BIT\<rparr> else st1)"
  define st3 where "st3 = (if MacronixFlash st2 = 1 \<and> CfgBusWidth (Config st2) = XFSBL_QSPI_BUSWIDTH_FOUR
    then st2\<lparr>ReadCommand := QUAD_READ_CMD_24BIT2\<rparr> else st2)"
  have "XFsbl_Qspi24Init (sim_driver cfg) board_mode st = (XFSBL_SUCCESS, double_size_if_dual st3)"
    unfolding XFsbl_Qspi24Init_def qspi_driver_init_sim [OF assms(7)] pre Let_def 1(1) prod.case st3_def st2_def by simp
  moreover have "identified cfg mk sz st (double_size_if_dual st3)"
    using 1 by (auto simp: identified_def st3_def st2_def double_size_if_dual_def total_size_def)
  moreover have "qspi_buffers (double_size_if_dual st3) \<and> Dev (double_size_if_dual st3) = Dev st\<lparr>Cs := CS_LOWER\<rparr>"
    using 1(2,3) assms(1) by (simp add: st3_def st2_def double_size_if_dual_def qspi_buffers_def qspi_lists_def)
  moreover have "ReadCommand (double_size_if_dual st3) \<in> (if qpi_path (double_size_if_dual st3) then {0xEB} else {0x0B, 0x3B, 0x6B})"
    using 1(6) by (simp add: st3_def st2_def double_size_if_dual_def qpi_path_def cmd_def command24_def)
  ultimately show ?thesis by blast
qed

text \<open>For which connections, makers and sizes the 24-bit copy is usable.\<close>

definition banks_reachable :: "qspi_mode \<Rightarrow> u32 \<Rightarrow> u32 \<Rightarrow> bool" where
  "banks_reachable mode mk sz \<longleftrightarrow> (bank_make mk \<or> sz \<le> BANKSIZE) \<and> (mode = MODE_STACKED \<longrightarrow> BANKSIZE \<le> sz)"

lemma Qspi24Init_ready:
  assumes "identified cfg mk sz st st'" "qspi_buffers st'" "Dev st' = Dev st\<lparr>Cs := CS_LOWER\<rparr>"
    and "ReadCommand st' \<in> (if qpi_path st' then {0xEB} else {0x0B, 0x3B, 0x6B})"
    and "out_of_reset (Lower (Dev st))" "out_of_reset (Upper (Dev st))" "flash_size b = Some sz" "ConnectionMode cfg \<noteq> MODE_OTHER"
  shows "qspi24_ready st' \<longleftrightarrow> banks_reachable (ConnectionMode cfg) mk sz"
proof -
  note nat = total_size_nat [OF assms(7)] flash_size_bound [OF assms(7)] flash_size_banks [OF assms(7)]
  have pos: "0 < unat sz" using assms(7) by (auto simp: flash_size_def split: if_splits)
  have id: "Config st' = cfg" "QspiFlashMake st' = mk" "QspiFlashSize st' = total_size (ConnectionMode cfg) sz"
    using assms(1) by (simp_all add: identified_def)
  have r: "\<not> FourByteMode (Lower (Dev st'))" "\<not> FourByteMode (Upper (Dev st'))" "LowerBank (Dev st') = 0" "UpperBank (Dev st') = 0"
    using assms(3,5,6) by (simp_all add: out_of_reset_def)
  have "2 ^ 24 dvd half_size st' \<longleftrightarrow> BANKSIZE \<le> sz" if "ConnectionMode cfg = MODE_STACKED"
    using nat pos that id by (auto simp: half_size_def total_size_def word_le_nat_alt dest: dvd_imp_le)
  moreover have "writes_banks st' \<or> one_bank st' \<longleftrightarrow> bank_make mk \<or> sz \<le> BANKSIZE"
    using nat id r assms(8) by (cases "ConnectionMode cfg")
      (auto simp: writes_banks_def one_bank_def chip_bytes_def bank_size_def total_size_def word_le_nat_alt word_less_nat_alt)
  ultimately show ?thesis
    using assms(2,4,8) id r by (auto simp: qspi24_ready_def banks_reachable_def)
qed

lemma MacronixEnable4B_sim:
  assumes "qspi_buffers st"
  shows "\<exists>st'. MacronixEnable4B (sim_driver cfg) st = (XFSBL_SUCCESS, st') \<and> code_same st st' \<and> Memory st' = Memory st \<and>
    Dev st' = on_selected (\<lambda>ch. ch\<lparr>FourByteMode := True, WriteEnabled := False\<rparr>) (Dev st)"
proof -
  have l: "qspi_lists st" using assms by (simp add: qspi_buffers_def)
  note w = listens_spi [OF assms]
  obtain st1 where 1: "send_byte (sim_driver cfg) 0x06 SELECT_MODE_SPI st = (XFSBL_SUCCESS, st1)" "code_same st st1"
    "Memory st1 = Memory st" "Dev st1 = on_selected (chip_command 0x06 []) (Dev st)"
    using send_byte_sim [OF l w, of cfg "0x06"] by blast
  have w1: "listens SELECT_MODE_SPI (Dev st1)" using w by (simp add: 1(4) listens_on_selected chip_command_def)
  obtain st2 where 2: "send_byte (sim_driver cfg) 0xB7 SELECT_MODE_SPI st1 = (XFSBL_SUCCESS, st2)" "code_same st1 st2"
    "Memory st2 = Memory st1" "Dev st2 = on_selected (chip_command 0xB7 []) (Dev st1)"
    using send_byte_sim [OF code_same_lists [OF 1(2) l] w1, of cfg "0xB7"] by blast
  have "Dev st2 = on_selected (\<lambda>ch. ch\<lparr>FourByteMode := True, WriteEnabled := False\<rparr>) (Dev st)"
    unfolding 2(4) 1(4) on_selected_on_selected by (rule on_selected_cong) (simp add: chip_command_def)
  then show ?thesis
    using 1 2 code_same_trans [OF 1(2) 2(2)] by (simp add: MacronixEnable4B_def)
qed

text \<open>The chips of the connection after the 32-bit initialisation of a Macronix flash.\<close>

definition same_data :: "sim_flash \<Rightarrow> sim_flash \<Rightarrow> bool" where
  "same_data d d' \<longleftrightarrow> LowerChip d' = LowerChip d \<and> UpperChip d' = UpperChip d \<and> ChipSize d' = ChipSize d \<and>
     QpiMode (Lower d') = QpiMode (Lower d) \<and> QpiMode (Upper d') = QpiMode (Upper d)"

definition four_byte_chips :: "qspi_mode \<Rightarrow> sim_flash \<Rightarrow> bool" where
  "four_byte_chips mode d \<longleftrightarrow> FourByteMode (Lower d) \<and> (mode \<noteq> MODE_SINGLE \<longrightarrow> FourByteMode (Upper d))"

lemma code_same_double: "code_same st st' \<Longrightarrow> code_same (double_size_if_dual st) (double_size_if_dual st')"
  by (simp add: code_same_def double_size_if_dual_def)

lemma double_select [simp]: "Dev (double_size_if_dual st) = Dev st" "Memory (double_size_if_dual st) = Memory st"
  by (simp_all add: double_size_if_dual_def)

definition enable_four_bytes :: "'d qspi_driver \<Rightarrow> 'd qspi \<Rightarrow> u32 \<times> 'd qspi" where
  "enable_four_bytes drv st =
     (if ConnectionMode (Config st) = MODE_PARALLEL then
        (case MacronixEnable4B drv (st\<lparr>Dev := SelectFlash drv (Dev st) CS_BOTH BUS_BOTH\<rparr>) of (_, st) \<Rightarrow> (XFSBL_SUCCESS, double_size_if_dual st))
      else or_fail (MacronixEnable4B drv (st\<lparr>Dev := SelectFlash drv (Dev st) CS_LOWER BUS_LOWER\<rparr>)) XFSBL_FAILURE (\<lambda>st.
        if ConnectionMode (Config st) = MODE_STACKED then
          (case MacronixEnable4B drv (st\<lparr>Dev := SelectFlash drv (Dev st) CS_UPPER BUS_LOWER\<rparr>) of (_, st) \<Rightarrow> (XFSBL_SUCCESS, double_size_if_dual st))
        else (XFSBL_SUCCESS, double_size_if_dual st)))"

lemma enable_four_bytes_sim:
  assumes "qspi_buffers st" "ConnectionMode (Config st) \<noteq> MODE_OTHER"
  shows "\<exists>st'. enable_four_bytes (sim_driver cfg) st = (XFSBL_SUCCESS, st') \<and> code_same (double_size_if_dual st) st' \<and>
    Memory st' = Memory st \<and> same_data (Dev st) (Dev st') \<and> four_byte_chips (ConnectionMode (Config st)) (Dev st')"
proof -
  have l: "qspi_lists st" and q: "\<not> QpiMode (Lower (Dev st))" "\<not> QpiMode (Upper (Dev st))"
    using assms(1) by (simp_all add: qspi_buffers_def)
  have step: "\<exists>st'. MacronixEnable4B (sim_driver cfg) (t\<lparr>Dev := Dev t\<lparr>Cs := cs\<rparr>\<rparr>) = (XFSBL_SUCCESS, st') \<and> code_same t st' \<and>
      Memory st' = Memory t \<and> same_data (Dev t) (Dev st') \<and> qspi_buffers st' \<and>
      FourByteMode (Lower (Dev st')) = (cs \<noteq> CS_UPPER \<or> FourByteMode (Lower (Dev t))) \<and>
      FourByteMode (Upper (Dev st')) = (cs \<noteq> CS_LOWER \<or> FourByteMode (Upper (Dev t)))"
    if t: "qspi_buffers t" for t cs
  proof -
    have b: "qspi_buffers (t\<lparr>Dev := Dev t\<lparr>Cs := cs\<rparr>\<rparr>)"
      using t by (simp add: qspi_buffers_def qspi_lists_def)
    from MacronixEnable4B_sim [OF b, of cfg] obtain st' where
      "MacronixEnable4B (sim_driver cfg) (t\<lparr>Dev := Dev t\<lparr>Cs := cs\<rparr>\<rparr>) = (XFSBL_SUCCESS, st')"
      "code_same (t\<lparr>Dev := Dev t\<lparr>Cs := cs\<rparr>\<rparr>) st'" "Memory st' = Memory t"
      "Dev st' = on_selected (\<lambda>ch. ch\<lparr>FourByteMode := True, WriteEnabled := False\<rparr>) (Dev t\<lparr>Cs := cs\<rparr>)" by auto
    then show ?thesis
      using t by (auto simp: code_same_def same_data_def qspi_buffers_def qspi_lists_def)
  qed
  have sel: "SelectFlash (sim_driver cfg) d cs bus = d\<lparr>Cs := cs\<rparr>" for d cs bus by (simp add: sim_driver_def)
  show ?thesis
  proof (cases "ConnectionMode (Config st)")
    case MODE_PARALLEL
    with step [OF assms(1), of CS_BOTH] show ?thesis
      by (auto simp: enable_four_bytes_def sel four_byte_chips_def intro: code_same_double)
  next
    case MODE_SINGLE
    from step [OF assms(1), of CS_LOWER] obtain st1 where 1: "MacronixEnable4B (sim_driver cfg) (st\<lparr>Dev := Dev st\<lparr>Cs := CS_LOWER\<rparr>\<rparr>) = (XFSBL_SUCCESS, st1)"
      "code_same st st1" "Memory st1 = Memory st" "same_data (Dev st) (Dev st1)" "FourByteMode (Lower (Dev st1))" by auto
    have "ConnectionMode (Config st1) = MODE_SINGLE" using 1(2) MODE_SINGLE by (simp add: code_same_def)
    with 1 MODE_SINGLE code_same_double [OF 1(2)] show ?thesis
      by (simp add: enable_four_bytes_def sel four_byte_chips_def)
  next
    case MODE_STACKED
    from step [OF assms(1), of CS_LOWER] obtain st1 where 1: "MacronixEnable4B (sim_driver cfg) (st\<lparr>Dev := Dev st\<lparr>Cs := CS_LOWER\<rparr>\<rparr>) = (XFSBL_SUCCESS, st1)"
      "code_same st st1" "Memory st1 = Memory st" "same_data (Dev st) (Dev st1)" "qspi_buffers st1" "FourByteMode (Lower (Dev st1))" by auto
    from step [OF 1(5), of CS_UPPER] obtain st2 where 2: "MacronixEnable4B (sim_driver cfg) (st1\<lparr>Dev := Dev st1\<lparr>Cs := CS_UPPER\<rparr>\<rparr>) = (XFSBL_SUCCESS, st2)"
      "code_same st1 st2" "Memory st2 = Memory st1" "same_data (Dev st1) (Dev st2)" "FourByteMode (Lower (Dev st2))" "FourByteMode (Upper (Dev st2))"
      using 1(6) by auto
    have "ConnectionMode (Config st1) = MODE_STACKED" using 1(2) MODE_STACKED by (simp add: code_same_def)
    with 1 2 MODE_STACKED code_same_double [OF code_same_trans [OF 1(2) 2(2)]] show ?thesis
      by (simp add: enable_four_bytes_def sel four_byte_chips_def same_data_def)
  next
    case MODE_OTHER
    with assms(2) show ?thesis by simp
  qed
qed

lemma Qspi32Init_sim:
  assumes "qspi_buffers st" "length (ChipId (Dev st)) = 4"
    and "flash_make (ChipId (Dev st) ! 0) = Some mk" "flash_size (ChipId (Dev st) ! 2) = Some sz" "ChipSize (Dev st) = unat sz"
    and "board_mode \<noteq> MODE_OTHER" "ConnectionMode cfg \<noteq> MODE_OTHER" "CfgBusWidth cfg \<le> 2"
  shows "\<exists>st'. XFsbl_Qspi32Init (sim_driver cfg) board_mode st = (XFSBL_SUCCESS, st') \<and> identified cfg mk sz st st' \<and> qspi32_ready st'"
proof -
  define cmd where "cmd = command32 (CfgBusWidth cfg)"
  let ?st = "st\<lparr>Config := cfg, Dev := Dev st\<lparr>Cs := CS_LOWER\<rparr>\<rparr>"
  from read_id_sim [OF assms(1-4), of cfg cmd] obtain st1 where 1:
    "FlashReadID (sim_driver cfg) (?st\<lparr>ReadCommand := cmd\<rparr>) = (XFSBL_SUCCESS, st1)"
    "qspi_lists st1" "Dev st1 = Dev st\<lparr>Cs := CS_LOWER\<rparr>" "Memory st1 = Memory st" "Config st1 = cfg" "ReadCommand st1 = cmd"
    "QspiFlashMake st1 = mk" "QspiFlashSize st1 = sz" "MacronixFlash st1 = (if mk = MACRONIX_ID then 1 else 0)"
    by auto
  have pre: "(if CfgBusWidth (Config ?st) = XFSBL_QSPI_BUSWIDTH_ONE
      then ?st\<lparr>ReadCommand := FAST_READ_CMD_32BIT\<rparr>
      else if CfgBusWidth (Config ?st) = XFSBL_QSPI_BUSWIDTH_TWO
      then ?st\<lparr>ReadCommand := DUAL_READ_CMD_32BIT\<rparr>
      else if CfgBusWidth (Config ?st) = XFSBL_QSPI_BUSWIDTH_FOUR
      then ?st\<lparr>ReadCommand := QUAD_READ_CMD_32BIT\<rparr> else ?st) = ?st\<lparr>ReadCommand := cmd\<rparr>"
    using bus_widths [OF assms(8)] by (auto simp: cmd_def command32_def)
  define st2 where "st2 = (if CfgBusWidth (Config st1) = XFSBL_QSPI_BUSWIDTH_FOUR
    then st1\<lparr>ReadCommand := QUAD_READ_CMD_24BIT2\<rparr> else st1)"
  have run: "XFsbl_Qspi32Init (sim_driver cfg) board_mode st =
      (if MacronixFlash st1 = 1 then enable_four_bytes (sim_driver cfg) st2 else (XFSBL_SUCCESS, double_size_if_dual st1))"
    unfolding XFsbl_Qspi32Init_def qspi_driver_init_sim [OF assms(6)] pre Let_def 1(1) prod.case enable_four_bytes_def st2_def [symmetric]
    by simp
  note nat = total_size_nat [OF assms(4)] flash_size_bound [OF assms(4)]
  have size: "QspiFlashSize (double_size_if_dual t) = total_size (ConnectionMode cfg) sz"
    if "QspiFlashSize t = sz" "Config t = cfg" for t :: "sim_flash qspi"
    using that by (simp add: double_size_if_dual_def total_size_def)
  have total: "total_size (ConnectionMode cfg) sz \<le> DMA_DATA_TRAN_SIZE"
    "unat (total_size (ConnectionMode cfg) sz) = (if ConnectionMode cfg = MODE_SINGLE then 1 else 2) * unat sz"
    using nat assms(7) by (cases "ConnectionMode cfg"; simp add: total_size_def word_le_nat_alt)+
  show ?thesis
  proof (cases "mk = MACRONIX_ID")
    case False
    define st' where "st' = double_size_if_dual st1"
    have "Config st' = cfg" "QspiFlashMake st' = mk" "ReadCommand st' = cmd" "MacronixFlash st' = 0" "Dev st' = Dev st\<lparr>Cs := CS_LOWER\<rparr>"
      "Memory st' = Memory st" "QspiFlashSize st' = total_size (ConnectionMode cfg) sz" "qspi_lists st'"
      using 1 False size [OF 1(8,5)] by (simp_all add: st'_def double_size_if_dual_def qspi_lists_def)
    then have "identified cfg mk sz st st' \<and> qspi32_ready st'"
      using False total assms(1,5,7) by (simp add: identified_def qspi32_ready_def qpi_path_def qspi_buffers_def cmd_def command32_def)
    then show ?thesis using run 1(9) False by (simp add: st'_def)
  next
    case True
    have b: "qspi_buffers st2" "ConnectionMode (Config st2) \<noteq> MODE_OTHER"
      using assms(1,7) 1(2,3,5) by (simp_all add: st2_def qspi_buffers_def qspi_lists_def)
    from enable_four_bytes_sim [OF b, of cfg] obtain st' where
      2: "enable_four_bytes (sim_driver cfg) st2 = (XFSBL_SUCCESS, st')" "code_same (double_size_if_dual st2) st'"
      "Memory st' = Memory st2" "same_data (Dev st2) (Dev st')" "four_byte_chips (ConnectionMode (Config st2)) (Dev st')" by blast
    have 3: "Config st2 = cfg" "QspiFlashMake st2 = mk" "QspiFlashSize st2 = sz" "MacronixFlash st2 = 1"
      "Dev st2 = Dev st\<lparr>Cs := CS_LOWER\<rparr>" "Memory st2 = Memory st"
      "ReadCommand st2 = (if CfgBusWidth cfg = 2 then 0xEB else cmd)"
      using 1 True by (simp_all add: st2_def)
    have "qspi_lists (double_size_if_dual st2)" using b(1) by (simp add: qspi_buffers_def qspi_lists_def double_size_if_dual_def)
    then have l: "qspi_lists st'" by (rule code_same_lists [OF 2(2)])
    have "Config st' = cfg" "QspiFlashMake st' = mk" "MacronixFlash st' = 1" "QspiFlashSize st' = total_size (ConnectionMode cfg) sz"
      "ReadCommand st' = (if CfgBusWidth cfg = 2 then 0xEB else cmd)"
      using 2(2) 3 size [OF 3(3,1)] by (simp_all add: code_same_def double_size_if_dual_def)
    then have "identified cfg mk sz st st' \<and> qspi32_ready st'"
      using True total assms(1,5,7) bus_widths [OF assms(8)] 2(3-5) 3 l
      by (auto simp: identified_def qspi32_ready_def qpi_path_def qspi_buffers_def cmd_def command32_def same_data_def four_byte_chips_def)
    then show ?thesis using run 2(1) 1(9) True by simp
  qed
qed

text \<open>
  C13. On a board whose connection and number of data lines the code knows, with the chips as a reset leaves them,
  both initialisations succeed for every maker and every size in the tables, identify them, double the size
  for two chips, and change neither memory nor the contents of the flash. The 32-bit one always leaves the flash
  in the state on which the 32-bit copy relies. The 24-bit one leaves it in the state on which the 24-bit copy relies
  exactly when no part of a chip needs a bank register that the code does not write (that of Micron,
  Macronix and Spansion parts it does, that of Winbond and ISSI parts larger than a bank it does not) and
  stacked chips are not smaller than a bank.
\<close>

theorem qspi_init_ready:
  assumes "qspi_buffers st" "length (ChipId (Dev st)) = 4" "out_of_reset (Lower (Dev st))" "out_of_reset (Upper (Dev st))"
    and "flash_make (ChipId (Dev st) ! 0) = Some mk" "flash_size (ChipId (Dev st) ! 2) = Some sz" "ChipSize (Dev st) = unat sz"
    and "board_mode \<noteq> MODE_OTHER" "ConnectionMode cfg \<noteq> MODE_OTHER" "CfgBusWidth cfg \<le> 2"
  shows "(\<exists>st'. XFsbl_Qspi24Init (sim_driver cfg) board_mode st = (XFSBL_SUCCESS, st') \<and> identified cfg mk sz st st' \<and>
      (qspi24_ready st' \<longleftrightarrow>
        (bank_make mk \<or> sz \<le> BANKSIZE) \<and> (ConnectionMode cfg = MODE_STACKED \<longrightarrow> BANKSIZE \<le> sz))) \<and>
    (\<exists>st'. XFsbl_Qspi32Init (sim_driver cfg) board_mode st = (XFSBL_SUCCESS, st') \<and> identified cfg mk sz st st' \<and>
      qspi32_ready st')"
proof
  from Qspi24Init_sim [OF assms(1-6,8,10)] obtain st' where
    1: "XFsbl_Qspi24Init (sim_driver cfg) board_mode st = (XFSBL_SUCCESS, st')" "identified cfg mk sz st st'"
    "qspi_buffers st'" "Dev st' = Dev st\<lparr>Cs := CS_LOWER\<rparr>" "ReadCommand st' \<in> (if qpi_path st' then {0xEB} else {0x0B, 0x3B, 0x6B})"
    by blast
  from Qspi24Init_ready [OF 1(2-5) assms(3,4,6,9)] 1(1,2)
  show "\<exists>st'. XFsbl_Qspi24Init (sim_driver cfg) board_mode st = (XFSBL_SUCCESS, st') \<and> identified cfg mk sz st st' \<and>
      (qspi24_ready st' \<longleftrightarrow>
        (bank_make mk \<or> sz \<le> BANKSIZE) \<and> (ConnectionMode cfg = MODE_STACKED \<longrightarrow> BANKSIZE \<le> sz))"
    unfolding banks_reachable_def by blast
qed (rule Qspi32Init_sim [OF assms(1,2,5-10)])

text \<open>Two stacked 32 MB Micron parts on four lines.\<close>

theorem qspi_init_ready_witness:
  "\<exists>st'. XFsbl_Qspi24Init (sim_driver \<lparr>CfgBusWidth = 2, ConnectionMode = MODE_STACKED\<rparr>) MODE_STACKED demo_qspi =
     (XFSBL_SUCCESS, st') \<and> qspi24_ready st' \<and> QspiFlashSize st' = 0x4000000"
  using qspi_init_ready [of demo_qspi MICRON_ID "0x2000000" MODE_STACKED
      "\<lparr>CfgBusWidth = 2, ConnectionMode = MODE_STACKED\<rparr>"] demo_qspi_ready(1)
  by (auto simp: qspi24_ready_def flash_make_def flash_size_def demo_qspi_def demo_chip_def idle_chip_def
      bank_make_def total_size_def identified_def out_of_reset_def)

text \<open>
  The parts the 24-bit copy gets wrong: of a Winbond or ISSI flash larger than a bank, whose bank register
  \<open>SendBankSelect\<close> leaves alone, every copy inside a bank reads the first bank, and reports success.
\<close>

lemma qspi24_unknown_bank_misread:
  assumes "qspi_buffers st" "ReadCommand st \<in> {0x0B, 0x3B, 0x6B}" "\<not> qpi_path st" "\<not> bank_make (QspiFlashMake st)"
    and "ConnectionMode (Config st) = MODE_SINGLE" "LowerBank (Dev st) = 0" "\<not> FourByteMode (Lower (Dev st))"
    and "Len \<noteq> 0" "unat Src mod 2 ^ 24 + unat Len \<le> 2 ^ 24" "unat Src + unat Len \<le> unat (QspiFlashSize st)"
  shows "\<exists>st'. XFsbl_Qspi24Copy (sim_driver cfg) Src Dst Len st = (XFSBL_SUCCESS, st') \<and>
    (\<forall>j < unat Len. Memory st' (Dst + of_nat j) = LowerChip (Dev st) (unat Src mod 2 ^ 24 + j))"
proof -
  let ?st = "st\<lparr>Dev := Dev st\<lparr>Cs := CS_LOWER\<rparr>\<rparr>"
  have A: "qspi_real_addr st Src = Src" "addr_cs st Src = CS_LOWER" "bank_orig st Src = Src" "bank_bits st = 24"
    using assms(5) by (simp_all add: qspi_real_addr_def addr_cs_def bank_orig_def bank_bits_def)
  have n: "unat Len \<le> 2 ^ 24" using assms(9) by linarith
  then have d: "dma_bytes Len = Len" by (simp add: dma_bytes_def word_less_nat_alt)
  have T: "transfer_bytes24 t Src Len = Len" if t: "Config t = Config st" for t :: "sim_flash qspi"
  proof (cases "Src AND NOT (mask 24) \<noteq> (Src + Len) AND NOT (mask 24)")
    case True
    have "\<not> unat Src mod 2 ^ 24 + unat Len < 2 ^ 24" using same_bank [of 24 Src Len] True by auto
    then have "unat Src mod 2 ^ 24 + unat Len = 2 ^ 24" using assms(9) by simp
    then have "unat ((Src AND NOT (mask 24)) + push_bit 24 1 - Src) = unat Len" using bank_rest [of 24 Src] by simp
    moreover have "transfer_bytes24 t Src Len = (Src AND NOT (mask 24)) + push_bit 24 1 - Src"
      using True A t assms(5) by (simp add: transfer_bytes24_eq d bank_orig_def bank_bits_def)
    ultimately show ?thesis by (simp add: word_unat_eq_iff)
  next
    case False
    then show ?thesis using A t assms(5) by (simp add: transfer_bytes24_eq d bank_orig_def bank_bits_def)
  qed
  have b: "qspi_buffers ?st" "cs_fits ?st" "address_mode False (Dev ?st)"
    using assms(1,5,7) by (simp_all add: qspi_buffers_def qspi_lists_def cs_fits_def address_mode_def selected_def)
  have l: "length (addr_bytes24 Src) = 3" by (simp add: addr_bytes24_def)
  from spi_read_sim [OF b(1,2), of "0x0B" "0x3B" "0x6B" "addr_bytes24 Src" cfg Dst Len] assms(2) b(3) l
  obtain st1 where 1: "spi_read (sim_driver cfg) 0x0B 0x3B 0x6B (addr_bytes24 Src) Dst Len ?st = (XFSBL_SUCCESS, st1)"
    "Memory st1 = mem_write Dst Len (chips_read (Dev ?st) (addr_bytes24 Src)) (Memory ?st)" by auto
  have m: "ConnectionMode (Config st) \<noteq> MODE_OTHER" "\<not> qpi_path ?st" using assms(3,5) by (simp_all add: qpi_path_def)
  have bank: "(if QspiFlashSize ?st > bank_size ?st then SendBankSelect (sim_driver cfg) (Src div BANKSIZE) ?st else (XFSBL_SUCCESS, ?st)) =
      (XFSBL_SUCCESS, ?st)"
    using assms(4) by (auto simp: SendBankSelect_def bank_make_def)
  have "qspi24_round (sim_driver cfg) Src Dst Len st = (XFSBL_SUCCESS, st1)"
    unfolding qspi24_round_def GetQspiAddr_sim [OF m(1)] A Let_def prod.case bank or_fail_success
    using m(2) T [of ?st] 1(1) by simp
  then have "qspi24_loop (sim_driver cfg) Src Dst Len st = (XFSBL_SUCCESS, st1)"
    using assms(8) T [of st] A by (subst qspi24_loop.simps) (simp add: qspi24_loop.simps)
  moreover have "\<not> Src + Len > QspiFlashSize st"
    using assms(10) unat_u32_less [of "QspiFlashSize st"] by (simp add: word_less_nat_alt unat_add_lem [THEN iffD1])
  moreover have "Memory st1 (Dst + of_nat j) = LowerChip (Dev st) (unat Src mod 2 ^ 24 + j)" if "j < unat Len" for j
    using that assms(6,9) by (simp add: 1(2) mem_write_at chips_read_def l sim_read24_def be_addr_bytes)
  ultimately show ?thesis by (auto simp: XFsbl_Qspi24Copy_def)
qed

definition demo_winbond :: "sim_flash qspi" where
  "demo_winbond = demo_qspi\<lparr>QspiFlashMake := WINBOND_ID\<rparr>"

lemma qspi24_unknown_bank_misread_example:
  "\<exists>st'. XFsbl_Qspi24Copy (sim_driver demo_cfg) 0x1100000 0x100000 0x10 demo_winbond = (XFSBL_SUCCESS, st') \<and>
     Memory st' 0x100000 = 0x01 \<and> linear_flash demo_winbond 0x1100000 = 0x11"
proof -
  have "qspi_buffers demo_winbond \<and> ReadCommand demo_winbond \<in> {0x0B, 0x3B, 0x6B} \<and> \<not> qpi_path demo_winbond \<and>
      \<not> bank_make (QspiFlashMake demo_winbond) \<and> ConnectionMode (Config demo_winbond) = MODE_SINGLE \<and>
      LowerBank (Dev demo_winbond) = 0 \<and> \<not> FourByteMode (Lower (Dev demo_winbond)) \<and> QspiFlashSize demo_winbond = 0x2000000"
    by (simp add: demo_winbond_def demo_qspi_def demo_chip_def idle_chip_def qspi_buffers_def qspi_lists_def qpi_path_def bank_make_def)
  with qspi24_unknown_bank_misread [of demo_winbond "0x10" "0x1100000" demo_cfg "0x100000"] obtain st' where
    st': "XFsbl_Qspi24Copy (sim_driver demo_cfg) 0x1100000 0x100000 0x10 demo_winbond = (XFSBL_SUCCESS, st')"
    "\<forall>j < 16. Memory st' (0x100000 + of_nat j) = LowerChip (Dev demo_winbond) (0x100000 + j)" by auto
  from st'(2) [rule_format, of 0] st'(1) show ?thesis
    by (simp add: demo_winbond_def demo_qspi_def demo_chip_def idle_chip_def linear_flash_def flash_byte_def)
qed

section \<open>The range check\<close>

text \<open>The statuses a copy can end with once its range check has passed.\<close>

lemma or_fail_statuses:
  "(\<And>st. fst (k st) \<in> {XFSBL_SUCCESS, e}) \<Longrightarrow> fst (or_fail r e k) \<in> {XFSBL_SUCCESS, e}"
  by (simp add: or_fail_def split: prod.split)

lemma read_statuses:
  "fst (spi_read drv f d q addr dst n st) \<in> {XFSBL_SUCCESS, XFSBL_ERROR_QSPI_READ}"
  "fst (qpi_read drv addr dst n st) \<in> {XFSBL_SUCCESS, XFSBL_ERROR_QSPI_READ}"
  unfolding spi_read_def qpi_read_def Let_def by (intro or_fail_statuses, simp)+

lemma round_statuses:
  "fst (qspi24_round drv a dst n st) \<in> {XFSBL_SUCCESS, XFSBL_ERROR_QSPI_READ}"
  "fst (qspi32_round drv a dst n st) \<in> {XFSBL_SUCCESS, XFSBL_ERROR_QSPI_READ}"
proof -
  obtain A st0 where A: "XFsbl_GetQspiAddr drv a st = (A, st0)"
    by (cases "XFsbl_GetQspiAddr drv a st")
  show "fst (qspi24_round drv a dst n st) \<in> {XFSBL_SUCCESS, XFSBL_ERROR_QSPI_READ}"
    unfolding qspi24_round_def Let_def A prod.case
    by (intro or_fail_statuses) (simp only: read_statuses simp_thms split: if_split)
  show "fst (qspi32_round drv a dst n st) \<in> {XFSBL_SUCCESS, XFSBL_ERROR_QSPI_READ}"
    unfolding qspi32_round_def Let_def A prod.case by (simp only: read_statuses simp_thms split: if_split)
qed

lemma qspi24_loop_statuses:
  "fst (qspi24_loop drv a dst n st) \<in> {XFSBL_SUCCESS, XFSBL_ERROR_QSPI_READ}"
proof (induction drv a dst n st rule: qspi24_loop.induct)
  case (1 drv a dst n st)
  obtain s st1 where r: "qspi24_round drv a dst n st = (s, st1)"
    by (cases "qspi24_round drv a dst n st")
  with 1 round_statuses(1) [of drv a dst n st] show ?case
    by (subst qspi24_loop.simps) (auto simp: Let_def)
qed

lemma qspi32_loop_statuses:
  "fst (qspi32_loop drv a dst n st) \<in> {XFSBL_SUCCESS, XFSBL_ERROR_QSPI_READ}"
proof (induction drv a dst n st rule: qspi32_loop.induct)
  case (1 drv a dst n st)
  obtain s st1 where r: "qspi32_round drv a dst (dma_bytes n) st = (s, st1)"
    by (cases "qspi32_round drv a dst (dma_bytes n) st")
  with 1 round_statuses(2) [of drv a dst "dma_bytes n" st] show ?case
    by (subst qspi32_loop.simps) (auto simp: Let_def)
qed

text \<open>
  The range check of both copies adds in 32 bits: for every non-zero source there is a length,
  far beyond any flash, that makes the sum wrap to zero, and neither copy reports
  \<open>XFSBL_ERROR_QSPI_LENGTH\<close> for it.
\<close>

lemma qspi_length_check_wraps:
  assumes "Src \<noteq> 0"
  shows "unat Src + unat (0 - Src) = 2 ^ 32 \<and>
    fst (XFsbl_Qspi24Copy drv Src Dst (0 - Src) st) \<noteq> XFSBL_ERROR_QSPI_LENGTH \<and>
    fst (XFsbl_Qspi32Copy drv Src Dst (0 - Src) st) \<noteq> XFSBL_ERROR_QSPI_LENGTH"
proof -
  have "unat (0 - Src) = 2 ^ 32 - unat Src"
    using assms unat_sub_if_size [of 0 Src] by (simp add: word_size unat_gt_0 del: diff_0)
  moreover have "unat Src < 2 ^ 32" by (rule unat_u32_less)
  ultimately have "unat Src + unat (0 - Src) = 2 ^ 32" by linarith
  then show ?thesis
    using qspi24_loop_statuses [of drv Src Dst "0 - Src" st] qspi32_loop_statuses [of drv Src Dst "0 - Src" st]
    by (auto simp: XFsbl_Qspi24Copy_def XFsbl_Qspi32Copy_def)
qed

lemma qspi_length_check_wraps_example:
  "fst (XFsbl_Qspi24Copy (sim_driver demo_cfg) 0x10 0 (0 - 0x10) demo_qspi) \<noteq> XFSBL_ERROR_QSPI_LENGTH"
  using qspi_length_check_wraps [of "0x10" "sim_driver demo_cfg" 0 demo_qspi] by simp

section \<open>The QSPI flash as a boot device\<close>








end
