(* ===== verification/Serializer.thy ===== *)
theory Serializer
  imports Sdk_Prelude
begin

text \<open>
  The binary protocol of the Koheron server: \<open>serializer_deserializer.hpp\<close> (scalars in big-endian
  order, tuples, the command builder of \<open>DynamicSerializer\<close>) and the receiving side, the \<open>Buffer\<close>
  of \<open>commands.hpp\<close> with the WebSocket \<open>recv\<close> functions of \<open>session.hpp\<close>. Template parameters
  (the types of a tuple, the element size, class and function ids) are arguments of the model.
\<close>

section \<open>Scalars\<close>

definition append_u8 :: "u8 \<Rightarrow> u8 list" where
  "append_u8 value = [value]"

definition extract_u8 :: "u8 list \<Rightarrow> u8" where
  "extract_u8 buff = buff ! 0"

definition append_u16 :: "u16 \<Rightarrow> u8 list" where
  "append_u16 value = [ucast (drop_bit 8 value AND 0xff), ucast (value AND 0xff)]"

definition extract_u16 :: "u8 list \<Rightarrow> u16" where
  "extract_u16 buff = ucast (buff ! 1) + push_bit 8 (ucast (buff ! 0))"

definition append_u32 :: "u32 \<Rightarrow> u8 list" where
  "append_u32 value = [ucast (drop_bit 24 value AND 0xff), ucast (drop_bit 16 value AND 0xff),
     ucast (drop_bit 8 value AND 0xff), ucast (value AND 0xff)]"

definition extract_u32 :: "u8 list \<Rightarrow> u32" where
  "extract_u32 buff = ucast (buff ! 3) + push_bit 8 (ucast (buff ! 2)) +
     push_bit 16 (ucast (buff ! 1)) + push_bit 24 (ucast (buff ! 0))"

definition append_u64 :: "u64 \<Rightarrow> u8 list" where
  "append_u64 value = append_u32 (ucast (drop_bit 32 value)) @ append_u32 (ucast value)"

definition extract_u64 :: "u8 list \<Rightarrow> u64" where
  "extract_u64 buff = (let u1 = extract_u32 buff; u2 = extract_u32 (drop 4 buff)
     in ucast u2 + push_bit 32 (ucast u1))"

lemma ucast_low_byte: "(ucast (v AND 0xff :: 'a::len word) :: u8) = ucast v"
proof -
  have m: "(0xff :: 'a word) = mask 8"
    by (simp add: mask_eq_exp_minus_1)
  show ?thesis
    by (simp only: m) (rule bit_word_eqI, auto simp: bit_simps simp del: mask_numeral dest: bit_imp_le_length)
qed

lemma append_u16_bytes: "append_u16 v = [ucast (drop_bit 8 v), ucast v]"
  by (simp add: append_u16_def ucast_low_byte)

lemma append_u32_bytes:
  "append_u32 v = [ucast (drop_bit 24 v), ucast (drop_bit 16 v), ucast (drop_bit 8 v), ucast v]"
  by (simp add: append_u32_def ucast_low_byte)

lemma length_append [simp]:
  "length (append_u8 a) = 1" "length (append_u16 b) = 2" "length (append_u32 c) = 4" "length (append_u64 d) = 8"
  by (simp_all add: append_u8_def append_u16_def append_u32_def append_u64_def)

text \<open>Bytes shifted apart add up without carries.\<close>

lemma add_shifted:
  fixes a :: "'a::len word"
  assumes "\<And>n. k \<le> n \<Longrightarrow> \<not> bit a n"
  shows "a + push_bit k b = a OR push_bit k b"
  by (rule disjunctive_add_eq_or) (use assms in \<open>auto simp: bit_eq_iff bit_simps\<close>)

lemma extract_append_u8: "extract_u8 (append_u8 v @ bs) = v"
  by (simp add: extract_u8_def append_u8_def)

lemma extract_append_u16: "extract_u16 (append_u16 v @ bs) = v"
  unfolding extract_u16_def append_u16_bytes
  by (simp add: add_shifted bit_simps) (rule bit_word_eqI, auto simp: bit_simps)

lemma extract_append_u32: "extract_u32 (append_u32 v @ bs) = v"
proof -
  have "extract_u32 (append_u32 v @ bs) = ucast (ucast v :: u8) OR push_bit 8 (ucast (ucast (drop_bit 8 v) :: u8))
     OR push_bit 16 (ucast (ucast (drop_bit 16 v) :: u8)) OR push_bit 24 (ucast (ucast (drop_bit 24 v) :: u8))"
    unfolding extract_u32_def append_u32_bytes
    by (subst add_shifted, (auto simp: bit_simps)[1])+ (simp add: or.assoc)
  also have "\<dots> = v"
  proof (rule bit_word_eqI)
    fix n :: nat
    assume "n < LENGTH(32)"
    then show "bit ((ucast (ucast v :: u8) :: u32) OR push_bit 8 (ucast (ucast (drop_bit 8 v) :: u8))
     OR push_bit 16 (ucast (ucast (drop_bit 16 v) :: u8)) OR push_bit 24 (ucast (ucast (drop_bit 24 v) :: u8))) n = bit v n"
      by (cases "24 \<le> n"; cases "16 \<le> n") (auto simp: bit_simps)
  qed
  finally show ?thesis .
qed

lemma extract_append_u64: "extract_u64 (append_u64 v @ bs) = v"
proof -
  have "drop 4 (append_u64 v @ bs) = append_u32 (ucast v) @ bs"
    by (simp add: append_u64_def)
  then have "extract_u64 (append_u64 v @ bs) = ucast (ucast v :: u32) + push_bit 32 (ucast (ucast (drop_bit 32 v) :: u32))"
    by (simp add: extract_u64_def append_u64_def extract_append_u32 Let_def)
  also have "\<dots> = v"
    by (simp add: add_shifted bit_simps) (rule bit_word_eqI, auto simp: bit_simps)
  finally show ?thesis .
qed

section \<open>Values of the protocol\<close>

text \<open>
  The types with an \<open>append\<close> and an \<open>extract\<close>. Signed integers are kept as the words they are
  reinterpreted as, floating-point numbers as the bit patterns \<open>pseudo_cast\<close> copies.
\<close>

datatype scalar =
    UInt8 u8 | Int8 u8 | UInt16 u16 | Int16 u16 | UInt32 u32 | Int32 u32 | UInt64 u64 | Int64 u64
  | Float u32 | Double u64 | ComplexFloat u32 u32 | ComplexDouble u64 u64 | Bool bool

datatype scalar_type =
    TUInt8 | TInt8 | TUInt16 | TInt16 | TUInt32 | TInt32 | TUInt64 | TInt64
  | TFloat | TDouble | TComplexFloat | TComplexDouble | TBool

fun type_of :: "scalar \<Rightarrow> scalar_type" where
  "type_of (UInt8 _) = TUInt8" | "type_of (Int8 _) = TInt8"
| "type_of (UInt16 _) = TUInt16" | "type_of (Int16 _) = TInt16"
| "type_of (UInt32 _) = TUInt32" | "type_of (Int32 _) = TInt32"
| "type_of (UInt64 _) = TUInt64" | "type_of (Int64 _) = TInt64"
| "type_of (Float _) = TFloat" | "type_of (Double _) = TDouble"
| "type_of (ComplexFloat _ _) = TComplexFloat" | "type_of (ComplexDouble _ _) = TComplexDouble"
| "type_of (Bool _) = TBool"

fun size_of :: "scalar_type \<Rightarrow> nat" where
  "size_of TUInt8 = 1" | "size_of TInt8 = 1" | "size_of TUInt16 = 2" | "size_of TInt16 = 2"
| "size_of TUInt32 = 4" | "size_of TInt32 = 4" | "size_of TUInt64 = 8" | "size_of TInt64 = 8"
| "size_of TFloat = 4" | "size_of TDouble = 8"
| "size_of TComplexFloat = 2 * 4" | "size_of TComplexDouble = 2 * 8" | "size_of TBool = 1"

fun append_scalar :: "scalar \<Rightarrow> u8 list" where
  "append_scalar (UInt8 v) = append_u8 v" | "append_scalar (Int8 v) = append_u8 v"
| "append_scalar (UInt16 v) = append_u16 v" | "append_scalar (Int16 v) = append_u16 v"
| "append_scalar (UInt32 v) = append_u32 v" | "append_scalar (Int32 v) = append_u32 v"
| "append_scalar (UInt64 v) = append_u64 v" | "append_scalar (Int64 v) = append_u64 v"
| "append_scalar (Float v) = append_u32 v" | "append_scalar (Double v) = append_u64 v"
| "append_scalar (ComplexFloat r i) = append_u32 r @ append_u32 i"
| "append_scalar (ComplexDouble r i) = append_u64 r @ append_u64 i"
| "append_scalar (Bool b) = [if b then 1 else 0]"

fun extract_scalar :: "scalar_type \<Rightarrow> u8 list \<Rightarrow> scalar" where
  "extract_scalar TUInt8 buff = UInt8 (extract_u8 buff)" | "extract_scalar TInt8 buff = Int8 (extract_u8 buff)"
| "extract_scalar TUInt16 buff = UInt16 (extract_u16 buff)" | "extract_scalar TInt16 buff = Int16 (extract_u16 buff)"
| "extract_scalar TUInt32 buff = UInt32 (extract_u32 buff)" | "extract_scalar TInt32 buff = Int32 (extract_u32 buff)"
| "extract_scalar TUInt64 buff = UInt64 (extract_u64 buff)" | "extract_scalar TInt64 buff = Int64 (extract_u64 buff)"
| "extract_scalar TFloat buff = Float (extract_u32 buff)" | "extract_scalar TDouble buff = Double (extract_u64 buff)"
| "extract_scalar TComplexFloat buff = ComplexFloat (extract_u32 buff) (extract_u32 (drop 4 buff))"
| "extract_scalar TComplexDouble buff = ComplexDouble (extract_u64 buff) (extract_u64 (drop 8 buff))"
| "extract_scalar TBool buff = Bool (buff ! 0 = 1)"

lemma length_append_scalar [simp]: "length (append_scalar v) = size_of (type_of v)"
  by (cases v) simp_all

lemma extract_append_scalar [simp]: "extract_scalar (type_of v) (append_scalar v @ bs) = v"
  by (cases v) (simp_all add: extract_append_u8 extract_append_u16 extract_append_u32 extract_append_u64)

section \<open>Tuples\<close>

fun required_buffer_size :: "scalar_type list \<Rightarrow> nat" where
  "required_buffer_size [] = 0"
| "required_buffer_size (t # ts) = size_of t + required_buffer_size ts"

fun deserialize :: "nat \<Rightarrow> scalar_type list \<Rightarrow> u8 list \<Rightarrow> scalar list" where
  "deserialize position [] buff = []"
| "deserialize position (t # ts) buff =
     extract_scalar t (drop position buff) # deserialize (position + size_of t) ts buff"

text \<open>Writing bytes at a position of a buffer, in place.\<close>

definition store :: "nat \<Rightarrow> 'a list \<Rightarrow> 'a list \<Rightarrow> 'a list" where
  "store pos bs buff = take pos buff @ bs @ drop (pos + length bs) buff"

fun serialize_at :: "nat \<Rightarrow> scalar list \<Rightarrow> u8 list \<Rightarrow> u8 list" where
  "serialize_at buff_pos [] buff = buff"
| "serialize_at buff_pos (v # vs) buff =
     serialize_at (buff_pos + size_of (type_of v)) vs (store buff_pos (append_scalar v) buff)"

text \<open>
  The array \<open>serialize\<close> returns starts uninitialised: \<open>arr\<close> is what happens to be there.
\<close>

definition serialize :: "u8 list \<Rightarrow> scalar list \<Rightarrow> u8 list" where
  "serialize arr vs = serialize_at 0 vs arr"

lemma length_concat_append [simp]:
  "length (concat (map append_scalar vs)) = required_buffer_size (map type_of vs)"
  by (induction vs) auto

lemma serialize_at_eq:
  assumes "length buff = pos + required_buffer_size (map type_of vs)"
  shows "serialize_at pos vs buff = take pos buff @ concat (map append_scalar vs)"
  using assms
proof (induction vs arbitrary: pos buff)
  case Nil
  then show ?case by simp
next
  case (Cons v vs)
  then show ?case by (simp add: store_def)
qed

lemma serialize_eq:
  "length arr = required_buffer_size (map type_of vs) \<Longrightarrow> serialize arr vs = concat (map append_scalar vs)"
  by (simp add: serialize_def serialize_at_eq)

lemma deserialize_concat:
  "deserialize (length pref) (map type_of vs) (pref @ concat (map append_scalar vs) @ suf) = vs"
proof (induction vs arbitrary: pref)
  case Nil
  then show ?case by simp
next
  case (Cons v vs)
  from Cons.IH [of "pref @ append_scalar v"] show ?case by simp
qed

text \<open>
  C18. \<open>deserialize\<close> inverts \<open>serialize\<close> for every tuple of values, whatever the uninitialised array
  held, at any position of a larger buffer: no value is read as another.
\<close>

theorem serialize_roundtrip:
  assumes "length arr = required_buffer_size (map type_of vs)"
  shows "deserialize (length pref) (map type_of vs) (pref @ serialize arr vs @ suf) = vs"
  using deserialize_concat [of pref vs suf] assms by (simp add: serialize_eq)

theorem serialize_roundtrip_witness:
  "deserialize 1 [TUInt16, TBool, TInt64] ([9] @ serialize (replicate 11 0xAA) [UInt16 0x1234, Bool True, Int64 (- 2)] @ [7]) =
     [UInt16 0x1234, Bool True, Int64 (- 2)]"
  using serialize_roundtrip [of "replicate 11 0xAA" "[UInt16 0x1234, Bool True, Int64 (- 2)]" "[9]" "[7]"]
  by (simp del: deserialize.simps)

section \<open>Building a command\<close>

text \<open>
  The arguments of a command: a scalar, a dynamic container (\<open>vector\<close>, \<open>string\<close>) and a
  \<open>std::array\<close> as the bytes their elements occupy, a C string as its characters.
\<close>

datatype argument = Scalar scalar | Container "u8 list" | Array "u8 list" | CString "u8 list"

text \<open>
  \<open>DynamicSerializer\<close>: \<open>scal_data\<close> is an array of \<open>SCALAR_PACK_LEN\<close> bytes in which scalars wait
  for the next container or the end. Nothing checks that they fit: writing past the array has no
  result.
\<close>

record dynamic_serializer =
  scal_data :: "u8 list"
  scal_size :: nat

definition append_pack :: "scalar \<Rightarrow> dynamic_serializer \<Rightarrow> dynamic_serializer option" where
  "append_pack t ds =
     (if scal_size ds + size_of (type_of t) \<le> length (scal_data ds)
      then Some (ds\<lparr>scal_data := store (scal_size ds) (append_scalar t) (scal_data ds),
                    scal_size := scal_size ds + size_of (type_of t)\<rparr>)
      else None)"

definition dump_scalar_pack :: "u8 list \<times> dynamic_serializer \<Rightarrow> u8 list \<times> dynamic_serializer" where
  "dump_scalar_pack = (\<lambda>(buffer, ds).
     if scal_size ds > 0
     then (buffer @ take (scal_size ds) (scal_data ds), ds\<lparr>scal_size := 0\<rparr>) else (buffer, ds))"

definition dump_container_to_buffer :: "u8 list \<Rightarrow> u8 list \<times> dynamic_serializer \<Rightarrow> u8 list \<times> dynamic_serializer" where
  "dump_container_to_buffer bytes = (\<lambda>(buffer, ds).
     (let n_bytes = (of_nat (length bytes) :: u32);
          buffer = buffer @ append_u32 n_bytes
      in (if n_bytes > 0 then buffer @ take (unat n_bytes) bytes else buffer, ds)))"

definition dump_array_to_buffer :: "u8 list \<Rightarrow> u8 list \<times> dynamic_serializer \<Rightarrow> u8 list \<times> dynamic_serializer" where
  "dump_array_to_buffer bytes = (\<lambda>(buffer, ds).
     (if length bytes > 0 then buffer @ bytes else buffer, ds))"

fun command_serializer ::
  "argument list \<Rightarrow> u8 list \<times> dynamic_serializer \<Rightarrow> (u8 list \<times> dynamic_serializer) option" where
  "command_serializer [] s = Some s"
| "command_serializer (Scalar t # args) (buffer, ds) =
     Option.bind (append_pack t ds) (\<lambda>ds. command_serializer args (buffer, ds))"
| "command_serializer (Container bytes # args) s =
     command_serializer args (dump_container_to_buffer bytes (dump_scalar_pack s))"
| "command_serializer (Array bytes # args) s =
     command_serializer args (dump_array_to_buffer bytes (dump_scalar_pack s))"
| "command_serializer (CString chars # args) s =
     command_serializer args (dump_container_to_buffer chars (dump_scalar_pack s))"

definition build_command ::
  "u16 \<Rightarrow> u16 \<Rightarrow> argument list \<Rightarrow> dynamic_serializer \<Rightarrow> (u8 list \<times> dynamic_serializer) option" where
  "build_command class_id func_id args ds =
     (let header = serialize (replicate 8 0) [UInt32 0, UInt16 class_id, UInt16 func_id]
      in if args = [] then Some (header, ds)
         else map_option dump_scalar_pack (command_serializer args (header, ds\<lparr>scal_size := 0\<rparr>)))"

text \<open>
  The reference encoding: every argument in order, a length before a container, no packing. The
  scalars between two containers must fit the array.
\<close>

fun argument_bytes :: "argument \<Rightarrow> u8 list" where
  "argument_bytes (Scalar t) = append_scalar t"
| "argument_bytes (Container bytes) = append_u32 (of_nat (length bytes)) @ bytes"
| "argument_bytes (Array bytes) = bytes"
| "argument_bytes (CString chars) = append_u32 (of_nat (length chars)) @ chars"

definition command_bytes :: "u16 \<Rightarrow> u16 \<Rightarrow> argument list \<Rightarrow> u8 list" where
  "command_bytes class_id func_id args =
     append_u32 0 @ append_u16 class_id @ append_u16 func_id @ concat (map argument_bytes args)"

fun packs_fit :: "nat \<Rightarrow> nat \<Rightarrow> argument list \<Rightarrow> bool" where
  "packs_fit len n [] \<longleftrightarrow> True"
| "packs_fit len n (Scalar t # args) \<longleftrightarrow>
     n + size_of (type_of t) \<le> len \<and> packs_fit len (n + size_of (type_of t)) args"
| "packs_fit len n (_ # args) \<longleftrightarrow> packs_fit len 0 args"

fun argument_ok :: "argument \<Rightarrow> bool" where
  "argument_ok (Scalar t) \<longleftrightarrow> True"
| "argument_ok (Array bytes) \<longleftrightarrow> True"
| "argument_ok (Container bytes) \<longleftrightarrow> length bytes < 2 ^ 32"
| "argument_ok (CString chars) \<longleftrightarrow> length chars < 2 ^ 32"

lemma dump_container_eq:
  "length bytes < 2 ^ 32 \<Longrightarrow>
     dump_container_to_buffer bytes (buffer, ds) = (buffer @ append_u32 (of_nat (length bytes)) @ bytes, ds)"
  by (auto simp: dump_container_to_buffer_def Let_def unat_of_nat_small word_gt_0 word_unat_eq_iff)

lemma dump_array_eq: "dump_array_to_buffer bytes (buffer, ds) = (buffer @ bytes, ds)"
  by (simp add: dump_array_to_buffer_def)

lemma dump_scalar_pack_eq:
  "scal_size ds \<le> length (scal_data ds) \<Longrightarrow> dump_scalar_pack (buffer, ds) =
     (buffer @ take (scal_size ds) (scal_data ds), ds\<lparr>scal_size := 0\<rparr>)"
  by (cases ds) (auto simp: dump_scalar_pack_def)

lemma append_pack_eq:
  assumes "scal_size ds + size_of (type_of t) \<le> length (scal_data ds)"
  obtains ds' where "append_pack t ds = Some ds'" "scal_size ds' = scal_size ds + size_of (type_of t)"
    "length (scal_data ds') = length (scal_data ds)"
    "take (scal_size ds') (scal_data ds') = take (scal_size ds) (scal_data ds) @ append_scalar t"
proof
  show "append_pack t ds = Some (ds\<lparr>scal_data := store (scal_size ds) (append_scalar t) (scal_data ds),
      scal_size := scal_size ds + size_of (type_of t)\<rparr>)"
    using assms by (simp add: append_pack_def)
qed (use assms in \<open>simp_all add: store_def\<close>)

lemma command_serializer_eq:
  assumes "\<forall>a\<in>set args. argument_ok a" "scal_size ds \<le> length (scal_data ds)"
  shows "map_option (fst \<circ> dump_scalar_pack) (command_serializer args (buffer, ds)) =
    (if packs_fit (length (scal_data ds)) (scal_size ds) args
     then Some (buffer @ take (scal_size ds) (scal_data ds) @ concat (map argument_bytes args)) else None)"
  using assms
proof (induction args arbitrary: buffer ds)
  case Nil
  then show ?case by (simp add: dump_scalar_pack_eq)
next
  case (Cons a args)
  have IH: "map_option (fst \<circ> dump_scalar_pack) (command_serializer args (b, d)) =
    (if packs_fit (length (scal_data d)) (scal_size d) args
     then Some (b @ take (scal_size d) (scal_data d) @ concat (map argument_bytes args)) else None)"
    if "scal_size d \<le> length (scal_data d)" for b d
    using Cons.prems(1) that by (intro Cons.IH) auto
  show ?case
  proof (cases a)
    case (Scalar t)
    show ?thesis
    proof (cases "scal_size ds + size_of (type_of t) \<le> length (scal_data ds)")
      case True
      then obtain ds' where "append_pack t ds = Some ds'" "scal_size ds' = scal_size ds + size_of (type_of t)"
        "length (scal_data ds') = length (scal_data ds)"
        "take (scal_size ds') (scal_data ds') = take (scal_size ds) (scal_data ds) @ append_scalar t"
        by (rule append_pack_eq)
      with True Scalar IH [of ds' buffer] show ?thesis by (auto split: if_splits)
    next
      case False
      with Scalar show ?thesis by (simp add: append_pack_def)
    qed
  qed (use Cons.prems in \<open>simp_all add: dump_scalar_pack_eq dump_container_eq dump_array_eq IH [unfolded comp_def]
      del: map_option_eq_Some map_option_is_None\<close>)
qed

lemma header_eq: "serialize (replicate 8 0) [UInt32 0, UInt16 c, UInt16 f] = append_u32 0 @ append_u16 c @ append_u16 f"
  by (simp add: serialize_eq)

lemma build_command_bytes:
  assumes "\<forall>a\<in>set args. argument_ok a"
  shows "map_option fst (build_command class_id func_id args ds) =
    (if packs_fit (length (scal_data ds)) 0 args then Some (command_bytes class_id func_id args) else None)"
proof (cases "args = []")
  case True
  then show ?thesis by (simp add: build_command_def command_bytes_def header_eq)
next
  case False
  then show ?thesis
    using command_serializer_eq [of args "ds\<lparr>scal_size := 0\<rparr>" "append_u32 0 @ append_u16 class_id @ append_u16 func_id"] assms
    by (simp add: build_command_def command_bytes_def header_eq option.map_comp Let_def)
qed

lemma length_scal_data:
  "command_serializer args (buffer, ds) = Some (buffer', ds') \<Longrightarrow> length (scal_data ds') = length (scal_data ds)"
proof (induction args arbitrary: buffer ds)
  case Nil
  then show ?case by simp
next
  case (Cons a args)
  show ?case
  proof (cases a)
    case (Scalar t)
    with Cons.prems obtain d where d: "append_pack t ds = Some d" "command_serializer args (buffer, d) = Some (buffer', ds')"
      by (auto simp: bind_eq_Some_conv)
    from d(1) have "length (scal_data d) = length (scal_data ds)"
      by (auto simp: append_pack_def store_def split: if_splits)
    with Cons.IH [OF d(2)] show ?thesis by simp
  qed (use Cons in \<open>fastforce simp: dump_container_to_buffer_def dump_array_to_buffer_def dump_scalar_pack_def Let_def split: if_splits\<close>)+
qed

lemma build_command_keeps_pack:
  assumes "build_command class_id func_id args ds = Some (buffer, ds')"
  shows "length (scal_data ds') = length (scal_data ds)"
proof (cases "args = []")
  case True
  with assms show ?thesis by (simp add: build_command_def Let_def)
next
  case False
  with assms obtain b d where "command_serializer args (serialize (replicate 8 0) [UInt32 0, UInt16 class_id, UInt16 func_id], ds\<lparr>scal_size := 0\<rparr>) = Some (b, d)"
    "dump_scalar_pack (b, d) = (buffer, ds')"
    by (auto simp: build_command_def Let_def)
  then show ?thesis
    using length_scal_data by (fastforce simp: dump_scalar_pack_def split: if_splits)
qed

text \<open>
  C19. \<open>build_command\<close> with its pack of pending scalars writes exactly the reference encoding when
  no run of consecutive scalars is larger than the pack, whatever an earlier command left in it;
  a longer run writes past the end of the array.
\<close>

theorem build_command_encodes:
  assumes "\<forall>a\<in>set args. argument_ok a"
  shows "map_option fst (build_command class_id func_id args ds) =
    (if packs_fit (length (scal_data ds)) 0 args then Some (command_bytes class_id func_id args) else None)"
  using assms by (rule build_command_bytes)

text \<open>A pack of four bytes (1024 in the server) takes two 16-bit scalars and not three.\<close>

theorem build_command_encodes_witness:
  "map_option fst (build_command 2 5 [Scalar (UInt16 1), Scalar (UInt16 2), Container [7, 8], Scalar (UInt8 3)]
       \<lparr>scal_data = [0, 0, 0, 0], scal_size = 3\<rparr>) =
     Some [0, 0, 0, 0, 0, 2, 0, 5, 0, 1, 0, 2, 0, 0, 0, 2, 7, 8, 3] \<and>
   build_command 2 5 [Scalar (UInt16 1), Scalar (UInt16 2), Scalar (UInt16 3)]
       \<lparr>scal_data = [0, 0, 0, 0], scal_size = 0\<rparr> = None"
  using build_command_encodes [of "[Scalar (UInt16 1), Scalar (UInt16 2), Container [7, 8], Scalar (UInt8 3)]" 2 5
      "\<lparr>scal_data = [0, 0, 0, 0], scal_size = 3\<rparr>"]
    build_command_encodes [of "[Scalar (UInt16 1), Scalar (UInt16 2), Scalar (UInt16 3)]" 2 5
      "\<lparr>scal_data = [0, 0, 0, 0], scal_size = 0\<rparr>"]
  by (simp add: command_bytes_def append_u32_bytes append_u16_bytes append_u8_def)

section \<open>Receiving a command\<close>

text \<open>
  \<open>Buffer<len>\<close>: its bytes and the position of the next read. The reads of arrays, vectors and
  strings go through a bare pointer: a read past the end of the array has no result.
\<close>

record buffer =
  bdata :: "u8 list"
  position :: nat

definition buffer_deserialize :: "scalar_type list \<Rightarrow> buffer \<Rightarrow> (scalar list \<times> buffer) option" where
  "buffer_deserialize ts b =
     (if position b + required_buffer_size ts \<le> length (bdata b)
      then Some (deserialize (position b) ts (bdata b), b\<lparr>position := position b + required_buffer_size ts\<rparr>)
      else None)"

definition buffer_bytes :: "nat \<Rightarrow> buffer \<Rightarrow> (u8 list \<times> buffer) option" where
  "buffer_bytes n b =
     (if position b + n \<le> length (bdata b)
      then Some (take n (drop (position b) (bdata b)), b\<lparr>position := position b + n\<rparr>) else None)"

abbreviation (input) CMD_PAYLOAD_BUFFER_LEN :: nat where "CMD_PAYLOAD_BUFFER_LEN \<equiv> 16384 * 16"

text \<open>
  What a driver's generated code asks the session for: scalars by \<open>deserialize\<close>, arrays, vectors
  of \<open>sizeof(T)\<close>-byte elements and strings by \<open>recv\<close>. \<open>Inl (-1)\<close> is the error return.
\<close>

definition ws_recv_array :: "nat \<Rightarrow> buffer \<Rightarrow> (u8 list \<times> buffer) option" where
  "ws_recv_array n b = buffer_bytes n b"

definition ws_recv_vector :: "nat \<Rightarrow> buffer \<Rightarrow> ((int + u8 list) \<times> buffer) option" where
  "ws_recv_vector sizeof_T b =
     Option.bind (buffer_deserialize [TUInt32] b) (\<lambda>(vs, b).
       let len = (case vs of [UInt32 n] \<Rightarrow> unat n | _ \<Rightarrow> 0)
       in if len > CMD_PAYLOAD_BUFFER_LEN then Some (Inl (- 1), b)
          else map_option (apfst Inr) (buffer_bytes (len div sizeof_T * sizeof_T) b))"

definition ws_recv_string :: "buffer \<Rightarrow> ((int + u8 list) \<times> buffer) option" where
  "ws_recv_string b =
     Option.bind (buffer_deserialize [TUInt32] b) (\<lambda>(vs, b).
       let len = (case vs of [UInt32 n] \<Rightarrow> unat n | _ \<Rightarrow> 0)
       in if len > CMD_PAYLOAD_BUFFER_LEN then Some (Inl (- 1), b)
          else map_option (apfst Inr) (buffer_bytes len b))"

definition at_bytes :: "u8 list \<Rightarrow> buffer \<Rightarrow> bool" where
  "at_bytes bs b \<longleftrightarrow> (\<exists>pref suf. bdata b = pref @ bs @ suf \<and> length pref = position b)"

lemma at_bytes_length: "at_bytes bs b \<Longrightarrow> position b + length bs \<le> length (bdata b)"
  by (auto simp: at_bytes_def)

lemma at_bytes_advance:
  assumes "at_bytes (xs @ ys) b" shows "at_bytes ys (b\<lparr>position := position b + length xs\<rparr>)"
proof -
  from assms obtain pref suf where "bdata b = (pref @ xs) @ ys @ suf" "length (pref @ xs) = position b + length xs"
    by (auto simp: at_bytes_def)
  then show ?thesis unfolding at_bytes_def by (intro exI [of _ "pref @ xs"] exI [of _ suf]) simp
qed

lemma buffer_bytes_at:
  "at_bytes (xs @ ys) b \<Longrightarrow>
     buffer_bytes (length xs) b = Some (xs, b\<lparr>position := position b + length xs\<rparr>)"
  by (auto simp: buffer_bytes_def at_bytes_def)

lemma buffer_deserialize_at:
  "at_bytes (append_scalar v @ ys) b \<Longrightarrow>
     buffer_deserialize [type_of v] b = Some ([v], b\<lparr>position := position b + length (append_scalar v)\<rparr>)"
  by (auto simp: buffer_deserialize_def at_bytes_def)

lemma buffer_deserialize_length:
  assumes "at_bytes (append_u32 n @ ys) b"
  shows "buffer_deserialize [TUInt32] b = Some ([UInt32 n], b\<lparr>position := position b + 4\<rparr>)"
    "at_bytes ys (b\<lparr>position := position b + 4\<rparr>)"
  using buffer_deserialize_at [of "UInt32 n" ys b] at_bytes_advance [of "append_u32 n" ys b] assms by simp_all

text \<open>
  C20. The bound \<open>Session<WEBSOCK>::recv\<close> puts on a length is that of the whole payload buffer: a
  length that fits the buffer but not what is left of it after the length word is accepted, and the
  copy runs past the end of the array.
\<close>

theorem recv_string_overreads:
  assumes "at_bytes (append_u32 n @ ys) b" "length (bdata b) = CMD_PAYLOAD_BUFFER_LEN"
    and "CMD_PAYLOAD_BUFFER_LEN < position b + 4 + unat n" "unat n \<le> CMD_PAYLOAD_BUFFER_LEN"
  shows "ws_recv_string b = None \<and> ws_recv_vector 1 b = None"
  using assms buffer_deserialize_length [OF assms(1)]
  by (simp_all add: ws_recv_string_def ws_recv_vector_def buffer_bytes_def)

theorem recv_string_overreads_witness:
  "ws_recv_string \<lparr>bdata = append_u32 0x40000 @ replicate 262140 0, position = 0\<rparr> = None"
  using recv_string_overreads [of "0x40000" "[]" "\<lparr>bdata = append_u32 0x40000 @ replicate 262140 0, position = 0\<rparr>"]
  by (auto simp: at_bytes_def)

end
