(* ===== verification/Websocket.thy ===== *)
theory Websocket
  imports Serializer
begin

text \<open>
  The WebSocket endpoint of the Koheron server (\<open>websocket.cpp\<close>): reading a client frame from the
  socket in as many pieces as the kernel hands out, decoding and unmasking it into a command, and
  sending a frame. The socket is a parameter: \<open>rd e n\<close> is \<open>read(comm_fd, p, n)\<close>, with \<open>None\<close> for
  a negative result and \<open>Some []\<close> for a connection closed by the client; \<open>wr e bs\<close> is \<open>write\<close>.
\<close>

section \<open>Sockets\<close>

type_synonym 'e reader = "'e \<Rightarrow> nat \<Rightarrow> u8 list option \<times> 'e"
type_synonym 'e writer = "'e \<Rightarrow> u8 list \<Rightarrow> int \<times> 'e"

text \<open>
  What POSIX promises of a stream socket with data pending, and of one that accepts data: some of
  it is transferred, in order, and never more than asked for.
\<close>

definition byte_source :: "'e reader \<Rightarrow> ('e \<Rightarrow> u8 list) \<Rightarrow> bool" where
  "byte_source rd pending \<longleftrightarrow> (\<forall>e n. pending e \<noteq> [] \<longrightarrow> 0 < n \<longrightarrow>
     (\<exists>bs e'. rd e n = (Some bs, e') \<and> bs \<noteq> [] \<and> length bs \<le> n \<and> pending e = bs @ pending e'))"

definition byte_sink :: "'e writer \<Rightarrow> ('e \<Rightarrow> u8 list) \<Rightarrow> bool" where
  "byte_sink wr sent \<longleftrightarrow> (\<forall>e bs. bs \<noteq> [] \<longrightarrow>
     (\<exists>n e'. wr e bs = (int n, e') \<and> 0 < n \<and> n \<le> length bs \<and> sent e' = sent e @ take n bs))"

section \<open>State\<close>

abbreviation (input) WEBSOCK_READ_STR_LEN :: nat where "WEBSOCK_READ_STR_LEN \<equiv> 16384 * 16"
abbreviation (input) WEBSOCK_SEND_BUF_LEN :: nat where "WEBSOCK_SEND_BUF_LEN \<equiv> 16384 * 16"
abbreviation (input) KOHERON_READ_STR_LEN :: nat where "KOHERON_READ_STR_LEN \<equiv> 16384"

record 'e websocket =
  comm_fd :: 'e
  read_str_len :: nat
  read_str :: "nat \<Rightarrow> u8"
  header_size :: nat
  mask_offset :: nat
  payload_size :: int
  fin :: bool
  masked :: bool
  opcode :: u8
  connection_closed :: bool

text \<open>The two buffers of a \<open>Command\<close> the WebSocket fills.\<close>

record command =
  cmd_header :: "nat \<Rightarrow> u8"
  cmd_payload :: "nat \<Rightarrow> u8"

section \<open>Reading\<close>

definition reset_read_buff :: "'e websocket \<Rightarrow> 'e websocket" where
  "reset_read_buff ws =
     ws\<lparr>read_str := (\<lambda>i. if i < read_str_len ws then 0 else read_str ws i), read_str_len := 0\<rparr>"

text \<open>Bytes received are stored behind those already there.\<close>

definition put_read :: "u8 list \<Rightarrow> 'e websocket \<Rightarrow> 'e websocket" where
  "put_read bs ws = ws\<lparr>
     read_str := (\<lambda>i. if read_str_len ws \<le> i \<and> i < read_str_len ws + length bs
                      then bs ! (i - read_str_len ws) else read_str ws i),
     read_str_len := read_str_len ws + length bs\<rparr>"

text \<open>
  The inner loop of \<open>read_n_bytes\<close>, on its local variables. A read that leaves \<open>read_str\<close> has no
  result.
\<close>

function read_inner ::
  "'e reader \<Rightarrow> int \<Rightarrow> int \<Rightarrow> int \<Rightarrow> 'e websocket \<Rightarrow> (int \<times> int \<times> int \<times> 'e websocket) option" where
  "read_inner rd remaining expected bytes_read ws =
     (if remaining > 0 then
        case rd (comm_fd ws) (nat remaining) of
          (None, e) \<Rightarrow> Some (remaining, expected, - 1, ws\<lparr>comm_fd := e\<rparr>)
        | (Some bs, e) \<Rightarrow>
            if bs = [] then Some (remaining, expected, 0, ws\<lparr>comm_fd := e\<rparr>)
            else if read_str_len ws + length bs > WEBSOCK_READ_STR_LEN then None
            else read_inner rd (remaining - int (length bs)) (max 0 (expected - int (length bs)))
                   (int (length bs)) (put_read bs (ws\<lparr>comm_fd := e\<rparr>))
      else Some (remaining, expected, bytes_read, ws))"
  by auto

termination
  by (relation "measure (\<lambda>(_, remaining, _). nat remaining)") (auto simp: length_greater_0_conv [symmetric] simp del: length_greater_0_conv)

declare read_inner.simps [simp del]

text \<open>The outer loop has no exit for a read error: it asks again.\<close>

partial_function (option) read_outer ::
  "'e reader \<Rightarrow> int \<Rightarrow> int \<Rightarrow> int \<Rightarrow> 'e websocket \<Rightarrow> (int \<times> 'e websocket) option" where
  "read_outer rd remaining expected bytes_read ws =
     (if expected > 0 then
        Option.bind (read_inner rd remaining expected bytes_read ws)
          (\<lambda>(remaining, expected, bytes_read, ws).
             if bytes_read = 0 then Some (1, ws\<lparr>connection_closed := True\<rparr>)
             else if read_str_len ws = KOHERON_READ_STR_LEN then Some (- 1, ws)
             else read_outer rd remaining expected bytes_read ws)
      else Some (0, ws))"

definition read_n_bytes :: "'e reader \<Rightarrow> int \<Rightarrow> int \<Rightarrow> 'e websocket \<Rightarrow> (int \<times> 'e websocket) option" where
  "read_n_bytes rd bytes expected ws = read_outer rd bytes expected (- 1) ws"

definition check_opcode :: "u8 \<Rightarrow> int" where
  "check_opcode op = (if op = 0x1 \<or> op = 0x2 then 0 else if op = 0x8 then 1 else - 1)"

definition set_sizes :: "nat \<Rightarrow> int \<Rightarrow> nat \<Rightarrow> 'e websocket \<Rightarrow> 'e websocket" where
  "set_sizes hs ps mo ws = ws\<lparr>header_size := hs, payload_size := ps, mask_offset := mo\<rparr>"

text \<open>
  The length of the payload, once the first six bytes are there. \<open>memcpy\<close> with \<open>ntohs\<close> and
  \<open>be64toh\<close> read the length in network order.
\<close>

definition read_stream_size :: "'e reader \<Rightarrow> u8 \<Rightarrow> 'e websocket \<Rightarrow> (int \<times> bool \<times> 'e websocket) option" where
  "read_stream_size rd stream_size ws =
     (if stream_size \<le> 125 then Some (0, True, set_sizes 6 (uint stream_size) 2 ws)
      else if stream_size = 126 then
        Option.bind (read_n_bytes rd 2 2 ws) (\<lambda>(err, ws).
          if err < 0 then Some (- 1, False, ws)
          else if connection_closed ws then Some (0, False, ws)
          else Some (0, True, set_sizes 8 (uint (extract_u16 [read_str ws 2, read_str ws 3])) 4 ws))
      else if stream_size = 127 then
        Option.bind (read_n_bytes rd 8 8 ws) (\<lambda>(err, ws).
          if err < 0 then Some (- 1, False, ws)
          else if connection_closed ws then Some (0, False, ws)
          else Some (0, True, set_sizes 14 (sint (extract_u64 (map (read_str ws) [2..<10]))) 10 ws))
      else Some (- 1, False, ws))"

definition read_header :: "'e reader \<Rightarrow> 'e websocket \<Rightarrow> (int \<times> 'e websocket) option" where
  "read_header rd ws =
     Option.bind (read_n_bytes rd 6 6 ws) (\<lambda>(err, ws).
     if err < 0 then Some (- 1, ws)
     else if connection_closed ws then Some (0, ws)
     else
       let ws = ws\<lparr>fin := read_str ws 0 AND 0x80 \<noteq> 0, masked := read_str ws 1 AND 0x80 \<noteq> 0,
                   opcode := read_str ws 0 AND 0x0F\<rparr>;
           stream_size = read_str ws 1 AND 0x7F;
           opcode_err = check_opcode (opcode ws)
       in if opcode_err < 0 then Some (- 1, ws)
          else if opcode_err = 1 then Some (opcode_err, ws\<lparr>connection_closed := True\<rparr>)
          else Option.bind (read_stream_size rd stream_size ws) (\<lambda>(r, sized, ws).
            if \<not> sized then Some (r, ws)
            else if payload_size ws > int WEBSOCK_READ_STR_LEN - 56 then Some (- 1, ws)
            else Some (0, ws)))"

definition read_stream :: "'e reader \<Rightarrow> 'e websocket \<Rightarrow> (int \<times> 'e websocket) option" where
  "read_stream rd ws =
     Option.bind (read_header rd (reset_read_buff ws)) (\<lambda>(read_head_err, ws).
     if read_head_err < 0 then Some (- 1, ws)
     else if read_head_err = 1 then Some (read_head_err, ws)
     else Option.bind (read_n_bytes rd (payload_size ws) (payload_size ws) ws) (\<lambda>(err, ws).
       if err < 0 then Some (- 1, ws) else Some (err, ws)))"

definition decode_raw_stream_cmd :: "command \<Rightarrow> 'e websocket \<Rightarrow> int \<times> command" where
  "decode_raw_stream_cmd cmd ws =
     (if read_str_len ws < header_size ws + 1 then (- 1, cmd)
      else
        let plain = (\<lambda>i. read_str ws (mask_offset ws + 4 + i) XOR read_str ws (mask_offset ws + i mod 4))
        in (0, cmd\<lparr>cmd_header := (\<lambda>i. if i < 8 then plain i else cmd_header cmd i),
                   cmd_payload := (\<lambda>i. if int i + 8 < payload_size ws then plain (i + 8)
                                       else cmd_payload cmd i)\<rparr>))"

text \<open>\<open>decode_raw_stream\<close>, which unmasks the payload in place.\<close>

definition decode_raw_stream :: "'e websocket \<Rightarrow> int \<times> 'e websocket" where
  "decode_raw_stream ws =
     (if read_str_len ws < header_size ws + 1 then (- 1, ws)
      else (0, ws\<lparr>read_str := (\<lambda>j.
        if mask_offset ws + 4 \<le> j \<and> int j < int (mask_offset ws) + 4 + payload_size ws
        then read_str ws j XOR read_str ws (mask_offset ws + (j - (mask_offset ws + 4)) mod 4)
        else read_str ws j)\<rparr>))"

definition receive_cmd ::
  "'e reader \<Rightarrow> command \<Rightarrow> 'e websocket \<Rightarrow> (int \<times> command \<times> 'e websocket) option" where
  "receive_cmd rd cmd ws =
     (if connection_closed ws then Some (0, cmd, ws)
      else Option.bind (read_stream rd ws) (\<lambda>(err, ws).
        if err < 0 then Some (- 1, cmd, ws)
        else if err = 1 then Some (0, cmd, ws)
        else case decode_raw_stream_cmd cmd ws of
          (r, cmd) \<Rightarrow> if r < 0 then Some (- 1, cmd, ws) else Some (payload_size ws, cmd, ws)))"

section \<open>Sending\<close>

definition set_send_header :: "int \<Rightarrow> u8 \<Rightarrow> u8 list" where
  "set_send_header data_len frame_format =
     (if data_len \<le> 125 then [frame_format, word_of_int data_len]
      else if data_len \<le> 0xFFFF
      then [frame_format, 126, word_of_int (drop_bit 8 data_len AND 0xFF), word_of_int (data_len AND 0xFF)]
      else [frame_format, 127, word_of_int (drop_bit 56 data_len AND 0xFF),
        word_of_int (drop_bit 48 data_len AND 0xFF), word_of_int (drop_bit 40 data_len AND 0xFF),
        word_of_int (drop_bit 32 data_len AND 0xFF), word_of_int (drop_bit 24 data_len AND 0xFF),
        word_of_int (drop_bit 16 data_len AND 0xFF), word_of_int (drop_bit 8 data_len AND 0xFF),
        word_of_int (data_len AND 0xFF)])"

text \<open>
  \<open>send_request\<close>: the loop on the bytes that remain, which ends with the result of the last
  \<open>write\<close>.
\<close>

function send_loop :: "'e writer \<Rightarrow> u8 list \<Rightarrow> int \<Rightarrow> 'e \<Rightarrow> int \<times> 'e" where
  "send_loop wr bits bytes_send e =
     (if bits \<noteq> [] then
        case wr e bits of (n, e) \<Rightarrow>
          if n > 0 then send_loop wr (drop (nat n) bits) n e else (n, e)
      else (bytes_send, e))"
  by auto

termination
  by (relation "measure (\<lambda>(_, bits, _). length bits)") (auto simp: length_greater_0_conv [symmetric] simp del: length_greater_0_conv)

declare send_loop.simps [simp del]

definition send_request :: "'e writer \<Rightarrow> u8 list \<Rightarrow> 'e websocket \<Rightarrow> int \<times> 'e websocket" where
  "send_request wr bits ws =
     (if connection_closed ws then (0, ws)
      else case send_loop wr bits 0 (comm_fd ws) of
        (bytes_send, e) \<Rightarrow>
          if bytes_send < 0 then (- 1, ws\<lparr>comm_fd := e, connection_closed := True\<rparr>)
          else (bytes_send, ws\<lparr>comm_fd := e\<rparr>))"

definition ws_exit :: "'e writer \<Rightarrow> 'e websocket \<Rightarrow> int \<times> 'e websocket" where
  "ws_exit wr ws = send_request wr (set_send_header 0 0x88) ws"

definition ws_send :: "'e writer \<Rightarrow> u8 list \<Rightarrow> 'e websocket \<Rightarrow> int \<times> 'e websocket" where
  "ws_send wr data ws =
     (if connection_closed ws then (0, ws)
      else if length data + 10 > WEBSOCK_SEND_BUF_LEN then (- 1, ws)
      else send_request wr (set_send_header (int (length data)) 0x82 @ data) ws)"

section \<open>Exact reads\<close>

lemma put_read_Nil [simp]: "put_read [] ws = ws"
  by (cases ws) (auto simp: put_read_def fun_eq_iff)

lemma put_read_append: "put_read ys (put_read xs ws) = put_read (xs @ ys) ws"
  by (cases ws) (auto simp: put_read_def nth_append fun_eq_iff)

lemma put_read_simps [simp]:
  "comm_fd (put_read bs ws) = comm_fd ws" "read_str_len (put_read bs ws) = read_str_len ws + length bs"
  "connection_closed (put_read bs ws) = connection_closed ws" "payload_size (put_read bs ws) = payload_size ws"
  "header_size (put_read bs ws) = header_size ws" "mask_offset (put_read bs ws) = mask_offset ws"
  by (simp_all add: put_read_def)

lemma put_read_comm_fd: "(put_read bs ws)\<lparr>comm_fd := e\<rparr> = put_read bs (ws\<lparr>comm_fd := e\<rparr>)"
  by (cases ws) (simp add: put_read_def cong: if_cong)

lemma byte_sourceE:
  assumes "byte_source rd pending" "pending e \<noteq> []" "0 < n"
  obtains bs e' where "rd e n = (Some bs, e')" "bs \<noteq> []" "length bs \<le> n" "pending e = bs @ pending e'"
  using assms unfolding byte_source_def by meson

lemma read_inner_exact:
  assumes "byte_source rd pending" "n \<le> length (pending (comm_fd ws))"
    "read_str_len ws + n \<le> WEBSOCK_READ_STR_LEN" "n = 0 \<longrightarrow> br > 0"
  shows "\<exists>e k. 0 < k \<and> pending e = drop n (pending (comm_fd ws)) \<and>
    read_inner rd (int n) (int n) br ws = Some (0, 0, k, put_read (take n (pending (comm_fd ws))) (ws\<lparr>comm_fd := e\<rparr>))"
  using assms(2-)
proof (induction n arbitrary: ws br rule: less_induct)
  case (less n)
  show ?case
  proof (cases "n = 0")
    case True
    with less.prems show ?thesis by (auto simp: read_inner.simps)
  next
    case False
    with less.prems have "pending (comm_fd ws) \<noteq> []" "0 < n" by auto
    then obtain bs e where b: "rd (comm_fd ws) n = (Some bs, e)" "bs \<noteq> []" "length bs \<le> n"
      "pending (comm_fd ws) = bs @ pending e"
      using byte_sourceE [OF assms(1)] by blast
    define ws' where "ws' = put_read bs (ws\<lparr>comm_fd := e\<rparr>)"
    have "n - length bs < n" using b by (cases bs) auto
    moreover have "n - length bs \<le> length (pending (comm_fd ws'))" "read_str_len ws' + (n - length bs) \<le> WEBSOCK_READ_STR_LEN"
      using less.prems b by (auto simp: ws'_def)
    ultimately obtain e' k where IH: "0 < k" "pending e' = drop (n - length bs) (pending e)"
      "read_inner rd (int (n - length bs)) (int (n - length bs)) (int (length bs)) ws' =
         Some (0, 0, k, put_read (take (n - length bs) (pending e)) (ws'\<lparr>comm_fd := e'\<rparr>))"
      using less.IH [of "n - length bs" ws' "int (length bs)"] b(2) by (auto simp: ws'_def)
    have "read_inner rd (int n) (int n) br ws =
      read_inner rd (int (n - length bs)) (int (n - length bs)) (int (length bs)) ws'"
      using b False less.prems by (subst read_inner.simps) (simp add: of_nat_diff ws'_def)
    with IH b show ?thesis
      by (auto simp: ws'_def put_read_append put_read_comm_fd)
  qed
qed

lemma read_n_bytes_exact:
  assumes "byte_source rd pending" "n \<le> length (pending (comm_fd ws))"
    "read_str_len ws + n \<le> WEBSOCK_READ_STR_LEN"
  obtains e where "pending e = drop n (pending (comm_fd ws))"
    "read_n_bytes rd (int n) (int n) ws =
       Some (if 0 < n \<and> read_str_len ws + n = KOHERON_READ_STR_LEN then - 1 else 0,
             put_read (take n (pending (comm_fd ws))) (ws\<lparr>comm_fd := e\<rparr>))"
proof (cases "n = 0")
  case True
  then show ?thesis by (intro that [of "comm_fd ws"]) (simp_all add: read_n_bytes_def read_outer.simps)
next
  case False
  with read_inner_exact [OF assms, of "- 1"] obtain e k where
    e: "0 < k" "pending e = drop n (pending (comm_fd ws))"
    "read_inner rd (int n) (int n) (- 1) ws = Some (0, 0, k, put_read (take n (pending (comm_fd ws))) (ws\<lparr>comm_fd := e\<rparr>))"
    by auto
  with False assms(2) show ?thesis
    by (intro that [of e]) (auto simp: read_n_bytes_def read_outer.simps)
qed

text \<open>A socket on which every read fails keeps the endpoint in its loop.\<close>

lemma read_inner_error:
  assumes "\<And>n. rd e n = (None, e)" "comm_fd ws = e" "remaining > 0"
  shows "read_inner rd remaining expected br ws = Some (remaining, expected, - 1, ws)"
  using assms by (subst read_inner.simps) simp

lemma read_outer_error:
  assumes "\<And>n. rd e n = (None, e)" "comm_fd ws = e" "remaining > 0" "expected > 0" "read_str_len ws \<noteq> KOHERON_READ_STR_LEN"
  shows "read_outer rd remaining expected br ws = None"
proof (rule ccontr)
  define P where "P = (\<lambda>(rd :: 'a reader) remaining expected (br :: int) (ws :: 'a websocket) (x :: int \<times> 'a websocket).
    \<not> ((\<forall>n. rd (comm_fd ws) n = (None, comm_fd ws)) \<and> remaining > (0 :: int) \<and> expected > (0 :: int) \<and>
       read_str_len ws \<noteq> KOHERON_READ_STR_LEN))"
  assume "read_outer rd remaining expected br ws \<noteq> None"
  then obtain x where "read_outer rd remaining expected br ws = Some x" by auto
  then have "P rd remaining expected br ws x"
  proof (rule read_outer.raw_induct [rotated])
    fix outer and rd :: "'a reader" and remaining expected br ws x
    assume IH: "\<And>rd r x b ws y. outer rd r x b ws = Some y \<Longrightarrow> P rd r x b ws y"
      and step: "(if expected > 0 then
        Option.bind (read_inner rd remaining expected br ws)
          (\<lambda>(remaining, expected, bytes_read, ws).
             if bytes_read = 0 then Some (1, ws\<lparr>connection_closed := True\<rparr>)
             else if read_str_len ws = KOHERON_READ_STR_LEN then Some (- 1, ws)
             else outer rd remaining expected bytes_read ws)
      else Some (0, ws)) = Some x"
    show "P rd remaining expected br ws x"
      unfolding P_def
    proof
      assume a: "(\<forall>n. rd (comm_fd ws) n = (None, comm_fd ws)) \<and> remaining > 0 \<and> expected > 0 \<and>
        read_str_len ws \<noteq> KOHERON_READ_STR_LEN"
      then have "outer rd remaining expected (- 1) ws = Some x"
        using step read_inner_error [of rd "comm_fd ws" ws remaining expected br] by simp
      from IH [OF this] a show False by (simp add: P_def)
    qed
  qed
  with assms show False by (simp add: P_def)
qed

section \<open>Frames\<close>

text \<open>The reference: a masked client frame and the unmasked server frame of RFC 6455.\<close>

definition frame_size :: "u8 \<Rightarrow> nat \<Rightarrow> u8 list" where
  "frame_size masked_bit n =
     (if n \<le> 125 then [masked_bit OR of_nat n]
      else if n < 2 ^ 16 then (masked_bit OR 126) # append_u16 (of_nat n)
      else (masked_bit OR 127) # append_u64 (of_nat n))"

definition ws_mask :: "u8 list \<Rightarrow> u8 list \<Rightarrow> u8 list" where
  "ws_mask key p = map (\<lambda>i. p ! i XOR key ! (i mod 4)) [0..<length p]"

definition client_frame :: "u8 \<Rightarrow> u8 list \<Rightarrow> u8 list \<Rightarrow> u8 list" where
  "client_frame op key p = (0x80 OR op) # frame_size 0x80 (length p) @ key @ ws_mask key p"

lemma length_ws_mask [simp]: "length (ws_mask key p) = length p"
  by (simp add: ws_mask_def)

definition client_header :: "nat \<Rightarrow> nat" where
  "client_header n = (if n \<le> 125 then 6 else if n < 2 ^ 16 then 8 else 14)"

lemma length_client_frame: "length key = 4 \<Longrightarrow> length (client_frame op key p) = client_header (length p) + length p"
  by (simp add: client_frame_def frame_size_def client_header_def)

lemma and_0x7F: "(0x80 OR x) AND 0x7F = (x :: u8)" if "unat x < 128"
proof -
  have "(0x7F :: u8) = mask 7" "take_bit 7 (0x80 :: u8) = 0"
    by (simp_all add: mask_eq_exp_minus_1)
  moreover have "take_bit 7 x = x"
    using that by (simp add: word_unat_eq_iff unsigned_take_bit_eq take_bit_nat_eq_self)
  ultimately show ?thesis
    by (simp only: take_bit_eq_mask [symmetric] take_bit_or) simp
qed

lemma opcode_nibble: "op = 1 \<or> op = 2 \<Longrightarrow> (0x80 OR op) AND 0x0F = (op :: u8)"
  by auto

text \<open>What the first six bytes of a frame and those after them look like.\<close>

lemma stream_size_cases:
  fixes n :: nat
  shows "n \<le> 125 \<Longrightarrow> (0x80 OR of_nat n :: u8) AND 0x7F = of_nat n \<and> (of_nat n :: u8) \<le> 125 \<and> uint (of_nat n :: u8) = int n"
    "((0x80 OR 126 :: u8) AND 0x7F) = 126" "((0x80 OR 127 :: u8) AND 0x7F) = 127"
  by (simp_all add: and_0x7F word_le_nat_alt unat_of_nat_small uint_nat)

lemma extract_size16: "n < 2 ^ 16 \<Longrightarrow> uint (extract_u16 (append_u16 (of_nat n))) = int n"
  using extract_append_u16 [of "of_nat n" "[]"] by (simp add: uint_nat unat_of_nat_small)

lemma extract_size64: "n < 2 ^ 63 \<Longrightarrow> sint (extract_u64 (append_u64 (of_nat n))) = int n"
  using extract_append_u64 [of "of_nat n" "[]"] by (simp add: sint_uint uint_nat unat_of_nat_small signed_take_bit_int_eq_self)

text \<open>The first \<open>k\<close> bytes of a frame have been read and the rest of it is pending.\<close>

definition holds_frame :: "('e \<Rightarrow> u8 list) \<Rightarrow> u8 list \<Rightarrow> u8 list \<Rightarrow> nat \<Rightarrow> 'e websocket \<Rightarrow> bool" where
  "holds_frame pending F rest k ws \<longleftrightarrow> k \<le> length F \<and> read_str_len ws = k \<and>
     (\<forall>i<k. read_str ws i = F ! i) \<and> pending (comm_fd ws) = drop k F @ rest \<and> \<not> connection_closed ws"

definition same_sizes :: "'e websocket \<Rightarrow> 'e websocket \<Rightarrow> bool" where
  "same_sizes ws ws' \<longleftrightarrow> header_size ws' = header_size ws \<and> mask_offset ws' = mask_offset ws \<and>
     payload_size ws' = payload_size ws"

lemma read_more:
  assumes "byte_source rd pending" "holds_frame pending F rest k ws" "k + n \<le> length F"
    "k + n \<le> WEBSOCK_READ_STR_LEN" "n = 0 \<or> k + n \<noteq> KOHERON_READ_STR_LEN"
  obtains ws' where "read_n_bytes rd (int n) (int n) ws = Some (0, ws')"
    "holds_frame pending F rest (k + n) ws'" "same_sizes ws ws'"
proof -
  have "n \<le> length (pending (comm_fd ws))" "read_str_len ws + n \<le> WEBSOCK_READ_STR_LEN"
    using assms(2-4) by (auto simp: holds_frame_def)
  then obtain e where e: "pending e = drop n (pending (comm_fd ws))"
    "read_n_bytes rd (int n) (int n) ws =
       Some (if 0 < n \<and> read_str_len ws + n = KOHERON_READ_STR_LEN then - 1 else 0,
             put_read (take n (pending (comm_fd ws))) (ws\<lparr>comm_fd := e\<rparr>))"
    by (rule read_n_bytes_exact [OF assms(1)])
  show ?thesis
  proof (rule that)
    show "read_n_bytes rd (int n) (int n) ws = Some (0, put_read (take n (pending (comm_fd ws))) (ws\<lparr>comm_fd := e\<rparr>))"
      using e(2) assms(2,5) by (auto simp: holds_frame_def)
    have t: "take n (pending (comm_fd ws)) = take n (drop k F)"
      using assms(2,3) by (simp add: holds_frame_def)
    show "holds_frame pending F rest (k + n) (put_read (take n (pending (comm_fd ws))) (ws\<lparr>comm_fd := e\<rparr>))"
      unfolding t using assms(2,3) e(1) by (auto simp: holds_frame_def put_read_def add.commute)
    show "same_sizes ws (put_read (take n (pending (comm_fd ws))) (ws\<lparr>comm_fd := e\<rparr>))"
      by (simp add: same_sizes_def)
  qed
qed

lemma map_read_str:
  assumes "holds_frame pending F rest k ws" "j \<le> k"
  shows "map (read_str ws) [i..<j] = take (j - i) (drop i F)"
  using assms by (intro nth_equalityI) (auto simp: holds_frame_def)

text \<open>The size bytes of a frame are decoded to its length.\<close>

lemma read_stream_size_frame:
  assumes "byte_source rd pending" "holds_frame pending F rest 6 ws" "F = client_frame op key p"
    and "length key = 4" "length p < 2 ^ 63"
  obtains ws' where "read_stream_size rd (read_str ws 1 AND 0x7F) ws = Some (0, True, ws')"
    "holds_frame pending F rest (client_header (length p)) ws'"
    "header_size ws' = client_header (length p)" "mask_offset ws' = client_header (length p) - 4"
    "payload_size ws' = int (length p)"
proof -
  define n where "n = length p"
  have len: "length F = client_header n + n"
    using assms(3,4) by (simp add: length_client_frame n_def)
  have b1: "read_str ws 1 = hd (frame_size 0x80 n)"
    using assms(2,3) by (auto simp: holds_frame_def client_frame_def n_def frame_size_def)
  consider (small) "n \<le> 125" | (medium) "125 < n" "n < 2 ^ 16" | (big) "2 ^ 16 \<le> n" by linarith
  then show ?thesis
  proof cases
    case small
    with b1 stream_size_cases(1) [of n] assms(2) show ?thesis
      by (intro that [of "set_sizes 6 (int n) 2 ws"])
        (auto simp: read_stream_size_def frame_size_def set_sizes_def client_header_def holds_frame_def n_def)
  next
    case medium
    then have h: "client_header n = 8" by (simp add: client_header_def)
    obtain ws' where w: "read_n_bytes rd 2 2 ws = Some (0, ws')" "holds_frame pending F rest 8 ws'"
      using read_more [OF assms(1,2), of 2] len h by auto
    have "append_u16 (of_nat n) = [read_str ws' 2, read_str ws' 3]"
      using map_read_str [OF w(2), of 4 2] medium assms(3)
      by (simp add: client_frame_def frame_size_def n_def)
    with medium w extract_size16 [of n] h b1 stream_size_cases(2) show ?thesis
      by (intro that [of "set_sizes 8 (int n) 4 ws'"])
        (auto simp: read_stream_size_def frame_size_def set_sizes_def holds_frame_def n_def)
  next
    case big
    then have h: "client_header n = 14" by (simp add: client_header_def)
    obtain ws' where w: "read_n_bytes rd 8 8 ws = Some (0, ws')" "holds_frame pending F rest 14 ws'"
      using read_more [OF assms(1,2), of 8] len h by auto
    have "append_u64 (of_nat n) = map (read_str ws') [2..<10]"
      using map_read_str [OF w(2), of 10 2] big assms(3)
      by (simp add: client_frame_def frame_size_def n_def)
    with big w extract_size64 [of n] h b1 stream_size_cases(3) assms(5) show ?thesis
      by (intro that [of "set_sizes 14 (int n) 10 ws'"])
        (auto simp: read_stream_size_def frame_size_def set_sizes_def holds_frame_def n_def)
  qed
qed

lemma read_header_frame:
  assumes "byte_source rd pending" "holds_frame pending F rest 0 ws" "F = client_frame op key p"
    and "length key = 4" "op = 1 \<or> op = 2" "length p \<le> WEBSOCK_READ_STR_LEN - 56"
  obtains ws' where "read_header rd ws = Some (0, ws')"
    "holds_frame pending F rest (client_header (length p)) ws'"
    "header_size ws' = client_header (length p)" "mask_offset ws' = client_header (length p) - 4"
    "payload_size ws' = int (length p)"
proof -
  have len: "length F = client_header (length p) + length p"
    using assms(3,4) by (simp add: length_client_frame)
  have "6 \<le> client_header (length p)" by (simp add: client_header_def)
  with len read_more [OF assms(1,2), of 6] obtain ws1 where
    w1: "read_n_bytes rd 6 6 ws = Some (0, ws1)" "holds_frame pending F rest 6 ws1"
    by auto
  then have b0: "read_str ws1 0 = 0x80 OR op"
    using assms(3) by (simp add: holds_frame_def client_frame_def)
  define ws2 where "ws2 = ws1\<lparr>fin := read_str ws1 0 AND 0x80 \<noteq> 0, masked := read_str ws1 1 AND 0x80 \<noteq> 0,
                   opcode := read_str ws1 0 AND 0x0F\<rparr>"
  have h2: "holds_frame pending F rest 6 ws2"
    using w1(2) by (simp add: holds_frame_def ws2_def)
  have l63: "length p < 2 ^ 63" using assms(6) by simp
  obtain ws3 where w3: "read_stream_size rd (read_str ws2 1 AND 0x7F) ws2 = Some (0, True, ws3)"
    "holds_frame pending F rest (client_header (length p)) ws3"
    "header_size ws3 = client_header (length p)" "mask_offset ws3 = client_header (length p) - 4"
    "payload_size ws3 = int (length p)"
    using read_stream_size_frame [OF assms(1) h2 assms(3,4) l63] by blast
  have o: "check_opcode (opcode ws2) = 0"
    using assms(5) by (auto simp: ws2_def b0 opcode_nibble check_opcode_def)
  have "read_header rd ws = Some (0, ws3)"
    using w1 w3 o assms(6) unfolding read_header_def
    by (simp add: holds_frame_def Let_def flip: ws2_def) (simp add: ws2_def)
  with w3 that show ?thesis by blast
qed

lemma reset_holds_frame:
  "pending (comm_fd ws) = F @ rest \<Longrightarrow> \<not> connection_closed ws \<Longrightarrow> holds_frame pending F rest 0 (reset_read_buff ws)"
  by (simp add: holds_frame_def reset_read_buff_def)

lemma unmask: "i < length p \<Longrightarrow> ws_mask key p ! i XOR key ! (i mod 4) = p ! i"
  by (simp add: ws_mask_def xor.assoc)

lemma decode_frame:
  assumes "holds_frame pending (client_frame op key p) rest (client_header (length p) + length p) ws"
    and "length key = 4" "8 \<le> length p" "header_size ws = client_header (length p)"
    and "mask_offset ws = client_header (length p) - 4" "payload_size ws = int (length p)"
  obtains cmd' where "decode_raw_stream_cmd cmd ws = (0, cmd')" "map (cmd_header cmd') [0..<8] = take 8 p"
    "map (cmd_payload cmd') [0..<length p - 8] = drop 8 p"
    "\<forall>i\<ge>length p - 8. cmd_payload cmd' i = cmd_payload cmd i"
proof -
  define h where "h = client_header (length p)"
  have h: "4 \<le> h" by (simp add: h_def client_header_def)
  define pr where "pr = (0x80 OR op) # frame_size 0x80 (length p)"
  have pr: "h = length pr + 4" "client_frame op key p = (pr @ key) @ ws_mask key p"
    by (auto simp: h_def pr_def client_frame_def frame_size_def client_header_def)
  have plain: "read_str ws (mask_offset ws + 4 + i) XOR read_str ws (mask_offset ws + i mod 4) = p ! i" if "i < length p" for i
  proof -
    have "i mod 4 < 4" by simp
    have "read_str ws (mask_offset ws + 4 + i) = ws_mask key p ! i"
      using assms(1,2,5) that pr h by (simp add: holds_frame_def nth_append flip: h_def)
    moreover have "read_str ws (mask_offset ws + i mod 4) = key ! (i mod 4)"
      using assms(1,2,5) that pr h \<open>i mod 4 < 4\<close> by (simp add: holds_frame_def nth_append flip: h_def)
    ultimately show ?thesis using that by (simp add: unmask)
  qed
  define cmd' where "cmd' = snd (decode_raw_stream_cmd cmd ws)"
  have len: "read_str_len ws = h + length p" and sz: "header_size ws = h" "payload_size ws = int (length p)"
    using assms by (simp_all add: holds_frame_def h_def)
  have "length p \<noteq> 0" using assms(3) by linarith
  then have d: "decode_raw_stream_cmd cmd ws = (0, cmd')"
    by (simp add: cmd'_def decode_raw_stream_cmd_def len sz Let_def)
  have c: "cmd_header cmd' i = p ! i" if "i < 8" for i
    using that plain [of i] assms(3) \<open>length p \<noteq> 0\<close>
    by (simp add: cmd'_def decode_raw_stream_cmd_def len sz Let_def)
  have b: "cmd_payload cmd' i = (if i + 8 < length p then p ! (i + 8) else cmd_payload cmd i)" for i
  proof -
    have "int i + 8 < int (length p) \<longleftrightarrow> i + 8 < length p" by linarith
    with plain [of "i + 8"] \<open>length p \<noteq> 0\<close> show ?thesis
      by (simp add: cmd'_def decode_raw_stream_cmd_def len sz Let_def)
  qed
  show ?thesis
  proof (rule that [OF d])
    show "map (cmd_header cmd') [0..<8] = take 8 p"
      using assms(3) c by (intro nth_equalityI) simp_all
    show "map (cmd_payload cmd') [0..<length p - 8] = drop 8 p"
      using assms(3) b by (intro nth_equalityI) (auto simp: add.commute)
    show "\<forall>i\<ge>length p - 8. cmd_payload cmd' i = cmd_payload cmd i"
      using b by auto
  qed
qed

lemma receive_cmd_frame:
  assumes "byte_source rd pending" "pending (comm_fd ws) = client_frame op key p @ rest"
    and "\<not> connection_closed ws" "length key = 4" "op = 1 \<or> op = 2"
    and "8 \<le> length p" "length p \<le> WEBSOCK_READ_STR_LEN - 56"
    and "length (client_frame op key p) \<noteq> KOHERON_READ_STR_LEN"
  shows "\<exists>cmd' ws'. receive_cmd rd cmd ws = Some (int (length p), cmd', ws') \<and>
    map (cmd_header cmd') [0..<8] = take 8 p \<and> map (cmd_payload cmd') [0..<length p - 8] = drop 8 p \<and>
    (\<forall>i\<ge>length p - 8. cmd_payload cmd' i = cmd_payload cmd i) \<and>
    pending (comm_fd ws') = rest \<and> \<not> connection_closed ws' \<and> payload_size ws' = int (length p)"
proof -
  define F where "F = client_frame op key p"
  have len: "length F = client_header (length p) + length p"
    using assms(4) by (simp add: length_client_frame F_def)
  have hmax: "client_header (length p) \<le> 14" by (simp add: client_header_def)
  obtain ws1 where w1: "read_header rd (reset_read_buff ws) = Some (0, ws1)"
    "holds_frame pending F rest (client_header (length p)) ws1"
    "header_size ws1 = client_header (length p)" "mask_offset ws1 = client_header (length p) - 4"
    "payload_size ws1 = int (length p)"
    using read_header_frame [OF assms(1) reset_holds_frame [of pending ws F rest] F_def assms(4,5,7)] assms(2,3)
    unfolding F_def by blast
  obtain ws2 where w2: "read_n_bytes rd (int (length p)) (int (length p)) ws1 = Some (0, ws2)"
    "holds_frame pending F rest (client_header (length p) + length p) ws2" "same_sizes ws1 ws2"
    using read_more [OF assms(1) w1(2), of "length p"] len hmax assms(7,8) by (auto simp: F_def)
  obtain cmd' where c: "decode_raw_stream_cmd cmd ws2 = (0, cmd')" "map (cmd_header cmd') [0..<8] = take 8 p"
    "map (cmd_payload cmd') [0..<length p - 8] = drop 8 p"
    "\<forall>i\<ge>length p - 8. cmd_payload cmd' i = cmd_payload cmd i"
    using decode_frame [OF w2(2) [unfolded F_def] assms(4,6), of cmd] w1(3-5) w2(3)
    by (auto simp: same_sizes_def)
  have "receive_cmd rd cmd ws = Some (int (length p), cmd', ws2)"
    using assms(3) w1 w2 c(1) by (simp add: receive_cmd_def read_stream_def same_sizes_def)
  moreover have "pending (comm_fd ws2) = rest" "\<not> connection_closed ws2"
    using w2(2) len by (simp_all add: holds_frame_def)
  moreover have "payload_size ws2 = int (length p)" using w1(5) w2(3) by (simp add: same_sizes_def)
  ultimately show ?thesis using c(2-4) by blast
qed


text \<open>A close frame ends the session.\<close>

lemma receive_cmd_close:
  assumes "byte_source rd pending" "pending (comm_fd ws) = client_frame 8 key [] @ rest"
    and "\<not> connection_closed ws" "length key = 4"
  shows "\<exists>ws'. receive_cmd rd cmd ws = Some (0, cmd, ws') \<and> connection_closed ws'"
proof -
  define F where "F = client_frame 8 key []"
  have "length F = 6" using assms(4) by (simp add: F_def length_client_frame client_header_def)
  with read_more [OF assms(1) reset_holds_frame [of pending ws F rest], of 6] assms(2,3) obtain ws1 where
    w1: "read_n_bytes rd 6 6 (reset_read_buff ws) = Some (0, ws1)" "holds_frame pending F rest 6 ws1"
    by (auto simp: F_def)
  then have b0: "read_str ws1 0 = 0x88"
    by (simp add: holds_frame_def F_def client_frame_def)
  have "read_header rd (reset_read_buff ws) = Some (1, ws1\<lparr>fin := read_str ws1 0 AND 0x80 \<noteq> 0,
      masked := read_str ws1 1 AND 0x80 \<noteq> 0, opcode := read_str ws1 0 AND 0x0F, connection_closed := True\<rparr>)"
    using w1 by (simp add: read_header_def holds_frame_def Let_def b0 check_opcode_def)
  with assms(3) show ?thesis
    by (simp add: receive_cmd_def read_stream_def)
qed

text \<open>
  C21. A masked text or binary frame with at least the eight bytes of a command header, cut by the
  kernel into pieces of any size, is received whole: the header and payload buffers hold the
  unmasked bytes, the payload buffer behind them and whatever follows the frame on the socket are
  untouched, and the call returns the payload size. The frame must fit the buffer and must not be
  exactly 16384 bytes long.
\<close>

theorem websocket_receives_frame:
  assumes "byte_source rd pending" "pending (comm_fd ws) = client_frame op key p @ rest"
    and "\<not> connection_closed ws" "length key = 4" "op = 1 \<or> op = 2"
    and "8 \<le> length p" "length p \<le> WEBSOCK_READ_STR_LEN - 56"
    and "length (client_frame op key p) \<noteq> KOHERON_READ_STR_LEN"
  shows "\<exists>cmd' ws'. receive_cmd rd cmd ws = Some (int (length p), cmd', ws') \<and>
    map (cmd_header cmd') [0..<8] = take 8 p \<and> map (cmd_payload cmd') [0..<length p - 8] = drop 8 p \<and>
    (\<forall>i\<ge>length p - 8. cmd_payload cmd' i = cmd_payload cmd i) \<and>
    pending (comm_fd ws') = rest \<and> \<not> connection_closed ws'"
  using receive_cmd_frame [OF assms, of cmd] by blast

text \<open>A socket that hands out at most \<open>k\<close> bytes at a time.\<close>

definition trickle :: "nat \<Rightarrow> u8 list reader" where
  "trickle k e n = (Some (take (min n k) e), drop (min n k) e)"

lemma trickle_source: "0 < k \<Longrightarrow> byte_source (trickle k) (\<lambda>e. e)"
  by (auto simp: byte_source_def trickle_def)

definition idle_socket :: "'e \<Rightarrow> 'e websocket" where
  "idle_socket e = \<lparr>comm_fd = e, read_str_len = 0, read_str = (\<lambda>_. 0), header_size = 0, mask_offset = 0,
     payload_size = 0, fin = False, masked = False, opcode = 0, connection_closed = False\<rparr>"

lemma idle_socket_simps [simp]:
  "comm_fd (idle_socket e) = e" "\<not> connection_closed (idle_socket e)" "read_str_len (idle_socket e) = 0"
  by (simp_all add: idle_socket_def)

theorem websocket_receives_frame_witness:
  "\<exists>cmd' ws'. receive_cmd (trickle 5) \<lparr>cmd_header = (\<lambda>_. 0), cmd_payload = (\<lambda>_. 0)\<rparr>
      (idle_socket (client_frame 2 [1, 2, 3, 4] [0, 0, 0, 0, 0, 2, 0, 7, 42, 43, 44] @ [0x81])) = Some (11, cmd', ws') \<and>
    map (cmd_header cmd') [0..<8] = [0, 0, 0, 0, 0, 2, 0, 7] \<and> map (cmd_payload cmd') [0..<3] = [42, 43, 44] \<and>
    comm_fd ws' = [0x81]"
proof -
  define p where "p = ([0, 0, 0, 0, 0, 2, 0, 7, 42, 43, 44] :: u8 list)"
  have p: "length p = 11" "take 8 p = [0, 0, 0, 0, 0, 2, 0, 7]" "drop 8 p = [42, 43, 44]"
    by (simp_all add: p_def)
  have "length (client_frame 2 [1, 2, 3, 4] p) \<noteq> KOHERON_READ_STR_LEN"
    by (simp add: p length_client_frame client_header_def)
  from websocket_receives_frame [OF trickle_source _ _ _ _ _ _ this, of 5 "idle_socket (client_frame 2 [1, 2, 3, 4] p @ [0x81])"
      "[0x81]" "\<lparr>cmd_header = (\<lambda>_. 0), cmd_payload = (\<lambda>_. 0)\<rparr>"]
  show ?thesis unfolding p_def [symmetric] by (simp add: p) (elim exE conjE, intro exI conjI)
qed

text \<open>
  C22. A socket on which every read fails keeps the server in \<open>receive_cmd\<close> for ever: the error
  return of \<open>read\<close> is not an exit of the loop of \<open>read_n_bytes\<close>, so the call has no result.
\<close>

theorem receive_never_returns_on_error:
  assumes "\<And>n. rd (comm_fd ws) n = (None, comm_fd ws)" "\<not> connection_closed ws"
  shows "receive_cmd rd cmd ws = None"
  using assms read_outer_error [of rd "comm_fd ws" "reset_read_buff ws" 6 6 "- 1"]
  by (simp add: receive_cmd_def read_stream_def read_header_def read_n_bytes_def reset_read_buff_def)

theorem receive_never_returns_on_error_witness:
  "receive_cmd (\<lambda>e n. (None, e)) \<lparr>cmd_header = (\<lambda>_. 0), cmd_payload = (\<lambda>_. 0)\<rparr> (idle_socket ()) = None"
  by (rule receive_never_returns_on_error) simp_all

text \<open>A send puts all of its bytes on the wire, in as many writes as it takes.\<close>

lemma send_loop_sink:
  assumes "byte_sink wr sent"
  shows "\<exists>n e'. send_loop wr bits n0 e = (n, e') \<and> sent e' = sent e @ bits \<and>
    (bits \<noteq> [] \<longrightarrow> 0 < n) \<and> (bits = [] \<longrightarrow> n = n0)"
proof (induction "length bits" arbitrary: bits n0 e rule: less_induct)
  case less
  show ?case
  proof (cases "bits = []")
    case True
    then show ?thesis by (simp add: send_loop.simps)
  next
    case False
    with assms obtain n e' where w: "wr e bits = (int n, e')" "0 < n" "n \<le> length bits" "sent e' = sent e @ take n bits"
      unfolding byte_sink_def by meson
    have "length (drop n bits) < length bits" using w False by simp
    from less [OF this, of "int n" e'] obtain k e'' where
      "send_loop wr (drop n bits) (int n) e' = (k, e'')" "sent e'' = sent e' @ drop n bits" "0 < k"
      using w(2) by (cases "drop n bits = []") auto
    moreover have "send_loop wr bits n0 e = send_loop wr (drop n bits) (int n) e'"
      using w False by (subst send_loop.simps) simp
    ultimately show ?thesis using w False by simp
  qed
qed

lemma send_request_sink:
  assumes "byte_sink wr sent" "\<not> connection_closed ws" "bits \<noteq> []"
  obtains n ws' where "send_request wr bits ws = (n, ws')" "0 < n"
    "sent (comm_fd ws') = sent (comm_fd ws) @ bits" "\<not> connection_closed ws'"
proof -
  obtain n e' where "send_loop wr bits 0 (comm_fd ws) = (n, e')" "sent e' = sent (comm_fd ws) @ bits" "0 < n"
    using send_loop_sink [OF assms(1), of bits 0 "comm_fd ws"] assms(3) by auto
  with assms(2) that [of n "ws\<lparr>comm_fd := e'\<rparr>"] show ?thesis by (simp add: send_request_def)
qed

text \<open>The header of a frame the server sends is the one of RFC 6455, unmasked.\<close>

lemma low_byte_of_int: "(word_of_int (k AND 0xFF) :: u8) = word_of_int k"
proof -
  have m: "(0xFF :: int) = mask 8" by (simp add: mask_eq_exp_minus_1)
  show ?thesis unfolding m by (rule bit_word_eqI) (auto simp: bit_simps simp del: mask_numeral)
qed

lemma byte_of_int16:
  assumes "k + 8 \<le> 16"
  shows "(word_of_int (drop_bit k (int n)) :: u8) = ucast (drop_bit k (of_nat n :: u16))"
  using assms by (intro bit_word_eqI) (auto simp: bit_simps bit_of_nat_iff_bit)

lemma byte_of_int64:
  assumes "j + 8 \<le> 32" "i + j + 8 \<le> 64"
  shows "(word_of_int (drop_bit (i + j) (int n)) :: u8) = ucast (drop_bit j (ucast (drop_bit i (of_nat n :: u64)) :: u32))"
  using assms by (intro bit_word_eqI) (auto simp: bit_simps bit_of_nat_iff_bit ac_simps)

lemma set_send_header_eq: "set_send_header (int n) f = f # frame_size 0 n"
proof -
  have b0: "(word_of_int (int n) :: u8) = of_nat n" by simp
  show ?thesis
    using byte_of_int16 [of 0 n] byte_of_int16 [of 8 n]
      byte_of_int64 [of 24 32 n] byte_of_int64 [of 16 32 n] byte_of_int64 [of 8 32 n] byte_of_int64 [of 0 32 n]
      byte_of_int64 [of 24 0 n] byte_of_int64 [of 16 0 n] byte_of_int64 [of 8 0 n] byte_of_int64 [of 0 0 n]
    by (simp add: set_send_header_def frame_size_def low_byte_of_int append_u16_bytes append_u64_def append_u32_bytes)
qed

text \<open>
  C23. Whatever pieces the socket takes, \<open>send\<close> puts one unmasked binary frame of RFC 6455 with the
  payload on the wire, nothing else, and leaves the connection open; the close frame of \<open>exit\<close> is
  the two bytes 88 00. The count returned is that of the last partial write, not the bytes sent.
\<close>

theorem websocket_sends_frame:
  assumes "byte_sink wr sent" "\<not> connection_closed ws" "length p + 10 \<le> WEBSOCK_SEND_BUF_LEN"
  shows "\<exists>n ws'. ws_send wr p ws = (n, ws') \<and> 0 < n \<and>
      sent (comm_fd ws') = sent (comm_fd ws) @ 0x82 # frame_size 0 (length p) @ p \<and> \<not> connection_closed ws' \<and>
    (\<exists>n ws'. ws_exit wr ws = (n, ws') \<and> 0 < n \<and> sent (comm_fd ws') = sent (comm_fd ws) @ [0x88, 0])"
proof -
  have h: "set_send_header (int (length p)) 0x82 @ p = 0x82 # frame_size 0 (length p) @ p"
    "set_send_header 0 0x88 = [0x88, 0]"
    using set_send_header_eq [of "length p" "0x82"] by (simp_all add: set_send_header_def)
  obtain n ws' where "send_request wr (0x82 # frame_size 0 (length p) @ p) ws = (n, ws')" "0 < n"
    "sent (comm_fd ws') = sent (comm_fd ws) @ 0x82 # frame_size 0 (length p) @ p" "\<not> connection_closed ws'"
    using send_request_sink [OF assms(1,2)] by blast
  moreover obtain k ws'' where "send_request wr [0x88, 0] ws = (k, ws'')" "0 < k"
    "sent (comm_fd ws'') = sent (comm_fd ws) @ [0x88, 0]"
    using send_request_sink [OF assms(1,2), of "[0x88, 0]"] by blast
  ultimately show ?thesis
    using assms(2,3) by (simp add: ws_send_def ws_exit_def h)
qed

text \<open>A socket that takes at most three bytes at a time.\<close>

theorem websocket_sends_frame_witness:
  "\<exists>n ws'. ws_send (\<lambda>e bs. (int (min 3 (length bs)), e @ take 3 bs)) [7, 8, 9, 10] (idle_socket []) = (n, ws') \<and> 0 < n \<and>
     comm_fd ws' = [0x82, 4, 7, 8, 9, 10]"
proof -
  have "byte_sink (\<lambda>e bs. (int (min 3 (length bs)), e @ take 3 bs)) (\<lambda>e. e)"
    by (auto simp: byte_sink_def min_def)
  from websocket_sends_frame [OF this, of "idle_socket []" "[7, 8, 9, 10]"] show ?thesis
    by (auto simp: frame_size_def)
qed

end
