(* ===== verification/Sha1.thy ===== *)
theory Sha1
  imports Serializer
begin

text \<open>
  The SHA-1 of the WebSocket handshake (\<open>sha1.cpp\<close>), compiled for a little-endian machine: the
  context with its 64-byte block, the step on a circular buffer of sixteen words, the feeding of a
  message in pieces, padding and the digest. Its reference is the algorithm of FIPS 180-4 with the
  whole message schedule.
\<close>

section \<open>The code\<close>

text \<open>
  \<open>m_b8\<close> is the block as bytes (\<open>b8\<close>); \<open>sha1_count\<close> is a byte, so its additions wrap at 256 before the
  reduction modulo 64.
\<close>

record sha1_ctxt =
  h_b32 :: "u32 list"
  c_b64 :: u64
  m_b8 :: "u8 list"
  sha1_count :: nat

definition sha1_K :: "nat \<Rightarrow> u32" where
  "sha1_K t = [0x5a827999, 0x6ed9eba1, 0x8f1bbcdc, 0xca62c1d6] ! (t div 20)"

definition F0 :: "u32 \<Rightarrow> u32 \<Rightarrow> u32 \<Rightarrow> u32" where
  "F0 x y z = (x AND y) OR (NOT x AND z)"

definition F1 :: "u32 \<Rightarrow> u32 \<Rightarrow> u32 \<Rightarrow> u32" where
  "F1 x y z = (x XOR y) XOR z"

definition F2 :: "u32 \<Rightarrow> u32 \<Rightarrow> u32 \<Rightarrow> u32" where
  "F2 x y z = (x AND y) OR (x AND z) OR (y AND z)"

definition F3 :: "u32 \<Rightarrow> u32 \<Rightarrow> u32 \<Rightarrow> u32" where
  "F3 x y z = (x XOR y) XOR z"

definition sha1_S :: "nat \<Rightarrow> u32 \<Rightarrow> u32" where
  "sha1_S n x = push_bit n x OR drop_bit (32 - n) x"

text \<open>
  The swap of the bytes of every word, and the view of the block as sixteen little-endian words.
\<close>

definition byte_swap :: "u8 list \<Rightarrow> u8 list" where
  "byte_swap b8 = map (\<lambda>i. b8 ! (4 * (i div 4) + (3 - i mod 4))) [0..<64]"

definition b32 :: "u8 list \<Rightarrow> u32 list" where
  "b32 b8 = map (\<lambda>i. le32 (\<lambda>j. b8 ! j) (4 * i)) [0..<16]"

type_synonym sha1_vars = "u32 \<times> u32 \<times> u32 \<times> u32 \<times> u32"

definition sha1_w :: "nat \<Rightarrow> u32 list \<Rightarrow> u32 list" where
  "sha1_w t W = (let s = t mod 16 in
     if t \<ge> 16 then W[s := sha1_S 1 (W ! ((s + 13) mod 16) XOR W ! ((s + 8) mod 16) XOR W ! ((s + 2) mod 16) XOR W ! s)]
     else W)"

definition sha1_f :: "nat \<Rightarrow> u32 \<Rightarrow> u32 \<Rightarrow> u32 \<Rightarrow> u32" where
  "sha1_f t = (if t < 20 then F0 else if t < 40 then F1 else if t < 60 then F2 else F3)"

definition sha1_round :: "nat \<Rightarrow> sha1_vars \<times> u32 list \<Rightarrow> sha1_vars \<times> u32 list" where
  "sha1_round t = (\<lambda>((a, b, c, d, e), W).
     let W = sha1_w t W;
         tmp = sha1_S 5 a + sha1_f t b c d + e + W ! (t mod 16) + sha1_K t
     in ((tmp, a, sha1_S 30 b, c, d), W))"

definition sha1_step :: "sha1_ctxt \<Rightarrow> sha1_ctxt" where
  "sha1_step ctxt =
     (let H = h_b32 ctxt;
          ((a, b, c, d, e), W) =
            fold sha1_round [0..<80] ((H ! 0, H ! 1, H ! 2, H ! 3, H ! 4), b32 (byte_swap (m_b8 ctxt)))
      in ctxt\<lparr>h_b32 := [H ! 0 + a, H ! 1 + b, H ! 2 + c, H ! 3 + d, H ! 4 + e], m_b8 := replicate 64 0\<rparr>)"

definition sha1_init :: sha1_ctxt where
  "sha1_init = \<lparr>h_b32 = [0x67452301, 0xefcdab89, 0x98badcfe, 0x10325476, 0xc3d2e1f0], c_b64 = 0,
     m_b8 = replicate 64 0, sha1_count = 0\<rparr>"

definition add_count :: "nat \<Rightarrow> sha1_ctxt \<Rightarrow> sha1_ctxt" where
  "add_count n ctxt = ctxt\<lparr>sha1_count := (sha1_count ctxt + n) mod 256 mod 64\<rparr>"

definition PUTPAD :: "u8 \<Rightarrow> sha1_ctxt \<Rightarrow> sha1_ctxt" where
  "PUTPAD x ctxt =
     (let ctxt = add_count 1 (ctxt\<lparr>m_b8 := (m_b8 ctxt)[sha1_count ctxt mod 64 := x]\<rparr>)
      in if sha1_count ctxt mod 64 = 0 then sha1_step ctxt else ctxt)"

text \<open>\<open>memcpy\<close> and \<open>bzero\<close> into the block.\<close>

definition put_m :: "nat \<Rightarrow> u8 list \<Rightarrow> sha1_ctxt \<Rightarrow> sha1_ctxt" where
  "put_m pos bs ctxt = ctxt\<lparr>m_b8 := store pos bs (m_b8 ctxt)\<rparr>"

definition sha1_pad :: "sha1_ctxt \<Rightarrow> sha1_ctxt" where
  "sha1_pad ctxt =
     (let ctxt = PUTPAD 0x80 ctxt;
          padstart = sha1_count ctxt mod 64;
          padlen = 64 - padstart;
          ctxt = (if padlen < 8 then sha1_step (add_count padlen (put_m padstart (replicate padlen 0) ctxt)) else ctxt);
          padstart = sha1_count ctxt mod 64;
          padlen = 64 - padstart;
          ctxt = add_count (padlen - 8) (put_m padstart (replicate (padlen - 8) 0) ctxt)
      in fold PUTPAD (append_u64 (c_b64 ctxt)) ctxt)"

function sha1_loop :: "sha1_ctxt \<Rightarrow> u8 list \<Rightarrow> sha1_ctxt" where
  "sha1_loop ctxt input =
     (if input = [] then ctxt
      else
        let gapstart = sha1_count ctxt mod 64;
            gaplen = 64 - gapstart;
            copysiz = (if gaplen < length input then gaplen else length input);
            ctxt = add_count copysiz (put_m gapstart (take copysiz input) ctxt);
            ctxt = ctxt\<lparr>c_b64 := c_b64 ctxt + of_nat copysiz * 8\<rparr>;
            ctxt = (if sha1_count ctxt mod 64 = 0 then sha1_step ctxt else ctxt)
        in sha1_loop ctxt (drop copysiz input))"
  by auto

termination
  by (relation "measure (\<lambda>(_, input). length input)") (auto simp: Let_def)

declare sha1_loop.simps [simp del]

definition sha1_result :: "sha1_ctxt \<Rightarrow> u8 list" where
  "sha1_result ctxt = concat (map append_u32 (h_b32 (sha1_pad ctxt)))"

definition SHA1 :: "u8 list \<Rightarrow> u8 list" where
  "SHA1 d = sha1_result (sha1_loop sha1_init d)"

section \<open>The reference\<close>

definition fips_ch :: "u32 \<Rightarrow> u32 \<Rightarrow> u32 \<Rightarrow> u32" where
  "fips_ch x y z = (x AND y) XOR (NOT x AND z)"

definition fips_parity :: "u32 \<Rightarrow> u32 \<Rightarrow> u32 \<Rightarrow> u32" where
  "fips_parity x y z = x XOR y XOR z"

definition fips_maj :: "u32 \<Rightarrow> u32 \<Rightarrow> u32 \<Rightarrow> u32" where
  "fips_maj x y z = (x AND y) XOR (x AND z) XOR (y AND z)"

definition fips_f :: "nat \<Rightarrow> u32 \<Rightarrow> u32 \<Rightarrow> u32 \<Rightarrow> u32" where
  "fips_f t = (if t \<le> 19 then fips_ch else if t \<le> 39 then fips_parity else if t \<le> 59 then fips_maj else fips_parity)"

definition fips_k :: "nat \<Rightarrow> u32" where
  "fips_k t = (if t \<le> 19 then 0x5a827999 else if t \<le> 39 then 0x6ed9eba1 else if t \<le> 59 then 0x8f1bbcdc
     else 0xca62c1d6)"

text \<open>The eighty words of the message schedule of a block.\<close>

fun fips_w :: "u32 list \<Rightarrow> nat \<Rightarrow> u32" where
  "fips_w M t = (if t < 16 then M ! t
     else word_rotl 1 (fips_w M (t - 3) XOR fips_w M (t - 8) XOR fips_w M (t - 14) XOR fips_w M (t - 16)))"

declare fips_w.simps [simp del]

definition fips_round :: "u32 list \<Rightarrow> nat \<Rightarrow> sha1_vars \<Rightarrow> sha1_vars" where
  "fips_round M t = (\<lambda>(a, b, c, d, e).
     (word_rotl 5 a + fips_f t b c d + e + fips_k t + fips_w M t, a, word_rotl 30 b, c, d))"

definition fips_block :: "u8 list \<Rightarrow> u32 list \<Rightarrow> u32 list" where
  "fips_block blk H =
     (let M = map (\<lambda>i. extract_u32 (drop (4 * i) blk)) [0..<16];
          (a, b, c, d, e) = fold (fips_round M) [0..<80] (H ! 0, H ! 1, H ! 2, H ! 3, H ! 4)
      in [H ! 0 + a, H ! 1 + b, H ! 2 + c, H ! 3 + d, H ! 4 + e])"

fun blocks :: "u8 list \<Rightarrow> u8 list list" where
  "blocks bs = (if length bs < 64 then [] else take 64 bs # blocks (drop 64 bs))"

declare blocks.simps [simp del]

definition fips_hash :: "u8 list \<Rightarrow> u32 list" where
  "fips_hash bs = fold fips_block (blocks bs) [0x67452301, 0xefcdab89, 0x98badcfe, 0x10325476, 0xc3d2e1f0]"

definition fips_pad :: "u8 list \<Rightarrow> u8 list" where
  "fips_pad msg = msg @ 0x80 # replicate ((119 - length msg mod 64) mod 64) 0 @ append_u64 (of_nat (8 * length msg))"

definition fips_sha1 :: "u8 list \<Rightarrow> u8 list" where
  "fips_sha1 msg = concat (map append_u32 (fips_hash (fips_pad msg)))"

section \<open>One block\<close>

lemma F_eqs: "F0 x y z = fips_ch x y z" "F1 x y z = fips_parity x y z" "F2 x y z = fips_maj x y z"
  "F3 x y z = fips_parity x y z"
  unfolding F0_def F1_def F2_def F3_def fips_ch_def fips_parity_def fips_maj_def
  by (rule bit_word_eqI, auto simp: bit_simps)+

lemma sha1_f_eq: "sha1_f t = fips_f t"
  by (auto simp: sha1_f_def fips_f_def F_eqs fun_eq_iff)

lemma sha1_K_eq: "t < 80 \<Longrightarrow> sha1_K t = fips_k t"
proof -
  assume "t < 80"
  then consider "t div 20 = 0" "t \<le> 19" | "t div 20 = 1" "19 < t" "t \<le> 39" | "t div 20 = 2" "39 < t" "t \<le> 59"
    | "t div 20 = 3" "59 < t" by linarith
  then show ?thesis by cases (simp_all add: sha1_K_def fips_k_def)
qed

lemma sha1_S_eq: "n < 32 \<Longrightarrow> sha1_S n x = word_rotl n x"
proof -
  assume n: "n < 32"
  show ?thesis
  proof (rule bit_word_eqI)
    fix k :: nat
    assume k: "k < LENGTH(32)"
    show "bit (sha1_S n x) k = bit (word_rotl n x) k"
    proof (cases "n \<le> k")
      case True
      have "\<not> bit x (32 - n + k)"
      proof
        assume "bit x (32 - n + k)"
        then have "32 - n + k < 32" using bit_imp_le_length [of x "32 - n + k"] by simp
        with True n show False by linarith
      qed
      moreover have "(k + (32 - n)) mod 32 = k - n" using True n k by (subst le_mod_geq) auto
      ultimately show ?thesis using True n k
        by (simp add: sha1_S_def bit_word_rotl_iff bit_or_iff bit_push_bit_iff bit_drop_bit_eq)
    next
      case False
      then have "(k + (32 - n)) mod 32 = 32 - n + k" using n by simp
      with False n k show ?thesis
        by (simp add: sha1_S_def bit_word_rotl_iff bit_or_iff bit_push_bit_iff bit_drop_bit_eq)
    qed
  qed
qed

text \<open>The swapped little-endian words are the big-endian words of the block.\<close>

lemma le32_rev: "le32 (\<lambda>j. [w3, w2, w1, w0] ! j) 0 = extract_u32 [w0, w1, w2, w3]"
proof -
  have "\<not> bit w n" if "8 \<le> n" for w :: u8 and n
    using that bit_imp_le_length [of w n] by auto
  then show ?thesis
    unfolding le32_def extract_u32_def
    by (simp, (subst add_shifted, (auto simp: bit_simps)[1])+) (simp add: or.assoc)
qed

lemma b32_byte_swap:
  assumes "length blk = 64"
  shows "b32 (byte_swap blk) = map (\<lambda>i. extract_u32 (drop (4 * i) blk)) [0..<16]"
proof (rule nth_equalityI)
  fix i
  assume "i < length (b32 (byte_swap blk))"
  then have i: "i < 16" by (simp add: b32_def)
  have d: "(4 * i + j) div 4 = i" "(4 * i + j) mod 4 = j" if "j < 4" for j
    using that by simp_all
  have "le32 (\<lambda>j. byte_swap blk ! j) (4 * i) =
      le32 (\<lambda>j. [blk ! (4 * i + 3), blk ! (4 * i + 2), blk ! (4 * i + 1), blk ! (4 * i)] ! j) 0"
    using i d [of 0] d [of 1] d [of 2] d [of 3] by (simp add: le32_def byte_swap_def)
  also have "\<dots> = extract_u32 (drop (4 * i) blk)"
    using i assms by (simp only: le32_rev) (simp add: extract_u32_def)
  finally show "b32 (byte_swap blk) ! i = map (\<lambda>i. extract_u32 (drop (4 * i) blk)) [0..<16] ! i"
    using i by (simp add: b32_def)
qed (simp add: b32_def)

text \<open>
  The buffer holds the last sixteen words of the schedule, each at its index modulo sixteen.
\<close>

definition window :: "u32 list \<Rightarrow> nat \<Rightarrow> u32 list \<Rightarrow> bool" where
  "window M t W \<longleftrightarrow> length W = 16 \<and> (\<forall>i. i < max t 16 \<longrightarrow> max t 16 \<le> i + 16 \<longrightarrow> W ! (i mod 16) = fips_w M i)"

lemma window_init: "length M = 16 \<Longrightarrow> window M 0 M"
  by (auto simp: window_def fips_w.simps)

lemma window_step:
  assumes "window M t W"
  shows "window M (Suc t) (sha1_w t W)" "sha1_w t W ! (t mod 16) = fips_w M t"
proof -
  have len: "length W = 16" and W: "\<And>i. i < max t 16 \<Longrightarrow> max t 16 \<le> i + 16 \<Longrightarrow> W ! (i mod 16) = fips_w M i"
    using assms by (auto simp: window_def)
  have "window M (Suc t) (sha1_w t W) \<and> sha1_w t W ! (t mod 16) = fips_w M t"
  proof (cases "t < 16")
    case True
    with len W W [of t] show ?thesis by (auto simp: window_def sha1_w_def Let_def max_def)
  next
    case False
    have ix: "(t mod 16 + 13) mod 16 = (t - 3) mod 16" "(t mod 16 + 8) mod 16 = (t - 8) mod 16"
      "(t mod 16 + 2) mod 16 = (t - 14) mod 16" "t mod 16 = (t - 16) mod 16"
    proof -
      have "(t mod 16 + (16 - k)) mod 16 = (t - k) mod 16" if "k \<le> 16" for k
      proof -
        have "t + (16 - k) = t - k + 16" using False that by linarith
        then show ?thesis by (metis mod_add_left_eq mod_add_self2)
      qed
      note * = this [of 3] this [of 8] this [of 14] this [of 16]
      have n: "16 - 3 = (13 :: nat)" "16 - 8 = (8 :: nat)" "16 - 14 = (2 :: nat)" "16 - 16 = (0 :: nat)" by simp_all
      show "(t mod 16 + 13) mod 16 = (t - 3) mod 16" by (rule * (1) [unfolded n]) simp
      show "(t mod 16 + 8) mod 16 = (t - 8) mod 16" by (rule * (2) [unfolded n]) simp
      show "(t mod 16 + 2) mod 16 = (t - 14) mod 16" by (rule * (3) [unfolded n]) simp
      show "t mod 16 = (t - 16) mod 16" by (rule * (4) [unfolded n add_0_right mod_mod_trivial]) simp
    qed
    have old: "W ! ((t - k) mod 16) = fips_w M (t - k)" if "0 < k" "k \<le> 16" for k
      using that False by (intro W) auto
    have f: "W ! ((t mod 16 + 13) mod 16) = fips_w M (t - 3)" "W ! ((t mod 16 + 8) mod 16) = fips_w M (t - 8)"
      "W ! ((t mod 16 + 2) mod 16) = fips_w M (t - 14)" "W ! (t mod 16) = fips_w M (t - 16)"
      subgoal by (subst ix(1)) (rule old, simp, simp)
      subgoal by (subst ix(2)) (rule old, simp, simp)
      subgoal by (subst ix(3)) (rule old, simp, simp)
      subgoal by (subst ix(4)) (rule old, simp, simp)
      done
    have w: "sha1_S 1 (W ! ((t mod 16 + 13) mod 16) XOR W ! ((t mod 16 + 8) mod 16) XOR W ! ((t mod 16 + 2) mod 16) XOR W ! (t mod 16)) = fips_w M t"
      unfolding f using False by (simp add: fips_w.simps [of M t] sha1_S_eq)
    have "i mod 16 \<noteq> t mod 16" if "i < t" "t < i + 16" for i
    proof
      assume "i mod 16 = t mod 16"
      with that(1) have "16 dvd t - i" by (metis less_imp_le mod_eq_dvd_iff_nat)
      with that show False by (auto dest: dvd_imp_le)
    qed
    then have other: "W[t mod 16 := x] ! (i mod 16) = fips_w M i" if "i < t" "t < i + 16" for i x
      using that W [of i] False by (metis less_imp_le max_absorb1 not_less nth_list_update_neq)
    have u: "sha1_w t W = W[t mod 16 := fips_w M t]"
      using False w by (simp add: sha1_w_def Let_def)
    show ?thesis
      unfolding u window_def using False len other by (auto simp: max_def less_Suc_eq)
  qed
  then show "window M (Suc t) (sha1_w t W)" "sha1_w t W ! (t mod 16) = fips_w M t" by auto
qed

lemma sha1_round_eq:
  assumes "window M t W" "t < 80"
  shows "sha1_round t (v, W) = (fips_round M t v, sha1_w t W)"
  using window_step [OF assms(1)] assms(2)
  by (cases v) (simp add: sha1_round_def fips_round_def Let_def sha1_f_eq sha1_K_eq sha1_S_eq)

lemma rounds_eq:
  assumes "length M = 16" "n \<le> 80"
  shows "\<exists>W. fold sha1_round [0..<n] (v, M) = (fold (fips_round M) [0..<n] v, W) \<and> window M n W"
  using assms(2)
proof (induction n)
  case 0
  with window_init [OF assms(1)] show ?case by simp
next
  case (Suc n)
  then obtain W where IH: "fold sha1_round [0..<n] (v, M) = (fold (fips_round M) [0..<n] v, W)" "window M n W"
    by auto
  with window_step(1) [OF IH(2)] sha1_round_eq [OF IH(2)] Suc.prems show ?case by simp
qed

lemma sha1_step_eq:
  assumes "length (m_b8 ctxt) = 64"
  shows "sha1_step ctxt = ctxt\<lparr>h_b32 := fips_block (m_b8 ctxt) (h_b32 ctxt), m_b8 := replicate 64 0\<rparr>"
proof -
  define M where "M = map (\<lambda>i. extract_u32 (drop (4 * i) (m_b8 ctxt))) [0..<16]"
  have "length M = 16" by (simp add: M_def)
  then obtain W where "fold sha1_round [0..<80] ((h_b32 ctxt ! 0, h_b32 ctxt ! 1, h_b32 ctxt ! 2, h_b32 ctxt ! 3, h_b32 ctxt ! 4), M) =
      (fold (fips_round M) [0..<80] (h_b32 ctxt ! 0, h_b32 ctxt ! 1, h_b32 ctxt ! 2, h_b32 ctxt ! 3, h_b32 ctxt ! 4), W)"
    using rounds_eq by blast
  then show ?thesis
    by (simp add: sha1_step_def fips_block_def Let_def b32_byte_swap [OF assms] split_def del: upt_Suc flip: M_def)
qed

section \<open>The whole message\<close>

lemma blocks_Nil: "length bs < 64 \<Longrightarrow> blocks bs = []"
  by (simp add: blocks.simps)

lemma blocks_append:
  "64 dvd length a \<Longrightarrow> blocks (a @ b) = blocks a @ blocks b"
proof (induction a rule: blocks.induct)
  case (1 a)
  show ?case
  proof (cases "length a < 64")
    case True
    with 1 have "a = []" by (auto dest: dvd_imp_le)
    then show ?thesis by (simp add: blocks_Nil)
  next
    case False
    with 1 have "blocks (drop 64 a @ b) = blocks (drop 64 a) @ blocks b" by (simp add: dvd_diff_nat)
    with False show ?thesis
      by (subst (1 2) blocks.simps) simp
  qed
qed

lemma blocks_one: "length blk = 64 \<Longrightarrow> blocks blk = [blk]"
  by (subst blocks.simps) (simp add: blocks_Nil)

lemma fips_hash_block:
  "64 dvd length a \<Longrightarrow> length blk = 64 \<Longrightarrow> fips_hash (a @ blk) = fips_block blk (fips_hash a)"
  by (simp add: fips_hash_def blocks_append blocks_one)

text \<open>The context after the bytes \<open>full @ tail\<close>: the blocks of \<open>full\<close> are hashed, \<open>tail\<close> waits.\<close>

definition fed :: "u8 list \<Rightarrow> u8 list \<Rightarrow> sha1_ctxt \<Rightarrow> bool" where
  "fed full tail ctxt \<longleftrightarrow> 64 dvd length full \<and> length tail < 64 \<and> h_b32 ctxt = fips_hash full \<and>
     sha1_count ctxt = length tail \<and> length (m_b8 ctxt) = 64 \<and> take (length tail) (m_b8 ctxt) = tail"

lemma fed_init: "fed [] [] sha1_init"
  by (simp add: fed_def sha1_init_def fips_hash_def blocks_Nil)

text \<open>Bytes stored at the current position, with the step when the block is full.\<close>

definition put_step :: "u8 list \<Rightarrow> sha1_ctxt \<Rightarrow> sha1_ctxt" where
  "put_step xs ctxt =
     (let ctxt = add_count (length xs) (put_m (sha1_count ctxt mod 64) xs ctxt)
      in if sha1_count ctxt mod 64 = 0 then sha1_step ctxt else ctxt)"

lemma fed_put:
  assumes "fed full tail ctxt" "length tail + length xs < 64"
  shows "fed full (tail @ xs) (add_count (length xs) (put_m (sha1_count ctxt mod 64) xs ctxt))"
  using assms by (auto simp: fed_def add_count_def put_m_def store_def)

lemma fed_step:
  assumes "fed full tail ctxt" "length tail + length xs = 64"
  shows "fed (full @ tail @ xs) [] (sha1_step (add_count (length xs) (put_m (sha1_count ctxt mod 64) xs ctxt)))"
proof -
  have "store (length tail) xs (m_b8 ctxt) = tail @ xs"
    using assms by (simp add: fed_def store_def)
  with assms show ?thesis
    by (auto simp: fed_def sha1_step_eq add_count_def put_m_def fips_hash_block)
qed

lemma fed_put_step:
  assumes "fed full tail ctxt" "length tail + length xs \<le> 64" "xs \<noteq> []"
  obtains full' tail' where "fed full' tail' (put_step xs ctxt)" "full' @ tail' = full @ tail @ xs"
proof (cases "length tail + length xs = 64")
  case True
  then have "put_step xs ctxt = sha1_step (add_count (length xs) (put_m (sha1_count ctxt mod 64) xs ctxt))"
    using assms(1) by (simp add: put_step_def add_count_def put_m_def fed_def Let_def)
  with fed_step [OF assms(1) True] that show ?thesis by simp
next
  case False
  with assms(2) have l: "length tail + length xs < 64" by simp
  then have "put_step xs ctxt = add_count (length xs) (put_m (sha1_count ctxt mod 64) xs ctxt)"
    using assms(1,3) by (simp add: put_step_def add_count_def put_m_def fed_def Let_def)
  with fed_put [OF assms(1) l] that show ?thesis by simp
qed

lemma PUTPAD_eq: "fed full tail ctxt \<Longrightarrow> PUTPAD x ctxt = put_step [x] ctxt"
  by (auto simp: PUTPAD_def put_step_def put_m_def store_def fed_def Let_def upd_conv_take_nth_drop)

lemma fed_PUTPAD:
  assumes "fed full tail ctxt"
  obtains full' tail' where "fed full' tail' (PUTPAD x ctxt)" "full' @ tail' = full @ tail @ [x]"
  using fed_put_step [OF assms, of "[x]"] assms unfolding PUTPAD_eq [OF assms] by (auto simp: fed_def)

lemma fed_PUTPADs:
  assumes "fed full tail ctxt"
  shows "\<exists>full' tail'. fed full' tail' (fold PUTPAD xs ctxt) \<and> full' @ tail' = full @ tail @ xs"
  using assms
proof (induction xs arbitrary: full tail ctxt)
  case Nil
  then show ?case by auto
next
  case (Cons x xs)
  obtain full' tail' where "fed full' tail' (PUTPAD x ctxt)" "full' @ tail' = full @ tail @ [x]"
    using fed_PUTPAD [OF Cons.prems] by blast
  with Cons.IH [OF this(1)] show ?case by (metis append.assoc append_Cons append_Nil fold_simps(2))
qed

lemma c_simps [simp]: "c_b64 (sha1_step ctxt) = c_b64 ctxt" "c_b64 (put_step xs ctxt) = c_b64 ctxt" "c_b64 (add_count n ctxt) = c_b64 ctxt"
    "c_b64 (put_m pos xs ctxt) = c_b64 ctxt" "fed full tail (ctxt\<lparr>c_b64 := x\<rparr>) = fed full tail ctxt"
  by (simp_all add: sha1_step_def put_step_def add_count_def put_m_def fed_def Let_def split_def)

lemma sha1_step_c: "sha1_step (ctxt\<lparr>c_b64 := x\<rparr>) = (sha1_step ctxt)\<lparr>c_b64 := x\<rparr>"
  by (cases ctxt) (simp add: sha1_step_def Let_def split_def)

lemma sha1_loop_put_step:
  assumes "input \<noteq> []" "n = min (64 - sha1_count ctxt mod 64) (length input)"
  shows "sha1_loop ctxt input =
    sha1_loop ((put_step (take n input) ctxt)\<lparr>c_b64 := c_b64 ctxt + of_nat n * 8\<rparr>) (drop n input)"
proof -
  have n: "(if 64 - sha1_count ctxt mod 64 < length input then 64 - sha1_count ctxt mod 64 else length input) = n"
    using assms(2) by (simp add: min_def)
  have l: "length (take n input) = n" using assms(2) by simp
  show ?thesis
    using assms(1) by (subst sha1_loop.simps) (simp only: n l put_step_def Let_def, simp add: sha1_step_c)
qed

lemma fed_loop:
  assumes "fed full tail ctxt"
  shows "\<exists>full' tail'. fed full' tail' (sha1_loop ctxt input) \<and> full' @ tail' = full @ tail @ input \<and>
    c_b64 (sha1_loop ctxt input) = c_b64 ctxt + of_nat (8 * length input)"
  using assms
proof (induction "length input" arbitrary: full tail ctxt input rule: less_induct)
  case less
  show ?case
  proof (cases "input = []")
    case True
    with less.prems show ?thesis by (auto simp: sha1_loop.simps)
  next
    case False
    define n where "n = min (64 - sha1_count ctxt mod 64) (length input)"
    define ctxt' where "ctxt' = (put_step (take n input) ctxt)\<lparr>c_b64 := c_b64 ctxt + of_nat n * 8\<rparr>"
    have n: "0 < n" "n \<le> length input" using False by (auto simp: n_def)
    have "length tail + length (take n input) \<le> 64" "take n input \<noteq> []"
      using less.prems n False by (auto simp: n_def fed_def)
    then obtain f t where ft: "fed f t (put_step (take n input) ctxt)" "f @ t = full @ tail @ take n input"
      using fed_put_step [OF less.prems] by blast
    then have "fed f t ctxt'" by (simp add: ctxt'_def)
    moreover have "length (drop n input) < length input" using n by simp
    ultimately obtain f' t' where f't': "fed f' t' (sha1_loop ctxt' (drop n input))" "f' @ t' = f @ t @ drop n input"
      "c_b64 (sha1_loop ctxt' (drop n input)) = c_b64 ctxt' + of_nat (8 * length (drop n input))"
      using less.hyps by blast
    have "sha1_loop ctxt input = sha1_loop ctxt' (drop n input)"
      using sha1_loop_put_step [OF False n_def] by (simp add: ctxt'_def)
    moreover have "c_b64 ctxt' + of_nat (8 * length (drop n input)) = c_b64 ctxt + of_nat (8 * length input)"
      using n by (simp add: ctxt'_def of_nat_diff algebra_simps)
    ultimately show ?thesis using f't' ft(2) by (metis append.assoc append_take_drop_id)
  qed
qed

lemma pad_zeros:
  fixes l z :: nat
  assumes "64 dvd l + 1 + z + 8" "z < 64"
  shows "z = (119 - l mod 64) mod 64"
proof -
  define r where "r = l mod 64"
  have r: "r < 64" by (simp add: r_def)
  have "l + 1 + z + 8 = 64 * (l div 64) + (r + z + 9)"
    unfolding r_def by simp
  with assms(1) have "64 dvd r + z + 9" by (metis dvd_add_right_iff dvd_triv_left)
  then obtain k where k: "r + z + 9 = 64 * k" by (auto elim: dvdE)
  have z: "z = 119 - r \<and> 119 - r < 64 \<or> z + 64 = 119 - r"
  proof -
    consider "k = 0" | "k = 1" | "k = 2" | "k \<ge> 3" by linarith
    then show ?thesis using k r assms(2) by cases linarith+
  qed
  then show ?thesis
  proof
    assume "z = 119 - r \<and> 119 - r < 64" then show ?thesis by (simp flip: r_def)
  next
    assume "z + 64 = 119 - r"
    then have "119 - r = 64 + z" by simp
    with assms(2) show ?thesis by (simp flip: r_def)
  qed
qed

lemma fed_full:
  "fed full tail ctxt \<Longrightarrow> 64 dvd length (full @ tail) \<Longrightarrow> tail = []"
  using dvd_add_right_iff [of 64 "length full" "length tail"] by (auto simp: fed_def dest: dvd_imp_le)

lemma c_PUTPAD: "fed full tail ctxt \<Longrightarrow> c_b64 (PUTPAD x ctxt) = c_b64 ctxt"
  by (simp add: PUTPAD_eq)

lemma sha1_pad_eq:
  assumes "fed full tail ctxt"
  shows "\<exists>z. h_b32 (sha1_pad ctxt) = fips_hash (full @ tail @ 0x80 # replicate z 0 @ append_u64 (c_b64 ctxt)) \<and>
    z = (119 - length (full @ tail) mod 64) mod 64"
proof -
  define ctxt1 where "ctxt1 = PUTPAD 0x80 ctxt"
  obtain f t where ft: "fed f t ctxt1" "f @ t = full @ tail @ [0x80]"
    using fed_PUTPAD [OF assms] by (auto simp: ctxt1_def)
  have c1: "c_b64 ctxt1 = c_b64 ctxt" using assms by (simp add: ctxt1_def c_PUTPAD)
  have t: "sha1_count ctxt1 mod 64 = length t" "length t < 64" using ft(1) by (auto simp: fed_def)
  define ctxt2 where "ctxt2 = (if 64 - length t < 8
    then sha1_step (add_count (64 - length t) (put_m (length t) (replicate (64 - length t) 0) ctxt1)) else ctxt1)"
  have c2: "c_b64 ctxt2 = c_b64 ctxt" by (simp add: ctxt2_def c1)
  obtain f2 t2 z2 where f2: "fed f2 t2 ctxt2" "f2 @ t2 = f @ t @ replicate z2 0" "length t2 \<le> 56" "z2 \<le> 7"
    "z2 = 0 \<or> t2 = []"
  proof (cases "64 - length t < 8")
    case True
    have "length t + length (replicate (64 - length t) (0 :: u8)) = 64" using t(2) by simp
    from fed_step [OF ft(1) this] t(1) True
    show ?thesis by (intro that [of "f @ t @ replicate (64 - length t) 0" "[]" "64 - length t"]) (auto simp: ctxt2_def)
  next
    case False
    with ft(1) show ?thesis by (intro that [of f t 0]) (auto simp: ctxt2_def)
  qed
  have t2: "sha1_count ctxt2 mod 64 = length t2" using f2(1) by (auto simp: fed_def)
  define ctxt3 where "ctxt3 = add_count (56 - length t2) (put_m (length t2) (replicate (56 - length t2) 0) ctxt2)"
  have c3: "c_b64 ctxt3 = c_b64 ctxt" by (simp add: ctxt3_def c2)
  have f3: "fed f2 (t2 @ replicate (56 - length t2) 0) ctxt3"
    using fed_put [OF f2(1), of "replicate (56 - length t2) 0"] f2(3) t2 by (simp add: ctxt3_def)
  obtain f4 t4 where f4: "fed f4 t4 (fold PUTPAD (append_u64 (c_b64 ctxt)) ctxt3)"
    "f4 @ t4 = f2 @ (t2 @ replicate (56 - length t2) 0) @ append_u64 (c_b64 ctxt)"
    using fed_PUTPADs [OF f3] by blast
  have e: "64 - length t2 - 8 = 56 - length t2" by simp
  have pad: "sha1_pad ctxt = fold PUTPAD (append_u64 (c_b64 ctxt)) ctxt3"
    using c3 e unfolding sha1_pad_def Let_def ctxt1_def [symmetric] t(1) ctxt2_def [symmetric] t2
    by (simp only: ctxt3_def)
  define z where "z = z2 + (56 - length t2)"
  have all: "f4 @ t4 = full @ tail @ 0x80 # replicate z 0 @ append_u64 (c_b64 ctxt)"
    using f4(2) f2(2) ft(2) by (simp add: z_def replicate_add)
  have "64 dvd length f2" using f2(1) by (simp add: fed_def)
  moreover have "length (f4 @ t4) = length f2 + 64"
    using f4(2) f2(3) by simp
  ultimately have d: "64 dvd length (f4 @ t4)" by (metis dvd_add dvd_refl)
  with fed_full [OF f4(1)] have "t4 = []" by blast
  with f4(1) all have "h_b32 (sha1_pad ctxt) = fips_hash (full @ tail @ 0x80 # replicate z 0 @ append_u64 (c_b64 ctxt))"
    by (simp add: pad fed_def)
  moreover have "z = (119 - length (full @ tail) mod 64) mod 64"
  proof (rule pad_zeros)
    show "64 dvd length (full @ tail) + 1 + z + 8" using d all by (simp add: ac_simps)
    show "z < 64" using f2(4) by (simp add: z_def)
  qed
  ultimately show ?thesis by blast
qed

lemma SHA1_eq: "SHA1 msg = fips_sha1 msg"
proof -
  obtain full tail where f: "fed full tail (sha1_loop sha1_init msg)" "full @ tail = msg"
    "c_b64 (sha1_loop sha1_init msg) = of_nat (8 * length msg)"
    using fed_loop [OF fed_init, of msg] by (auto simp: sha1_init_def)
  from sha1_pad_eq [OF f(1)] f(2,3) show ?thesis
    by (auto simp: SHA1_def sha1_result_def fips_sha1_def fips_pad_def)
qed

lemma length_SHA1 [simp]: "length (SHA1 msg) = 20"
proof -
  have "length (fold fips_block bs H) = 5" if "length H = 5" for bs H
    using that by (induction bs arbitrary: H) (simp_all add: fips_block_def Let_def split_def)
  then have "length (fips_hash bs) = 5" for bs by (simp add: fips_hash_def)
  then show ?thesis by (simp add: SHA1_eq fips_sha1_def length_concat comp_def sum_list_triv)
qed

text \<open>
  C24. \<open>SHA1\<close>, which feeds the message in pieces and expands the schedule in a circular buffer of
  sixteen words, is SHA-1 of FIPS 180-4 for every message.
\<close>

theorem SHA1_is_fips: "SHA1 msg = fips_sha1 msg"
  by (rule SHA1_eq)

end
