(* ===== verification/Handshake.thy ===== *)
theory Handshake
  imports Websocket Sha1
begin

text \<open>
  The WebSocket handshake: base-64 (\<open>base64.cpp\<close>) with the round trip of its two directions, and
  \<open>WebSocket::authenticate\<close> with the HTTP request it reads and the response it sends.
\<close>

section \<open>Base 64\<close>

definition base64_chars :: string where
  "base64_chars = ''ABCDEFGHIJKLMNOPQRSTUVWXYZ'' @ ''abcdefghijklmnopqrstuvwxyz'' @ ''0123456789+/''"

text \<open>\<open>isalnum\<close> of the C locale.\<close>

definition isalnum :: "char \<Rightarrow> bool" where
  "isalnum c \<longleftrightarrow> (let n = (of_char c :: nat) in
     48 \<le> n \<and> n \<le> 57 \<or> 65 \<le> n \<and> n \<le> 90 \<or> 97 \<le> n \<and> n \<le> 122)"

definition is_base64 :: "char \<Rightarrow> bool" where
  "is_base64 c \<longleftrightarrow> isalnum c \<or> c = CHR ''+'' \<or> c = CHR ''/''"

text \<open>Three bytes as four sextets and back: \<open>char_array_4\<close> from \<open>char_array_3\<close>, and conversely.\<close>

definition sextets :: "u8 \<Rightarrow> u8 \<Rightarrow> u8 \<Rightarrow> u8 list" where
  "sextets a b c = [drop_bit 2 (a AND 0xfc), push_bit 4 (a AND 0x03) + drop_bit 4 (b AND 0xf0),
     push_bit 2 (b AND 0x0f) + drop_bit 6 (c AND 0xc0), c AND 0x3f]"

definition octets :: "u8 \<Rightarrow> u8 \<Rightarrow> u8 \<Rightarrow> u8 \<Rightarrow> u8 list" where
  "octets p q r s = [push_bit 2 p + drop_bit 4 (q AND 0x30), push_bit 4 (q AND 0xf) + drop_bit 2 (r AND 0x3c),
     push_bit 6 (r AND 0x3) + s]"

definition base64_char :: "u8 \<Rightarrow> char" where
  "base64_char q = base64_chars ! unat q"

text \<open>\<open>base64_chars.find\<close>, truncated to a byte: \<open>npos\<close> becomes 255.\<close>

definition base64_find :: "char \<Rightarrow> u8" where
  "base64_find c = (case first_index c base64_chars of Some i \<Rightarrow> of_nat i | None \<Rightarrow> 255)"

text \<open>The loop, with the bytes that wait in \<open>char_array_3\<close>.\<close>

fun base64_encode_loop :: "u8 list \<Rightarrow> u8 list \<Rightarrow> string \<Rightarrow> u8 list \<times> string" where
  "base64_encode_loop array_3 [] ret = (array_3, ret)"
| "base64_encode_loop array_3 (b # bs) ret =
     (let array_3 = array_3 @ [b] in
      if length array_3 = 3
      then base64_encode_loop [] bs (ret @ map base64_char (sextets (array_3 ! 0) (array_3 ! 1) (array_3 ! 2)))
      else base64_encode_loop array_3 bs ret)"

definition base64_encode :: "u8 list \<Rightarrow> string" where
  "base64_encode bytes_to_encode =
     (let (array_3, ret) = base64_encode_loop [] bytes_to_encode ''''; i = length array_3
      in if i > 0
         then let a = array_3 @ replicate (3 - i) 0
              in ret @ take (i + 1) (map base64_char (sextets (a ! 0) (a ! 1) (a ! 2))) @ replicate (3 - i) (CHR ''='')
         else ret)"

fun base64_decode_loop :: "char list \<Rightarrow> string \<Rightarrow> u8 list \<Rightarrow> char list \<times> u8 list" where
  "base64_decode_loop array_4 [] ret = (array_4, ret)"
| "base64_decode_loop array_4 (c # cs) ret =
     (if c \<noteq> CHR ''='' \<and> is_base64 c
      then let array_4 = array_4 @ [c] in
        if length array_4 = 4
        then base64_decode_loop [] cs (ret @
          octets (base64_find (array_4 ! 0)) (base64_find (array_4 ! 1)) (base64_find (array_4 ! 2)) (base64_find (array_4 ! 3)))
        else base64_decode_loop array_4 cs ret
      else (array_4, ret))"

definition base64_decode :: "string \<Rightarrow> u8 list" where
  "base64_decode encoded_string =
     (let (array_4, ret) = base64_decode_loop [] encoded_string []; i = length array_4
      in if i > 0
         then let a = map base64_find (array_4 @ replicate (4 - i) (CHR 0x00))
              in ret @ take (i - 1) (octets (a ! 0) (a ! 1) (a ! 2) (a ! 3))
         else ret)"

subsection \<open>The round trip\<close>

lemma length_base64_chars [simp]: "length base64_chars = 64"
  by (simp add: base64_chars_def)

lemma distinct_base64_chars: "distinct base64_chars"
  by (simp add: base64_chars_def)

lemma base64_chars_ok: "c \<in> set base64_chars \<Longrightarrow> is_base64 c \<and> c \<noteq> CHR ''=''"
proof -
  have "list_all (\<lambda>c. is_base64 c \<and> c \<noteq> CHR ''='') base64_chars"
    by (simp add: base64_chars_def is_base64_def isalnum_def Let_def)
  then show "c \<in> set base64_chars \<Longrightarrow> is_base64 c \<and> c \<noteq> CHR ''=''"
    by (simp add: list_all_iff)
qed

lemma base64_find_char: "unat q < 64 \<Longrightarrow> base64_find (base64_char q) = q"
  using first_index_distinct [OF distinct_base64_chars, of "unat q"]
  by (simp add: base64_find_def base64_char_def)

lemma base64_char_ok: "unat q < 64 \<Longrightarrow> is_base64 (base64_char q) \<and> base64_char q \<noteq> CHR ''=''"
  by (rule base64_chars_ok) (simp add: base64_char_def)

lemma sextet_masks: "(0xfc :: u8) = NOT (mask 2)" "(0x03 :: u8) = mask 2" "(0xf0 :: u8) = NOT (mask 4)" "(0x0f :: u8) = mask 4"
  "(0xc0 :: u8) = NOT (mask 6)" "(0x3f :: u8) = mask 6" "(0x30 :: u8) = push_bit 4 (mask 2)" "(0x3c :: u8) = push_bit 2 (mask 4)"
  by (simp_all add: mask_eq_exp_minus_1)

lemma sextets_eq:
  "sextets a b c = [drop_bit 2 a, push_bit 4 (take_bit 2 a) OR drop_bit 4 b,
     push_bit 2 (take_bit 4 b) OR drop_bit 6 c, take_bit 6 c]"
proof -
  have d: "drop_bit k (x AND NOT (mask k)) = drop_bit k x" for k and x :: u8
    by (rule bit_word_eqI) (auto simp: bit_simps dest: bit_imp_le_length)
  have "push_bit 4 (a AND mask 2) + drop_bit 4 b = push_bit 4 (a AND mask 2) OR drop_bit 4 b"
    by (rule disjunctive_add_eq_or) (auto simp: bit_eq_iff bit_simps dest: bit_imp_le_length)
  moreover have "push_bit 2 (b AND mask 4) + drop_bit 6 c = push_bit 2 (b AND mask 4) OR drop_bit 6 c"
    by (rule disjunctive_add_eq_or) (auto simp: bit_eq_iff bit_simps dest: bit_imp_le_length)
  ultimately show ?thesis
    by (simp only: sextets_def sextet_masks d take_bit_eq_mask)
qed

lemma octets_eq:
  assumes "\<And>k. bit p k \<Longrightarrow> k < 6" "\<And>k. bit q k \<Longrightarrow> k < 6" "\<And>k. bit r k \<Longrightarrow> k < 6" "\<And>k. bit s k \<Longrightarrow> k < 6"
  shows "octets p q r s = [push_bit 2 p OR drop_bit 4 q, push_bit 4 q OR drop_bit 2 r, push_bit 6 r OR s]"
proof -
  have q: "drop_bit 4 (q AND push_bit 4 (mask 2)) = drop_bit 4 q"
    by (rule bit_word_eqI) (use assms(2) in \<open>force simp: bit_simps\<close>)
  have r: "drop_bit 2 (r AND push_bit 2 (mask 4)) = drop_bit 2 r"
    by (rule bit_word_eqI) (use assms(3) in \<open>force simp: bit_simps\<close>)
  have m: "push_bit 4 (q AND mask 4) = push_bit 4 q" "push_bit 6 (r AND mask 2) = push_bit 6 r"
    by (rule bit_word_eqI, auto simp: bit_simps)+
  have "push_bit 2 p + drop_bit 4 q = push_bit 2 p OR drop_bit 4 q"
    by (rule disjunctive_add_eq_or) (use assms(2) in \<open>fastforce simp: bit_eq_iff bit_simps\<close>)
  moreover have "push_bit 4 q + drop_bit 2 r = push_bit 4 q OR drop_bit 2 r"
    by (rule disjunctive_add_eq_or) (use assms(3) in \<open>fastforce simp: bit_eq_iff bit_simps\<close>)
  moreover have "push_bit 6 r + s = push_bit 6 r OR s"
    by (rule disjunctive_add_eq_or) (use assms(4) in \<open>fastforce simp: bit_eq_iff bit_simps\<close>)
  ultimately show ?thesis
    by (simp only: octets_def sextet_masks q r m)
qed

lemma length_sextets [simp]: "length (sextets a b c) = 4"
  by (simp add: sextets_def)

lemma sextets_bits:
  assumes "q \<in> set (sextets a b c)" "bit q k" shows "k < 6"
  using assms bit_imp_le_length [of a "k + 2"] bit_imp_le_length [of b "k + 4"] bit_imp_le_length [of c "k + 6"]
  by (auto simp: sextets_eq bit_simps add.commute)

lemma sextets_bounds:
  assumes "q \<in> set (sextets a b c)" shows "unat q < 64"
proof -
  have "q = take_bit 6 q"
    by (rule bit_word_eqI) (use sextets_bits [OF assms] in \<open>auto simp: bit_simps\<close>)
  then have "unat q = take_bit 6 (unat q)" by (metis unsigned_take_bit_eq)
  also have "\<dots> < 2 ^ 6" by (rule take_bit_nat_less_exp)
  finally show ?thesis by simp
qed

lemma octets_sextets:
  "octets (sextets a b c ! 0) (sextets a b c ! 1) (sextets a b c ! 2) (sextets a b c ! 3) = [a, b, c]"
proof -
  have n: "bit (sextets a b c ! i) k \<Longrightarrow> k < 6" if "i < 4" for i k
    using that by (intro sextets_bits [of "sextets a b c ! i" a b c]) auto
  have b8: "bit x n \<Longrightarrow> n < 8" for x :: u8 and n
    using bit_imp_le_length [of x n] by simp
  have "bit (push_bit 2 (drop_bit 2 a) OR drop_bit 4 (push_bit 4 (take_bit 2 a) OR drop_bit 4 b)) n = bit a n" for n
  proof (cases "2 \<le> n")
    case True
    then have "2 + (n - 2) = n" by simp
    with True show ?thesis
      by (simp only: bit_or_iff bit_push_bit_iff bit_drop_bit_eq bit_take_bit_iff comp_apply) (auto dest: b8)
  next
    case False
    then show ?thesis by (auto simp: bit_or_iff bit_push_bit_iff bit_drop_bit_eq bit_take_bit_iff dest: b8)
  qed
  moreover have "bit (push_bit 4 (push_bit 4 (take_bit 2 a) OR drop_bit 4 b) OR
      drop_bit 2 (push_bit 2 (take_bit 4 b) OR drop_bit 6 c)) n = bit b n" for n
    by (cases "4 \<le> n") (auto simp: bit_or_iff bit_push_bit_iff bit_drop_bit_eq bit_take_bit_iff dest: b8)
  moreover have "bit (push_bit 6 (push_bit 2 (take_bit 4 b) OR drop_bit 6 c) OR take_bit 6 c) n = bit c n" for n
    by (cases "6 \<le> n") (auto simp: bit_or_iff bit_push_bit_iff bit_drop_bit_eq bit_take_bit_iff dest: b8)
  ultimately have
    "push_bit 2 (drop_bit 2 a) OR drop_bit 4 (push_bit 4 (take_bit 2 a) OR drop_bit 4 b) = a"
    "push_bit 4 (push_bit 4 (take_bit 2 a) OR drop_bit 4 b) OR drop_bit 2 (push_bit 2 (take_bit 4 b) OR drop_bit 6 c) = b"
    "push_bit 6 (push_bit 2 (take_bit 4 b) OR drop_bit 6 c) OR take_bit 6 c = c"
    by (blast intro: bit_word_eqI)+
  moreover have "octets (sextets a b c ! 0) (sextets a b c ! 1) (sextets a b c ! 2) (sextets a b c ! 3) =
    [push_bit 2 (sextets a b c ! 0) OR drop_bit 4 (sextets a b c ! 1),
     push_bit 4 (sextets a b c ! 1) OR drop_bit 2 (sextets a b c ! 2), push_bit 6 (sextets a b c ! 2) OR (sextets a b c ! 3)]"
    by (rule octets_eq; erule n [rotated]; simp)
  ultimately show ?thesis by (simp add: sextets_eq)
qed

text \<open>The reference: groups of three bytes, the last padded.\<close>

fun base64_groups :: "u8 list \<Rightarrow> string" where
  "base64_groups (a # b # c # bs) = map base64_char (sextets a b c) @ base64_groups bs"
| "base64_groups [a, b] = take 3 (map base64_char (sextets a b 0)) @ ''=''"
| "base64_groups [a] = take 2 (map base64_char (sextets a 0 0)) @ ''==''"
| "base64_groups [] = ''''"

lemma encode_loop_groups:
  "(let (array_3, ret) = base64_encode_loop [] bs ret; i = length array_3
      in if i > 0
         then let a = array_3 @ replicate (3 - i) 0
              in ret @ take (i + 1) (map base64_char (sextets (a ! 0) (a ! 1) (a ! 2))) @ replicate (3 - i) (CHR ''='')
         else ret) = ret @ base64_groups bs"
  by (induction bs arbitrary: ret rule: base64_groups.induct) (simp_all add: Let_def numeral_3_eq_3 numeral_2_eq_2)

lemma base64_encode_groups: "base64_encode bs = base64_groups bs"
  using encode_loop_groups [of bs "''''"] by (simp add: base64_encode_def)

lemma sextets_nth: "sextets a b c = [sextets a b c ! 0, sextets a b c ! 1, sextets a b c ! 2, sextets a b c ! 3]"
  by (simp add: sextets_def)

lemma decode_loop_ok:
  assumes "\<forall>q\<in>set qs. unat q < 64" "length arr + length qs < 4"
  shows "base64_decode_loop arr (map base64_char qs @ cs) ret = base64_decode_loop (arr @ map base64_char qs) cs ret"
  using assms by (induction qs arbitrary: arr) (auto simp: base64_char_ok Let_def)

lemma decode_loop_group:
  "base64_decode_loop [] (map base64_char (sextets a b c) @ cs) ret = base64_decode_loop [] cs (ret @ [a, b, c])"
proof -
  define q where "q = sextets a b c"
  have u: "unat (q ! i) < 64" if "i < 4" for i
    using that by (intro sextets_bounds [of _ a b c]) (auto simp: q_def)
  have q: "q = [q ! 0, q ! 1, q ! 2] @ [q ! 3]" using sextets_nth [of a b c] by (simp add: q_def)
  have o: "octets (q ! 0) (q ! 1) (q ! 2) (q ! 3) = [a, b, c]" by (simp add: q_def octets_sextets [unfolded One_nat_def])
  have "base64_decode_loop [] (map base64_char [q ! 0, q ! 1, q ! 2] @ base64_char (q ! 3) # cs) ret =
      base64_decode_loop (map base64_char [q ! 0, q ! 1, q ! 2]) (base64_char (q ! 3) # cs) ret"
    using decode_loop_ok [of "[q ! 0, q ! 1, q ! 2]" "[]"] u by simp
  also have "\<dots> = base64_decode_loop [] cs (ret @ [a, b, c])"
    using u base64_char_ok [OF u] o by (simp add: base64_find_char Let_def)
  finally show ?thesis
    by (subst sextets_nth) (simp flip: q_def)
qed

lemma octets_take:
  "take 2 (octets p q r s) = take 2 (octets p q r s')" "take 1 (octets p q r s) = take 1 (octets p q r' s')"
  by (simp_all add: octets_def)

lemma decode_groups:
  "(let (array_4, ret) = base64_decode_loop [] (base64_groups bs) ret; i = length array_4
      in if i > 0
         then let a = map base64_find (array_4 @ replicate (4 - i) (CHR 0x00))
              in ret @ take (i - 1) (octets (a ! 0) (a ! 1) (a ! 2) (a ! 3))
         else ret) = ret @ bs"
proof (induction bs arbitrary: ret rule: base64_groups.induct)
  case (1 a b c bs)
  from "1.IH" [of "ret @ [a, b, c]"] show ?case by (simp add: decode_loop_group)
next
  case (2 a b)
  define q where "q = sextets a b 0"
  have u: "unat (q ! i) < 64" if "i < 4" for i
    using that by (intro sextets_bounds [of _ a b 0]) (auto simp: q_def)
  have t: "base64_groups [a, b] = map base64_char [q ! 0, q ! 1, q ! 2] @ ''=''"
    by (simp add: q_def sextets_def)
  have loop: "base64_decode_loop [] (base64_groups [a, b]) ret = (map base64_char [q ! 0, q ! 1, q ! 2], ret)"
    unfolding t using decode_loop_ok [of "[q ! 0, q ! 1, q ! 2]" "[]" "''=''"] u by simp
  moreover have "take 2 (octets (q ! 0) (q ! 1) (q ! 2) x) = [a, b]" for x
    using octets_take(1) [of "q ! 0" "q ! 1" "q ! 2" x "q ! 3"] by (simp add: q_def octets_sextets [unfolded One_nat_def])
  ultimately show ?case unfolding loop using u by (simp add: base64_find_char Let_def numeral_2_eq_2)
next
  case (3 a)
  define q where "q = sextets a 0 0"
  have u: "unat (q ! i) < 64" if "i < 4" for i
    using that by (intro sextets_bounds [of _ a 0 0]) (auto simp: q_def)
  have t: "base64_groups [a] = map base64_char [q ! 0, q ! 1] @ ''==''"
    by (simp add: q_def sextets_def)
  have loop: "base64_decode_loop [] (base64_groups [a]) ret = (map base64_char [q ! 0, q ! 1], ret)"
    unfolding t using decode_loop_ok [of "[q ! 0, q ! 1]" "[]" "''==''"] u by simp
  moreover have "take 1 (octets (q ! 0) (q ! 1) y x) = [a]" for x y
    using octets_take(2) [of "q ! 0" "q ! 1" y x "q ! 2" "q ! 3"] by (simp add: q_def octets_sextets [unfolded One_nat_def])
  ultimately show ?case unfolding loop using u by (simp add: base64_find_char Let_def)
qed simp

text \<open>
  C25. Base 64: the encoder writes the standard groups with their padding, and decoding what was
  encoded gives back the bytes, for every length.
\<close>

theorem base64_roundtrip:
  "base64_encode bs = base64_groups bs \<and> base64_decode (base64_encode bs) = bs"
  using decode_groups [of bs "[]"] by (simp add: base64_encode_groups base64_decode_def)

section \<open>The opening handshake\<close>

definition byte_of :: "char \<Rightarrow> u8" where
  "byte_of c = of_nat (of_char c)"

definition char_of_byte :: "u8 \<Rightarrow> char" where
  "char_of_byte b = char_of (unat b)"

lemma char_of_byte_of [simp]: "char_of_byte (byte_of c) = c"
  using nat_of_char_less_256 [of c] by (simp add: char_of_byte_def byte_of_def unat_of_nat_small)

lemma map_char_of_byte_of [simp]: "map (char_of_byte \<circ> byte_of) s = s" "map char_of_byte (map byte_of s) = s"
  by (simp_all add: comp_def)

abbreviation (input) CRLF :: string where "CRLF \<equiv> [CHR 0x0D, CHR 0x0A]"

text \<open>
  \<open>std::string(read_str)\<close>: the characters before the first zero byte; without one the constructor
  runs past the buffer.
\<close>

definition c_string :: "(nat \<Rightarrow> u8) \<Rightarrow> nat \<Rightarrow> u8 list option" where
  "c_string str len = (let bs = map str [0..<len] in if 0 \<in> set bs then Some (takeWhile (\<lambda>b. b \<noteq> 0) bs) else None)"

definition read_http_packet :: "'e reader \<Rightarrow> 'e websocket \<Rightarrow> (int \<times> string \<times> 'e websocket) option" where
  "read_http_packet rd ws =
     (let ws = reset_read_buff ws in
      case rd (comm_fd ws) WEBSOCK_READ_STR_LEN of
        (None, e) \<Rightarrow> Some (- 1, '''', ws\<lparr>comm_fd := e\<rparr>)
      | (Some bs, e) \<Rightarrow>
          let ws = ws\<lparr>comm_fd := e, read_str := (\<lambda>i. if i < length bs then bs ! i else read_str ws i)\<rparr> in
          if length bs = KOHERON_READ_STR_LEN then Some (- 1, '''', ws)
          else if bs = [] then Some (- 1, '''', ws\<lparr>connection_closed := True\<rparr>)
          else Option.bind (c_string (read_str ws) WEBSOCK_READ_STR_LEN) (\<lambda>cs.
            let http_packet = map char_of_byte cs
            in if find_sub (CRLF @ CRLF) http_packet = None then Some (- 1, http_packet, ws)
               else Some (int (length bs), http_packet, ws)))"

definition WSKeyIdentifier :: string where "WSKeyIdentifier = ''Sec-WebSocket-Key: ''"
definition WSProtocolIdentifier :: string where "WSProtocolIdentifier = ''Sec-WebSocket-Protocol: ''"
definition WSMagic :: string where "WSMagic = ''258EAFA5-E914-47DA-95CA-C5AB0DC85B11''"

definition handshake_response :: "string \<Rightarrow> bool \<Rightarrow> string" where
  "handshake_response final_str is_protocol =
     ''HTTP/1.1 101 Switching Protocols'' @ CRLF @ ''Upgrade: websocket'' @ CRLF @ ''Connection: Upgrade'' @ CRLF @
     ''Sec-WebSocket-Accept: '' @ final_str @ CRLF @
     (if is_protocol then ''Sec-WebSocket-Protocol: chat'' @ CRLF else '''') @ CRLF"

definition authenticate :: "'e reader \<Rightarrow> 'e writer \<Rightarrow> 'e websocket \<Rightarrow> (int \<times> 'e websocket) option" where
  "authenticate rd wr ws =
     Option.bind (read_http_packet rd ws) (\<lambda>(err, http_packet, ws).
       if err < 0 then Some (- 1, ws)
       else
         let is_protocol = find_sub WSProtocolIdentifier http_packet \<noteq> None
         in case find_sub WSKeyIdentifier http_packet of
              None \<Rightarrow> Some (- 1, ws)
            | Some pos \<Rightarrow>
                let key = take 24 (drop (pos + length WSKeyIdentifier) http_packet) @ WSMagic;
                    final_str = base64_encode (take 20 (SHA1 (map byte_of key)))
                in Some (send_request wr (map byte_of (handshake_response final_str is_protocol)) ws))"

lemma c_string_prefix:
  assumes "\<forall>i<length bs. str i = bs ! i" "length bs < len" "str (length bs) = 0" "0 \<notin> set bs"
  shows "c_string str len = Some bs"
proof -
  have "map str [0..<len] = map str [0..<length bs] @ str (length bs) # map str [Suc (length bs)..<len]"
    using assms(2) upt_add_eq_append [of 0 "length bs" "len - length bs"] by (simp add: upt_conv_Cons)
  moreover have "map str [0..<length bs] = bs" using assms(1) by (intro nth_equalityI) auto
  moreover have "takeWhile (\<lambda>b. b \<noteq> 0) (bs @ 0 # zs) = bs" for zs
    using assms(4) by (subst takeWhile_append2) auto
  ultimately show ?thesis
    using assms(3) by (simp add: c_string_def Let_def)
qed

lemma reset_read_buff_simps [simp]:
  "comm_fd (reset_read_buff ws) = comm_fd ws" "connection_closed (reset_read_buff ws) = connection_closed ws"
  by (simp_all add: reset_read_buff_def)

lemma read_http_packet_ok:
  assumes "rd (comm_fd ws) WEBSOCK_READ_STR_LEN = (Some (map byte_of pk), e)"
    and "pk \<noteq> ''''" "length pk < WEBSOCK_READ_STR_LEN" "length pk \<noteq> KOHERON_READ_STR_LEN" "CHR 0x00 \<notin> set pk"
    and "find_sub (CRLF @ CRLF) pk \<noteq> None" "\<forall>i\<ge>read_str_len ws. read_str ws i = 0"
  shows "\<exists>str. read_http_packet rd ws =
    Some (int (length pk), pk, (reset_read_buff ws)\<lparr>comm_fd := e, read_str := str\<rparr>)"
proof -
  define str where "str = (\<lambda>i. if i < length pk then map byte_of pk ! i else read_str (reset_read_buff ws) i)"
  have c0: "char_of_byte 0 = CHR 0x00" by (simp add: char_of_byte_def char_of_def)
  have z: "byte_of x = 0 \<Longrightarrow> x = CHR 0x00" for x
    using char_of_byte_of [of x] c0 by auto
  have "c_string str WEBSOCK_READ_STR_LEN = Some (map byte_of pk)"
  proof (rule c_string_prefix)
    show "str (length (map byte_of pk)) = 0" using assms(7) by (simp add: str_def reset_read_buff_def)
    show "0 \<notin> set (map byte_of pk)" using assms(5) z by force
  qed (use assms(3) in \<open>auto simp: str_def\<close>)
  then show ?thesis
    using assms(1,2,4,6) by (intro exI [of _ str]) (simp add: read_http_packet_def Let_def flip: str_def)
qed

text \<open>The response RFC 6455 asks for, its lines and its magic string written out here on their own.\<close>

definition http_lines :: "string list \<Rightarrow> string" where
  "http_lines ls = concat (map (\<lambda>l. l @ CRLF) ls) @ CRLF"

definition rfc6455_response :: "string \<Rightarrow> bool \<Rightarrow> string" where
  "rfc6455_response accept protocol = http_lines
     ([''HTTP/1.1 101 Switching Protocols'', ''Upgrade: websocket'', ''Connection: Upgrade'', ''Sec-WebSocket-Accept: '' @ accept] @
      (if protocol then [''Sec-WebSocket-Protocol: chat''] else []))"

definition accept_response :: "string \<Rightarrow> nat \<Rightarrow> u8 list" where
  "accept_response pk pos = map byte_of (rfc6455_response
     (base64_groups (fips_sha1 (map byte_of
       (take 24 (drop (pos + length ''Sec-WebSocket-Key: '') pk) @ ''258EAFA5-E914-47DA-95CA-C5AB0DC85B11''))))
     (find_sub ''Sec-WebSocket-Protocol: '' pk \<noteq> None))"

lemma handshake_response_lines: "handshake_response = rfc6455_response"
  by (simp add: fun_eq_iff handshake_response_def rfc6455_response_def http_lines_def)

lemma accept_response_eq:
  "accept_response pk pos = map byte_of (handshake_response
     (base64_groups (fips_sha1 (map byte_of (take 24 (drop (pos + length WSKeyIdentifier) pk) @ WSMagic))))
     (find_sub WSProtocolIdentifier pk \<noteq> None))"
  unfolding accept_response_def handshake_response_lines WSKeyIdentifier_def WSMagic_def WSProtocolIdentifier_def ..

lemma accept_response_not_Nil: "accept_response pk pos \<noteq> []"
  by (simp add: accept_response_eq handshake_response_def)

lemma authenticate_ok:
  assumes "rd (comm_fd ws) WEBSOCK_READ_STR_LEN = (Some (map byte_of pk), e)"
    and "length pk < WEBSOCK_READ_STR_LEN" "length pk \<noteq> KOHERON_READ_STR_LEN" "CHR 0x00 \<notin> set pk"
    and "find_sub (CRLF @ CRLF) pk \<noteq> None" "\<forall>i\<ge>read_str_len ws. read_str ws i = 0" "\<not> connection_closed ws"
  obtains ws' where "comm_fd ws' = e" "\<not> connection_closed ws'"
    "authenticate rd wr ws = Some (case find_sub WSKeyIdentifier pk of
       Some pos \<Rightarrow> send_request wr (accept_response pk pos) ws' | None \<Rightarrow> (- 1, ws'))"
proof -
  have ne: "pk \<noteq> ''''" using assms(5) by auto
  obtain str where r: "read_http_packet rd ws =
      Some (int (length pk), pk, (reset_read_buff ws)\<lparr>comm_fd := e, read_str := str\<rparr>)"
    using read_http_packet_ok [where rd = rd and ws = ws and pk = pk and e = e] assms ne by blast
  define ws1 where "ws1 = (reset_read_buff ws)\<lparr>comm_fd := e, read_str := str\<rparr>"
  show ?thesis
  proof (rule that)
    show "comm_fd ws1 = e" "\<not> connection_closed ws1" using assms(7) by (simp_all add: ws1_def)
    show "authenticate rd wr ws = Some (case find_sub WSKeyIdentifier pk of
       Some pos \<Rightarrow> send_request wr (accept_response pk pos) ws1 | None \<Rightarrow> (- 1, ws1))"
      using r by (simp add: authenticate_def Let_def accept_response_eq SHA1_eq [symmetric] base64_encode_groups
        split: option.split flip: ws1_def)
  qed
qed

text \<open>
  C26. The opening handshake: a request that arrives in one read, with a key of 24 characters behind
  the first \<open>Sec-WebSocket-Key\<close>, is answered with exactly the response of RFC 6455, whose accept
  value is the base 64 of the SHA-1 of the key and the magic string; the protocol line is there
  exactly when the request had one. A request without the key gets no answer.
\<close>

theorem handshake_accepts:
  assumes "rd (comm_fd ws) WEBSOCK_READ_STR_LEN = (Some (map byte_of pk), e)" "byte_sink wr sent"
    and "length pk < WEBSOCK_READ_STR_LEN" "length pk \<noteq> KOHERON_READ_STR_LEN" "CHR 0x00 \<notin> set pk"
    and "find_sub (CRLF @ CRLF) pk \<noteq> None" "\<forall>i\<ge>read_str_len ws. read_str ws i = 0" "\<not> connection_closed ws"
  shows "case find_sub WSKeyIdentifier pk of
      Some pos \<Rightarrow> \<exists>n ws'. authenticate rd wr ws = Some (n, ws') \<and> 0 < n \<and> \<not> connection_closed ws' \<and>
        sent (comm_fd ws') = sent e @ accept_response pk pos
    | None \<Rightarrow> \<exists>ws'. authenticate rd wr ws = Some (- 1, ws') \<and> comm_fd ws' = e"
proof -
  obtain ws1 where ws1: "comm_fd ws1 = e" "\<not> connection_closed ws1"
    "authenticate rd wr ws = Some (case find_sub WSKeyIdentifier pk of
       Some pos \<Rightarrow> send_request wr (accept_response pk pos) ws1 | None \<Rightarrow> (- 1, ws1))"
    using authenticate_ok [where rd = rd and ws = ws and pk = pk and e = e and wr = wr] assms by blast
  show ?thesis
  proof (cases "find_sub WSKeyIdentifier pk")
    case None
    with ws1 show ?thesis by simp
  next
    case (Some pos)
    obtain n ws' where "send_request wr (accept_response pk pos) ws1 = (n, ws')" "0 < n"
      "sent (comm_fd ws') = sent e @ accept_response pk pos" "\<not> connection_closed ws'"
      using send_request_sink [OF assms(2) ws1(2) accept_response_not_Nil] ws1(1) by metis
    with ws1(3) Some show ?thesis by simp
  qed
qed

text \<open>The key of RFC 6455, on a socket that hands out the request at once and takes any bytes.\<close>

definition demo_request :: string where
  "demo_request = ''GET / HTTP/1.1'' @ CRLF @ ''Sec-WebSocket-Key: dGhlIHNhbXBsZSBub25jZQ=='' @ CRLF @ CRLF"

lemma demo_request_finds:
  "find_sub (CRLF @ CRLF) demo_request = Some 59" "find_sub WSKeyIdentifier demo_request = Some 16"
  "find_sub WSProtocolIdentifier demo_request = None" "length demo_request = 63"
  "take 24 (drop 35 demo_request) = ''dGhlIHNhbXBsZSBub25jZQ==''" "CHR 0x00 \<notin> set demo_request"
  by (simp_all add: demo_request_def WSKeyIdentifier_def WSProtocolIdentifier_def)

theorem handshake_accepts_witness:
  "\<exists>n ws'. authenticate (\<lambda>e n. (Some (fst e), ([], snd e))) (\<lambda>e bs. (int (length bs), (fst e, snd e @ bs)))
     (idle_socket (map byte_of demo_request, [])) = Some (n, ws') \<and> 0 < n \<and>
     snd (comm_fd ws') = map byte_of (rfc6455_response
       (base64_groups (fips_sha1 (map byte_of (''dGhlIHNhbXBsZSBub25jZQ=='' @ WSMagic)))) False)"
proof -
  have sink: "byte_sink (\<lambda>e bs. (int (length bs), (fst e, snd e @ bs))) (snd :: u8 list \<times> u8 list \<Rightarrow> u8 list)"
    by (auto simp: byte_sink_def)
  have l: "length WSKeyIdentifier = 19" by (simp add: WSKeyIdentifier_def)
  have i: "read_str (idle_socket e) i = 0" for e :: "u8 list \<times> u8 list" and i by (simp add: idle_socket_def)
  show ?thesis
    using handshake_accepts [where rd = "\<lambda>e n. (Some (fst e), ([], snd e))" and pk = demo_request and
        ws = "idle_socket (map byte_of demo_request, [])" and e = "([], [])", OF _ sink]
    by (simp add: demo_request_finds demo_request_finds(1) [simplified] accept_response_eq handshake_response_lines l i del: map_append) (elim exE conjE, intro exI conjI)
qed

end
