(* ===== verification/Session.thy ===== *)
theory Session
  imports Handshake
begin

text \<open>
  Sessions (\<open>session.hpp\<close>, \<open>session.cpp\<close>): the loop that reads a command and has it executed, over a
  TCP or Unix socket and over a WebSocket, and what an operation receives for its arguments. What
  \<open>SessionAbstract\<close> dispatches on is a record of operations; the contract a driver relies on is the
  locale \<open>command_channel\<close>, and both kinds of socket are shown to meet it, for containers up to the size
  each of them can take.
\<close>

section \<open>The operations of a session\<close>

text \<open>
  \<open>read_command\<close> returns the count of header bytes (or 0 at the end, or a negative error) and the
  driver and operation numbers; the receive functions an error code and what the container then
  holds. \<open>None\<close> is an access outside a buffer or an exception that ends the server.
\<close>

record 's channel =
  ch_init :: "'s \<Rightarrow> (int \<times> 's) option"
  ch_read_command :: "'s \<Rightarrow> (int \<times> (u16 \<times> u16) \<times> 's) option"
  ch_deserialize :: "scalar_type list \<Rightarrow> 's \<Rightarrow> (int \<times> scalar list \<times> 's) option"
  ch_recv_array :: "nat \<Rightarrow> 's \<Rightarrow> (int \<times> u8 list \<times> 's) option"
  ch_recv_vector :: "nat \<Rightarrow> 's \<Rightarrow> (int \<times> u8 list \<times> 's) option"
  ch_recv_string :: "'s \<Rightarrow> (int \<times> u8 list \<times> 's) option"
  ch_exit :: "'s \<Rightarrow> int \<times> 's"

text \<open>\<open>cmd.header.deserialize<uint16_t, uint16_t>()\<close>, four bytes into the header.\<close>

definition command_ids :: "u8 list \<Rightarrow> u16 \<times> u16" where
  "command_ids header = (case deserialize 4 [TUInt16, TUInt16] header of
     [UInt16 driver, UInt16 operation] \<Rightarrow> (driver, operation) | _ \<Rightarrow> (0, 0))"

section \<open>TCP and Unix sockets\<close>

function rcv_n_bytes :: "'e reader \<Rightarrow> nat \<Rightarrow> u8 list \<Rightarrow> 'e \<Rightarrow> int \<times> u8 list \<times> 'e" where
  "rcv_n_bytes rd n_bytes buffer e =
     (if length buffer < n_bytes then
        case rd e (n_bytes - length buffer) of
          (None, e) \<Rightarrow> (- 1, buffer, e)
        | (Some bs, e) \<Rightarrow>
            if bs = [] then (0, buffer, e) else rcv_n_bytes rd n_bytes (buffer @ bs) e
      else (int (length buffer), buffer, e))"
  by auto

termination
  by (relation "measure (\<lambda>(_, n, buffer, _). n - length buffer)") (auto simp: length_greater_0_conv [symmetric] simp del: length_greater_0_conv)

declare rcv_n_bytes.simps [simp del]

text \<open>
  A receive stores into memory that already holds something (\<open>junk n\<close>, the \<open>n\<close> bytes of a buffer on
  the stack or of the driver's argument structure); what is not received keeps it.
\<close>

definition over :: "(nat \<Rightarrow> u8 list) \<Rightarrow> nat \<Rightarrow> u8 list \<Rightarrow> u8 list" where
  "over junk n bs = take n (bs @ drop (length bs) (junk n))"

text \<open>Counts are 64 bits wide; returned as an \<open>int\<close> they are cut to 32.\<close>

definition c_int :: "int \<Rightarrow> int" where
  "c_int n = signed_take_bit 31 n"

definition tcp_read_command :: "'e reader \<Rightarrow> 'e \<Rightarrow> (int \<times> (u16 \<times> u16) \<times> 'e) option" where
  "tcp_read_command rd e =
     (case rcv_n_bytes rd 8 [] e of (r, header, e) \<Rightarrow>
        let header_bytes = c_int r in
        if header_bytes = 0 then Some (header_bytes, (0, 0), e)
        else if header_bytes < 0 then Some (header_bytes, (0, 0), e)
        else Some (header_bytes, command_ids header, e))"

definition get_pack_length :: "'e reader \<Rightarrow> (nat \<Rightarrow> u8 list) \<Rightarrow> 'e \<Rightarrow> int \<times> 'e" where
  "get_pack_length rd junk e =
     (case rcv_n_bytes rd 4 [] e of (err, bs, e) \<Rightarrow>
        if err < 0 then (- 1, e) else (uint (extract_u32 (over junk 8 bs)), e))"

definition tcp_deserialize ::
  "'e reader \<Rightarrow> (nat \<Rightarrow> u8 list) \<Rightarrow> scalar_type list \<Rightarrow> 'e \<Rightarrow> (int \<times> scalar list \<times> 'e) option" where
  "tcp_deserialize rd junk ts e =
     (if ts = [] then Some (0, [], e)
      else
        let pack_len = required_buffer_size ts
        in case rcv_n_bytes rd pack_len [] e of (err, bs, e) \<Rightarrow> Some (c_int err, deserialize 0 ts (over junk pack_len bs), e))"

definition tcp_recv_array ::
  "'e reader \<Rightarrow> (nat \<Rightarrow> u8 list) \<Rightarrow> nat \<Rightarrow> 'e \<Rightarrow> (int \<times> u8 list \<times> 'e) option" where
  "tcp_recv_array rd junk n e =
     (case rcv_n_bytes rd n [] e of (err, bs, e) \<Rightarrow> Some (c_int err, over junk n bs, e))"

text \<open>
  The length of a vector is a division of an \<open>int64_t\<close> by \<open>sizeof(T)\<close>, a \<open>size_t\<close>: with a \<open>size_t\<close> of 64 bits it is
  unsigned, so that the test for a negative length cannot succeed, and with one of 32 bits (the server is built for
  32-bit and 64-bit ARM) it is signed and cut towards zero. \<open>room\<close> is how many bytes a container can be given before
  \<open>resize\<close> throws.
\<close>

datatype abi = ILP32 | LP64

record target =
  size_t :: abi
  room :: nat

definition pack_elements :: "abi \<Rightarrow> int \<Rightarrow> nat \<Rightarrow> int" where
  "pack_elements a n sizeof_T = (case a of
     LP64 \<Rightarrow> n mod 2 ^ 64 div int sizeof_T
   | ILP32 \<Rightarrow> sgn n * (\<bar>n\<bar> div int sizeof_T))"

definition tcp_recv_vector ::
  "target \<Rightarrow> 'e reader \<Rightarrow> (nat \<Rightarrow> u8 list) \<Rightarrow> nat \<Rightarrow> 'e \<Rightarrow> (int \<times> u8 list \<times> 'e) option" where
  "tcp_recv_vector tgt rd junk sizeof_T e =
     (case get_pack_length rd junk e of (pack_length, e) \<Rightarrow>
        let len = pack_elements (size_t tgt) pack_length sizeof_T; n = nat len * sizeof_T
        in if len < 0 then Some (- 1, [], e)
           else if n > room tgt then None
           else case rcv_n_bytes rd n [] e of (err, bs, e) \<Rightarrow> Some (c_int err, over junk n bs, e))"

definition tcp_recv_string ::
  "target \<Rightarrow> 'e reader \<Rightarrow> (nat \<Rightarrow> u8 list) \<Rightarrow> 'e \<Rightarrow> (int \<times> u8 list \<times> 'e) option" where
  "tcp_recv_string tgt rd junk e =
     (case get_pack_length rd junk e of (len, e) \<Rightarrow>
        if len < 0 then Some (- 1, [], e)
        else if nat len > room tgt then None
        else case rcv_n_bytes rd (nat len) [] e of (err, bs, e) \<Rightarrow> Some (c_int err, over junk (nat len) bs, e))"

definition tcp_channel :: "target \<Rightarrow> 'e reader \<Rightarrow> (nat \<Rightarrow> u8 list) \<Rightarrow> 'e channel" where
  "tcp_channel tgt rd junk = \<lparr>ch_init = (\<lambda>e. Some (0, e)), ch_read_command = tcp_read_command rd,
     ch_deserialize = tcp_deserialize rd junk, ch_recv_array = tcp_recv_array rd junk,
     ch_recv_vector = tcp_recv_vector tgt rd junk, ch_recv_string = tcp_recv_string tgt rd junk,
     ch_exit = (\<lambda>e. (0, e))\<rparr>"

section \<open>WebSockets\<close>

text \<open>The endpoint, and the command with the position of the next read of its payload.\<close>

record 'e ws_session =
  websock :: "'e websocket"
  ws_cmd :: command
  cmd_position :: nat

definition cmd_buffer :: "'e ws_session \<Rightarrow> buffer" where
  "cmd_buffer s = \<lparr>bdata = map (cmd_payload (ws_cmd s)) [0..<CMD_PAYLOAD_BUFFER_LEN], position = cmd_position s\<rparr>"

definition ws_read_command :: "'e reader \<Rightarrow> 'e ws_session \<Rightarrow> (int \<times> (u16 \<times> u16) \<times> 'e ws_session) option" where
  "ws_read_command rd s =
     Option.bind (receive_cmd rd (ws_cmd s) (websock s)) (\<lambda>(r, cmd, ws).
       let s = s\<lparr>websock := ws, ws_cmd := cmd, cmd_position := 0\<rparr>
       in if r < 0 then Some (- 1, (0, 0), s)
          else if connection_closed ws then Some (0, (0, 0), s)
          else if payload_size ws < 8 then Some (- 1, (0, 0), s)
          else Some (8, command_ids (map (cmd_header cmd) [0..<8]), s))"

definition ws_deserialize :: "scalar_type list \<Rightarrow> 'e ws_session \<Rightarrow> (int \<times> scalar list \<times> 'e ws_session) option" where
  "ws_deserialize ts s =
     (if ts = [] then Some (0, [], s)
      else map_option (\<lambda>(vs, b). (0, vs, s\<lparr>cmd_position := position b\<rparr>)) (buffer_deserialize ts (cmd_buffer s)))"

definition ws_array :: "nat \<Rightarrow> 'e ws_session \<Rightarrow> (int \<times> u8 list \<times> 'e ws_session) option" where
  "ws_array n s = map_option (\<lambda>(bs, b). (0, bs, s\<lparr>cmd_position := position b\<rparr>)) (ws_recv_array n (cmd_buffer s))"

text \<open>The result of the receive functions of \<open>Serializer\<close> as an error code and contents.\<close>

definition ws_received ::
  "'e ws_session \<Rightarrow> ((int + u8 list) \<times> buffer) option \<Rightarrow> (int \<times> u8 list \<times> 'e ws_session) option" where
  "ws_received s r = map_option (\<lambda>(x, b). case x of
     Inl err \<Rightarrow> (err, [], s\<lparr>cmd_position := position b\<rparr>) | Inr bs \<Rightarrow> (0, bs, s\<lparr>cmd_position := position b\<rparr>)) r"

definition ws_channel :: "'e reader \<Rightarrow> 'e writer \<Rightarrow> 'e ws_session channel" where
  "ws_channel rd wr = \<lparr>
     ch_init = (\<lambda>s. map_option (\<lambda>(r, ws). (if r < 0 then - 1 else 0, s\<lparr>websock := ws\<rparr>)) (authenticate rd wr (websock s))),
     ch_read_command = ws_read_command rd, ch_deserialize = ws_deserialize, ch_recv_array = ws_array,
     ch_recv_vector = (\<lambda>n s. ws_received s (ws_recv_vector n (cmd_buffer s))),
     ch_recv_string = (\<lambda>s. ws_received s (ws_recv_string (cmd_buffer s))),
     ch_exit = (\<lambda>s. case ws_exit wr (websock s) of (r, ws) \<Rightarrow> (r, s\<lparr>websock := ws\<rparr>))\<rparr>"

section \<open>The session loop\<close>

text \<open>
  \<open>run\<close>: \<open>stop\<close> is the exit signal another thread may set and \<open>gone\<close> the status a failed send
  leaves, both part of the state that \<open>execute\<close> works on.
\<close>

partial_function (option) session_loop ::
  "'s channel \<Rightarrow> (u16 \<times> u16 \<Rightarrow> 's \<times> 'd \<Rightarrow> (int \<times> 's \<times> 'd) option) \<Rightarrow> ('s \<times> 'd \<Rightarrow> bool) \<Rightarrow> ('s \<times> 'd \<Rightarrow> bool) \<Rightarrow>
   's \<times> 'd \<Rightarrow> (int \<times> 's \<times> 'd) option" where
  "session_loop ch execute stop gone st =
     (if stop st then Some (0, apfst (\<lambda>s. snd (ch_exit ch s)) st)
      else Option.bind (ch_read_command ch (fst st)) (\<lambda>(n, ids, s).
        let st = (s, snd st)
        in if stop st then Some (0, apfst (\<lambda>s. snd (ch_exit ch s)) st)
           else if n \<le> 0 then Some (n, st)
           else Option.bind (execute ids st) (\<lambda>(r, st).
             if gone st then Some (0, apfst (\<lambda>s. snd (ch_exit ch s)) st)
             else session_loop ch execute stop gone st)))"

definition session_run ::
  "'s channel \<Rightarrow> (u16 \<times> u16 \<Rightarrow> 's \<times> 'd \<Rightarrow> (int \<times> 's \<times> 'd) option) \<Rightarrow> ('s \<times> 'd \<Rightarrow> bool) \<Rightarrow> ('s \<times> 'd \<Rightarrow> bool) \<Rightarrow>
   's \<times> 'd \<Rightarrow> (int \<times> 's \<times> 'd) option" where
  "session_run ch execute stop gone st =
     Option.bind (ch_init ch (fst st)) (\<lambda>(r, s).
       if r < 0 then Some (- 1, s, snd st) else session_loop ch execute stop gone (s, snd st))"

section \<open>The arguments of an operation\<close>

text \<open>
  The generated code of a driver asks for its arguments in order: a pack of adjacent scalars, an
  array, a vector of \<open>n\<close>-byte elements, a string. A negative code ends it with \<open>-1\<close>. \<open>execute_operation\<close> is an
  operation up to the call of the driver; \<open>execute_reply\<close> in \<open>Koheron_Client\<close> adds the reply it sends.
\<close>

datatype argument_type = TPack "scalar_type list" | TArray nat | TVector nat | TString

datatype item = Pack "scalar list" | ArrayOf "u8 list" | VectorOf nat "u8 list" | StringOf "u8 list"

fun receive :: "'s channel \<Rightarrow> argument_type \<Rightarrow> 's \<Rightarrow> (int \<times> item \<times> 's) option" where
  "receive ch (TPack ts) s = map_option (\<lambda>(r, vs, s). (r, Pack vs, s)) (ch_deserialize ch ts s)"
| "receive ch (TArray n) s = map_option (\<lambda>(r, bs, s). (r, ArrayOf bs, s)) (ch_recv_array ch n s)"
| "receive ch (TVector n) s = map_option (\<lambda>(r, bs, s). (r, VectorOf n bs, s)) (ch_recv_vector ch n s)"
| "receive ch TString s = map_option (\<lambda>(r, bs, s). (r, StringOf bs, s)) (ch_recv_string ch s)"

fun receive_all :: "'s channel \<Rightarrow> argument_type list \<Rightarrow> 's \<Rightarrow> (item list option \<times> 's) option" where
  "receive_all ch [] s = Some (Some [], s)"
| "receive_all ch (t # ts) s = Option.bind (receive ch t s) (\<lambda>(r, x, s).
     if r < 0 then Some (None, s)
     else map_option (\<lambda>(xs, s). (map_option ((#) x) xs, s)) (receive_all ch ts s))"

definition execute_operation ::
  "'s channel \<Rightarrow> (u16 \<times> u16 \<Rightarrow> argument_type list) \<Rightarrow> (u16 \<times> u16 \<Rightarrow> item list \<Rightarrow> 'd \<Rightarrow> int \<times> 'd) \<Rightarrow>
   u16 \<times> u16 \<Rightarrow> 's \<times> 'd \<Rightarrow> (int \<times> 's \<times> 'd) option" where
  "execute_operation ch types call ids = (\<lambda>(s, d).
     map_option (\<lambda>(xs, s). case xs of
         None \<Rightarrow> (- 1, s, d)
       | Some xs \<Rightarrow> (case call ids xs d of (r, d) \<Rightarrow> (r, s, d)))
       (receive_all ch (types ids) s))"

section \<open>Requests\<close>

fun type_of_item :: "item \<Rightarrow> argument_type" where
  "type_of_item (Pack vs) = TPack (map type_of vs)"
| "type_of_item (ArrayOf bs) = TArray (length bs)"
| "type_of_item (VectorOf n bs) = TVector n"
| "type_of_item (StringOf bs) = TString"

text \<open>What can be received, with containers of up to \<open>lim\<close> bytes.\<close>

fun item_ok :: "nat \<Rightarrow> item \<Rightarrow> bool" where
  "item_ok lim (VectorOf n bs) \<longleftrightarrow> 0 < n \<and> n dvd length bs \<and> length bs \<le> lim"
| "item_ok lim (StringOf bs) \<longleftrightarrow> length bs \<le> lim"
| "item_ok lim (ArrayOf bs) \<longleftrightarrow> length bs < 2 ^ 31"
| "item_ok lim (Pack vs) \<longleftrightarrow> required_buffer_size (map type_of vs) < 2 ^ 31"

text \<open>How the client passes an item to its serializer.\<close>

fun arguments_of :: "item \<Rightarrow> argument list" where
  "arguments_of (Pack vs) = map Scalar vs"
| "arguments_of (ArrayOf bs) = [Array bs]"
| "arguments_of (VectorOf n bs) = [Container bs]"
| "arguments_of (StringOf bs) = [Container bs]"

type_synonym request = "(u16 \<times> u16) \<times> item list"

definition items_bytes :: "item list \<Rightarrow> u8 list" where
  "items_bytes xs = concat (map argument_bytes (concat (map arguments_of xs)))"

fun request_bytes :: "request \<Rightarrow> u8 list" where
  "request_bytes ((driver, operation), xs) = command_bytes driver operation (concat (map arguments_of xs))"

section \<open>The contract\<close>

text \<open>
  \<open>waiting rs s\<close>: the requests \<open>rs\<close> and then the end of the connection are still to come.
  \<open>reading bs rs s\<close>: of the current command the argument bytes \<open>bs\<close> are still to be received.
\<close>

locale command_channel =
  fixes ch :: "'s channel"
    and lim :: nat
    and waiting :: "request list \<Rightarrow> 's \<Rightarrow> bool"
    and reading :: "u8 list \<Rightarrow> request list \<Rightarrow> 's \<Rightarrow> bool"
  assumes read_command: "waiting ((ids, xs) # rs) s \<Longrightarrow>
      \<exists>s'. ch_read_command ch s = Some (8, ids, s') \<and> reading (items_bytes xs) rs s'"
    and read_end: "waiting [] s \<Longrightarrow> \<exists>s'. ch_read_command ch s = Some (0, (0, 0), s')"
    and receive_item: "reading (concat (map argument_bytes (arguments_of x)) @ bs) rs s \<Longrightarrow> item_ok lim x \<Longrightarrow>
      \<exists>r s'. receive ch (type_of_item x) s = Some (r, x, s') \<and> 0 \<le> r \<and> reading bs rs s'"
    and drained: "reading [] rs s \<Longrightarrow> waiting rs s"
begin

lemma receive_items:
  "reading (items_bytes xs) rs s \<Longrightarrow> \<forall>x\<in>set xs. item_ok lim x \<Longrightarrow>
     \<exists>s'. receive_all ch (map type_of_item xs) s = Some (Some xs, s') \<and> waiting rs s'"
proof (induction xs arbitrary: s)
  case Nil
  then show ?case by (simp add: items_bytes_def drained)
next
  case (Cons x xs)
  then obtain r s' where "receive ch (type_of_item x) s = Some (r, x, s')" "0 \<le> r" "reading (items_bytes xs) rs s'"
    using receive_item [of x "items_bytes xs" rs s] by (auto simp: items_bytes_def)
  with Cons.IH [of s'] Cons.prems(2) show ?case by auto
qed

text \<open>The session executes what was asked for, in order, and ends with the connection.\<close>

lemma session_loop_executes:
  assumes "waiting rs s" "\<forall>(ids, xs)\<in>set rs. types ids = map type_of_item xs \<and> (\<forall>x\<in>set xs. item_ok lim x)"
    and "\<And>st. \<not> stop st" "\<And>st. \<not> gone st"
  shows "\<exists>s'. session_loop ch (execute_operation ch types call) stop gone (s, d) =
    Some (0, s', fold (\<lambda>(ids, xs) d. snd (call ids xs d)) rs d)"
  using assms(1,2)
proof (induction rs arbitrary: s d)
  case Nil
  from read_end [OF Nil.prems(1)] show ?case
    by (auto simp: session_loop.simps assms(3,4))
next
  case (Cons req rs)
  obtain ids xs where req: "req = (ids, xs)" by (cases req)
  obtain s1 where s1: "ch_read_command ch s = Some (8, ids, s1)" "reading (items_bytes xs) rs s1"
    using read_command Cons.prems(1) unfolding req by blast
  obtain s2 where s2: "receive_all ch (map type_of_item xs) s1 = Some (Some xs, s2)" "waiting rs s2"
    using receive_items [OF s1(2)] Cons.prems(2) by (auto simp: req)
  have "execute_operation ch types call ids (s1, d) = Some (fst (call ids xs d), s2, snd (call ids xs d))"
    using s2(1) Cons.prems(2) by (simp add: execute_operation_def req split_def)
  then have "session_loop ch (execute_operation ch types call) stop gone (s, d) =
      session_loop ch (execute_operation ch types call) stop gone (s2, snd (call ids xs d))"
    using s1(1) by (subst session_loop.simps) (simp add: assms(3,4) Let_def)
  with Cons.IH [OF s2(2), of "snd (call ids xs d)"] Cons.prems(2) show ?case by (simp add: req)
qed

end

section \<open>TCP meets the contract\<close>

text \<open>A socket that ends when its data is used up.\<close>

definition ends :: "'e reader \<Rightarrow> ('e \<Rightarrow> u8 list) \<Rightarrow> bool" where
  "ends rd pending \<longleftrightarrow> (\<forall>e n. pending e = [] \<longrightarrow> 0 < n \<longrightarrow> fst (rd e n) = Some [])"

text \<open>A container must have room, and the count of its bytes must stay positive as an \<open>int\<close>.\<close>

definition tcp_limit :: "target \<Rightarrow> nat" where
  "tcp_limit tgt = min (room tgt) (2 ^ 31 - 1)"

lemma c_int_small: "- (2 ^ 31) \<le> n \<Longrightarrow> n < 2 ^ 31 \<Longrightarrow> c_int n = n"
  by (simp add: c_int_def signed_take_bit_int_eq_self)

lemma rcv_n_bytes_exact:
  assumes "byte_source rd pending" "n \<le> length buffer + length (pending e)" "length buffer \<le> n"
  shows "\<exists>e'. rcv_n_bytes rd n buffer e = (int n, buffer @ take (n - length buffer) (pending e), e') \<and>
    pending e' = drop (n - length buffer) (pending e)"
  using assms(2,3)
proof (induction "n - length buffer" arbitrary: buffer e rule: less_induct)
  case less
  show ?case
  proof (cases "length buffer < n")
    case False
    with less.prems show ?thesis by (simp add: rcv_n_bytes.simps)
  next
    case True
    with less.prems have "pending e \<noteq> []" "0 < n - length buffer" by auto
    then obtain bs e1 where b: "rd e (n - length buffer) = (Some bs, e1)" "bs \<noteq> []" "length bs \<le> n - length buffer"
      "pending e = bs @ pending e1"
      using byte_sourceE [OF assms(1)] by blast
    have l: "n - length (buffer @ bs) < n - length buffer" using b True by (cases bs) auto
    have "rcv_n_bytes rd n buffer e = rcv_n_bytes rd n (buffer @ bs) e1"
      using b True by (subst rcv_n_bytes.simps) simp
    moreover have "n \<le> length (buffer @ bs) + length (pending e1)" "length (buffer @ bs) \<le> n"
      using less.prems b True by auto
    ultimately show ?thesis
      using less.hyps [OF l] b by auto
  qed
qed

lemma rcv_pending:
  assumes "byte_source rd pending" "pending e = xs @ bs" "length xs = n"
  obtains e' where "rcv_n_bytes rd n [] e = (int n, xs, e')" "pending e' = bs"
  using rcv_n_bytes_exact [OF assms(1), of n "[]" e] assms(2,3) by auto

definition tcp_reading :: "'e reader \<Rightarrow> ('e \<Rightarrow> u8 list) \<Rightarrow> u8 list \<Rightarrow> request list \<Rightarrow> 'e \<Rightarrow> bool" where
  "tcp_reading rd pending bs rs e \<longleftrightarrow> byte_source rd pending \<and> ends rd pending \<and>
     pending e = bs @ concat (map request_bytes rs)"

definition tcp_waiting :: "'e reader \<Rightarrow> ('e \<Rightarrow> u8 list) \<Rightarrow> request list \<Rightarrow> 'e \<Rightarrow> bool" where
  "tcp_waiting rd pending rs e \<longleftrightarrow> tcp_reading rd pending [] rs e"

lemma tcp_rcv:
  assumes "tcp_reading rd pending (xs @ bs) rs e" "length xs = n"
  obtains e' where "rcv_n_bytes rd n [] e = (int n, xs, e')" "tcp_reading rd pending bs rs e'"
proof -
  have "byte_source rd pending" "pending e = xs @ bs @ concat (map request_bytes rs)"
    using assms(1) by (simp_all add: tcp_reading_def)
  from rcv_pending [OF this assms(2)] obtain e' where
    "rcv_n_bytes rd n [] e = (int n, xs, e')" "pending e' = bs @ concat (map request_bytes rs)" .
  with that assms(1) show ?thesis by (simp add: tcp_reading_def)
qed

lemma over_full: "length xs = n \<Longrightarrow> over junk n xs = xs"
  by (simp add: over_def)

lemma over_prefix: "length xs \<le> n \<Longrightarrow> \<exists>ys. over junk n xs = xs @ ys"
  by (simp add: over_def)

lemma command_ids_header:
  "command_ids (append_u32 r @ append_u16 d @ append_u16 p @ suf) = (d, p)"
  using deserialize_concat [of "append_u32 r" "[UInt16 d, UInt16 p]" suf]
  by (simp add: command_ids_def del: deserialize.simps)

lemma request_bytes_eq:
  "request_bytes (ids, xs) = (append_u32 0 @ append_u16 (fst ids) @ append_u16 (snd ids)) @ items_bytes xs"
  by (cases ids) (simp add: command_bytes_def items_bytes_def)

lemma items_scalars: "concat (map argument_bytes (map Scalar vs)) = concat (map append_scalar vs)"
  by (simp add: comp_def)

lemma tcp_pack_length:
  assumes "tcp_reading rd pending (append_u32 (of_nat k) @ bs) rs e" "k < 2 ^ 32"
  obtains e' where "get_pack_length rd junk e = (int k, e')" "tcp_reading rd pending bs rs e'"
proof -
  obtain e' where e': "rcv_n_bytes rd 4 [] e = (int 4, append_u32 (of_nat k), e')" "tcp_reading rd pending bs rs e'"
    by (rule tcp_rcv [OF assms(1), of 4]) simp
  obtain ys where "over junk 8 (append_u32 (of_nat k)) = append_u32 (of_nat k) @ ys"
    using over_prefix [of "append_u32 (of_nat k)" 8] by auto
  then have "extract_u32 (over junk 8 (append_u32 (of_nat k))) = of_nat k" by (simp add: extract_append_u32)
  moreover have "uint (of_nat k :: u32) = int k" using assms(2) by (simp add: uint_nat unat_of_nat_small)
  ultimately have "get_pack_length rd junk e = (int k, e')"
    using e'(1) by (simp add: get_pack_length_def)
  with e'(2) that show ?thesis by blast
qed

lemma tcp_recv_bytes:
  assumes "tcp_reading rd pending (xs @ bs) rs e" "length xs < 2 ^ 31"
  obtains e' where "rcv_n_bytes rd (length xs) [] e = (int (length xs), xs, e')" "c_int (int (length xs)) = int (length xs)"
    "tcp_reading rd pending bs rs e'"
proof -
  obtain e' where "rcv_n_bytes rd (length xs) [] e = (int (length xs), xs, e')" "tcp_reading rd pending bs rs e'"
    using tcp_rcv [OF assms(1)] by blast
  moreover have "c_int (int (length xs)) = int (length xs)" using assms(2) by (intro c_int_small) auto
  ultimately show ?thesis using that by blast
qed

lemma pack_elements_nat: "n < 2 ^ 32 \<Longrightarrow> pack_elements a (int n) k = int (n div k)"
  by (cases a) (auto simp: pack_elements_def sgn_if zdiv_int)

lemma tcp_receive_item:
  assumes "tcp_reading rd pending (concat (map argument_bytes (arguments_of x)) @ bs) rs e" "item_ok (tcp_limit tgt) x"
  shows "\<exists>r e'. receive (tcp_channel tgt rd junk) (type_of_item x) e = Some (r, x, e') \<and> 0 \<le> r \<and>
    tcp_reading rd pending bs rs e'"
proof (cases x)
  case (Pack vs)
  show ?thesis
  proof (cases "vs = []")
    case True
    with assms Pack show ?thesis by (simp add: tcp_channel_def tcp_deserialize_def)
  next
    case False
    have "tcp_reading rd pending (concat (map append_scalar vs) @ bs) rs e"
      using assms(1) Pack by (simp add: comp_def)
    then obtain e' where e': "rcv_n_bytes rd (required_buffer_size (map type_of vs)) [] e =
        (int (required_buffer_size (map type_of vs)), concat (map append_scalar vs), e')"
      "c_int (int (required_buffer_size (map type_of vs))) = int (required_buffer_size (map type_of vs))"
      "tcp_reading rd pending bs rs e'"
      using tcp_recv_bytes [of rd pending "concat (map append_scalar vs)" bs rs e] assms(2) Pack by auto
    have "deserialize 0 (map type_of vs) (concat (map append_scalar vs)) = vs"
      using deserialize_concat [of "[]" vs "[]"] by simp
    then show ?thesis
      using e' False Pack by (simp add: tcp_channel_def tcp_deserialize_def Let_def over_full)
  qed
next
  case (ArrayOf xs)
  then obtain e' where "rcv_n_bytes rd (length xs) [] e = (int (length xs), xs, e')"
    "c_int (int (length xs)) = int (length xs)" "tcp_reading rd pending bs rs e'"
    using tcp_recv_bytes [of rd pending xs bs rs e] assms by auto
  then show ?thesis using ArrayOf by (simp add: tcp_channel_def tcp_recv_array_def over_full)
next
  case (VectorOf n xs)
  then have v: "0 < n" "n dvd length xs" "length xs \<le> room tgt" "length xs < 2 ^ 31" using assms(2) by (auto simp: tcp_limit_def)
  have "tcp_reading rd pending (append_u32 (of_nat (length xs)) @ xs @ bs) rs e" using assms(1) VectorOf by simp
  then obtain e1 where e1: "get_pack_length rd junk e = (int (length xs), e1)" "tcp_reading rd pending (xs @ bs) rs e1"
    using tcp_pack_length [of rd pending "length xs" "xs @ bs" rs e junk] v(4) by auto
  obtain e' where "rcv_n_bytes rd (length xs) [] e1 = (int (length xs), xs, e')"
    "c_int (int (length xs)) = int (length xs)" "tcp_reading rd pending bs rs e'"
    using tcp_recv_bytes [OF e1(2)] v(4) by auto
  moreover have "pack_elements (size_t tgt) (int (length xs)) n = int (length xs div n)"
    using v(4) by (intro pack_elements_nat) simp
  moreover have "length xs div n * n = length xs" using v(2) by simp
  ultimately show ?thesis using VectorOf e1 v(3) by (simp add: tcp_channel_def tcp_recv_vector_def over_full Let_def)
next
  case (StringOf xs)
  then have v: "length xs \<le> room tgt" "length xs < 2 ^ 31" using assms(2) by (auto simp: tcp_limit_def)
  have "tcp_reading rd pending (append_u32 (of_nat (length xs)) @ xs @ bs) rs e" using assms(1) StringOf by simp
  then obtain e1 where e1: "get_pack_length rd junk e = (int (length xs), e1)" "tcp_reading rd pending (xs @ bs) rs e1"
    using tcp_pack_length [of rd pending "length xs" "xs @ bs" rs e junk] v(2) by auto
  obtain e' where "rcv_n_bytes rd (length xs) [] e1 = (int (length xs), xs, e')"
    "c_int (int (length xs)) = int (length xs)" "tcp_reading rd pending bs rs e'"
    using tcp_recv_bytes [OF e1(2)] v(2) by auto
  then show ?thesis using StringOf e1 v(1) by (simp add: tcp_channel_def tcp_recv_string_def over_full)
qed

lemma tcp_read_command_ok:
  assumes "tcp_waiting rd pending ((ids, xs) # rs) e"
  shows "\<exists>e'. ch_read_command (tcp_channel tgt rd junk) e = Some (8, ids, e') \<and> tcp_reading rd pending (items_bytes xs) rs e'"
proof -
  define hd8 where "hd8 = append_u32 0 @ append_u16 (fst ids) @ append_u16 (snd ids)"
  have "tcp_reading rd pending (hd8 @ items_bytes xs) rs e"
    using assms by (simp add: tcp_waiting_def tcp_reading_def request_bytes_eq hd8_def del: request_bytes.simps)
  then obtain e' where e': "rcv_n_bytes rd 8 [] e = (int 8, hd8, e')" "tcp_reading rd pending (items_bytes xs) rs e'"
    by (rule tcp_rcv) (simp add: hd8_def)
  have "command_ids hd8 = ids"
    using command_ids_header [of 0 "fst ids" "snd ids" "[]"] by (simp add: hd8_def)
  with e' show ?thesis by (simp add: tcp_channel_def tcp_read_command_def c_int_small)
qed

lemma tcp_read_end:
  assumes "tcp_waiting rd pending [] e"
  shows "\<exists>e'. ch_read_command (tcp_channel tgt rd junk) e = Some (0, (0, 0), e')"
proof -
  have "fst (rd e 8) = Some []"
    using assms unfolding tcp_waiting_def tcp_reading_def ends_def by simp
  then obtain e' where "rd e 8 = (Some [], e')" by (cases "rd e 8") simp
  then have "rcv_n_bytes rd 8 [] e = (0, [], e')" by (subst rcv_n_bytes.simps) simp
  then show ?thesis by (simp add: tcp_channel_def tcp_read_command_def c_int_def)
qed

interpretation tcp: command_channel "tcp_channel tgt rd junk" "tcp_limit tgt" "tcp_waiting rd pending" "tcp_reading rd pending"
  for tgt and rd :: "'e reader" and junk pending
proof unfold_locales
  show "tcp_reading rd pending [] rs e \<Longrightarrow> tcp_waiting rd pending rs e" for rs e
    by (simp add: tcp_waiting_def)
qed (rule tcp_read_command_ok tcp_read_end tcp_receive_item, assumption+)+

section \<open>WebSockets meet the contract\<close>

text \<open>
  The byte stream of a client: one masked frame per request, each of a size the server takes, and a
  masked close frame without payload.
\<close>

fun ws_stream :: "request list \<Rightarrow> u8 list \<Rightarrow> bool" where
  "ws_stream [] bytes \<longleftrightarrow> (\<exists>key. length key = 4 \<and> bytes = client_frame 8 key [])"
| "ws_stream (r # rs) bytes \<longleftrightarrow> (\<exists>op key rest. bytes = client_frame op key (request_bytes r) @ rest \<and>
     length key = 4 \<and> (op = 1 \<or> op = 2) \<and> length (request_bytes r) \<le> WEBSOCK_READ_STR_LEN - 56 \<and>
     length (client_frame op key (request_bytes r)) \<noteq> KOHERON_READ_STR_LEN \<and> ws_stream rs rest)"

definition ws_waiting :: "'e reader \<Rightarrow> ('e \<Rightarrow> u8 list) \<Rightarrow> request list \<Rightarrow> 'e ws_session \<Rightarrow> bool" where
  "ws_waiting rd pending rs s \<longleftrightarrow> byte_source rd pending \<and> \<not> connection_closed (websock s) \<and>
     ws_stream rs (pending (comm_fd (websock s)))"

definition ws_reading ::
  "'e reader \<Rightarrow> ('e \<Rightarrow> u8 list) \<Rightarrow> u8 list \<Rightarrow> request list \<Rightarrow> 'e ws_session \<Rightarrow> bool" where
  "ws_reading rd pending bs rs s \<longleftrightarrow> ws_waiting rd pending rs s \<and> at_bytes bs (cmd_buffer s)"

lemma map_upt_split: "n \<le> m \<Longrightarrow> map f [0..<m] = map f [0..<n] @ map f [n..<m]"
  using upt_add_eq_append [of 0 n "m - n"] by simp

lemma cmd_buffer_simps [simp]:
  "cmd_buffer (s\<lparr>cmd_position := k\<rparr>) = (cmd_buffer s)\<lparr>position := k\<rparr>"
  "position (cmd_buffer s) = cmd_position s" "length (bdata (cmd_buffer s)) = CMD_PAYLOAD_BUFFER_LEN"
  by (simp_all add: cmd_buffer_def)

lemma buffer_deserialize_pack:
  assumes "at_bytes (concat (map append_scalar vs) @ ys) b"
  shows "buffer_deserialize (map type_of vs) b =
    Some (vs, b\<lparr>position := position b + required_buffer_size (map type_of vs)\<rparr>)"
proof -
  obtain pref suf where b: "bdata b = pref @ (concat (map append_scalar vs) @ ys) @ suf" "length pref = position b"
    using assms by (auto simp: at_bytes_def)
  have "deserialize (position b) (map type_of vs) (bdata b) = vs"
    using deserialize_concat [of pref vs "ys @ suf"] b by simp
  with b show ?thesis by (simp add: buffer_deserialize_def)
qed

lemma ws_read_command_ok:
  assumes "ws_waiting rd pending ((ids, xs) # rs) s"
  shows "\<exists>s'. ch_read_command (ws_channel rd wr) s = Some (8, ids, s') \<and> ws_reading rd pending (items_bytes xs) rs s'"
proof -
  define p where "p = request_bytes (ids, xs)"
  obtain op key rest where f: "pending (comm_fd (websock s)) = client_frame op key p @ rest" "length key = 4"
    "op = 1 \<or> op = 2" "length p \<le> WEBSOCK_READ_STR_LEN - 56" "length (client_frame op key p) \<noteq> KOHERON_READ_STR_LEN"
    "ws_stream rs rest"
    using assms by (auto simp: ws_waiting_def p_def simp del: request_bytes.simps)
  define hd8 where "hd8 = append_u32 0 @ append_u16 (fst ids) @ append_u16 (snd ids)"
  have p: "p = hd8 @ items_bytes xs" "length hd8 = 8"
    by (simp_all add: p_def hd8_def request_bytes_eq del: request_bytes.simps)
  have bs: "byte_source rd pending" "\<not> connection_closed (websock s)" using assms by (simp_all add: ws_waiting_def)
  have "8 \<le> length p" using p by simp
  from receive_cmd_frame [OF bs(1) f(1) bs(2) f(2,3) this f(4,5)] obtain cmd' ws' where
    r: "receive_cmd rd (ws_cmd s) (websock s) = Some (int (length p), cmd', ws')"
    "map (cmd_header cmd') [0..<8] = take 8 p" "map (cmd_payload cmd') [0..<length p - 8] = drop 8 p"
    "pending (comm_fd ws') = rest" "\<not> connection_closed ws'" "payload_size ws' = int (length p)"
    by blast
  define s' where "s' = s\<lparr>websock := ws', ws_cmd := cmd', cmd_position := 0\<rparr>"
  have "command_ids (map (cmd_header cmd') [0..<8]) = ids"
    using command_ids_header [of 0 "fst ids" "snd ids" "[]"] r(2) p by (simp add: hd8_def)
  then have "ch_read_command (ws_channel rd wr) s = Some (8, ids, s')"
    using r p by (simp add: ws_channel_def ws_read_command_def Let_def s'_def)
  moreover have "ws_waiting rd pending rs s'"
    using r f(6) bs(1) by (simp add: ws_waiting_def s'_def)
  moreover have "at_bytes (items_bytes xs) (cmd_buffer s')"
  proof -
    have "length p - 8 \<le> CMD_PAYLOAD_BUFFER_LEN" using f(4) by simp
    from map_upt_split [OF this, of "cmd_payload cmd'"] show ?thesis
      using r(3) p by (auto simp: at_bytes_def cmd_buffer_def s'_def)
  qed
  ultimately show ?thesis by (auto simp: ws_reading_def)
qed

lemma ws_read_end:
  assumes "ws_waiting rd pending [] s"
  shows "\<exists>s'. ch_read_command (ws_channel rd wr) s = Some (0, (0, 0), s')"
proof -
  obtain key where "pending (comm_fd (websock s)) = client_frame 8 key [] @ []" "length key = 4"
    using assms by (auto simp: ws_waiting_def)
  with receive_cmd_close [of rd pending "websock s" key "[]" "ws_cmd s"] assms show ?thesis
    by (auto simp: ws_waiting_def ws_channel_def ws_read_command_def Let_def)
qed

lemma ws_reading_advance:
  "ws_reading rd pending (xs @ bs) rs s \<Longrightarrow> k = cmd_position s + length xs \<Longrightarrow>
     ws_reading rd pending bs rs (s\<lparr>cmd_position := k\<rparr>)"
  using at_bytes_advance [of xs bs "cmd_buffer s"] by (simp add: ws_reading_def ws_waiting_def)

text \<open>A length and the bytes it announces.\<close>

lemma ws_length_bytes:
  assumes "ws_reading rd pending (append_u32 (of_nat (length xs)) @ xs @ bs) rs s" "length xs \<le> CMD_PAYLOAD_BUFFER_LEN"
  shows "buffer_deserialize [TUInt32] (cmd_buffer s) =
      Some ([UInt32 (of_nat (length xs))], (cmd_buffer s)\<lparr>position := cmd_position s + 4\<rparr>)"
    "buffer_bytes (length xs) ((cmd_buffer s)\<lparr>position := cmd_position s + 4\<rparr>) =
      Some (xs, (cmd_buffer s)\<lparr>position := cmd_position s + 4 + length xs\<rparr>)"
    "ws_reading rd pending bs rs (s\<lparr>cmd_position := cmd_position s + 4 + length xs\<rparr>)"
proof -
  have a: "at_bytes (append_u32 (of_nat (length xs)) @ xs @ bs) (cmd_buffer s)" using assms(1) by (simp add: ws_reading_def)
  show "buffer_deserialize [TUInt32] (cmd_buffer s) =
      Some ([UInt32 (of_nat (length xs))], (cmd_buffer s)\<lparr>position := cmd_position s + 4\<rparr>)"
    using buffer_deserialize_length(1) [OF a] by simp
  show "buffer_bytes (length xs) ((cmd_buffer s)\<lparr>position := cmd_position s + 4\<rparr>) =
      Some (xs, (cmd_buffer s)\<lparr>position := cmd_position s + 4 + length xs\<rparr>)"
    using buffer_bytes_at [OF buffer_deserialize_length(2) [OF a]] by simp
  show "ws_reading rd pending bs rs (s\<lparr>cmd_position := cmd_position s + 4 + length xs\<rparr>)"
    using ws_reading_advance [of rd pending "append_u32 (of_nat (length xs)) @ xs" bs rs s] assms(1) by (simp add: add.assoc)
qed

lemma ws_receive_item:
  assumes "ws_reading rd pending (concat (map argument_bytes (arguments_of x)) @ bs) rs s" "item_ok CMD_PAYLOAD_BUFFER_LEN x"
  shows "\<exists>r s'. receive (ws_channel rd wr) (type_of_item x) s = Some (r, x, s') \<and> 0 \<le> r \<and>
    ws_reading rd pending bs rs s'"
proof (cases x)
  case (Pack vs)
  then have *: "ws_reading rd pending (concat (map append_scalar vs) @ bs) rs s"
    using assms(1) by (simp add: comp_def)
  then have "buffer_deserialize (map type_of vs) (cmd_buffer s) =
      Some (vs, (cmd_buffer s)\<lparr>position := cmd_position s + required_buffer_size (map type_of vs)\<rparr>)"
    using buffer_deserialize_pack [of vs bs "cmd_buffer s"] by (simp add: ws_reading_def)
  with * Pack show ?thesis
    by (auto simp: ws_channel_def ws_deserialize_def intro: ws_reading_advance)
next
  case (ArrayOf xs)
  then have *: "ws_reading rd pending (xs @ bs) rs s" using assms(1) by simp
  then have "buffer_bytes (length xs) (cmd_buffer s) = Some (xs, (cmd_buffer s)\<lparr>position := cmd_position s + length xs\<rparr>)"
    using buffer_bytes_at [of xs bs "cmd_buffer s"] by (simp add: ws_reading_def)
  with * ArrayOf show ?thesis
    by (auto simp: ws_channel_def ws_array_def ws_recv_array_def intro: ws_reading_advance)
next
  case (VectorOf n xs)
  then have v: "n dvd length xs" "length xs \<le> CMD_PAYLOAD_BUFFER_LEN"
    "ws_reading rd pending (append_u32 (of_nat (length xs)) @ xs @ bs) rs s" using assms by auto
  have "unat (of_nat (length xs) :: u32) = length xs" using v(2) by (intro unat_of_nat_small) simp
  then show ?thesis
    using VectorOf v(1,2) ws_length_bytes [OF v(3,2)]
    by (simp add: ws_channel_def ws_received_def ws_recv_vector_def Let_def)
next
  case (StringOf xs)
  then have v: "length xs \<le> CMD_PAYLOAD_BUFFER_LEN"
    "ws_reading rd pending (append_u32 (of_nat (length xs)) @ xs @ bs) rs s" using assms by auto
  have "unat (of_nat (length xs) :: u32) = length xs" using v(1) by (intro unat_of_nat_small) simp
  then show ?thesis
    using StringOf v(1) ws_length_bytes [OF v(2,1)]
    by (simp add: ws_channel_def ws_received_def ws_recv_string_def Let_def)
qed

interpretation ws: command_channel "ws_channel rd wr" CMD_PAYLOAD_BUFFER_LEN "ws_waiting rd pending" "ws_reading rd pending"
  for rd :: "'e reader" and wr pending
proof unfold_locales
  show "ws_reading rd pending [] rs s \<Longrightarrow> ws_waiting rd pending rs s" for rs s
    by (simp add: ws_reading_def)
qed (rule ws_read_command_ok ws_read_end ws_receive_item, assumption+)+

section \<open>Properties\<close>

text \<open>
  C27. A TCP session whose client sends whole requests, cut by the kernel in any way, and then closes
  the connection executes exactly these requests, each with the values the client encoded, in the
  order they were sent, and then returns: the loop ends and reports success. Vectors and strings have to be below 2 GB
  and within what the server can allocate; no other thread stops the session.
\<close>

theorem tcp_session_executes:
  assumes "byte_source rd pending" "ends rd pending" "pending e = concat (map request_bytes rs)"
    and "\<forall>(ids, xs)\<in>set rs. types ids = map type_of_item xs \<and> (\<forall>x\<in>set xs. item_ok (tcp_limit tgt) x)"
  shows "\<exists>e'. session_run (tcp_channel tgt rd junk) (execute_operation (tcp_channel tgt rd junk) types call)
      (\<lambda>_. False) (\<lambda>_. False) (e, d) = Some (0, e', fold (\<lambda>(ids, xs) d. snd (call ids xs d)) rs d)"
proof -
  have "tcp_waiting rd pending rs e" using assms(1-3) by (simp add: tcp_waiting_def tcp_reading_def)
  from tcp.session_loop_executes [OF this assms(4), of "\<lambda>_. False" "\<lambda>_. False" junk call d] show ?thesis
    by (simp add: session_run_def tcp_channel_def)
qed

text \<open>Two requests on a socket that hands out at most five bytes at a time.\<close>

theorem tcp_session_executes_witness:
  "\<exists>e'. session_run (tcp_channel \<lparr>size_t = ILP32, room = 1000\<rparr> (trickle 5) (\<lambda>n. replicate n 0))
      (execute_operation (tcp_channel \<lparr>size_t = ILP32, room = 1000\<rparr> (trickle 5) (\<lambda>n. replicate n 0))
         (\<lambda>ids. if ids = (2, 0) then [TPack [TUInt16], TVector 2] else []) (\<lambda>ids xs d. (0, d @ [(ids, xs)])))
      (\<lambda>_. False) (\<lambda>_. False)
      (request_bytes ((2, 0), [Pack [UInt16 7], VectorOf 2 [1, 2, 3, 4]]) @ request_bytes ((3, 1), []), []) =
    Some (0, e', [((2, 0), [Pack [UInt16 7], VectorOf 2 [1, 2, 3, 4]]), ((3, 1), [])])"
proof -
  have "ends (trickle 5) (\<lambda>e. e)" by (simp add: ends_def trickle_def)
  from tcp_session_executes [OF trickle_source this, where rs = "[((2, 0), [Pack [UInt16 7], VectorOf 2 [1, 2, 3, 4]]), ((3, 1), [])]"
      and types = "\<lambda>ids. if ids = (2, 0) then [TPack [TUInt16], TVector 2] else []"
      and call = "\<lambda>ids xs d. (0, d @ [(ids, xs)])" and d = "[]" and junk = "\<lambda>n. replicate n 0"
      and tgt = "\<lparr>size_t = ILP32, room = 1000\<rparr>"]
  show ?thesis by (simp add: tcp_limit_def del: request_bytes.simps)
qed

text \<open>
  C28. The same of a WebSocket session: once the handshake has succeeded, a client that sends one
  masked frame per request, of any size the server takes, and then a close frame has exactly its
  requests executed, in order, and the session returns.
\<close>

theorem ws_session_executes:
  assumes "byte_source rd pending" "authenticate rd wr (websock s) = Some (n, ws)" "0 \<le> n"
    and "\<not> connection_closed ws" "ws_stream rs (pending (comm_fd ws))"
    and "\<forall>(ids, xs)\<in>set rs. types ids = map type_of_item xs \<and> (\<forall>x\<in>set xs. item_ok CMD_PAYLOAD_BUFFER_LEN x)"
  shows "\<exists>s'. session_run (ws_channel rd wr) (execute_operation (ws_channel rd wr) types call)
      (\<lambda>_. False) (\<lambda>_. False) (s, d) = Some (0, s', fold (\<lambda>(ids, xs) d. snd (call ids xs d)) rs d)"
proof -
  have "ws_waiting rd pending rs (s\<lparr>websock := ws\<rparr>)" using assms(1,4,5) by (simp add: ws_waiting_def)
  from ws.session_loop_executes [OF this assms(6), of "\<lambda>_. False" "\<lambda>_. False" wr call d] assms(2,3) show ?thesis
    by (simp add: session_run_def ws_channel_def)
qed

















text \<open>A socket that hands out its data in the pieces it came in.\<close>

definition chunked :: "u8 list list reader" where
  "chunked e n = (case filter (\<lambda>c. c \<noteq> []) e of [] \<Rightarrow> (Some [], []) | c # cs \<Rightarrow> (Some (take n c), drop n c # cs))"

lemma chunked_source: "byte_source chunked concat"
proof -
  have c: "concat (filter (\<lambda>c. c \<noteq> []) e) = concat e" for e :: "u8 list list"
    by (induction e) auto
  show ?thesis
    unfolding byte_source_def
  proof (intro allI impI)
    fix e :: "u8 list list" and n :: nat
    assume "concat e \<noteq> []" "0 < n"
    then obtain b cs where f: "filter (\<lambda>c. c \<noteq> []) e = b # cs"
      using c [of e] by (cases "filter (\<lambda>c. c \<noteq> []) e") auto
    then have "b \<in> set (filter (\<lambda>c. c \<noteq> []) e)" by simp
    then have "b \<noteq> []" by simp
    moreover have "concat e = take n b @ concat (drop n b # cs)"
      using c [of e] f by (metis append.assoc append_take_drop_id concat.simps(2))
    ultimately show "\<exists>bs e'. chunked e n = (Some bs, e') \<and> bs \<noteq> [] \<and> length bs \<le> n \<and> concat e = bs @ concat e'"
      using f \<open>0 < n\<close> by (simp add: chunked_def)
  qed
qed

theorem ws_session_executes_witness:
  "\<exists>s'. session_run (ws_channel chunked (\<lambda>e bs. (int (length bs), e)))
      (execute_operation (ws_channel chunked (\<lambda>e bs. (int (length bs), e))) (\<lambda>_. [TPack [TUInt16]]) (\<lambda>ids xs d. (0, d @ [(ids, xs)])))
      (\<lambda>_. False) (\<lambda>_. False)
      (\<lparr>websock = idle_socket [map byte_of demo_request,
           client_frame 2 [1, 2, 3, 4] (request_bytes ((2, 0), [Pack [UInt16 7]])) @ client_frame 8 [5, 6, 7, 8] []],
         ws_cmd = \<lparr>cmd_header = (\<lambda>_. 0), cmd_payload = (\<lambda>_. 0)\<rparr>, cmd_position = 0\<rparr>, []) =
    Some (0, s', [((2, 0), [Pack [UInt16 7]])])"
proof -
  define wr :: "u8 list list writer" where "wr = (\<lambda>e bs. (int (length bs), e))"
  define req :: request where "req = ((2, 0), [Pack [UInt16 7]])"
  define stream where "stream = client_frame 2 [1, 2, 3, 4] (request_bytes req) @ client_frame 8 [5, 6, 7, 8] []"
  define w where "w = idle_socket [map byte_of demo_request, stream]"
  have ne: "map byte_of demo_request \<noteq> []" "stream \<noteq> []"
    using demo_request_finds(4) by (auto simp: stream_def client_frame_def)
  have rd: "chunked (comm_fd w) WEBSOCK_READ_STR_LEN = (Some (map byte_of demo_request), [[], stream])"
    using ne demo_request_finds(4) by (simp add: chunked_def w_def)
  have init: "\<forall>i\<ge>read_str_len w. read_str w i = 0" "\<not> connection_closed w"
    by (simp_all add: w_def idle_socket_def)
  obtain ws' where ws': "comm_fd ws' = [[], stream]" "\<not> connection_closed ws'"
    "authenticate chunked wr w = Some (case find_sub WSKeyIdentifier demo_request of
       Some pos \<Rightarrow> send_request wr (accept_response demo_request pos) ws' | None \<Rightarrow> (- 1, ws'))"
    by (rule authenticate_ok [where rd = chunked and ws = w and pk = demo_request and e = "[[], stream]" and wr = wr,
        OF rd _ _ demo_request_finds(6) _ init]) (simp_all add: demo_request_finds demo_request_finds(1) [simplified])
  have "send_loop wr bits 0 e = (int (length bits), e)" for bits e
  proof -
    have "wr e bs = (int (length bs), e)" for bs by (simp add: wr_def)
    then show ?thesis
      by (cases "bits = []") (simp_all add: send_loop.simps [of wr bits] send_loop.simps [of wr "[]"])
  qed
  then have auth: "authenticate chunked wr w = Some (int (length (accept_response demo_request 16)), ws')"
    using ws' by (cases ws') (simp add: send_request_def demo_request_finds)
  have "length (client_frame 2 [1, 2, 3, 4] (request_bytes req)) \<noteq> KOHERON_READ_STR_LEN"
    by (simp add: length_client_frame client_header_def req_def command_bytes_def)
  then have str: "ws_stream [req] (concat (comm_fd ws'))"
    unfolding ws_stream.simps ws'(1) stream_def
    by (intro exI [of _ 2] exI [of _ "[1, 2, 3, 4]"] exI [of _ "client_frame 8 [5, 6, 7, 8] []"] conjI exI [of _ "[5, 6, 7, 8]"])
      (simp_all add: req_def command_bytes_def)
  show ?thesis
    using ws_session_executes [OF chunked_source, where wr = wr and s = "\<lparr>websock = w,
         ws_cmd = \<lparr>cmd_header = (\<lambda>_. 0), cmd_payload = (\<lambda>_. 0)\<rparr>, cmd_position = 0\<rparr>" and rs = "[req]" and
         types = "\<lambda>_. [TPack [TUInt16]]" and call = "\<lambda>ids xs d. (0, d @ [(ids, xs)])" and d = "[]", OF _ _ ws'(2) str]
      auth
    unfolding wr_def [symmetric] req_def [symmetric] stream_def [symmetric] w_def [symmetric]
    by (simp add: req_def)
qed

end
