(* ===== verification/Session_Manager.thy ===== *)
theory Session_Manager
  imports Sdk_Prelude
begin

text \<open>
  The pool of sessions (\<open>session_manager.hpp\<close>, \<open>session_manager.cpp\<close>) and the threads that use it
  (\<open>session_thread_call\<close>, \<open>comm_thread_call\<close> of \<open>server.hpp\<close>): identifiers that are taken and given
  back, the count of sessions, and the interleaving of the listener with its session threads as a
  step relation.
\<close>

section \<open>The pool\<close>

datatype sock_type = NONE | TCP | WEBSOCK | UNIX

text \<open>
  \<open>session_pool\<close> maps an identifier to the type and the file descriptor of its session;
  \<open>closed_fds\<close> records the descriptors that were shut down and closed, in order. The back of
  \<open>reusable_ids\<close> is the last element of the list.
\<close>

record session_manager =
  session_pool :: "int \<rightharpoonup> sock_type \<times> int"
  reusable_ids :: "int list"
  number_of_sessions :: int
  closed_fds :: "int list"

definition empty_manager :: session_manager where
  "empty_manager = \<lparr>session_pool = Map.empty, reusable_ids = [], number_of_sessions = 0, closed_fds = []\<rparr>"

definition is_reusable_id :: "session_manager \<Rightarrow> int \<Rightarrow> bool" where
  "is_reusable_id sm sid \<longleftrightarrow> sid \<in> set (reusable_ids sm)"

text \<open>The keys of the map in its order.\<close>

definition get_session_ids :: "session_manager \<Rightarrow> int list" where
  "get_session_ids sm = sorted_list_of_set (dom (session_pool sm))"

definition is_id_in_session_ids :: "session_manager \<Rightarrow> int \<Rightarrow> bool" where
  "is_id_in_session_ids sm sid \<longleftrightarrow> sid \<in> set (get_session_ids sm)"

text \<open>\<open>std::map::insert\<close> leaves an entry that is there.\<close>

definition create_session :: "sock_type \<Rightarrow> int \<Rightarrow> session_manager \<Rightarrow> int \<times> session_manager" where
  "create_session socket_type comm_fd sm =
     (let (new_id, reusable) = (if reusable_ids sm = [] then (number_of_sessions sm, [])
                                else (last (reusable_ids sm), butlast (reusable_ids sm)));
          pool = (if new_id \<in> dom (session_pool sm) then session_pool sm
                  else (session_pool sm)(new_id \<mapsto> (socket_type, comm_fd)))
      in (new_id, sm\<lparr>reusable_ids := reusable, session_pool := pool, number_of_sessions := number_of_sessions sm + 1\<rparr>))"

definition delete_session :: "int \<Rightarrow> session_manager \<Rightarrow> session_manager" where
  "delete_session sid sm =
     (if \<not> is_id_in_session_ids sm sid then sm
      else sm\<lparr>closed_fds := closed_fds sm @ (case session_pool sm sid of Some (_, fd) \<Rightarrow> [fd] | None \<Rightarrow> []),
              session_pool := (session_pool sm)(sid := None),
              reusable_ids := reusable_ids sm @ [sid],
              number_of_sessions := number_of_sessions sm - 1\<rparr>)"

definition delete_all :: "session_manager \<Rightarrow> session_manager" where
  "delete_all sm = (if dom (session_pool sm) \<noteq> {} then fold delete_session (get_session_ids sm) sm else sm)"

text \<open>
  The invariant: the identifiers in use and those that wait to be reused are apart, and together they
  are the numbers below a bound.
\<close>

definition manager_inv :: "session_manager \<Rightarrow> bool" where
  "manager_inv sm \<longleftrightarrow> finite (dom (session_pool sm)) \<and> distinct (reusable_ids sm) \<and>
     dom (session_pool sm) \<inter> set (reusable_ids sm) = {} \<and>
     dom (session_pool sm) \<union> set (reusable_ids sm) =
       {0..<number_of_sessions sm + int (length (reusable_ids sm))} \<and>
     number_of_sessions sm = int (card (dom (session_pool sm)))"

lemma manager_inv_empty: "manager_inv empty_manager"
  by (simp add: manager_inv_def empty_manager_def)

lemma in_session_ids: "manager_inv sm \<Longrightarrow> is_id_in_session_ids sm sid \<longleftrightarrow> sid \<in> dom (session_pool sm)"
  by (simp add: is_id_in_session_ids_def get_session_ids_def manager_inv_def)

lemma domD_pair: "x \<notin> dom f \<longleftrightarrow> f x = None"
  by auto

definition next_id :: "session_manager \<Rightarrow> int" where
  "next_id sm = (if reusable_ids sm = [] then number_of_sessions sm else last (reusable_ids sm))"

lemma next_id_fresh:
  assumes "manager_inv sm" shows "next_id sm \<notin> dom (session_pool sm)"
proof (cases "reusable_ids sm = []")
  case True
  have "dom (session_pool sm) \<union> set (reusable_ids sm) = {0..<number_of_sessions sm + int (length (reusable_ids sm))}"
    using assms unfolding manager_inv_def by blast
  then have "dom (session_pool sm) = {0..<number_of_sessions sm}" unfolding True by simp
  with True show ?thesis by (simp add: next_id_def)
next
  case False
  then have "next_id sm \<in> set (reusable_ids sm)" by (simp add: next_id_def)
  with assms show ?thesis by (auto simp: manager_inv_def)
qed

lemma create_session_eq:
  assumes "manager_inv sm"
  shows "create_session t fd sm = (next_id sm, sm\<lparr>reusable_ids := butlast (reusable_ids sm),
    session_pool := (session_pool sm)(next_id sm \<mapsto> (t, fd)), number_of_sessions := number_of_sessions sm + 1\<rparr>)"
  using next_id_fresh [OF assms]
  by (cases "reusable_ids sm = []") (simp_all add: create_session_def next_id_def Let_def)

lemma create_session_inv:
  assumes "manager_inv sm"
  shows "manager_inv (snd (create_session t fd sm))"
proof -
  define P where "P = dom (session_pool sm)"
  define R where "R = reusable_ids sm"
  define n where "n = number_of_sessions sm"
  have inv: "finite P" "distinct R" "P \<inter> set R = {}" "P \<union> set R = {0..<n + int (length R)}" "n = int (card P)"
    using assms by (simp_all add: manager_inv_def P_def R_def n_def)
  have x: "next_id sm \<notin> P" using next_id_fresh [OF assms] by (simp add: P_def)
  have "insert (next_id sm) P \<union> set (butlast R) = {0..<n + 1 + int (length (butlast R))} \<and> distinct (butlast R) \<and>
      insert (next_id sm) P \<inter> set (butlast R) = {}"
  proof (cases "R = []")
    case True
    have P: "P = {0..<n}" "0 \<le> n" using inv(4,5) unfolding True by simp_all
    have "next_id sm = n" using True by (simp add: next_id_def flip: R_def n_def)
    then show ?thesis unfolding P(1) True using P(2) by auto
  next
    case False
    then obtain r R' where R: "R = R' @ [r]" by (metis append_butlast_last_id)
    then have "next_id sm = r" using False by (simp add: next_id_def flip: R_def)
    then show ?thesis using inv R by (auto simp: add.assoc)
  qed
  then show ?thesis
    using inv x by (simp add: create_session_eq [OF assms] manager_inv_def flip: P_def R_def n_def)
qed

lemma delete_session_pool:
  assumes "manager_inv sm"
  shows "session_pool (delete_session sid sm) = (session_pool sm)(sid := None)"
    "closed_fds (delete_session sid sm) = closed_fds sm @ (case session_pool sm sid of Some (_, fd) \<Rightarrow> [fd] | None \<Rightarrow> [])"
  using in_session_ids [OF assms, of sid] by (auto simp: delete_session_def domD_pair split: option.splits)

lemma delete_session_inv:
  assumes "manager_inv sm"
  shows "manager_inv (delete_session sid sm)"
proof (cases "sid \<in> dom (session_pool sm)")
  case False
  with in_session_ids [OF assms] assms show ?thesis by (simp add: delete_session_def)
next
  case True
  define P where "P = dom (session_pool sm)"
  define R where "R = reusable_ids sm"
  define n where "n = number_of_sessions sm"
  have inv: "finite P" "distinct R" "P \<inter> set R = {}" "P \<union> set R = {0..<n + int (length R)}" "n = int (card P)"
    "sid \<in> P"
    using assms True by (simp_all add: manager_inv_def P_def R_def n_def)
  then have "int (card (P - {sid})) = n - 1"
    by (metis card_Suc_Diff1 add_diff_cancel_right' of_nat_Suc add.commute)
  moreover have "P - {sid} \<union> set (R @ [sid]) = {0..<n - 1 + int (length (R @ [sid]))}" using inv by auto
  moreover have "(P - {sid}) \<inter> set (R @ [sid]) = {}" "distinct (R @ [sid])" using inv by auto
  ultimately show ?thesis
    using in_session_ids [OF assms, of sid] inv(1) True
    by (simp add: delete_session_def manager_inv_def flip: P_def R_def n_def)
qed

lemma delete_sessions:
  assumes "manager_inv sm" "distinct ids" "set ids \<subseteq> dom (session_pool sm)"
  shows "manager_inv (fold delete_session ids sm) \<and>
    session_pool (fold delete_session ids sm) = session_pool sm |` (- set ids) \<and>
    closed_fds (fold delete_session ids sm) = closed_fds sm @ map (\<lambda>sid. snd (the (session_pool sm sid))) ids"
  using assms
proof (induction ids arbitrary: sm)
  case Nil
  then show ?case by simp
next
  case (Cons i ids)
  have sub: "set ids \<subseteq> dom (session_pool (delete_session i sm))"
    using Cons.prems by (auto simp: delete_session_pool(1))
  have keep: "map (\<lambda>sid. snd (the (session_pool (delete_session i sm) sid))) ids = map (\<lambda>sid. snd (the (session_pool sm sid))) ids"
    using Cons.prems by (auto simp: delete_session_pool(1))
  from Cons.prems obtain t fd where i: "session_pool sm i = Some (t, fd)" by auto
  have pool: "(session_pool sm)(i := None) |` (- set ids) = session_pool sm |` (- insert i (set ids))"
    by (auto simp: restrict_map_def fun_eq_iff)
  show ?case
    using Cons.IH [OF delete_session_inv [OF Cons.prems(1)] _ sub] Cons.prems
    unfolding keep delete_session_pool [OF Cons.prems(1)] pool by (simp add: keep [unfolded delete_session_pool [OF Cons.prems(1)]] i)
qed

lemma delete_all_empties:
  assumes "manager_inv sm"
  shows "manager_inv (delete_all sm) \<and> session_pool (delete_all sm) = Map.empty \<and> number_of_sessions (delete_all sm) = 0 \<and>
    closed_fds (delete_all sm) = closed_fds sm @ map (\<lambda>sid. snd (the (session_pool sm sid))) (get_session_ids sm)"
proof (cases "dom (session_pool sm) = {}")
  case True
  with assms show ?thesis by (simp add: delete_all_def get_session_ids_def manager_inv_def)
next
  case False
  have ids: "distinct (get_session_ids sm)" "set (get_session_ids sm) = dom (session_pool sm)"
    using assms by (simp_all add: get_session_ids_def manager_inv_def)
  have e: "session_pool sm |` (- dom (session_pool sm)) = Map.empty"
    by (auto simp: restrict_map_def fun_eq_iff domD_pair split: if_splits)
  from delete_sessions [OF assms ids(1)] ids(2) False show ?thesis
    by (auto simp: delete_all_def e manager_inv_def)
qed

section \<open>The listener and its session threads\<close>

text \<open>
  Where a session thread stands in \<open>session_thread_call\<close>: spawned with its descriptor, counted,
  running its session, the session deleted, returned.
\<close>

datatype session_thread = Spawned int | Counted int | Running int int | Deleted | Returned

record listener =
  threads :: "session_thread list"
  number_of_threads :: int
  manager :: session_manager
  rejected :: "int list"

definition listener_init :: listener where
  "listener_init = \<lparr>threads = [], number_of_threads = 0, manager = empty_manager, rejected = []\<rparr>"

text \<open>
  The steps of the listener thread, which looks at the count before it spawns a thread
  (\<open>comm_thread_call\<close>), and of the session threads, in any order. A rejected connection is logged
  and forgotten, its descriptor stays open. This is one listener with a manager of its own: the other two listeners,
  which share the manager, and the main thread, which calls \<open>delete_all\<close> when the server stops while session threads
  may still run, are no steps of it.
\<close>

inductive listener_step :: "sock_type \<Rightarrow> int \<Rightarrow> listener \<Rightarrow> listener \<Rightarrow> bool" for t limit where
  accept: "number_of_threads s < limit \<Longrightarrow> listener_step t limit s (s\<lparr>threads := threads s @ [Spawned fd]\<rparr>)"
| reject: "number_of_threads s \<ge> limit \<Longrightarrow> listener_step t limit s (s\<lparr>rejected := rejected s @ [fd]\<rparr>)"
| count: "i < length (threads s) \<Longrightarrow> threads s ! i = Spawned fd \<Longrightarrow>
    listener_step t limit s (s\<lparr>threads := (threads s)[i := Counted fd], number_of_threads := number_of_threads s + 1\<rparr>)"
| create: "i < length (threads s) \<Longrightarrow> threads s ! i = Counted fd \<Longrightarrow> create_session t fd (manager s) = (sid, sm) \<Longrightarrow>
    listener_step t limit s (s\<lparr>threads := (threads s)[i := Running sid fd], manager := sm\<rparr>)"
| delete: "i < length (threads s) \<Longrightarrow> threads s ! i = Running sid fd \<Longrightarrow>
    listener_step t limit s (s\<lparr>threads := (threads s)[i := Deleted], manager := delete_session sid (manager s)\<rparr>)"
| return: "i < length (threads s) \<Longrightarrow> threads s ! i = Deleted \<Longrightarrow>
    listener_step t limit s (s\<lparr>threads := (threads s)[i := Returned], number_of_threads := number_of_threads s - 1\<rparr>)"

inductive listener_reachable :: "sock_type \<Rightarrow> int \<Rightarrow> listener \<Rightarrow> bool" for t limit where
  init: "listener_reachable t limit listener_init"
| step: "listener_reachable t limit s \<Longrightarrow> listener_step t limit s s' \<Longrightarrow> listener_reachable t limit s'"

definition counted :: "session_thread \<Rightarrow> bool" where
  "counted th = (case th of Counted _ \<Rightarrow> True | Running _ _ \<Rightarrow> True | Deleted \<Rightarrow> True | _ \<Rightarrow> False)"

text \<open>The sessions the threads are running, with their descriptors.\<close>

fun running_of :: "session_thread \<Rightarrow> (int \<times> int) list" where
  "running_of (Running sid fd) = [(sid, fd)]"
| "running_of _ = []"

definition running :: "session_thread list \<Rightarrow> (int \<times> int) list" where
  "running ths = concat (map running_of ths)"

definition pool_of :: "sock_type \<Rightarrow> (int \<times> int) list \<Rightarrow> int \<rightharpoonup> sock_type \<times> int" where
  "pool_of t rs = map_of (map (\<lambda>(sid, fd). (sid, (t, fd))) rs)"

definition threads_inv :: "sock_type \<Rightarrow> listener \<Rightarrow> bool" where
  "threads_inv t s \<longleftrightarrow> manager_inv (manager s) \<and>
     number_of_threads s = int (length (filter counted (threads s))) \<and>
     distinct (map fst (running (threads s))) \<and> session_pool (manager s) = pool_of t (running (threads s))"

lemma running_append [simp]: "running (xs @ ys) = running xs @ running ys" "running (x # xs) = running_of x @ running xs"
  "running [] = []"
  by (simp_all add: running_def)

lemma dom_pool_of: "dom (pool_of t rs) = fst ` set rs"
  by (auto simp: pool_of_def dom_map_of_conv_image_fst image_image split_def)

lemma pool_of_insert:
  "sid \<notin> fst ` set (us @ vs) \<Longrightarrow> pool_of t (us @ (sid, fd) # vs) = (pool_of t (us @ vs))(sid \<mapsto> (t, fd))"
proof (induction us)
  case Nil
  then show ?case by (simp add: pool_of_def)
next
  case (Cons u us)
  then show ?case by (cases u) (auto simp: pool_of_def fun_upd_twist)
qed

lemma pool_of_remove:
  assumes "sid \<notin> fst ` set (us @ vs)"
  shows "(pool_of t (us @ (sid, fd) # vs))(sid := None) = pool_of t (us @ vs)"
proof -
  have "pool_of t (us @ vs) sid = None" using assms dom_pool_of [of t "us @ vs"] by blast
  then show ?thesis unfolding pool_of_insert [OF assms] by (simp add: fun_upd_idem_iff)
qed

lemma split_at:
  assumes "i < length xs"
  obtains us vs where "xs = us @ xs ! i # vs" "\<And>y. xs[i := y] = us @ y # vs"
proof (rule that)
  show "xs = take i xs @ xs ! i # drop (Suc i) xs" using id_take_nth_drop [OF assms] .
  show "xs[i := y] = take i xs @ y # drop (Suc i) xs" for y using assms by (simp add: upd_conv_take_nth_drop)
qed

lemma threads_inv_step:
  assumes "threads_inv t s" "listener_step t limit s s'"
  shows "threads_inv t s'"
  using assms(2)
proof cases
  case (accept fd)
  with assms(1) show ?thesis by (simp add: threads_inv_def counted_def)
next
  case (reject fd)
  with assms(1) show ?thesis by (simp add: threads_inv_def)
next
  case (count i fd)
  obtain us vs where "threads s = us @ Spawned fd # vs" "\<And>y. (threads s)[i := y] = us @ y # vs"
    using split_at count(2,3) by metis
  with assms(1) count(1) show ?thesis by (simp add: threads_inv_def counted_def)
next
  case (create i fd sid sm)
  obtain us vs where t: "threads s = us @ Counted fd # vs" "\<And>y. (threads s)[i := y] = us @ y # vs"
    using split_at create(2,3) by metis
  have inv: "manager_inv (manager s)" using assms(1) by (simp add: threads_inv_def)
  note c = create_session_eq [OF inv, of t fd]
  have sm: "manager_inv sm" "session_pool sm = (session_pool (manager s))(sid \<mapsto> (t, fd))"
    using create_session_inv [OF inv, of t fd] c create by auto
  have "session_pool (manager s) = pool_of t (running us @ running vs)"
    using assms(1) t(1) by (simp add: threads_inv_def)
  moreover from this have sid: "sid \<notin> fst ` set (running us @ running vs)"
    using next_id_fresh [OF inv] c create(4) by (simp add: dom_pool_of)
  ultimately have "session_pool sm = pool_of t (running us @ (sid, fd) # running vs)"
    using sm(2) pool_of_insert [OF sid] by simp
  with assms(1) create(1) t sm(1) sid show ?thesis
    by (auto simp: threads_inv_def counted_def)
next
  case (delete i sid fd)
  obtain us vs where t: "threads s = us @ Running sid fd # vs" "\<And>y. (threads s)[i := y] = us @ y # vs"
    using split_at delete(2,3) by metis
  have inv: "manager_inv (manager s)" using assms(1) by (simp add: threads_inv_def)
  have "session_pool (manager s) = pool_of t (running us @ (sid, fd) # running vs)"
    using assms(1) t(1) by (simp add: threads_inv_def)
  moreover have sid: "sid \<notin> fst ` set (running us @ running vs)"
    using assms(1) t(1) by (auto simp: threads_inv_def)
  ultimately have "session_pool (delete_session sid (manager s)) = pool_of t (running us @ running vs)"
    using pool_of_remove [OF sid] by (simp add: delete_session_pool [OF inv])
  with assms(1) delete(1) t delete_session_inv [OF inv, of sid] show ?thesis
    by (auto simp: threads_inv_def counted_def)
next
  case (return i)
  obtain us vs where "threads s = us @ Deleted # vs" "\<And>y. (threads s)[i := y] = us @ y # vs"
    using split_at return(2,3) by metis
  with assms(1) return(1) show ?thesis by (simp add: threads_inv_def counted_def)
qed

lemma threads_inv_reachable: "listener_reachable t limit s \<Longrightarrow> threads_inv t s"
proof (induction rule: listener_reachable.induct)
  case init
  show ?case using manager_inv_empty by (simp add: threads_inv_def listener_init_def pool_of_def empty_manager_def)
next
  case (step s s')
  then show ?case by (blast intro: threads_inv_step)
qed

text \<open>
  C30. However the listener and its session threads interleave: identifiers are never shared, a new
  session gets one that is not in use, the count of sessions is the size of the pool, the count of
  threads is that of the threads between their two updates of it, and a thread that deletes its
  session closes its own descriptor and no other. \<open>delete_all\<close> leaves no session.
\<close>

theorem session_pool_invariant:
  assumes "listener_reachable t limit s"
  shows "fst (create_session t fd (manager s)) \<notin> dom (session_pool (manager s)) \<and>
    number_of_sessions (manager s) = int (card (dom (session_pool (manager s)))) \<and>
    (\<forall>sid. is_reusable_id (manager s) sid \<longrightarrow> \<not> is_id_in_session_ids (manager s) sid) \<and>
    number_of_threads s = int (length (filter counted (threads s))) \<and>
    distinct (map fst (running (threads s))) \<and>
    (\<forall>(sid, fd)\<in>set (running (threads s)). closed_fds (delete_session sid (manager s)) = closed_fds (manager s) @ [fd]) \<and>
    session_pool (delete_all (manager s)) = Map.empty \<and> number_of_sessions (delete_all (manager s)) = 0"
proof -
  have inv: "threads_inv t s" using threads_inv_reachable [OF assms] .
  then have m: "manager_inv (manager s)" by (simp add: threads_inv_def)
  have pool: "session_pool (manager s) sid = Some (t, fd)" if "(sid, fd) \<in> set (running (threads s))" for sid fd
  proof -
    have "map fst (map (\<lambda>(sid, fd). (sid, (t, fd))) (running (threads s))) = map fst (running (threads s))"
      by (simp add: split_def comp_def)
    with inv have "distinct (map fst (map (\<lambda>(sid, fd). (sid, (t, fd))) (running (threads s))))"
      by (simp only: threads_inv_def)
    with that have "pool_of t (running (threads s)) sid = Some (t, fd)"
      unfolding pool_of_def by (intro map_of_is_SomeI) (auto intro!: image_eqI)
    with inv show ?thesis by (simp add: threads_inv_def)
  qed
  have "\<forall>(sid, fd)\<in>set (running (threads s)). closed_fds (delete_session sid (manager s)) = closed_fds (manager s) @ [fd]"
    using pool by (auto simp: delete_session_pool [OF m])
  moreover have "\<forall>sid. is_reusable_id (manager s) sid \<longrightarrow> \<not> is_id_in_session_ids (manager s) sid"
    using m in_session_ids [OF m] by (auto simp: is_reusable_id_def manager_inv_def)
  moreover have "fst (create_session t fd (manager s)) \<notin> dom (session_pool (manager s))"
    using next_id_fresh [OF m] by (simp add: create_session_eq [OF m])
  ultimately show ?thesis
    using inv m delete_all_empties [OF m] unfolding threads_inv_def manager_inv_def by blast
qed

theorem session_pool_invariant_witness:
  "closed_fds (delete_session 0 \<lparr>session_pool = [0 \<mapsto> (TCP, 7)], reusable_ids = [], number_of_sessions = 1,
     closed_fds = []\<rparr>) = [7]"
proof -
  define m where "m = \<lparr>session_pool = [0 \<mapsto> (TCP, 7)], reusable_ids = [], number_of_sessions = 1, closed_fds = []\<rparr>"
  define s0 where "s0 = \<lparr>threads = [Spawned 7], number_of_threads = 0, manager = empty_manager, rejected = []\<rparr>"
  define s1 where "s1 = \<lparr>threads = [Counted 7], number_of_threads = 1, manager = empty_manager, rejected = []\<rparr>"
  define s2 where "s2 = \<lparr>threads = [Running 0 7], number_of_threads = 1, manager = m, rejected = []\<rparr>"
  have "listener_step TCP 1 listener_init s0"
    using accept [of listener_init 1 TCP 7] by (simp add: listener_init_def s0_def)
  moreover have "listener_step TCP 1 s0 s1"
    using count [of 0 s0 7 TCP 1] by (simp add: s0_def s1_def)
  moreover have "listener_step TCP 1 s1 s2"
    using create [of 0 s1 7 TCP 0 m 1]
    by (simp add: s1_def s2_def m_def empty_manager_def create_session_def)
  ultimately have "listener_reachable TCP 1 s2"
    by (meson listener_reachable.intros)
  from session_pool_invariant [OF this] show ?thesis
    by (simp add: s2_def m_def)
qed

text \<open>
  The limit on connections is looked at before the thread it admits is counted: threads admitted
  close together all pass, and any number of them is then counted, whatever the limit.
\<close>

lemma accepted_reachable:
  assumes "0 < limit"
  shows "listener_reachable t limit (listener_init\<lparr>threads := replicate k (Spawned fd)\<rparr>)"
proof (induction k)
  case 0
  have "listener_init\<lparr>threads := replicate 0 (Spawned fd)\<rparr> = listener_init" by (simp add: listener_init_def)
  then show ?case by (simp only: listener_reachable.init)
next
  case (Suc k)
  have "number_of_threads (listener_init\<lparr>threads := replicate k (Spawned fd)\<rparr>) < limit"
    using assms by (simp add: listener_init_def)
  from listener_reachable.step [OF Suc accept [OF this, of t fd]] show ?case
    by (simp add: replicate_append_same)
qed

lemma counted_reachable:
  assumes "0 < limit" "j \<le> k"
  shows "listener_reachable t limit (listener_init\<lparr>threads := replicate j (Counted fd) @ replicate (k - j) (Spawned fd),
    number_of_threads := int j\<rparr>)"
  using assms(2)
proof (induction j)
  case 0
  then show ?case using accepted_reachable [OF assms(1), of t k fd] by (simp add: listener_init_def)
next
  case (Suc j)
  define s where "s = listener_init\<lparr>threads := replicate j (Counted fd) @ replicate (k - j) (Spawned fd), number_of_threads := int j\<rparr>"
  obtain r where r: "k - j = Suc r" "k - Suc j = r" using Suc.prems by (metis Suc_diff_Suc Suc_le_lessD)
  have "j < length (threads s)" "threads s ! j = Spawned fd"
    by (simp_all add: s_def r(1) nth_append)
  from count [OF this] have "listener_step t limit s (s\<lparr>threads := (threads s)[j := Counted fd], number_of_threads := number_of_threads s + 1\<rparr>)" .
  moreover have "listener_reachable t limit s" using Suc by (simp add: s_def)
  ultimately have "listener_reachable t limit (s\<lparr>threads := (threads s)[j := Counted fd], number_of_threads := number_of_threads s + 1\<rparr>)"
    by (rule listener_reachable.step [rotated])
  moreover have "(threads s)[j := Counted fd] = replicate (Suc j) (Counted fd) @ replicate (k - Suc j) (Spawned fd)"
    unfolding r(2) by (simp add: s_def r(1) list_update_append replicate_app_Cons_same)
  ultimately show ?case by (simp add: s_def add.commute)
qed

lemma worker_limit_exceeded:
  assumes "0 < limit"
  shows "\<exists>s. listener_reachable t limit s \<and> number_of_threads s = int k"
  using counted_reachable [OF assms le_refl [of k], of t 0]
  by (intro exI [of _ "listener_init\<lparr>threads := replicate k (Counted 0) @ replicate (k - k) (Spawned 0), number_of_threads := int k\<rparr>"]) simp

lemma worker_limit_exceeded_example:
  "\<exists>s. listener_reachable WEBSOCK 1 s \<and> number_of_threads s = 5"
  using worker_limit_exceeded [of 1 WEBSOCK 5] by simp

end
