(* ===== verification/Drivers.thy ===== *)
theory Drivers
  imports Sdk_Prelude
begin

text \<open>
  The drivers manager (\<open>drivers_manager.hpp\<close>, \<open>drivers_manager.cpp\<close>): drivers are built on first use,
  and the constructor of a driver may ask the context for others, which are then built first. The
  drivers themselves are generated and user code: \<open>deps d\<close> is what the constructor of \<open>d\<close> asks for,
  in order, and the \<open>execute\<close> functions are arguments. Indices are the driver numbers; the code
  subtracts 2 from them.
\<close>

section \<open>State\<close>

text \<open>
  \<open>is_started\<close> and \<open>device_list\<close> belong to the manager, the rest to its container; \<open>constructed\<close>
  records the constructors that have returned, in order.
\<close>

record driver_state =
  is_started :: "nat \<Rightarrow> bool"
  device_list :: "nat \<Rightarrow> bool"
  c_is_started :: "nat \<Rightarrow> bool"
  c_is_starting :: "nat \<Rightarrow> bool"
  driver_tuple :: "nat \<Rightarrow> bool"
  exit_all :: bool
  constructed :: "nat list"

definition drivers_init :: driver_state where
  "drivers_init = \<lparr>is_started = (\<lambda>_. False), device_list = (\<lambda>_. False), c_is_started = (\<lambda>_. False),
     c_is_starting = (\<lambda>_. False), driver_tuple = (\<lambda>_. False), exit_all = False, constructed = []\<rparr>"

text \<open>The dereference of a driver that was not built, a number outside the arrays, no fuel left.\<close>

datatype driver_error = Null_Driver | Out_Of_Range | No_Fuel

definition bind_sum :: "'e + 'a \<Rightarrow> ('a \<Rightarrow> 'e + 'b) \<Rightarrow> 'e + 'b" where
  "bind_sum r k = (case r of Inl e \<Rightarrow> Inl e | Inr x \<Rightarrow> k x)"

lemma bind_sum_simps [simp]: "bind_sum (Inl e) k = Inl e" "bind_sum (Inr x) k = k x"
  by (simp_all add: bind_sum_def)

section \<open>Building drivers\<close>

type_synonym get_driver = "nat \<Rightarrow> driver_state \<Rightarrow> driver_error + driver_state"

text \<open>A constructor asks for its drivers one after the other.\<close>

fun construct :: "get_driver \<Rightarrow> nat list \<Rightarrow> driver_state \<Rightarrow> driver_error + driver_state" where
  "construct get [] st = Inr st"
| "construct get (x # xs) st = bind_sum (get x st) (construct get xs)"

definition container_alloc ::
  "get_driver \<Rightarrow> (nat \<Rightarrow> nat list) \<Rightarrow> nat \<Rightarrow> driver_state \<Rightarrow> driver_error + (int \<times> driver_state)" where
  "container_alloc get deps driver st =
     (if c_is_started st driver then Inr (0, st)
      else if c_is_starting st driver then Inr (- 1, st)
      else bind_sum (construct get (deps driver) (st\<lparr>c_is_starting := (c_is_starting st)(driver := True)\<rparr>)) (\<lambda>st.
        Inr (0, st\<lparr>driver_tuple := (driver_tuple st)(driver := True),
                   c_is_starting := (c_is_starting st)(driver := False),
                   c_is_started := (c_is_started st)(driver := True),
                   constructed := constructed st @ [driver]\<rparr>)))"

definition alloc_driver :: "get_driver \<Rightarrow> (nat \<Rightarrow> nat list) \<Rightarrow> get_driver" where
  "alloc_driver get deps driver st =
     (if is_started st driver then Inr st
      else bind_sum (container_alloc get deps driver st) (\<lambda>(r, st).
        if r < 0 then Inr (st\<lparr>exit_all := True\<rparr>)
        else Inr (st\<lparr>device_list := (device_list st)(driver := True), is_started := (is_started st)(driver := True)\<rparr>)))"

text \<open>\<open>DriverManager::get\<close>, with fuel for the nesting of constructors.\<close>

primrec get_driver :: "(nat \<Rightarrow> nat list) \<Rightarrow> nat \<Rightarrow> get_driver" where
  "get_driver deps 0 driver st = Inl No_Fuel"
| "get_driver deps (Suc n) driver st =
     bind_sum (if is_started st driver then Inr st else alloc_driver (get_driver deps n) deps driver st) (\<lambda>st.
       if driver_tuple st driver then Inr st else Inl Null_Driver)"

section \<open>Executing a command\<close>

text \<open>
  \<open>start_impl\<close> and \<open>execute_driver_implementation\<close> walk the list of driver numbers; the last one is
  taken without a comparison.
\<close>

fun dispatch :: "nat list \<Rightarrow> nat \<Rightarrow> nat" where
  "dispatch [dev0] driver = dev0"
| "dispatch (dev0 # drivers) driver = (if driver = dev0 then dev0 else dispatch drivers driver)"

definition server_execute :: "('d \<Rightarrow> int \<times> 'd) \<Rightarrow> ('d \<Rightarrow> int \<times> 'd) \<Rightarrow> nat \<Rightarrow> 'd \<Rightarrow> int \<times> 'd" where
  "server_execute send_version send_cmds operation d =
     (if operation = 0 then send_version d else if operation = 1 then send_cmds d else (- 1, d))"

text \<open>
  \<open>DriverManager::execute\<close>. The assertion on the driver number is compiled out of the server, so
  that a larger one indexes outside \<open>is_started\<close>.
\<close>

definition manager_execute ::
  "(nat \<Rightarrow> nat list) \<Rightarrow> nat \<Rightarrow> nat \<Rightarrow> (nat \<Rightarrow> 'd \<Rightarrow> int \<times> 'd) \<Rightarrow> (nat \<Rightarrow> nat \<Rightarrow> 'd \<Rightarrow> int \<times> 'd) \<Rightarrow>
   nat \<Rightarrow> nat \<Rightarrow> driver_state \<times> 'd \<Rightarrow> driver_error + (int \<times> driver_state \<times> 'd)" where
  "manager_execute deps n device_num server driver_execute driver operation = (\<lambda>(st, d).
     if driver = 0 then Inr (0, st, d)
     else if driver = 1 then (case server operation d of (r, d) \<Rightarrow> Inr (r, st, d))
     else if driver \<ge> device_num then Inl Out_Of_Range
     else bind_sum (if is_started st driver then Inr st
                    else alloc_driver (get_driver deps n) deps (dispatch [2..<device_num] driver) st) (\<lambda>st.
       if \<not> device_list st driver then Inl Null_Driver
       else case driver_execute (dispatch [2..<device_num] driver) operation d of (r, d) \<Rightarrow> Inr (r, st, d)))"

section \<open>The order of construction\<close>

text \<open>Between two calls the records of manager and container agree with what was built.\<close>

definition drivers_inv :: "(nat \<Rightarrow> nat list) \<Rightarrow> driver_state \<Rightarrow> bool" where
  "drivers_inv deps st \<longleftrightarrow>
     (\<forall>d. is_started st d = (d \<in> set (constructed st))) \<and> (\<forall>d. device_list st d = (d \<in> set (constructed st))) \<and>
     (\<forall>d. c_is_started st d = (d \<in> set (constructed st))) \<and> (\<forall>d. driver_tuple st d = (d \<in> set (constructed st))) \<and>
     distinct (constructed st) \<and>
     (\<forall>us d vs. constructed st = us @ d # vs \<longrightarrow> set (deps d) \<subseteq> set us)"

definition needs :: "(nat \<Rightarrow> nat list) \<Rightarrow> (nat \<times> nat) set" where
  "needs deps = {(a, b). b \<in> set (deps a)}\<^sup>*"

text \<open>What a call leaves of the state it starts from.\<close>

definition builds :: "(nat \<Rightarrow> nat list) \<Rightarrow> nat set \<Rightarrow> driver_state \<Rightarrow> driver_state \<Rightarrow> bool" where
  "builds deps D st st' \<longleftrightarrow> drivers_inv deps st' \<and> c_is_starting st' = c_is_starting st \<and> exit_all st' = exit_all st \<and>
     D \<subseteq> set (constructed st') \<and>
     (\<exists>new. constructed st' = constructed st @ new \<and> (\<forall>x\<in>set new. \<exists>d\<in>D. (d, x) \<in> needs deps))"

lemma builds_refl: "drivers_inv deps st \<Longrightarrow> D \<subseteq> set (constructed st) \<Longrightarrow> builds deps D st st"
  by (auto simp: builds_def)

lemma builds_trans:
  "builds deps D st st' \<Longrightarrow> builds deps E st' st'' \<Longrightarrow> builds deps (D \<union> E) st st''"
  unfolding builds_def by auto blast+

lemma construct_builds:
  assumes "\<And>x st. x \<in> set xs \<Longrightarrow> drivers_inv deps st \<Longrightarrow> \<forall>y. c_is_starting st y \<longrightarrow> r \<le> rank y \<Longrightarrow>
      \<exists>st'. get x st = Inr st' \<and> builds deps {x} st st'"
    and "drivers_inv deps st" "\<forall>y. c_is_starting st y \<longrightarrow> r \<le> rank y"
  shows "\<exists>st'. construct get xs st = Inr st' \<and> builds deps (set xs) st st'"
  using assms
proof (induction xs arbitrary: st)
  case Nil
  then show ?case by (simp add: builds_refl)
next
  case (Cons x xs)
  from Cons.prems(1) [of x st] Cons.prems(2,3) obtain st1 where st1: "get x st = Inr st1" "builds deps {x} st st1"
    by auto
  then have "drivers_inv deps st1" "\<forall>y. c_is_starting st1 y \<longrightarrow> r \<le> rank y"
    using Cons.prems(3) by (simp_all add: builds_def)
  from Cons.IH [OF Cons.prems(1) this] obtain st2 where "construct get xs st1 = Inr st2" "builds deps (set xs) st1 st2"
    by auto
  with st1 builds_trans [OF st1(2) this(2)] show ?case by auto
qed

lemma get_driver_builds:
  assumes rank: "\<And>d x. x \<in> set (deps d) \<Longrightarrow> rank x < rank d"
    and "drivers_inv deps st" "\<forall>y. c_is_starting st y \<longrightarrow> rank d < rank y" "rank d < n"
  shows "\<exists>st'. get_driver deps n d st = Inr st' \<and> builds deps {d} st st'"
  using assms(2-)
proof (induction n arbitrary: d st)
  case 0
  then show ?case by simp
next
  case (Suc n)
  show ?case
  proof (cases "is_started st d")
    case True
    with Suc.prems(1) show ?thesis
      by (auto simp: drivers_inv_def intro!: builds_refl)
  next
    case False
    then have d: "d \<notin> set (constructed st)" "\<not> c_is_started st d" "\<not> c_is_starting st d"
      using Suc.prems(1,2) by (auto simp: drivers_inv_def)
    define st0 where "st0 = st\<lparr>c_is_starting := (c_is_starting st)(d := True)\<rparr>"
    have "drivers_inv deps st0" using Suc.prems(1) by (simp add: st0_def drivers_inv_def)
    moreover have "\<forall>y. c_is_starting st0 y \<longrightarrow> rank d \<le> rank y" using Suc.prems(2) by (auto simp: st0_def)
    moreover have "\<exists>st'. get_driver deps n x s = Inr st' \<and> builds deps {x} s st'"
      if "x \<in> set (deps d)" "drivers_inv deps s" "\<forall>y. c_is_starting s y \<longrightarrow> rank d \<le> rank y" for x s
      using Suc.IH [of s x] Suc.prems(3) that rank [OF that(1)] by fastforce
    ultimately obtain st1 where st1: "construct (get_driver deps n) (deps d) st0 = Inr st1" "builds deps (set (deps d)) st0 st1"
      using construct_builds [of "deps d" deps "rank d" rank "get_driver deps n" st0] by blast
    from st1(2) obtain new where new: "constructed st1 = constructed st @ new" "set (deps d) \<subseteq> set (constructed st1)"
      "\<forall>x\<in>set new. \<exists>e\<in>set (deps d). (e, x) \<in> needs deps"
      "drivers_inv deps st1" "c_is_starting st1 = (c_is_starting st)(d := True)" "exit_all st1 = exit_all st"
      by (auto simp: builds_def st0_def)
    have below: "rank x \<le> rank e" if "(e, x) \<in> needs deps" for e x
      using that unfolding needs_def
      by (induction rule: rtrancl_induct) (auto dest: rank)
    have fresh: "d \<notin> set (constructed st1)"
      using d(1) new(1,3) rank below by (fastforce dest: leD)
    define st2 where "st2 = st1\<lparr>driver_tuple := (driver_tuple st1)(d := True), c_is_starting := (c_is_starting st1)(d := False),
      c_is_started := (c_is_started st1)(d := True), constructed := constructed st1 @ [d],
      device_list := (device_list st1)(d := True), is_started := (is_started st1)(d := True)\<rparr>"
    have "get_driver deps (Suc n) d st = Inr st2"
      using False d st1(1) by (simp add: alloc_driver_def container_alloc_def st2_def flip: st0_def)
    moreover have "drivers_inv deps st2"
    proof -
      have "set (deps e) \<subseteq> set us" if "constructed st1 @ [d] = us @ e # vs" for us e vs
      proof (cases vs rule: rev_cases)
        case Nil
        with that new(2) show ?thesis by simp
      next
        case (snoc ws w)
        with that have "constructed st1 = us @ e # ws" by simp
        with new(4) show ?thesis by (simp add: drivers_inv_def)
      qed
      with new(4) fresh show ?thesis by (auto simp: drivers_inv_def st2_def)
    qed
    moreover have "c_is_starting st2 = c_is_starting st" using d(3) new(5) by (auto simp: st2_def fun_eq_iff)
    moreover have "\<forall>x\<in>set (new @ [d]). (d, x) \<in> needs deps"
    proof
      fix x
      assume "x \<in> set (new @ [d])"
      then consider "x = d" | e where "e \<in> set (deps d)" "(e, x) \<in> needs deps" using new(3) by auto
      then show "(d, x) \<in> needs deps"
        by cases (auto simp: needs_def intro: converse_rtrancl_into_rtrancl)
    qed
    ultimately have "get_driver deps (Suc n) d st = Inr st2 \<and> builds deps {d} st st2"
      using new(1,6) unfolding builds_def by (auto simp: st2_def)
    then show ?thesis by blast
  qed
qed

lemma drivers_inv_init: "drivers_inv deps drivers_init"
  by (simp add: drivers_inv_def drivers_init_def)

lemma needed_constructed:
  assumes "drivers_inv deps st" "d \<in> set (constructed st)" "(d, x) \<in> needs deps"
  shows "x \<in> set (constructed st)"
  using assms(3) unfolding needs_def
proof (induction rule: rtrancl_induct)
  case base
  show ?case by (rule assms(2))
next
  case (step y z)
  then obtain us vs where "constructed st = us @ y # vs" by (auto dest: split_list)
  with assms(1) have "set (deps y) \<subseteq> set us" unfolding drivers_inv_def by blast
  with step.hyps(2) \<open>constructed st = us @ y # vs\<close> show ?case by auto
qed

text \<open>
  C32. When the constructors ask for each other without a cycle, asking for a driver on a fresh
  server builds exactly the drivers it needs, directly or through others, each once and after those
  it asks for, and raises no alarm; nesting deeper than the chain of requests does not occur.
\<close>

theorem drivers_built_in_order:
  assumes "\<And>d x. x \<in> set (deps d) \<Longrightarrow> rank x < (rank d :: nat)" "rank d < n"
  shows "\<exists>st. get_driver deps n d drivers_init = Inr st \<and> driver_tuple st d \<and> \<not> exit_all st \<and>
    distinct (constructed st) \<and> set (constructed st) = {x. (d, x) \<in> needs deps} \<and>
    (\<forall>us x vs. constructed st = us @ x # vs \<longrightarrow> set (deps x) \<subseteq> set us)"
proof -
  obtain st where st: "get_driver deps n d drivers_init = Inr st" "builds deps {d} drivers_init st"
    using get_driver_builds [where rank = rank and d = d and n = n and deps = deps and st = drivers_init]
      assms drivers_inv_init [of deps] by (auto simp: drivers_init_def)
  then have inv: "drivers_inv deps st" and d: "d \<in> set (constructed st)" by (auto simp: builds_def)
  have "set (constructed st) = {x. (d, x) \<in> needs deps}"
    using st(2) needed_constructed [OF inv d] by (auto simp: builds_def drivers_init_def)
  with st inv d show ?thesis by (auto simp: builds_def drivers_init_def drivers_inv_def)
qed

text \<open>Driver 4 asks for 3 and 2, driver 3 asks for 2.\<close>

definition demo_deps :: "nat \<Rightarrow> nat list" where
  "demo_deps d = (if d = 4 then [3, 2] else if d = 3 then [2] else [])"

theorem drivers_built_in_order_witness:
  "(\<exists>st. get_driver demo_deps 5 4 drivers_init = Inr st \<and> set (constructed st) = {x. (4, x) \<in> needs demo_deps}) \<and>
   map_sum id constructed (get_driver demo_deps 5 4 drivers_init) = Inr [2, 3, 4]"
proof
  have "rank x < rank d" if "x \<in> set (demo_deps d)" "rank = (\<lambda>d. d)" for x d and rank :: "nat \<Rightarrow> nat"
    using that by (auto simp: demo_deps_def split: if_splits)
  then show "\<exists>st. get_driver demo_deps 5 4 drivers_init = Inr st \<and> set (constructed st) = {x. (4, x) \<in> needs demo_deps}"
    using drivers_built_in_order [of demo_deps "\<lambda>d. d" 4 5] by auto
  show "map_sum id constructed (get_driver demo_deps 5 4 drivers_init) = Inr [2, 3, 4]"
    by (simp add: numeral_eq_Suc alloc_driver_def container_alloc_def drivers_init_def demo_deps_def)
qed

text \<open>
  A constructor that asks for its own driver is noticed and sets \<open>exit_all\<close>, but the orderly exit
  is never reached: the reference returned for the driver that is not there is a null dereference.
\<close>

lemma circular_dependency_crashes:
  assumes "deps d = d # ds"
  shows "alloc_driver (get_driver deps n) deps d (drivers_init\<lparr>c_is_starting := (\<lambda>_. False)(d := True)\<rparr>) =
      Inr (drivers_init\<lparr>c_is_starting := (\<lambda>_. False)(d := True), exit_all := True\<rparr>) \<and>
    get_driver deps (n + 2) d drivers_init = Inl Null_Driver"
  using assms by (simp add: alloc_driver_def container_alloc_def drivers_init_def numeral_2_eq_2)

lemma circular_dependency_example:
  "get_driver (\<lambda>_. [3]) 7 3 drivers_init = Inl Null_Driver"
  using circular_dependency_crashes [of "\<lambda>_. [3]" 3 "[]" 5] by simp

lemma dispatch_in: "driver \<in> set xs \<Longrightarrow> dispatch xs driver = driver"
  by (induction xs driver rule: dispatch.induct) auto

text \<open>
  C34. A command for a driver of the server reaches that driver, which is built first when it is its
  first command, and the server's own driver for number 1; driver 0 is answered with success. A
  number the server does not have indexes outside the arrays: a client can bring the server down.
\<close>

theorem manager_execute_reaches_driver:
  assumes "\<And>d x. x \<in> set (deps d) \<Longrightarrow> rank x < (rank d :: nat)" "rank driver < n"
    and "drivers_inv deps st" "\<And>y. \<not> c_is_starting st y"
  shows "if driver = 0 then manager_execute deps n device_num server ex driver op (st, d) = Inr (0, st, d)
    else if driver = 1 then manager_execute deps n device_num server ex driver op (st, d) =
      Inr (fst (server op d), st, snd (server op d))
    else if driver \<ge> device_num then manager_execute deps n device_num server ex driver op (st, d) = Inl Out_Of_Range
    else \<exists>st'. manager_execute deps n device_num server ex driver op (st, d) =
        Inr (fst (ex driver op d), st', snd (ex driver op d)) \<and> drivers_inv deps st' \<and> is_started st' driver"
proof -
  have dis: "dispatch [2..<device_num] driver = driver" if "driver \<noteq> 0" "driver \<noteq> 1" "\<not> driver \<ge> device_num"
    using that by (intro dispatch_in) auto
  obtain m where n: "n = Suc m" using assms(2) by (cases n) auto
  have "rank driver < Suc n" using assms(2) by simp
  then obtain st' where st': "get_driver deps (Suc n) driver st = Inr st'" "builds deps {driver} st st'"
    using get_driver_builds [where rank = rank and d = driver and n = "Suc n" and deps = deps and st = st] assms by blast
  then have "drivers_inv deps st'" "device_list st' driver" "is_started st' driver"
    by (auto simp: builds_def drivers_inv_def)
  moreover have "(if is_started st driver then Inr st else alloc_driver (get_driver deps n) deps driver st) = Inr st'"
    using st'(1) by (auto simp: bind_sum_def split: sum.splits if_splits)
  ultimately show ?thesis
    using dis by (auto simp: manager_execute_def split_def bind_sum_def)
qed

theorem manager_execute_reaches_driver_witness:
  "manager_execute demo_deps 7 5 (\<lambda>op d. (- 1, d)) (\<lambda>drv op d. (7, d @ [(drv, op)])) 5 0 (drivers_init, []) = Inl Out_Of_Range \<and>
   (\<exists>st'. manager_execute demo_deps 7 5 (\<lambda>op d. (- 1, d)) (\<lambda>drv op d. (7, d @ [(drv, op)])) 4 1 (drivers_init, []) =
      Inr (7, st', [(4, 1)]))"
proof -
  have r: "x < d" if "x \<in> set (demo_deps d)" for x d :: nat
    using that by (auto simp: demo_deps_def split: if_splits)
  have c: "\<not> c_is_starting drivers_init y" for y by (simp add: drivers_init_def)
  show ?thesis
    using manager_execute_reaches_driver [where deps = demo_deps and rank = "\<lambda>d. d" and driver = 5 and n = 7 and st = drivers_init
        and device_num = 5 and server = "\<lambda>op d. (- 1, d)" and ex = "\<lambda>drv op d. (7, d @ [(drv, op)])" and op = 0 and d = "[]"]
      manager_execute_reaches_driver [where deps = demo_deps and rank = "\<lambda>d. d" and driver = 4 and n = 7 and st = drivers_init
        and device_num = 5 and server = "\<lambda>op d. (- 1, d)" and ex = "\<lambda>drv op d. (7, d @ [(drv, op)])" and op = 1 and d = "[]"]
      r c drivers_inv_init [of demo_deps]
    by auto
qed

end
