(* ===== verification/Client_Context.thy ===== *)
theory Client_Context
  imports Sdk_Prelude
begin

text \<open>
  What the client (\<open>koheron-client.hpp\<close>) reads from the description of an instrument, the JSON text
  the server generates: the scanners of \<open>op_detail\<close>, the table of operations \<open>OpTable\<close> and the lookup
  \<open>find_op_in_json\<close>. A \<open>std::string\<close> is a list of characters, a position a \<open>nat\<close> and \<open>npos\<close> the
  value \<open>None\<close>, which is larger than every position.
\<close>

section \<open>Scanning\<close>

abbreviation (input) QUOTE :: char where "QUOTE \<equiv> CHR 0x22"
abbreviation (input) BACKSLASH :: char where "BACKSLASH \<equiv> CHR 0x5C"
abbreviation (input) LBRACE :: char where "LBRACE \<equiv> CHR 0x7B"
abbreviation (input) RBRACE :: char where "RBRACE \<equiv> CHR 0x7D"
abbreviation (input) LBRACKET :: char where "LBRACKET \<equiv> CHR 0x5B"
abbreviation (input) RBRACKET :: char where "RBRACKET \<equiv> CHR 0x5D"
abbreviation (input) COMMA :: char where "COMMA \<equiv> CHR 0x2C"

text \<open>\<open>s[pos]\<close>: one past the end is the terminating zero.\<close>

definition char_at :: "string \<Rightarrow> nat \<Rightarrow> char" where
  "char_at s pos = (if pos < length s then s ! pos else CHR 0x00)"

definition find_at :: "string \<Rightarrow> string \<Rightarrow> nat \<Rightarrow> nat option" where
  "find_at s pat pos = (if pos \<le> length s then map_option (\<lambda>i. pos + i) (find_sub pat (drop pos s)) else None)"

definition found_before :: "nat option \<Rightarrow> nat \<Rightarrow> bool" where
  "found_before k e = (case k of None \<Rightarrow> False | Some i \<Rightarrow> i < e)"

definition is_ws :: "char \<Rightarrow> bool" where
  "is_ws c \<longleftrightarrow> c = CHR 0x20 \<or> c = CHR 0x09 \<or> c = CHR 0x0A \<or> c = CHR 0x0D"

definition skip_ws :: "string \<Rightarrow> nat \<Rightarrow> nat" where
  "skip_ws json pos = pos + length (takeWhile is_ws (drop pos json))"

text \<open>
  The characters of a string value up to its closing quote, escapes reduced to the escaped character,
  and how many characters that took.
\<close>

fun scan_string :: "string \<Rightarrow> (string \<times> nat) option" where
  "scan_string [] = None"
| "scan_string [c] = (if c = QUOTE then Some ([], 1) else None)"
| "scan_string (c # d # ds) =
     (if c = BACKSLASH then map_option (\<lambda>(raw, n). (d # raw, n + 2)) (scan_string ds)
      else if c = QUOTE then Some ([], 1)
      else map_option (\<lambda>(raw, n). (c # raw, Suc n)) (scan_string (d # ds)))"

definition parse_string :: "string \<Rightarrow> nat \<Rightarrow> (string \<times> nat) option" where
  "parse_string json pos =
     (if pos \<ge> length json \<or> json ! pos \<noteq> QUOTE then None
      else map_option (\<lambda>(raw, n). (raw, pos + 1 + n)) (scan_string (drop (pos + 1) json)))"

text \<open>The length of the object or array a text starts with; delimiters inside strings are skipped.\<close>

fun scan_object :: "int \<Rightarrow> bool \<Rightarrow> bool \<Rightarrow> string \<Rightarrow> nat option" where
  "scan_object depth in_str esc [] = None"
| "scan_object depth in_str esc (c # cs) =
     (if in_str then
        if esc then map_option Suc (scan_object depth True False cs)
        else if c = BACKSLASH then map_option Suc (scan_object depth True True cs)
        else if c = QUOTE then map_option Suc (scan_object depth False False cs)
        else map_option Suc (scan_object depth True False cs)
      else if c = QUOTE then map_option Suc (scan_object depth True esc cs)
      else if c = LBRACE \<or> c = LBRACKET then map_option Suc (scan_object (depth + 1) False esc cs)
      else if c = RBRACE \<or> c = RBRACKET then
        if depth - 1 = 0 then Some 1 else map_option Suc (scan_object (depth - 1) False esc cs)
      else map_option Suc (scan_object depth False esc cs))"

definition skip_object :: "string \<Rightarrow> nat \<Rightarrow> nat option" where
  "skip_object json pos = map_option (\<lambda>n. pos + n) (scan_object 0 False False (drop pos json))"

text \<open>
  \<open>strtoul\<close> in base ten on a 64-bit target: white space, a sign, digits; the largest value when they
  do not fit. The result is then cut to 32 bits.
\<close>

definition is_digit :: "char \<Rightarrow> bool" where
  "is_digit c \<longleftrightarrow> (of_char c :: nat) \<in> {48..57}"

definition is_space :: "char \<Rightarrow> bool" where
  "is_space c \<longleftrightarrow> c = CHR 0x20 \<or> (of_char c :: nat) \<in> {9..13}"

definition decimal_value :: "string \<Rightarrow> nat" where
  "decimal_value = foldl (\<lambda>n c. 10 * n + (of_char c - 48)) 0"

definition strtoul10 :: "string \<Rightarrow> u64 option" where
  "strtoul10 s =
     (let s = dropWhile is_space s;
          neg = (s \<noteq> [] \<and> hd s = CHR 0x2D);
          s = (if s \<noteq> [] \<and> (hd s = CHR 0x2D \<or> hd s = CHR 0x2B) then tl s else s);
          digits = takeWhile is_digit s;
          v = decimal_value digits
      in if digits = [] then None
         else Some (if v \<ge> 2 ^ 64 then - 1 else if neg then - of_nat v else of_nat v))"

definition parse_uint :: "string \<Rightarrow> nat \<Rightarrow> u32 option" where
  "parse_uint s pos = map_option ucast (strtoul10 (drop pos s))"

section \<open>The table of operations\<close>

record OpEntry =
  op_key :: u32
  op_class_id :: u16
  op_func_id :: u16
  op_class_name :: string
  op_func_name :: string
  op_ret_type :: string
  op_args :: "string list"

abbreviation (input) CLASS_KEY :: string where
  \<open>CLASS_KEY \<equiv> ''"class":"''\<close>
abbreviation (input) ID_KEY :: string where
  \<open>ID_KEY \<equiv> ''"id":''\<close>
abbreviation (input) FUNCTIONS_KEY :: string where
  \<open>FUNCTIONS_KEY \<equiv> ''"functions":[''\<close>
abbreviation (input) RET_TYPE_KEY :: string where
  \<open>RET_TYPE_KEY \<equiv> ''"ret_type":"''\<close>
abbreviation (input) ARGS_KEY :: string where
  \<open>ARGS_KEY \<equiv> ''"args":[''\<close>
abbreviation (input) TYPE_KEY :: string where
  \<open>TYPE_KEY \<equiv> ''"type":"''\<close>
abbreviation (input) CLASS_TAG :: string where
  \<open>CLASS_TAG \<equiv> ''"class":''\<close>
abbreviation (input) NAME_KEY :: string where
  \<open>NAME_KEY \<equiv> ''"name":"''\<close>

lemma find_sub_bounds: "find_sub pat xs = Some i \<Longrightarrow> i + length pat \<le> length xs"
proof (induction xs arbitrary: i)
  case Nil
  then show ?case by (simp split: if_splits)
next
  case (Cons x xs)
  from Cons show ?case
    by (cases "take (length pat) (x # xs) = pat") (auto dest: arg_cong [where f = length])
qed

lemma find_at_bounds: "find_at s pat pos = Some k \<Longrightarrow> pos \<le> k \<and> k + length pat \<le> length s"
  by (auto simp: find_at_def split: if_splits dest: find_sub_bounds)

lemma scan_string_bounds: "scan_string s = Some (raw, n) \<Longrightarrow> 0 < n \<and> n \<le> length s"
  by (induction s arbitrary: raw n rule: scan_string.induct) (force split: if_splits)+

lemma parse_string_bounds: "parse_string s pos = Some (raw, k) \<Longrightarrow> pos + 1 < k \<and> k \<le> length s"
  by (auto simp: parse_string_def split: if_splits dest!: scan_string_bounds)

lemma scan_object_bounds: "scan_object d i e s = Some n \<Longrightarrow> 0 < n \<and> n \<le> length s"
  by (induction d i e s arbitrary: n rule: scan_object.induct) (auto split: if_splits)

lemma skip_object_bounds: "skip_object s pos = Some k \<Longrightarrow> pos < k \<and> k \<le> length s"
  by (auto simp: skip_object_def dest!: scan_object_bounds)

lemma skip_ws_ge: "pos \<le> skip_ws s pos"
  by (simp add: skip_ws_def)

text \<open>After an element: white space, and a comma with what follows it.\<close>

definition next_element :: "string \<Rightarrow> nat \<Rightarrow> nat \<Rightarrow> nat" where
  "next_element json endp oend =
     (let p = skip_ws json oend
      in if p < endp \<and> char_at json p = COMMA then skip_ws json (p + 1) else p)"

lemma next_element_ge: "oend \<le> next_element json endp oend"
  using skip_ws_ge [of oend json] skip_ws_ge [of "skip_ws json oend + 1" json]
  by (simp add: next_element_def Let_def)

function parse_args :: "string \<Rightarrow> nat \<Rightarrow> nat \<Rightarrow> string list" where
  "parse_args json endp p =
     (if p < endp \<and> char_at json p = LBRACE then
        case skip_object json p of
          None \<Rightarrow> []
        | Some oend \<Rightarrow>
            if oend > endp then []
            else
              let tp = find_at json TYPE_KEY p;
                  t = (if found_before tp oend
                       then (case parse_string json (the tp + length TYPE_KEY - 1) of Some (t, _) \<Rightarrow> t | None \<Rightarrow> [])
                       else [])
              in t # parse_args json endp (next_element json endp oend)
      else [])"
  by auto
termination
proof (relation "measure (\<lambda>(_, endp, p). endp - p)", simp)
  fix json :: string and endp p oend :: nat
  assume "p < endp \<and> char_at json p = LBRACE" "skip_object json p = Some oend"
  then show "((json, endp, next_element json endp oend), (json, endp, p)) \<in> measure (\<lambda>(_, endp, p). endp - p)"
    using skip_object_bounds [of json p oend] next_element_ge [of oend json endp] by auto
qed

definition fill_op_extras :: "string \<Rightarrow> nat \<Rightarrow> nat \<Rightarrow> OpEntry \<Rightarrow> OpEntry" where
  "fill_op_extras json start endp e =
     (let rp = find_at json RET_TYPE_KEY start;
          e = (if found_before rp endp
               then (case parse_string json (the rp + length RET_TYPE_KEY - 1) of
                       Some (t, _) \<Rightarrow> e\<lparr>op_ret_type := t\<rparr> | None \<Rightarrow> e)
               else e);
          ap = find_at json ARGS_KEY start
      in if \<not> found_before ap endp then e
         else e\<lparr>op_args := op_args e @ parse_args json endp (skip_ws json (the ap + length ARGS_KEY))\<rparr>)"

function parse_functions :: "string \<Rightarrow> nat \<Rightarrow> string \<Rightarrow> u32 \<Rightarrow> nat \<Rightarrow> OpEntry list" where
  "parse_functions json cend class_name cid p =
     (if p < cend \<and> char_at json p = LBRACE then
        case skip_object json p of
          None \<Rightarrow> []
        | Some oend \<Rightarrow>
            if oend > cend then []
            else (case parse_string json (p + 8) of
                    None \<Rightarrow> []
                  | Some (func_name, after_fn) \<Rightarrow>
                      let ip = find_at json ID_KEY after_fn
                      in if \<not> found_before ip oend then []
                         else (case parse_uint json (the ip + 5) of
                                 None \<Rightarrow> []
                               | Some fid \<Rightarrow>
                                   fill_op_extras json after_fn oend
                                     \<lparr>op_key = push_bit 16 cid OR fid, op_class_id = ucast cid, op_func_id = ucast fid,
                                      op_class_name = class_name, op_func_name = func_name, op_ret_type = [], op_args = []\<rparr>
                                   # parse_functions json cend class_name cid (next_element json cend oend)))
      else [])"
  by auto
termination
proof (relation "measure (\<lambda>(_, cend, _, _, p). cend - p)", simp)
  fix json class_name :: string and cend p oend :: nat and cid :: u32
  assume "p < cend \<and> char_at json p = LBRACE" "skip_object json p = Some oend"
  then show "((json, cend, class_name, cid, next_element json cend oend), (json, cend, class_name, cid, p))
      \<in> measure (\<lambda>(_, cend, _, _, p). cend - p)"
    using skip_object_bounds [of json p oend] next_element_ge [of oend json cend] by auto
qed

function parse_ops_from :: "string \<Rightarrow> nat \<Rightarrow> OpEntry list" where
  "parse_ops_from json pos =
     (case find_at json CLASS_KEY pos of
        None \<Rightarrow> []
      | Some cpos \<Rightarrow>
          (case parse_string json (cpos + length CLASS_KEY - 1) of
             None \<Rightarrow> parse_ops_from json (cpos + length CLASS_KEY)
           | Some (class_name, after_name) \<Rightarrow>
               let cend = (case find_at json CLASS_KEY after_name of None \<Rightarrow> length json | Some next_class \<Rightarrow> next_class);
                   cid_pos = find_at json ID_KEY after_name
               in if \<not> found_before cid_pos cend then []
                  else (case parse_uint json (the cid_pos + 5) of
                          None \<Rightarrow> []
                        | Some cid \<Rightarrow>
                            let farr = find_at json FUNCTIONS_KEY (the cid_pos)
                            in (if \<not> found_before farr cend then []
                                else parse_functions json cend class_name cid (skip_ws json (the farr + 13)))
                               @ parse_ops_from json cend)))"
  by auto
termination
proof (relation "measure (\<lambda>(json, pos). length json + 1 - pos)", simp)
  fix json :: string and pos cpos :: nat
  assume c: "find_at json CLASS_KEY pos = Some cpos"
  from find_at_bounds [OF this] have b: "pos \<le> cpos" "cpos + 9 \<le> length json" by simp_all
  then show "((json, cpos + length CLASS_KEY), (json, pos)) \<in> measure (\<lambda>(json, pos). length json + 1 - pos)"
    by simp
  fix x :: "string \<times> nat" and class_name after_name cend
  assume "parse_string json (cpos + length CLASS_KEY - 1) = Some x" "(class_name, after_name) = x"
    and cend: "cend = (case find_at json CLASS_KEY after_name of None \<Rightarrow> length json | Some next_class \<Rightarrow> next_class)"
  then have a: "cpos < after_name" "after_name \<le> length json" using parse_string_bounds by fastforce+
  then have "after_name \<le> cend" unfolding cend
    by (auto split: option.splits dest!: find_at_bounds)
  with a b show "((json, cend), (json, pos)) \<in> measure (\<lambda>(json, pos). length json + 1 - pos)" by simp
qed

declare parse_args.simps [simp del] parse_functions.simps [simp del] parse_ops_from.simps [simp del]

definition parse_ops :: "string \<Rightarrow> OpEntry list" where
  "parse_ops json = parse_ops_from json 0"

record OpTable =
  ot_ops :: "OpEntry list"
  ot_index :: "u32 \<Rightarrow> nat option"

definition OpTable_build :: "string \<Rightarrow> OpTable" where
  "OpTable_build json =
     (let ops = parse_ops json
      in \<lparr>ot_ops = ops,
          ot_index = fold (\<lambda>i m. if m (op_key (ops ! i)) = None then m(op_key (ops ! i) \<mapsto> i) else m)
            [0..<length ops] Map.empty\<rparr>)"

definition OpTable_find :: "OpTable \<Rightarrow> u32 \<Rightarrow> OpEntry option" where
  "OpTable_find t k = map_option (\<lambda>i. ot_ops t ! i) (ot_index t k)"

definition has_class :: "OpTable \<Rightarrow> u16 \<Rightarrow> bool" where
  "has_class t class_id = list_ex (\<lambda>e. op_class_id e = class_id) (ot_ops t)"

definition class_name_of :: "OpTable \<Rightarrow> u16 \<Rightarrow> string" where
  "class_name_of t class_id = (case find (\<lambda>e. op_class_id e = class_id) (ot_ops t) of None \<Rightarrow> [] | Some e \<Rightarrow> op_class_name e)"

text \<open>By \<open>"Class::func"\<close>, or by the bare name of a function, the first class that has it.\<close>

definition by_name :: "OpTable \<Rightarrow> string \<Rightarrow> OpEntry option" where
  "by_name t class_func =
     (case find_at class_func ''::'' 0 of
        None \<Rightarrow> find (\<lambda>e. op_func_name e = class_func) (ot_ops t)
      | Some sep \<Rightarrow> find (\<lambda>e. op_class_name e = take sep class_func \<and> op_func_name e = drop (sep + 2) class_func) (ot_ops t))"

text \<open>The first entry with a number is the one found.\<close>

lemma find_snoc: "find P (xs @ [x]) = (case find P xs of None \<Rightarrow> if P x then Some x else None | Some y \<Rightarrow> Some y)"
  by (induction xs) auto

lemma index_first:
  assumes "n \<le> length ops"
  shows "map_option (\<lambda>i. ops ! i) (fold (\<lambda>i m. if m (op_key (ops ! i)) = None then m(op_key (ops ! i) \<mapsto> i) else m) [0..<n] Map.empty k) =
    find (\<lambda>e. op_key e = k) (take n ops)"
  using assms
proof (induction n)
  case 0
  then show ?case by simp
next
  case (Suc n)
  define m where "m = fold (\<lambda>i m. if m (op_key (ops ! i)) = None then m(op_key (ops ! i) \<mapsto> i) else m) [0..<n] Map.empty"
  have IH: "map_option (\<lambda>i. ops ! i) (m k) = find (\<lambda>e. op_key e = k) (take n ops)"
    using Suc by (simp add: m_def)
  show ?case
    using Suc.prems IH [symmetric] by (cases "m k") (auto simp: take_Suc_conv_app_nth find_snoc m_def [symmetric])
qed

lemma OpTable_find_eq: "OpTable_find (OpTable_build json) k = find (\<lambda>e. op_key e = k) (parse_ops json)"
  using index_first [of "length (parse_ops json)" "parse_ops json" k]
  by (simp add: OpTable_find_def OpTable_build_def Let_def)

section \<open>Lookup in the text\<close>

definition find_op_in_json :: "string \<Rightarrow> string \<Rightarrow> string \<Rightarrow> (u16 \<times> u16) option" where
  "find_op_in_json json class_name func_name =
     (let ckey = CLASS_KEY @ class_name @ [QUOTE]
      in case find_at json ckey 0 of
           None \<Rightarrow> None
         | Some cpos \<Rightarrow>
             let nxt = find_at json CLASS_TAG (cpos + length ckey);
                 cend = (case nxt of None \<Rightarrow> length json | Some k \<Rightarrow> k);
                 cid_pos = find_at json ID_KEY (cpos + length ckey)
             in if \<not> found_before cid_pos cend then None
                else Option.bind (parse_uint json (the cid_pos + 5)) (\<lambda>cid.
                  let fkey = NAME_KEY @ func_name @ [QUOTE];
                      fpos = find_at json fkey (the cid_pos)
                  in if \<not> found_before fpos cend then None
                     else
                       let fid_pos = find_at json ID_KEY (the fpos + length fkey)
                       in if \<not> found_before fid_pos cend then None
                          else map_option (\<lambda>fid. (ucast cid, ucast fid)) (parse_uint json (the fid_pos + 5))))"


section \<open>The text the server generates\<close>

text \<open>
  \<open>get_json\<close> of the code generator: compact JSON, the server's own class first. The server's class
  lists the arguments of a function before its return type, the drivers' classes after it. The text goes
  through a string literal of \<open>drivers_json.hpp\<close>, where the compiler turns the escapes that \<open>json.dumps\<close> has made of
  control characters and of characters beyond ASCII back into these characters; strings here are their bytes, none of
  them zero.
\<close>

record function_decl =
  fd_name :: string
  fd_id :: nat
  fd_ret_type :: string
  fd_args :: "(string \<times> string) list"

record class_decl =
  cd_name :: string
  cd_id :: nat
  cd_functions :: "function_decl list"

fun decimal :: "nat \<Rightarrow> string" where
  "decimal n = (if n < 10 then [char_of (48 + n)] else decimal (n div 10) @ [char_of (48 + n mod 10)])"

declare decimal.simps [simp del]

fun join :: "string list \<Rightarrow> string" where
  "join [] = []"
| "join [x] = x"
| "join (x # y # zs) = x @ COMMA # join (y # zs)"

definition json_key :: "string \<Rightarrow> string" where
  "json_key k = QUOTE # k @ [QUOTE, CHR 0x3A]"

definition json_string :: "string \<Rightarrow> string" where
  "json_string v = QUOTE # v @ [QUOTE]"

definition arg_json :: "string \<times> string \<Rightarrow> string" where
  "arg_json a = LBRACE # json_key ''name'' @ json_string (fst a) @ COMMA # json_key ''type'' @ json_string (snd a) @ [RBRACE]"

definition args_json :: "(string \<times> string) list \<Rightarrow> string" where
  "args_json as = json_key ''args'' @ LBRACKET # join (map arg_json as) @ [RBRACKET]"

definition ret_json :: "string \<Rightarrow> string" where
  "ret_json t = json_key ''ret_type'' @ json_string t"

definition function_json :: "bool \<Rightarrow> function_decl \<Rightarrow> string" where
  "function_json args_first f =
     LBRACE # json_key ''name'' @ json_string (fd_name f) @ COMMA # json_key ''id'' @ decimal (fd_id f) @ COMMA #
     (if args_first then args_json (fd_args f) @ COMMA # ret_json (fd_ret_type f)
      else ret_json (fd_ret_type f) @ COMMA # args_json (fd_args f)) @ [RBRACE]"

definition class_json :: "bool \<Rightarrow> class_decl \<Rightarrow> string" where
  "class_json args_first c =
     LBRACE # json_key ''class'' @ json_string (cd_name c) @ COMMA # json_key ''id'' @ decimal (cd_id c) @ COMMA #
     json_key ''functions'' @ LBRACKET # join (map (function_json args_first) (cd_functions c)) @ [RBRACKET, RBRACE]"

definition server_class :: class_decl where
  "server_class = \<lparr>cd_name = ''KServer'', cd_id = 1, cd_functions =
     [\<lparr>fd_name = ''get_version'', fd_id = 0, fd_ret_type = ''const char *'', fd_args = []\<rparr>,
      \<lparr>fd_name = ''get_cmds'', fd_id = 1, fd_ret_type = ''std::string'', fd_args = []\<rparr>]\<rparr>"

definition get_json :: "class_decl list \<Rightarrow> string" where
  "get_json drivers =
     LBRACKET # join (class_json True server_class # map (class_json False) drivers) @ [RBRACKET]"

definition clean :: "string \<Rightarrow> bool" where
  "clean v \<longleftrightarrow> QUOTE \<notin> set v \<and> BACKSLASH \<notin> set v"

definition function_ok :: "function_decl \<Rightarrow> bool" where
  "function_ok f \<longleftrightarrow> clean (fd_name f) \<and> clean (fd_ret_type f) \<and> fd_id f < 2 ^ 16 \<and>
     (\<forall>a\<in>set (fd_args f). clean (fst a) \<and> clean (snd a))"

definition class_ok :: "class_decl \<Rightarrow> bool" where
  "class_ok c \<longleftrightarrow> clean (cd_name c) \<and> cd_id c < 2 ^ 16 \<and> (\<forall>f\<in>set (cd_functions c). function_ok f)"

definition declared_ops :: "class_decl \<Rightarrow> OpEntry list" where
  "declared_ops c = map (\<lambda>f. \<lparr>op_key = push_bit 16 (of_nat (cd_id c)) OR of_nat (fd_id f),
     op_class_id = of_nat (cd_id c), op_func_id = of_nat (fd_id f), op_class_name = cd_name c,
     op_func_name = fd_name f, op_ret_type = fd_ret_type f, op_args = map snd (fd_args f)\<rparr>) (cd_functions c)"

section \<open>Texts that a search or a scan passes over\<close>

definition skips :: "string \<Rightarrow> string \<Rightarrow> bool" where
  "skips pat xs \<longleftrightarrow> (\<forall>ys. find_sub pat (xs @ ys) = map_option (\<lambda>i. length xs + i) (find_sub pat ys))"

lemma skips_append: "skips pat xs \<Longrightarrow> skips pat ys \<Longrightarrow> skips pat (xs @ ys)"
  by (simp add: skips_def option.map_comp comp_def add.assoc)

lemma skips_Nil: "skips pat []"
  by (simp add: skips_def option.map_ident)

lemma skips_no_head: "pat \<noteq> [] \<Longrightarrow> hd pat \<notin> set xs \<Longrightarrow> skips pat xs"
  by (simp add: skips_def find_sub_append)

lemma find_skipped: "skips pat xs \<Longrightarrow> find_sub pat (xs @ pat @ ys) = Some (length xs)"
  by (simp add: skips_def find_sub_here)

text \<open>A key of the text: the pattern \<open>"k":m\<close>.\<close>

definition key_pattern :: "string \<Rightarrow> string \<Rightarrow> string" where
  "key_pattern k m = json_key k @ m"

lemma quoted_prefix:
  assumes "QUOTE \<notin> set k" "QUOTE \<notin> set v" "take (length k + 1 + length m) (v @ QUOTE # ys) = k @ QUOTE # m"
  shows "v = k \<and> take (length m) ys = m"
  using assms
proof (induction k arbitrary: v)
  case Nil
  then show ?case by (cases v) auto
next
  case (Cons x k)
  then show ?case by (cases v) auto
qed


lemma skips_value:
  assumes "QUOTE \<notin> set k" "QUOTE \<notin> set v" "c \<noteq> CHR 0x3A" "c \<noteq> QUOTE" "c \<notin> set k"
  shows "skips (key_pattern k m) (json_string v @ [c])"
proof -
  define pat where "pat = key_pattern k m"
  have pat: "pat = QUOTE # k @ QUOTE # CHR 0x3A # m" by (simp add: pat_def key_pattern_def json_key_def)
  have "find_sub pat (json_string v @ c # ys) = map_option (\<lambda>i. Suc (Suc (Suc (length v + i)))) (find_sub pat ys)" for ys
  proof -
    have "take (length pat) (QUOTE # v @ QUOTE # c # ys) \<noteq> pat"
      using quoted_prefix [OF assms(1,2), of "CHR 0x3A # m" "c # ys"] assms(3) by (auto simp: pat)
    then have "find_sub pat (QUOTE # v @ QUOTE # c # ys) = map_option Suc (find_sub pat (v @ QUOTE # c # ys))"
      by simp
    also have "find_sub pat (v @ QUOTE # c # ys) = map_option (\<lambda>i. length v + i) (find_sub pat (QUOTE # c # ys))"
      by (rule find_sub_append) (use assms(2) in \<open>simp_all add: pat\<close>)
    also have "find_sub pat (QUOTE # c # ys) = map_option Suc (find_sub pat (c # ys))"
    proof -
      have "take (length pat) (QUOTE # c # ys) \<noteq> pat"
        using assms(4,5) by (cases k) (auto simp: pat)
      then show ?thesis by simp
    qed
    also have "find_sub pat (c # ys) = map_option Suc (find_sub pat ys)"
      using assms(4) by (simp add: pat)
    finally show ?thesis by (simp add: json_string_def option.map_comp comp_def)
  qed
  then show ?thesis by (simp add: skips_def pat_def [symmetric]) (simp add: json_string_def)
qed

lemma skips_key:
  assumes "QUOTE \<notin> set k" "QUOTE \<notin> set k'" "k \<noteq> k'" "CHR 0x3A \<notin> set k"
  shows "skips (key_pattern k m) (json_key k')"
proof -
  define pat where "pat = key_pattern k m"
  have pat: "pat = QUOTE # k @ QUOTE # CHR 0x3A # m" by (simp add: pat_def key_pattern_def json_key_def)
  have "find_sub pat (json_key k' @ ys) = map_option (\<lambda>i. Suc (Suc (Suc (length k' + i)))) (find_sub pat ys)" for ys
  proof -
    have "take (length pat) (QUOTE # k' @ QUOTE # CHR 0x3A # ys) \<noteq> pat"
      using quoted_prefix [OF assms(1,2), of "CHR 0x3A # m" "CHR 0x3A # ys"] assms(3) by (auto simp: pat)
    then have "find_sub pat (QUOTE # k' @ QUOTE # CHR 0x3A # ys) = map_option Suc (find_sub pat (k' @ QUOTE # CHR 0x3A # ys))"
      by simp
    also have "find_sub pat (k' @ QUOTE # CHR 0x3A # ys) = map_option (\<lambda>i. length k' + i) (find_sub pat (QUOTE # CHR 0x3A # ys))"
      by (rule find_sub_append) (use assms(2) in \<open>simp_all add: pat\<close>)
    also have "find_sub pat (QUOTE # CHR 0x3A # ys) = map_option Suc (find_sub pat (CHR 0x3A # ys))"
    proof -
      have "take (length pat) (QUOTE # CHR 0x3A # ys) \<noteq> pat"
        using assms(4) by (cases k) (auto simp: pat)
      then show ?thesis by simp
    qed
    also have "find_sub pat (CHR 0x3A # ys) = map_option Suc (find_sub pat ys)"
      by (simp add: pat)
    finally show ?thesis by (simp add: json_key_def option.map_comp comp_def)
  qed
  then show ?thesis by (simp add: skips_def pat_def [symmetric]) (simp add: json_key_def)
qed

text \<open>Digits, and the punctuation of the text.\<close>

lemma decimal_digits: "\<forall>c\<in>set (decimal n). is_digit c"
proof (induction n rule: decimal.induct)
  case (1 n)
  then show ?case
    by (subst decimal.simps) (auto simp: is_digit_def)
qed

lemma decimal_nonempty: "decimal n \<noteq> []"
  by (subst decimal.simps) simp

lemma decimal_value_append: "decimal_value (xs @ [c]) = 10 * decimal_value xs + (of_char c - 48)"
  by (simp add: decimal_value_def)

lemma decimal_value_decimal: "decimal_value (decimal n) = n"
proof (induction n rule: decimal.induct)
  case (1 n)
  show ?case
  proof (cases "n < 10")
    case True
    then show ?thesis by (subst decimal.simps) (simp add: decimal_value_def)
  next
    case False
    with 1 show ?thesis
      by (subst decimal.simps) (simp add: decimal_value_append)
  qed
qed

lemma is_digit_not:
  "is_digit c \<Longrightarrow> c \<noteq> QUOTE \<and> c \<noteq> LBRACE \<and> c \<noteq> RBRACE \<and> c \<noteq> LBRACKET \<and> c \<noteq> RBRACKET \<and> c \<noteq> CHR 0x2D \<and> c \<noteq> CHR 0x2B \<and> \<not> is_space c"
  by (auto simp: is_digit_def is_space_def)

lemma strtoul10_decimal:
  assumes "n < 2 ^ 64" "ys = [] \<or> \<not> is_digit (hd ys)"
  shows "strtoul10 (decimal n @ ys) = Some (of_nat n)"
proof -
  obtain d ds where d: "decimal n = d # ds" using decimal_nonempty by (cases "decimal n") auto
  have dig: "is_digit d" using decimal_digits [of n] d by simp
  have "takeWhile is_digit (decimal n @ ys) = decimal n"
    using decimal_digits [of n] assms(2) by (cases ys) (auto simp: takeWhile_append)
  with d dig is_digit_not [OF dig] assms(1) show ?thesis
    by (simp add: strtoul10_def Let_def decimal_value_decimal [of n, unfolded d])
qed


text \<open>Text in which the delimiters match: the scan of an object that contains it goes on behind it.\<close>

definition balanced :: "string \<Rightarrow> bool" where
  "balanced xs \<longleftrightarrow> (\<forall>d ys. 0 < d \<longrightarrow> scan_object d False False (xs @ ys) =
     map_option (\<lambda>i. length xs + i) (scan_object d False False ys))"

lemma balanced_append: "balanced xs \<Longrightarrow> balanced ys \<Longrightarrow> balanced (xs @ ys)"
  by (simp add: balanced_def option.map_comp comp_def add.assoc)

lemma balanced_Nil: "balanced []"
  by (simp add: balanced_def option.map_ident)

lemma balanced_plain: "QUOTE \<notin> set xs \<Longrightarrow> LBRACE \<notin> set xs \<Longrightarrow> RBRACE \<notin> set xs \<Longrightarrow> LBRACKET \<notin> set xs \<Longrightarrow>
    RBRACKET \<notin> set xs \<Longrightarrow> balanced xs"
  by (induction xs) (auto simp: balanced_def option.map_comp comp_def option.map_ident)

lemma scan_in_string: "clean v \<Longrightarrow> scan_object d True False (v @ QUOTE # ys) =
    map_option (\<lambda>i. Suc (length v + i)) (scan_object d False False ys)"
  by (induction v) (auto simp: clean_def option.map_comp comp_def)

lemma balanced_string: "clean v \<Longrightarrow> balanced (json_string v)"
  by (simp add: balanced_def json_string_def scan_in_string option.map_comp comp_def)

lemma balanced_key:
  assumes "clean k" shows "balanced (json_key k)"
proof -
  have "balanced (json_string k @ [CHR 0x3A])"
    by (intro balanced_append balanced_string assms balanced_plain) simp_all
  then show ?thesis by (simp add: json_key_def json_string_def)
qed

lemma balanced_enclosed:
  assumes "balanced xs" "b = LBRACE \<and> e = RBRACE \<or> b = LBRACKET \<and> e = RBRACKET"
  shows "balanced (b # xs @ [e])"
proof -
  have "scan_object d False False (b # xs @ e # ys) = map_option (\<lambda>i. Suc (Suc (length xs + i))) (scan_object d False False ys)"
    if "0 < d" for d ys
  proof -
    have "scan_object d False False (b # xs @ e # ys) = map_option Suc (scan_object (d + 1) False False (xs @ e # ys))"
      using assms(2) by auto
    also have "scan_object (d + 1) False False (xs @ e # ys) = map_option (\<lambda>i. length xs + i) (scan_object (d + 1) False False (e # ys))"
      using assms(1) that by (simp add: balanced_def)
    also have "scan_object (d + 1) False False (e # ys) = map_option Suc (scan_object d False False ys)"
      using assms(2) that by auto
    finally show ?thesis by (simp add: option.map_comp comp_def)
  qed
  then show ?thesis by (simp add: balanced_def)
qed

lemma scan_enclosed:
  assumes "balanced xs"
  shows "scan_object 0 False False (LBRACE # xs @ RBRACE # ys) = Some (length xs + 2)"
proof -
  have "scan_object 1 False False (xs @ RBRACE # ys) = map_option (\<lambda>i. length xs + i) (scan_object 1 False False (RBRACE # ys))"
    using assms by (simp add: balanced_def)
  then show ?thesis by simp
qed

text \<open>Positions as what stands behind them.\<close>

definition stands_at :: "string \<Rightarrow> nat \<Rightarrow> string \<Rightarrow> bool" where
  "stands_at json p xs \<longleftrightarrow> p \<le> length json \<and> drop p json = xs"

lemma stands_at_advance: "stands_at json p (xs @ ys) \<Longrightarrow> stands_at json (p + length xs) ys"
  unfolding stands_at_def by (metis add.commute append_eq_conv_conj drop_drop le_add_diff_inverse length_append length_drop nat_add_left_cancel_le le_add1)

lemma stands_at_length: "stands_at json p xs \<Longrightarrow> length json = p + length xs"
  by (auto simp: stands_at_def)

lemma find_at_stands: "stands_at json p xs \<Longrightarrow> find_at json pat p = map_option (\<lambda>i. p + i) (find_sub pat xs)"
  by (simp add: find_at_def stands_at_def)

lemma char_at_stands: "stands_at json p (c # xs) \<Longrightarrow> char_at json p = c"
  unfolding stands_at_def char_at_def by (metis append_Nil hd_drop_conv_nth linorder_not_le list.sel(1) drop_eq_Nil list.distinct(1))

lemma skip_ws_stands: "stands_at json p (c # xs) \<Longrightarrow> \<not> is_ws c \<Longrightarrow> skip_ws json p = p"
  by (simp add: skip_ws_def stands_at_def)

lemma skip_object_stands: "stands_at json p (LBRACE # xs @ RBRACE # ys) \<Longrightarrow> balanced xs \<Longrightarrow>
    skip_object json p = Some (p + (length xs + 2))"
  using scan_enclosed [of xs ys] by (simp add: skip_object_def stands_at_def del: scan_object.simps)

lemma scan_string_clean: "clean v \<Longrightarrow> scan_string (v @ QUOTE # ys) = Some (v, Suc (length v))"
proof (induction v)
  case Nil
  then show ?case by (cases ys) simp_all
next
  case (Cons c v)
  then show ?case by (cases v) (auto simp: clean_def)
qed

lemma parse_string_stands:
  assumes "stands_at json p (json_string v @ ys)" "clean v"
  shows "parse_string json p = Some (v, p + (length v + 2))"
proof -
  have "stands_at json (p + length [QUOTE]) (v @ QUOTE # ys)"
    using assms(1) by (intro stands_at_advance) (simp add: json_string_def)
  moreover have "json ! p = QUOTE" "p < length json"
    using assms(1) stands_at_length [OF assms(1)] char_at_stands [of json p QUOTE]
    by (auto simp: json_string_def char_at_def split: if_splits)
  ultimately show ?thesis
    using scan_string_clean [OF assms(2)] by (simp add: parse_string_def stands_at_def)
qed

lemma parse_uint_stands:
  assumes "stands_at json p (decimal n @ c # ys)" "\<not> is_digit c" "n < 2 ^ 16"
  shows "parse_uint json p = Some (of_nat n)"
proof -
  have "strtoul10 (decimal n @ c # ys) = Some (of_nat n)"
    using assms(2,3) by (intro strtoul10_decimal) simp_all
  moreover have "(ucast (of_nat n :: u64) :: u32) = of_nat n"
    using assms(3) by (intro word_unat_eq_iff [THEN iffD2]) (simp add: unat_of_nat_small unsigned_ucast_eq take_bit_nat_eq_self)
  ultimately show ?thesis
    using assms(1) by (simp add: parse_uint_def stands_at_def)
qed


section \<open>Passing over the pieces of the text\<close>

lemma skips_concat: "\<forall>x\<in>set xs. skips pat x \<Longrightarrow> skips pat (concat xs)"
  by (induction xs) (simp_all add: skips_Nil skips_append)

lemma balanced_concat: "\<forall>x\<in>set xs. balanced x \<Longrightarrow> balanced (concat xs)"
  by (induction xs) (simp_all add: balanced_Nil balanced_append)

lemma join_closed:
  assumes "P []" "P [COMMA]" "\<And>x y. P x \<Longrightarrow> P y \<Longrightarrow> P (x @ y)" "\<forall>x\<in>set xs. P x"
  shows "P (join xs)"
  using assms(4)
proof (induction xs rule: join.induct)
  case (3 x y zs)
  then have "P (x @ [COMMA] @ join (y # zs))" by (intro assms(3) assms(2)) simp_all
  then show ?case by simp
qed (simp_all add: assms(1))

lemma join_Cons: "join (x # xs) = x @ (if xs = [] then [] else COMMA # join xs)"
  by (cases xs) simp_all

lemma arg_json_pieces:
  "arg_json a = concat [[LBRACE], json_key ''name'', json_string (fst a) @ [COMMA], json_key ''type'', json_string (snd a) @ [RBRACE]]"
  by (simp add: arg_json_def)

definition arg_body :: "string \<times> string \<Rightarrow> string" where
  "arg_body a = concat [json_key ''name'', json_string (fst a), [COMMA], json_key ''type'', json_string (snd a)]"

lemma arg_json_body: "arg_json a = LBRACE # arg_body a @ [RBRACE]"
  by (simp add: arg_json_def arg_body_def)

lemma cleanD: "clean v \<Longrightarrow> QUOTE \<notin> set v"
  by (simp add: clean_def)

lemma clean_keys: "clean ''name''" "clean ''type''" "clean ''id''" "clean ''args''" "clean ''ret_type''" "clean ''functions''" "clean ''class''"
  by (simp_all add: clean_def)

definition plain_key :: "string \<Rightarrow> bool" where
  "plain_key k \<longleftrightarrow> QUOTE \<notin> set k \<and> CHR 0x3A \<notin> set k \<and> COMMA \<notin> set k \<and> RBRACE \<notin> set k"

lemma plain_keys: "plain_key ''name''" "plain_key ''type''" "plain_key ''id''" "plain_key ''args''" "plain_key ''ret_type''"
  "plain_key ''functions''" "plain_key ''class''"
  by (simp_all add: plain_key_def)

lemma key_pattern_nonempty: "key_pattern k m \<noteq> []" "hd (key_pattern k m) = QUOTE"
  by (simp_all add: key_pattern_def json_key_def)

lemma skips_char: "c \<noteq> QUOTE \<Longrightarrow> skips (key_pattern k m) [c]"
  using key_pattern_nonempty [of k m] by (intro skips_no_head) auto

lemma skips_other_key: "plain_key k \<Longrightarrow> plain_key k' \<Longrightarrow> k \<noteq> k' \<Longrightarrow> skips (key_pattern k m) (json_key k')"
  by (intro skips_key) (simp_all add: plain_key_def)

lemma skips_any_value: "plain_key k \<Longrightarrow> clean v \<Longrightarrow> c = COMMA \<or> c = RBRACE \<Longrightarrow> skips (key_pattern k m) (json_string v @ [c])"
  by (intro skips_value) (auto simp: plain_key_def clean_def)

lemma skips_decimal: "skips (key_pattern k m) (decimal n)"
  using key_pattern_nonempty [of k m] decimal_digits [of n] by (intro skips_no_head) (auto dest: is_digit_not)

lemmas skips_pieces = skips_char skips_other_key skips_any_value skips_decimal plain_keys

lemma skips_arg: "plain_key k \<Longrightarrow> k \<noteq> ''name'' \<Longrightarrow> k \<noteq> ''type'' \<Longrightarrow> clean (fst a) \<Longrightarrow> clean (snd a) \<Longrightarrow> skips (key_pattern k m) (arg_json a)"
  unfolding arg_json_pieces by (rule skips_concat) (simp add: skips_pieces)

lemma skips_join: "\<forall>x\<in>set xs. skips (key_pattern k m) x \<Longrightarrow> skips (key_pattern k m) (join xs)"
  by (rule join_closed) (simp_all add: skips_Nil skips_append skips_char)

lemma balanced_join: "\<forall>x\<in>set xs. balanced x \<Longrightarrow> balanced (join xs)"
  by (rule join_closed) (simp_all add: balanced_Nil balanced_append balanced_plain)

lemma balanced_decimal: "balanced (decimal n)"
  using decimal_digits [of n] by (intro balanced_plain) (auto dest: is_digit_not)

lemmas balanced_pieces = balanced_string balanced_key balanced_plain balanced_decimal clean_keys

lemma balanced_arg_body: "clean (fst a) \<Longrightarrow> clean (snd a) \<Longrightarrow> balanced (arg_body a)"
  unfolding arg_body_def by (rule balanced_concat) (simp add: balanced_pieces)

lemma balanced_arg: "clean (fst a) \<Longrightarrow> clean (snd a) \<Longrightarrow> balanced (arg_json a)"
  unfolding arg_json_body by (rule balanced_enclosed) (simp_all add: balanced_arg_body)

lemma skips_args:
  assumes "plain_key k" "k \<notin> {''name'', ''type'', ''args''}" "\<forall>a\<in>set as. clean (fst a) \<and> clean (snd a)"
  shows "skips (key_pattern k m) (args_json as)"
proof -
  have "args_json as = concat [json_key ''args'', [LBRACKET], join (map arg_json as), [RBRACKET]]"
    by (simp add: args_json_def)
  also have "skips (key_pattern k m) \<dots>"
    using assms by (intro skips_concat) (auto intro!: skips_pieces skips_join skips_arg)
  finally show ?thesis .
qed

lemma balanced_args:
  assumes "\<forall>a\<in>set as. clean (fst a) \<and> clean (snd a)"
  shows "balanced (args_json as)"
proof -
  have "args_json as = concat [json_key ''args'', LBRACKET # join (map arg_json as) @ [RBRACKET]]"
    by (simp add: args_json_def)
  moreover have "balanced (LBRACKET # join (map arg_json as) @ [RBRACKET])"
    using assms by (intro balanced_enclosed balanced_join) (auto intro: balanced_arg)
  ultimately show ?thesis by (simp add: balanced_append balanced_key clean_keys)
qed

section \<open>Reading the arguments of a function\<close>

lemma next_element_last: "stands_at json q (RBRACKET # ys) \<Longrightarrow> next_element json endp q = q"
  using skip_ws_stands [of json q RBRACKET ys] char_at_stands [of json q RBRACKET ys]
  by (simp add: next_element_def Let_def is_ws_def)

lemma next_element_comma: "stands_at json q (COMMA # LBRACE # ys) \<Longrightarrow> q < endp \<Longrightarrow> next_element json endp q = Suc q"
  using skip_ws_stands [of json q COMMA "LBRACE # ys"] char_at_stands [of json q COMMA "LBRACE # ys"]
    stands_at_advance [of json q "[COMMA]" "LBRACE # ys"] skip_ws_stands [of json "Suc q" LBRACE ys]
  by (simp add: next_element_def Let_def is_ws_def)

lemma key_patterns:
  "TYPE_KEY = key_pattern ''type'' [QUOTE]" "RET_TYPE_KEY = key_pattern ''ret_type'' [QUOTE]"
  "CLASS_KEY = key_pattern ''class'' [QUOTE]" "ID_KEY = key_pattern ''id'' []"
  "ARGS_KEY = key_pattern ''args'' [LBRACKET]" "FUNCTIONS_KEY = key_pattern ''functions'' [LBRACKET]"
  by (simp_all add: key_pattern_def json_key_def)

lemma find_key_stands:
  assumes "stands_at json p (pre @ json_key k @ m @ ys)" "skips (key_pattern k m) pre"
  shows "find_at json (key_pattern k m) p = Some (p + length pre)"
  using find_at_stands [OF assms(1)] find_skipped [OF assms(2), of ys] by (simp add: key_pattern_def)

lemma type_of_arg:
  assumes "stands_at json p (arg_json a @ ys)" "clean (fst a)" "clean (snd a)"
  shows "\<exists>tp. find_at json TYPE_KEY p = Some tp \<and> tp < p + length (arg_json a) \<and>
    parse_string json (tp + length TYPE_KEY - 1) = Some (snd a, p + length (arg_json a) - 1)"
proof -
  define pre where "pre = concat [[LBRACE], json_key ''name'', json_string (fst a) @ [COMMA]]"
  have a: "arg_json a = pre @ json_key ''type'' @ json_string (snd a) @ [RBRACE]"
    by (simp add: arg_json_def pre_def)
  have "skips (key_pattern ''type'' [QUOTE]) pre"
    unfolding pre_def by (rule skips_concat) (simp add: skips_pieces assms)
  moreover have "stands_at json p (pre @ json_key ''type'' @ [QUOTE] @ snd a @ QUOTE # RBRACE # ys)"
    using assms(1) by (simp add: a json_string_def)
  ultimately have f: "find_at json TYPE_KEY p = Some (p + length pre)"
    unfolding key_patterns by (intro find_key_stands)
  have "stands_at json (p + length (pre @ json_key ''type'')) (json_string (snd a) @ RBRACE # ys)"
    by (rule stands_at_advance) (use assms(1) in \<open>simp add: a\<close>)
  from parse_string_stands [OF this assms(3)] f show ?thesis
    by (simp add: a json_key_def json_string_def)
qed

lemma parse_args_join:
  assumes "stands_at json p (join (map arg_json as) @ RBRACKET # ys)" "p + length (join (map arg_json as)) < endp"
    and "\<forall>a\<in>set as. clean (fst a) \<and> clean (snd a)"
  shows "parse_args json endp p = map snd as"
  using assms
proof (induction as arbitrary: p)
  case Nil
  then have "char_at json p = RBRACKET" by (intro char_at_stands) simp
  then show ?case by (subst parse_args.simps) simp
next
  case (Cons a as)
  define rest where "rest = (if as = [] then [] else COMMA # join (map arg_json as)) @ RBRACKET # ys"
  have st: "stands_at json p (arg_json a @ rest)"
    using Cons.prems(1) by (simp add: join_Cons rest_def)
  have clean: "clean (fst a)" "clean (snd a)" using Cons.prems(3) by auto
  let ?oend = "p + length (arg_json a)"
  have len: "?oend < endp" using Cons.prems(2) by (simp add: join_Cons split: if_splits)
  have skip: "skip_object json p = Some ?oend"
    using skip_object_stands [of json p "arg_body a" rest] st balanced_arg_body [OF clean]
    by (simp add: arg_json_body)
  have ch: "char_at json p = LBRACE" using st by (intro char_at_stands) (simp add: arg_json_body)
  obtain tp where tp: "find_at json TYPE_KEY p = Some tp" "tp < ?oend"
    "parse_string json (tp + length TYPE_KEY - 1) = Some (snd a, ?oend - 1)"
    using type_of_arg [OF st clean] by blast
  have after: "stands_at json ?oend rest" by (rule stands_at_advance [OF st])
  have "parse_args json endp (next_element json endp ?oend) = map snd as"
  proof (cases as)
    case Nil
    with after have r: "stands_at json ?oend (RBRACKET # ys)" by (simp add: rest_def)
    then have "char_at json ?oend = RBRACKET" by (rule char_at_stands)
    then show ?thesis
      unfolding next_element_last [OF r] using Nil by (subst parse_args.simps) simp
  next
    case (Cons b bs)
    then have "rest = COMMA # LBRACE # tl (join (map arg_json as)) @ RBRACKET # ys"
      by (simp add: rest_def join_Cons arg_json_body)
    with after len have n: "next_element json endp ?oend = Suc ?oend" by (simp add: next_element_comma)
    have "stands_at json (?oend + length [COMMA]) (join (map arg_json as) @ RBRACKET # ys)"
      by (rule stands_at_advance) (use after Cons in \<open>simp add: rest_def\<close>)
    moreover have "Suc ?oend + length (join (map arg_json as)) < endp"
      using Cons.prems(2) Cons by (simp add: join_Cons)
    ultimately show ?thesis
      unfolding n using Cons.prems(3) by (intro Cons.IH) simp_all
  qed
  with ch len skip tp show ?case
    by (subst parse_args.simps) (simp add: found_before_def Let_def)
qed


section \<open>Reading a function\<close>

text \<open>What follows the name of a function, in the two orders.\<close>

definition function_tail :: "bool \<Rightarrow> function_decl \<Rightarrow> string" where
  "function_tail args_first f =
     COMMA # json_key ''id'' @ decimal (fd_id f) @ COMMA #
     (if args_first then args_json (fd_args f) @ COMMA # ret_json (fd_ret_type f)
      else ret_json (fd_ret_type f) @ COMMA # args_json (fd_args f))"

definition function_body :: "bool \<Rightarrow> function_decl \<Rightarrow> string" where
  "function_body b f = json_key ''name'' @ json_string (fd_name f) @ function_tail b f"

lemma function_json_body: "function_json b f = LBRACE # function_body b f @ [RBRACE]"
  by (simp add: function_json_def function_body_def function_tail_def)

lemma balanced_ret: "clean t \<Longrightarrow> balanced (ret_json t)"
  unfolding ret_json_def by (intro balanced_append balanced_pieces)

lemma balanced_function_tail:
  assumes "function_ok f" shows "balanced (function_tail b f)"
proof -
  have "balanced (args_json (fd_args f))" "balanced (ret_json (fd_ret_type f))"
    using assms by (simp_all add: function_ok_def balanced_args balanced_ret)
  moreover have "function_tail b f = concat [[COMMA], json_key ''id'', decimal (fd_id f), [COMMA],
      if b then args_json (fd_args f) else ret_json (fd_ret_type f), [COMMA],
      if b then ret_json (fd_ret_type f) else args_json (fd_args f)]"
    by (simp add: function_tail_def)
  ultimately show ?thesis
    by (simp only:) (rule balanced_concat, simp add: balanced_pieces)
qed

lemma balanced_function_body: "function_ok f \<Longrightarrow> balanced (function_body b f)"
  unfolding function_body_def
  by (intro balanced_append balanced_pieces balanced_function_tail) (simp_all add: function_ok_def)

lemma skips_function:
  assumes "plain_key k" "k \<notin> {''name'', ''type'', ''args'', ''ret_type'', ''id''}" "function_ok f"
  shows "skips (key_pattern k m) (function_json b f)"
proof -
  have a: "skips (key_pattern k m) (args_json (fd_args f))"
    using assms by (intro skips_args) (auto simp: function_ok_def)
  have v: "skips (key_pattern k m) (json_string (fd_name f) @ [COMMA])"
    "skips (key_pattern k m) (json_string (fd_ret_type f) @ [COMMA])"
    "skips (key_pattern k m) (json_string (fd_ret_type f) @ [RBRACE])"
    using assms by (simp_all add: skips_any_value function_ok_def)
  have "function_json b f = concat ([[LBRACE], json_key ''name'', json_string (fd_name f) @ [COMMA], json_key ''id'',
      decimal (fd_id f), [COMMA]] @ (if b then [args_json (fd_args f), [COMMA], json_key ''ret_type'', json_string (fd_ret_type f) @ [RBRACE]]
      else [json_key ''ret_type'', json_string (fd_ret_type f) @ [COMMA], args_json (fd_args f), [RBRACE]]))"
    by (simp add: function_json_def ret_json_def)
  then show ?thesis
    by (simp only:) (rule skips_concat, use assms(1,2) a v in \<open>auto simp: skips_pieces\<close>)
qed

lemma ret_type_of_function:
  assumes "stands_at json p (function_tail b f @ RBRACE # ys)" "function_ok f"
  shows "\<exists>rp q. find_at json RET_TYPE_KEY p = Some rp \<and> rp < p + length (function_tail b f) + 1 \<and>
    parse_string json (rp + length RET_TYPE_KEY - 1) = Some (fd_ret_type f, q)"
proof -
  define pre where "pre = concat ([[COMMA], json_key ''id'', decimal (fd_id f), [COMMA]] @
    (if b then [args_json (fd_args f), [COMMA]] else []))"
  define post where "post = (if b then [] else COMMA # args_json (fd_args f)) @ RBRACE # ys"
  have t: "function_tail b f @ RBRACE # ys = pre @ json_key ''ret_type'' @ json_string (fd_ret_type f) @ post"
    by (simp add: function_tail_def ret_json_def pre_def post_def)
  have "skips (key_pattern ''ret_type'' [QUOTE]) (args_json (fd_args f))"
    using assms(2) by (intro skips_args) (auto simp: function_ok_def plain_keys)
  then have "skips (key_pattern ''ret_type'' [QUOTE]) pre"
    unfolding pre_def by (intro skips_concat) (auto simp: skips_pieces)
  moreover have "stands_at json p (pre @ json_key ''ret_type'' @ [QUOTE] @ fd_ret_type f @ QUOTE # post)"
    using assms(1) by (simp add: t json_string_def)
  ultimately have f: "find_at json RET_TYPE_KEY p = Some (p + length pre)"
    unfolding key_patterns by (intro find_key_stands)
  have "stands_at json (p + length (pre @ json_key ''ret_type'')) (json_string (fd_ret_type f) @ post)"
    by (rule stands_at_advance) (use assms(1) in \<open>simp add: t\<close>)
  from parse_string_stands [OF this] assms(2) f arg_cong [OF t, of length] show ?thesis
    by (simp add: json_key_def json_string_def function_ok_def post_def)
qed

lemma args_of_function:
  assumes "stands_at json p (function_tail b f @ RBRACE # ys)" "function_ok f"
  shows "\<exists>ap. find_at json ARGS_KEY p = Some ap \<and> ap < p + length (function_tail b f) + 1 \<and>
    parse_args json (p + length (function_tail b f) + 1) (skip_ws json (ap + length ARGS_KEY)) = map snd (fd_args f)"
proof -
  define pre where "pre = concat ([[COMMA], json_key ''id'', decimal (fd_id f), [COMMA]] @
    (if b then [] else [json_key ''ret_type'', json_string (fd_ret_type f) @ [COMMA]]))"
  define post where "post = (if b then COMMA # ret_json (fd_ret_type f) else []) @ RBRACE # ys"
  let ?args = "join (map arg_json (fd_args f))"
  have t: "function_tail b f @ RBRACE # ys = pre @ json_key ''args'' @ LBRACKET # ?args @ RBRACKET # post"
    by (simp add: function_tail_def args_json_def ret_json_def pre_def post_def)
  have ok: "clean (fd_ret_type f)" "\<forall>a\<in>set (fd_args f). clean (fst a) \<and> clean (snd a)"
    using assms(2) by (simp_all add: function_ok_def)
  have "skips (key_pattern ''args'' [LBRACKET]) pre"
    unfolding pre_def using ok(1) by (intro skips_concat) (auto simp: skips_pieces)
  moreover have "stands_at json p (pre @ json_key ''args'' @ [LBRACKET] @ ?args @ RBRACKET # post)"
    using assms(1) by (simp add: t)
  ultimately have f: "find_at json ARGS_KEY p = Some (p + length pre)"
    unfolding key_patterns by (intro find_key_stands)
  let ?q = "p + length (pre @ json_key ''args'' @ [LBRACKET])"
  have st: "stands_at json ?q (?args @ RBRACKET # post)"
    by (rule stands_at_advance) (use assms(1) in \<open>simp add: t\<close>)
  have "skip_ws json ?q = ?q"
  proof (cases "fd_args f")
    case Nil
    with st have "stands_at json ?q (RBRACKET # post)" by simp
    then show ?thesis by (rule skip_ws_stands) (simp add: is_ws_def)
  next
    case (Cons a as)
    with st have "stands_at json ?q (LBRACE # tl (?args @ RBRACKET # post))" by (simp add: join_Cons arg_json_body)
    then show ?thesis by (rule skip_ws_stands) (simp add: is_ws_def)
  qed
  moreover have "?q + length ?args < p + length (function_tail b f) + 1"
    using arg_cong [OF t, of length] by (simp add: post_def)
  ultimately show ?thesis
    using f arg_cong [OF t, of length] parse_args_join [OF st _ ok(2)] by (simp add: json_key_def post_def)
qed

lemma fill_op_extras_function:
  assumes "stands_at json p (function_tail b f @ RBRACE # ys)" "function_ok f" "op_args e = []"
  shows "fill_op_extras json p (p + length (function_tail b f) + 1) e = e\<lparr>op_ret_type := fd_ret_type f, op_args := map snd (fd_args f)\<rparr>"
proof -
  obtain rp q where "find_at json RET_TYPE_KEY p = Some rp" "rp < p + length (function_tail b f) + 1"
    "parse_string json (rp + length RET_TYPE_KEY - 1) = Some (fd_ret_type f, q)"
    using ret_type_of_function [OF assms(1,2)] by blast
  moreover obtain ap where "find_at json ARGS_KEY p = Some ap" "ap < p + length (function_tail b f) + 1"
    "parse_args json (p + length (function_tail b f) + 1) (skip_ws json (ap + length ARGS_KEY)) = map snd (fd_args f)"
    using args_of_function [OF assms(1,2)] by blast
  ultimately show ?thesis
    using assms(3) by (cases e) (simp add: fill_op_extras_def found_before_def Let_def)
qed

lemma id_of_function:
  assumes "stands_at json p (function_tail b f @ ys)" "fd_id f < 2 ^ 16"
  shows "find_at json ID_KEY p = Some (Suc p)" "parse_uint json (Suc p + 5) = Some (of_nat (fd_id f))"
proof -
  define rest where "rest = (if b then args_json (fd_args f) @ COMMA # ret_json (fd_ret_type f)
      else ret_json (fd_ret_type f) @ COMMA # args_json (fd_args f)) @ ys"
  have st: "stands_at json p ([COMMA] @ json_key ''id'' @ [] @ decimal (fd_id f) @ COMMA # rest)"
    using assms(1) by (simp add: function_tail_def rest_def)
  from find_key_stands [OF st] show "find_at json ID_KEY p = Some (Suc p)"
    unfolding key_patterns by (simp add: skips_char)
  have l: "p + length ([COMMA] @ json_key ''id'') = Suc p + 5" by (simp add: json_key_def)
  have "stands_at json (p + length ([COMMA] @ json_key ''id'')) (decimal (fd_id f) @ COMMA # rest)"
    by (rule stands_at_advance) (use st in simp)
  from parse_uint_stands [OF this _ assms(2)] show "parse_uint json (Suc p + 5) = Some (of_nat (fd_id f))"
    unfolding l by (simp add: is_digit_def)
qed

definition op_of :: "string \<Rightarrow> u32 \<Rightarrow> function_decl \<Rightarrow> OpEntry" where
  "op_of class_name cid f = \<lparr>op_key = push_bit 16 cid OR of_nat (fd_id f), op_class_id = ucast cid,
     op_func_id = ucast (of_nat (fd_id f) :: u32), op_class_name = class_name, op_func_name = fd_name f,
     op_ret_type = fd_ret_type f, op_args = map snd (fd_args f)\<rparr>"

lemma parse_functions_join:
  assumes "stands_at json p (join (map (function_json b) fs) @ RBRACKET # ys)"
    and "p + length (join (map (function_json b) fs)) < cend" "\<forall>f\<in>set fs. function_ok f"
  shows "parse_functions json cend class_name cid p = map (op_of class_name cid) fs"
  using assms
proof (induction fs arbitrary: p)
  case Nil
  then have "char_at json p = RBRACKET" by (intro char_at_stands) simp
  then show ?case by (subst parse_functions.simps) simp
next
  case (Cons f fs)
  define rest where "rest = (if fs = [] then [] else COMMA # join (map (function_json b) fs)) @ RBRACKET # ys"
  have st: "stands_at json p (function_json b f @ rest)"
    using Cons.prems(1) by (simp add: join_Cons rest_def)
  have ok: "function_ok f" "clean (fd_name f)" "fd_id f < 2 ^ 16" using Cons.prems(3) by (auto simp: function_ok_def)
  let ?oend = "p + length (function_json b f)"
  have len: "?oend < cend" using Cons.prems(2) by (simp add: join_Cons split: if_splits)
  have skip: "skip_object json p = Some ?oend"
    using skip_object_stands [of json p "function_body b f" rest] st balanced_function_body [OF ok(1)]
    by (simp add: function_json_body)
  have ch: "char_at json p = LBRACE" using st by (intro char_at_stands) (simp add: function_json_body)
  have "stands_at json (p + length (LBRACE # json_key ''name'')) (json_string (fd_name f) @ function_tail b f @ RBRACE # rest)"
    by (rule stands_at_advance) (use st in \<open>simp add: function_json_body function_body_def\<close>)
  moreover have "length (LBRACE # json_key ''name'') = 8" by (simp add: json_key_def)
  ultimately have p8: "stands_at json (p + 8) (json_string (fd_name f) @ function_tail b f @ RBRACE # rest)"
    by (simp only:)
  have name: "parse_string json (p + 8) = Some (fd_name f, p + 8 + (length (fd_name f) + 2))"
    by (rule parse_string_stands [OF p8 ok(2)])
  have "length (json_string (fd_name f)) = length (fd_name f) + 2" by (simp add: json_string_def)
  with stands_at_advance [OF p8]
  have tail: "stands_at json (p + 8 + (length (fd_name f) + 2)) (function_tail b f @ RBRACE # rest)"
    by (simp only:)
  let ?after = "p + 8 + (length (fd_name f) + 2)"
  have oend: "?oend = ?after + length (function_tail b f) + 1"
    by (simp add: function_json_body function_body_def json_key_def json_string_def)
  have i: "find_at json ID_KEY ?after = Some (Suc ?after)" "parse_uint json (Suc ?after + 5) = Some (of_nat (fd_id f))"
    using id_of_function [OF tail ok(3)] by simp_all
  have "0 < length (function_tail b f)" by (simp add: function_tail_def)
  then have before: "found_before (Some (Suc ?after)) ?oend" unfolding oend by (simp add: found_before_def)
  have after: "stands_at json ?oend rest" by (rule stands_at_advance [OF st])
  have "parse_functions json cend class_name cid (next_element json cend ?oend) = map (op_of class_name cid) fs"
  proof (cases fs)
    case Nil
    with after have r: "stands_at json ?oend (RBRACKET # ys)" by (simp add: rest_def)
    then have "char_at json ?oend = RBRACKET" by (rule char_at_stands)
    then show ?thesis
      unfolding next_element_last [OF r] using Nil by (subst parse_functions.simps) simp
  next
    case (Cons g gs)
    then have "rest = COMMA # LBRACE # tl (join (map (function_json b) fs)) @ RBRACKET # ys"
      by (simp add: rest_def join_Cons function_json_body)
    with after len have n: "next_element json cend ?oend = Suc ?oend" by (simp add: next_element_comma)
    have "stands_at json (?oend + length [COMMA]) (join (map (function_json b) fs) @ RBRACKET # ys)"
      by (rule stands_at_advance) (use after Cons in \<open>simp add: rest_def\<close>)
    moreover have "Suc ?oend + length (join (map (function_json b) fs)) < cend"
      using Cons.prems(2) Cons by (simp add: join_Cons)
    ultimately show ?thesis
      unfolding n using Cons.prems(3) by (intro Cons.IH) simp_all
  qed
  moreover have "fill_op_extras json ?after ?oend e = e\<lparr>op_ret_type := fd_ret_type f, op_args := map snd (fd_args f)\<rparr>"
    if "op_args e = []" for e
    unfolding oend by (rule fill_op_extras_function [OF tail ok(1) that])
  ultimately show ?case
    using ch len skip name i before
    by (subst parse_functions.simps) (simp add: Let_def op_of_def)
qed


section \<open>Reading the classes\<close>

definition class_rest :: "bool \<Rightarrow> class_decl \<Rightarrow> string" where
  "class_rest b c = COMMA # json_key ''id'' @ decimal (cd_id c) @ COMMA #
     json_key ''functions'' @ LBRACKET # join (map (function_json b) (cd_functions c)) @ [RBRACKET, RBRACE]"

fun classes_text :: "(bool \<times> class_decl) list \<Rightarrow> string" where
  "classes_text [] = []"
| "classes_text ((b, c) # cs) = json_key ''class'' @ json_string (cd_name c) @ class_rest b c @
     (if cs = [] then [RBRACKET] else COMMA # LBRACE # classes_text cs)"

lemma get_json_text:
  "get_json drivers = LBRACKET # LBRACE # classes_text ((True, server_class) # map (Pair False) drivers)"
proof -
  have "join (map (\<lambda>(b, c). class_json b c) (bc # cs)) @ [RBRACKET] = LBRACE # classes_text (bc # cs)" for bc and cs :: "(bool \<times> class_decl) list"
    by (induction cs arbitrary: bc) (auto simp: join_Cons class_json_def class_rest_def split: prod.splits)
  from this [of "(True, server_class)" "map (Pair False) drivers"] show ?thesis
    by (simp add: get_json_def comp_def del: classes_text.simps)
qed

lemma skips_class_rest:
  assumes "class_ok c" shows "skips (key_pattern ''class'' m) (class_rest b c)"
proof -
  have "class_rest b c = concat [[COMMA], json_key ''id'', decimal (cd_id c), [COMMA], json_key ''functions'', [LBRACKET],
      join (map (function_json b) (cd_functions c)), [RBRACKET], [RBRACE]]"
    by (simp add: class_rest_def)
  also have "skips (key_pattern ''class'' m) (join (map (function_json b) (cd_functions c)))"
    using assms by (intro skips_join) (auto simp: class_ok_def plain_keys intro!: skips_function)
  then have "skips (key_pattern ''class'' m) (concat [[COMMA], json_key ''id'', decimal (cd_id c), [COMMA], json_key ''functions'', [LBRACKET],
      join (map (function_json b) (cd_functions c)), [RBRACKET], [RBRACE]])"
    by (intro skips_concat) (simp add: skips_pieces)
  finally show ?thesis .
qed

lemma parse_ops_at_end: "parse_ops_from json (length json) = []"
  by (subst parse_ops_from.simps) (simp add: find_at_def)

lemma next_class_of:
  assumes "stands_at json p (class_rest b c @ (if cs = [] then [RBRACKET] else COMMA # LBRACE # classes_text cs))" "class_ok c"
  shows "find_at json CLASS_KEY p = (if cs = [] then None else Some (p + length (class_rest b c) + 2))"
proof (cases cs)
  case Nil
  with assms skips_class_rest [OF assms(2), of "[QUOTE]" b] show ?thesis
    unfolding key_patterns using find_at_stands [of json p "class_rest b c @ [RBRACKET]"]
    by (simp add: skips_def key_pattern_def json_key_def)
next
  case (Cons d ds)
  obtain b' c' where d: "d = (b', c')" by (cases d)
  have "skips (key_pattern ''class'' [QUOTE]) (class_rest b c @ [COMMA] @ [LBRACE])"
    by (intro skips_append skips_class_rest assms(2) skips_char) simp_all
  from find_key_stands [OF _ this] show ?thesis
    unfolding key_patterns using assms(1) Cons by (simp add: d json_string_def)
qed

lemma functions_of_class:
  assumes "stands_at json q (json_key ''id'' @ decimal (cd_id c) @ COMMA # json_key ''functions'' @ LBRACKET #
      join (map (function_json b) (cd_functions c)) @ RBRACKET # RBRACE # ys)" "class_ok c"
    and "q + length (class_rest b c) - 1 \<le> cend"
  shows "\<exists>farr. find_at json FUNCTIONS_KEY q = Some farr \<and> farr < cend \<and>
    parse_functions json cend name cid (skip_ws json (farr + 13)) = map (op_of name cid) (cd_functions c)"
proof -
  define pre where "pre = concat [json_key ''id'', decimal (cd_id c), [COMMA]]"
  let ?fs = "join (map (function_json b) (cd_functions c))"
  have st: "stands_at json q (pre @ json_key ''functions'' @ [LBRACKET] @ ?fs @ RBRACKET # RBRACE # ys)"
    using assms(1) by (simp add: pre_def)
  have "skips (key_pattern ''functions'' [LBRACKET]) pre"
    unfolding pre_def by (intro skips_concat) (simp add: skips_pieces)
  from find_key_stands [OF st this] have f: "find_at json FUNCTIONS_KEY q = Some (q + length pre)"
    unfolding key_patterns .
  have l: "q + length (pre @ json_key ''functions'' @ [LBRACKET]) = q + length pre + 13" by (simp add: json_key_def)
  have "stands_at json (q + length (pre @ json_key ''functions'' @ [LBRACKET])) (?fs @ RBRACKET # RBRACE # ys)"
    by (rule stands_at_advance) (use st in simp)
  then have st2: "stands_at json (q + length pre + 13) (?fs @ RBRACKET # RBRACE # ys)" unfolding l .
  have "skip_ws json (q + length pre + 13) = q + length pre + 13"
  proof (cases "cd_functions c")
    case Nil
    with st2 have "stands_at json (q + length pre + 13) (RBRACKET # RBRACE # ys)" by simp
    then show ?thesis by (rule skip_ws_stands) (simp add: is_ws_def)
  next
    case (Cons g gs)
    with st2 have "stands_at json (q + length pre + 13) (LBRACE # tl (?fs @ RBRACKET # RBRACE # ys))"
      by (simp add: join_Cons function_json_body)
    then show ?thesis by (rule skip_ws_stands) (simp add: is_ws_def)
  qed
  moreover have len: "q + length pre + 13 + length ?fs < cend"
    using assms(3) by (simp add: class_rest_def pre_def json_key_def)
  moreover have "\<forall>f\<in>set (cd_functions c). function_ok f" using assms(2) by (simp add: class_ok_def)
  ultimately show ?thesis
    using f parse_functions_join [OF st2 len] by simp
qed

lemma declared_ops_eq:
  assumes "class_ok c" shows "map (op_of (cd_name c) (of_nat (cd_id c))) (cd_functions c) = declared_ops c"
proof -
  have u: "(ucast (of_nat n :: u32) :: u16) = of_nat n" if "n < 2 ^ 16" for n
    using that by (intro word_unat_eq_iff [THEN iffD2]) (simp add: unat_of_nat_small unsigned_ucast_eq take_bit_nat_eq_self)
  with assms show ?thesis
    by (auto simp: declared_ops_def op_of_def class_ok_def function_ok_def)
qed

lemma parse_class_step:
  assumes st: "stands_at json p (pre @ classes_text ((b, c) # cs))" and sk: "skips (key_pattern ''class'' [QUOTE]) pre"
    and ok: "class_ok c"
  shows "\<exists>cend. parse_ops_from json p = declared_ops c @ parse_ops_from json cend \<and>
    (if cs = [] then cend = length json else stands_at json cend (classes_text cs))"
proof -
  define tail where "tail = (if cs = [] then [RBRACKET] else COMMA # LBRACE # classes_text cs)"
  define cpos where "cpos = p + length pre"
  define after where "after = cpos + 8 + (length (cd_name c) + 2)"
  define cend where "cend = (if cs = [] then length json else after + length (class_rest b c) + 2)"
  have name_ok: "clean (cd_name c)" "cd_id c < 2 ^ 16" using ok by (simp_all add: class_ok_def)
  have shape: "pre @ classes_text ((b, c) # cs) =
      pre @ json_key ''class'' @ [QUOTE] @ cd_name c @ QUOTE # class_rest b c @ tail"
    by (simp add: tail_def json_string_def)
  note st' = st [unfolded shape]
  have find1: "find_at json CLASS_KEY p = Some cpos"
    unfolding key_patterns cpos_def by (rule find_key_stands [OF st' sk])
  have l: "p + length (pre @ json_key ''class'') = cpos + 8" by (simp add: json_key_def cpos_def)
  have "stands_at json (p + length (pre @ json_key ''class'')) (json_string (cd_name c) @ class_rest b c @ tail)"
    by (rule stands_at_advance) (use st' in \<open>simp add: json_string_def\<close>)
  then have st8: "stands_at json (cpos + 8) (json_string (cd_name c) @ class_rest b c @ tail)" unfolding l .
  have name: "parse_string json (cpos + length CLASS_KEY - 1) = Some (cd_name c, after)"
    using parse_string_stands [OF st8 name_ok(1)] by (simp add: after_def eval_nat_numeral)
  have l2: "length (json_string (cd_name c)) = length (cd_name c) + 2" by (simp add: json_string_def)
  have rest: "stands_at json after (class_rest b c @ tail)"
    using stands_at_advance [OF st8] unfolding after_def l2 .
  have "find_at json CLASS_KEY after = (if cs = [] then None else Some (after + length (class_rest b c) + 2))"
    by (rule next_class_of [OF rest [unfolded tail_def] ok])
  then have cend: "(case find_at json CLASS_KEY after of None \<Rightarrow> length json | Some k \<Rightarrow> k) = cend"
    by (simp add: cend_def)
  have long: "after + length (class_rest b c) \<le> cend"
    using stands_at_length [OF rest] by (simp add: cend_def)
  define fs where "fs = join (map (function_json b) (cd_functions c))"
  have st_id: "stands_at json after ([COMMA] @ json_key ''id'' @ [] @ decimal (cd_id c) @ COMMA # json_key ''functions'' @ LBRACKET #
      fs @ RBRACKET # RBRACE # tail)"
    using rest by (simp add: class_rest_def fs_def)
  have find_id: "find_at json ID_KEY after = Some (Suc after)"
    using find_key_stands [OF st_id] unfolding key_patterns by (simp add: skips_char)
  have l3: "after + length ([COMMA] @ json_key ''id'') = Suc after + 5" by (simp add: json_key_def)
  have "stands_at json (after + length ([COMMA] @ json_key ''id'')) (decimal (cd_id c) @ COMMA # json_key ''functions'' @ LBRACKET #
      fs @ RBRACKET # RBRACE # tail)"
    by (rule stands_at_advance) (use st_id in simp)
  then have cid: "parse_uint json (Suc after + 5) = Some (of_nat (cd_id c))"
    unfolding l3 by (rule parse_uint_stands) (use name_ok in \<open>simp_all add: is_digit_def\<close>)
  have "stands_at json (after + length [COMMA]) (json_key ''id'' @ decimal (cd_id c) @ COMMA # json_key ''functions'' @ LBRACKET #
      fs @ RBRACKET # RBRACE # tail)"
    by (rule stands_at_advance) (use st_id in simp)
  then have "stands_at json (Suc after) (json_key ''id'' @ decimal (cd_id c) @ COMMA # json_key ''functions'' @ LBRACKET #
      join (map (function_json b) (cd_functions c)) @ RBRACKET # RBRACE # tail)"
    by (simp add: fs_def)
  from functions_of_class [OF this ok, of cend] long obtain farr where
    farr: "find_at json FUNCTIONS_KEY (Suc after) = Some farr" "farr < cend"
      "parse_functions json cend (cd_name c) (of_nat (cd_id c)) (skip_ws json (farr + 13)) =
        map (op_of (cd_name c) (of_nat (cd_id c))) (cd_functions c)"
    by fastforce
  have "Suc after < cend" using long by (simp add: class_rest_def)
  with find1 name cend find_id cid farr have "parse_ops_from json p = declared_ops c @ parse_ops_from json cend"
    by (subst parse_ops_from.simps) (simp add: found_before_def Let_def declared_ops_eq [OF ok])
  moreover have "stands_at json cend (classes_text cs)" if "cs \<noteq> []"
  proof -
    have "stands_at json (after + length (class_rest b c @ [COMMA, LBRACE])) (classes_text cs)"
      by (rule stands_at_advance) (use rest that in \<open>simp add: tail_def\<close>)
    with that show ?thesis by (simp add: cend_def)
  qed
  ultimately show ?thesis by (auto simp: cend_def)
qed

lemma parse_classes:
  assumes "stands_at json p (pre @ classes_text (bc # cs))" "skips (key_pattern ''class'' [QUOTE]) pre"
    and "\<forall>c\<in>set (map snd (bc # cs)). class_ok c"
  shows "parse_ops_from json p = concat (map (declared_ops \<circ> snd) (bc # cs))"
  using assms
proof (induction cs arbitrary: bc p pre)
  case Nil
  obtain b c where "bc = (b, c)" by (cases bc)
  with Nil.prems parse_class_step [of json p pre b c "[]"] show ?case
    by (auto simp: parse_ops_at_end)
next
  case (Cons d cs)
  obtain b c where bc: "bc = (b, c)" by (cases bc)
  with Cons.prems parse_class_step [of json p pre b c "d # cs"] obtain cend where
    cend: "parse_ops_from json p = declared_ops c @ parse_ops_from json cend" "stands_at json cend ([] @ classes_text (d # cs))"
    by auto
  have "parse_ops_from json cend = concat (map (declared_ops \<circ> snd) (d # cs))"
    using Cons.prems(3) by (intro Cons.IH [OF cend(2)]) (simp_all add: skips_Nil)
  with cend(1) bc show ?case by (simp add: comp_def)
qed

section \<open>Properties\<close>

lemma server_class_ok: "class_ok server_class"
  by (simp add: class_ok_def function_ok_def server_class_def clean_def)

text \<open>
  C35. The client reads back from the text the generator writes exactly the operations of the server
  and of its drivers, in order, each with its class, its number, its return type and the types of its
  arguments, whatever names and types are declared as long as they hold no quote and no backslash
  and the numbers fit 16 bits.
\<close>

theorem parse_ops_roundtrip:
  assumes "\<forall>c\<in>set drivers. class_ok c"
  shows "parse_ops (get_json drivers) = concat (map declared_ops (server_class # drivers))"
proof -
  have "stands_at (get_json drivers) 0 ([LBRACKET, LBRACE] @ classes_text ((True, server_class) # map (Pair False) drivers))"
    by (simp add: stands_at_def get_json_text)
  moreover have "skips (key_pattern ''class'' [QUOTE]) ([LBRACKET] @ [LBRACE])"
    by (intro skips_append skips_char) simp_all
  ultimately have "parse_ops_from (get_json drivers) 0 = concat (map (declared_ops \<circ> snd) ((True, server_class) # map (Pair False) drivers))"
    using assms server_class_ok by (intro parse_classes) auto
  then show ?thesis by (simp add: parse_ops_def comp_def)
qed

definition demo_drivers :: "class_decl list" where
  "demo_drivers = [\<lparr>cd_name = ''Demo'', cd_id = 2, cd_functions =
     [\<lparr>fd_name = ''set'', fd_id = 0, fd_ret_type = ''void'', fd_args = [(''channel'', ''uint32_t''), (''v'', ''float'')]\<rparr>,
      \<lparr>fd_name = ''channel'', fd_id = 1, fd_ret_type = ''uint32_t'', fd_args = []\<rparr>]\<rparr>]"

lemma demo_drivers_ok: "\<forall>c\<in>set demo_drivers. class_ok c"
  by (simp add: demo_drivers_def class_ok_def function_ok_def clean_def)

theorem parse_ops_roundtrip_witness:
  "map (\<lambda>e. (op_key e, op_func_name e, op_args e)) (parse_ops (get_json demo_drivers)) =
     [(0x10000, ''get_version'', []), (0x10001, ''get_cmds'', []),
      (0x20000, ''set'', [''uint32_t'', ''float'']), (0x20001, ''channel'', [])]"
  using parse_ops_roundtrip [OF demo_drivers_ok]
  by (simp add: declared_ops_def server_class_def demo_drivers_def)

text \<open>
  \<open>find_op_in_json\<close> looks for the name of a function anywhere in the class: an argument of the same
  name in an earlier function is found first, and the number read is that of the function behind it.
\<close>

definition shadowed_drivers :: "class_decl list" where
  "shadowed_drivers = [\<lparr>cd_name = ''Demo'', cd_id = 2, cd_functions =
     [\<lparr>fd_name = ''set'', fd_id = 0, fd_ret_type = ''void'', fd_args = [(''channel'', ''uint32_t'')]\<rparr>,
      \<lparr>fd_name = ''reset'', fd_id = 1, fd_ret_type = ''void'', fd_args = []\<rparr>,
      \<lparr>fd_name = ''channel'', fd_id = 2, fd_ret_type = ''uint32_t'', fd_args = []\<rparr>]\<rparr>]"


lemma parse_uint_digit:
  assumes "take 2 (drop p json) = [char_of (48 + n), c]" "n < 10" "\<not> is_digit c"
  shows "parse_uint json p = Some (of_nat n)"
proof -
  obtain ys where d: "drop p json = char_of (48 + n) # c # ys"
    using assms(1) by (cases "drop p json"; cases "tl (drop p json)") auto
  then have "p < length json" by (metis drop_eq_Nil2 list.distinct(1) not_le)
  moreover have "decimal n = [char_of (48 + n)]" using assms(2) by (subst decimal.simps) simp
  ultimately have "stands_at json p (decimal n @ c # ys)" using d by (simp add: stands_at_def)
  then show ?thesis using assms(2,3) by (intro parse_uint_stands) simp_all
qed

lemma find_op_shadowed:
  "find_op_in_json (get_json shadowed_drivers) ''Demo'' ''channel'' = Some (2, 1)"
proof -
  define json where "json = get_json shadowed_drivers"
  have "find_at json (CLASS_KEY @ ''Demo'' @ [QUOTE]) 0 = Some 171" "find_at json CLASS_TAG 185 = None"
    "length json = 404" "find_at json ID_KEY 185 = Some 186"
    "find_at json (NAME_KEY @ ''channel'' @ [QUOTE]) 186 = Some 254" "find_at json ID_KEY 270 = Some 308"
    unfolding json_def by code_simp+
  moreover {
  have "take 2 (drop 191 json) = ''2,''" "take 2 (drop 313 json) = ''1,''"
    unfolding json_def by code_simp+
  moreover have "(char_of (50 :: nat) :: char) = CHR ''2''" "(char_of (49 :: nat) :: char) = CHR ''1''"
    by code_simp+
  ultimately have "parse_uint json 191 = Some (of_nat 2)" "parse_uint json 313 = Some (of_nat 1)"
    using parse_uint_digit [of 191 json 2 COMMA] parse_uint_digit [of 313 json 1 COMMA] by (simp_all add: is_digit_def)
  }
  ultimately show ?thesis
    unfolding json_def [symmetric] by (simp add: find_op_in_json_def found_before_def Let_def)
qed

end
