(* ===== verification/Client_Types.thy ===== *)
theory Client_Types
  imports Client_Context
begin

text \<open>
  The names of types the client compares (\<open>canonical_type\<close> and its helpers in \<open>op_detail\<close>): what
  the compiler's demangler calls a type and what an instrument's sources call it are reduced to one
  spelling.
\<close>

section \<open>The functions\<close>

abbreviation (input) LESS :: char where "LESS \<equiv> CHR 0x3C"
abbreviation (input) GREATER :: char where "GREATER \<equiv> CHR 0x3E"

fun replace_all :: "string \<Rightarrow> string \<Rightarrow> string \<Rightarrow> string" where
  "replace_all pat to [] = []"
| "replace_all pat to (c # cs) =
     (if pat \<noteq> [] \<and> take (length pat) (c # cs) = pat then to @ replace_all pat to (drop (length pat - 1) cs)
      else c # replace_all pat to cs)"

definition trim_back :: "(char \<Rightarrow> bool) \<Rightarrow> string \<Rightarrow> string" where
  "trim_back P s = rev (dropWhile P (rev s))"

definition trim_str :: "string \<Rightarrow> string" where
  "trim_str s = trim_back is_ws (dropWhile is_ws s)"

fun split_scan :: "int \<Rightarrow> bool \<Rightarrow> string \<Rightarrow> string \<Rightarrow> string list" where
  "split_scan depth in_str cur [] = [cur]"
| "split_scan depth in_str cur (c # cs) =
     (if in_str then split_scan depth (c \<noteq> QUOTE) (cur @ [c]) cs
      else if c = QUOTE then split_scan depth True (cur @ [c]) cs
      else
        let depth = (if c = LESS \<or> c = CHR 0x28 then depth + 1
                     else if c = GREATER \<or> c = CHR 0x29 then depth - 1 else depth)
        in if c = COMMA \<and> depth = 0 then cur # split_scan depth False [] cs
           else split_scan depth False (cur @ [c]) cs)"

definition split_top :: "string \<Rightarrow> string list" where
  "split_top s = split_scan 0 False [] s"

lemma length_replace_all: "length to \<le> length pat \<Longrightarrow> length (replace_all pat to s) \<le> length s"
proof (induction pat to s rule: replace_all.induct)
  case (2 pat to c cs)
  show ?case
  proof (cases "pat \<noteq> [] \<and> take (length pat) (c # cs) = pat")
    case True
    then have "length (take (length pat) (c # cs)) = length pat" by simp
    then have "length pat \<le> Suc (length cs)" by simp
    with True 2 show ?thesis by (cases pat) auto
  next
    case False
    with 2 show ?thesis by auto
  qed
qed simp

lemma length_dropWhile: "length (dropWhile P xs) \<le> length xs"
  by (induction xs) auto

lemma length_trim_back: "length (trim_back P s) \<le> length s"
  using length_dropWhile [of P "rev s"] by (simp add: trim_back_def)

lemma length_trim_str: "length (trim_str s) \<le> length s"
  using length_trim_back [of is_ws "dropWhile is_ws s"] length_dropWhile [of is_ws s] by (simp add: trim_str_def)

lemma length_split_scan: "p \<in> set (split_scan d i cur s) \<Longrightarrow> length p \<le> length cur + length s"
  by (induction d i cur s rule: split_scan.induct) (force simp: Let_def split: if_splits)+

lemma split_scan_nonempty: "split_scan d i cur s \<noteq> []"
  by (induction d i cur s rule: split_scan.induct) (auto simp: Let_def)

text \<open>What is done to a name before it is looked at.\<close>

definition bare_type :: "string \<Rightarrow> string" where
  "bare_type s = trim_str (trim_back (\<lambda>c. c = CHR 0x26 \<or> is_ws c) (replace_all ''std::__cxx11::'' ''std::'' (trim_str s)))"

lemma length_bare_type: "length (bare_type s) \<le> length s"
proof -
  let ?r = "replace_all ''std::__cxx11::'' ''std::'' (trim_str s)"
  have "length (bare_type s) \<le> length (trim_back (\<lambda>c. c = CHR 0x26 \<or> is_ws c) ?r)"
    unfolding bare_type_def by (rule length_trim_str)
  also have "\<dots> \<le> length ?r" by (rule length_trim_back)
  also have "\<dots> \<le> length (trim_str s)" by (rule length_replace_all) simp
  also have "\<dots> \<le> length s" by (rule length_trim_str)
  finally show ?thesis .
qed

definition starts_with :: "string \<Rightarrow> string \<Rightarrow> bool" where
  "starts_with pat s \<longleftrightarrow> take (length pat) s = pat"

function canonical_type :: "string \<Rightarrow> string" where
  "canonical_type s =
     (let s = bare_type s in
      if s \<in> {''bool'', ''char'', ''float'', ''double''} then s
      else if s \<in> {''signed char'', ''signed int'', ''signed''} then ''int8_t''
      else if s = ''unsigned char'' then ''uint8_t''
      else if s \<in> {''short'', ''short int''} then ''int16_t''
      else if s \<in> {''unsigned short'', ''unsigned short int''} then ''uint16_t''
      else if s = ''int'' then ''int32_t''
      else if s \<in> {''unsigned int'', ''unsigned''} then ''uint32_t''
      else if s \<in> {''long'', ''long int'', ''long long'', ''long long int''} then ''int64_t''
      else if s \<in> {''unsigned long'', ''unsigned long int'', ''unsigned long long'', ''unsigned long long int''} then ''uint64_t''
      else if starts_with ''std::basic_string<'' s then ''std::string''
      else if starts_with ''std::vector<'' s \<and> s \<noteq> [] \<and> last s = GREATER then
        ''std::vector<'' @ canonical_type (hd (split_top (take (length s - 13) (drop 12 s)))) @ [GREATER]
      else if starts_with ''std::array<'' s \<and> s \<noteq> [] \<and> last s = GREATER
          \<and> length (split_top (take (length s - 12) (drop 11 s))) = 2 then
        let parts = split_top (take (length s - 12) (drop 11 s));
            n = trim_back (\<lambda>c. c = CHR 0x75 \<or> c = CHR 0x6C) (trim_str (parts ! 1))
        in ''std::array<'' @ canonical_type (hd parts) @ '', '' @ n @ [GREATER]
      else s)"
  by auto
termination
proof (relation "measure length", simp)
  have shorter: "length (hd (split_top (take (length t - Suc k) (drop k t)))) < length s"
    if "t = bare_type s" "t \<noteq> []" for t s k
  proof -
    have "hd (split_top u) \<in> set (split_top u)" for u
      unfolding split_top_def by (rule hd_in_set) (rule split_scan_nonempty)
    then have "length (hd (split_top u)) \<le> length u" for u
      using length_split_scan [of "hd (split_top u)" 0 False "[]" u] by (simp add: split_top_def)
    from this [of "take (length t - Suc k) (drop k t)"] have "length (hd (split_top (take (length t - Suc k) (drop k t)))) \<le> length t - Suc k" by simp
    also have "\<dots> < length t" using that(2) by simp
    also have "\<dots> \<le> length s" using that(1) length_bare_type by simp
    finally show ?thesis .
  qed
  show "(hd (split_top (take (length x - 13) (drop 12 x))), s) \<in> measure length"
    if "x = bare_type s" "starts_with ''std::vector<'' x \<and> x \<noteq> [] \<and> last x = GREATER" for s x
    using shorter [of x s 12] that by simp
  show "(hd xa, s) \<in> measure length"
    if "x = bare_type s" "starts_with ''std::array<'' x \<and> x \<noteq> [] \<and> last x = GREATER \<and> length (split_top (take (length x - 12) (drop 11 x))) = 2"
      "xa = split_top (take (length x - 12) (drop 11 x))" for s x xa
    using shorter [of x s 11] that by simp
qed

declare canonical_type.simps [simp del]


section \<open>The types of a driver\<close>

text \<open>
  The types an operation may have, by the spelling of the instrument's sources (\<open>spelled\<close>) and by the
  name the demangler of the C++ runtime gives them on the 64-bit target (\<open>demangled True\<close>; with
  \<open>False\<close> the inline namespace of the string type is left out). Between two closing brackets the
  demangler puts a space.
\<close>

datatype cpp_type =
    CBool | CChar | CFloat | CDouble | CInt8 | CUInt8 | CInt16 | CUInt16 | CInt32 | CUInt32 | CInt64 | CUInt64
  | CStdString | CVector cpp_type | CArray cpp_type nat

fun spelled :: "cpp_type \<Rightarrow> string" where
  "spelled CBool = ''bool''" | "spelled CChar = ''char''" | "spelled CFloat = ''float''" | "spelled CDouble = ''double''"
| "spelled CInt8 = ''int8_t''" | "spelled CUInt8 = ''uint8_t''" | "spelled CInt16 = ''int16_t''" | "spelled CUInt16 = ''uint16_t''"
| "spelled CInt32 = ''int32_t''" | "spelled CUInt32 = ''uint32_t''" | "spelled CInt64 = ''int64_t''" | "spelled CUInt64 = ''uint64_t''"
| "spelled CStdString = ''std::string''"
| "spelled (CVector t) = ''std::vector<'' @ spelled t @ ''>''"
| "spelled (CArray t n) = ''std::array<'' @ spelled t @ '', '' @ decimal n @ ''>''"

definition close_bracket :: "string \<Rightarrow> string" where
  "close_bracket s = (if s \<noteq> [] \<and> last s = GREATER then s @ '' >'' else s @ ''>'')"

fun demangled :: "bool \<Rightarrow> cpp_type \<Rightarrow> string" where
  "demangled cxx CBool = ''bool''" | "demangled cxx CChar = ''char''" | "demangled cxx CFloat = ''float''"
| "demangled cxx CDouble = ''double''" | "demangled cxx CInt8 = ''signed char''" | "demangled cxx CUInt8 = ''unsigned char''"
| "demangled cxx CInt16 = ''short''" | "demangled cxx CUInt16 = ''unsigned short''" | "demangled cxx CInt32 = ''int''"
| "demangled cxx CUInt32 = ''unsigned int''" | "demangled cxx CInt64 = ''long''" | "demangled cxx CUInt64 = ''unsigned long''"
| "demangled cxx CStdString = (if cxx then ''std::__cxx11::'' else ''std::'') @
     ''basic_string<char, std::char_traits<char>, std::allocator<char> >''"
| "demangled cxx (CVector t) =
     close_bracket (''std::vector<'' @ demangled cxx t @ '', '' @ close_bracket (''std::allocator<'' @ demangled cxx t))"
| "demangled cxx (CArray t n) = ''std::array<'' @ demangled cxx t @ '', '' @ decimal n @ ''ul>''"

text \<open>Without the inline namespace.\<close>

definition plain_text :: "string \<Rightarrow> string \<Rightarrow> bool" where
  "plain_text xs xs' \<longleftrightarrow> (\<forall>ys. replace_all ''std::__cxx11::'' ''std::'' (xs @ ys) = xs' @ replace_all ''std::__cxx11::'' ''std::'' ys)"

lemma plain_text_append: "plain_text xs xs' \<Longrightarrow> plain_text ys ys' \<Longrightarrow> plain_text (xs @ ys) (xs' @ ys')"
  by (simp add: plain_text_def)

lemma plain_text_no_s: "CHR ''s'' \<notin> set xs \<Longrightarrow> plain_text xs xs"
  by (induction xs) (auto simp: plain_text_def)

lemma plain_text_scalars:
  "plain_text ''bool'' ''bool''" "plain_text ''std::vector<'' ''std::vector<''" "plain_text ''std::array<'' ''std::array<''"
  "plain_text '', std::allocator<'' '', std::allocator<''"
  "plain_text ''signed char'' ''signed char''" "plain_text ''unsigned char'' ''unsigned char''"
  "plain_text ''short'' ''short''" "plain_text ''unsigned short'' ''unsigned short''" "plain_text ''unsigned int'' ''unsigned int''"
  "plain_text ''unsigned long'' ''unsigned long''"
  "plain_text ''std::basic_string<char, std::char_traits<char>, std::allocator<char> >'' ''std::basic_string<char, std::char_traits<char>, std::allocator<char> >''"
  "plain_text ''std::__cxx11::basic_string<char, std::char_traits<char>, std::allocator<char> >'' ''std::basic_string<char, std::char_traits<char>, std::allocator<char> >''"
  by (simp_all add: plain_text_def)


fun closes :: "cpp_type \<Rightarrow> bool" where
  "closes CStdString = True" | "closes (CVector t) = True" | "closes (CArray t n) = True" | "closes t = False"

lemma demangled_last: "demangled cxx t \<noteq> [] \<and> (last (demangled cxx t) = GREATER \<longleftrightarrow> closes t)"
  by (cases t) (simp_all add: close_bracket_def)

lemma demangled_vector:
  "demangled cxx (CVector t) = ''std::vector<'' @ demangled cxx t @ '', std::allocator<'' @ demangled cxx t @
     (if closes t then '' >'' else ''>'') @ '' >''"
  using demangled_last [of cxx t] by (simp add: close_bracket_def)

lemma decimal_no_s: "CHR ''s'' \<notin> set (decimal n)"
  using decimal_digits [of n] by (auto simp: is_digit_def)

lemma plain_demangled: "plain_text (demangled cxx t) (demangled False t)"
proof (induction t)
  case (CVector t)
  show ?case unfolding demangled_vector
    by (intro plain_text_append plain_text_scalars CVector plain_text_no_s) simp_all
next
  case (CArray t n)
  show ?case unfolding demangled.simps
    by (intro plain_text_append plain_text_scalars CArray plain_text_no_s decimal_no_s) simp_all
qed (simp_all add: plain_text_scalars plain_text_no_s)

lemma plain_spelled: "plain_text (spelled t) (spelled t)"
proof (induction t)
  case CStdString
  show ?case by (simp add: plain_text_def)
next
  case (CVector t)
  show ?case unfolding spelled.simps
    by (intro plain_text_append plain_text_scalars CVector plain_text_no_s) simp_all
next
  case (CArray t n)
  show ?case unfolding spelled.simps
    by (intro plain_text_append plain_text_scalars CArray plain_text_no_s decimal_no_s) simp_all
qed (simp_all add: plain_text_scalars plain_text_no_s)

lemma trim_back_id: "s \<noteq> [] \<Longrightarrow> \<not> P (last s) \<Longrightarrow> trim_back P s = s"
  by (cases s rule: rev_cases) (simp_all add: trim_back_def)

lemma trim_str_id: "s \<noteq> [] \<Longrightarrow> \<not> is_ws (hd s) \<Longrightarrow> \<not> is_ws (last s) \<Longrightarrow> trim_str s = s"
  by (cases s) (simp_all add: trim_str_def trim_back_id)

definition tight :: "string \<Rightarrow> bool" where
  "tight s \<longleftrightarrow> s \<noteq> [] \<and> \<not> is_ws (hd s) \<and> \<not> is_ws (last s) \<and> last s \<noteq> CHR 0x26"

lemma tight_demangled: "tight (demangled cxx t)"
  by (cases t) (simp_all add: tight_def is_ws_def demangled_vector del: demangled.simps(14))

lemma tight_spelled: "tight (spelled t)"
  by (cases t) (simp_all add: tight_def is_ws_def)

lemma bare_type_tight:
  assumes "tight s" "plain_text s s'" "tight s'"
  shows "bare_type s = s'"
proof -
  have "trim_str s = s" "trim_str s' = s'" using assms by (simp_all add: tight_def trim_str_id)
  moreover have "replace_all ''std::__cxx11::'' ''std::'' s = s'"
    using assms(2) unfolding plain_text_def by (metis append_Nil2 replace_all.simps(1))
  ultimately show ?thesis
    using assms(3) by (simp add: bare_type_def trim_back_id tight_def)
qed

lemma bare_demangled: "bare_type (demangled cxx t) = demangled False t"
  by (intro bare_type_tight tight_demangled plain_demangled)

lemma bare_spelled: "bare_type (spelled t) = spelled t"
  by (intro bare_type_tight tight_spelled plain_spelled)

text \<open>Text that the search for top-level commas takes as a whole, from some depth on.\<close>

definition whole :: "int \<Rightarrow> string \<Rightarrow> bool" where
  "whole k xs \<longleftrightarrow> (\<forall>d cur ys. k \<le> d \<longrightarrow> split_scan d False cur (xs @ ys) = split_scan d False (cur @ xs) ys)"

lemma whole_append: "whole k xs \<Longrightarrow> whole k ys \<Longrightarrow> whole k (xs @ ys)"
  by (simp add: whole_def)

lemma whole_mono: "whole k xs \<Longrightarrow> k \<le> k' \<Longrightarrow> whole k' xs"
  by (simp add: whole_def)

definition calm :: "char \<Rightarrow> bool" where
  "calm c \<longleftrightarrow> c \<noteq> QUOTE \<and> c \<noteq> LESS \<and> c \<noteq> GREATER \<and> c \<noteq> CHR 0x28 \<and> c \<noteq> CHR 0x29"

lemma whole_char: "calm c \<Longrightarrow> 0 < k \<or> c \<noteq> COMMA \<Longrightarrow> 0 \<le> k \<Longrightarrow> whole k [c]"
  by (auto simp: whole_def calm_def Let_def)

lemma whole_calm:
  assumes "\<forall>c\<in>set xs. calm c \<and> (0 < k \<or> c \<noteq> COMMA)" "0 \<le> k"
  shows "whole k xs"
  using assms(1)
proof (induction xs)
  case Nil
  then show ?case by (simp add: whole_def)
next
  case (Cons c xs)
  then have "whole k ([c] @ xs)" using assms(2) by (intro whole_append whole_char) auto
  then show ?case by simp
qed

lemma whole_brackets:
  assumes "whole (k + 1) xs"
  shows "whole k (LESS # xs @ [GREATER])"
proof -
  have "split_scan d False cur (LESS # xs @ GREATER # ys) = split_scan d False (cur @ LESS # xs @ [GREATER]) ys"
    if "k \<le> d" for d cur ys
  proof -
    have "split_scan d False cur (LESS # xs @ GREATER # ys) = split_scan (d + 1) False (cur @ [LESS]) (xs @ GREATER # ys)"
      by (simp add: Let_def)
    also have "\<dots> = split_scan (d + 1) False (cur @ [LESS] @ xs) (GREATER # ys)"
      using assms that by (simp add: whole_def)
    finally show ?thesis by (simp add: Let_def)
  qed
  then show ?thesis by (simp add: whole_def)
qed

lemma whole_decimal:
  assumes "0 \<le> k" shows "whole k (decimal n)"
proof (rule whole_calm [OF _ assms], intro ballI)
  fix c assume "c \<in> set (decimal n)"
  then have "is_digit c" using decimal_digits by blast
  then show "calm c \<and> (0 < k \<or> c \<noteq> COMMA)" by (auto simp: calm_def is_digit_def)
qed

lemma whole_spelled: "0 \<le> k \<Longrightarrow> whole k (spelled t)"
proof (induction t arbitrary: k)
  case (CVector t)
  have "whole k (''std::vector'' @ (LESS # spelled t @ [GREATER]))"
    using CVector by (intro whole_append whole_brackets) (auto intro: whole_calm simp: calm_def)
  then show ?case by simp
next
  case (CArray t n)
  have "whole k (''std::array'' @ (LESS # (spelled t @ '', '' @ decimal n) @ [GREATER]))"
    using CArray by (intro whole_append whole_brackets whole_decimal) (auto intro!: whole_calm simp: calm_def)
  then show ?case by simp
qed (auto intro!: whole_calm simp: calm_def)

lemma whole_demangled: "0 \<le> k \<Longrightarrow> whole k (demangled False t)"
proof (induction t arbitrary: k)
  case CStdString
  have "whole k (''std::basic_string'' @ (LESS # (''char, std::char_traits'' @ (LESS # ''char'' @ [GREATER]) @ '', std::allocator''
      @ (LESS # ''char'' @ [GREATER]) @ '' '') @ [GREATER]))"
    using CStdString by (intro whole_append whole_brackets) (auto intro!: whole_calm simp: calm_def)
  then show ?case by simp
next
  case (CVector t)
  have "whole k (''std::vector'' @ (LESS # (demangled False t @ '', std::allocator'' @ (LESS # (demangled False t @
      (if closes t then '' '' else '''')) @ [GREATER]) @ '' '') @ [GREATER]))"
    using CVector by (intro whole_append whole_brackets) (auto intro!: whole_calm simp: calm_def)
  then show ?case unfolding demangled_vector by (cases "closes t") simp_all
next
  case (CArray t n)
  have "whole k (''std::array'' @ (LESS # (demangled False t @ '', '' @ decimal n @ ''ul'') @ [GREATER]))"
    using CArray by (intro whole_append whole_brackets whole_decimal) (auto intro!: whole_calm simp: calm_def)
  then show ?case by simp
qed (auto intro!: whole_calm simp: calm_def)

lemma split_one: "whole 0 xs \<Longrightarrow> split_top xs = [xs]"
proof -
  assume "whole 0 xs"
  then have "split_scan 0 False [] (xs @ []) = split_scan 0 False ([] @ xs) []"
    unfolding whole_def by blast
  then show ?thesis by (simp add: split_top_def)
qed

lemma split_pair:
  assumes "whole 0 xs" "whole 0 ys"
  shows "split_top (xs @ COMMA # ys) = [xs, ys]"
proof -
  have "split_scan 0 False [] (xs @ COMMA # ys) = split_scan 0 False xs (COMMA # ys)"
    using assms(1) by (simp add: whole_def)
  moreover have "split_scan 0 False [] (ys @ []) = split_scan 0 False ([] @ ys) []"
    using assms(2) unfolding whole_def by blast
  ultimately show ?thesis by (simp add: split_top_def Let_def)
qed

lemma canonical_vector:
  assumes "bare_type s = ''std::vector<'' @ xs @ [GREATER]"
  shows "canonical_type s = ''std::vector<'' @ canonical_type (hd (split_top xs)) @ [GREATER]"
  by (subst canonical_type.simps) (simp add: assms starts_with_def)

lemma canonical_array:
  assumes "bare_type s = ''std::array<'' @ xs @ [GREATER]" "split_top xs = [a, b]"
  shows "canonical_type s = ''std::array<'' @ canonical_type a @ '', '' @
    trim_back (\<lambda>c. c = CHR 0x75 \<or> c = CHR 0x6C) (trim_str b) @ [GREATER]"
  by (subst canonical_type.simps) (simp add: assms starts_with_def Let_def)

lemma trim_size:
  "trim_back (\<lambda>c. c = CHR 0x75 \<or> c = CHR 0x6C) (trim_str ('' '' @ decimal n)) = decimal n"
  "trim_back (\<lambda>c. c = CHR 0x75 \<or> c = CHR 0x6C) (trim_str ('' '' @ decimal n @ ''ul'')) = decimal n"
proof -
  have d: "is_digit (hd (decimal n))" "is_digit (last (decimal n))" "decimal n \<noteq> []"
    using decimal_digits [of n] decimal_nonempty [of n] by simp_all
  then have nw: "\<not> is_ws (hd (decimal n))" "\<not> is_ws (last (decimal n))"
    "last (decimal n) \<noteq> CHR 0x75" "last (decimal n) \<noteq> CHR 0x6C"
    by (auto simp: is_ws_def is_digit_def)
  have drop_ws: "trim_str ('' '' @ s) = trim_str s" for s by (simp add: trim_str_def is_ws_def)
  have "trim_str (decimal n @ ''ul'') = decimal n @ ''ul''"
    using nw(1) d(3) by (intro trim_str_id) (simp_all add: is_ws_def)
  moreover have "trim_back P (xs @ [c]) = trim_back P xs" if "P c" for P and xs :: string and c
    using that by (simp add: trim_back_def)
  from this [of _ "l" "decimal n @ ''u''" for l] this [of _ "u" "decimal n" for u]
  have "trim_back (\<lambda>c. c = CHR 0x75 \<or> c = CHR 0x6C) (decimal n @ ''ul'') = trim_back (\<lambda>c. c = CHR 0x75 \<or> c = CHR 0x6C) (decimal n)"
    by (simp add: trim_back_def)
  ultimately show "trim_back (\<lambda>c. c = CHR 0x75 \<or> c = CHR 0x6C) (trim_str ('' '' @ decimal n @ ''ul'')) = decimal n"
    using nw d(3) by (simp only: drop_ws) (simp add: trim_back_id)
  show "trim_back (\<lambda>c. c = CHR 0x75 \<or> c = CHR 0x6C) (trim_str ('' '' @ decimal n)) = decimal n"
    using nw d(3) by (simp only: drop_ws) (simp add: trim_back_id trim_str_id)
qed

lemmas bare_spelled_names =
  bare_spelled [of CBool, simplified]
  bare_spelled [of CChar, simplified]
  bare_spelled [of CFloat, simplified]
  bare_spelled [of CDouble, simplified]
  bare_spelled [of CInt8, simplified]
  bare_spelled [of CUInt8, simplified]
  bare_spelled [of CInt16, simplified]
  bare_spelled [of CUInt16, simplified]
  bare_spelled [of CInt32, simplified]
  bare_spelled [of CUInt32, simplified]
  bare_spelled [of CInt64, simplified]
  bare_spelled [of CUInt64, simplified]
  bare_spelled [of CStdString, simplified]

lemmas bare_demangled_names =
  bare_demangled [of cxx CBool, simplified]
  bare_demangled [of cxx CChar, simplified]
  bare_demangled [of cxx CFloat, simplified]
  bare_demangled [of cxx CDouble, simplified]
  bare_demangled [of cxx CInt8, simplified]
  bare_demangled [of cxx CUInt8, simplified]
  bare_demangled [of cxx CInt16, simplified]
  bare_demangled [of cxx CUInt16, simplified]
  bare_demangled [of cxx CInt32, simplified]
  bare_demangled [of cxx CUInt32, simplified]
  bare_demangled [of cxx CInt64, simplified]
  bare_demangled [of cxx CUInt64, simplified]
  bare_demangled [of cxx CStdString, simplified] for cxx

lemma split_array: "split_top (spelled t @ COMMA # '' '' @ decimal n) = [spelled t, '' '' @ decimal n]"
proof -
  have "whole 0 ('' '' @ decimal n)" by (intro whole_append whole_decimal whole_calm) (auto simp: calm_def)
  then show ?thesis by (rule split_pair [OF whole_spelled [OF order_refl]])
qed

lemma canonical_spelled: "canonical_type (spelled t) = spelled t"
proof (induction t)
  case (CVector t)
  have "split_top (spelled t) = [spelled t]" by (simp add: split_one whole_spelled)
  with canonical_vector [of "spelled (CVector t)" "spelled t"] bare_spelled [of "CVector t"] CVector
  show ?case by simp
next
  case (CArray t n)
  note split = split_array [of t n]
  from canonical_array [OF _ split, of "spelled (CArray t n)"] bare_spelled [of "CArray t n"] CArray trim_size(1) [of n]
  show ?case by simp
qed (subst canonical_type.simps, simp add: bare_spelled_names starts_with_def)+

lemma canonical_demangled: "canonical_type (demangled cxx t) = spelled t"
proof (induction t arbitrary: cxx)
  case (CVector t)
  define close where "close = (if closes t then '' '' else '''')"
  define alloc where "alloc = '' std::allocator'' @ (LESS # (demangled False t @ close) @ [GREATER]) @ '' ''"
  have e: "demangled False (CVector t) = ''std::vector<'' @ (demangled False t @ COMMA # alloc) @ [GREATER]"
    unfolding demangled_vector by (simp add: alloc_def close_def)
  have "whole 0 alloc"
    unfolding alloc_def close_def by (intro whole_append whole_brackets whole_demangled) (auto intro!: whole_calm simp: calm_def)
  then have "split_top (demangled False t @ COMMA # alloc) = [demangled False t, alloc]"
    by (rule split_pair [OF whole_demangled [OF order_refl]])
  with canonical_vector [OF bare_demangled [of cxx "CVector t", unfolded e]] CVector show ?case by simp
next
  case (CArray t n)
  have e: "demangled False (CArray t n) = ''std::array<'' @ (demangled False t @ COMMA # '' '' @ decimal n @ ''ul'') @ [GREATER]"
    by simp
  have "whole 0 ('' '' @ decimal n @ ''ul'')" by (intro whole_append whole_decimal whole_calm) (auto simp: calm_def)
  then have "split_top (demangled False t @ COMMA # '' '' @ decimal n @ ''ul'') = [demangled False t, '' '' @ decimal n @ ''ul'']"
    by (rule split_pair [OF whole_demangled [OF order_refl]])
  from canonical_array [OF bare_demangled [of cxx "CArray t n", unfolded e] this] CArray trim_size(2) [of n]
  show ?case by simp
qed (subst canonical_type.simps, simp add: bare_demangled_names starts_with_def)+

lemma decimal_inj: "decimal m = decimal n \<Longrightarrow> m = n"
  using decimal_value_decimal by metis

lemma spelled_inj: "spelled t = spelled t' \<Longrightarrow> t = t'"
proof (induction t arbitrary: t')
  case (CVector t)
  then show ?case by (cases t') auto
next
  case (CArray t n)
  show ?case
  proof (cases t')
    case (CArray t2 n2)
    with CArray.prems have "(spelled t @ COMMA # '' '' @ decimal n) @ [GREATER] = (spelled t2 @ COMMA # '' '' @ decimal n2) @ [GREATER]"
      by simp
    then have "spelled t @ COMMA # '' '' @ decimal n = spelled t2 @ COMMA # '' '' @ decimal n2"
      by (simp only: append_same_eq)
    then have "[spelled t, '' '' @ decimal n] = [spelled t2, '' '' @ decimal n2]"
      using split_array by metis
    with CArray CArray.IH show ?thesis by (auto dest: decimal_inj)
  qed (use CArray.prems in simp_all)
qed (case_tac t', simp_all)+

text \<open>
  C36. For the scalars, the strings and the vectors and arrays of these, nested to any depth: whatever of these types an
  instrument declares and whatever the compiler calls the type of a value, the two are reduced to the same name exactly
  when they are the same type.
\<close>

theorem canonical_type_decides:
  "(canonical_type (demangled True t) = canonical_type (spelled t') \<longleftrightarrow> t = t') \<and>
   (canonical_type (demangled True t) = canonical_type (demangled True t') \<longleftrightarrow> t = t')"
  using spelled_inj [of t t'] by (auto simp: canonical_demangled canonical_spelled)

text \<open>
  Two spellings go wrong: \<open>signed int\<close> is taken for an 8-bit integer, and the type of a C string,
  which the client receives as a \<open>std::string\<close>, keeps its own name.
\<close>

lemma canonical_signed_int: "canonical_type ''signed int'' = ''int8_t'' \<and> canonical_type ''int'' = ''int32_t''"
  by (simp add: canonical_type.simps bare_type_def trim_str_def trim_back_def is_ws_def)

lemma canonical_c_string: "canonical_type ''const char *'' = ''const char *''"
  by (subst canonical_type.simps) (simp add: bare_type_def trim_str_def trim_back_def is_ws_def starts_with_def)

end
