(* ===== verification/Koheron_Client.thy ===== *)
theory Koheron_Client
  imports Session Client_Types
begin

text \<open>
  The C++ client (\<open>class KoheronClient\<close>): calling an operation by its number or by its name with the
  checks against the downloaded table, sending the command, receiving and decoding the reply; and the
  server's side of a reply, \<open>Session::send\<close>. Their composition over a connection is the remote call
  whose correctness is the last property.
\<close>

section \<open>The client\<close>

text \<open>
  What ends a call instead of a result: the exceptions \<open>socket_error\<close>, \<open>op_check_error\<close> (one
  constructor per reason; the text of the message is not modelled) and \<open>std::length_error\<close>, and the
  assertions, which are compiled in.
\<close>

datatype client_error =
    Cannot_send | Connection_closed | Cannot_receive | Length_error | Assertion_failed
  | Func_not_served u32 | Class_not_served u32
  | Op_not_served u32 | Name_mismatch u32 | Wrong_arg_count u32 | Wrong_arg_type u32 nat | Wrong_ret_type u32
  | No_context | Not_declared string | Id_mismatch u32

record 'c client =
  sock :: 'c
  op_table :: "OpTable option"
  last_class_id :: u16
  last_func_id :: u16
  rcv_buffer :: "u8 list"
  send_buffer :: "u8 list"
  serializer :: dynamic_serializer

section \<open>Checks against the table\<close>

definition check_served :: "OpTable option \<Rightarrow> u16 \<Rightarrow> u16 \<Rightarrow> client_error option" where
  "check_served table class_id func_id =
     (case table of
        None \<Rightarrow> None
      | Some t \<Rightarrow>
          let k = push_bit 16 (ucast class_id) OR ucast func_id
          in if OpTable_find t k \<noteq> None then None
             else if has_class t class_id then Some (Func_not_served k) else Some (Class_not_served k))"

text \<open>A null pointer and the empty name are one case.\<close>

definition check_op_name :: "OpTable option \<Rightarrow> u32 \<Rightarrow> string \<Rightarrow> client_error option" where
  "check_op_name table k name =
     (case table of
        None \<Rightarrow> None
      | Some t \<Rightarrow>
          (case OpTable_find t k of
             None \<Rightarrow> Some (Op_not_served k)
           | Some e \<Rightarrow>
               if name = [] then None
               else if op_func_name e \<noteq> name \<and> op_class_name e @ ''::'' @ op_func_name e \<noteq> name then Some (Name_mismatch k)
               else None))"

text \<open>
  \<open>type_str<T>\<close> is the canonical form of the name the runtime's demangler gives \<open>T\<close>; the demangled
  names are arguments here.
\<close>

definition type_str :: "string \<Rightarrow> string" where
  "type_str demangled_name = canonical_type demangled_name"

fun arg_mismatch :: "nat \<Rightarrow> string list \<Rightarrow> string list \<Rightarrow> nat option" where
  "arg_mismatch i (want # wants) (got # gots) =
     (if want \<noteq> [] \<and> got \<noteq> [] \<and> got \<noteq> canonical_type want then Some i else arg_mismatch (Suc i) wants gots)"
| "arg_mismatch i _ _ = None"

definition check_arg_types :: "OpTable option \<Rightarrow> u32 \<Rightarrow> string list \<Rightarrow> client_error option" where
  "check_arg_types table k names =
     (case Option.bind table (\<lambda>t. OpTable_find t k) of
        None \<Rightarrow> None
      | Some e \<Rightarrow>
          if length names \<noteq> length (op_args e) then Some (Wrong_arg_count k)
          else map_option (Wrong_arg_type k) (arg_mismatch 0 (op_args e) (map type_str names)))"

definition check_ret_types :: "OpTable option \<Rightarrow> u32 \<Rightarrow> string list \<Rightarrow> client_error option" where
  "check_ret_types table k names =
     (case Option.bind table (\<lambda>t. OpTable_find t k) of
        None \<Rightarrow> None
      | Some e \<Rightarrow>
          if op_ret_type e = [] \<or> length names \<noteq> 1 then None
          else if type_str (hd names) = [] then None
          else if type_str (hd names) \<noteq> canonical_type (op_ret_type e) then Some (Wrong_ret_type k)
          else None)"

definition op_id :: "OpTable option \<Rightarrow> string \<Rightarrow> client_error + u32" where
  "op_id table class_func =
     (case table of
        None \<Rightarrow> Inl No_context
      | Some t \<Rightarrow> (case by_name t class_func of None \<Rightarrow> Inl (Not_declared class_func) | Some e \<Rightarrow> Inr (op_key e)))"

text \<open>The checks of single operations against the text of the context.\<close>

definition check_op :: "string \<Rightarrow> u32 \<Rightarrow> string \<Rightarrow> string \<Rightarrow> client_error option" where
  "check_op json k class_name func_name =
     (case find_op_in_json json class_name func_name of
        None \<Rightarrow> Some (Not_declared (class_name @ ''::'' @ func_name))
      | Some (server_class_id, server_func_id) \<Rightarrow>
          if server_class_id \<noteq> ucast (drop_bit 16 k) \<or> server_func_id \<noteq> ucast (k AND 0xFFFF) then Some (Id_mismatch k)
          else None)"

definition check_ops :: "string \<Rightarrow> (string \<times> string \<times> u32) list \<Rightarrow> client_error list" where
  "check_ops json ops = List.map_filter (\<lambda>(class_name, func_name, k). check_op json k class_name func_name) ops"

section \<open>Sending a command\<close>

text \<open>\<open>send\<close> looks only at the sign of what \<open>::send\<close> returns, cut to an \<open>int\<close>.\<close>

definition client_send :: "'c writer \<Rightarrow> 'c client \<Rightarrow> client_error option \<times> 'c client" where
  "client_send wr c =
     (case wr (sock c) (send_buffer c) of (n, s) \<Rightarrow>
        (if c_int n < 0 then Some Cannot_send else None, c\<lparr>sock := s\<rparr>))"

text \<open>\<open>None\<close>: the scalars of the command do not fit the array of the serializer.\<close>

definition client_call ::
  "'c writer \<Rightarrow> u16 \<Rightarrow> u16 \<Rightarrow> argument list \<Rightarrow> 'c client \<Rightarrow> (client_error option \<times> 'c client) option" where
  "client_call wr class_id func_id args c =
     (case check_served (op_table c) class_id func_id of
        Some e \<Rightarrow> Some (Some e, c)
      | None \<Rightarrow>
          map_option (\<lambda>(buffer, ds). client_send wr
              (c\<lparr>last_class_id := class_id, last_func_id := func_id, send_buffer := buffer, serializer := ds\<rparr>))
            (build_command class_id func_id args (serializer c)))"

definition ids_of :: "u32 \<Rightarrow> u16 \<times> u16" where
  "ids_of k = (ucast (drop_bit 16 k), ucast (k AND 0xFFFF))"

definition call_id :: "'c writer \<Rightarrow> u32 \<Rightarrow> argument list \<Rightarrow> 'c client \<Rightarrow> (client_error option \<times> 'c client) option" where
  "call_id wr k args c = client_call wr (fst (ids_of k)) (snd (ids_of k)) args c"

definition call_n ::
  "'c writer \<Rightarrow> u32 \<Rightarrow> string \<Rightarrow> string list \<Rightarrow> argument list \<Rightarrow> 'c client \<Rightarrow> (client_error option \<times> 'c client) option" where
  "call_n wr k func_name names args c =
     (case check_op_name (op_table c) k func_name of
        Some e \<Rightarrow> Some (Some e, c)
      | None \<Rightarrow> (case check_arg_types (op_table c) k names of
                   Some e \<Rightarrow> Some (Some e, c)
                 | None \<Rightarrow> call_id wr k args c))"

definition call_by_name ::
  "'c writer \<Rightarrow> string \<Rightarrow> string list \<Rightarrow> argument list \<Rightarrow> 'c client \<Rightarrow> (client_error option \<times> 'c client) option" where
  "call_by_name wr class_func names args c =
     (case op_id (op_table c) class_func of
        Inl e \<Rightarrow> Some (Some e, c)
      | Inr k \<Rightarrow> (case check_arg_types (op_table c) k names of
                    Some e \<Rightarrow> Some (Some e, c)
                  | None \<Rightarrow> client_call wr (ucast (drop_bit 16 k)) (ucast (k AND 0xFFFF)) args c))"

section \<open>Receiving a reply\<close>

function recv_loop :: "'c reader \<Rightarrow> nat \<Rightarrow> u8 list \<Rightarrow> 'c \<Rightarrow> client_error option \<times> u8 list \<times> 'c" where
  "recv_loop rd n buffer s =
     (if length buffer < n then
        case rd s (n - length buffer) of
          (None, s) \<Rightarrow> (Some Cannot_receive, buffer, s)
        | (Some bs, s) \<Rightarrow>
            if bs = [] then (Some Connection_closed, buffer, s) else recv_loop rd n (buffer @ bs) s
      else (None, buffer, s))"
  by auto

termination
  by (relation "measure (\<lambda>(_, n, buffer, _). n - length buffer)") (auto simp: length_greater_0_conv [symmetric] simp del: length_greater_0_conv)

declare recv_loop.simps [simp del]

text \<open>
  The count is an \<open>int\<close>: a negative one is an impossible size for \<open>resize\<close>. The buffer is resized
  first, what is received then replaces its start.
\<close>

definition recv_all :: "'c reader \<Rightarrow> int \<Rightarrow> 'c client \<Rightarrow> client_error option \<times> 'c client" where
  "recv_all rd n_bytes c =
     (if n_bytes < 0 then (Some Length_error, c)
      else
        let n = nat n_bytes;
            resized = take n (rcv_buffer c) @ replicate (n - length (rcv_buffer c)) 0
        in case recv_loop rd n [] (sock c) of (err, bs, s) \<Rightarrow>
             (err, c\<lparr>rcv_buffer := bs @ drop (length bs) resized, sock := s\<rparr>))"

definition check_returned_header :: "'c client \<Rightarrow> bool" where
  "check_returned_header c \<longleftrightarrow>
     deserialize 0 [TUInt32, TUInt16, TUInt16] (rcv_buffer c) = [UInt32 0, UInt16 (last_class_id c), UInt16 (last_func_id c)]"

definition get_payload_dynamic :: "'c reader \<Rightarrow> 'c client \<Rightarrow> client_error option \<times> 'c client" where
  "get_payload_dynamic rd c =
     (case recv_all rd 12 c of
        (Some e, c) \<Rightarrow> (Some e, c)
      | (None, c) \<Rightarrow>
          if \<not> check_returned_header c then (Some Assertion_failed, c)
          else recv_all rd (c_int (case deserialize 8 [TUInt32] (rcv_buffer c) of [UInt32 n] \<Rightarrow> uint n | _ \<Rightarrow> 0)) c)"

text \<open>
  By the type asked for: scalars and tuples, \<open>std::array\<close>, \<open>std::vector\<close>, \<open>std::string\<close>. A pack of one is a scalar or a
  tuple of one element; a bare complex number has no overload, so that a pack of one complex number is the tuple.
\<close>

fun command_deserializer :: "'c reader \<Rightarrow> argument_type \<Rightarrow> 'c client \<Rightarrow> (client_error + item) \<times> 'c client" where
  "command_deserializer rd (TPack ts) c =
     (case recv_all rd (c_int (int (8 + required_buffer_size ts))) c of
        (Some e, c) \<Rightarrow> (Inl e, c)
      | (None, c) \<Rightarrow> (if \<not> check_returned_header c then Inl Assertion_failed
                      else Inr (Pack (deserialize 8 ts (rcv_buffer c))), c))"
| "command_deserializer rd (TArray n) c =
     (case recv_all rd (c_int (int (8 + n))) c of
        (Some e, c) \<Rightarrow> (Inl e, c)
      | (None, c) \<Rightarrow> (if \<not> check_returned_header c then Inl Assertion_failed
                      else Inr (ArrayOf (take n (drop 8 (rcv_buffer c)))), c))"
| "command_deserializer rd (TVector sizeof_T) c =
     (case get_payload_dynamic rd c of
        (Some e, c) \<Rightarrow> (Inl e, c)
      | (None, c) \<Rightarrow> (Inr (VectorOf sizeof_T (take (length (rcv_buffer c) div sizeof_T * sizeof_T) (rcv_buffer c))), c))"
| "command_deserializer rd TString c =
     (case get_payload_dynamic rd c of
        (Some e, c) \<Rightarrow> (Inl e, c)
      | (None, c) \<Rightarrow> (Inr (StringOf (rcv_buffer c)), c))"

definition recv_rt :: "'c reader \<Rightarrow> u32 \<Rightarrow> string list \<Rightarrow> argument_type \<Rightarrow> 'c client \<Rightarrow> (client_error + item) \<times> 'c client" where
  "recv_rt rd k names t c =
     (case check_served (op_table c) (ucast (drop_bit 16 k)) (ucast (k AND 0xFFFF)) of
        Some e \<Rightarrow> (Inl e, c)
      | None \<Rightarrow> (case check_ret_types (op_table c) k names of
                   Some e \<Rightarrow> (Inl e, c)
                 | None \<Rightarrow> command_deserializer rd t c))"

definition recv_n :: "'c reader \<Rightarrow> u32 \<Rightarrow> string \<Rightarrow> string list \<Rightarrow> argument_type \<Rightarrow> 'c client \<Rightarrow> (client_error + item) \<times> 'c client" where
  "recv_n rd k func_name names t c =
     (case check_op_name (op_table c) k func_name of
        Some e \<Rightarrow> (Inl e, c)
      | None \<Rightarrow> (case check_ret_types (op_table c) k names of
                   Some e \<Rightarrow> (Inl e, c)
                 | None \<Rightarrow> command_deserializer rd t c))"

definition recv_by_name :: "'c reader \<Rightarrow> string \<Rightarrow> string list \<Rightarrow> argument_type \<Rightarrow> 'c client \<Rightarrow> (client_error + item) \<times> 'c client" where
  "recv_by_name rd class_func names t c =
     (case op_id (op_table c) class_func of Inl e \<Rightarrow> (Inl e, c) | Inr k \<Rightarrow> recv_rt rd k names t c)"

section \<open>The server's side of a reply\<close>

text \<open>\<open>status\<close>, the serializer and the file descriptor of \<open>Session<TCP>\<close>.\<close>

record 'w sender =
  snd_fd :: 'w
  snd_serializer :: dynamic_serializer
  snd_buffer :: "u8 list"
  opened :: bool

text \<open>The length is an \<open>unsigned int\<close>, the count the system returns an \<open>int\<close>.\<close>

definition tcp_write :: "'w writer \<Rightarrow> u8 list \<Rightarrow> 'w \<Rightarrow> int \<times> 'w" where
  "tcp_write wr data w =
     (let bytes_send = unat (of_nat (length data) :: u32)
      in case wr w (take bytes_send data) of (n, w) \<Rightarrow>
           let n_bytes_send = c_int n
           in if n_bytes_send = 0 then (0, w)
              else if n_bytes_send < 0 then (- 1, w)
              else if n_bytes_send \<noteq> c_int (int bytes_send) then (- 1, w)
              else (c_int (int bytes_send), w))"

definition ws_write :: "'w writer \<Rightarrow> u8 list \<Rightarrow> 'w websocket \<Rightarrow> int \<times> 'w websocket" where
  "ws_write wr data ws = ws_send wr (take (unat (of_nat (length data) :: u32)) data) ws"

text \<open>\<open>put\<close> is one of the two.\<close>

definition session_send ::
  "(u8 list \<Rightarrow> 'w \<Rightarrow> int \<times> 'w) \<Rightarrow> u16 \<Rightarrow> u16 \<Rightarrow> argument list \<Rightarrow> 'w sender \<Rightarrow> (int \<times> 'w sender) option" where
  "session_send put class_id func_id args s =
     map_option (\<lambda>(buffer, ds).
         case put buffer (snd_fd s) of (bytes_send, w) \<Rightarrow>
           (bytes_send, s\<lparr>snd_fd := w, snd_serializer := ds, snd_buffer := buffer,
              opened := (if bytes_send = 0 then False else opened s)\<rparr>))
       (build_command class_id func_id args (snd_serializer s))"

text \<open>
  The generated code of an operation: receive the arguments, call the driver, and send back what it
  returns; an operation without a result sends nothing and returns 0.
\<close>

definition execute_reply ::
  "'s channel \<Rightarrow> (u8 list \<Rightarrow> 'w \<Rightarrow> int \<times> 'w) \<Rightarrow> (u16 \<times> u16 \<Rightarrow> argument_type list) \<Rightarrow>
   (u16 \<times> u16 \<Rightarrow> item list \<Rightarrow> 'd \<Rightarrow> item option \<times> 'd) \<Rightarrow>
   u16 \<times> u16 \<Rightarrow> 's \<times> 'd \<times> 'w sender \<Rightarrow> (int \<times> 's \<times> 'd \<times> 'w sender) option" where
  "execute_reply ch put types op ids = (\<lambda>(s, d, out).
     Option.bind (receive_all ch (types ids) s) (\<lambda>(xs, s). case xs of
         None \<Rightarrow> Some (- 1, s, d, out)
       | Some xs \<Rightarrow> (case op ids xs d of
             (None, d) \<Rightarrow> Some (0, s, d, out)
           | (Some v, d) \<Rightarrow> map_option (\<lambda>(r, out). (r, s, d, out))
                              (session_send put (fst ids) (snd ids) (arguments_of v) out))))"


section \<open>A remote call\<close>

text \<open>
  The two directions of a connection: a pipe takes everything written to it, hands it out in any
  pieces, and reports the end when it is asked with nothing left. The client's socket is a pair of
  pipes, the first of which the session reads and the second of which it writes.
\<close>

definition byte_pipe :: "'p writer \<Rightarrow> 'p reader \<Rightarrow> ('p \<Rightarrow> u8 list) \<Rightarrow> bool" where
  "byte_pipe wr rd pending \<longleftrightarrow> byte_source rd pending \<and> ends rd pending \<and>
     (\<forall>p bs. \<exists>p'. wr p bs = (int (length bs), p') \<and> pending p' = pending p @ bs)"

definition write_end :: "'p writer \<Rightarrow> ('p \<times> 'q) writer" where
  "write_end wr = (\<lambda>(p, q) bs. case wr p bs of (n, p) \<Rightarrow> (n, (p, q)))"

definition read_end :: "'q reader \<Rightarrow> ('p \<times> 'q) reader" where
  "read_end rd = (\<lambda>(p, q) n. case rd q n of (r, q) \<Rightarrow> (r, (p, q)))"

text \<open>One turn of the session's loop: read a command and have it executed.\<close>

definition serve_one ::
  "'s channel \<Rightarrow> (u16 \<times> u16 \<Rightarrow> 's \<times> 'd \<Rightarrow> (int \<times> 's \<times> 'd) option) \<Rightarrow> 's \<times> 'd \<Rightarrow> ('s \<times> 'd) option" where
  "serve_one ch execute st =
     Option.bind (ch_read_command ch (fst st)) (\<lambda>(n, ids, s).
       if n \<le> 0 then None else map_option snd (execute ids (s, snd st)))"

text \<open>
  A call through the client: the command is sent, the session at the other end serves it, and where a
  result is asked for the reply is received. \<open>v\<close> is the driver.
\<close>

definition remote_call ::
  "target \<Rightarrow> 'p writer \<Rightarrow> 'p reader \<Rightarrow> 'q writer \<Rightarrow> 'q reader \<Rightarrow> (nat \<Rightarrow> u8 list) \<Rightarrow> (u16 \<times> u16 \<Rightarrow> argument_type list) \<Rightarrow>
   (u16 \<times> u16 \<Rightarrow> item list \<Rightarrow> 'd \<Rightarrow> item option \<times> 'd) \<Rightarrow>
   (u16 \<times> u16) \<times> item list \<times> argument_type option \<Rightarrow> ('p \<times> 'q) client \<times> 'd \<times> 'q sender \<Rightarrow>
   ((client_error + item option) \<times> ('p \<times> 'q) client \<times> 'd \<times> 'q sender) option" where
  "remote_call tgt cwr srd swr crd junk types op = (\<lambda>(ids, xs, t) (c, d, out).
     Option.bind (client_call (write_end cwr) (fst ids) (snd ids) (concat (map arguments_of xs)) c) (\<lambda>(err, c).
       case err of
         Some e \<Rightarrow> Some (Inl e, c, d, out)
       | None \<Rightarrow>
           Option.bind (serve_one (tcp_channel tgt srd junk) (execute_reply (tcp_channel tgt srd junk) (tcp_write swr) types op)
               (fst (sock c), d, out\<lparr>snd_fd := snd (sock c)\<rparr>)) (\<lambda>(p, d, out).
             let c = c\<lparr>sock := (p, snd_fd out)\<rparr>
             in case t of
                  None \<Rightarrow> Some (Inr None, c, d, out)
                | Some t \<Rightarrow> (case command_deserializer (read_end crd) t c of
                              (r, c) \<Rightarrow> Some (map_sum (\<lambda>e. e) Some r, c, d, out)))))"

fun remote_calls ::
  "((u16 \<times> u16) \<times> item list \<times> argument_type option \<Rightarrow> 's \<Rightarrow> ((client_error + item option) \<times> 's) option) \<Rightarrow>
   ((u16 \<times> u16) \<times> item list \<times> argument_type option) list \<Rightarrow> 's \<Rightarrow> ((client_error + item option) list \<times> 's) option" where
  "remote_calls rpc [] s = Some ([], s)"
| "remote_calls rpc (q # qs) s = Option.bind (rpc q s) (\<lambda>(r, s). map_option (apfst ((#) r)) (remote_calls rpc qs s))"

text \<open>What the remote calls are to be: the operations of the driver, called here.\<close>

fun local_calls ::
  "(u16 \<times> u16 \<Rightarrow> item list \<Rightarrow> 'd \<Rightarrow> item option \<times> 'd) \<Rightarrow> ((u16 \<times> u16) \<times> item list \<times> argument_type option) list \<Rightarrow>
   'd \<Rightarrow> item option list \<times> 'd" where
  "local_calls op [] d = ([], d)"
| "local_calls op ((ids, xs, t) # qs) d = (case op ids xs d of (v, d) \<Rightarrow> apfst ((#) v) (local_calls op qs d))"

section \<open>What is required of calls and results\<close>

abbreviation (input) SCALAR_PACK_LEN :: nat where "SCALAR_PACK_LEN \<equiv> 1024"

fun result_ok :: "item \<Rightarrow> bool" where
  "result_ok (Pack vs) \<longleftrightarrow> vs \<noteq> []"
| "result_ok (ArrayOf bs) \<longleftrightarrow> True"
| "result_ok (VectorOf n bs) \<longleftrightarrow> 0 < n \<and> n dvd length bs"
| "result_ok (StringOf bs) \<longleftrightarrow> True"

text \<open>The command built from items, none of which overfills the pack of scalars, is below 2 GB.\<close>

definition sendable :: "u16 \<times> u16 \<Rightarrow> item list \<Rightarrow> bool" where
  "sendable ids xs \<longleftrightarrow> packs_fit SCALAR_PACK_LEN 0 (concat (map arguments_of xs)) \<and> length (request_bytes (ids, xs)) < 2 ^ 31"

definition call_ok ::
  "target \<Rightarrow> OpTable option \<Rightarrow> (u16 \<times> u16 \<Rightarrow> argument_type list) \<Rightarrow> (u16 \<times> u16) \<times> item list \<times> argument_type option \<Rightarrow> bool" where
  "call_ok tgt table types = (\<lambda>(ids, xs, t). check_served table (fst ids) (snd ids) = None \<and>
     types ids = map type_of_item xs \<and> (\<forall>x\<in>set xs. item_ok (tcp_limit tgt) x) \<and> sendable ids xs)"

definition op_ok :: "(u16 \<times> u16 \<Rightarrow> item list \<Rightarrow> 'd \<Rightarrow> item option \<times> 'd) \<Rightarrow> (u16 \<times> u16) \<times> item list \<times> argument_type option \<Rightarrow> bool" where
  "op_ok op = (\<lambda>(ids, xs, t). \<forall>d. (case fst (op ids xs d) of
     None \<Rightarrow> t = None | Some v \<Rightarrow> t = Some (type_of_item v) \<and> result_ok v \<and> sendable ids [v]))"

section \<open>The client's side\<close>

lemma argument_ok_small: "length (argument_bytes a) < 2 ^ 32 \<Longrightarrow> argument_ok a"
  by (cases a) simp_all

lemma items_argument_ok:
  assumes "length (request_bytes (ids, xs)) < 2 ^ 31"
  shows "\<forall>a\<in>set (concat (map arguments_of xs)). argument_ok a"
proof
  fix a assume a: "a \<in> set (concat (map arguments_of xs))"
  have "length (argument_bytes a) \<le> length (concat (map argument_bytes as))" if "a \<in> set as" for as
    using that by (induction as) auto
  from this [OF a] assms have "length (argument_bytes a) < 2 ^ 32"
    by (simp add: request_bytes_eq items_bytes_def del: request_bytes.simps)
  then show "argument_ok a" by (rule argument_ok_small)
qed

lemma build_request:
  assumes "sendable ids xs" "length (scal_data ds) = SCALAR_PACK_LEN"
  obtains ds' where "build_command (fst ids) (snd ids) (concat (map arguments_of xs)) ds = Some (request_bytes (ids, xs), ds')"
    "length (scal_data ds') = SCALAR_PACK_LEN"
proof -
  have "map_option fst (build_command (fst ids) (snd ids) (concat (map arguments_of xs)) ds) = Some (request_bytes (ids, xs))"
    using assms build_command_bytes [OF items_argument_ok [of ids xs], of "fst ids" "snd ids" ds]
    by (cases ids) (simp add: sendable_def)
  then obtain ds' where b: "build_command (fst ids) (snd ids) (concat (map arguments_of xs)) ds = Some (request_bytes (ids, xs), ds')"
    by (auto simp del: request_bytes.simps)
  from b build_command_keeps_pack [OF b] assms(2) that show ?thesis by simp
qed

lemma pipe_write:
  assumes "byte_pipe wr rd pending"
  obtains p' where "wr p bs = (int (length bs), p')" "pending p' = pending p @ bs"
  using assms unfolding byte_pipe_def by blast

lemma client_call_sends:
  assumes "byte_pipe wr rd pending" "check_served (op_table c) (fst ids) (snd ids) = None" "sendable ids xs"
    and "length (scal_data (serializer c)) = SCALAR_PACK_LEN" "sock c = (p, q)"
  obtains c' p' where "client_call (write_end wr) (fst ids) (snd ids) (concat (map arguments_of xs)) c = Some (None, c')"
    "sock c' = (p', q)" "pending p' = pending p @ request_bytes (ids, xs)" "op_table c' = op_table c"
    "last_class_id c' = fst ids" "last_func_id c' = snd ids" "length (scal_data (serializer c')) = SCALAR_PACK_LEN"
proof -
  obtain ds' where b: "build_command (fst ids) (snd ids) (concat (map arguments_of xs)) (serializer c) = Some (request_bytes (ids, xs), ds')"
    "length (scal_data ds') = SCALAR_PACK_LEN"
    by (rule build_request [OF assms(3,4)])
  obtain p' where p': "wr p (request_bytes (ids, xs)) = (int (length (request_bytes (ids, xs))), p')"
    "pending p' = pending p @ request_bytes (ids, xs)"
    by (rule pipe_write [OF assms(1)])
  have "\<not> c_int (int (length (request_bytes (ids, xs)))) < 0"
    using assms(3) by (subst c_int_small) (auto simp: sendable_def simp del: request_bytes.simps)
  with b p' that [of "c\<lparr>last_class_id := fst ids, last_func_id := snd ids, send_buffer := request_bytes (ids, xs),
      serializer := ds', sock := (p', q)\<rparr>" p'] assms(2,5) show ?thesis
    by (simp add: client_call_def client_send_def write_end_def del: request_bytes.simps)
qed

lemma recv_loop_exact:
  assumes "byte_source rd pending" "n \<le> length buffer + length (pending q)" "length buffer \<le> n"
  shows "\<exists>q'. recv_loop (read_end rd) n buffer (p, q) = (None, buffer @ take (n - length buffer) (pending q), (p, q')) \<and>
    pending q' = drop (n - length buffer) (pending q)"
  using assms(2,3)
proof (induction "n - length buffer" arbitrary: buffer q rule: less_induct)
  case less
  show ?case
  proof (cases "length buffer < n")
    case False
    with less.prems show ?thesis by (simp add: recv_loop.simps)
  next
    case True
    with less.prems have "pending q \<noteq> []" "0 < n - length buffer" by auto
    then obtain bs q1 where b: "rd q (n - length buffer) = (Some bs, q1)" "bs \<noteq> []" "length bs \<le> n - length buffer"
      "pending q = bs @ pending q1"
      using byte_sourceE [OF assms(1)] by blast
    have l: "n - length (buffer @ bs) < n - length buffer" using b True by (cases bs) auto
    have "recv_loop (read_end rd) n buffer (p, q) = recv_loop (read_end rd) n (buffer @ bs) (p, q1)"
      using b True by (subst recv_loop.simps) (simp add: read_end_def)
    moreover have "n \<le> length (buffer @ bs) + length (pending q1)" "length (buffer @ bs) \<le> n"
      using less.prems b True by auto
    ultimately show ?thesis
      using less.hyps [OF l] b by auto
  qed
qed

lemma recv_all_exact:
  assumes "byte_source rd pending" "sock c = (p, q)" "pending q = xs @ ys"
  obtains q' where "recv_all (read_end rd) (int (length xs)) c = (None, c\<lparr>rcv_buffer := xs, sock := (p, q')\<rparr>)" "pending q' = ys"
proof -
  obtain q' where "recv_loop (read_end rd) (length xs) [] (p, q) = (None, xs, (p, q'))" "pending q' = ys"
    using recv_loop_exact [OF assms(1), of "length xs" "[]" q p] assms(3) by auto
  with that assms(2) show ?thesis by (simp add: recv_all_def Let_def)
qed


definition header_bytes :: "u16 \<times> u16 \<Rightarrow> u8 list" where
  "header_bytes ids = append_u32 0 @ append_u16 (fst ids) @ append_u16 (snd ids)"

lemma length_header_bytes [simp]: "length (header_bytes ids) = 8"
  by (simp add: header_bytes_def)

lemma reply_bytes: "request_bytes (ids, [v]) = header_bytes ids @ concat (map argument_bytes (arguments_of v))"
  by (simp add: request_bytes_eq items_bytes_def header_bytes_def del: request_bytes.simps)

lemma header_checks:
  assumes "last_class_id c = fst ids" "last_func_id c = snd ids"
  shows "check_returned_header (c\<lparr>rcv_buffer := header_bytes ids @ xs, sock := s\<rparr>)"
  using deserialize_concat [of "[]" "[UInt32 0, UInt16 (fst ids), UInt16 (snd ids)]" xs] assms
  by (simp add: check_returned_header_def header_bytes_def del: deserialize.simps)

lemma receive_fixed:
  assumes "byte_source rd pending" "sock c = (p, q)" "pending q = header_bytes ids @ xs @ ys" "8 + length xs < 2 ^ 31"
    and "last_class_id c = fst ids" "last_func_id c = snd ids"
  obtains q' where "recv_all (read_end rd) (c_int (int (8 + length xs))) c =
      (None, c\<lparr>rcv_buffer := header_bytes ids @ xs, sock := (p, q')\<rparr>)" "pending q' = ys"
    "check_returned_header (c\<lparr>rcv_buffer := header_bytes ids @ xs, sock := (p, q')\<rparr>)"
proof -
  obtain q' where "recv_all (read_end rd) (int (length (header_bytes ids @ xs))) c =
      (None, c\<lparr>rcv_buffer := header_bytes ids @ xs, sock := (p, q')\<rparr>)" "pending q' = ys"
    by (rule recv_all_exact [OF assms(1,2), of "header_bytes ids @ xs" ys]) (simp add: assms(3))
  moreover have "c_int (int (8 + length xs)) = int (length (header_bytes ids @ xs))"
    using assms(4) by (subst c_int_small) simp_all
  ultimately show ?thesis using that header_checks [OF assms(5,6)] by simp
qed

lemma receive_dynamic:
  assumes "byte_source rd pending" "sock c = (p, q)" "length xs < 2 ^ 31"
    and "pending q = header_bytes ids @ append_u32 (of_nat (length xs)) @ xs @ ys"
    and "last_class_id c = fst ids" "last_func_id c = snd ids"
  obtains q' where "get_payload_dynamic (read_end rd) c = (None, c\<lparr>rcv_buffer := xs, sock := (p, q')\<rparr>)" "pending q' = ys"
proof -
  let ?len = "append_u32 (of_nat (length xs))"
  obtain q1 where q1: "recv_all (read_end rd) (c_int (int (8 + length ?len))) c =
      (None, c\<lparr>rcv_buffer := header_bytes ids @ ?len, sock := (p, q1)\<rparr>)" "pending q1 = xs @ ys"
    "check_returned_header (c\<lparr>rcv_buffer := header_bytes ids @ ?len, sock := (p, q1)\<rparr>)"
    by (rule receive_fixed [OF assms(1,2), of ids ?len "xs @ ys"]) (use assms(4-6) in simp_all)
  obtain q' where q': "recv_all (read_end rd) (int (length xs)) (c\<lparr>rcv_buffer := header_bytes ids @ ?len, sock := (p, q1)\<rparr>) =
      (None, c\<lparr>rcv_buffer := xs, sock := (p, q')\<rparr>)" "pending q' = ys"
    by (rule recv_all_exact [OF assms(1), of "c\<lparr>rcv_buffer := header_bytes ids @ ?len, sock := (p, q1)\<rparr>" p q1 xs ys])
      (use q1(2) in simp_all)
  have "deserialize 8 [TUInt32] (header_bytes ids @ ?len) = [UInt32 (of_nat (length xs))]"
    using deserialize_concat [of "header_bytes ids" "[UInt32 (of_nat (length xs))]" "[]"] by simp
  moreover have "c_int (uint (of_nat (length xs) :: u32)) = int (length xs)"
    using assms(3) by (simp add: uint_nat unat_of_nat_small c_int_small)
  moreover have "c_int (int (8 + length ?len)) = 12" by (simp add: c_int_small)
  ultimately show ?thesis
    using q1 q' that by (simp add: get_payload_dynamic_def del: deserialize.simps)
qed

lemma client_receives:
  assumes "byte_source rd pending" "sock c = (p, q)" "pending q = request_bytes (ids, [v]) @ ys"
    and "result_ok v" "sendable ids [v]" "last_class_id c = fst ids" "last_func_id c = snd ids"
  obtains buf q' where "command_deserializer (read_end rd) (type_of_item v) c = (Inr v, c\<lparr>rcv_buffer := buf, sock := (p, q')\<rparr>)"
    "pending q' = ys"
proof -
  have pend: "pending q = header_bytes ids @ concat (map argument_bytes (arguments_of v)) @ ys"
    and len: "8 + length (concat (map argument_bytes (arguments_of v))) < 2 ^ 31"
    using assms(3,5) by (simp_all add: reply_bytes sendable_def del: request_bytes.simps)
  show ?thesis
  proof (cases v)
    case (Pack vs)
    then have args: "concat (map argument_bytes (arguments_of v)) = concat (map append_scalar vs)"
      using items_scalars [of vs] by simp
    obtain q' where "recv_all (read_end rd) (c_int (int (8 + length (concat (map append_scalar vs))))) c =
        (None, c\<lparr>rcv_buffer := header_bytes ids @ concat (map append_scalar vs), sock := (p, q')\<rparr>)" "pending q' = ys"
      "check_returned_header (c\<lparr>rcv_buffer := header_bytes ids @ concat (map append_scalar vs), sock := (p, q')\<rparr>)"
      by (rule receive_fixed [OF assms(1,2) pend [unfolded args] len [unfolded args] assms(6,7)])
    moreover have "deserialize 8 (map type_of vs) (header_bytes ids @ concat (map append_scalar vs)) = vs"
      using deserialize_concat [of "header_bytes ids" vs "[]"] by simp
    ultimately show ?thesis using Pack that by simp
  next
    case (ArrayOf bs)
    then have args: "concat (map argument_bytes (arguments_of v)) = bs" by simp
    obtain q' where "recv_all (read_end rd) (c_int (int (8 + length bs))) c =
        (None, c\<lparr>rcv_buffer := header_bytes ids @ bs, sock := (p, q')\<rparr>)" "pending q' = ys"
      "check_returned_header (c\<lparr>rcv_buffer := header_bytes ids @ bs, sock := (p, q')\<rparr>)"
      by (rule receive_fixed [OF assms(1,2) pend [unfolded args] len [unfolded args] assms(6,7)])
    then show ?thesis using ArrayOf that by simp
  next
    case (VectorOf n bs)
    then have pend': "pending q = header_bytes ids @ append_u32 (of_nat (length bs)) @ bs @ ys" and l: "length bs < 2 ^ 31"
      using pend len by simp_all
    obtain q' where "get_payload_dynamic (read_end rd) c = (None, c\<lparr>rcv_buffer := bs, sock := (p, q')\<rparr>)" "pending q' = ys"
      by (rule receive_dynamic [OF assms(1,2) l pend' assms(6,7)])
    moreover have "length bs div n * n = length bs" using VectorOf assms(4) by simp
    ultimately show ?thesis using VectorOf that by simp
  next
    case (StringOf bs)
    then have pend': "pending q = header_bytes ids @ append_u32 (of_nat (length bs)) @ bs @ ys" and l: "length bs < 2 ^ 31"
      using pend len by simp_all
    obtain q' where "get_payload_dynamic (read_end rd) c = (None, c\<lparr>rcv_buffer := bs, sock := (p, q')\<rparr>)" "pending q' = ys"
      by (rule receive_dynamic [OF assms(1,2) l pend' assms(6,7)])
    then show ?thesis using StringOf that by simp
  qed
qed

section \<open>The server's side\<close>

lemma tcp_write_all:
  assumes "byte_pipe wr rd pending" "length bs < 2 ^ 31" "bs \<noteq> []"
  obtains w' where "tcp_write wr bs w = (int (length bs), w')" "pending w' = pending w @ bs"
proof -
  have l: "unat (of_nat (length bs) :: u32) = length bs" using assms(2) by (intro unat_of_nat_small) simp
  obtain w' where w': "wr w bs = (int (length bs), w')" "pending w' = pending w @ bs"
    by (rule pipe_write [OF assms(1)])
  moreover have "c_int (int (length bs)) = int (length bs)" using assms(2) by (intro c_int_small) simp_all
  ultimately show ?thesis using that assms(3) by (simp add: tcp_write_def l Let_def)
qed

lemma session_sends:
  assumes "byte_pipe wr rd pending" "sendable ids [v]" "length (scal_data (snd_serializer out)) = SCALAR_PACK_LEN"
  obtains n out' where "session_send (tcp_write wr) (fst ids) (snd ids) (arguments_of v) out = Some (n, out')" "0 < n"
    "pending (snd_fd out') = pending (snd_fd out) @ request_bytes (ids, [v])" "opened out' = opened out"
    "length (scal_data (snd_serializer out')) = SCALAR_PACK_LEN"
proof -
  obtain ds' where b: "build_command (fst ids) (snd ids) (arguments_of v) (snd_serializer out) = Some (request_bytes (ids, [v]), ds')"
    "length (scal_data ds') = SCALAR_PACK_LEN"
    using build_request [OF assms(2,3)] by auto
  have ne: "request_bytes (ids, [v]) \<noteq> []" by (simp add: reply_bytes header_bytes_def append_u32_def del: request_bytes.simps)
  obtain w' where w': "tcp_write wr (request_bytes (ids, [v])) (snd_fd out) = (int (length (request_bytes (ids, [v]))), w')"
    "pending w' = pending (snd_fd out) @ request_bytes (ids, [v])"
    by (rule tcp_write_all [OF assms(1) _ ne]) (use assms(2) in \<open>simp add: sendable_def del: request_bytes.simps\<close>)
  with b ne that show ?thesis by (simp add: session_send_def del: request_bytes.simps)
qed

lemma serve_one_step:
  assumes "ch_read_command ch s = Some (8, ids, s1)" "receive_all ch (types ids) s1 = Some (Some xs, s2)"
  shows "serve_one ch (execute_reply ch put types op) (s, d, out) =
    (case op ids xs d of (None, d) \<Rightarrow> Some (s2, d, out)
     | (Some v, d) \<Rightarrow> map_option (\<lambda>(r, out). (s2, d, out)) (session_send put (fst ids) (snd ids) (arguments_of v) out))"
  using assms by (auto simp: serve_one_def execute_reply_def option.map_comp comp_def split_def split: option.splits)

text \<open>A turn of the loop is one.\<close>

lemma session_loop_serves:
  assumes "serve_one ch execute st = Some st'" "\<not> gone st'" "\<And>st. \<not> stop st"
  shows "session_loop ch execute stop gone st = session_loop ch execute stop gone st'"
  using assms by (subst session_loop.simps) (auto simp: serve_one_def bind_eq_Some_conv Let_def split: if_splits)

section \<open>The composition\<close>

text \<open>Between calls both directions are drained, and the table stays the one of the connection.\<close>

definition connected ::
  "OpTable option \<Rightarrow> ('p \<Rightarrow> u8 list) \<Rightarrow> ('q \<Rightarrow> u8 list) \<Rightarrow> ('p \<times> 'q) client \<Rightarrow> 'q sender \<Rightarrow> bool" where
  "connected table pend1 pend2 c out \<longleftrightarrow> op_table c = table \<and> length (scal_data (serializer c)) = SCALAR_PACK_LEN \<and>
     length (scal_data (snd_serializer out)) = SCALAR_PACK_LEN \<and> pend1 (fst (sock c)) = [] \<and> pend2 (snd (sock c)) = []"

lemma tcp_serves:
  assumes "byte_pipe cwr srd pend" "pend p = request_bytes (ids, xs)" "\<forall>x\<in>set xs. item_ok (tcp_limit tgt) x"
    and "types ids = map type_of_item xs"
  obtains p1 p2 where "ch_read_command (tcp_channel tgt srd junk) p = Some (8, ids, p1)"
    "receive_all (tcp_channel tgt srd junk) (types ids) p1 = Some (Some xs, p2)" "pend p2 = []"
proof -
  have "tcp_waiting srd pend [(ids, xs)] p"
    using assms(1,2) by (simp add: tcp_waiting_def tcp_reading_def byte_pipe_def del: request_bytes.simps)
  from tcp_read_command_ok [OF this, of tgt junk] obtain p1 where
    p1: "ch_read_command (tcp_channel tgt srd junk) p = Some (8, ids, p1)" "tcp_reading srd pend (items_bytes xs) [] p1"
    by blast
  from tcp.receive_items [OF p1(2) assms(3), of junk] obtain p2 where
    "receive_all (tcp_channel tgt srd junk) (map type_of_item xs) p1 = Some (Some xs, p2)" "tcp_waiting srd pend [] p2"
    by blast
  with that p1(1) assms(4) show ?thesis by (simp add: tcp_waiting_def tcp_reading_def)
qed

lemma client_receives_reply:
  assumes "byte_pipe swr crd pend" "sock c = (p, q)" "pend q = request_bytes (ids, [v])"
    and "result_ok v" "sendable ids [v]" "last_class_id c = fst ids" "last_func_id c = snd ids"
  obtains buf q' where "command_deserializer (read_end crd) (type_of_item v) c = (Inr v, c\<lparr>rcv_buffer := buf, sock := (p, q')\<rparr>)"
    "pend q' = []"
  by (rule client_receives [of crd pend c p q ids v "[]"]) (use assms in \<open>simp_all add: byte_pipe_def del: request_bytes.simps\<close>)

lemma remote_call_local:
  assumes pipes: "byte_pipe cwr srd pend1" "byte_pipe swr crd pend2"
    and ok: "call_ok tgt table types (ids, xs, t)" "op_ok op (ids, xs, t)" and con: "connected table pend1 pend2 c out"
  obtains c' out' where "remote_call tgt cwr srd swr crd junk types op (ids, xs, t) (c, d, out) =
      Some (Inr (fst (op ids xs d)), c', snd (op ids xs d), out')" "connected table pend1 pend2 c' out'"
proof -
  obtain p q where pq: "sock c = (p, q)" by (cases "sock c")
  have c: "check_served (op_table c) (fst ids) (snd ids) = None" "sendable ids xs" "types ids = map type_of_item xs"
    "\<forall>x\<in>set xs. item_ok (tcp_limit tgt) x" and len: "length (scal_data (serializer c)) = SCALAR_PACK_LEN"
    using ok(1) con by (simp_all add: call_ok_def connected_def)
  obtain c1 p1 where c1: "client_call (write_end cwr) (fst ids) (snd ids) (concat (map arguments_of xs)) c = Some (None, c1)"
    "sock c1 = (p1, q)" "pend1 p1 = pend1 p @ request_bytes (ids, xs)" "op_table c1 = op_table c"
    "last_class_id c1 = fst ids" "last_func_id c1 = snd ids" "length (scal_data (serializer c1)) = SCALAR_PACK_LEN"
    by (rule client_call_sends [OF pipes(1) c(1,2) len pq])
  have sent: "pend1 p1 = request_bytes (ids, xs)" using c1(3) con pq by (simp add: connected_def del: request_bytes.simps)
  obtain r1 p2 where s: "ch_read_command (tcp_channel tgt srd junk) p1 = Some (8, ids, r1)"
    "receive_all (tcp_channel tgt srd junk) (types ids) r1 = Some (Some xs, p2)" "pend1 p2 = []"
    by (rule tcp_serves [where types = types, OF pipes(1) sent c(4,3)])
  note served = serve_one_step [where types = types and put = "tcp_write swr" and op = op, OF s(1,2)]
  obtain v d' where v: "op ids xs d = (v, d')" by (cases "op ids xs d")
  have q: "pend2 q = []" "length (scal_data (snd_serializer out)) = SCALAR_PACK_LEN" "op_table c1 = table"
    using con pq c1(4) by (simp_all add: connected_def)
  show ?thesis
  proof (cases v)
    case None
    then have "t = None" using ok(2) v by (auto simp: op_ok_def split: option.splits dest: spec [of _ d])
    with None v c1 s q that [of "c1\<lparr>sock := (p2, q)\<rparr>" "out\<lparr>snd_fd := q\<rparr>"] show ?thesis
      by (simp add: remote_call_def served connected_def)
  next
    case (Some y)
    then have y: "t = Some (type_of_item y)" "result_ok y" "sendable ids [y]"
      using ok(2) v by (auto simp: op_ok_def split: option.splits dest: spec [of _ d])
    obtain n out1 where o: "session_send (tcp_write swr) (fst ids) (snd ids) (arguments_of y) (out\<lparr>snd_fd := q\<rparr>) = Some (n, out1)"
      "pend2 (snd_fd out1) = request_bytes (ids, [y])" "length (scal_data (snd_serializer out1)) = SCALAR_PACK_LEN"
      by (rule session_sends [OF pipes(2) y(3), of "out\<lparr>snd_fd := q\<rparr>"]) (use q in \<open>auto simp del: request_bytes.simps\<close>)
    obtain buf q' where r: "command_deserializer (read_end crd) (type_of_item y) (c1\<lparr>sock := (p2, snd_fd out1)\<rparr>) =
        (Inr y, c1\<lparr>sock := (p2, snd_fd out1), rcv_buffer := buf, sock := (p2, q')\<rparr>)" "pend2 q' = []"
      by (rule client_receives_reply [OF pipes(2) _ o(2) y(2,3), of "c1\<lparr>sock := (p2, snd_fd out1)\<rparr>" p2]) (simp_all add: c1)
    from that [of "c1\<lparr>sock := (p2, q'), rcv_buffer := buf\<rparr>" out1] c1 s q o r v y(1) Some show ?thesis
      by (simp add: remote_call_def served connected_def)
  qed
qed

text \<open>
  C37. Remote calls are local calls: over a connection whose two directions deliver what was written,
  in whatever pieces, a series of calls made through the client gives the results, and leaves the
  driver in the state, of the same operations called in the server, provided the downloaded table
  serves each of them, the types of the arguments and of the result are those of the operation, no
  command and no reply overfills the serializer's array or reaches 2 GB, and the server can allocate the vectors
  and strings among the arguments.
\<close>

theorem remote_calls_local:
  assumes "byte_pipe cwr srd pend1" "byte_pipe swr crd pend2" "connected table pend1 pend2 c out"
    and "\<forall>q\<in>set qs. call_ok tgt table types q \<and> op_ok op q"
  shows "\<exists>c' out'. remote_calls (remote_call tgt cwr srd swr crd junk types op) qs (c, d, out) =
      Some (map Inr (fst (local_calls op qs d)), c', snd (local_calls op qs d), out') \<and> connected table pend1 pend2 c' out'"
  using assms(3,4)
proof (induction qs arbitrary: c d out)
  case (Cons q qs)
  obtain ids xs t where q: "q = (ids, xs, t)" by (cases q)
  obtain c1 out1 where "remote_call tgt cwr srd swr crd junk types op (ids, xs, t) (c, d, out) =
      Some (Inr (fst (op ids xs d)), c1, snd (op ids xs d), out1)" "connected table pend1 pend2 c1 out1"
    by (rule remote_call_local [OF assms(1,2) _ _ Cons.prems(1)]) (use Cons.prems(2) q in auto)
  with Cons.IH [of c1 out1 "snd (op ids xs d)"] Cons.prems(2) show ?case by (auto simp: q split_def)
qed simp

text \<open>A register with an operation that sets it and one that reads it back, asked for by a client with a table.\<close>

definition register_op :: "u16 \<times> u16 \<Rightarrow> item list \<Rightarrow> u16 \<Rightarrow> item option \<times> u16" where
  "register_op ids xs d =
     (if snd ids = 0 then (None, case xs of [Pack [UInt16 v]] \<Rightarrow> v | _ \<Rightarrow> d) else (Some (Pack [UInt16 d]), d))"

definition register_table :: OpTable where
  "register_table = \<lparr>ot_ops =
      [\<lparr>op_key = 0x20000, op_class_id = 2, op_func_id = 0, op_class_name = ''Reg'', op_func_name = ''set'', op_ret_type = ''void'', op_args = [''uint16_t'']\<rparr>,
       \<lparr>op_key = 0x20001, op_class_id = 2, op_func_id = 1, op_class_name = ''Reg'', op_func_name = ''get'', op_ret_type = ''uint16_t'', op_args = []\<rparr>],
      ot_index = [0x20000 \<mapsto> 0, 0x20001 \<mapsto> 1]\<rparr>"

definition register_calls :: "((u16 \<times> u16) \<times> item list \<times> argument_type option) list" where
  "register_calls = [((2, 0), [Pack [UInt16 0x1234]], None), ((2, 1), [], Some (TPack [TUInt16]))]"

definition push_bytes :: "u8 list writer" where
  "push_bytes p bs = (int (length bs), p @ bs)"

lemma push_trickle: "0 < k \<Longrightarrow> byte_pipe push_bytes (trickle k) (\<lambda>p. p)"
  by (simp add: byte_pipe_def trickle_source) (simp add: ends_def trickle_def push_bytes_def)

lemma sendable_u16: "sendable ids [Pack [UInt16 v]]"
  by (cases ids) (simp add: sendable_def command_bytes_def append_u16_def append_u32_def)

theorem remote_calls_local_witness:
  "\<exists>c' out'. remote_calls (remote_call \<lparr>size_t = LP64, room = 2 ^ 30\<rparr> push_bytes (trickle 3) push_bytes (trickle 1) (\<lambda>n. replicate n 0)
       (\<lambda>ids. if snd ids = 0 then [TPack [TUInt16]] else []) register_op) register_calls
     (\<lparr>sock = ([], []), op_table = Some register_table, last_class_id = 0, last_func_id = 0, rcv_buffer = [], send_buffer = [],
        serializer = \<lparr>scal_data = replicate 1024 0, scal_size = 0\<rparr>\<rparr>, 0,
      \<lparr>snd_fd = [], snd_serializer = \<lparr>scal_data = replicate 1024 0, scal_size = 0\<rparr>, snd_buffer = [], opened = True\<rparr>) =
     Some ([Inr None, Inr (Some (Pack [UInt16 0x1234]))], c', 0x1234, out')"
proof -
  have ok: "\<forall>q\<in>set register_calls. call_ok \<lparr>size_t = LP64, room = 2 ^ 30\<rparr> (Some register_table) (\<lambda>ids. if snd ids = 0 then [TPack [TUInt16]] else []) q \<and>
      op_ok register_op q"
    by (simp add: register_calls_def call_ok_def op_ok_def register_op_def sendable_u16 sendable_def check_served_def
        OpTable_find_def register_table_def command_bytes_def append_u16_def append_u32_def)
  have con: "connected (Some register_table) (\<lambda>p. p) (\<lambda>p. p)
      \<lparr>sock = ([], []), op_table = Some register_table, last_class_id = 0, last_func_id = 0, rcv_buffer = [], send_buffer = [],
        serializer = \<lparr>scal_data = replicate 1024 0, scal_size = 0\<rparr>\<rparr>
      \<lparr>snd_fd = [], snd_serializer = \<lparr>scal_data = replicate 1024 0, scal_size = 0\<rparr>, snd_buffer = [], opened = True\<rparr>"
    by (simp add: connected_def)
  have "local_calls register_op register_calls 0 = ([None, Some (Pack [UInt16 0x1234])], 0x1234)"
    by (simp add: register_calls_def register_op_def)
  with remote_calls_local [OF push_trickle [of 3] push_trickle [of 1] con ok, of "\<lambda>n. replicate n 0" 0] show ?thesis by auto
qed

end
