(* ===== verification/Client_Http.thy ===== *)
theory Client_Http
  imports Koheron_Client
begin

text \<open>
  How the client finds its instrument: the HTTP requests to the board's API and the JSON of their
  answers, loading an instrument and waiting for it, the context read from the command port, and
  \<open>connect\<close>, which does all of it. The network is a parameter: name resolution, sockets with their
  reads and writes, the clock.
\<close>

section \<open>JSON\<close>

abbreviation (input) COLON :: char where "COLON \<equiv> CHR 0x3A"

definition unescaped :: "char \<Rightarrow> string" where
  "unescaped c =
     (if c = CHR ''n'' then [CHR 0x0A] else if c = CHR ''t'' then [CHR 0x09] else if c = CHR ''r'' then [CHR 0x0D]
      else if c = CHR ''b'' then [CHR 0x08] else if c = CHR ''f'' then [CHR 0x0C]
      else if c = QUOTE then [QUOTE] else if c = BACKSLASH then [BACKSLASH] else [BACKSLASH, c])"

fun unescape :: "string \<Rightarrow> string" where
  "unescape [] = []"
| "unescape [c] = [c]"
| "unescape (c # d # ds) = (if c = BACKSLASH then unescaped d @ unescape ds else c # unescape (d # ds))"

text \<open>The characters of a string up to its closing quote, escapes kept, and how many they took.\<close>

fun scan_raw :: "string \<Rightarrow> (string \<times> nat) option" where
  "scan_raw [] = None"
| "scan_raw [c] = (if c = QUOTE then Some ([], 1) else None)"
| "scan_raw (c # d # ds) =
     (if c = BACKSLASH then map_option (\<lambda>(raw, n). (c # d # raw, n + 2)) (scan_raw ds)
      else if c = QUOTE then Some ([], 1)
      else map_option (\<lambda>(raw, n). (c # raw, Suc n)) (scan_raw (d # ds)))"

text \<open>Behind the colon of a key: one that follows the start of the text, a brace or a comma.\<close>

definition is_key :: "string \<Rightarrow> nat \<Rightarrow> bool" where
  "is_key json k = (let before = dropWhile is_ws (rev (take k json))
     in before = [] \<or> hd before = LBRACE \<or> hd before = COMMA)"

definition quoted :: "string \<Rightarrow> string" where
  "quoted key = [QUOTE] @ key @ [QUOTE]"

function find_value_from :: "string \<Rightarrow> string \<Rightarrow> nat \<Rightarrow> nat option" where
  "find_value_from json key pos =
     (case find_at json (quoted key) pos of
        None \<Rightarrow> None
      | Some k \<Rightarrow>
          let c = skip_ws json (k + length (quoted key))
          in if c < length json \<and> json ! c = COLON \<and> is_key json k then Some (skip_ws json (c + 1))
             else find_value_from json key (k + length (quoted key)))"
  by auto

termination
  by (relation "measure (\<lambda>(json, _, pos). Suc (length json) - pos)")
    (auto simp: quoted_def dest!: find_at_bounds)

declare find_value_from.simps [simp del]

definition find_value :: "string \<Rightarrow> string \<Rightarrow> nat option" where
  "find_value json key = find_value_from json key 0"

definition find_string :: "string \<Rightarrow> string \<Rightarrow> string option" where
  "find_string json key =
     (case find_value json key of
        None \<Rightarrow> None
      | Some vpos \<Rightarrow>
          if char_at json vpos \<noteq> QUOTE then None
          else map_option (\<lambda>(raw, n). unescape raw) (scan_raw (drop (vpos + 1) json)))"

text \<open>
  The elements are appended to the list one by one: what was read before an element that is no string
  stays in it, although the result is false.
\<close>

lemma scan_raw_length: "scan_raw s = Some (raw, n) \<Longrightarrow> 0 < n \<and> n \<le> length s"
  by (induction s arbitrary: raw n rule: scan_raw.induct) (auto split: if_splits)

definition is_separator :: "char \<Rightarrow> bool" where
  "is_separator c \<longleftrightarrow> is_ws c \<or> c = COMMA"

function find_string_array_from :: "string \<Rightarrow> bool \<times> string list" where
  "find_string_array_from s =
     (if s = [] then (True, [])
      else
        let s = dropWhile is_separator s
        in if s = [] \<or> hd s = RBRACKET then (True, [])
           else if hd s \<noteq> QUOTE then (False, [])
           else case scan_raw (tl s) of
                  None \<Rightarrow> (False, [])
                | Some (raw, n) \<Rightarrow> apsnd ((#) (unescape raw)) (find_string_array_from (drop n (tl s))))"
  by auto

termination
proof (relation "measure length", goal_cases)
  case (2 s x x2 raw n)
  have "length (dropWhile is_separator s) \<le> length s" by (rule length_dropWhile_le)
  with 2 scan_raw_length [of "tl x" raw n] show ?case by (cases x) auto
qed simp

declare find_string_array_from.simps [simp del]

definition find_string_array :: "string \<Rightarrow> string \<Rightarrow> bool \<times> string list" where
  "find_string_array json key =
     (case find_value json key of
        None \<Rightarrow> (False, [])
      | Some vpos \<Rightarrow>
          if char_at json vpos \<noteq> LBRACKET then (False, [])
          else
            let i = skip_ws json (vpos + 1)
            in if i < length json \<and> json ! i = RBRACKET then (True, [])
               else find_string_array_from (drop i json))"

section \<open>HTTP\<close>

text \<open>
  The system's network calls on a state \<open>'w\<close>: resolution of a name and port to a list of addresses, a
  new socket, connecting it, receiving and sending, closing it, the time in milliseconds and sleeping.
\<close>

record ('a, 'w) network =
  net_resolve :: "string \<Rightarrow> int \<Rightarrow> 'w \<Rightarrow> 'a list \<times> 'w"
  net_socket :: "'w \<Rightarrow> nat option \<times> 'w"
  net_connect :: "nat \<Rightarrow> 'a \<Rightarrow> 'w \<Rightarrow> bool \<times> 'w"
  net_timeout :: "nat \<Rightarrow> int \<Rightarrow> 'w \<Rightarrow> 'w"
  net_nodelay :: "nat \<Rightarrow> 'w \<Rightarrow> bool \<times> 'w"
  net_recv :: "nat \<Rightarrow> 'w reader"
  net_send :: "nat \<Rightarrow> 'w writer"
  net_shutdown :: "nat \<Rightarrow> 'w \<Rightarrow> bool \<times> 'w"
  net_close :: "nat \<Rightarrow> 'w \<Rightarrow> 'w"
  net_now :: "'w \<Rightarrow> nat"
  net_sleep :: "nat \<Rightarrow> 'w \<Rightarrow> 'w"

datatype net_error =
    Cannot_resolve | Cannot_connect | Cannot_send_request | Cannot_receive_response | Malformed_response
  | Incomplete_response | Malformed_status_line | Incomplete_body | Http_status int | Instrument_not_found "string list"
  | Install_failed | Not_live
  | Socket_error client_error | Cannot_open_socket | Cannot_connect_server | Cannot_set_nodelay | Cannot_shutdown
  | Unexpected_reply

text \<open>Two exception types: \<open>instrument_error\<close> and \<open>socket_error\<close>.\<close>

fun is_socket_error :: "net_error \<Rightarrow> bool" where
  "is_socket_error (Socket_error e) = True"
| "is_socket_error Cannot_open_socket = True"
| "is_socket_error Cannot_connect_server = True"
| "is_socket_error Cannot_set_nodelay = True"
| "is_socket_error Cannot_shutdown = True"
| "is_socket_error Unexpected_reply = True"
| "is_socket_error _ = False"

fun connect_first :: "('a, 'w) network \<Rightarrow> 'a list \<Rightarrow> 'w \<Rightarrow> nat option \<times> 'w" where
  "connect_first net [] w = (None, w)"
| "connect_first net (rp # rps) w =
     (case net_socket net w of
        (None, w) \<Rightarrow> connect_first net rps w
      | (Some fd, w) \<Rightarrow>
          (case net_connect net fd rp w of
             (True, w) \<Rightarrow> (Some fd, w)
           | (False, w) \<Rightarrow> connect_first net rps (net_close net fd w)))"

definition tcp_connect :: "('a, 'w) network \<Rightarrow> string \<Rightarrow> int \<Rightarrow> int \<Rightarrow> 'w \<Rightarrow> (net_error + nat) \<times> 'w" where
  "tcp_connect net host port timeout_ms w =
     (case net_resolve net host port w of (res, w) \<Rightarrow>
        if res = [] then (Inl Cannot_resolve, w)
        else case connect_first net res w of
               (None, w) \<Rightarrow> (Inl Cannot_connect, w)
             | (Some fd, w) \<Rightarrow> (Inr fd, net_timeout net fd timeout_ms w))"

function send_all :: "'w writer \<Rightarrow> u8 list \<Rightarrow> 'w \<Rightarrow> bool \<times> 'w" where
  "send_all wr data w =
     (if data = [] then (True, w)
      else case wr w data of (n, w) \<Rightarrow>
             if c_int n \<le> 0 then (False, w) else send_all wr (drop (nat (c_int n)) data) w)"
  by auto

termination
  by (relation "measure (\<lambda>(_, data, _). length data)") (auto simp: length_greater_0_conv [symmetric] simp del: length_greater_0_conv)

declare send_all.simps [simp del]

definition chars :: "u8 list \<Rightarrow> string" where
  "chars bs = map (\<lambda>b. char_of (unat b)) bs"

definition bytes :: "string \<Rightarrow> u8 list" where
  "bytes s = map of_char s"

abbreviation (input) CRLF :: string where "CRLF \<equiv> [CHR 0x0D, CHR 0x0A]"

definition to_lower :: "char \<Rightarrow> char" where
  "to_lower c = (if (of_char c :: nat) \<in> {65..90} then char_of ((of_char c :: nat) + 32) else c)"

definition is_blank :: "char \<Rightarrow> bool" where
  "is_blank c \<longleftrightarrow> c = CHR '' '' \<or> c = CHR 0x09"

function header_value_from :: "string \<Rightarrow> string \<Rightarrow> nat \<Rightarrow> string option" where
  "header_value_from headers name pos =
     (if pos < length headers then
        let eol = (case find_at headers CRLF pos of None \<Rightarrow> length headers | Some k \<Rightarrow> k)
        in if eol > pos + length name + 1 \<and>
              map to_lower (take (length name) (drop pos headers)) = map to_lower name \<and>
              headers ! (pos + length name) = COLON
           then Some (trim_back is_blank (dropWhile is_blank (take (eol - (pos + length name + 1)) (drop (pos + length name + 1) headers))))
           else header_value_from headers name (eol + 2)
      else None)"
  by auto

termination
  by (relation "measure (\<lambda>(headers, _, pos). length headers - pos)")
    (auto split: option.splits dest!: find_at_bounds)

declare header_value_from.simps [simp del]

definition header_value :: "string \<Rightarrow> string \<Rightarrow> string option" where
  "header_value headers name = header_value_from headers name 0"

record HttpResponse =
  status_code :: int
  body :: string

text \<open>The response up to the empty line: at most one more piece than \<open>2 ^ 20\<close> bytes.\<close>

function recv_header :: "'w reader \<Rightarrow> string \<Rightarrow> 'w \<Rightarrow> (net_error + string \<times> nat) \<times> 'w" where
  "recv_header rd raw w =
     (case rd w 4096 of
        (None, w) \<Rightarrow> (Inl Cannot_receive_response, w)
      | (Some bs, w) \<Rightarrow>
          if bs = [] then (Inl Incomplete_response, w)
          else
            let raw = raw @ chars bs
            in if length raw > 2 ^ 20 then (Inl Malformed_response, w)
               else case find_at raw (CRLF @ CRLF) 0 of
                      Some header_end \<Rightarrow> (Inr (raw, header_end), w)
                    | None \<Rightarrow> recv_header rd raw w)"
  by auto

termination
  by (relation "measure (\<lambda>(_, raw, _). Suc (2 ^ 20) - length raw)")
    (auto simp: chars_def length_greater_0_conv [symmetric] simp del: length_greater_0_conv)

declare recv_header.simps [simp del]

function recv_body :: "'w reader \<Rightarrow> nat \<Rightarrow> string \<Rightarrow> 'w \<Rightarrow> (net_error + string) \<times> 'w" where
  "recv_body rd expected data w =
     (if length data < expected then
        case rd w 4096 of
          (None, w) \<Rightarrow> (Inl Incomplete_body, w)
        | (Some bs, w) \<Rightarrow> if bs = [] then (Inl Incomplete_body, w) else recv_body rd expected (data @ chars bs) w
      else (Inr data, w))"
  by auto

termination
  by (relation "measure (\<lambda>(_, expected, data, _). expected - length data)")
    (auto simp: chars_def length_greater_0_conv [symmetric] simp del: length_greater_0_conv)

declare recv_body.simps [simp del]

text \<open>Without a length, until the connection ends: \<open>None\<close> is a server that never stops sending.\<close>

partial_function (option) recv_rest :: "'w reader \<Rightarrow> string \<Rightarrow> 'w \<Rightarrow> (string \<times> 'w) option" where
  "recv_rest rd data w =
     (case rd w 4096 of
        (None, w) \<Rightarrow> Some (data, w)
      | (Some bs, w) \<Rightarrow> if bs = [] then Some (data, w) else recv_rest rd (data @ chars bs) w)"

text \<open>\<open>strtol\<close> in base ten, cut to an \<open>int\<close>.\<close>

definition strtol10 :: "string \<Rightarrow> int" where
  "strtol10 s =
     (let s = dropWhile is_space s;
          neg = (s \<noteq> [] \<and> hd s = CHR 0x2D);
          s = (if s \<noteq> [] \<and> (hd s = CHR 0x2D \<or> hd s = CHR 0x2B) then tl s else s);
          v = int (decimal_value (takeWhile is_digit s))
      in c_int (if neg then max (- (2 ^ 63)) (- v) else min (2 ^ 63 - 1) v))"

definition get_request :: "string \<Rightarrow> string \<Rightarrow> string" where
  "get_request host path = ''GET '' @ path @ '' HTTP/1.1'' @ CRLF @ ''Host: '' @ host @ CRLF @
     ''User-Agent: koheron-client-cpp'' @ CRLF @ ''Connection: close'' @ CRLF @ CRLF"

definition get_response :: "'w reader \<Rightarrow> string \<Rightarrow> nat \<Rightarrow> 'w \<Rightarrow> ((net_error + HttpResponse) \<times> 'w) option" where
  "get_response rd raw header_end w =
     (let status_line = take (case find_at raw CRLF 0 of None \<Rightarrow> length raw | Some k \<Rightarrow> k) raw
      in case find_at status_line '' '' 0 of
           None \<Rightarrow> Some (Inl Malformed_status_line, w)
         | Some sp \<Rightarrow>
             if take 5 status_line \<noteq> ''HTTP/'' then Some (Inl Malformed_status_line, w)
             else
               let code = strtol10 (drop (sp + 1) status_line);
                   data = drop (header_end + 4) raw
               in case header_value (take header_end raw) ''Content-Length'' of
                    Some content_length \<Rightarrow>
                      (case recv_body rd (case strtoul10 content_length of None \<Rightarrow> 0 | Some v \<Rightarrow> unat v) data w of
                         (Inl e, w) \<Rightarrow> Some (Inl e, w)
                       | (Inr data, w) \<Rightarrow> Some (Inr \<lparr>status_code = code, body = data\<rparr>, w))
                  | None \<Rightarrow> map_option (\<lambda>(data, w). (Inr \<lparr>status_code = code, body = data\<rparr>, w)) (recv_rest rd data w))"

definition http_get :: "('a, 'w) network \<Rightarrow> string \<Rightarrow> string \<Rightarrow> int \<Rightarrow> int \<Rightarrow> 'w \<Rightarrow> ((net_error + HttpResponse) \<times> 'w) option" where
  "http_get net host path port timeout_ms w =
     (case tcp_connect net host port timeout_ms w of
        (Inl e, w) \<Rightarrow> Some (Inl e, w)
      | (Inr fd, w) \<Rightarrow>
          map_option (apsnd (net_close net fd))
            (case send_all (net_send net fd) (bytes (get_request host path)) w of
               (False, w) \<Rightarrow> Some (Inl Cannot_send_request, w)
             | (True, w) \<Rightarrow>
                 (case recv_header (net_recv net fd) [] w of
                    (Inl e, w) \<Rightarrow> Some (Inl e, w)
                  | (Inr (raw, header_end), w) \<Rightarrow> get_response (net_recv net fd) raw header_end w)))"

section \<open>Instruments\<close>

record InstrumentStatus =
  instruments :: "string list"
  live_instrument :: string

definition is_live :: "InstrumentStatus \<Rightarrow> string \<Rightarrow> bool" where
  "is_live status name \<longleftrightarrow> name \<noteq> [] \<and> live_instrument status = name"

definition in_store :: "InstrumentStatus \<Rightarrow> string \<Rightarrow> bool" where
  "in_store status name = list_ex (\<lambda>x. x = name) (instruments status)"

text \<open>Whether the keys were found is not looked at: a missing one leaves its field empty.\<close>

definition status_of_body :: "string \<Rightarrow> InstrumentStatus" where
  "status_of_body json =
     \<lparr>instruments = snd (find_string_array json ''instruments''),
      live_instrument = (case find_string json ''live_instrument'' of None \<Rightarrow> [] | Some s \<Rightarrow> s)\<rparr>"

definition instrument_status ::
  "('a, 'w) network \<Rightarrow> string \<Rightarrow> int \<Rightarrow> int \<Rightarrow> 'w \<Rightarrow> ((net_error + InstrumentStatus) \<times> 'w) option" where
  "instrument_status net host http_port timeout_ms w =
     map_option (\<lambda>(resp, w). case resp of
         Inl e \<Rightarrow> (Inl e, w)
       | Inr resp \<Rightarrow>
           if status_code resp \<noteq> 200 then (Inl (Http_status (status_code resp)), w)
           else (Inr (status_of_body (body resp)), w))
       (http_get net host ''/api/instruments'' http_port timeout_ms w)"

definition install_instrument :: "('a, 'w) network \<Rightarrow> string \<Rightarrow> string \<Rightarrow> int \<Rightarrow> 'w \<Rightarrow> (net_error option \<times> 'w) option" where
  "install_instrument net host target http_port w =
     map_option (\<lambda>(resp, w). case resp of
         Inl e \<Rightarrow> (Some e, w)
       | Inr resp \<Rightarrow>
           if status_code resp \<noteq> 200 then (Some (Http_status (status_code resp)), w)
           else if find_at (body resp) ''Failed'' 0 \<noteq> None then (Some Install_failed, w)
           else (None, w))
       (http_get net host (''/api/instruments/run/'' @ target) http_port 60000 w)"

definition run_instrument ::
  "('a, 'w) network \<Rightarrow> string \<Rightarrow> string \<Rightarrow> bool \<Rightarrow> int \<Rightarrow> 'w \<Rightarrow> (net_error option \<times> 'w) option" where
  "run_instrument net host name restart http_port w =
     Option.bind (instrument_status net host http_port 5000 w) (\<lambda>(status, w). case status of
         Inl e \<Rightarrow> Some (Some e, w)
       | Inr status \<Rightarrow>
           if name = [] \<or> live_instrument status = name then
             (if restart then install_instrument net host (live_instrument status) http_port w else Some (None, w))
           else if in_store status name then install_instrument net host name http_port w
           else Some (Some (Instrument_not_found (instruments status)), w))"

partial_function (option) wait_until ::
  "('a, 'w) network \<Rightarrow> string \<Rightarrow> string \<Rightarrow> nat \<Rightarrow> int \<Rightarrow> nat \<Rightarrow> 'w \<Rightarrow> (bool \<times> 'w) option" where
  "wait_until net host name deadline http_port interval w =
     Option.bind (instrument_status net host http_port 5000 w) (\<lambda>(status, w).
       if (case status of Inl e \<Rightarrow> False | Inr status \<Rightarrow> is_live status name) then Some (True, w)
       else if net_now net w \<ge> deadline then Some (False, w)
       else wait_until net host name deadline http_port interval (net_sleep net interval w))"

definition wait_for_instrument :: "('a, 'w) network \<Rightarrow> string \<Rightarrow> string \<Rightarrow> nat \<Rightarrow> int \<Rightarrow> nat \<Rightarrow> 'w \<Rightarrow> (bool \<times> 'w) option" where
  "wait_for_instrument net host name timeout http_port interval w =
     wait_until net host name (net_now net w + timeout) http_port interval w"

section \<open>The context of the server\<close>

record ServerContext =
  version :: string
  context_json :: string

function recv_exact :: "'w reader \<Rightarrow> nat \<Rightarrow> u8 list \<Rightarrow> 'w \<Rightarrow> (net_error + u8 list) \<times> 'w" where
  "recv_exact rd n got w =
     (if length got < n then
        case rd w (n - length got) of
          (None, w) \<Rightarrow> (Inl (Socket_error Cannot_receive), w)
        | (Some bs, w) \<Rightarrow> if bs = [] then (Inl (Socket_error Connection_closed), w) else recv_exact rd n (got @ bs) w
      else (Inr got, w))"
  by auto

termination
  by (relation "measure (\<lambda>(_, n, got, _). n - length got)")
    (auto simp: length_greater_0_conv [symmetric] simp del: length_greater_0_conv)

declare recv_exact.simps [simp del]

definition context_command :: "u16 \<Rightarrow> u16 \<Rightarrow> u8 list" where
  "context_command class_id func_id = append_u32 0 @ append_u16 class_id @ append_u16 func_id"

definition recv_context_string :: "'w reader \<Rightarrow> u16 \<Rightarrow> 'w \<Rightarrow> (net_error + string) \<times> 'w" where
  "recv_context_string rd func_id w =
     (case recv_exact rd 12 [] w of
        (Inl e, w) \<Rightarrow> (Inl e, w)
      | (Inr hdr, w) \<Rightarrow>
          (case deserialize 0 [TUInt32, TUInt16, TUInt16, TUInt32] hdr of
             [UInt32 reserved, UInt16 class_id, UInt16 func, UInt32 n] \<Rightarrow>
               if reserved \<noteq> 0 \<or> class_id \<noteq> 1 \<or> func \<noteq> func_id then (Inl Unexpected_reply, w)
               else (case recv_exact rd (unat n) [] w of
                       (Inl e, w) \<Rightarrow> (Inl e, w)
                     | (Inr bs, w) \<Rightarrow> (Inr (chars bs), w))
           | _ \<Rightarrow> (Inl Unexpected_reply, w)))"

definition context_query :: "('a, 'w) network \<Rightarrow> nat \<Rightarrow> u16 \<Rightarrow> 'w \<Rightarrow> (net_error + string) \<times> 'w" where
  "context_query net fd func_id w =
     (case send_all (net_send net fd) (context_command 1 func_id) w of
        (False, w) \<Rightarrow> (Inl Cannot_send_request, w)
      | (True, w) \<Rightarrow> recv_context_string (net_recv net fd) func_id w)"

definition read_server_context :: "('a, 'w) network \<Rightarrow> string \<Rightarrow> int \<Rightarrow> int \<Rightarrow> 'w \<Rightarrow> (net_error + ServerContext) \<times> 'w" where
  "read_server_context net host port timeout_ms w =
     (case tcp_connect net host port timeout_ms w of
        (Inl e, w) \<Rightarrow> (Inl e, w)
      | (Inr fd, w) \<Rightarrow>
          apsnd (net_close net fd)
            (case context_query net fd 0 w of
               (Inl e, w) \<Rightarrow> (Inl e, w)
             | (Inr v, w) \<Rightarrow>
                 (case context_query net fd 1 w of
                    (Inl e, w) \<Rightarrow> (Inl e, w)
                  | (Inr c, w) \<Rightarrow> (Inr \<lparr>version = v, context_json = c\<rparr>, w))))"

text \<open>\<open>compare(k - 6, 6, "class")\<close>: six characters against five.\<close>

definition class_before :: "string \<Rightarrow> nat \<Rightarrow> bool" where
  "class_before json pos =
     (let k = length (dropWhile is_ws (rev (take pos json)))
      in k \<noteq> 0 \<and> json ! (k - 1) = COLON \<and>
         (let k = length (dropWhile is_ws (rev (take (k - 1) json)))
          in k \<ge> 6 \<and> take 6 (drop (k - 6) json) = ''class''))"

function context_has_class_from :: "string \<Rightarrow> string \<Rightarrow> nat \<Rightarrow> bool" where
  "context_has_class_from json q pos =
     (case find_at json q pos of
        None \<Rightarrow> False
      | Some k \<Rightarrow> class_before json k \<or> context_has_class_from json q (k + 1))"
  by auto

termination
  by (relation "measure (\<lambda>(json, _, pos). Suc (length json) - pos)") (auto dest!: find_at_bounds)

declare context_has_class_from.simps [simp del]

definition context_has_class :: "ServerContext \<Rightarrow> string \<Rightarrow> bool" where
  "context_has_class ctx class_name = context_has_class_from (context_json ctx) (quoted class_name) 0"

definition check_instrument_loaded ::
  "('a, 'w) network \<Rightarrow> string \<Rightarrow> string \<Rightarrow> string list \<Rightarrow> int \<Rightarrow> int \<Rightarrow> 'w \<Rightarrow> (bool \<times> 'w) option" where
  "check_instrument_loaded net host name expected_classes http_port server_port w =
     map_option (\<lambda>(status, w). case status of
         Inl e \<Rightarrow> (False, w)
       | Inr status \<Rightarrow>
           if \<not> is_live status name then (False, w)
           else (case read_server_context net host server_port 2000 w of
                   (Inl e, w) \<Rightarrow> (False, w)
                 | (Inr ctx, w) \<Rightarrow>
                     (version ctx \<noteq> [] \<and> context_json ctx \<noteq> [] \<and> list_all (context_has_class ctx) expected_classes, w)))
       (instrument_status net host http_port 5000 w)"

section \<open>Connecting\<close>

text \<open>The client's own socket: \<open>None\<close> is a descriptor that is no socket.\<close>

record http_client =
  cl_fd :: "nat option"
  cl_ctx :: "ServerContext option"
  cl_ops :: "OpTable option"

definition cl_close :: "('a, 'w) network \<Rightarrow> http_client \<Rightarrow> 'w \<Rightarrow> net_error option \<times> 'w" where
  "cl_close net c w =
     (case cl_fd c of
        Some fd \<Rightarrow>
          if fd > 0 then
            (case net_shutdown net fd w of (ok, w) \<Rightarrow>
               (if ok then None else Some Cannot_shutdown, net_close net fd w))
          else (None, w)
      | None \<Rightarrow> (None, w))"

definition refresh_server_context ::
  "('a, 'w) network \<Rightarrow> string \<Rightarrow> int \<Rightarrow> int \<Rightarrow> http_client \<Rightarrow> 'w \<Rightarrow> net_error option \<times> http_client \<times> 'w" where
  "refresh_server_context net host port timeout_ms c w =
     (case read_server_context net host port timeout_ms w of
        (Inl e, w) \<Rightarrow> (Some e, c, w)
      | (Inr ctx, w) \<Rightarrow> (None, c\<lparr>cl_ctx := Some ctx, cl_ops := Some (OpTable_build (context_json ctx))\<rparr>, w))"

text \<open>A failed close throws before the descriptor is reset.\<close>

definition give_up :: "('a, 'w) network \<Rightarrow> net_error \<Rightarrow> http_client \<Rightarrow> 'w \<Rightarrow> net_error option \<times> http_client \<times> 'w" where
  "give_up net e c w =
     (case cl_close net c w of
        (Some e', w) \<Rightarrow> (Some e', c, w)
      | (None, w) \<Rightarrow> (Some e, c\<lparr>cl_fd := None\<rparr>, w))"

definition connect_once ::
  "('a, 'w) network \<Rightarrow> string \<Rightarrow> int \<Rightarrow> 'a \<Rightarrow> http_client \<Rightarrow> 'w \<Rightarrow> net_error option \<times> http_client \<times> 'w" where
  "connect_once net host port serveraddr c w =
     (case net_socket net w of
        (None, w) \<Rightarrow> (Some Cannot_open_socket, c\<lparr>cl_fd := None\<rparr>, w)
      | (Some fd, w) \<Rightarrow>
          let c = c\<lparr>cl_fd := Some fd\<rparr>
          in case net_connect net fd serveraddr w of
               (False, w) \<Rightarrow> give_up net Cannot_connect_server c w
             | (True, w) \<Rightarrow>
                 (case net_nodelay net fd w of
                    (False, w) \<Rightarrow> give_up net Cannot_set_nodelay c w
                  | (True, w) \<Rightarrow> refresh_server_context net host port 2000 c w))"

partial_function (option) connect_until ::
  "('a, 'w) network \<Rightarrow> string \<Rightarrow> int \<Rightarrow> 'a \<Rightarrow> nat \<Rightarrow> http_client \<Rightarrow> 'w \<Rightarrow> (net_error option \<times> http_client \<times> 'w) option" where
  "connect_until net host port serveraddr deadline c w =
     (case connect_once net host port serveraddr c w of
        (None, c, w) \<Rightarrow> Some (None, c, w)
      | (Some e, c, w) \<Rightarrow>
          if \<not> is_socket_error e \<or> net_now net w \<ge> deadline then Some (Some e, c, w)
          else connect_until net host port serveraddr deadline c (net_sleep net 500 w))"

definition client_connect ::
  "('a, 'w) network \<Rightarrow> string \<Rightarrow> int \<Rightarrow> int \<Rightarrow> 'a \<Rightarrow> string \<Rightarrow> bool \<Rightarrow> http_client \<Rightarrow> 'w \<Rightarrow>
   (net_error option \<times> http_client \<times> 'w) option" where
  "client_connect net host port http_port serveraddr firmware firmware_restart c w =
     (if firmware = [] then Some (connect_once net host port serveraddr c w)
      else
        Option.bind (instrument_status net host http_port 5000 w) (\<lambda>(status, w).
        let will_run = (case status of Inl e \<Rightarrow> True
                        | Inr status \<Rightarrow> live_instrument status \<noteq> firmware \<or> firmware_restart)
        in Option.bind (run_instrument net host firmware firmware_restart http_port w) (\<lambda>(err, w). case err of
             Some e \<Rightarrow> Some (Some e, c, w)
           | None \<Rightarrow>
               if \<not> will_run then Some (connect_once net host port serveraddr c w)
               else Option.bind (wait_for_instrument net host firmware 30000 http_port 500 w) (\<lambda>(live, w).
                 if \<not> live then Some (Some Not_live, c, w)
                 else connect_until net host port serveraddr (net_now net w + 30000) c w))))"

text \<open>\<open>inet_addr\<close> is the argument \<open>addr_of\<close>; the HTTP port of a client is 80 unless set.\<close>

definition connect_instrument ::
  "('a, 'w) network \<Rightarrow> (string \<Rightarrow> int \<Rightarrow> 'a) \<Rightarrow> string \<Rightarrow> string \<Rightarrow> bool \<Rightarrow> int \<Rightarrow> int \<Rightarrow> 'w \<Rightarrow>
   (net_error option \<times> http_client \<times> 'w) option" where
  "connect_instrument net addr_of host name restart http_port port w =
     (let new = \<lparr>cl_fd = None, cl_ctx = None, cl_ops = None\<rparr>;
          connect = (\<lambda>firmware w. client_connect net host port 80 (addr_of host port) firmware restart new w)
      in if name = [] then connect [] w
         else if http_port = 80 then connect name w
         else Option.bind (run_instrument net host name restart http_port w) (\<lambda>(err, w). case err of
                Some e \<Rightarrow> Some (Some e, new, w)
              | None \<Rightarrow> Option.bind (wait_for_instrument net host name 30000 http_port 500 w) (\<lambda>(live, w). connect [] w)))"

section \<open>Properties\<close>

lemma six_is_not_five: "6 \<le> k \<Longrightarrow> k \<le> length json \<Longrightarrow> take 6 (drop (k - 6) json) \<noteq> ''class''"
  by (auto dest!: arg_cong [of _ _ length])

lemma rest_of_prefix_length: "length (dropWhile P (rev (take n xs))) \<le> length xs"
  by (rule le_trans [OF length_dropWhile_le]) simp

lemma class_before_False: "\<not> class_before json pos"
  using six_is_not_five rest_of_prefix_length unfolding class_before_def Let_def by blast

lemma context_has_class_from_False: "\<not> context_has_class_from json q pos"
  by (induction json q pos rule: context_has_class_from.induct)
    (subst context_has_class_from.simps, simp add: class_before_False split: option.splits)

lemma context_has_class_False: "context_has_class ctx class_name = False"
  by (simp add: context_has_class_def context_has_class_from_False)

text \<open>The check of an instrument succeeds without expected classes, so the name test is all it does.\<close>

lemma check_instrument_loaded_names:
  assumes "expected_classes \<noteq> []"
  shows "map_option fst (check_instrument_loaded net host name expected_classes http_port server_port w) \<noteq> Some True"
  using assms by (cases expected_classes)
    (auto simp: check_instrument_loaded_def context_has_class_False split: sum.splits prod.splits if_splits)

text \<open>
  A connection that is refused: shutting down a socket that is not connected is an error, so the
  closed descriptor stays in the client, whose destructor then shuts it down again.
\<close>

lemma refused_connection_keeps_descriptor:
  assumes "net_socket net w = (Some fd, w1)" "0 < fd" "net_connect net fd addr w1 = (False, w2)"
    and "net_shutdown net fd w2 = (False, w3)"
  shows "connect_once net host port addr c w = (Some Cannot_shutdown, c\<lparr>cl_fd := Some fd\<rparr>, net_close net fd w3)"
  using assms by (simp add: connect_once_def give_up_def cl_close_def)

text \<open>An instrument that is live already is only loaded again on request.\<close>

lemma run_live_instrument:
  assumes "instrument_status net host http_port 5000 w = Some (Inr status, w')" "is_live status name"
  shows "run_instrument net host name False http_port w = Some (None, w')"
    "run_instrument net host name True http_port w = install_instrument net host name http_port w'"
  using assms by (simp_all add: run_instrument_def is_live_def)

lemma run_unknown_instrument:
  assumes "instrument_status net host http_port 5000 w = Some (Inr status, w')" "name \<noteq> []" "live_instrument status \<noteq> name"
    and "name \<notin> set (instruments status)"
  shows "run_instrument net host name restart http_port w = Some (Some (Instrument_not_found (instruments status)), w')"
  using assms by (auto simp: run_instrument_def in_store_def list_ex_iff)

text \<open>A dead connection ends \<open>wait_for_instrument\<close>: with a clock that every sleep moves on, it returns.\<close>

lemma wait_until_returns:
  assumes "\<And>w. instrument_status net host http_port 5000 w \<noteq> None"
    and "\<And>w r w'. instrument_status net host http_port 5000 w = Some (r, w') \<Longrightarrow> net_now net w \<le> net_now net w'"
    and "\<And>w. net_now net (net_sleep net interval w) \<ge> net_now net w + interval" "0 < interval"
  shows "\<exists>r w'. wait_until net host name deadline http_port interval w = Some (r, w')"
proof (induction "deadline - net_now net w" arbitrary: w rule: less_induct)
  case less
  obtain r w1 where w1: "instrument_status net host http_port 5000 w = Some (r, w1)"
    using assms(1) [of w] by fastforce
  show ?case
  proof (cases "net_now net w1 \<ge> deadline")
    case True
    with w1 show ?thesis by (subst wait_until.simps) auto
  next
    case False
    then have "deadline - net_now net (net_sleep net interval w1) < deadline - net_now net w"
      using assms(2) [OF w1] assms(3) [of w1] assms(4) by linarith
    from less [OF this] w1 show ?thesis by (subst wait_until.simps) auto
  qed
qed

end
