(* ===== verification/Spec2Isabelle.thy ===== *)
theory Spec2Isabelle
  imports Fsbl_Main Ddr_Addr_Map Qspi Session Session_Manager Drivers Client_Http
begin

text \<open>
  Verification of the Koheron SDK: the C first stage boot loader of the Trenz boards
  (\<open>src/boards/teb803/patches/fsbl\<close>, of which \<open>src/boards/teb808\<close> holds a copy), the C++ server that runs
  on the boards (\<open>src/server/core\<close>), and the C++ client that calls it
  (\<open>src/server/client/koheron-client.hpp\<close>).

  How the parts interact. The boot loader configures the processing system and the clocks, reads an image from
  flash, SD card or NAND, checks and authenticates its headers, loads its partitions (programs for the processors
  and a bitstream for the programmable logic) and hands over to them; when anything fails it falls back to the next
  image. What it has loaded starts Linux, and there the server lets clients call the drivers of the FPGA instrument:
  a listener thread accepts connections, each connection is a session with its own thread, a session reads commands
  over TCP, Unix sockets or WebSockets, and the drivers manager builds the driver a command names and has it
  executed. A client downloads the description of the instrument, checks the types of a call against it, sends the
  command and decodes the reply.

  Theories of the boot loader, in the order of the imports, and the files they model.

  \<^item> \<open>Sdk_Prelude\<close>: machine integers, status codes (\<open>xfsbl_error.h\<close>), the register bus, little-endian memory,
    polling loops, and the lemmas on words and lists shared by all components.
  \<^item> \<open>Image_Header\<close> (\<open>xfsbl_image_header.c\<close>): the header tables, their validation, the parameters of the trusted
    firmware.
  \<^item> \<open>Ddr_Addr_Map\<close> (\<open>xfsbl_ddr_init.c\<close>): rank sizes from the SPD bytes, the address map registers.
  \<^item> \<open>Qspi\<close> (\<open>xfsbl_qspi.c\<close>): identification of the serial flash, 24-bit and 32-bit initialisation and copies, over a
    driver that is a parameter; \<open>sim_flash\<close> is one or two flash chips behind such a driver, as they are documented:
    banks, write enable, the modes of four-byte addresses and of four data lines, dummy clocks, the stripe flag.
  \<^item> \<open>Fsbl_Platform\<close> (\<open>xfsbl_main.h\<close>, \<open>xfsbl_misc.c\<close>, \<open>xfsbl_misc_drivers.c\<close>, \<open>xfsbl_bs.c\<close>, \<open>xfsbl_hooks.c\<close>): the instance
    \<open>XFsblPs\<close>, the platform, power islands, the configuration port, watch dog, time-outs, ECC of memory.
  \<^item> \<open>Authentication\<close> (\<open>xfsbl_authentication.c\<close>, \<open>xfsbl_rsa_sha.c\<close>, \<open>xfsbl_csu_dma.c\<close>): keys, fuses, signatures.
  \<^item> \<open>Pl_Partition\<close> (\<open>xfsbl_plpartition_valid.c\<close>): signed bitstreams, block by block, and the protocol \<open>pl_step\<close> of
    copying, checking and sending that they follow.
  \<^item> \<open>Partition_Load\<close> (\<open>xfsbl_partition_load.c\<close>): validation, copy, verification and decryption of a partition.
  \<^item> \<open>Boot_Devices\<close> (\<open>xfsbl_sd.c\<close>, \<open>xfsbl_nand.c\<close>) and \<open>Boot_Header\<close> (the second stage in
    \<open>xfsbl_initialization.c\<close>): the boot devices, the boot header, the chain of trust to the partition headers.
  \<^item> \<open>Handoff\<close> (\<open>xfsbl_handoff.c\<close>, \<open>xfsbl_exit.S\<close>): starting the processors and leaving.
  \<^item> \<open>Te_Board\<close> (\<open>te_iic_platform.c\<close>, \<open>te_si5338.c\<close>, \<open>te_xfsbl_hooks*.c\<close>, \<open>xfsbl_board.c\<close>): the hooks of the TE0803 and its
    clock generator, with the register table \<open>Reg_Store\<close>.
  \<^item> \<open>Fsbl_Init\<close> (the first stage in \<open>xfsbl_initialization.c\<close>) and \<open>Fsbl_Main\<close> (\<open>xfsbl_main.c\<close>): the reset reason, the
    initialisation of the system, the stage machine of \<open>main\<close>, the lock-down and the fallback.

  Theories of the server and of the client.

  \<^item> \<open>Serializer\<close> (\<open>serializer_deserializer.hpp\<close>, \<open>commands.hpp\<close>): scalars, tuples, commands, buffers.
  \<^item> \<open>Websocket\<close> (\<open>websocket.cpp\<close>): frames in and out of a socket; \<open>Sha1\<close> (\<open>sha1.cpp\<close>) and \<open>Handshake\<close>
    (\<open>base64.cpp\<close>, \<open>WebSocket::authenticate\<close>).
  \<^item> \<open>Session\<close> (\<open>session.hpp\<close>, \<open>session.cpp\<close>, the code \<open>src/server/__init__.py\<close> generates for an operation): the sessions over
    both kinds of socket.
  \<^item> \<open>Session_Manager\<close> (\<open>session_manager.cpp\<close>, the threads of \<open>server.hpp\<close>) and \<open>Drivers\<close> (\<open>drivers_manager.cpp\<close>,
    \<open>server_commands.cpp\<close>).
  \<^item> \<open>Client_Context\<close>, \<open>Client_Types\<close>, \<open>Koheron_Client\<close>, \<open>Client_Http\<close> (\<open>koheron-client.hpp\<close>): the description of the
    instrument, the names of types, the calls, the HTTP requests.
\<close>

text \<open>
  Conventions. Functions, types and error codes keep the names of the source. The state of the loader is the record
  \<open>XFsblPs\<close>, which contains the state of the machine, a type variable; hardware is reached through the bus and the
  operations of the record \<open>platform\<close> and of the records for the drivers of the board support package, which are
  parameters. A function returns its status with the new state. Bit operations, wrap-around and shifts are those of
  words of the width of the C type. The server's sockets, clocks and drivers are parameters as well; a C++ exception
  or an access outside an array is an explicit result. The server is built for 32-bit and 64-bit ARM: where the width
  of \<open>size_t\<close> matters, the length of a vector received over TCP, it is a parameter (\<open>abi\<close>, with the memory a container
  can be given in the record \<open>target\<close>).

  Loops. A loop over data is a structural recursion or a \<open>function\<close> with a measure. A loop that ends when hardware, a
  socket or the loaded image lets it end (\<open>do_until\<close>, \<open>read_until\<close>, \<open>sec_blocks\<close>, \<open>main_loop\<close>, the session loop) is a
  \<open>partial_function\<close> into \<open>option\<close>: no result means that the loop runs for ever, or for a definition that says so that
  the C code is undefined there. The properties state where there is a result. Fuel occurs in \<open>Drivers\<close> only, where it bounds
  the depth of the requests between constructors; the properties state the fuel that is enough, the rank of the
  driver asked for.

  The build. The 64-bit A53 loader with DDR memory, \<open>XFSBL_SECURE\<close>, \<open>XFSBL_BS\<close>, QSPI, SD and NAND, as
  \<open>xfsbl_config.h\<close> has it; USB, performance counters, clearing of the PL before use, self refresh of the DDR memory,
  ECC of the TCM on the A53 and the bypass of the protection are excluded there. The watch dog, the early handoff,
  the dynamic DDR configuration, the upper DDR memory and the ECC of the DDR memory depend on the hardware design
  and are flags or optional parameters. The board is the TE0803 with the Si5338 behind the I2C controller of the
  processing system (\<open>te_iic_define_te0803.h\<close>, \<open>te_xfsbl_hooks_te0803.h\<close>). Machines are little-endian.

  What the lemmas show.

  \<^item> The boot as a whole (\<open>Fsbl_Main\<close>, \<open>Boot_Header\<close>, \<open>Te_Board\<close>): the stage machine is the straight line of the boot; an
    error ends in the lock-down and the fallback; failures of the generated configuration functions are not reported.
  \<^item> Trust (\<open>Authentication\<close>, \<open>Boot_Header\<close>, \<open>Partition_Load\<close>, \<open>Pl_Partition\<close>): what is accepted is exactly what the
    keys in the fuses vouch for, from the primary key to the chunk of a bitstream; the encryption fuse is enforced.
  \<^item> Headers and tables (\<open>Image_Header\<close>, \<open>Partition_Load\<close>, \<open>Handoff\<close>): acceptance of headers as declarative
    conditions, the handoff table as an invariant, the processors that run after the handoff.
  \<^item> Devices (\<open>Qspi\<close>, \<open>Boot_Devices\<close>, \<open>Ddr_Addr_Map\<close>): the initialisation makes a flash ready and a copy delivers its
    bytes, within the limits the properties name; rank sizes against the JEDEC formula; the address map registers decode
    every bit where the layout puts it.
  \<^item> The wire (\<open>Serializer\<close>, \<open>Websocket\<close>, \<open>Sha1\<close>, \<open>Handshake\<close>): round trips, the frames of RFC 6455, equality with the
    SHA-1 of FIPS 180-4.
  \<^item> The server (\<open>Session\<close>, \<open>Session_Manager\<close>, \<open>Drivers\<close>): a session executes exactly what the client sent; the pool
    invariant over all interleavings; the drivers are built in order, each once.
  \<^item> The client (\<open>Client_Context\<close>, \<open>Client_Types\<close>, \<open>Koheron_Client\<close>): the description is read back as generated, a
    remote call is the local one.

  Interfaces. The locale \<open>boot_device\<close> is the contract between the header reader and a device, \<open>qspi_boot\<close> the serial
  flash as its provider; \<open>command_channel\<close> is the contract between the session loop and a connection, \<open>tcp\<close> and \<open>ws\<close>
  its two providers; \<open>instance_frame\<close> collects what the functions of the second stage leave as it is.
\<close>

text \<open>
  Not modelled.

  \<^item> The register values of the DDR controller and PHY (\<open>xfsbl_ddr_init.c\<close>): timing arithmetic in floating point and
    long lists of register writes.
  \<^item> USB boot (\<open>xfsbl_usb.c\<close>, \<open>xfsbl_dfu_util.c\<close>), which the configuration excludes; the code for the Xilinx evaluation
    boards and for other I2C controllers, which is not compiled; the 32-bit processors as the loader's own.
  \<^item> Printing, performance counters and the exception handlers, which only call the lock-down.
  \<^item> The copies of string functions of the C library, the translation table of the MMU and the linker scripts.
  \<^item> The generated \<open>psu\<close> functions, the drivers of the board support package, the cryptographic engines, the FAT file
    system, Linux, its sockets and devices: parameters, as their sources are not in the repository.
  \<^item> The drivers of single instruments and boards, which are arguments of the drivers manager; opening the listening
    sockets and signals (\<open>listening_channel.cpp\<close>, \<open>server.cpp\<close>), with the main thread's \<open>delete_all\<close> beside running
    sessions and the sharing of one session manager by three listeners; the thin wrappers of \<open>src/server/context\<close>.
  \<^item> The FPGA cores, the web application, the Python client and the build of the operating system.
\<close>

end
